(* ===== verification/Prelude.thy ===== *)
theory Prelude
  imports Main "HOL-Library.AList" "HOL-Library.Char_ord" "HOL-Library.List_Lexorder" "HOL-Library.Sublist"
begin

text \<open>
  What every component of the development shares: the Python values the code passes around
  (\<open>py\<close>), the dictionaries (association lists in insertion order, with the update and delete of
  \<open>HOL-Library.AList\<close>), the string methods of \<open>str\<close> that the sources call, and the
  exception-and-state sequencing used by the components that write to a host.

  A character is a code point below 256. The classes of the string methods (\<open>str.isspace\<close>,
  \<open>str.lower\<close>, the boundaries of \<open>str.splitlines\<close>) are written out for that range.
  Numbers are Python's unbounded integers; floating-point values are outside the value type.
\<close>

named_theorems dict_simps \<open>laws of the dictionary operations\<close>
named_theorems str_simps \<open>laws of the string methods\<close>
named_theorems exn_simps \<open>unfolding of the exception-and-state sequencing\<close>

section \<open>Characters and strings\<close>

definition py_isspace :: "char \<Rightarrow> bool" where
  "py_isspace c = (let n = of_char c :: nat in
     9 \<le> n \<and> n \<le> 13 \<or> 28 \<le> n \<and> n \<le> 32 \<or> n = 133 \<or> n = 160)"

definition is_digit :: "char \<Rightarrow> bool" where
  "is_digit c = (let n = of_char c :: nat in 48 \<le> n \<and> n \<le> 57)"

definition is_upper :: "char \<Rightarrow> bool" where
  "is_upper c = (let n = of_char c :: nat in 65 \<le> n \<and> n \<le> 90)"

definition is_lower :: "char \<Rightarrow> bool" where
  "is_lower c = (let n = of_char c :: nat in 97 \<le> n \<and> n \<le> 122)"

definition is_alpha :: "char \<Rightarrow> bool" where
  "is_alpha c = (is_upper c \<or> is_lower c)"

definition is_alnum :: "char \<Rightarrow> bool" where
  "is_alnum c = (is_alpha c \<or> is_digit c)"

definition lower_char :: "char \<Rightarrow> char" where
  "lower_char c = (let n = of_char c :: nat in
     if 65 \<le> n \<and> n \<le> 90 \<or> 192 \<le> n \<and> n \<le> 214 \<or> 216 \<le> n \<and> n \<le> 222
     then char_of (n + 32) else c)"

definition lower :: "string \<Rightarrow> string" where
  "lower s = map lower_char s"

definition lstrip :: "string \<Rightarrow> string" where
  "lstrip s = dropWhile py_isspace s"

definition rstrip_by :: "(char \<Rightarrow> bool) \<Rightarrow> string \<Rightarrow> string" where
  "rstrip_by P s = rev (dropWhile P (rev s))"

definition strip_by :: "(char \<Rightarrow> bool) \<Rightarrow> string \<Rightarrow> string" where
  "strip_by P s = rstrip_by P (dropWhile P s)"

definition strip :: "string \<Rightarrow> string" where
  "strip s = strip_by py_isspace s"

definition blank :: "string \<Rightarrow> bool" where
  "blank s = (strip s = [])"

text \<open>\<open>s.partition(c)\<close> for a one-character separator: head, whether it was found, tail.\<close>

definition partition_char :: "char \<Rightarrow> string \<Rightarrow> string \<times> bool \<times> string" where
  "partition_char c s =
     (takeWhile (\<lambda>x. x \<noteq> c) s, c \<in> set s, drop 1 (dropWhile (\<lambda>x. x \<noteq> c) s))"

text \<open>\<open>s.split()\<close>: the maximal runs of characters that are not whitespace.\<close>

fun split_ws_acc :: "string \<Rightarrow> string \<Rightarrow> string list" where
  "split_ws_acc acc [] = (if acc = [] then [] else [rev acc])"
| "split_ws_acc acc (c # s) =
     (if py_isspace c then (if acc = [] then split_ws_acc [] s else rev acc # split_ws_acc [] s)
      else split_ws_acc (c # acc) s)"

definition split_ws :: "string \<Rightarrow> string list" where
  "split_ws s = split_ws_acc [] s"

text \<open>\<open>s.split(c)\<close> for a one-character separator.\<close>

fun split_char :: "char \<Rightarrow> string \<Rightarrow> string list" where
  "split_char c [] = [[]]"
| "split_char c (x # s) =
     (if x = c then [] # split_char c s
      else (case split_char c s of [] \<Rightarrow> [[x]] | w # ws \<Rightarrow> (x # w) # ws))"

text \<open>\<open>s.splitlines()\<close>: no final empty line, and carriage return with line feed is one boundary.\<close>

definition line_end :: "char \<Rightarrow> bool" where
  "line_end c = (let n = of_char c :: nat in 10 \<le> n \<and> n \<le> 13 \<or> 28 \<le> n \<and> n \<le> 30 \<or> n = 133)"

fun splitlines_acc :: "string \<Rightarrow> string \<Rightarrow> string list" where
  "splitlines_acc acc [] = (if acc = [] then [] else [rev acc])"
| "splitlines_acc acc (c # s) =
     (if line_end c then
        rev acc # splitlines_acc []
          (if c = CHR 0x0D \<and> s \<noteq> [] \<and> hd s = CHR 0x0A then tl s else s)
      else splitlines_acc (c # acc) s)"

definition splitlines :: "string \<Rightarrow> string list" where
  "splitlines s = splitlines_acc [] s"

fun join :: "string \<Rightarrow> string list \<Rightarrow> string" where
  "join sep [] = []"
| "join sep [x] = x"
| "join sep (x # y # xs) = x @ sep @ join sep (y # xs)"

definition nl :: string where
  "nl = [CHR 0x0A]"

text \<open>\<open>a in s\<close> for strings: \<open>a\<close> occurs in \<open>s\<close> as a contiguous block.\<close>

fun contains :: "string \<Rightarrow> string \<Rightarrow> bool" where
  "contains a [] = (a = [])"
| "contains a (c # s) = (prefix a (c # s) \<or> contains a s)"

fun dec_nat :: "nat \<Rightarrow> string" where
  "dec_nat n = (if n < 10 then [char_of (48 + n)] else dec_nat (n div 10) @ [char_of (48 + n mod 10)])"

declare dec_nat.simps [simp del]

definition dec_int :: "int \<Rightarrow> string" where
  "dec_int i = (if i < 0 then CHR ''-'' # dec_nat (nat (- i)) else dec_nat (nat i))"

text \<open>\<open>int(s)\<close> on a run of decimal digits.\<close>

fun nat_of_digits :: "nat \<Rightarrow> string \<Rightarrow> nat" where
  "nat_of_digits n [] = n"
| "nat_of_digits n (c # s) = nat_of_digits (10 * n + (of_char c - 48)) s"

subsection \<open>Laws of the string methods\<close>

lemma dropWhile_idem [simp]: "dropWhile P (dropWhile P s) = dropWhile P s"
  by (induction s) auto

lemma rstrip_by_Nil [simp]: "rstrip_by P [] = []"
  by (simp add: rstrip_by_def)

lemma rstrip_by_snoc: "rstrip_by P (s @ [c]) = (if P c then rstrip_by P s else s @ [c])"
  by (simp add: rstrip_by_def)

lemma rstrip_by_idem [simp]: "rstrip_by P (rstrip_by P s) = rstrip_by P s"
  by (simp add: rstrip_by_def)

lemma rstrip_by_Cons_keep: "\<not> P c \<Longrightarrow> rstrip_by P (c # s) = c # rstrip_by P s"
  by (induction s rule: rev_induct) (auto simp: rstrip_by_snoc rstrip_by_snoc [of P "c # _", simplified] rstrip_by_def)

lemma dropWhile_rstrip_by: "dropWhile P s = s \<Longrightarrow> dropWhile P (rstrip_by P s) = rstrip_by P s"
proof (cases s)
  case (Cons c t)
  assume "dropWhile P s = s"
  with Cons have "\<not> P c"
    by (metis dropWhile.simps(2) impossible_Cons length_dropWhile_le)
  with Cons show ?thesis by (simp add: rstrip_by_Cons_keep)
qed simp

lemma strip_by_idem [simp]: "strip_by P (strip_by P s) = strip_by P s"
  by (simp add: strip_by_def dropWhile_rstrip_by)

lemma strip_idem [simp]: "strip (strip s) = strip s"
  by (simp add: strip_def)

lemma strip_by_eq_Nil: "strip_by P s = [] \<longleftrightarrow> (\<forall>c \<in> set s. P c)"
proof
  assume "strip_by P s = []"
  then have "\<forall>c \<in> set (dropWhile P s). P c"
    by (simp add: strip_by_def rstrip_by_def dropWhile_eq_Nil_conv)
  then have "dropWhile P s = []"
    by (metis hd_dropWhile hd_in_set)
  then show "\<forall>c \<in> set s. P c" by (simp add: dropWhile_eq_Nil_conv)
next
  assume "\<forall>c \<in> set s. P c"
  then have "dropWhile P s = []" by (simp add: dropWhile_eq_Nil_conv)
  then show "strip_by P s = []" unfolding strip_by_def by (simp only: rstrip_by_Nil)
qed

lemma blank_iff: "blank s \<longleftrightarrow> (\<forall>c \<in> set s. py_isspace c)"
  by (simp add: blank_def strip_def strip_by_eq_Nil)

lemma set_strip_by: "set (strip_by P s) \<subseteq> set s"
  by (auto simp: strip_by_def rstrip_by_def dest!: set_dropWhileD)

lemma strip_id: "\<forall>c \<in> set s. \<not> P c \<Longrightarrow> strip_by P s = s"
proof -
  assume a: "\<forall>c \<in> set s. \<not> P c"
  have *: "dropWhile P t = t" if "\<forall>c \<in> set t. \<not> P c" for t
    using that by (cases t) auto
  from a have "dropWhile P s = s" "dropWhile P (rev s) = rev s" by (simp_all add: *)
  then show ?thesis by (simp add: strip_by_def rstrip_by_def)
qed

lemma partition_char_join:
  "c \<in> set s \<Longrightarrow> (case partition_char c s of (h, _, t) \<Rightarrow> h @ c # t) = s"
  by (induction s) (auto simp: partition_char_def)

lemma partition_char_line: "c \<notin> set k \<Longrightarrow> partition_char c (k @ c # d) = (k, True, d)"
  by (induction k) (auto simp: partition_char_def)

lemma split_char_nonempty: "split_char c s \<noteq> []"
  by (induction s) (auto split: list.split)

lemma join_Cons: "xs \<noteq> [] \<Longrightarrow> join sep (x # xs) = x @ sep @ join sep xs"
  by (cases xs) auto

lemma join_split_char: "join [c] (split_char c s) = s"
proof (induction s)
  case (Cons x s)
  obtain w ws where w: "split_char c s = w # ws"
    using split_char_nonempty [of c s] by (cases "split_char c s") auto
  with Cons.IH show ?case by (cases ws) auto
qed simp

lemma split_ws_acc_words:
  "\<forall>c \<in> set acc. \<not> py_isspace c \<Longrightarrow>
   w \<in> set (split_ws_acc acc s) \<Longrightarrow> w \<noteq> [] \<and> (\<forall>c \<in> set w. \<not> py_isspace c)"
proof (induction s arbitrary: acc)
  case Nil
  then show ?case by (simp split: if_splits)
next
  case (Cons c s)
  show ?case
  proof (cases "py_isspace c")
    case True
    with Cons.prems Cons.IH [of "[]"] show ?thesis by (auto split: if_splits)
  next
    case False
    with Cons.prems Cons.IH [of "c # acc"] show ?thesis by simp
  qed
qed

lemma split_ws_words: "w \<in> set (split_ws s) \<Longrightarrow> w \<noteq> [] \<and> (\<forall>c \<in> set w. \<not> py_isspace c)"
  unfolding split_ws_def by (rule split_ws_acc_words) auto

lemma dec_nat_digits: "\<forall>c \<in> set (dec_nat n). is_digit c"
proof (induction n rule: dec_nat.induct)
  case (1 n)
  have d: "is_digit (char_of (48 + m))" if "m < 10" for m :: nat
    using that by (simp add: is_digit_def)
  show ?case
  proof (cases "n < 10")
    case True
    then show ?thesis by (subst dec_nat.simps) (simp add: d)
  next
    case False
    with 1 show ?thesis by (subst dec_nat.simps) (auto simp: d)
  qed
qed

lemma dec_nat_nonempty: "dec_nat n \<noteq> []"
  by (subst dec_nat.simps) simp

section \<open>Python values\<close>

datatype py =
    PNone
  | PBool bool
  | PInt int
  | PStr string
  | PList "py list"
  | PDict "(string \<times> py) list"

type_synonym dict = "(string \<times> py) list"

fun truthy :: "py \<Rightarrow> bool" where
  "truthy PNone = False"
| "truthy (PBool b) = b"
| "truthy (PInt i) = (i \<noteq> 0)"
| "truthy (PStr s) = (s \<noteq> [])"
| "truthy (PList xs) = (xs \<noteq> [])"
| "truthy (PDict d) = (d \<noteq> [])"

text \<open>
  Python's \<open>==\<close>: \<open>True\<close> is 1 and \<open>False\<close> is 0, and two dictionaries are equal when they hold
  equal values under the same keys, whatever the order.
\<close>

fun py_eq :: "py \<Rightarrow> py \<Rightarrow> bool" where
  "py_eq PNone w = (w = PNone)"
| "py_eq (PBool b) w = (case w of PBool c \<Rightarrow> b = c | PInt j \<Rightarrow> of_bool b = j | _ \<Rightarrow> False)"
| "py_eq (PInt i) w = (case w of PBool c \<Rightarrow> i = of_bool c | PInt j \<Rightarrow> i = j | _ \<Rightarrow> False)"
| "py_eq (PStr s) w = (w = PStr s)"
| "py_eq (PList xs) w = (case w of PList ys \<Rightarrow> list_all2 py_eq xs ys | _ \<Rightarrow> False)"
| "py_eq (PDict d) w = (case w of
       PDict e \<Rightarrow> length d = length e \<and>
         list_all (\<lambda>kv. case map_of e (fst kv) of None \<Rightarrow> False | Some v \<Rightarrow> py_eq (snd kv) v) d
     | _ \<Rightarrow> False)"

text \<open>\<open>x is None or (isinstance(x, str) and not x.strip())\<close>, the absent-or-blank test of the store.\<close>

fun is_blank :: "py \<Rightarrow> bool" where
  "is_blank PNone = True"
| "is_blank (PStr s) = blank s"
| "is_blank _ = False"

text \<open>\<open>d.get(k)\<close>: the value, or \<open>None\<close>.\<close>

definition dget :: "dict \<Rightarrow> string \<Rightarrow> py" where
  "dget d k = (case map_of d k of None \<Rightarrow> PNone | Some v \<Rightarrow> v)"

definition has_key :: "dict \<Rightarrow> string \<Rightarrow> bool" where
  "has_key d k = (map_of d k \<noteq> None)"

definition dset :: "string \<Rightarrow> py \<Rightarrow> dict \<Rightarrow> dict" where
  "dset = AList.update"

definition ddel :: "string \<Rightarrow> dict \<Rightarrow> dict" where
  "ddel = AList.delete"

definition wf_dict :: "('k \<times> 'v) list \<Rightarrow> bool" where
  "wf_dict d = distinct (map fst d)"

text \<open>\<open>repr\<close> and \<open>str\<close> of a value.\<close>

definition hex_digit :: "nat \<Rightarrow> char" where
  "hex_digit n = (if n < 10 then char_of (48 + n) else char_of (87 + n))"

definition printable :: "char \<Rightarrow> bool" where
  "printable c = (let n = of_char c :: nat in 32 \<le> n \<and> n \<le> 126 \<or> 161 \<le> n \<and> n \<noteq> 173)"

definition repr_char :: "char \<Rightarrow> char \<Rightarrow> string" where
  "repr_char q c =
     (if c = q \<or> c = CHR 0x5C then [CHR 0x5C, c]
      else if c = CHR 0x0A then [CHR 0x5C, CHR ''n'']
      else if c = CHR 0x0D then [CHR 0x5C, CHR ''r'']
      else if c = CHR 0x09 then [CHR 0x5C, CHR ''t'']
      else if printable c then [c]
      else [CHR 0x5C, CHR ''x'', hex_digit (of_char c div 16), hex_digit (of_char c mod 16)])"

definition repr_str :: "string \<Rightarrow> string" where
  "repr_str s = (let q = (if CHR 0x27 \<in> set s \<and> CHR 0x22 \<notin> set s then CHR 0x22 else CHR 0x27)
     in q # concat (map (repr_char q) s) @ [q])"

fun py_repr :: "py \<Rightarrow> string" where
  "py_repr PNone = ''None''"
| "py_repr (PBool b) = (if b then ''True'' else ''False'')"
| "py_repr (PInt i) = dec_int i"
| "py_repr (PStr s) = repr_str s"
| "py_repr (PList xs) = ''['' @ join '', '' (map py_repr xs) @ '']''"
| "py_repr (PDict d) =
     [CHR 0x7B] @ join '', '' (map (\<lambda>kv. repr_str (fst kv) @ '': '' @ py_repr (snd kv)) d) @ [CHR 0x7D]"

fun py_str :: "py \<Rightarrow> string" where
  "py_str (PStr s) = s"
| "py_str v = py_repr v"

text \<open>\<open>str(v or "")\<close>, and the same stripped.\<close>

definition str_or :: "py \<Rightarrow> string" where
  "str_or v = (if truthy v then py_str v else [])"

definition strip_or :: "py \<Rightarrow> string" where
  "strip_or v = strip (str_or v)"

subsection \<open>Laws of the dictionary operations\<close>

lemma map_of_dset [dict_simps]: "map_of (dset k v d) = (map_of d)(k \<mapsto> v)"
  by (simp add: dset_def update_conv')

lemma map_of_ddel [dict_simps]: "map_of (ddel k d) = (map_of d)(k := None)"
  by (simp add: ddel_def delete_conv')

lemma wf_dset [dict_simps]: "wf_dict d \<Longrightarrow> wf_dict (dset k v d)"
  by (simp add: wf_dict_def dset_def distinct_update)

lemma wf_ddel [dict_simps]: "wf_dict d \<Longrightarrow> wf_dict (ddel k d)"
  by (simp add: wf_dict_def ddel_def distinct_delete)

lemma dget_dset [dict_simps]: "dget (dset k v d) j = (if j = k then v else dget d j)"
  by (simp add: dget_def map_of_dset)

lemma dget_ddel [dict_simps]: "dget (ddel k d) j = (if j = k then PNone else dget d j)"
  by (simp add: dget_def map_of_ddel)

lemma has_key_dset [dict_simps]: "has_key (dset k v d) j \<longleftrightarrow> j = k \<or> has_key d j"
  by (simp add: has_key_def map_of_dset)

lemma has_key_ddel [dict_simps]: "has_key (ddel k d) j \<longleftrightarrow> j \<noteq> k \<and> has_key d j"
  by (simp add: has_key_def map_of_ddel)

lemma dset_same: "map_of d k = Some v \<Longrightarrow> dset k v d = d"
  by (induction d) (auto simp: dset_def split: if_splits)

lemma ddel_absent: "map_of d k = None \<Longrightarrow> ddel k d = d"
  by (simp add: ddel_def map_of_eq_None_iff image_image delete_id)

lemma dset_nonempty [simp]: "dset k v d \<noteq> []"
  by (cases d) (auto simp: dset_def)

lemma not_blank_truthy: "\<not> is_blank v \<Longrightarrow> v = PStr s \<Longrightarrow> truthy v"
  by (auto simp: blank_def strip_def strip_by_def)

lemma py_eq_refl_str [simp]: "py_eq (PStr s) (PStr s)"
  by simp

lemma wf_dict_map_of: "wf_dict d \<Longrightarrow> (k, v) \<in> set d \<longleftrightarrow> map_of d k = Some v"
  unfolding wf_dict_def by (auto dest: map_of_SomeD simp: map_of_eq_Some_iff)

lemma map_of_filter_key:
  "map_of (filter (\<lambda>kv. P (fst kv)) d) k = (if P k then map_of d k else None)"
  by (induction d) auto

section \<open>Exceptions and state\<close>

text \<open>
  A step of a component that acts on a host takes the host's state and gives the state it leaves
  with the value it returned or the exception it raised. An exception keeps the state reached so
  far, as Python's does.
\<close>

type_synonym ('s, 'e, 'a) sem = "'s \<Rightarrow> ('e + 'a) \<times> 's"

definition ret :: "'a \<Rightarrow> ('s, 'e, 'a) sem" where
  "ret x s = (Inr x, s)"

definition raise :: "'e \<Rightarrow> ('s, 'e, 'a) sem" where
  "raise e s = (Inl e, s)"

definition bindS :: "('s, 'e, 'a) sem \<Rightarrow> ('a \<Rightarrow> ('s, 'e, 'b) sem) \<Rightarrow> ('s, 'e, 'b) sem" where
  "bindS m f s = (case m s of (Inl e, s') \<Rightarrow> (Inl e, s') | (Inr x, s') \<Rightarrow> f x s')"

definition thenS :: "('s, 'e, 'a) sem \<Rightarrow> ('s, 'e, 'b) sem \<Rightarrow> ('s, 'e, 'b) sem" where
  "thenS m k = bindS m (\<lambda>_. k)"

definition getS :: "('s \<Rightarrow> 'a) \<Rightarrow> ('s, 'e, 'a) sem" where
  "getS f s = (Inr (f s), s)"

definition modS :: "('s \<Rightarrow> 's) \<Rightarrow> ('s, 'e, unit) sem" where
  "modS f s = (Inr (), f s)"

text \<open>
  \<open>try: m except BaseException: h; raise\<close>: the handler runs on the state the failure left, and
  its own failure replaces the one being handled.
\<close>

definition on_error :: "('s, 'e, 'a) sem \<Rightarrow> ('s, 'e, unit) sem \<Rightarrow> ('s, 'e, 'a) sem" where
  "on_error m h s = (case m s of
      (Inr x, s') \<Rightarrow> (Inr x, s')
    | (Inl e, s') \<Rightarrow> (case h s' of (Inr _, s'') \<Rightarrow> (Inl e, s'') | (Inl e', s'') \<Rightarrow> (Inl e', s'')))"

text \<open>\<open>try: m finally: f\<close>.\<close>

definition finallyS :: "('s, 'e, 'a) sem \<Rightarrow> ('s, 'e, unit) sem \<Rightarrow> ('s, 'e, 'a) sem" where
  "finallyS m f s = (case m s of
      (r, s') \<Rightarrow> (case f s' of (Inr _, s'') \<Rightarrow> (r, s'') | (Inl e', s'') \<Rightarrow> (Inl e', s'')))"

definition whenS :: "bool \<Rightarrow> ('s, 'e, unit) sem \<Rightarrow> ('s, 'e, unit) sem" where
  "whenS b m = (if b then m else ret ())"

lemmas sem_defs = ret_def raise_def bindS_def thenS_def getS_def modS_def whenS_def

lemma bindS_ret [exn_simps]: "bindS (ret x) f = f x"
  by (simp add: fun_eq_iff sem_defs)

lemma bindS_raise [exn_simps]: "bindS (raise e) f = raise e"
  by (simp add: fun_eq_iff sem_defs)

lemma bindS_assoc: "bindS (bindS m f) g = bindS m (\<lambda>x. bindS (f x) g)"
  by (auto simp: fun_eq_iff bindS_def split: prod.split sum.split)

lemma thenS_ret [exn_simps]: "thenS (ret x) k = k"
  by (simp add: thenS_def bindS_ret)

text \<open>
  An observation of the state that a step keeps whatever it returns, and how the sequencing
  operations keep it: a frame of a component's step is proved from the frames of its parts.
\<close>

definition keeps :: "('s \<Rightarrow> 'o) \<Rightarrow> ('s, 'e, 'a) sem \<Rightarrow> bool" where
  "keeps obs m = (\<forall>s. obs (snd (m s)) = obs s)"

named_theorems keeps_intros \<open>frame rules of the sequencing operations\<close>

lemma keeps_ret [keeps_intros]: "keeps obs (ret x)"
  by (simp add: keeps_def ret_def)

lemma keeps_raise [keeps_intros]: "keeps obs (raise e)"
  by (simp add: keeps_def raise_def)

lemma keeps_getS [keeps_intros]: "keeps obs (getS f)"
  by (simp add: keeps_def getS_def)

lemma keeps_modS: "(\<And>s. obs (f s) = obs s) \<Longrightarrow> keeps obs (modS f)"
  by (simp add: keeps_def modS_def)

lemma keeps_bindS [keeps_intros]:
  assumes "keeps obs m" and "\<And>x. keeps obs (f x)"
  shows "keeps obs (bindS m f)"
proof -
  have "obs (snd (bindS m f s)) = obs s" for s
  proof (cases "m s")
    case (Pair r s')
    then have "obs s' = obs s" using assms(1) by (metis keeps_def snd_conv)
    then show ?thesis using assms(2) Pair
      by (auto simp: bindS_def keeps_def split: sum.split)
  qed
  then show ?thesis by (simp add: keeps_def)
qed

lemma keeps_thenS [keeps_intros]: "keeps obs m \<Longrightarrow> keeps obs k \<Longrightarrow> keeps obs (thenS m k)"
  by (simp add: thenS_def keeps_bindS)

lemma keeps_whenS [keeps_intros]: "keeps obs m \<Longrightarrow> keeps obs (whenS b m)"
  by (simp add: whenS_def keeps_ret)

lemma keeps_finallyS [keeps_intros]:
  assumes "keeps obs m" and "keeps obs f"
  shows "keeps obs (finallyS m f)"
proof -
  have "obs (snd (finallyS m f s)) = obs s" for s
  proof (cases "m s")
    case (Pair r s')
    moreover have "obs (snd (f s')) = obs s'" using assms(2) by (simp add: keeps_def)
    moreover have "obs s' = obs s" using assms(1) Pair by (metis keeps_def snd_conv)
    ultimately show ?thesis
      by (auto simp: finallyS_def split: prod.split sum.split)
  qed
  then show ?thesis by (simp add: keeps_def)
qed

lemma keeps_if [keeps_intros]: "keeps obs m \<Longrightarrow> keeps obs k \<Longrightarrow> keeps obs (if b then m else k)"
  by simp

text \<open>
  Triples: from a state satisfying the first predicate, a step that returns ends in the second and
  a step that raises ends in the third.
\<close>

definition triple :: "('s \<Rightarrow> bool) \<Rightarrow> ('s, 'e, 'a) sem \<Rightarrow> ('a \<Rightarrow> 's \<Rightarrow> bool) \<Rightarrow> ('s \<Rightarrow> bool) \<Rightarrow> bool" where
  "triple P m Q E = (\<forall>s. P s \<longrightarrow> (case m s of (Inr x, s') \<Rightarrow> Q x s' | (Inl e, s') \<Rightarrow> E s'))"

lemma tripleI:
  "(\<And>s x s'. P s \<Longrightarrow> m s = (Inr x, s') \<Longrightarrow> Q x s') \<Longrightarrow>
   (\<And>s e s'. P s \<Longrightarrow> m s = (Inl e, s') \<Longrightarrow> E s') \<Longrightarrow> triple P m Q E"
  by (auto simp: triple_def split: prod.split sum.split)

lemma triple_Inr: "triple P m Q E \<Longrightarrow> P s \<Longrightarrow> m s = (Inr x, s') \<Longrightarrow> Q x s'"
  by (auto simp: triple_def)

lemma triple_Inl: "triple P m Q E \<Longrightarrow> P s \<Longrightarrow> m s = (Inl e, s') \<Longrightarrow> E s'"
  by (auto simp: triple_def)

lemma triple_weaken:
  assumes "triple P m Q E" and "\<And>s. P' s \<Longrightarrow> P s" and "\<And>x s. Q x s \<Longrightarrow> Q' x s" and "\<And>s. E s \<Longrightarrow> E' s"
  shows "triple P' m Q' E'"
  by (rule tripleI) (use assms in \<open>blast dest: triple_Inr triple_Inl\<close>)+

lemma triple_bindS:
  assumes "triple P m R E" and "\<And>x. triple (R x) (f x) Q E"
  shows "triple P (bindS m f) Q E"
  using assms by (fastforce simp: triple_def bindS_def split: prod.splits sum.splits)

lemma triple_thenS: "triple P m (\<lambda>_. R) E \<Longrightarrow> triple R k Q E \<Longrightarrow> triple P (thenS m k) Q E"
  unfolding thenS_def by (rule triple_bindS)

lemma triple_ret: "(\<And>s. P s \<Longrightarrow> Q x s) \<Longrightarrow> triple P (ret x) Q E"
  by (simp add: triple_def ret_def)

lemma triple_raise: "(\<And>s. P s \<Longrightarrow> E s) \<Longrightarrow> triple P (raise e) Q E"
  by (simp add: triple_def raise_def)

lemma triple_on_error:
  assumes "triple P m Q E'" and "triple E' h (\<lambda>_. E) E"
  shows "triple P (on_error m h) Q E"
  using assms by (fastforce simp: triple_def on_error_def split: prod.splits sum.splits)

lemma triple_finallyS:
  assumes "triple P m (\<lambda>_. R) R" and "triple R f (\<lambda>_. S) S"
  shows "triple P (finallyS m f) (\<lambda>_. S) S"
  using assms by (fastforce simp: triple_def finallyS_def split: prod.splits sum.splits)

lemma triple_conj:
  assumes "triple P m Q E" and "triple P' m Q' E'"
  shows "triple (\<lambda>s. P s \<and> P' s) m (\<lambda>x s. Q x s \<and> Q' x s) (\<lambda>s. E s \<and> E' s)"
  by (rule tripleI) (use assms in \<open>blast dest: triple_Inr triple_Inl\<close>)+

lemma triple_True: "triple P m (\<lambda>_ _. True) (\<lambda>_. True)"
  by (rule tripleI) auto

lemma triple_if: "triple P m Q E \<Longrightarrow> triple P k Q E \<Longrightarrow> triple P (if b then m else k) Q E"
  by simp

lemma triple_keeps: "keeps obs m \<Longrightarrow> triple (\<lambda>s. I (obs s)) m (\<lambda>_ s. I (obs s)) (\<lambda>s. I (obs s))"
  unfolding keeps_def triple_def by (metis (mono_tags, lifting) case_prod_beta snd_conv split_beta sum.case_eq_if)

lemma keeps_on_error [keeps_intros]:
  assumes "keeps obs m" and "keeps obs h"
  shows "keeps obs (on_error m h)"
proof -
  have "obs (snd (on_error m h s)) = obs s" for s
  proof (cases "m s")
    case (Pair r s')
    moreover have "obs (snd (h s')) = obs s'" using assms(2) by (simp add: keeps_def)
    moreover have "obs s' = obs s" using assms(1) Pair by (metis keeps_def snd_conv)
    ultimately show ?thesis
      by (auto simp: on_error_def split: prod.split sum.split)
  qed
  then show ?thesis by (simp add: keeps_def)
qed

text \<open>An invariant: kept whether the step returns or raises.\<close>

definition inv :: "('s \<Rightarrow> bool) \<Rightarrow> ('s, 'e, 'a) sem \<Rightarrow> bool" where
  "inv I m = triple I m (\<lambda>_. I) I"

named_theorems inv_intros \<open>invariant rules of the sequencing operations\<close>

lemma inv_ret [inv_intros]: "inv I (ret x)"
  by (simp add: inv_def triple_ret)

lemma inv_raise [inv_intros]: "inv I (raise e)"
  by (simp add: inv_def triple_raise)

lemma inv_bindS [inv_intros]: "inv I m \<Longrightarrow> (\<And>x. inv I (f x)) \<Longrightarrow> inv I (bindS m f)"
  unfolding inv_def by (rule triple_bindS)

lemma inv_thenS [inv_intros]: "inv I m \<Longrightarrow> inv I k \<Longrightarrow> inv I (thenS m k)"
  unfolding inv_def by (rule triple_thenS)

lemma inv_finallyS [inv_intros]: "inv I m \<Longrightarrow> inv I f \<Longrightarrow> inv I (finallyS m f)"
  unfolding inv_def by (rule triple_finallyS)

lemma inv_on_error [inv_intros]: "inv I m \<Longrightarrow> inv I h \<Longrightarrow> inv I (on_error m h)"
  unfolding inv_def by (rule triple_on_error)

lemma inv_modS: "(\<And>s. I s \<Longrightarrow> I (f s)) \<Longrightarrow> inv I (modS f)"
  by (simp add: inv_def triple_def modS_def)

lemma inv_if [inv_intros]: "inv I m \<Longrightarrow> inv I k \<Longrightarrow> inv I (if b then m else k)"
  by simp

lemma inv_step: "inv I m \<Longrightarrow> I s \<Longrightarrow> I (snd (m s))"
  by (cases "m s"; cases "fst (m s)") (auto simp: inv_def triple_def)

text \<open>\<open>try: m except E as e: k\<close> for the exceptions \<open>h\<close> takes.\<close>

definition catchS :: "('s, 'e, 'a) sem \<Rightarrow> ('e \<Rightarrow> ('s, 'e, 'a) sem option) \<Rightarrow> ('s, 'e, 'a) sem" where
  "catchS m h s = (case m s of
      (Inl e, s') \<Rightarrow> (case h e of Some k \<Rightarrow> k s' | None \<Rightarrow> (Inl e, s'))
    | (Inr x, s') \<Rightarrow> (Inr x, s'))"

lemma inv_getS [inv_intros]: "inv I (getS f)"
  by (simp add: inv_def triple_def getS_def)

lemma inv_whenS [inv_intros]: "inv I m \<Longrightarrow> inv I (whenS b m)"
  by (simp add: whenS_def inv_ret)

lemma inv_catchS [inv_intros]:
  assumes "inv I m" and "\<And>e k. h e = Some k \<Longrightarrow> inv I k"
  shows "inv I (catchS m h)"
proof -
  have "case catchS m h s of (Inr x, s') \<Rightarrow> I s' | (Inl e, s') \<Rightarrow> I s'" if "I s" for s
  proof (cases "m s")
    case (Pair r s')
    then have "I s'" using assms(1) that by (auto simp: inv_def triple_def split: sum.splits)
    then show ?thesis
      using Pair assms(2) by (auto simp: catchS_def inv_def triple_def split: sum.split option.split)
  qed
  then show ?thesis by (auto simp: inv_def triple_def)
qed

lemma keeps_catchS [keeps_intros]:
  assumes "keeps obs m" and "\<And>e k. h e = Some k \<Longrightarrow> keeps obs k"
  shows "keeps obs (catchS m h)"
proof -
  have "obs (snd (catchS m h s)) = obs s" for s
  proof (cases "m s")
    case (Pair r s')
    then have "obs s' = obs s" using assms(1) by (metis keeps_def snd_conv)
    then show ?thesis
      using Pair assms(2) by (auto simp: catchS_def keeps_def split: sum.split option.split)
  qed
  then show ?thesis by (simp add: keeps_def)
qed

lemma catchS_Inr_iff: "catchS m h s = (Inr y, s') \<longleftrightarrow> m s = (Inr y, s') \<or> (\<exists>e s1 k. m s = (Inl e, s1) \<and> h e = Some k \<and> k s1 = (Inr y, s'))"
  by (auto simp: catchS_def split: prod.splits sum.splits option.splits)

text \<open>A sequence that returned: what its parts returned.\<close>

lemma bindS_Inr_iff: "bindS m f s = (Inr y, s') \<longleftrightarrow> (\<exists>x s1. m s = (Inr x, s1) \<and> f x s1 = (Inr y, s'))"
  by (auto simp: bindS_def split: prod.splits sum.splits)

lemma thenS_Inr_iff: "thenS m k s = (Inr y, s') \<longleftrightarrow> (\<exists>x s1. m s = (Inr x, s1) \<and> k s1 = (Inr y, s'))"
  by (simp add: thenS_def bindS_Inr_iff)

lemma ret_Inr_iff: "ret x s = (Inr y, s') \<longleftrightarrow> y = x \<and> s' = s" and raise_not_Inr: "raise e s \<noteq> (Inr y, s')"
  by (auto simp: ret_def raise_def)

text \<open>A sequence that raised: its first part did, or its second after the first returned.\<close>

lemma bindS_Inl_iff: "bindS m f s = (Inl e, s') \<longleftrightarrow> m s = (Inl e, s') \<or> (\<exists>x s1. m s = (Inr x, s1) \<and> f x s1 = (Inl e, s'))"
  by (auto simp: bindS_def split: prod.splits sum.splits)

lemma thenS_Inl_iff: "thenS m k s = (Inl e, s') \<longleftrightarrow> m s = (Inl e, s') \<or> (\<exists>x s1. m s = (Inr x, s1) \<and> k s1 = (Inl e, s'))"
  by (simp add: thenS_def bindS_Inl_iff)

text \<open>The exceptions a step can raise.\<close>

definition raises_only :: "('e \<Rightarrow> bool) \<Rightarrow> ('s, 'e, 'a) sem \<Rightarrow> bool" where
  "raises_only P m = (\<forall>s e s'. m s = (Inl e, s') \<longrightarrow> P e)"

named_theorems raises_intros \<open>the exceptions of the sequencing operations\<close>

lemma raises_only_ret [raises_intros]: "raises_only P (ret x)" and raises_only_raise [raises_intros]: "P e \<Longrightarrow> raises_only P (raise e)"
  and raises_only_getS [raises_intros]: "raises_only P (getS f)" and raises_only_modS [raises_intros]: "raises_only P (modS g)"
  by (auto simp: raises_only_def sem_defs)

lemma raises_only_bindS [raises_intros]: "raises_only P m \<Longrightarrow> (\<And>x. raises_only P (f x)) \<Longrightarrow> raises_only P (bindS m f)"
  unfolding raises_only_def bindS_Inl_iff by blast

lemma raises_only_thenS [raises_intros]: "raises_only P m \<Longrightarrow> raises_only P k \<Longrightarrow> raises_only P (thenS m k)"
  unfolding raises_only_def thenS_Inl_iff by blast

lemma raises_only_if [raises_intros]: "raises_only P m \<Longrightarrow> raises_only P k \<Longrightarrow> raises_only P (if b then m else k)"
  by simp

text \<open>Errors without state: \<open>bindR\<close> sequences functions that may raise.\<close>

definition bindR :: "'e + 'a \<Rightarrow> ('a \<Rightarrow> 'e + 'b) \<Rightarrow> 'e + 'b" where
  "bindR r f = (case r of Inl e \<Rightarrow> Inl e | Inr x \<Rightarrow> f x)"

lemma bindR_simps [simp]: "bindR (Inl e) f = Inl e" "bindR (Inr x) f = f x"
  by (simp_all add: bindR_def)

lemma bindR_Inr_iff: "bindR r f = Inr y \<longleftrightarrow> (\<exists>x. r = Inr x \<and> f x = Inr y)"
  by (cases r) auto

end
