(* ===== verification/Minting.thy ===== *)
theory Minting
  imports Prelude "HOL-Library.Word"
begin

text \<open>
  The minters of \<open>helpers/onbox_config.py\<close>: how a secret value is made from random bytes. The
  operating system's randomness is an unlimited supply of bytes (\<open>entropy\<close>), read from a position
  that every draw advances. The theory proves the format contract of each minter: length and
  alphabet, that no minted value is blank, and that the oauth2-proxy cookie secret decodes to the
  32 bytes it was made from.
\<close>

section \<open>The randomness supply and the encodings\<close>

type_synonym entropy = "nat \<Rightarrow> 8 word"

definition urandom :: "entropy \<Rightarrow> nat \<Rightarrow> nat \<Rightarrow> nat list" where
  "urandom ent pos n = map (\<lambda>i. unat (ent i)) [pos..<pos + n]"

definition b64_std :: string where
  "b64_std = ''ABCDEFGHIJKLMNOPQRSTUVWXYZabcdefghijklmnopqrstuvwxyz0123456789+/''"

definition b64_url :: string where
  "b64_url = ''ABCDEFGHIJKLMNOPQRSTUVWXYZabcdefghijklmnopqrstuvwxyz0123456789-_''"

fun b64encode :: "string \<Rightarrow> nat list \<Rightarrow> string" where
  "b64encode al [] = []"
| "b64encode al [a] = [al ! (a div 4), al ! (a mod 4 * 16), CHR ''='', CHR ''='']"
| "b64encode al [a, b] =
     [al ! (a div 4), al ! (a mod 4 * 16 + b div 16), al ! (b mod 16 * 4), CHR ''='']"
| "b64encode al (a # b # c # r) =
     [al ! (a div 4), al ! (a mod 4 * 16 + b div 16), al ! (b mod 16 * 4 + c div 64), al ! (c mod 64)]
     @ b64encode al r"

definition rstrip_eq :: "string \<Rightarrow> string" where
  "rstrip_eq s = rstrip_by (\<lambda>c. c = CHR ''='') s"

definition hexlify :: "nat list \<Rightarrow> string" where
  "hexlify bs = concat (map (\<lambda>b. [hex_digit (b div 16), hex_digit (b mod 16)]) bs)"

section \<open>The minters\<close>

definition mint_strong_password :: "entropy \<Rightarrow> nat \<Rightarrow> string \<times> nat" where
  "mint_strong_password ent pos = (b64encode b64_std (urandom ent pos 48), pos + 48)"

definition mint_hc_api_key :: "entropy \<Rightarrow> nat \<Rightarrow> string \<times> nat" where
  "mint_hc_api_key ent pos = (hexlify (urandom ent pos 16), pos + 16)"

definition token_urlsafe :: "nat \<Rightarrow> entropy \<Rightarrow> nat \<Rightarrow> string \<times> nat" where
  "token_urlsafe n ent pos = (rstrip_eq (b64encode b64_url (urandom ent pos n)), pos + n)"

definition mint_url_safe :: "entropy \<Rightarrow> nat \<Rightarrow> string \<times> nat" where
  "mint_url_safe = token_urlsafe 24"

definition mint_oauth2_proxy_cookie_secret :: "entropy \<Rightarrow> nat \<Rightarrow> string \<times> nat" where
  "mint_oauth2_proxy_cookie_secret ent pos =
     (rstrip_eq (b64encode b64_url (urandom ent pos 32)), pos + 32)"

definition mint_admin_password :: "entropy \<Rightarrow> nat \<Rightarrow> string \<times> nat" where
  "mint_admin_password = token_urlsafe 15"

text \<open>The registries name a minter per key.\<close>

datatype minter = Strong_Password | Hc_Api_Key | Url_Safe | Cookie_Secret | Admin_Password

fun mint :: "minter \<Rightarrow> entropy \<Rightarrow> nat \<Rightarrow> string \<times> nat" where
  "mint Strong_Password = mint_strong_password"
| "mint Hc_Api_Key = mint_hc_api_key"
| "mint Url_Safe = mint_url_safe"
| "mint Cookie_Secret = mint_oauth2_proxy_cookie_secret"
| "mint Admin_Password = mint_admin_password"

fun minted_length :: "minter \<Rightarrow> nat" where
  "minted_length Strong_Password = 64"
| "minted_length Hc_Api_Key = 32"
| "minted_length Url_Safe = 32"
| "minted_length Cookie_Secret = 43"
| "minted_length Admin_Password = 20"

text \<open>
  What reads a cookie secret back: oauth2-proxy's unpadded url-safe base64 decoding, as a partial
  function on the character values.
\<close>

fun index_of :: "string \<Rightarrow> char \<Rightarrow> nat option" where
  "index_of [] c = None"
| "index_of (x # xs) c = (if x = c then Some 0 else map_option Suc (index_of xs c))"

fun raw_b64_values :: "nat list \<Rightarrow> nat list option" where
  "raw_b64_values [] = Some []"
| "raw_b64_values [_] = None"
| "raw_b64_values [p, q] = Some [p * 4 + q div 16]"
| "raw_b64_values [p, q, r] = Some [p * 4 + q div 16, q mod 16 * 16 + r div 4]"
| "raw_b64_values (p # q # r # t # more) =
     map_option (\<lambda>bs. [p * 4 + q div 16, q mod 16 * 16 + r div 4, r mod 4 * 64 + t] @ bs)
       (raw_b64_values more)"

definition raw_url_decode :: "string \<Rightarrow> nat list option" where
  "raw_url_decode s =
     (case those (map (index_of b64_url) s) of None \<Rightarrow> None | Some vs \<Rightarrow> raw_b64_values vs)"

section \<open>Lengths and alphabets\<close>

lemma length_urandom [simp]: "length (urandom ent pos n) = n"
  by (simp add: urandom_def)

lemma urandom_byte: "b \<in> set (urandom ent pos n) \<Longrightarrow> b < 256"
  using unsigned_less [where ?'b = 8 and ?'a = nat] by (auto simp: urandom_def)

lemma length_alphabets [simp]: "length b64_std = 64" "length b64_url = 64"
  by (simp_all add: b64_std_def b64_url_def)

lemma distinct_b64_url: "distinct b64_url"
  by (simp add: b64_url_def)

lemma length_b64encode: "length (b64encode al bs) = 4 * ((length bs + 2) div 3)"
proof (induction al bs rule: b64encode.induct)
  case (4 al a b c r)
  have "(length (a # b # c # r) + 2) div 3 = (length r + 2) div 3 + 1" by simp
  with 4 show ?case by simp
qed simp_all

lemma nth_alphabet: "n < 64 \<Longrightarrow> length al = 64 \<Longrightarrow> al ! n \<in> set al"
  by simp

lemma b64_digits:
  fixes a b c :: nat
  assumes "a < 256" "b < 256" "c < 256"
  shows "a div 4 < 64" "a mod 4 * 16 < 64" "a mod 4 * 16 + b div 16 < 64" "b mod 16 * 4 < 64"
    "b mod 16 * 4 + c div 64 < 64" "c mod 64 < 64"
proof -
  have a: "a mod 4 \<le> 3" and b: "b mod 16 \<le> 15" by (simp_all add: less_Suc_eq_le [symmetric])
  have b': "b div 16 \<le> 15" and c: "c div 64 \<le> 3" using assms by (simp_all add: less_Suc_eq_le [symmetric] div_less_iff_less_mult)
  show "a div 4 < 64" using assms by (simp add: div_less_iff_less_mult)
  show "a mod 4 * 16 < 64" using a by simp
  show "a mod 4 * 16 + b div 16 < 64" using a b' by linarith
  show "b mod 16 * 4 < 64" using b by simp
  show "b mod 16 * 4 + c div 64 < 64" using b c by linarith
  show "c mod 64 < 64" by simp
qed

lemma set_b64encode:
  "length al = 64 \<Longrightarrow> \<forall>b \<in> set bs. b < 256 \<Longrightarrow>
   set (b64encode al bs) \<subseteq> insert (CHR ''='') (set al)"
proof (induction al bs rule: b64encode.induct)
  case (2 al a)
  then show ?case using b64_digits [of a 0 0] by (simp add: nth_alphabet)
next
  case (3 al a b)
  then show ?case using b64_digits [of a b 0] by (simp add: nth_alphabet)
next
  case (4 al a b c r)
  then show ?case using b64_digits [of a b c] by (simp add: nth_alphabet)
qed simp

text \<open>The encoding without its padding: one character per six bits, rounded up.\<close>

fun b64raw :: "string \<Rightarrow> nat list \<Rightarrow> string" where
  "b64raw al [] = []"
| "b64raw al [a] = [al ! (a div 4), al ! (a mod 4 * 16)]"
| "b64raw al [a, b] = [al ! (a div 4), al ! (a mod 4 * 16 + b div 16), al ! (b mod 16 * 4)]"
| "b64raw al (a # b # c # r) =
     [al ! (a div 4), al ! (a mod 4 * 16 + b div 16), al ! (b mod 16 * 4 + c div 64), al ! (c mod 64)]
     @ b64raw al r"

lemma length_b64raw: "length (b64raw al bs) = (4 * length bs + 2) div 3"
proof (induction al bs rule: b64raw.induct)
  case (4 al a b c r)
  have "(4 * length (a # b # c # r) + 2) div 3 = (4 * length r + 2) div 3 + 4" by simp
  with 4 show ?case by simp
qed simp_all

lemma set_b64raw: "length al = 64 \<Longrightarrow> \<forall>b \<in> set bs. b < 256 \<Longrightarrow> set (b64raw al bs) \<subseteq> set al"
proof (induction al bs rule: b64raw.induct)
  case (2 al a)
  then show ?case using b64_digits [of a 0 0] by (simp add: nth_alphabet)
next
  case (3 al a b)
  then show ?case using b64_digits [of a b 0] by (simp add: nth_alphabet)
next
  case (4 al a b c r)
  then show ?case using b64_digits [of a b c] by (simp add: nth_alphabet)
qed simp

lemma b64encode_pad: "\<exists>k. b64encode al bs = b64raw al bs @ replicate k (CHR ''='')"
proof (induction al bs rule: b64encode.induct)
  case (1 al)
  show ?case by simp
next
  case (2 al a)
  show ?case by (rule exI [of _ 2]) (simp add: numeral_2_eq_2)
next
  case (3 al a b)
  show ?case by (rule exI [of _ 1]) simp
next
  case (4 al a b c r)
  then show ?case by auto
qed

lemma rstrip_by_append_all: "\<forall>c \<in> set t. P c \<Longrightarrow> rstrip_by P (s @ t) = rstrip_by P s"
proof -
  assume "\<forall>c \<in> set t. P c"
  then have "dropWhile P (rev t @ rev s) = dropWhile P (rev s)"
    by (intro dropWhile_append2) simp
  then show ?thesis by (simp add: rstrip_by_def)
qed

lemma rstrip_by_id: "\<forall>c \<in> set s. \<not> P c \<Longrightarrow> rstrip_by P s = s"
  by (induction s rule: rev_induct) (auto simp: rstrip_by_snoc)

lemma rstrip_eq_b64encode:
  assumes "\<forall>b \<in> set bs. b < 256"
  shows "rstrip_eq (b64encode b64_url bs) = b64raw b64_url bs"
proof -
  obtain k where k: "b64encode b64_url bs = b64raw b64_url bs @ replicate k (CHR ''='')"
    using b64encode_pad by blast
  have "set (b64raw b64_url bs) \<subseteq> set b64_url"
    using assms by (intro set_b64raw) auto
  moreover have "CHR ''='' \<notin> set b64_url" by (simp add: b64_url_def)
  ultimately have "rstrip_by (\<lambda>c. c = CHR ''='') (b64raw b64_url bs) = b64raw b64_url bs"
    by (intro rstrip_by_id) auto
  with k show ?thesis by (simp add: rstrip_eq_def rstrip_by_append_all)
qed

lemma token_urlsafe_raw: "fst (token_urlsafe n ent pos) = b64raw b64_url (urandom ent pos n)"
  unfolding token_urlsafe_def fst_conv
  by (rule rstrip_eq_b64encode) (auto dest: urandom_byte)

lemma cookie_secret_raw:
  "fst (mint_oauth2_proxy_cookie_secret ent pos) = b64raw b64_url (urandom ent pos 32)"
  unfolding mint_oauth2_proxy_cookie_secret_def fst_conv
  by (rule rstrip_eq_b64encode) (auto dest: urandom_byte)

lemma length_concat_pairs: "length (concat (map (\<lambda>b. [f b, g b]) bs)) = 2 * length bs"
  by (induction bs) auto

lemma length_mint: "length (fst (mint m ent pos)) = minted_length m"
  by (cases m)
    (simp_all add: mint_strong_password_def length_b64encode mint_hc_api_key_def hexlify_def
      length_concat_pairs mint_url_safe_def mint_admin_password_def token_urlsafe_raw
      cookie_secret_raw length_b64raw)

section \<open>No minted value is blank\<close>

definition url_path_char :: "char \<Rightarrow> bool" where
  "url_path_char c = (is_alnum c \<or> c = CHR ''-'' \<or> c = CHR ''_'')"

lemma alphabets_checked:
  "list_all (\<lambda>c. \<not> py_isspace c) b64_std" "list_all (\<lambda>c. url_path_char c \<and> \<not> py_isspace c) b64_url"
  by code_simp+

lemma alphabet_not_space:
  "c \<in> set b64_std \<Longrightarrow> \<not> py_isspace c" "c \<in> set b64_url \<Longrightarrow> \<not> py_isspace c"
  using alphabets_checked by (auto simp: list_all_iff)

lemma b64_url_path: "c \<in> set b64_url \<Longrightarrow> url_path_char c"
  using alphabets_checked(2) by (auto simp: list_all_iff)

lemma hex_digit_alnum: "n < 16 \<Longrightarrow> is_alnum (hex_digit n)"
  by (auto simp: hex_digit_def is_alnum_def is_digit_def is_alpha_def is_lower_def is_upper_def)

lemma alnum_not_space: "is_alnum c \<Longrightarrow> \<not> py_isspace c"
  by (auto simp: is_alnum_def is_alpha_def is_upper_def is_lower_def is_digit_def py_isspace_def Let_def)

lemma hexlify_alnum: "\<forall>b \<in> set bs. b < 256 \<Longrightarrow> c \<in> set (hexlify bs) \<Longrightarrow> is_alnum c"
  by (auto simp: hexlify_def intro!: hex_digit_alnum)

lemma url_safe_chars: "c \<in> set (fst (token_urlsafe n ent pos)) \<Longrightarrow> c \<in> set b64_url"
  using set_b64raw [of b64_url "urandom ent pos n"] urandom_byte
  by (auto simp: token_urlsafe_raw)

lemma mint_no_space: "c \<in> set (fst (mint m ent pos)) \<Longrightarrow> \<not> py_isspace c"
proof (cases m)
  case Strong_Password
  assume "c \<in> set (fst (mint m ent pos))"
  with Strong_Password have "c \<in> insert (CHR ''='') (set b64_std)"
    using set_b64encode [of b64_std "urandom ent pos 48"] urandom_byte
    by (auto simp: mint_strong_password_def)
  then show ?thesis using alphabet_not_space(1) by (auto simp: py_isspace_def)
next
  case Hc_Api_Key
  assume "c \<in> set (fst (mint m ent pos))"
  with Hc_Api_Key have "c \<in> set (hexlify (urandom ent pos 16))"
    by (simp add: mint_hc_api_key_def)
  then have "is_alnum c" by (rule hexlify_alnum [rotated]) (auto dest: urandom_byte)
  then show ?thesis by (rule alnum_not_space)
next
  case Cookie_Secret
  assume "c \<in> set (fst (mint m ent pos))"
  with Cookie_Secret have "c \<in> set b64_url"
    using set_b64raw [of b64_url "urandom ent pos 32"] urandom_byte
    by (auto simp: cookie_secret_raw)
  then show ?thesis by (rule alphabet_not_space(2))
qed (auto simp: mint_url_safe_def mint_admin_password_def dest: url_safe_chars alphabet_not_space(2))

lemma mint_not_blank: "\<not> is_blank (PStr (fst (mint m ent pos)))"
proof -
  have "fst (mint m ent pos) \<noteq> []"
    using length_mint [of m ent pos] by (cases m) auto
  then obtain c where "c \<in> set (fst (mint m ent pos))" by fastforce
  then show ?thesis using mint_no_space by (auto simp: blank_iff)
qed

section \<open>The cookie secret decodes to its bytes\<close>

lemma index_of_nth: "distinct al \<Longrightarrow> n < length al \<Longrightarrow> index_of al (al ! n) = Some n"
proof (induction al arbitrary: n)
  case (Cons x al)
  then show ?case by (cases n) auto
qed simp

lemma index_b64_url: "n < 64 \<Longrightarrow> index_of b64_url (b64_url ! n) = Some n"
  by (simp add: index_of_nth distinct_b64_url)

fun b64_values :: "nat list \<Rightarrow> nat list" where
  "b64_values [] = []"
| "b64_values [a] = [a div 4, a mod 4 * 16]"
| "b64_values [a, b] = [a div 4, a mod 4 * 16 + b div 16, b mod 16 * 4]"
| "b64_values (a # b # c # r) =
     [a div 4, a mod 4 * 16 + b div 16, b mod 16 * 4 + c div 64, c mod 64] @ b64_values r"

lemma b64raw_values: "b64raw al bs = map ((!) al) (b64_values bs)"
  by (induction bs rule: b64_values.induct) simp_all

lemma b64_values_bound: "\<forall>b \<in> set bs. b < 256 \<Longrightarrow> v \<in> set (b64_values bs) \<Longrightarrow> v < 64"
proof (induction bs rule: b64_values.induct)
  case (2 a)
  then show ?case using b64_digits [of a 0 0] by auto
next
  case (3 a b)
  then show ?case using b64_digits [of a b 0] by auto
next
  case (4 a b c r)
  then show ?case using b64_digits [of a b c] by auto
qed simp

lemma those_map_Some: "\<forall>x \<in> set xs. f x = Some (g x) \<Longrightarrow> those (map f xs) = Some (map g xs)"
  by (induction xs) auto

lemma unpack_bytes:
  fixes a b c :: nat
  assumes "a < 256" "b < 256" "c < 256"
  shows "a div 4 * 4 + a mod 4 * 16 div 16 = a"
    "a div 4 * 4 + (a mod 4 * 16 + b div 16) div 16 = a"
    "(a mod 4 * 16 + b div 16) mod 16 * 16 + b mod 16 * 4 div 4 = b"
    "(a mod 4 * 16 + b div 16) mod 16 * 16 + (b mod 16 * 4 + c div 64) div 4 = b"
    "(b mod 16 * 4 + c div 64) mod 4 * 64 + c mod 64 = c"
proof -
  have b: "b div 16 < 16" "b div 16 div 16 = 0" "b div 16 mod 16 = b div 16"
    and c: "c div 64 < 4" "c div 64 div 4 = 0" "c div 64 mod 4 = c div 64"
    using assms by (simp_all add: div_less_iff_less_mult)
  show "a div 4 * 4 + a mod 4 * 16 div 16 = a" by simp
  show "a div 4 * 4 + (a mod 4 * 16 + b div 16) div 16 = a" using b by simp
  show "(a mod 4 * 16 + b div 16) mod 16 * 16 + b mod 16 * 4 div 4 = b" using b by simp
  show "(a mod 4 * 16 + b div 16) mod 16 * 16 + (b mod 16 * 4 + c div 64) div 4 = b"
    using b c by simp
  show "(b mod 16 * 4 + c div 64) mod 4 * 64 + c mod 64 = c" using c by simp
qed

lemma raw_b64_values_inverse: "\<forall>b \<in> set bs. b < 256 \<Longrightarrow> raw_b64_values (b64_values bs) = Some bs"
proof (induction bs rule: b64_values.induct)
  case (2 a)
  then show ?case using unpack_bytes [of a 0 0] by simp
next
  case (3 a b)
  then show ?case using unpack_bytes [of a b 0] by simp
next
  case (4 a b c r)
  then show ?case using unpack_bytes [of a b c] by simp
qed simp

lemma raw_url_decode_b64raw:
  assumes "\<forall>b \<in> set bs. b < 256"
  shows "raw_url_decode (b64raw b64_url bs) = Some bs"
proof -
  have "those (map (index_of b64_url) (b64raw b64_url bs)) = Some (map id (b64_values bs))"
    unfolding b64raw_values map_map
    by (rule those_map_Some) (use assms b64_values_bound index_b64_url in auto)
  then show ?thesis using raw_b64_values_inverse [OF assms] by (simp add: raw_url_decode_def)
qed

lemma cookie_secret_decodes:
  "raw_url_decode (fst (mint_oauth2_proxy_cookie_secret ent pos)) = Some (urandom ent pos 32)"
  unfolding cookie_secret_raw by (rule raw_url_decode_b64raw) (auto dest: urandom_byte)

lemma ping_key_path_safe: "c \<in> set (fst (mint_url_safe ent pos)) \<Longrightarrow> url_path_char c"
  by (simp add: mint_url_safe_def url_safe_chars b64_url_path)

end
