(* ===== verification/Onbox_Config.thy ===== *)
theory Onbox_Config
  imports Minting
begin

text \<open>
  The on-box configuration store, \<open>src/ansible/helpers/onbox_config.py\<close>. The store is one JSON
  file with a \<open>secrets\<close> and a \<open>config\<close> section of this helper's and blocks of other writers. This
  theory models the knob registry's projections, the minting of missing secrets, the merge of
  client-supplied values, the tailnet provider's settling, the preservation of an outgoing zone
  token, the store's reading and atomic writing, its lock, and the command line's flows.

  The registry \<open>knobs.yml\<close> is read at run time, so the operations take it as an argument
  (\<open>knobs\<close>). The decoding of a JSON text inside a value (\<open>CLOUDFLARE_ZONES\<close> given as a string)
  is an argument too (\<open>loads\<close>), and every theorem holds for any of it.
\<close>

section \<open>The knob registry\<close>

record knob_secret =
  ks_key :: string
  ks_panel :: bool

record knob_config =
  kc_key :: string
  kc_residence :: string
  kc_var :: "string option"
  kc_env :: "bool option" \<comment> \<open>\<open>env\<close> absent, or its \<open>reseed\<close>\<close>

record knobs =
  kn_secrets :: "knob_secret list"
  kn_config :: "knob_config list"

datatype cfg_error =
    NotExternal string
  | NotAnObject
  | TypeError
  | Malformed
  | NoRegistry "string list"
  | BadVersion
  | LockHeld
  | UnknownOp
  | BadPair string
  | WriteFailed

text \<open>\<open>_knobs_path\<close>: the first candidate that is a file.\<close>

definition knobs_candidates :: "string \<Rightarrow> string \<Rightarrow> string \<Rightarrow> string list" where
  "knobs_candidates explicit payload_lib here =
     (if strip explicit \<noteq> [] then [strip explicit] else [])
     @ (if strip payload_lib \<noteq> [] then [strip payload_lib @ ''/knobs.json''] else [])
     @ [''/usr/local/lib/catena/knobs.json'', here @ ''/knobs.yml'']"

definition knobs_path :: "(string \<Rightarrow> bool) \<Rightarrow> string \<Rightarrow> string \<Rightarrow> string \<Rightarrow> cfg_error + string" where
  "knobs_path is_file explicit payload_lib here =
     (let cs = knobs_candidates explicit payload_lib here in
      case find is_file cs of None \<Rightarrow> Inl (NoRegistry cs) | Some p \<Rightarrow> Inr p)"

definition external_secrets :: "knobs \<Rightarrow> string list" where
  "external_secrets kn = map ks_key (kn_secrets kn)"

definition panel_secrets :: "knobs \<Rightarrow> string list" where
  "panel_secrets kn = map ks_key (filter ks_panel (kn_secrets kn))
     @ [''backup_restic_password'', ''admin_password'']"

definition dict_of :: "('k \<times> 'v) list \<Rightarrow> ('k \<times> 'v) list" where
  "dict_of ps = foldl (\<lambda>d p. AList.update (fst p) (snd p) d) [] ps"

definition settings_config :: "knobs \<Rightarrow> (string \<times> string) list" where
  "settings_config kn = dict_of (List.map_filter
     (\<lambda>e. if kc_residence e = ''store'' then map_option (Pair (kc_key e)) (kc_var e) else None)
     (kn_config kn))"

definition env_seeded_config :: "knobs \<Rightarrow> string list" where
  "env_seeded_config kn =
     map kc_key (filter (\<lambda>e. kc_residence e = ''store'' \<and> kc_env e \<noteq> None) (kn_config kn))"

definition env_reseeded_config :: "knobs \<Rightarrow> string list" where
  "env_reseeded_config kn =
     map kc_key (filter (\<lambda>e. kc_key e \<in> set (env_seeded_config kn) \<and> kc_env e = Some True)
       (kn_config kn))"

definition bootstrap_config :: "knobs \<Rightarrow> string list" where
  "bootstrap_config kn = map kc_key (filter (\<lambda>e. kc_residence e = ''controller'') (kn_config kn))"

definition sorted_set :: "string list \<Rightarrow> string list" where
  "sorted_set xs = sort (remdups xs)"

definition config_names :: "knobs \<Rightarrow> string list" where
  "config_names kn = sorted_set (map fst (settings_config kn) @ bootstrap_config kn)"

section \<open>The secret registries\<close>

definition internal_secrets :: "(string \<times> minter) list" where
  "internal_secrets =
    [(''catena_postgres_password'', Strong_Password),
     (''catena_admin_session_key'', Strong_Password),
     (''catena_admin_gate_secret'', Strong_Password),
     (''catena_marketplace_token'', Url_Safe),
     (''keycloak_db_password'', Strong_Password),
     (''keycloak_automation_client_secret'', Strong_Password),
     (''oauth2_proxy_cookie_secret'', Cookie_Secret),
     (''catena_admin_gate_cookie_secret'', Cookie_Secret),
     (''healthchecks_gate_cookie_secret'', Cookie_Secret),
     (''gatus_gate_cookie_secret'', Cookie_Secret),
     (''beszel_gate_cookie_secret'', Cookie_Secret),
     (''oauth2_proxy_client_secret'', Strong_Password),
     (''dashboard_sync_client_secret'', Strong_Password),
     (''catena_admin_panel_client_secret'', Strong_Password),
     (''catena_identity_probe_client_secret'', Strong_Password),
     (''healthchecks_ping_key'', Url_Safe),
     (''healthchecks_api_key_readonly'', Hc_Api_Key),
     (''healthchecks_api_key_readwrite'', Hc_Api_Key),
     (''beszel_oidc_client_secret'', Strong_Password),
     (''zap_api_key'', Url_Safe)]"

definition user_held_secrets :: "(string \<times> minter) list" where
  "user_held_secrets =
    [(''admin_password'', Admin_Password),
     (''backup_restic_password'', Strong_Password),
     (''console_recovery_password'', Admin_Password)]"

definition minted_on_request :: "string list" where
  "minted_on_request = [''backup_restic_password'']"

definition secret_names :: "knobs \<Rightarrow> string list" where
  "secret_names kn =
     sorted_set (map fst internal_secrets @ map fst user_held_secrets @ external_secrets kn)"

section \<open>Zones\<close>

definition slug_char :: "char \<Rightarrow> bool" where
  "slug_char c = (is_lower c \<or> is_digit c)"

text \<open>\<open>re.sub("[^a-z0-9]+", "_", s)\<close>.\<close>

function collapse :: "string \<Rightarrow> string" where
  "collapse [] = []"
| "collapse (c # s) =
     (if slug_char c then c # collapse s
      else CHR ''_'' # collapse (dropWhile (\<lambda>x. \<not> slug_char x) s))"
  by pat_completeness auto
termination
  by (relation "measure length") (auto simp: le_imp_less_Suc length_dropWhile_le)

definition zone_slug :: "string \<Rightarrow> string" where
  "zone_slug zone = strip_by (\<lambda>c. c = CHR ''_'') (collapse (lower (strip zone)))"

definition zone_cookie_secret_key :: "string \<Rightarrow> string" where
  "zone_cookie_secret_key zone = ''oauth2_proxy_cookie_secret_'' @ zone_slug zone"

text \<open>What a \<open>for\<close> loop visits: a list's items, a dictionary's keys, a string's characters.\<close>

fun py_iter :: "py \<Rightarrow> cfg_error + py list" where
  "py_iter (PList xs) = Inr xs"
| "py_iter (PDict d) = Inr (map (\<lambda>kv. PStr (fst kv)) d)"
| "py_iter (PStr s) = Inr (map (\<lambda>c. PStr [c]) s)"
| "py_iter _ = Inl TypeError"

definition zone_entry_name :: "py \<Rightarrow> string option" where
  "zone_entry_name z =
     (let name = (case z of PDict d \<Rightarrow> dget d ''zone'' | _ \<Rightarrow> z)
      in case name of PStr s \<Rightarrow> if strip s \<noteq> [] then Some (strip s) else None | _ \<Rightarrow> None)"

definition configured_zone_names :: "(string \<Rightarrow> py option) \<Rightarrow> py \<Rightarrow> cfg_error + string list" where
  "configured_zone_names loads zones =
     (case (case zones of PStr s \<Rightarrow> loads s | _ \<Rightarrow> Some zones) of
        None \<Rightarrow> Inr []
      | Some zs \<Rightarrow>
          if \<not> truthy zs then Inr []
          else bindR (py_iter zs) (\<lambda>xs. Inr (List.map_filter zone_entry_name xs)))"

section \<open>Minting what is missing\<close>

record store =
  st_secrets :: dict
  st_config :: dict

definition missing :: "dict \<Rightarrow> string \<Rightarrow> bool" where
  "missing d k = is_blank (dget d k)"

text \<open>The loop both \<open>ensure\<close> functions run: mint a key that is absent or blank, keep any other.\<close>

fun mint_missing :: "entropy \<Rightarrow> (string \<times> minter) list \<Rightarrow> dict \<Rightarrow> nat \<Rightarrow> dict \<times> string list \<times> nat" where
  "mint_missing ent [] d pos = (d, [], pos)"
| "mint_missing ent ((key, m) # rest) d pos =
     (if missing d key then
        (let (v, pos1) = mint m ent pos;
             (d', minted, pos2) = mint_missing ent rest (dset key (PStr v) d) pos1
         in (d', key # minted, pos2))
      else mint_missing ent rest d pos)"

definition ensure_internal_secrets ::
  "(string \<Rightarrow> py option) \<Rightarrow> entropy \<Rightarrow> store \<Rightarrow> nat \<Rightarrow> cfg_error + (store \<times> string list \<times> nat)" where
  "ensure_internal_secrets loads ent st pos =
     (let (d1, minted1, pos1) = mint_missing ent internal_secrets (st_secrets st) pos
      in bindR (configured_zone_names loads (dget (st_config st) ''CLOUDFLARE_ZONES'')) (\<lambda>zones.
         let (d2, minted2, pos2) = mint_missing ent
               (map (\<lambda>z. (zone_cookie_secret_key z, Cookie_Secret)) zones) d1 pos1
         in Inr (st\<lparr>st_secrets := d2\<rparr>, minted1 @ minted2, pos2)))"

definition ensure_user_held_secrets :: "entropy \<Rightarrow> store \<Rightarrow> nat \<Rightarrow> store \<times> string list \<times> nat" where
  "ensure_user_held_secrets ent st pos =
     (let (d, minted, pos1) = mint_missing ent
            (filter (\<lambda>km. fst km \<notin> set minted_on_request) user_held_secrets) (st_secrets st) pos
      in (st\<lparr>st_secrets := d\<rparr>, minted, pos1))"

section \<open>The tailnet provider\<close>

definition tailnet_providers :: "string list" where
  "tailnet_providers = [''none'', ''tailscale'', ''headscale'']"

definition settle_tailnet_provider :: "store \<Rightarrow> store \<times> bool" where
  "settle_tailnet_provider st =
     (let method = strip_or (dget (st_config st) ''ACCESS_METHOD'');
          config = ddel ''ACCESS_METHOD'' (st_config st);
          stated = lower (strip_or (dget config ''TAILNET_PROVIDER''));
          provider =
            (if method = ''public_ssh'' then ''none''
             else if stated \<notin> set tailnet_providers then
               (if strip_or (dget config ''TAILNET_CONTROL_URL'') \<noteq> [] then ''headscale''
                else if method = ''tailnet''
                     \<or> truthy (dget (st_secrets st) ''tailscale_oauth_client_id'') then ''tailscale''
                else ''none'')
             else stated);
          changed = (method \<noteq> [] \<or> \<not> py_eq (dget config ''TAILNET_PROVIDER'') (PStr provider))
      in (st\<lparr>st_config := dset ''TAILNET_PROVIDER'' (PStr provider) config\<rparr>, changed))"

section \<open>Merging values into the store\<close>

fun adopt_items :: "bool \<Rightarrow> dict \<Rightarrow> dict \<Rightarrow> dict \<times> string list" where
  "adopt_items overwrite [] d = (d, [])"
| "adopt_items overwrite ((key, val) # rest) d =
     (if is_blank val \<or> \<not> overwrite \<and> truthy (dget d key) \<or> py_eq (dget d key) val
      then adopt_items overwrite rest d
      else (let (d', ks) = adopt_items overwrite rest (dset key val d) in (d', key # ks)))"

definition adopt :: "store \<Rightarrow> dict option \<Rightarrow> bool \<Rightarrow> store \<times> string list" where
  "adopt st mapping overwrite =
     (let (d, ks) = adopt_items overwrite (case mapping of None \<Rightarrow> [] | Some m \<Rightarrow> m) (st_secrets st)
      in (st\<lparr>st_secrets := d\<rparr>, ks))"

definition preserve_outgoing_zone_token :: "store \<Rightarrow> dict option \<Rightarrow> store \<times> string option" where
  "preserve_outgoing_zone_token st config_in =
     (case config_in of None \<Rightarrow> (st, None) | Some cin \<Rightarrow>
      if cin = [] \<or> \<not> has_key cin ''CLOUDFLARE_ZONE'' then (st, None)
      else
       (let new_zone = strip_or (dget cin ''CLOUDFLARE_ZONE'');
            old_zone = strip_or (dget (st_config st) ''CLOUDFLARE_ZONE'');
            outgoing = strip_or (dget (st_secrets st) ''cloudflare_api_token'');
            tokens = (case dget (st_secrets st) ''cloudflare_api_tokens'' of PDict d \<Rightarrow> d | _ \<Rightarrow> [])
        in if new_zone = [] \<or> old_zone = [] \<or> new_zone = old_zone then (st, None)
           else if outgoing = [] then (st, None)
           else if py_eq (dget tokens old_zone) (PStr outgoing) then (st, None)
           else (st\<lparr>st_secrets := dset ''cloudflare_api_tokens''
                       (PDict (dset old_zone (PStr outgoing) tokens)) (st_secrets st)\<rparr>,
                 Some old_zone)))"

text \<open>The secrets loop: an undeclared key raises, a blank value is passed over.\<close>

fun apply_secrets :: "knobs \<Rightarrow> bool \<Rightarrow> dict \<Rightarrow> dict \<Rightarrow> cfg_error + (dict \<times> string list)" where
  "apply_secrets kn overwrite [] d = Inr (d, [])"
| "apply_secrets kn overwrite ((key, val) # rest) d =
     (if key \<notin> set (external_secrets kn) then Inl (NotExternal key)
      else if is_blank val \<or> \<not> overwrite \<and> truthy (dget d key) then apply_secrets kn overwrite rest d
      else if \<not> py_eq (dget d key) val then
        bindR (apply_secrets kn overwrite rest (dset key val d)) (\<lambda>(d', ks). Inr (d', key # ks))
      else apply_secrets kn overwrite rest d)"

fun apply_config :: "bool \<Rightarrow> dict \<Rightarrow> dict \<Rightarrow> dict \<times> string list" where
  "apply_config overwrite [] d = (d, [])"
| "apply_config overwrite ((key, val) # rest) d =
     (if \<not> overwrite \<and> has_key d key then apply_config overwrite rest d
      else if \<not> py_eq (dget d key) val then
        (let (d', ks) = apply_config overwrite rest (dset key val d) in (d', key # ks))
      else apply_config overwrite rest d)"

definition apply_inputs ::
  "knobs \<Rightarrow> store \<Rightarrow> dict option \<Rightarrow> dict option \<Rightarrow> bool \<Rightarrow> cfg_error + (store \<times> string list)" where
  "apply_inputs kn st secrets_in config_in overwrite =
     (let (st1, kept) = preserve_outgoing_zone_token st config_in;
          changed0 = (case kept of None \<Rightarrow> [] | Some _ \<Rightarrow> [''cloudflare_api_tokens''])
      in bindR (apply_secrets kn overwrite (case secrets_in of None \<Rightarrow> [] | Some m \<Rightarrow> m) (st_secrets st1))
         (\<lambda>(sec, ks).
            let (cfg, cs) = apply_config overwrite (case config_in of None \<Rightarrow> [] | Some m \<Rightarrow> m) (st_config st1)
            in Inr (\<lparr>st_secrets = sec, st_config = cfg\<rparr>, changed0 @ ks @ cs)))"

section \<open>What leaves the store\<close>

definition settings_config_vars :: "knobs \<Rightarrow> dict \<Rightarrow> dict" where
  "settings_config_vars kn config =
     foldl (\<lambda>out kv. if has_key config (fst kv) then dset (snd kv) (dget config (fst kv)) out else out)
       [] (settings_config kn)"

definition panel_view :: "knobs \<Rightarrow> store \<Rightarrow> dict" where
  "panel_view kn st =
     [(''secrets'', PDict (filter (\<lambda>kv. fst kv \<in> set (panel_secrets kn)) (st_secrets st))),
      (''config'', PDict (st_config st))]"

section \<open>Reconcile, never overwrite\<close>

text \<open>
  The contract of every operation that fills the store: what it owns is present afterwards, a
  value that is present is kept, nothing else moves, and with nothing missing it does nothing.
\<close>

locale fill_only =
  fixes fill :: "dict \<Rightarrow> dict"
    and owned :: "string set"
  assumes fill_keeps: "\<not> missing d k \<Longrightarrow> map_of (fill d) k = map_of d k"
    and fill_owned: "k \<in> owned \<Longrightarrow> \<not> missing (fill d) k"
    and fill_frame: "k \<notin> owned \<Longrightarrow> map_of (fill d) k = map_of d k"
    and fill_inert: "\<forall>k \<in> owned. \<not> missing d k \<Longrightarrow> fill d = d"
begin

lemma fill_idem: "fill (fill d) = fill d"
  by (rule fill_inert) (simp add: fill_owned)

lemma fill_missing_iff: "missing (fill d) k \<longleftrightarrow> missing d k \<and> k \<notin> owned"
  using fill_keeps [of d k] fill_owned [of k d] fill_frame [of k d]
  by (cases "k \<in> owned"; cases "missing d k") (auto simp: missing_def dget_def)

end

locale fill_pair = first: fill_only f A + second: fill_only g B
  for f A g B
begin

lemma pair_inert: "\<forall>k \<in> A \<union> B. \<not> missing d k \<Longrightarrow> (g \<circ> f) d = d"
  using first.fill_inert [of d] second.fill_inert [of d] by simp

end

sublocale fill_pair \<subseteq> both: fill_only "g \<circ> f" "A \<union> B"
proof
  fix d k
  show "map_of ((g \<circ> f) d) k = map_of d k" if "\<not> missing d k"
    using that first.fill_keeps first.fill_missing_iff second.fill_keeps by simp
  show "\<not> missing ((g \<circ> f) d) k" if "k \<in> A \<union> B"
    using that first.fill_owned second.fill_missing_iff second.fill_owned by auto
  show "map_of ((g \<circ> f) d) k = map_of d k" if "k \<notin> A \<union> B"
    using that first.fill_frame second.fill_frame by simp
  show "(g \<circ> f) d = d" if "\<forall>k \<in> A \<union> B. \<not> missing d k"
    using that by (rule pair_inert)
qed

lemma missing_dset: "missing (dset k v d) j \<longleftrightarrow> (if j = k then is_blank v else missing d j)"
  by (simp add: missing_def dict_simps)

lemma missing_dset_minted:
  "mint m ent pos = (v, pos') \<Longrightarrow> missing (dset k (PStr v) d) j \<longleftrightarrow> j \<noteq> k \<and> missing d j"
  using mint_not_blank [of m ent pos] by (simp add: missing_dset)

lemma mint_missing_frame:
  "\<not> missing d k \<or> k \<notin> fst ` set ks \<Longrightarrow> map_of (fst (mint_missing ent ks d pos)) k = map_of d k"
proof (induction ent ks d pos rule: mint_missing.induct)
  case (2 ent key m rest d pos)
  obtain v pos1 where m: "mint m ent pos = (v, pos1)" by (cases "mint m ent pos")
  show ?case
  proof (cases "missing d key")
    case True
    have "map_of (fst (mint_missing ent rest (dset key (PStr v) d) pos1)) k
        = map_of (dset key (PStr v) d) k"
      using "2.IH"(1) [OF True m [symmetric] refl] "2.prems" True
      by (auto simp: missing_dset_minted [OF m])
    with True m "2.prems" show ?thesis
      by (auto simp: map_of_dset split: prod.split)
  next
    case False
    with "2.IH"(2) "2.prems" show ?thesis by auto
  qed
qed simp

lemma mint_missing_fills:
  "k \<in> fst ` set ks \<Longrightarrow> \<not> missing (fst (mint_missing ent ks d pos)) k"
proof (induction ent ks d pos rule: mint_missing.induct)
  case (2 ent key m rest d pos)
  obtain v pos1 where m: "mint m ent pos = (v, pos1)" by (cases "mint m ent pos")
  show ?case
  proof (cases "k \<in> fst ` set rest")
    case True
    with "2.IH" m show ?thesis by (auto split: prod.split)
  next
    case False
    with "2.prems" have k: "k = key" by auto
    let ?d = "if missing d key then dset key (PStr v) d else d"
    have "\<not> missing ?d k" using k by (simp add: missing_dset_minted [OF m])
    moreover have "fst (mint_missing ent ((key, m) # rest) d pos)
        = fst (mint_missing ent rest ?d (if missing d key then pos1 else pos))"
      using m by (simp split: prod.split)
    ultimately show ?thesis
      using mint_missing_frame [of ?d k rest ent] by (simp add: missing_def dget_def)
  qed
qed simp

lemma mint_missing_inert:
  "\<forall>k \<in> fst ` set ks. \<not> missing d k \<Longrightarrow> mint_missing ent ks d pos = (d, [], pos)"
  by (induction ks) auto

lemma mint_missing_minted:
  "distinct (map fst ks) \<Longrightarrow>
   fst (snd (mint_missing ent ks d pos)) = filter (missing d) (map fst ks)"
proof (induction ent ks d pos rule: mint_missing.induct)
  case (2 ent key m rest d pos)
  obtain v pos1 where m: "mint m ent pos = (v, pos1)" by (cases "mint m ent pos")
  show ?case
  proof (cases "missing d key")
    case True
    have "fst (snd (mint_missing ent rest (dset key (PStr v) d) pos1))
        = filter (missing (dset key (PStr v) d)) (map fst rest)"
      using "2.IH"(1) [OF True m [symmetric] refl] "2.prems" by simp
    also have "\<dots> = filter (missing d) (map fst rest)"
      using "2.prems" by (intro filter_cong refl) (auto simp: missing_dset_minted [OF m])
    finally show ?thesis using True m by (simp add: case_prod_beta)
  next
    case False
    with "2.IH"(2) "2.prems" show ?thesis by simp
  qed
qed simp

text \<open>A key that was minted holds what its own minter gave.\<close>

lemma mint_missing_value:
  assumes "(k, m) \<in> set ks" and "\<forall>m'. (k, m') \<in> set ks \<longrightarrow> m' = m" and "missing d k"
  shows "\<exists>p. map_of (fst (mint_missing ent ks d pos)) k = Some (PStr (fst (mint m ent p)))"
  using assms
proof (induction ent ks d pos rule: mint_missing.induct)
  case (2 ent key m1 rest d pos)
  obtain v pos1 where m: "mint m1 ent pos = (v, pos1)" by (cases "mint m1 ent pos")
  show ?case
  proof (cases "key = k")
    case True
    then have t: "m1 = m" "missing d key" using "2.prems"(2,3) by auto
    have "\<not> missing (dset key (PStr v) d) k" using True by (simp add: missing_dset_minted [OF m])
    then have "map_of (fst (mint_missing ent rest (dset key (PStr v) d) pos1)) k = map_of (dset key (PStr v) d) k"
      by (simp add: mint_missing_frame)
    moreover have "fst (mint_missing ent ((key, m1) # rest) d pos) = fst (mint_missing ent rest (dset key (PStr v) d) pos1)"
      using m t(2) by (simp add: case_prod_beta)
    ultimately have "map_of (fst (mint_missing ent ((key, m1) # rest) d pos)) k = map_of (dset key (PStr v) d) k" by (simp only:)
    also have "\<dots> = Some (PStr v)" using True by (simp add: map_of_dset)
    also have "v = fst (mint m ent pos)" using m t(1) by (metis fst_conv)
    finally have "map_of (fst (mint_missing ent ((key, m1) # rest) d pos)) k = Some (PStr (fst (mint m ent pos)))" .
    then show ?thesis by (rule exI)
  next
    case False
    then have r: "(k, m) \<in> set rest" using "2.prems"(1) by simp
    have u: "\<forall>m'. (k, m') \<in> set rest \<longrightarrow> m' = m"
      by (intro allI impI, rule "2.prems"(2) [rule_format]) simp
    show ?thesis
    proof (cases "missing d key")
      case True
      have "missing (dset key (PStr v) d) k" using False "2.prems"(3) by (simp add: missing_dset_minted [OF m])
      from "2.IH"(1) [OF True m [symmetric] refl r u this] True m show ?thesis by (simp add: case_prod_beta)
    next
      case miss: False
      from "2.IH"(2) [OF miss r u "2.prems"(3)] miss show ?thesis by simp
    qed
  qed
qed simp

text \<open>The keys it reports: each one once, and exactly those that were missing.\<close>

lemma mint_missing_reported:
  "distinct (fst (snd (mint_missing ent ks d pos)))
   \<and> set (fst (snd (mint_missing ent ks d pos))) = {k \<in> fst ` set ks. missing d k}"
proof (induction ent ks d pos rule: mint_missing.induct)
  case (2 ent key m rest d pos)
  obtain v pos1 where m: "mint m ent pos = (v, pos1)" by (cases "mint m ent pos")
  show ?case
  proof (cases "missing d key")
    case True
    let ?r = "fst (snd (mint_missing ent rest (dset key (PStr v) d) pos1))"
    have "distinct ?r" "set ?r = {k \<in> fst ` set rest. missing (dset key (PStr v) d) k}"
      using "2.IH"(1) [OF True m [symmetric] refl] by blast+
    moreover have "fst (snd (mint_missing ent ((key, m) # rest) d pos)) = key # ?r"
      using True m by (simp add: case_prod_beta)
    ultimately show ?thesis using True by (auto simp: missing_dset_minted [OF m])
  next
    case False
    with "2.IH"(2) show ?thesis by auto
  qed
qed simp

interpretation mm: fill_only "\<lambda>d. fst (mint_missing ent ks d pos)" "fst ` set ks" for ent ks pos
proof
  show "map_of (fst (mint_missing ent ks d pos)) k = map_of d k" if "\<not> missing d k" for d k
    using that by (simp add: mint_missing_frame)
  show "\<not> missing (fst (mint_missing ent ks d pos)) k" if "k \<in> fst ` set ks" for d k
    using that by (rule mint_missing_fills)
  show "map_of (fst (mint_missing ent ks d pos)) k = map_of d k" if "k \<notin> fst ` set ks" for d k
    using that by (simp add: mint_missing_frame)
  show "fst (mint_missing ent ks d pos) = d" if "\<forall>k \<in> fst ` set ks. \<not> missing d k" for d
    using mint_missing_inert [OF that] by simp
qed

definition zone_keys :: "string list \<Rightarrow> (string \<times> minter) list" where
  "zone_keys zones = map (\<lambda>z. (zone_cookie_secret_key z, Cookie_Secret)) zones"

interpretation internal: fill_pair
  "\<lambda>d. fst (mint_missing ent internal_secrets d pos)" "fst ` set internal_secrets"
  "\<lambda>d. fst (mint_missing ent (zone_keys zones) d pos')" "fst ` set (zone_keys zones)"
  for ent pos pos' zones
  by unfold_locales

text \<open>A successful run of \<open>ensure_internal_secrets\<close> is the two fills, one after the other.\<close>

lemma ensure_internal_secrets_fill:
  assumes "ensure_internal_secrets loads ent st pos = Inr (st', minted, pos')"
  obtains zones p where
    "configured_zone_names loads (dget (st_config st) ''CLOUDFLARE_ZONES'') = Inr zones"
    "st_secrets st' = ((\<lambda>d. fst (mint_missing ent (zone_keys zones) d p))
        \<circ> (\<lambda>d. fst (mint_missing ent internal_secrets d pos))) (st_secrets st)"
    "st_config st' = st_config st"
  using assms unfolding ensure_internal_secrets_def zone_keys_def
  by (auto simp: Let_def bindR_Inr_iff case_prod_beta)

lemma ensure_internal_keeps:
  assumes "ensure_internal_secrets loads ent st pos = Inr (st', minted, pos')"
    and "\<not> missing (st_secrets st) k"
  shows "map_of (st_secrets st') k = map_of (st_secrets st) k"
  using assms(1)
proof (rule ensure_internal_secrets_fill)
  fix zones p
  assume "st_secrets st' = ((\<lambda>d. fst (mint_missing ent (zone_keys zones) d p))
        \<circ> (\<lambda>d. fst (mint_missing ent internal_secrets d pos))) (st_secrets st)"
  then show ?thesis using internal.both.fill_keeps [OF assms(2)] by simp
qed

lemma ensure_internal_fills:
  assumes "ensure_internal_secrets loads ent st pos = Inr (st', minted, pos')"
    and "k \<in> fst ` set internal_secrets"
  shows "\<not> missing (st_secrets st') k"
  using assms(1)
proof (rule ensure_internal_secrets_fill)
  fix zones p
  assume "st_secrets st' = ((\<lambda>d. fst (mint_missing ent (zone_keys zones) d p))
        \<circ> (\<lambda>d. fst (mint_missing ent internal_secrets d pos))) (st_secrets st)"
  then show ?thesis using internal.both.fill_owned assms(2) by (metis UnI1)
qed

lemma ensure_internal_again:
  assumes "ensure_internal_secrets loads ent st pos = Inr (st', minted, pos')"
  shows "ensure_internal_secrets loads ent st' q = Inr (st', [], q)"
  using assms
proof (rule ensure_internal_secrets_fill)
  fix zones p
  assume z: "configured_zone_names loads (dget (st_config st) ''CLOUDFLARE_ZONES'') = Inr zones"
    and f: "st_secrets st' = ((\<lambda>d. fst (mint_missing ent (zone_keys zones) d p))
        \<circ> (\<lambda>d. fst (mint_missing ent internal_secrets d pos))) (st_secrets st)"
    and c: "st_config st' = st_config st"
  have "\<not> missing (st_secrets st') k" if "k \<in> fst ` set internal_secrets \<union> fst ` set (zone_keys zones)" for k
    unfolding f using that by (rule internal.both.fill_owned)
  then have "mint_missing ent internal_secrets (st_secrets st') q = (st_secrets st', [], q)"
    and "mint_missing ent (zone_keys zones) (st_secrets st') q = (st_secrets st', [], q)"
    by (auto intro!: mint_missing_inert)
  with z c show ?thesis
    by (simp add: ensure_internal_secrets_def zone_keys_def)
qed

text \<open>Both loops are one over the declared keys and the cookie keys of the zones.\<close>

definition wanted_secrets :: "string list \<Rightarrow> (string \<times> minter) list" where
  "wanted_secrets zones = internal_secrets @ map (\<lambda>z. (''oauth2_proxy_cookie_secret_'' @ zone_slug z, Cookie_Secret)) zones"

lemma mint_missing_append:
  "mint_missing ent (xs @ ys) d pos =
     (let (d1, a, p1) = mint_missing ent xs d pos; (d2, b, p2) = mint_missing ent ys d1 p1 in (d2, a @ b, p2))"
  by (induction ent xs d pos rule: mint_missing.induct) (auto simp: case_prod_beta Let_def)

lemma ensure_internal_once:
  assumes "ensure_internal_secrets loads ent st pos = Inr (st', minted, pos')"
    and "configured_zone_names loads (dget (st_config st) ''CLOUDFLARE_ZONES'') = Inr zones"
  shows "mint_missing ent (wanted_secrets zones) (st_secrets st) pos = (st_secrets st', minted, pos')"
  using assms
  by (auto simp: ensure_internal_secrets_def wanted_secrets_def zone_cookie_secret_key_def mint_missing_append Let_def case_prod_beta)

lemma wanted_one_minter:
  assumes "(k, m) \<in> set (wanted_secrets zones)" and "(k, m') \<in> set (wanted_secrets zones)"
  shows "m' = m"
proof -
  have "list_all (\<lambda>(k, m). \<not> prefix ''oauth2_proxy_cookie_secret_'' k) internal_secrets" "distinct (map fst internal_secrets)"
    by code_simp+
  then have i: "(k, m) \<in> set internal_secrets \<Longrightarrow> \<not> prefix ''oauth2_proxy_cookie_secret_'' k"
    "(k, m) \<in> set internal_secrets \<Longrightarrow> (k, m') \<in> set internal_secrets \<Longrightarrow> m' = m" for k m m'
    by (auto simp: list_all_iff dest: eq_key_imp_eq_value)
  have z: "prefix ''oauth2_proxy_cookie_secret_'' k \<and> m = Cookie_Secret"
    if "(k, m) \<in> set (map (\<lambda>z. (''oauth2_proxy_cookie_secret_'' @ zone_slug z, Cookie_Secret)) zones)" for k m
    using that by auto
  from assms i z show ?thesis unfolding wanted_secrets_def set_append Un_iff by metis
qed

lemma ensure_internal_exact:
  assumes "ensure_internal_secrets loads ent st pos = Inr (st', minted, pos')"
    and "configured_zone_names loads (dget (st_config st) ''CLOUDFLARE_ZONES'') = Inr zones"
  shows "k \<notin> fst ` set (wanted_secrets zones) \<or> \<not> missing (st_secrets st) k \<Longrightarrow>
      map_of (st_secrets st') k = map_of (st_secrets st) k"
    and "(k, m) \<in> set (wanted_secrets zones) \<Longrightarrow> missing (st_secrets st) k \<Longrightarrow>
      \<exists>p. map_of (st_secrets st') k = Some (PStr (fst (mint m ent p)))"
    and "distinct minted \<and> set minted = {k \<in> fst ` set (wanted_secrets zones). missing (st_secrets st) k}"
proof -
  note once = ensure_internal_once [OF assms]
  then have d: "st_secrets st' = fst (mint_missing ent (wanted_secrets zones) (st_secrets st) pos)"
    and r: "minted = fst (snd (mint_missing ent (wanted_secrets zones) (st_secrets st) pos))" by simp_all
  show "map_of (st_secrets st') k = map_of (st_secrets st) k"
    if "k \<notin> fst ` set (wanted_secrets zones) \<or> \<not> missing (st_secrets st) k"
    unfolding d using that by (blast intro: mint_missing_frame)
  show "\<exists>p. map_of (st_secrets st') k = Some (PStr (fst (mint m ent p)))"
    if "(k, m) \<in> set (wanted_secrets zones)" "missing (st_secrets st) k"
    unfolding d using that wanted_one_minter by (intro mint_missing_value) blast+
  show "distinct minted \<and> set minted = {k \<in> fst ` set (wanted_secrets zones). missing (st_secrets st) k}"
    unfolding r by (rule mint_missing_reported)
qed

lemma user_held_minted:
  "filter (\<lambda>km. fst km \<notin> set minted_on_request) user_held_secrets
   = [(''admin_password'', Admin_Password), (''console_recovery_password'', Admin_Password)]"
  by (simp add: user_held_secrets_def minted_on_request_def)

lemma ensure_user_held_secrets_eq:
  "st_secrets (fst (ensure_user_held_secrets ent st pos))
   = fst (mint_missing ent [(''admin_password'', Admin_Password), (''console_recovery_password'', Admin_Password)]
        (st_secrets st) pos)"
  "st_config (fst (ensure_user_held_secrets ent st pos)) = st_config st"
  by (simp_all add: ensure_user_held_secrets_def user_held_minted case_prod_beta)

section \<open>Merging keeps what it must\<close>

text \<open>
  Both merges treat one pair the same way, so a merge is a fold of that step: \<open>adopt\<close> always, and
  \<open>apply_inputs\<close> whenever every key is declared.
\<close>

definition merge_one :: "bool \<Rightarrow> dict \<Rightarrow> string \<times> py \<Rightarrow> dict" where
  "merge_one ov d kv =
     (if is_blank (snd kv) \<or> \<not> ov \<and> truthy (dget d (fst kv)) \<or> py_eq (dget d (fst kv)) (snd kv)
      then d else dset (fst kv) (snd kv) d)"

lemma adopt_items_fold: "fst (adopt_items ov m d) = foldl (merge_one ov) d m"
proof (induction ov m d rule: adopt_items.induct)
  case (2 ov key val rest d)
  then show ?case by (simp add: merge_one_def case_prod_beta)
qed simp

lemma apply_secrets_Cons:
  "apply_secrets kn ov (kv # rest) d =
     (if fst kv \<notin> set (external_secrets kn) then Inl (NotExternal (fst kv))
      else bindR (apply_secrets kn ov rest (merge_one ov d kv))
        (\<lambda>(d', ks). Inr (d', if is_blank (snd kv) \<or> \<not> ov \<and> truthy (dget d (fst kv))
             \<or> py_eq (dget d (fst kv)) (snd kv) then ks else fst kv # ks)))"
  by (cases kv; cases "apply_secrets kn ov rest (merge_one ov d kv)") (auto simp: merge_one_def)

lemma apply_secrets_error:
  "(\<exists>e. apply_secrets kn ov m d = Inl e) \<longleftrightarrow> (\<exists>k \<in> fst ` set m. k \<notin> set (external_secrets kn))"
proof (induction m arbitrary: d)
  case (Cons kv m)
  show ?case
    using Cons.IH [of "merge_one ov d kv"]
    by (cases "apply_secrets kn ov m (merge_one ov d kv)") (auto simp: apply_secrets_Cons)
qed simp

lemma apply_secrets_fold:
  "apply_secrets kn ov m d = Inr (d', ks) \<Longrightarrow>
   d' = foldl (merge_one ov) d m \<and> fst ` set m \<subseteq> set (external_secrets kn)"
proof (induction m arbitrary: d d' ks)
  case (Cons kv m)
  from Cons.prems obtain ks' where "apply_secrets kn ov m (merge_one ov d kv) = Inr (d', ks')"
    and "fst kv \<in> set (external_secrets kn)"
    by (auto simp: apply_secrets_Cons bindR_Inr_iff split: if_splits)
  with Cons.IH show ?case by auto
qed simp

lemma merge_one_other: "k \<noteq> fst kv \<Longrightarrow> map_of (merge_one ov d kv) k = map_of d k"
  by (simp add: merge_one_def dict_simps)

lemma merge_one_nonblank: "\<not> missing d k \<Longrightarrow> \<not> missing (merge_one ov d kv) k"
  by (simp add: merge_one_def missing_dset)

lemma merge_one_keeps: "truthy (dget d k) \<Longrightarrow> dget (merge_one False d kv) k = dget d k"
  by (auto simp: merge_one_def dict_simps)

lemma py_eq_str_right: "py_eq v (PStr s) \<longleftrightarrow> v = PStr s"
  by (cases v) auto

lemma merge_one_overwrites: "\<not> blank s \<Longrightarrow> dget (merge_one True d (k, PStr s)) k = PStr s"
  by (simp add: merge_one_def dict_simps py_eq_str_right)

lemma merge_untouched: "k \<notin> fst ` set m \<Longrightarrow> map_of (foldl (merge_one ov) d m) k = map_of d k"
  by (induction m arbitrary: d) (auto simp: merge_one_other)

lemma merge_nonblank: "\<not> missing d k \<Longrightarrow> \<not> missing (foldl (merge_one ov) d m) k"
  by (induction m arbitrary: d) (auto simp: merge_one_nonblank)

lemma merge_keeps: "truthy (dget d k) \<Longrightarrow> dget (foldl (merge_one False) d m) k = dget d k"
  by (induction m arbitrary: d) (auto simp: merge_one_keeps)

lemma merge_overwrites:
  assumes "wf_dict m" and "(k, PStr s) \<in> set m" and "\<not> blank s"
  shows "dget (foldl (merge_one True) d m) k = PStr s"
  using assms
proof (induction m arbitrary: d)
  case (Cons kv m)
  show ?case
  proof (cases "kv = (k, PStr s)")
    case True
    with Cons.prems(1) have "k \<notin> fst ` set m" by (auto simp: wf_dict_def)
    then have "dget (foldl (merge_one True) (merge_one True d kv) m) k = dget (merge_one True d kv) k"
      by (simp add: dget_def merge_untouched)
    with True Cons.prems(3) show ?thesis by (simp add: merge_one_overwrites)
  next
    case False
    with Cons show ?thesis by (auto simp: wf_dict_def)
  qed
qed simp

lemma preserve_secrets_frame:
  "k \<noteq> ''cloudflare_api_tokens'' \<Longrightarrow>
   map_of (st_secrets (fst (preserve_outgoing_zone_token st cin))) k = map_of (st_secrets st) k"
  by (simp add: preserve_outgoing_zone_token_def Let_def dict_simps split: option.split)

lemma preserve_config [simp]:
  "st_config (fst (preserve_outgoing_zone_token st cin)) = st_config st"
  by (simp add: preserve_outgoing_zone_token_def Let_def split: option.split)

text \<open>What a successful \<open>apply_inputs\<close> leaves in the secrets.\<close>

lemma apply_inputs_secrets:
  assumes "apply_inputs kn st sin cin ov = Inr (st', ch)"
  shows "st_secrets st' = foldl (merge_one ov) (st_secrets (fst (preserve_outgoing_zone_token st cin)))
           (case sin of None \<Rightarrow> [] | Some m \<Rightarrow> m)"
    and "fst ` set (case sin of None \<Rightarrow> [] | Some m \<Rightarrow> m) \<subseteq> set (external_secrets kn)"
proof -
  from assms obtain d ks where a: "apply_secrets kn ov (case sin of None \<Rightarrow> [] | Some m \<Rightarrow> m)
      (st_secrets (fst (preserve_outgoing_zone_token st cin))) = Inr (d, ks)" and d: "st_secrets st' = d"
    by (auto simp: apply_inputs_def Let_def case_prod_beta bindR_Inr_iff)
  show "st_secrets st' = foldl (merge_one ov) (st_secrets (fst (preserve_outgoing_zone_token st cin)))
           (case sin of None \<Rightarrow> [] | Some m \<Rightarrow> m)"
    and "fst ` set (case sin of None \<Rightarrow> [] | Some m \<Rightarrow> m) \<subseteq> set (external_secrets kn)"
    using apply_secrets_fold [OF a] d by auto
qed

lemma apply_inputs_frame:
  assumes "apply_inputs kn st sin cin ov = Inr (st', ch)"
    and "k \<notin> set (external_secrets kn)" and "k \<noteq> ''cloudflare_api_tokens''"
  shows "map_of (st_secrets st') k = map_of (st_secrets st) k"
proof -
  have "k \<notin> fst ` set (case sin of None \<Rightarrow> [] | Some m \<Rightarrow> m)"
    using apply_inputs_secrets(2) [OF assms(1)] assms(2) by blast
  then show ?thesis
    by (simp add: apply_inputs_secrets(1) [OF assms(1)] merge_untouched preserve_secrets_frame assms(3))
qed

lemma apply_inputs_nonblank:
  assumes "apply_inputs kn st sin cin ov = Inr (st', ch)" and "\<not> missing (st_secrets st) k"
  shows "\<not> missing (st_secrets st') k"
proof -
  have "\<not> missing (st_secrets (fst (preserve_outgoing_zone_token st cin))) k"
    using assms(2)
    by (cases "k = ''cloudflare_api_tokens''")
      (auto simp: preserve_outgoing_zone_token_def Let_def missing_dset split: option.split)
  then show ?thesis by (simp add: apply_inputs_secrets(1) [OF assms(1)] merge_nonblank)
qed

lemma wf_merge: "wf_dict d \<Longrightarrow> wf_dict (foldl (merge_one ov) d m)"
  by (induction m arbitrary: d) (auto simp: merge_one_def wf_dset)

lemma apply_inputs_wf:
  assumes "apply_inputs kn st sin cin ov = Inr (st', ch)" and "wf_dict (st_secrets st)"
  shows "wf_dict (st_secrets st')"
proof -
  have "wf_dict (st_secrets (fst (preserve_outgoing_zone_token st cin)))"
    using assms(2)
    by (simp add: preserve_outgoing_zone_token_def Let_def wf_dset split: option.split)
  then show ?thesis by (simp add: apply_inputs_secrets(1) [OF assms(1)] wf_merge)
qed

lemma apply_inputs_error:
  "(\<exists>e. apply_inputs kn st sin cin ov = Inl e) \<longleftrightarrow>
   (\<exists>k \<in> fst ` set (case sin of None \<Rightarrow> [] | Some m \<Rightarrow> m). k \<notin> set (external_secrets kn))"
  unfolding apply_inputs_def Let_def case_prod_beta apply_secrets_error
    [of kn ov _ "st_secrets (fst (preserve_outgoing_zone_token st cin))", symmetric]
  by (auto simp: bindR_def split: sum.split)

section \<open>The settled provider\<close>

lemma settle_config:
  "\<exists>p \<in> set tailnet_providers.
     st_config (fst (settle_tailnet_provider st))
     = dset ''TAILNET_PROVIDER'' (PStr p) (ddel ''ACCESS_METHOD'' (st_config st))"
  by (simp add: settle_tailnet_provider_def Let_def tailnet_providers_def)

lemma settle_secrets [simp]: "st_secrets (fst (settle_tailnet_provider st)) = st_secrets st"
  by (simp add: settle_tailnet_provider_def Let_def)

lemma provider_normal: "p \<in> set tailnet_providers \<Longrightarrow> lower (strip_or (PStr p)) = p \<and> p \<noteq> []"
  by (auto simp: tailnet_providers_def strip_or_def str_or_def strip_def strip_by_def rstrip_by_def
      py_isspace_def lower_def lower_char_def)

lemma settle_settled:
  assumes "map_of (st_config st) ''ACCESS_METHOD'' = None"
    and "map_of (st_config st) ''TAILNET_PROVIDER'' = Some (PStr p)" and "p \<in> set tailnet_providers"
  shows "settle_tailnet_provider st = (st, False)"
proof -
  have m: "strip_or (dget (st_config st) ''ACCESS_METHOD'') = []"
    using assms(1) by (simp add: dget_def strip_or_def str_or_def strip_def strip_by_def)
  have d: "ddel ''ACCESS_METHOD'' (st_config st) = st_config st"
    using assms(1) by (rule ddel_absent)
  have p: "dget (st_config st) ''TAILNET_PROVIDER'' = PStr p" using assms(2) by (simp add: dget_def)
  have "dset ''TAILNET_PROVIDER'' (PStr p) (st_config st) = st_config st"
    using assms(2) by (rule dset_same)
  then show ?thesis
    using assms(3) provider_normal [OF assms(3)]
    by (simp add: settle_tailnet_provider_def Let_def m d p)
qed

lemma settle_idem:
  "settle_tailnet_provider (fst (settle_tailnet_provider st)) = (fst (settle_tailnet_provider st), False)"
proof -
  obtain p where p: "p \<in> set tailnet_providers"
    and c: "st_config (fst (settle_tailnet_provider st))
      = dset ''TAILNET_PROVIDER'' (PStr p) (ddel ''ACCESS_METHOD'' (st_config st))"
    using settle_config [of st] by blast
  show ?thesis by (rule settle_settled [OF _ _ p]) (simp_all add: c dict_simps)
qed

end
