(* ===== verification/Onbox_Store.thy ===== *)
theory Onbox_Store
  imports Onbox_Config
begin

text \<open>
  The store's file, lock and command line (\<open>src/ansible/helpers/onbox_config.py\<close>, from
  \<open>store_lock\<close> to \<open>main\<close>). A file holds a JSON document or text that no longer parses
  (\<open>Garbled\<close>), with its mode. The atomic write is a list of steps, so a run killed between two of
  them leaves one of its prefixes. How much of the payload \<open>os.write\<close> takes is an outcome of the
  operating system (\<open>write_result\<close>): the source does not look at it.
\<close>

section \<open>The file\<close>

datatype fcontent = Doc py | Garbled

record disk =
  dk_store :: "(fcontent \<times> nat) option"
  dk_tmp :: "(fcontent \<times> nat) option"

abbreviation mode_0600 :: nat where
  "mode_0600 \<equiv> 6 * 8 * 8"

datatype write_result = Full | Short | Fails

text \<open>\<open>dict(x)\<close>: a dictionary, or a list of pairs with a string key.\<close>

fun dict_pairs :: "py list \<Rightarrow> dict \<Rightarrow> cfg_error + dict" where
  "dict_pairs [] d = Inr d"
| "dict_pairs (PList [PStr k, v] # rest) d = dict_pairs rest (dset k v d)"
| "dict_pairs (PStr [a, b] # rest) d = dict_pairs rest (dset [a] (PStr [b]) d)"
| "dict_pairs _ d = Inl TypeError"

fun py_dict :: "py \<Rightarrow> cfg_error + dict" where
  "py_dict (PDict d) = Inr d"
| "py_dict (PList xs) = dict_pairs xs []"
| "py_dict _ = Inl TypeError"

definition store_section :: "dict \<Rightarrow> string \<Rightarrow> cfg_error + dict" where
  "store_section raw k = (if truthy (dget raw k) then py_dict (dget raw k) else Inr [])"

text \<open>What \<open>json.loads\<close> of the file gives: absent, a document, or a \<open>ValueError\<close>.\<close>

definition read_doc :: "disk \<Rightarrow> cfg_error + dict option" where
  "read_doc dk = (case dk_store dk of
      None \<Rightarrow> Inr None
    | Some (Doc (PDict raw), _) \<Rightarrow> Inr (Some raw)
    | Some (Doc _, _) \<Rightarrow> Inl NotAnObject
    | Some (Garbled, _) \<Rightarrow> Inl Malformed)"

definition load :: "disk \<Rightarrow> cfg_error + store" where
  "load dk = bindR (read_doc dk) (\<lambda>doc. case doc of
      None \<Rightarrow> Inr \<lparr>st_secrets = [], st_config = []\<rparr>
    | Some raw \<Rightarrow>
        bindR (store_section raw ''secrets'') (\<lambda>sec.
        bindR (store_section raw ''config'') (\<lambda>cfg.
        Inr \<lparr>st_secrets = sec, st_config = cfg\<rparr>)))"

definition image_pins :: "disk \<Rightarrow> cfg_error + (string \<times> string) list" where
  "image_pins dk = bindR (read_doc dk) (\<lambda>doc. case doc of
      None \<Rightarrow> Inr []
    | Some raw \<Rightarrow> (case dget raw ''image_pins'' of
          PDict pins \<Rightarrow> Inr (map (\<lambda>kv. (fst kv, py_str (snd kv))) (filter (\<lambda>kv. truthy (snd kv)) pins))
        | _ \<Rightarrow> Inr []))"

text \<open>\<open>json.dumps(doc, sort_keys=True)\<close>: the document with every dictionary in key order.\<close>

fun sort_keys :: "py \<Rightarrow> py" where
  "sort_keys (PList xs) = PList (map sort_keys xs)"
| "sort_keys (PDict d) = PDict (sort_key fst (map (\<lambda>kv. (fst kv, sort_keys (snd kv))) d))"
| "sort_keys v = v"

definition dump_doc :: "store \<Rightarrow> disk \<Rightarrow> cfg_error + dict" where
  "dump_doc st dk = bindR (read_doc dk) (\<lambda>doc.
     let raw = (case doc of None \<Rightarrow> [] | Some raw \<Rightarrow> raw)
     in Inr (dset ''config'' (PDict (st_config st)) (dset ''secrets'' (PDict (st_secrets st)) raw)))"

text \<open>The file operations of \<open>dump\<close>. A mode is given at creation only: a file that is there keeps its own.\<close>

definition open_tmp :: "disk \<Rightarrow> disk" where
  "open_tmp dk = dk\<lparr>dk_tmp := Some (Garbled, case dk_tmp dk of None \<Rightarrow> mode_0600 | Some (_, m) \<Rightarrow> m)\<rparr>"

definition write_tmp :: "write_result \<Rightarrow> dict \<Rightarrow> disk \<Rightarrow> disk" where
  "write_tmp wr doc dk = dk\<lparr>dk_tmp := map_option
     (\<lambda>(c, m). (case wr of Full \<Rightarrow> Doc (sort_keys (PDict doc)) | _ \<Rightarrow> Garbled, m)) (dk_tmp dk)\<rparr>"

definition replace_store :: "disk \<Rightarrow> disk" where
  "replace_store dk = dk\<lparr>dk_store := dk_tmp dk, dk_tmp := None\<rparr>"

definition chmod_store :: "disk \<Rightarrow> disk" where
  "chmod_store dk = dk\<lparr>dk_store := map_option (\<lambda>(c, m). (c, mode_0600)) (dk_store dk)\<rparr>"

definition dump_steps :: "write_result \<Rightarrow> dict \<Rightarrow> (disk \<Rightarrow> disk) list" where
  "dump_steps wr doc = (case wr of
      Fails \<Rightarrow> [open_tmp]
    | _ \<Rightarrow> [open_tmp, write_tmp wr doc, replace_store, chmod_store])"

definition run_steps :: "('a \<Rightarrow> 'a) list \<Rightarrow> 'a \<Rightarrow> 'a" where
  "run_steps fs x = foldl (\<lambda>y f. f y) x fs"

definition dump :: "write_result \<Rightarrow> store \<Rightarrow> (disk, cfg_error, unit) sem" where
  "dump wr st dk = (case dump_doc st dk of
      Inl e \<Rightarrow> (Inl e, dk)
    | Inr doc \<Rightarrow> (if wr = Fails then Inl WriteFailed else Inr (), run_steps (dump_steps wr doc) dk))"

text \<open>The state a run of \<open>dump\<close> killed after \<open>k\<close> of its steps leaves.\<close>

definition dump_killed :: "nat \<Rightarrow> write_result \<Rightarrow> store \<Rightarrow> disk \<Rightarrow> disk" where
  "dump_killed k wr st dk = (case dump_doc st dk of
      Inl e \<Rightarrow> dk
    | Inr doc \<Rightarrow> run_steps (take k (dump_steps wr doc)) dk)"

section \<open>The lock\<close>

text \<open>
  \<open>store_lock\<close>: poll until the lock is free or the wait is over. \<open>busy i\<close> says whether another
  writer holds the lock at the \<open>i\<close>-th attempt, and \<open>clock i\<close> is \<open>time.monotonic\<close> then, in
  milliseconds. The loop ends only if the clock moves, so it is a partial function.
\<close>

datatype lock_result = Acquired | Exit75

partial_function (option) store_lock ::
  "(nat \<Rightarrow> bool) \<Rightarrow> (nat \<Rightarrow> int) \<Rightarrow> int \<Rightarrow> nat \<Rightarrow> lock_result option" where
  "store_lock busy clock deadline i =
     (if \<not> busy i then Some Acquired
      else if deadline \<le> clock i then Some Exit75
      else store_lock busy clock deadline (Suc i))"

definition store_lock_wait_ms :: int where
  "store_lock_wait_ms = 20 * 60 * 1000"

section \<open>The command line\<close>

fun parse_kv :: "string list \<Rightarrow> dict \<Rightarrow> cfg_error + dict" where
  "parse_kv [] out = Inr out"
| "parse_kv (pair # rest) out =
     (case partition_char (CHR ''='') pair of (k, found, v) \<Rightarrow>
        if found then parse_kv rest (dset (strip k) (PStr v) out) else Inl (BadPair pair))"

record args =
  a_adopt :: "py option" \<comment> \<open>the decoded \<open>--adopt-*\<close> object, \<open>None\<close> when blank\<close>
  a_set_secret :: "string list"
  a_set_config :: "string list"
  a_overwrite :: bool
  a_no_mint :: bool
  a_mint_user_held :: bool

definition adopt_incoming :: "args \<Rightarrow> cfg_error + dict option" where
  "adopt_incoming a = (case a_adopt a of
      None \<Rightarrow> Inr None | Some PNone \<Rightarrow> Inr None | Some (PDict d) \<Rightarrow> Inr (Some d) | _ \<Rightarrow> Inl NotAnObject)"

text \<open>The store between the load and the dump of one run.\<close>

definition main_update ::
  "knobs \<Rightarrow> (string \<Rightarrow> py option) \<Rightarrow> entropy \<Rightarrow> nat \<Rightarrow> args \<Rightarrow> dict option \<Rightarrow> store \<Rightarrow> cfg_error + store" where
  "main_update kn loads ent pos a incoming st =
     (let st1 = fst (adopt st incoming (a_overwrite a)) in
      bindR (parse_kv (a_set_secret a) []) (\<lambda>sin.
      bindR (parse_kv (a_set_config a) []) (\<lambda>cin.
      bindR (apply_inputs kn st1 (Some sin) (Some cin) (a_overwrite a)) (\<lambda>(st2, _).
      let st3 = fst (settle_tailnet_provider st2) in
      if a_mint_user_held a then Inr (fst (ensure_user_held_secrets ent st3 pos))
      else if \<not> a_no_mint a then
        bindR (ensure_internal_secrets loads ent st3 pos) (\<lambda>(st4, _, pos1).
          Inr (fst (ensure_user_held_secrets ent st4 pos1)))
      else Inr st3))))"

definition main_converge ::
  "knobs \<Rightarrow> (string \<Rightarrow> py option) \<Rightarrow> entropy \<Rightarrow> nat \<Rightarrow> args \<Rightarrow> lock_result \<Rightarrow> write_result
   \<Rightarrow> (disk, cfg_error, store) sem" where
  "main_converge kn loads ent pos a lock wr dk =
     (case adopt_incoming a of Inl e \<Rightarrow> (Inl e, dk) | Inr incoming \<Rightarrow>
      if lock = Exit75 then (Inl LockHeld, dk)
      else (case bindR (load dk) (main_update kn loads ent pos a incoming) of
          Inl e \<Rightarrow> (Inl e, dk)
        | Inr st \<Rightarrow> thenS (dump wr st) (ret st) dk))"

text \<open>The settings API: \<open>--dispatch-stdin\<close>.\<close>

definition dict_or_none :: "py \<Rightarrow> cfg_error + dict option" where
  "dict_or_none v =
     (if \<not> truthy v then Inr None else case v of PDict d \<Rightarrow> Inr (Some d) | _ \<Rightarrow> Inl TypeError)"

definition dispatch_write ::
  "knobs \<Rightarrow> dict \<Rightarrow> lock_result \<Rightarrow> write_result \<Rightarrow> (disk, cfg_error, dict) sem" where
  "dispatch_write kn req lock wr dk =
     (if lock = Exit75 then (Inl LockHeld, dk)
      else (case bindR (load dk) (\<lambda>st.
               bindR (dict_or_none (dget req ''secrets'')) (\<lambda>sin.
               bindR (dict_or_none (dget req ''config'')) (\<lambda>cin.
               apply_inputs kn st sin cin True))) of
          Inl e \<Rightarrow> (Inl e, dk)
        | Inr (st, _) \<Rightarrow> thenS (dump wr st) (ret [(''ok'', PBool True)]) dk))"

definition dispatch_stdin ::
  "knobs \<Rightarrow> py \<Rightarrow> lock_result \<Rightarrow> write_result \<Rightarrow> (disk, cfg_error, dict) sem" where
  "dispatch_stdin kn req lock wr dk = (case req of
      PDict r \<Rightarrow>
        (if dget r ''op'' = PStr ''read'' then
           (case load dk of Inl e \<Rightarrow> (Inl e, dk) | Inr st \<Rightarrow> (Inr (panel_view kn st), dk))
         else if dget r ''op'' = PStr ''write'' then dispatch_write kn r lock wr dk
         else (Inl UnknownOp, dk))
    | _ \<Rightarrow> (Inl NotAnObject, dk))"

section \<open>Sorting keys loses nothing\<close>

lemma map_of_sort_key: "wf_dict d \<Longrightarrow> map_of (sort_key fst d) = map_of d"
  unfolding wf_dict_def
  by (subst map_of_inject_set) (auto simp: distinct_map inj_on_def)

lemma map_of_map_snd: "map_of (map (\<lambda>kv. (fst kv, f (snd kv))) d) k = map_option f (map_of d k)"
  by (induction d) auto

lemma wf_map_snd: "wf_dict d \<Longrightarrow> wf_dict (map (\<lambda>kv. (fst kv, f (snd kv))) d)"
  by (simp add: wf_dict_def comp_def)

definition sorted_dict :: "dict \<Rightarrow> dict" where
  "sorted_dict d = sort_key fst (map (\<lambda>kv. (fst kv, sort_keys (snd kv))) d)"

lemma sort_keys_PDict: "sort_keys (PDict d) = PDict (sorted_dict d)"
  by (simp add: sorted_dict_def)

declare sort_keys.simps(2) [simp del]

lemma map_of_sorted_dict: "wf_dict d \<Longrightarrow> map_of (sorted_dict d) k = map_option sort_keys (map_of d k)"
  by (simp add: sorted_dict_def map_of_sort_key wf_map_snd map_of_map_snd)

lemma sorted_dict_Nil_iff: "sorted_dict d = [] \<longleftrightarrow> d = []"
  by (metis length_0_conv length_map length_sort sorted_dict_def)

lemma sorted_keys_in_order: "sorted (map fst (sorted_dict d))"
  by (simp add: sorted_dict_def)

section \<open>The atomic write\<close>

lemma run_steps_simps [simp]: "run_steps [] x = x" "run_steps (f # fs) x = run_steps fs (f x)"
  by (simp_all add: run_steps_def)

lemmas dump_step_defs = open_tmp_def write_tmp_def replace_store_def chmod_store_def

lemma dump_doc_Inr:
  "dump_doc st dk = Inr doc \<Longrightarrow> map_of doc ''secrets'' = Some (PDict (st_secrets st))
     \<and> map_of doc ''config'' = Some (PDict (st_config st))"
  by (auto simp: dump_doc_def bindR_Inr_iff Let_def map_of_dset)

lemma dump_doc_other:
  assumes "dump_doc st dk = Inr doc" and "k \<noteq> ''secrets''" and "k \<noteq> ''config''"
  shows "map_of doc k = (case read_doc dk of Inr (Some raw) \<Rightarrow> map_of raw k | _ \<Rightarrow> None)"
  using assms by (auto simp: dump_doc_def bindR_Inr_iff Let_def map_of_dset split: option.split)

lemma dump_doc_wf:
  assumes "dump_doc st dk = Inr doc" and "\<And>raw. read_doc dk = Inr (Some raw) \<Longrightarrow> wf_dict raw"
  shows "wf_dict doc"
proof -
  obtain r where r: "read_doc dk = Inr r"
    and doc: "doc = dset ''config'' (PDict (st_config st)) (dset ''secrets'' (PDict (st_secrets st))
      (case r of None \<Rightarrow> [] | Some raw \<Rightarrow> raw))"
    using assms(1) by (auto simp: dump_doc_def bindR_Inr_iff Let_def)
  have "wf_dict (case r of None \<Rightarrow> [] | Some raw \<Rightarrow> raw)"
    using r assms(2) by (cases r) (simp_all add: wf_dict_def)
  then show ?thesis by (simp add: doc wf_dset)
qed

lemma dump_full:
  assumes "dump_doc st dk = Inr doc"
  shows "dump Full st dk = (Inr (), dk\<lparr>dk_store := Some (Doc (PDict (sorted_dict doc)), mode_0600), dk_tmp := None\<rparr>)"
  using assms by (simp add: dump_def dump_steps_def dump_step_defs sort_keys_PDict)

lemma dump_killed_store:
  "dk_store (dump_killed k wr st dk) = dk_store dk
   \<or> (\<exists>doc m. dump_doc st dk = Inr doc \<and> wr \<noteq> Fails
        \<and> dk_store (dump_killed k wr st dk)
          = Some (if wr = Full then Doc (PDict (sorted_dict doc)) else Garbled, m))"
proof (cases "dump_doc st dk")
  case (Inr doc)
  consider "k = 0" | "k = 1" | "k = 2" | "k = 3" | "4 \<le> k" by linarith
  then show ?thesis
    by cases (use Inr in \<open>auto simp: dump_killed_def dump_steps_def dump_step_defs sort_keys_PDict
        numeral_2_eq_2 numeral_3_eq_3 split: write_result.split\<close>)
qed (simp add: dump_killed_def)

lemma dump_error_store:
  "dump wr st dk = (Inl e, dk') \<Longrightarrow> dk_store dk' = dk_store dk"
  by (auto simp: dump_def dump_steps_def dump_step_defs split: sum.splits if_splits write_result.splits)

section \<open>Reading back what was written\<close>

definition doc_wf :: "disk \<Rightarrow> bool" where
  "doc_wf dk = (case read_doc dk of Inr (Some raw) \<Rightarrow> wf_dict raw | _ \<Rightarrow> True)"

lemma store_section_sorted:
  assumes "wf_dict doc" and "map_of doc k = Some (PDict d)"
  shows "store_section (sorted_dict doc) k = Inr (sorted_dict d)"
  using assms
  by (simp add: store_section_def dget_def map_of_sorted_dict sort_keys_PDict sorted_dict_Nil_iff)
    (simp add: sorted_dict_def)

lemma load_dump:
  assumes "dump_doc st dk = Inr doc" and "doc_wf dk"
  shows "load (snd (dump Full st dk))
    = Inr \<lparr>st_secrets = sorted_dict (st_secrets st), st_config = sorted_dict (st_config st)\<rparr>"
proof -
  have wf: "wf_dict doc"
    by (rule dump_doc_wf [OF assms(1)]) (use assms(2) in \<open>simp add: doc_wf_def\<close>)
  have "read_doc (snd (dump Full st dk)) = Inr (Some (sorted_dict doc))"
    using dump_full [OF assms(1)] by (simp add: read_doc_def)
  with wf dump_doc_Inr [OF assms(1)] show ?thesis
    by (simp add: load_def store_section_sorted)
qed

section \<open>The lock's wait ends\<close>

lemma store_lock_outcome:
  assumes "i \<le> n" and "deadline \<le> clock n"
  shows "store_lock busy clock deadline i = Some Acquired \<and>
           (\<exists>j \<ge> i. j \<le> n \<and> \<not> busy j \<and> (\<forall>l. i \<le> l \<and> l < j \<longrightarrow> busy l \<and> clock l < deadline))
       \<or> store_lock busy clock deadline i = Some Exit75 \<and>
           (\<exists>j \<ge> i. j \<le> n \<and> deadline \<le> clock j \<and> (\<forall>l. i \<le> l \<and> l \<le> j \<longrightarrow> busy l))"
  using assms(1)
proof (induction "n - i" arbitrary: i)
  case 0
  then have "i = n" by simp
  with assms(2) show ?case
    by (cases "busy n") (auto simp: store_lock.simps [of busy clock deadline n] intro!: exI [of _ n])
next
  case (Suc m)
  note unfold = store_lock.simps [of busy clock deadline i]
  show ?case
  proof (cases "busy i \<and> clock i < deadline")
    case False
    with Suc.prems show ?thesis by (auto simp: unfold)
  next
    case True
    from Suc.hyps(2) have "m = n - Suc i" "Suc i \<le> n" by auto
    note IH = Suc.hyps(1) [OF this]
    have step: "busy l \<and> clock l < deadline" if "i \<le> l" "l < Suc i" for l
      using that True by (cases "l = i") auto
    from IH show ?thesis
    proof (elim disjE conjE exE)
      fix j
      assume "store_lock busy clock deadline (Suc i) = Some Acquired" "Suc i \<le> j" "j \<le> n" "\<not> busy j"
        and *: "\<forall>l. Suc i \<le> l \<and> l < j \<longrightarrow> busy l \<and> clock l < deadline"
      moreover have "\<forall>l. i \<le> l \<and> l < j \<longrightarrow> busy l \<and> clock l < deadline"
        using * step by (metis not_less_eq_eq not_le)
      ultimately show ?thesis using True by (auto simp: unfold intro!: exI [of _ j])
    next
      fix j
      assume "store_lock busy clock deadline (Suc i) = Some Exit75" "Suc i \<le> j" "j \<le> n"
        "deadline \<le> clock j" and *: "\<forall>l. Suc i \<le> l \<and> l \<le> j \<longrightarrow> busy l"
      moreover have "\<forall>l. i \<le> l \<and> l \<le> j \<longrightarrow> busy l"
        using * step by (metis not_less_eq_eq not_le)
      ultimately show ?thesis using True by (auto simp: unfold intro!: exI [of _ j])
    qed
  qed
qed

section \<open>A run that fails writes nothing\<close>

lemma thenS_dump_error:
  "thenS (dump wr st) (ret x) dk = (Inl e, dk') \<Longrightarrow> dk_store dk' = dk_store dk"
  by (auto simp: thenS_def bindS_def ret_def split: prod.splits sum.splits dest: dump_error_store)

lemma main_converge_error:
  "main_converge kn loads ent pos a lock wr dk = (Inl e, dk') \<Longrightarrow> dk_store dk' = dk_store dk"
  by (auto simp: main_converge_def split: sum.splits if_splits dest: thenS_dump_error)

lemma dispatch_write_error:
  "dispatch_write kn req lock wr dk = (Inl e, dk') \<Longrightarrow> dk_store dk' = dk_store dk"
  by (auto simp: dispatch_write_def split: sum.splits if_splits prod.splits dest: thenS_dump_error)

lemma dispatch_stdin_error:
  "dispatch_stdin kn req lock wr dk = (Inl e, dk') \<Longrightarrow> dk_store dk' = dk_store dk"
  by (auto simp: dispatch_stdin_def split: py.splits sum.splits if_splits dest: dispatch_write_error)

section \<open>One settings write\<close>

lemma dispatch_write_ok:
  assumes "dispatch_write kn req lock Full dk = (Inr r, dk')"
  obtains st sin cin st' ch doc where
    "load dk = Inr st" "dict_or_none (dget req ''secrets'') = Inr sin"
    "dict_or_none (dget req ''config'') = Inr cin" "apply_inputs kn st sin cin True = Inr (st', ch)"
    "dump_doc st' dk = Inr doc" "dk' = snd (dump Full st' dk)"
proof -
  from assms obtain x where x: "bindR (load dk) (\<lambda>st.
       bindR (dict_or_none (dget req ''secrets'')) (\<lambda>sin.
       bindR (dict_or_none (dget req ''config'')) (\<lambda>cin.
       apply_inputs kn st sin cin True))) = Inr x"
    and d: "thenS (dump Full (fst x)) (ret [(''ok'', PBool True)]) dk = (Inr r, dk')"
    by (auto simp: dispatch_write_def split: sum.splits if_splits prod.splits)
  from d have "dump Full (fst x) dk = (Inr (), dk')"
    by (auto simp: thenS_def bindS_def ret_def split: prod.splits sum.splits)
  moreover from this obtain doc where "dump_doc (fst x) dk = Inr doc"
    by (auto simp: dump_def split: sum.splits)
  ultimately show thesis
    using x that by (cases x) (auto simp: bindR_Inr_iff)
qed

lemma dispatch_write_secrets:
  assumes "dispatch_write kn req lock Full dk = (Inr r, dk')" and "doc_wf dk"
    and "load dk = Inr st"
  obtains st' where "load dk' = Inr st'"
    and "\<And>k. wf_dict (st_secrets st) \<Longrightarrow> k \<notin> set (external_secrets kn) \<Longrightarrow> k \<noteq> ''cloudflare_api_tokens'' \<Longrightarrow>
         map_of (st_secrets st') k = map_option sort_keys (map_of (st_secrets st) k)"
  using assms(1)
proof (rule dispatch_write_ok)
  fix st0 sin cin st1 ch doc
  assume l: "load dk = Inr st0" and a: "apply_inputs kn st0 sin cin True = Inr (st1, ch)"
    and d: "dump_doc st1 dk = Inr doc" and dk': "dk' = snd (dump Full st1 dk)"
  have st0: "st0 = st" using l assms(3) by simp
  note frame = apply_inputs_frame [OF a [unfolded st0]] apply_inputs_wf [OF a [unfolded st0]]
  show thesis
    by (rule that [of "\<lparr>st_secrets = sorted_dict (st_secrets st1), st_config = sorted_dict (st_config st1)\<rparr>"])
      (simp_all add: load_dump [OF d assms(2)] dk' frame map_of_sorted_dict)
qed

section \<open>Properties\<close>

text \<open>C1: minting reconciles and never overwrites. \<open>wanted_secrets\<close> are the declared internal secrets and one cookie
  secret per configured zone. A run changes the secrets of exactly the wanted keys that are missing or blank:
  each gets a value of its own minter, and is reported once. Every other secret, the ones nobody declares among
  them, and the configuration are what they were, and a second run mints nothing and changes nothing.\<close>

theorem ensure_internal_reconciles:
  assumes "ensure_internal_secrets loads ent st pos = Inr (st', minted, pos')"
    and "configured_zone_names loads (dget (st_config st) ''CLOUDFLARE_ZONES'') = Inr zones"
  shows "(\<forall>k. k \<notin> fst ` set (wanted_secrets zones) \<or> \<not> missing (st_secrets st) k \<longrightarrow>
        map_of (st_secrets st') k = map_of (st_secrets st) k)
    \<and> (\<forall>(k, m) \<in> set (wanted_secrets zones). missing (st_secrets st) k \<longrightarrow>
        (\<exists>p. map_of (st_secrets st') k = Some (PStr (fst (mint m ent p)))))
    \<and> distinct minted \<and> set minted = {k \<in> fst ` set (wanted_secrets zones). missing (st_secrets st) k}
    \<and> st_config st' = st_config st
    \<and> ensure_internal_secrets loads ent st' q = Inr (st', [], q)"
proof (intro conjI)
  note exact = ensure_internal_exact [OF assms]
  show "\<forall>k. k \<notin> fst ` set (wanted_secrets zones) \<or> \<not> missing (st_secrets st) k \<longrightarrow>
      map_of (st_secrets st') k = map_of (st_secrets st) k" by (intro allI impI exact(1))
  show "\<forall>(k, m) \<in> set (wanted_secrets zones). missing (st_secrets st) k \<longrightarrow>
      (\<exists>p. map_of (st_secrets st') k = Some (PStr (fst (mint m ent p))))"
    by (rule ballI, simp only: case_prod_beta, rule impI, rule exact(2)) simp_all
  show "distinct minted" by (rule exact(3) [THEN conjunct1])
  show "set minted = {k \<in> fst ` set (wanted_secrets zones). missing (st_secrets st) k}" by (rule exact(3) [THEN conjunct2])
  show "st_config st' = st_config st" by (rule ensure_internal_secrets_fill [OF assms(1)])
  show "ensure_internal_secrets loads ent st' q = Inr (st', [], q)" by (rule ensure_internal_again [OF assms(1)])
qed

lemma ensure_internal_total:
  assumes "configured_zone_names loads (dget (st_config st) ''CLOUDFLARE_ZONES'') = Inr zones"
  obtains st' minted pos' where "ensure_internal_secrets loads ent st pos = Inr (st', minted, pos')"
  using assms by (simp add: ensure_internal_secrets_def Let_def case_prod_beta)

theorem ensure_internal_reconciles_witness:
  "\<exists>st' minted pos' p.
     ensure_internal_secrets (\<lambda>_. None) (\<lambda>_. 7)
       \<lparr>st_secrets = [(''zap_api_key'', PStr ''kept'')], st_config = [(''CLOUDFLARE_ZONES'', PList [PStr ''b.com''])]\<rparr> 0
       = Inr (st', minted, pos')
     \<and> map_of (st_secrets st') ''zap_api_key'' = Some (PStr ''kept'')
     \<and> map_of (st_secrets st') ''oauth2_proxy_cookie_secret_b_com'' = Some (PStr (fst (mint Cookie_Secret (\<lambda>_. 7) p)))
     \<and> map_of (st_secrets st') ''admin_password'' = None"
proof -
  let ?st = "\<lparr>st_secrets = [(''zap_api_key'', PStr ''kept'')],
    st_config = [(''CLOUDFLARE_ZONES'', PList [PStr ''b.com''])]\<rparr>"
  have z: "configured_zone_names (\<lambda>_. None) (dget (st_config ?st) ''CLOUDFLARE_ZONES'') = Inr [''b.com'']"
    by code_simp
  then obtain st' minted pos' where e: "ensure_internal_secrets (\<lambda>_. None) (\<lambda>_. 7) ?st 0 = Inr (st', minted, pos')"
    by (rule ensure_internal_total)
  note all = ensure_internal_reconciles [OF e z, of 0]
  have "\<not> missing (st_secrets ?st) ''zap_api_key''" "missing (st_secrets ?st) ''oauth2_proxy_cookie_secret_b_com''"
    "(''oauth2_proxy_cookie_secret_b_com'', Cookie_Secret) \<in> set (wanted_secrets [''b.com''])"
    "''admin_password'' \<notin> fst ` set (wanted_secrets [''b.com''])" by code_simp+
  with all have "map_of (st_secrets st') ''zap_api_key'' = map_of (st_secrets ?st) ''zap_api_key''"
    "\<exists>p. map_of (st_secrets st') ''oauth2_proxy_cookie_secret_b_com'' = Some (PStr (fst (mint Cookie_Secret (\<lambda>_. 7) p)))"
    "map_of (st_secrets st') ''admin_password'' = map_of (st_secrets ?st) ''admin_password''" by blast+
  then show ?thesis using e by auto
qed

text \<open>the user-held passwords. \<open>ensure_user_held_secrets\<close> mints the admin and the console password
  exactly when they are missing, and never touches the backup password, which is generated on
  request only.\<close>

theorem user_held_minting:
  "fst (snd (ensure_user_held_secrets ent st pos))
     = filter (missing (st_secrets st)) [''admin_password'', ''console_recovery_password'']
   \<and> \<not> missing (st_secrets (fst (ensure_user_held_secrets ent st pos))) ''admin_password''
   \<and> \<not> missing (st_secrets (fst (ensure_user_held_secrets ent st pos))) ''console_recovery_password''
   \<and> map_of (st_secrets (fst (ensure_user_held_secrets ent st pos))) ''backup_restic_password''
     = map_of (st_secrets st) ''backup_restic_password''"
proof (intro conjI)
  let ?ks = "[(''admin_password'', Admin_Password), (''console_recovery_password'', Admin_Password)]"
  show "fst (snd (ensure_user_held_secrets ent st pos))
     = filter (missing (st_secrets st)) [''admin_password'', ''console_recovery_password'']"
    using mint_missing_minted [of ?ks ent "st_secrets st" pos]
    by (simp only: ensure_user_held_secrets_def user_held_minted case_prod_beta Let_def fst_conv snd_conv)
      simp
  show "\<not> missing (st_secrets (fst (ensure_user_held_secrets ent st pos))) ''admin_password''"
    "\<not> missing (st_secrets (fst (ensure_user_held_secrets ent st pos))) ''console_recovery_password''"
    unfolding ensure_user_held_secrets_eq by (rule mint_missing_fills; simp)+
  show "map_of (st_secrets (fst (ensure_user_held_secrets ent st pos))) ''backup_restic_password''
     = map_of (st_secrets st) ''backup_restic_password''"
    unfolding ensure_user_held_secrets_eq by (rule mint_missing_frame) simp
qed

text \<open>C32: a client cannot supply an undeclared secret. When \<open>apply_inputs\<close> succeeds every supplied key
  was declared external, every other secret but the per-zone token map is unchanged, and no
  present secret becomes blank.\<close>

theorem apply_inputs_confined:
  assumes "apply_inputs kn st sin cin ov = Inr (st', ch)"
  shows "fst ` set (case sin of None \<Rightarrow> [] | Some m \<Rightarrow> m) \<subseteq> set (external_secrets kn)
    \<and> (\<forall>k. k \<notin> set (external_secrets kn) \<and> k \<noteq> ''cloudflare_api_tokens'' \<longrightarrow>
          map_of (st_secrets st') k = map_of (st_secrets st) k)
    \<and> (\<forall>k. \<not> missing (st_secrets st) k \<longrightarrow> \<not> missing (st_secrets st') k)"
  using apply_inputs_secrets(2) [OF assms] apply_inputs_frame [OF assms] apply_inputs_nonblank [OF assms]
  by blast

definition demo_knobs :: knobs where
  "demo_knobs = \<lparr>kn_secrets = [\<lparr>ks_key = ''cloudflare_api_token'', ks_panel = True\<rparr>,
                               \<lparr>ks_key = ''smtp_password'', ks_panel = True\<rparr>],
     kn_config = [\<lparr>kc_key = ''CLOUDFLARE_ZONE'', kc_residence = ''store'', kc_var = Some ''cfg_zone'', kc_env = None\<rparr>]\<rparr>"

definition demo_store :: store where
  "demo_store = \<lparr>st_secrets = [(''cloudflare_api_token'', PStr ''old-token''), (''zap_api_key'', PStr ''z'')],
                 st_config = [(''CLOUDFLARE_ZONE'', PStr ''old.example'')]\<rparr>"

definition demo_inputs :: "dict \<times> dict" where
  "demo_inputs = ([(''cloudflare_api_token'', PStr ''new-token'')], [(''CLOUDFLARE_ZONE'', PStr ''new.example'')])"

lemma demo_apply:
  "apply_inputs demo_knobs demo_store (Some (fst demo_inputs)) (Some (snd demo_inputs)) True
   = Inr (\<lparr>st_secrets = [(''cloudflare_api_token'', PStr ''new-token''), (''zap_api_key'', PStr ''z''),
             (''cloudflare_api_tokens'', PDict [(''old.example'', PStr ''old-token'')])],
           st_config = [(''CLOUDFLARE_ZONE'', PStr ''new.example'')]\<rparr>,
          [''cloudflare_api_tokens'', ''cloudflare_api_token'', ''CLOUDFLARE_ZONE''])"
  by code_simp

theorem apply_inputs_confined_witness:
  "\<exists>st' ch. apply_inputs demo_knobs demo_store (Some (fst demo_inputs)) (Some (snd demo_inputs)) True = Inr (st', ch)
     \<and> map_of (st_secrets st') ''zap_api_key'' = Some (PStr ''z'')"
proof -
  have "map_of (st_secrets demo_store) ''zap_api_key'' = Some (PStr ''z'')" by code_simp
  moreover have "''zap_api_key'' \<notin> set (external_secrets demo_knobs)" by code_simp
  ultimately show ?thesis using demo_apply apply_inputs_confined [OF demo_apply] by auto
qed

text \<open>C33: an undeclared key is refused. \<open>apply_inputs\<close> raises exactly when some supplied secret is not a
  declared external one.\<close>

theorem apply_inputs_refuses:
  "(\<exists>e. apply_inputs kn st sin cin ov = Inl e) \<longleftrightarrow>
   (\<exists>k. k \<in> fst ` set (case sin of None \<Rightarrow> [] | Some m \<Rightarrow> m) \<and> k \<notin> set (external_secrets kn))"
  using apply_inputs_error [of kn st sin cin ov] by blast

text \<open>A domain change keeps the outgoing domain's token. When a settings write moves
  \<open>CLOUDFLARE_ZONE\<close> from one domain to another and the store holds a token, the token is in the
  per-zone map under the domain being left.\<close>

theorem zone_change_keeps_token:
  assumes "apply_inputs kn st sin (Some cin) ov = Inr (st', ch)"
    and "has_key cin ''CLOUDFLARE_ZONE''"
    and "strip_or (dget cin ''CLOUDFLARE_ZONE'') \<noteq> []"
    and "strip_or (dget (st_config st) ''CLOUDFLARE_ZONE'') \<noteq> []"
    and "strip_or (dget cin ''CLOUDFLARE_ZONE'') \<noteq> strip_or (dget (st_config st) ''CLOUDFLARE_ZONE'')"
    and "strip_or (dget (st_secrets st) ''cloudflare_api_token'') \<noteq> []"
    and "''cloudflare_api_tokens'' \<notin> set (external_secrets kn)"
  shows "\<exists>d. dget (st_secrets st') ''cloudflare_api_tokens'' = PDict d
    \<and> dget d (strip_or (dget (st_config st) ''CLOUDFLARE_ZONE''))
      = PStr (strip_or (dget (st_secrets st) ''cloudflare_api_token''))"
proof -
  have "''cloudflare_api_tokens'' \<notin> fst ` set (case sin of None \<Rightarrow> [] | Some m \<Rightarrow> m)"
    using apply_inputs_secrets(2) [OF assms(1)] assms(7) by blast
  then have "map_of (st_secrets st') ''cloudflare_api_tokens''
      = map_of (st_secrets (fst (preserve_outgoing_zone_token st (Some cin)))) ''cloudflare_api_tokens''"
    by (simp add: apply_inputs_secrets(1) [OF assms(1)] merge_untouched)
  moreover have "cin \<noteq> []" using assms(2) by (auto simp: has_key_def)
  ultimately show ?thesis
    using assms(2-6)
    by (auto simp: preserve_outgoing_zone_token_def Let_def dget_def map_of_dset py_eq_str_right
        split: py.splits option.splits if_splits)
qed

theorem zone_change_keeps_token_witness:
  "\<exists>st' ch d. apply_inputs demo_knobs demo_store (Some (fst demo_inputs)) (Some (snd demo_inputs)) True = Inr (st', ch)
     \<and> dget (st_secrets st') ''cloudflare_api_tokens'' = PDict d \<and> dget d ''old.example'' = PStr ''old-token''"
proof -
  have "has_key (snd demo_inputs) ''CLOUDFLARE_ZONE''"
    "strip_or (dget (snd demo_inputs) ''CLOUDFLARE_ZONE'') \<noteq> []"
    "strip_or (dget (st_config demo_store) ''CLOUDFLARE_ZONE'') \<noteq> []"
    "strip_or (dget (snd demo_inputs) ''CLOUDFLARE_ZONE'') \<noteq> strip_or (dget (st_config demo_store) ''CLOUDFLARE_ZONE'')"
    "strip_or (dget (st_secrets demo_store) ''cloudflare_api_token'') \<noteq> []"
    "''cloudflare_api_tokens'' \<notin> set (external_secrets demo_knobs)"
    by code_simp+
  note zone_change_keeps_token [OF demo_apply this]
  moreover have "strip_or (dget (st_config demo_store) ''CLOUDFLARE_ZONE'') = ''old.example''"
    "strip_or (dget (st_secrets demo_store) ''cloudflare_api_token'') = ''old-token''"
    by code_simp+
  ultimately show ?thesis using demo_apply by auto
qed

text \<open>The panel's read gives the panel's secrets only. The settings API's \<open>read\<close> leaves the store's
  file as it is and returns no secret outside \<open>PANEL_SECRETS\<close>.\<close>

theorem panel_read_confined:
  assumes "dispatch_stdin kn (PDict r) lock wr dk = (Inr view, dk')" and "dget r ''op'' = PStr ''read''"
  shows "dk' = dk \<and> (\<exists>d. map_of view ''secrets'' = Some (PDict d) \<and> fst ` set d \<subseteq> set (panel_secrets kn))"
  using assms by (auto simp: dispatch_stdin_def panel_view_def split: sum.splits)

definition demo_disk :: disk where
  "demo_disk = \<lparr>dk_store = Some (Doc (PDict
     [(''secrets'', PDict [(''keycloak_db_password'', PStr ''k''), (''admin_password'', PStr ''a'')]),
      (''config'', PDict []), (''image_pins'', PDict [(''postgres'', PStr ''postgres:18.7-trixie'')])]), mode_0600),
     dk_tmp = None\<rparr>"

theorem panel_read_confined_witness:
  "\<exists>view d. dispatch_stdin demo_knobs (PDict [(''op'', PStr ''read'')]) Acquired Full demo_disk = (Inr view, demo_disk)
     \<and> map_of view ''secrets'' = Some (PDict d) \<and> ''keycloak_db_password'' \<notin> fst ` set d"
proof -
  have r: "dispatch_stdin demo_knobs (PDict [(''op'', PStr ''read'')]) Acquired Full demo_disk
    = (Inr [(''secrets'', PDict [(''admin_password'', PStr ''a'')]), (''config'', PDict [])], demo_disk)"
    unfolding dispatch_stdin_def by code_simp
  have "dget [(''op'', PStr ''read'')] ''op'' = PStr ''read''" by code_simp
  note view = panel_read_confined [OF r this]
  have "''keycloak_db_password'' \<notin> set (panel_secrets demo_knobs)" by code_simp
  with view r show ?thesis by fastforce
qed

text \<open>the provider is always stated. Whatever the store held, \<open>settle_tailnet_provider\<close> leaves one
  of the three providers under \<open>TAILNET_PROVIDER\<close>, drops \<open>ACCESS_METHOD\<close>, changes no secret, and
  reports no change when it runs again.\<close>

theorem tailnet_provider_settled:
  "\<exists>p. p \<in> set tailnet_providers
     \<and> map_of (st_config (fst (settle_tailnet_provider st))) ''TAILNET_PROVIDER'' = Some (PStr p)
     \<and> map_of (st_config (fst (settle_tailnet_provider st))) ''ACCESS_METHOD'' = None
     \<and> st_secrets (fst (settle_tailnet_provider st)) = st_secrets st
     \<and> settle_tailnet_provider (fst (settle_tailnet_provider st)) = (fst (settle_tailnet_provider st), False)"
proof -
  obtain p where "p \<in> set tailnet_providers"
    and "st_config (fst (settle_tailnet_provider st))
      = dset ''TAILNET_PROVIDER'' (PStr p) (ddel ''ACCESS_METHOD'' (st_config st))"
    using settle_config [of st] by blast
  then show ?thesis using settle_idem [of st] by (intro exI [of _ p]) (simp add: dict_simps)
qed

text \<open>A killed write leaves the old store or the new one. When the payload's write is not cut short,
  the store's file holds after any number of the write's steps what it held before, or the whole
  merged document.\<close>

theorem dump_killed_whole:
  assumes "wr \<noteq> Short"
  shows "dk_store (dump_killed k wr st dk) = dk_store dk
    \<or> (\<exists>doc m. dump_doc st dk = Inr doc
         \<and> dk_store (dump_killed k wr st dk) = Some (Doc (PDict (sorted_dict doc)), m))"
  using dump_killed_store [of k wr st dk] assms by (cases wr) auto

theorem dump_killed_whole_witness:
  "Full \<noteq> Short \<and> dk_store (dump_killed 2 Full demo_store demo_disk) = dk_store demo_disk"
proof -
  have "dk_store (dump_killed 2 Full demo_store demo_disk) = dk_store demo_disk" by code_simp
  then show ?thesis using dump_killed_whole [of Full 2 demo_store demo_disk] by simp
qed

text \<open>A short write replaces the store with text that no longer parses. \<open>os.write\<close> may take less than
  the whole payload, on a full disk for one; the count it returns is not looked at, the truncated
  temporary replaces the store, the run reports success, and the next run refuses the store.\<close>

theorem dump_short_write_garbles:
  assumes "dump_doc st dk = Inr doc"
  shows "fst (dump Short st dk) = Inr () \<and> dk_store (snd (dump Short st dk)) = Some (Garbled, mode_0600)
    \<and> load (snd (dump Short st dk)) = Inl Malformed"
  using assms by (simp add: dump_def dump_steps_def dump_step_defs load_def read_doc_def)

theorem dump_short_write_garbles_witness:
  "load demo_disk \<noteq> Inl Malformed \<and> load (snd (dump Short demo_store demo_disk)) = Inl Malformed"
proof -
  have "\<exists>doc. dump_doc demo_store demo_disk = Inr doc" by (simp add: dump_doc_def read_doc_def demo_disk_def Let_def)
  then obtain doc where d: "dump_doc demo_store demo_disk = Inr doc" ..
  have "load demo_disk \<noteq> Inl Malformed"
    by (simp add: load_def read_doc_def demo_disk_def store_section_def dget_def bindR_def)
  then show ?thesis using dump_short_write_garbles [OF d] by simp
qed

text \<open>C34: what is written is read back, and other writers' blocks stand. After a whole write, the load
  gives every secret and every config value (with the keys of a nested object in order), and every
  other block of the file is the one that was there.\<close>

theorem dump_load_roundtrip:
  assumes "dump_doc st dk = Inr doc" and "doc_wf dk"
    and "wf_dict (st_secrets st)" and "wf_dict (st_config st)"
  shows "\<exists>st'. load (snd (dump Full st dk)) = Inr st'
      \<and> (\<forall>k. map_of (st_secrets st') k = map_option sort_keys (map_of (st_secrets st) k))
      \<and> (\<forall>k. map_of (st_config st') k = map_option sort_keys (map_of (st_config st) k))
      \<and> (\<exists>raw'. read_doc (snd (dump Full st dk)) = Inr (Some raw')
          \<and> (\<forall>k. k \<noteq> ''secrets'' \<and> k \<noteq> ''config'' \<longrightarrow> map_of raw' k =
               map_option sort_keys (case read_doc dk of Inr (Some raw) \<Rightarrow> map_of raw k | _ \<Rightarrow> None)))"
proof -
  have wf: "wf_dict doc"
    by (rule dump_doc_wf [OF assms(1)]) (use assms(2) in \<open>simp add: doc_wf_def\<close>)
  have "read_doc (snd (dump Full st dk)) = Inr (Some (sorted_dict doc))"
    using dump_full [OF assms(1)] by (simp add: read_doc_def)
  then show ?thesis
    using load_dump [OF assms(1,2)] dump_doc_other [OF assms(1)] map_of_sorted_dict [OF wf]
    by (auto simp: map_of_sorted_dict assms(3,4))
qed

theorem dump_load_roundtrip_witness:
  "\<exists>st' raw'. load (snd (dump Full demo_store demo_disk)) = Inr st'
     \<and> map_of (st_secrets st') ''zap_api_key'' = Some (PStr ''z'')
     \<and> read_doc (snd (dump Full demo_store demo_disk)) = Inr (Some raw')
     \<and> map_of raw' ''image_pins'' = Some (PDict [(''postgres'', PStr ''postgres:18.7-trixie'')])"
proof -
  have "\<exists>doc. dump_doc demo_store demo_disk = Inr doc" by (simp add: dump_doc_def read_doc_def demo_disk_def Let_def)
  then obtain doc where d: "dump_doc demo_store demo_disk = Inr doc" ..
  have "doc_wf demo_disk" "wf_dict (st_secrets demo_store)" "wf_dict (st_config demo_store)"
    by (simp_all add: doc_wf_def read_doc_def demo_disk_def demo_store_def wf_dict_def)
  from dump_load_roundtrip [OF d this] obtain st' raw' where
    l: "load (snd (dump Full demo_store demo_disk)) = Inr st'"
    and s: "\<forall>k. map_of (st_secrets st') k = map_option sort_keys (map_of (st_secrets demo_store) k)"
    and r: "read_doc (snd (dump Full demo_store demo_disk)) = Inr (Some raw')"
    and o: "\<forall>k. k \<noteq> ''secrets'' \<and> k \<noteq> ''config'' \<longrightarrow> map_of raw' k =
       map_option sort_keys (case read_doc demo_disk of Inr (Some raw) \<Rightarrow> map_of raw k | _ \<Rightarrow> None)"
    by (elim exE conjE) (rule that)
  have "map_of raw' ''image_pins'' = Some (PDict [(''postgres'', PStr ''postgres:18.7-trixie'')])"
    using o [rule_format, of "''image_pins''"]
    by (simp add: read_doc_def demo_disk_def sort_keys_PDict sorted_dict_def)
  moreover have "map_of (st_secrets st') ''zap_api_key'' = Some (PStr ''z'')"
    using s [rule_format, of "''zap_api_key''"] by (simp add: demo_store_def)
  ultimately show ?thesis using l r by blast
qed

text \<open>A run that fails leaves the store. A settings request that ends in an error, of whatever kind
  (an undeclared key, a malformed store, a lock that stays held, a write that fails), leaves the
  store's file as it was.\<close>

theorem failed_request_keeps_store:
  assumes "dispatch_stdin kn req lock wr dk = (Inl e, dk')"
  shows "dk_store dk' = dk_store dk"
  using assms by (rule dispatch_stdin_error)

theorem failed_request_keeps_store_witness:
  "\<exists>e dk'. dispatch_stdin demo_knobs (PDict [(''op'', PStr ''write''), (''secrets'', PDict [(''zap_api_key'', PStr ''x'')])])
      Acquired Full demo_disk = (Inl e, dk') \<and> dk_store dk' = dk_store demo_disk"
proof -
  have "dispatch_stdin demo_knobs (PDict [(''op'', PStr ''write''), (''secrets'', PDict [(''zap_api_key'', PStr ''x'')])])
      Acquired Full demo_disk = (Inl (NotExternal ''zap_api_key''), demo_disk)"
    by code_simp
  then show ?thesis using failed_request_keeps_store by blast
qed

text \<open>C35: the lock's wait ends, and grants the lock only when it is free. Once the clock reaches the
  deadline at some attempt, \<open>store_lock\<close> has returned: with the lock, at the first attempt that found
  it free with every earlier attempt before the deadline, or with exit code 75 and the lock busy at
  every attempt up to the deadline.\<close>

theorem store_lock_ends:
  assumes "deadline \<le> clock n"
  shows "store_lock busy clock deadline 0 = Some Acquired \<and>
           (\<exists>j \<le> n. \<not> busy j \<and> (\<forall>l < j. busy l \<and> clock l < deadline))
       \<or> store_lock busy clock deadline 0 = Some Exit75 \<and>
           (\<exists>j \<le> n. deadline \<le> clock j \<and> (\<forall>l \<le> j. busy l))"
  using store_lock_outcome [of 0 n deadline clock busy] assms by auto

theorem store_lock_ends_witness:
  "\<exists>r. store_lock (\<lambda>i. i < 3) (\<lambda>i. 200 * int i) store_lock_wait_ms 0 = Some r"
proof -
  have "store_lock_wait_ms \<le> 200 * int 6000" by (simp add: store_lock_wait_ms_def)
  from store_lock_ends [where clock = "\<lambda>i. 200 * int i" and busy = "\<lambda>i. i < 3", OF this]
  show ?thesis by blast
qed

text \<open>A settings write leaves every key it may not set. After a successful \<open>write\<close>, the store that is
  read back holds every secret outside the declared external ones, the per-zone token map apart,
  with the value it had.\<close>

theorem settings_write_keeps_others:
  assumes "dispatch_write kn req lock Full dk = (Inr r, dk')" and "doc_wf dk"
    and "load dk = Inr st" and "wf_dict (st_secrets st)"
  shows "\<exists>st'. load dk' = Inr st' \<and> (\<forall>k. k \<notin> set (external_secrets kn) \<and> k \<noteq> ''cloudflare_api_tokens'' \<longrightarrow>
    map_of (st_secrets st') k = map_option sort_keys (map_of (st_secrets st) k))"
  using assms(1-3) by (rule dispatch_write_secrets) (use assms(4) in blast)

theorem settings_write_keeps_others_witness:
  "\<exists>r dk' st'. dispatch_write demo_knobs [(''secrets'', PDict [(''smtp_password'', PStr ''s'')])] Acquired Full demo_disk
      = (Inr r, dk') \<and> load dk' = Inr st' \<and> map_of (st_secrets st') ''keycloak_db_password'' = Some (PStr ''k'')"
proof -
  let ?st = "\<lparr>st_secrets = [(''keycloak_db_password'', PStr ''k''), (''admin_password'', PStr ''a'')], st_config = []\<rparr>"
  have l: "load demo_disk = Inr ?st"
    by (simp add: load_def read_doc_def demo_disk_def store_section_def dget_def)
  have w: "doc_wf demo_disk" "wf_dict (st_secrets ?st)"
    by (simp_all add: doc_wf_def read_doc_def demo_disk_def wf_dict_def)
  have "fst (dispatch_write demo_knobs [(''secrets'', PDict [(''smtp_password'', PStr ''s'')])] Acquired Full demo_disk)
     = Inr [(''ok'', PBool True)]"
    by code_simp
  then obtain r dk' where d: "dispatch_write demo_knobs [(''secrets'', PDict [(''smtp_password'', PStr ''s'')])] Acquired Full demo_disk
      = (Inr r, dk')"
    by (metis prod.collapse)
  have "''keycloak_db_password'' \<notin> set (external_secrets demo_knobs)" by code_simp
  with settings_write_keeps_others [OF d w(1) l w(2)] d show ?thesis by fastforce
qed

text \<open>the minted formats. Each minter gives a value of its declared length without a blank, and an
  oauth2-proxy cookie secret decodes to the 32 random bytes it was made from.\<close>

theorem minted_formats:
  "length (fst (mint m ent pos)) = minted_length m \<and> \<not> is_blank (PStr (fst (mint m ent pos)))
   \<and> raw_url_decode (fst (mint Cookie_Secret ent pos)) = Some (urandom ent pos 32)"
  using length_mint mint_not_blank cookie_secret_decodes by simp

text \<open>two zones can share one cookie secret. The store key of a zone's cookie secret is made of its
  slug, and the slug maps every separator to an underscore, so a domain with a hyphen and one with
  a dot in its place have the same key.\<close>

theorem zone_keys_collide:
  "zone_cookie_secret_key ''my-shop.com'' = zone_cookie_secret_key ''my.shop.com'' \<and> ''my-shop.com'' \<noteq> ''my.shop.com''"
  by code_simp

end
