(* ===== verification/Dispatch_Render.thy ===== *)
theory Dispatch_Render
  imports Prelude
begin

text \<open>
  What a generation of the panel's dispatch path is made of and how a running one is recognised:
  the rendering and parsing half of \<open>src/ansible/helpers/dispatch_path.py\<close>. The SHA-256 hex
  digest is an argument (\<open>sha\<close>); what the theory uses of it is that it is lower-case hexadecimal
  and at least twelve characters long.
\<close>

section \<open>Constants\<close>

definition GENERATIONS :: string where "GENERATIONS = ''/usr/local/lib/catena-dispatch''"
definition SUDOERS :: string where "SUDOERS = ''/etc/sudoers.d/catena-admin-runner''"
definition SUDOERS_NEXT :: string where "SUDOERS_NEXT = ''/etc/sudoers.d/catena-admin-runner-next''"
definition ACCEPTENV :: string where
  "ACCEPTENV = ''/etc/ssh/sshd_config.d/30-catena-admin-runner-acceptenv.conf''"
definition ACCEPTENV_NEXT :: string where
  "ACCEPTENV_NEXT = ''/etc/ssh/sshd_config.d/30-catena-admin-runner-next.conf''"
definition PROOF_ACTION :: string where "PROOF_ACTION = ''dispatch-path-proof''"
definition ENTRY_REFUSAL :: string where "ENTRY_REFUSAL = ''catena-dispatch-entry: refusing''"
definition KEY_OPTIONS :: string where "KEY_OPTIONS = ''restrict''"
definition LOOPBACK :: string where "LOOPBACK = ''127.0.0.1''"

definition dq :: char where "dq = CHR 0x22"
definition bs :: char where "bs = CHR 0x5C"

definition HEADER :: string where
  "HEADER = ''# Written by catena-ce reconcile/roles/dispatch_path (helpers/dispatch_path.py).'' @ nl"

section \<open>What a generation is made of\<close>

record cfg =
  runner_user :: string
  runner_home :: string
  panel_key_dir :: string
  link_path :: string
  passthrough :: "py"
  entry_text :: string
  dispatcher_text :: string

text \<open>\<open>_text\<close>: exactly one final newline.\<close>

definition text_of :: "string \<Rightarrow> string" where
  "text_of script = rstrip_by (\<lambda>c. c = CHR 0x0A) script @ nl"

definition sudo_rule :: "string \<Rightarrow> string \<Rightarrow> string list \<Rightarrow> string" where
  "sudo_rule user dispatcher names = HEADER
     @ ''# The runner account may run this generation's dispatcher as root, with no'' @ nl
     @ ''# password and no tty, keeping the dispatch variables sshd accepted for it.'' @ nl
     @ ''Defaults:'' @ user @ '' !requiretty'' @ nl
     @ ''Defaults:'' @ user @ '' env_keep += '' @ [dq] @ join '' '' names @ [dq] @ nl
     @ user @ '' ALL=(root) NOPASSWD: '' @ dispatcher @ nl"

definition acceptenv_rule :: "string \<Rightarrow> string list \<Rightarrow> string" where
  "acceptenv_rule user names = HEADER
     @ ''# The dispatch variables the panel sends, accepted for the runner account alone.'' @ nl
     @ ''Match User '' @ user @ nl
     @ ''    AcceptEnv '' @ join '' '' names @ nl
     @ ''Match all'' @ nl"

definition key_line :: "string \<Rightarrow> string \<Rightarrow> bool \<Rightarrow> string \<Rightarrow> string" where
  "key_line entry pubkey loopback_only expires =
     (if loopback_only then ''from='' @ [dq] @ LOOPBACK @ '',::1'' @ [dq] @ '','' else [])
     @ (if expires \<noteq> [] then ''expiry-time='' @ [dq] @ expires @ [dq] @ '','' else [])
     @ ''command='' @ [dq] @ entry @ [dq] @ '','' @ KEY_OPTIONS @ '' '' @ pubkey"

text \<open>\<open>PASSTHROUGH_NAME.fullmatch\<close>: \<open>X_FORWARDED_[A-Z]+\<close> or \<open>CATENA(_[A-Z]+)+\<close>.\<close>

definition upper_word :: "string \<Rightarrow> bool" where
  "upper_word w = (w \<noteq> [] \<and> list_all is_upper w)"

definition passthrough_shape :: "string \<Rightarrow> bool" where
  "passthrough_shape name =
     (prefix ''X_FORWARDED_'' name \<and> upper_word (drop 12 name)
      \<or> prefix ''CATENA_'' name \<and> list_all upper_word (split_char (CHR ''_'') (drop 7 name)))"

definition forbidden_names :: "string list" where
  "forbidden_names = [''CATENA_ADMIN_ACTIONS_FILE'']"

datatype name_problem = Names_Not_List | Name_Refused py

definition name_ok :: "py \<Rightarrow> bool" where
  "name_ok v = (case v of PStr n \<Rightarrow> passthrough_shape n \<and> n \<notin> set forbidden_names | _ \<Rightarrow> False)"

definition passthrough_problem :: "py \<Rightarrow> name_problem option" where
  "passthrough_problem names = (case names of
      PList xs \<Rightarrow> (case find (\<lambda>v. \<not> name_ok v) xs of None \<Rightarrow> None | Some v \<Rightarrow> Some (Name_Refused v))
    | _ \<Rightarrow> Some Names_Not_List)"

text \<open>The names once \<open>passthrough_problem\<close> has let them through.\<close>

definition names_of :: "cfg \<Rightarrow> string list" where
  "names_of c = (case passthrough c of PList xs \<Rightarrow> map py_str xs | _ \<Rightarrow> [])"

definition generation :: "(string \<Rightarrow> string) \<Rightarrow> cfg \<Rightarrow> string" where
  "generation sha c = take 12 (sha (concat (map (\<lambda>part. part @ [CHR 0x00])
     [text_of (entry_text c), text_of (dispatcher_text c),
      sudo_rule (runner_user c) ''@DISPATCHER@'' (names_of c),
      acceptenv_rule (runner_user c) (names_of c),
      key_line ''@ENTRY@'' ''@KEY@'' False []])))"

definition entry_path :: "string \<Rightarrow> string" where
  "entry_path gen = GENERATIONS @ ''/'' @ gen @ ''/entry''"

definition dispatcher_path :: "string \<Rightarrow> string" where
  "dispatcher_path gen = GENERATIONS @ ''/'' @ gen @ ''/dispatcher''"

section \<open>What is running\<close>

definition LEGACY :: string where "LEGACY = ''legacy''"
definition NO_PATH :: string where "NO_PATH = ''none''"

definition is_hex :: "char \<Rightarrow> bool" where
  "is_hex c = (is_digit c \<or> (let n = of_char c :: nat in 97 \<le> n \<and> n \<le> 102))"

text \<open>\<open>_GENERATION_ENTRY.fullmatch\<close>, giving its group.\<close>

definition generation_entry :: "string \<Rightarrow> string option" where
  "generation_entry s =
     (let pre = GENERATIONS @ ''/''; rest = drop (length pre) s; gen = take 12 rest in
      if prefix pre s \<and> length gen = 12 \<and> list_all is_hex gen \<and> drop 12 rest = ''/entry''
      then Some gen else None)"

text \<open>The quoted value of \<open>_COMMAND\<close>: up to the closing quote, a backslash taking the next character with it.\<close>

fun quoted :: "string \<Rightarrow> string option" where
  "quoted [] = None"
| "quoted [c] = (if c = dq then Some [] else None)"
| "quoted (c # d # s) =
     (if c = dq then Some []
      else if c = bs then (if d = CHR 0x0A then None else map_option (\<lambda>r. c # d # r) (quoted s))
      else map_option (Cons c) (quoted (d # s)))"

definition command_here :: "string \<Rightarrow> string option" where
  "command_here s = (if prefix (''command='' @ [dq]) s then quoted (drop 9 s) else None)"

text \<open>\<open>_COMMAND.search\<close>: the leftmost match at the start of the line or after a comma.\<close>

fun command_after_comma :: "string \<Rightarrow> string option" where
  "command_after_comma [] = None"
| "command_after_comma (c # s) =
     (if c = CHR '','' then (case command_here s of Some v \<Rightarrow> Some v | None \<Rightarrow> command_after_comma s)
      else command_after_comma s)"

definition command_of :: "string \<Rightarrow> string option" where
  "command_of line = (case command_here line of Some v \<Rightarrow> Some v | None \<Rightarrow> command_after_comma line)"

definition key_blob :: "string \<Rightarrow> string" where
  "key_blob pub = (let fields = split_ws pub in if 2 \<le> length fields then fields ! 1 else [])"

definition line_for :: "string option \<Rightarrow> string \<Rightarrow> string option" where
  "line_for keys blob =
     find (\<lambda>line. strip line \<noteq> [] \<and> \<not> prefix ''#'' (lstrip line) \<and> blob \<in> set (split_ws line))
       (splitlines (case keys of None \<Rightarrow> [] | Some t \<Rightarrow> t))"

definition running_generation :: "string option \<Rightarrow> string" where
  "running_generation line = (case line of
      None \<Rightarrow> NO_PATH
    | Some l \<Rightarrow> (case command_of l of
          None \<Rightarrow> LEGACY
        | Some v \<Rightarrow> (case generation_entry v of None \<Rightarrow> LEGACY | Some g \<Rightarrow> g)))"

text \<open>\<open>PANEL_KEY.fullmatch\<close>: \<open>ssh-ed25519 [A-Za-z0-9+/]+=*( \S+)?\<close>.\<close>

definition b64_char :: "char \<Rightarrow> bool" where
  "b64_char c = (is_alnum c \<or> c = CHR ''+'' \<or> c = CHR ''/'')"

definition panel_key_shape :: "string \<Rightarrow> bool" where
  "panel_key_shape pub =
     (let rest = drop 12 pub;
          more = dropWhile (\<lambda>c. c = CHR ''='') (dropWhile b64_char rest)
      in prefix ''ssh-ed25519 '' pub \<and> takeWhile b64_char rest \<noteq> []
         \<and> (more = [] \<or> hd more = CHR '' '' \<and> tl more \<noteq> [] \<and> list_all (\<lambda>c. \<not> py_isspace c) (tl more)))"

definition panel_keys_text :: "string \<Rightarrow> string \<Rightarrow> string" where
  "panel_keys_text gen pub = HEADER @ key_line (entry_path gen) pub False [] @ nl"

section \<open>A name that is let through is inert in both files\<close>

lemma set_join_chars: "set (join sep xs) \<subseteq> set sep \<union> \<Union> (set (map set xs))"
  by (induction sep xs rule: join.induct) auto

definition name_char :: "char \<Rightarrow> bool" where
  "name_char c = (is_upper c \<or> c = CHR ''_'')"

lemma passthrough_shape_chars:
  assumes "passthrough_shape n" and "c \<in> set n"
  shows "name_char c"
  using assms(1) unfolding passthrough_shape_def
proof (elim disjE conjE)
  assume p: "prefix ''X_FORWARDED_'' n" and w: "upper_word (drop 12 n)"
  then obtain r where n: "n = ''X_FORWARDED_'' @ r" by (auto simp: prefix_def)
  with w have "list_all is_upper r" by (simp add: upper_word_def)
  with n assms(2) show ?thesis
    by (auto simp: name_char_def list_all_iff is_upper_def)
next
  assume p: "prefix ''CATENA_'' n" and w: "list_all upper_word (split_char (CHR ''_'') (drop 7 n))"
  then obtain r where n: "n = ''CATENA_'' @ r" by (auto simp: prefix_def)
  with w have w: "list_all upper_word (split_char (CHR ''_'') r)" by simp
  have "set (join ''_'' (split_char (CHR ''_'') r)) \<subseteq> {c. name_char c}"
    using set_join_chars [of "''_''" "split_char (CHR ''_'') r"] w
    by (fastforce simp: list_all_iff upper_word_def name_char_def)
  then have "set r \<subseteq> {c. name_char c}" by (simp add: join_split_char)
  with n assms(2) show ?thesis by (auto simp: name_char_def is_upper_def)
qed

lemma passthrough_problem_None:
  "passthrough_problem v = None \<longleftrightarrow> (\<exists>xs. v = PList xs \<and> list_all name_ok xs)"
proof (cases v)
  case (PList xs)
  have "find (\<lambda>v. \<not> name_ok v) xs = None \<longleftrightarrow> list_all name_ok xs"
    by (auto simp: find_None_iff list_all_iff)
  with PList show ?thesis by (auto simp: passthrough_problem_def split: option.split)
qed (auto simp: passthrough_problem_def)

lemma names_of_chars:
  assumes "passthrough_problem (passthrough c) = None" and "n \<in> set (names_of c)"
  shows "n \<noteq> [] \<and> (\<forall>x \<in> set n. name_char x) \<and> n \<notin> set forbidden_names"
proof -
  obtain xs where xs: "passthrough c = PList xs" "list_all name_ok xs"
    using assms(1) by (auto simp: passthrough_problem_None)
  with assms(2) obtain v where "v \<in> set xs" "n = py_str v" by (auto simp: names_of_def)
  with xs(2) have "name_ok v" by (simp add: list_all_iff)
  with \<open>n = py_str v\<close> have "passthrough_shape n" "n \<notin> set forbidden_names"
    by (cases v; simp add: name_ok_def)+
  moreover from this(1) have "n \<noteq> []" by (auto simp: passthrough_shape_def)
  ultimately show ?thesis by (auto dest: passthrough_shape_chars)
qed

section \<open>The panel's line is read back as the generation it names\<close>

lemma quoted_append:
  "\<forall>c \<in> set v. c \<noteq> dq \<and> c \<noteq> bs \<Longrightarrow> quoted (v @ dq # rest) = Some v"
proof (induction v)
  case Nil
  then show ?case by (cases rest) auto
next
  case (Cons c v)
  then show ?case by (cases v) auto
qed

lemma command_of_key_line:
  assumes "\<forall>c \<in> set entry. c \<noteq> dq \<and> c \<noteq> bs"
  shows "command_of (key_line entry pub False []) = Some entry"
proof -
  have "drop 9 (key_line entry pub False []) = entry @ dq # '','' @ KEY_OPTIONS @ '' '' @ pub"
    by (simp add: key_line_def)
  moreover have "prefix (''command='' @ [dq]) (key_line entry pub False [])"
    by (simp add: key_line_def)
  ultimately show ?thesis
    using quoted_append [OF assms] by (simp add: command_of_def command_here_def)
qed

definition gen_name :: "string \<Rightarrow> bool" where
  "gen_name g = (length g = 12 \<and> list_all is_hex g)"

lemma generation_entry_path: "gen_name g \<Longrightarrow> generation_entry (entry_path g) = Some g"
  by (simp add: generation_entry_def entry_path_def gen_name_def Let_def)

lemma hex_plain: "is_hex c \<Longrightarrow> c \<noteq> dq \<and> c \<noteq> bs \<and> \<not> line_end c \<and> \<not> py_isspace c \<and> c \<noteq> CHR ''/''"
  by (auto simp: is_hex_def is_digit_def dq_def bs_def line_end_def py_isspace_def Let_def)

lemma generations_plain:
  "\<forall>c \<in> set GENERATIONS. c \<noteq> dq \<and> c \<noteq> bs \<and> \<not> line_end c \<and> \<not> py_isspace c"
  by (simp add: GENERATIONS_def dq_def bs_def line_end_def py_isspace_def)

lemma entry_path_plain:
  assumes "gen_name g" and "c \<in> set (entry_path g)"
  shows "c \<noteq> dq \<and> c \<noteq> bs \<and> \<not> line_end c \<and> \<not> py_isspace c"
proof -
  consider "c \<in> set GENERATIONS" | "c \<in> set g" | "c \<in> set ''/''" | "c \<in> set ''/entry''"
    using assms(2) by (auto simp: entry_path_def)
  then show ?thesis
  proof cases
    case 1
    then show ?thesis using generations_plain by blast
  next
    case 2
    then show ?thesis using hex_plain assms(1) by (auto simp: gen_name_def list_all_iff)
  qed (auto simp: dq_def bs_def line_end_def py_isspace_def)
qed

lemma running_key_line:
  assumes "gen_name g"
  shows "running_generation (Some (key_line (entry_path g) pub False [])) = g"
proof -
  have "command_of (key_line (entry_path g) pub False []) = Some (entry_path g)"
    by (rule command_of_key_line) (use entry_path_plain [OF assms] in blast)
  then show ?thesis by (simp add: running_generation_def generation_entry_path [OF assms])
qed

section \<open>The keys file the switch writes is read back\<close>

lemma splitlines_acc_line:
  assumes "\<forall>c \<in> set l. \<not> line_end c"
  shows "splitlines_acc acc (l @ CHR 0x0A # rest) = rev (rev l @ acc) # splitlines_acc [] rest"
  using assms by (induction l arbitrary: acc) (auto simp: line_end_def)

lemma splitlines_lines:
  assumes "\<forall>c \<in> set a. \<not> line_end c" and "\<forall>c \<in> set b. \<not> line_end c"
  shows "splitlines (a @ nl @ b @ nl) = [a, b]"
  using assms by (simp add: splitlines_def nl_def splitlines_acc_line)

lemma split_ws_acc_append:
  "py_isspace c \<Longrightarrow> split_ws_acc acc (s @ c # t) = split_ws_acc acc s @ split_ws_acc [] t"
  by (induction acc s rule: split_ws_acc.induct) auto

lemma split_ws_after_space: "w \<in> set (split_ws t) \<Longrightarrow> w \<in> set (split_ws (s @ '' '' @ t))"
  by (simp add: split_ws_def split_ws_acc_append py_isspace_def)

lemma line_end_space: "line_end c \<Longrightarrow> py_isspace c"
  by (auto simp: line_end_def py_isspace_def Let_def)

lemma panel_key_chars:
  assumes "panel_key_shape pub" and "c \<in> set pub"
  shows "\<not> line_end c"
proof -
  obtain r where pub: "pub = ''ssh-ed25519 '' @ r"
    using assms(1) by (auto simp: panel_key_shape_def Let_def prefix_def)
  define eqs where "eqs = dropWhile b64_char r"
  define more where "more = dropWhile (\<lambda>c. c = CHR ''='') eqs"
  have "r = takeWhile b64_char r @ eqs" by (simp add: eqs_def)
  moreover have "eqs = takeWhile (\<lambda>c. c = CHR ''='') eqs @ more" by (simp add: more_def)
  ultimately have "set r \<subseteq> set (takeWhile b64_char r) \<union> set (takeWhile (\<lambda>c. c = CHR ''='') eqs) \<union> set more"
    by (metis set_append sup.assoc order_refl)
  moreover have "more = [] \<or> hd more = CHR '' '' \<and> list_all (\<lambda>c. \<not> py_isspace c) (tl more)"
    using assms(1) unfolding pub panel_key_shape_def by (auto simp: Let_def more_def eqs_def)
  moreover have "\<not> line_end c" if "b64_char c" for c
    using that by (auto simp: b64_char_def is_alnum_def is_alpha_def is_upper_def is_lower_def is_digit_def
        line_end_def Let_def)
  ultimately have r: "\<not> line_end c" if "c \<in> set r" for c
  proof -
    have "\<not> line_end (CHR '' '')" "\<not> line_end (CHR ''='')" by (simp_all add: line_end_def)
    moreover have "b64_char c \<or> c = CHR ''='' \<or> c = CHR '' '' \<or> \<not> py_isspace c"
      using that \<open>set r \<subseteq> _\<close> \<open>more = [] \<or> _\<close>
      by (cases more) (auto dest!: set_takeWhileD simp: list_all_iff)
    ultimately show ?thesis using \<open>\<And>c. b64_char c \<Longrightarrow> \<not> line_end c\<close> line_end_space by blast
  qed
  show ?thesis using assms(2) r unfolding pub by (auto simp: line_end_def)
qed

lemma HEADER_lines: "HEADER = ''# Written by catena-ce reconcile/roles/dispatch_path (helpers/dispatch_path.py).'' @ nl"
  "\<forall>c \<in> set ''# Written by catena-ce reconcile/roles/dispatch_path (helpers/dispatch_path.py).''. \<not> line_end c"
  by (simp_all add: HEADER_def line_end_def)

lemma key_line_plain:
  assumes "gen_name g" and "panel_key_shape pub" and "c \<in> set (key_line (entry_path g) pub False [])"
  shows "\<not> line_end c"
proof -
  consider "c \<in> set (''command='' @ [dq])" | "c \<in> set (entry_path g)" | "c \<in> set ([dq] @ '','' @ KEY_OPTIONS @ '' '')"
    | "c \<in> set pub"
    using assms(3) by (auto simp: key_line_def)
  then show ?thesis
  proof cases
    case 2
    then show ?thesis using entry_path_plain [OF assms(1)] by blast
  next
    case 4
    then show ?thesis using panel_key_chars [OF assms(2)] by blast
  qed (auto simp: dq_def KEY_OPTIONS_def line_end_def)
qed

lemma line_for_panel_keys:
  assumes "gen_name g" and "panel_key_shape pub" and "key_blob pub \<noteq> []"
  shows "line_for (Some (panel_keys_text g pub)) (key_blob pub) = Some (key_line (entry_path g) pub False [])"
proof -
  let ?l = "key_line (entry_path g) pub False []"
  have "splitlines (panel_keys_text g pub)
    = [''# Written by catena-ce reconcile/roles/dispatch_path (helpers/dispatch_path.py).'', ?l]"
    using splitlines_lines [OF HEADER_lines(2), of ?l] key_line_plain [OF assms(1,2)]
    by (simp add: panel_keys_text_def HEADER_lines(1))
  moreover have "prefix ''#'' (lstrip ''# Written by catena-ce reconcile/roles/dispatch_path (helpers/dispatch_path.py).'')"
    by (simp add: lstrip_def py_isspace_def)
  moreover have l: "?l = CHR ''c'' # tl ?l" by (simp add: key_line_def)
  then obtain t where t: "?l = CHR ''c'' # t" by blast
  then have "lstrip ?l = ?l" unfolding lstrip_def t by (simp add: py_isspace_def)
  moreover have "\<not> prefix ''#'' ?l" unfolding t by simp
  moreover have "\<not> blank ?l" unfolding t by (simp add: blank_iff py_isspace_def)
  then have "strip ?l \<noteq> []" by (simp add: blank_def)
  moreover have "key_blob pub \<in> set (split_ws pub)"
    using assms(3) by (auto simp: key_blob_def Let_def split: if_splits)
  then have "key_blob pub \<in> set (split_ws ?l)"
    using split_ws_after_space [of _ pub "''command='' @ [dq] @ entry_path g @ [dq] @ '','' @ KEY_OPTIONS"]
    by (simp add: key_line_def)
  ultimately show ?thesis by (simp add: line_for_def)
qed

lemma running_panel_keys:
  assumes "gen_name g" and "panel_key_shape pub" and "key_blob pub \<noteq> []"
  shows "running_generation (line_for (Some (panel_keys_text g pub)) (key_blob pub)) = g"
  using line_for_panel_keys [OF assms] running_key_line [OF assms(1)] by simp

end
