(* ===== verification/Dispatch_Path.thy ===== *)
theory Dispatch_Path
  imports Dispatch_Render
begin

text \<open>
  The dispatch path's switch on a host, \<open>src/ansible/helpers/dispatch_path.py\<close>: the files the
  switch reads and writes, the runner's authorized keys, the proof, and the phases BESIDE, PROOF,
  SWITCH and RETIRE with their undo. The programs the switch runs (\<open>ssh\<close>, \<open>ssh-keygen\<close>,
  \<open>sshd -t\<close>, \<open>systemctl\<close>, \<open>visudo\<close>) and the user database are not part of the repository: they
  are arguments (\<open>env\<close>). A command gets the files as they are and may change them; a run that
  exceeds its time limit gives no result and raises.
\<close>

section \<open>The host\<close>

datatype node =
    Reg string nat nat nat \<comment> \<open>text, mode, owner, number of names\<close>
  | Dir nat nat \<comment> \<open>mode, owner\<close>
  | Link string
  | Special

type_synonym files = "(string \<times> node) list"

record proc =
  rc :: int
  out :: string
  err :: string

record host =
  h_fs :: files
  h_wrote :: "string list"
  h_calls :: nat

record env =
  e_run :: "string list \<Rightarrow> nat \<Rightarrow> files \<Rightarrow> proc option \<times> files"
  e_uid :: "string \<Rightarrow> nat"
  e_nonce :: "nat \<Rightarrow> string"
  e_keydir :: string
  e_expires :: string
  e_sha :: "string \<Rightarrow> string"

datatype proof_reason =
    Proof_Exit int
  | Wrong_Answer string
  | Names_Lost "string list"
  | Carried_Accepted int
  | No_Proof_Key

datatype refusal =
    Visudo_Refused string
  | Sshd_Refused string
  | Reload_Failed
  | Ssh_Dir_Missing
  | Ssh_Dir_Not_Plain
  | Ssh_Dir_Not_Owned
  | Keys_Not_Plain
  | Keys_Linked nat
  | Keys_Not_Owned
  | Keys_Not_Written
  | Beside_Failed "proof_reason list"
  | Switch_Failed "proof_reason list"
  | Retire_Failed "proof_reason list"

datatype dp_error = Refused refusal | Uncaught

type_synonym 'a step = "(host, dp_error, 'a) sem"

definition node_at :: "string \<Rightarrow> host \<Rightarrow> node option" where
  "node_at p h = map_of (h_fs h) p"

definition put_node :: "string \<Rightarrow> node \<Rightarrow> files \<Rightarrow> files" where
  "put_node p n fs = AList.update p n fs"

definition drop_node :: "string \<Rightarrow> files \<Rightarrow> files" where
  "drop_node p fs = AList.delete p fs"

definition within :: "string \<Rightarrow> string \<Rightarrow> bool" where
  "within d p = (p = d \<or> prefix (d @ ''/'') p)"

definition drop_tree :: "string \<Rightarrow> files \<Rightarrow> files" where
  "drop_tree d fs = filter (\<lambda>pn. \<not> within d (fst pn)) fs"

definition child_name :: "string \<Rightarrow> string \<Rightarrow> string option" where
  "child_name d p = (let r = drop (length d + 1) p in
     if prefix (d @ ''/'') p \<and> r \<noteq> [] \<and> CHR ''/'' \<notin> set r then Some r else None)"

definition listdir :: "string \<Rightarrow> files \<Rightarrow> string list" where
  "listdir d fs = List.map_filter (\<lambda>pn. child_name d (fst pn)) fs"

definition upd_fs :: "(files \<Rightarrow> files) \<Rightarrow> unit step" where
  "upd_fs f = modS (\<lambda>h. h\<lparr>h_fs := f (h_fs h)\<rparr>)"

definition note_wrote :: "string list \<Rightarrow> unit step" where
  "note_wrote ps = modS (\<lambda>h. h\<lparr>h_wrote := h_wrote h @ ps\<rparr>)"

definition tmp_of :: "string \<Rightarrow> string" where
  "tmp_of p = p @ ''.tmp''"

text \<open>\<open>self.run(argv)\<close>: \<open>subprocess.run\<close> with its time limit.\<close>

definition run_cmd :: "env \<Rightarrow> string list \<Rightarrow> proc step" where
  "run_cmd e argv h = (case e_run e argv (h_calls h) (h_fs h) of
      (r, fs) \<Rightarrow> (case r of None \<Rightarrow> Inl Uncaught | Some p \<Rightarrow> Inr p,
                 h\<lparr>h_fs := fs, h_calls := Suc (h_calls h)\<rparr>))"

text \<open>
  \<open>Path.read_text\<close> through symbolic links, at most 40 of them. The target of a link is the path it
  names, absolute as \<open>Host.link\<close> writes it. A link to nothing is a missing file.
\<close>

fun linked_text :: "nat \<Rightarrow> files \<Rightarrow> string \<Rightarrow> dp_error + string option" where
  "linked_text n fs p = (case map_of fs p of
      None \<Rightarrow> Inr None
    | Some (Reg t _ _ _) \<Rightarrow> Inr (Some t)
    | Some (Link q) \<Rightarrow> (case n of 0 \<Rightarrow> Inl Uncaught | Suc m \<Rightarrow> linked_text m fs q)
    | _ \<Rightarrow> Inl Uncaught)"

declare linked_text.simps [simp del]

definition host_read :: "string \<Rightarrow> string option step" where
  "host_read p h = (case node_at p h of
      None \<Rightarrow> (Inr None, h)
    | Some (Reg t _ _ _) \<Rightarrow> (Inr (Some t), h)
    | Some (Link q) \<Rightarrow> (linked_text 39 (h_fs h) q, h)
    | _ \<Rightarrow> (Inl Uncaught, h))"

text \<open>
  \<open>Host.write\<close>: the temporary gets the text and the mode, has to pass \<open>check\<close>, and replaces the
  target. A directory at the target makes \<open>os.replace\<close> fail, but the read has raised by then.
\<close>

definition host_write :: "env \<Rightarrow> string \<Rightarrow> string \<Rightarrow> nat \<Rightarrow> string list \<Rightarrow> bool step" where
  "host_write e p text mode check =
     bindS (host_read p) (\<lambda>now.
       if now = Some text then ret False
       else
         thenS (upd_fs (put_node (tmp_of p) (Reg text mode (e_uid e ''root'') 1)))
        (thenS (if check = [] then ret ()
                else bindS (run_cmd e (check @ [tmp_of p])) (\<lambda>r.
                  if rc r \<noteq> 0 then thenS (upd_fs (drop_node (tmp_of p))) (raise (Refused (Visudo_Refused p)))
                  else ret ()))
        (thenS (upd_fs (\<lambda>fs. put_node p (Reg text mode (e_uid e ''root'') 1) (drop_node (tmp_of p) fs)))
        (thenS (note_wrote [p]) (ret True)))))"

definition host_remove :: "string \<Rightarrow> bool step" where
  "host_remove p = bindS (getS (node_at p)) (\<lambda>n. case n of
      None \<Rightarrow> ret False
    | Some (Dir _ _) \<Rightarrow> thenS (upd_fs (drop_tree p)) (thenS (note_wrote [p]) (ret True))
    | Some _ \<Rightarrow> thenS (upd_fs (drop_node p)) (thenS (note_wrote [p]) (ret True)))"

definition host_put_back :: "env \<Rightarrow> string \<Rightarrow> string option \<Rightarrow> nat \<Rightarrow> unit step" where
  "host_put_back e p text mode = (case text of
      None \<Rightarrow> thenS (host_remove p) (ret ())
    | Some t \<Rightarrow> thenS (host_write e p t mode []) (ret ()))"

definition host_link :: "string \<Rightarrow> string \<Rightarrow> bool step" where
  "host_link p to = bindS (getS (node_at p)) (\<lambda>n.
     if n = Some (Link to) then ret False
     else thenS (upd_fs (\<lambda>fs. put_node p (Link to) (drop_node (tmp_of p) fs)))
       (thenS (note_wrote [p]) (ret True)))"

definition mode_0755 :: nat where "mode_0755 = 7 * 8 * 8 + 5 * 8 + 5"
definition mode_0644 :: nat where "mode_0644 = 6 * 8 * 8 + 4 * 8 + 4"
definition mode_0440 :: nat where "mode_0440 = 4 * 8 * 8 + 4 * 8"
definition mode_0600 :: nat where "mode_0600 = 6 * 8 * 8"

definition gen_dir :: "string \<Rightarrow> string" where
  "gen_dir gen = GENERATIONS @ ''/'' @ gen"

definition holds_plain :: "env \<Rightarrow> string \<Rightarrow> string \<Rightarrow> files \<Rightarrow> bool" where
  "holds_plain e p text fs = (case map_of fs p of
      Some (Reg t m u _) \<Rightarrow> t = text \<and> m = mode_0755 \<and> u = e_uid e ''root'' | _ \<Rightarrow> False)"

definition generation_intact :: "env \<Rightarrow> string \<Rightarrow> string \<Rightarrow> string \<Rightarrow> files \<Rightarrow> bool" where
  "generation_intact e gen entry dispatcher fs =
     (map_of fs (gen_dir gen) = Some (Dir mode_0755 (e_uid e ''root''))
      \<and> sort (listdir (gen_dir gen) fs) = [''dispatcher'', ''entry'']
      \<and> holds_plain e (entry_path gen) entry fs \<and> holds_plain e (dispatcher_path gen) dispatcher fs)"

text \<open>
  \<open>install_generation\<close>: build the directory beside, remove what stands at its name, rename. A
  plain file at the name survives \<open>shutil.rmtree(ignore_errors=True)\<close> and the rename raises. The
  directory of the generations is a directory or missing: a symbolic link there, which the code
  would follow, is outside the model and raises.
\<close>

definition tmp_dir :: "string \<Rightarrow> string" where
  "tmp_dir gen = GENERATIONS @ ''/.'' @ gen @ ''.tmp''"

definition build_tree :: "env \<Rightarrow> string \<Rightarrow> string \<Rightarrow> string \<Rightarrow> files \<Rightarrow> files" where
  "build_tree e d entry dispatcher fs =
     (let r = e_uid e ''root'' in
      put_node (d @ ''/dispatcher'') (Reg dispatcher mode_0755 r 1)
      (put_node (d @ ''/entry'') (Reg entry mode_0755 r 1)
      (put_node d (Dir mode_0755 r) (drop_tree d fs))))"

definition base_dir :: "env \<Rightarrow> files \<Rightarrow> files" where
  "base_dir e fs = put_node GENERATIONS
     (Dir mode_0755 (case map_of fs GENERATIONS of Some (Dir _ u) \<Rightarrow> u | _ \<Rightarrow> e_uid e ''root'')) fs"

definition install_generation :: "env \<Rightarrow> string \<Rightarrow> string \<Rightarrow> string \<Rightarrow> bool step" where
  "install_generation e gen entry dispatcher =
     bindS (getS h_fs) (\<lambda>fs.
       if generation_intact e gen entry dispatcher fs then ret False
       else if (case map_of fs GENERATIONS of None \<Rightarrow> False | Some (Dir _ _) \<Rightarrow> False | _ \<Rightarrow> True)
         then raise Uncaught
       else
         thenS (upd_fs (\<lambda>fs. build_tree e (tmp_dir gen) entry dispatcher (base_dir e fs)))
        (if (case map_of fs (gen_dir gen) of Some (Reg _ _ _ _) \<Rightarrow> True | Some Special \<Rightarrow> True | _ \<Rightarrow> False)
         then raise Uncaught
         else
           thenS (upd_fs (\<lambda>fs. build_tree e (gen_dir gen) entry dispatcher (drop_tree (tmp_dir gen) fs)))
          (thenS (note_wrote [entry_path gen, dispatcher_path gen]) (ret True))))"

definition generations :: "files \<Rightarrow> string list" where
  "generations fs = (case map_of fs GENERATIONS of
      Some (Dir _ _) \<Rightarrow> sort (listdir GENERATIONS fs) | _ \<Rightarrow> [])"

definition VISUDO_CHECK :: "string list" where "VISUDO_CHECK = [''/usr/sbin/visudo'', ''-cf'']"
definition SSHD_TEST :: "string list" where "SSHD_TEST = [''/usr/sbin/sshd'', ''-t'']"
definition SSHD_RELOAD :: "string list" where "SSHD_RELOAD = [''/usr/bin/systemctl'', ''reload'', ''ssh'']"

definition sshd_reload :: "env \<Rightarrow> unit step" where
  "sshd_reload e = bindS (run_cmd e SSHD_RELOAD) (\<lambda>r.
     if rc r \<noteq> 0 then raise (Refused Reload_Failed) else ret ())"

definition place_sshd :: "env \<Rightarrow> string \<Rightarrow> string \<Rightarrow> bool step" where
  "place_sshd e p text =
     bindS (host_read p) (\<lambda>before.
     bindS (host_write e p text mode_0644 []) (\<lambda>written.
       if \<not> written then ret False
       else bindS (run_cmd e SSHD_TEST) (\<lambda>r.
         if rc r \<noteq> 0 then thenS (host_put_back e p before mode_0644) (raise (Refused (Sshd_Refused p)))
         else ret True)))"

section \<open>The runner's authorized keys\<close>

definition ssh_dir :: "cfg \<Rightarrow> string" where
  "ssh_dir c = runner_home c @ ''/.ssh''"

definition keys_path :: "cfg \<Rightarrow> string" where
  "keys_path c = ssh_dir c @ ''/authorized_keys''"

definition keys_open :: "env \<Rightarrow> cfg \<Rightarrow> unit step" where
  "keys_open e c = bindS (getS (node_at (ssh_dir c))) (\<lambda>n. case n of
      None \<Rightarrow> raise (Refused Ssh_Dir_Missing)
    | Some (Dir _ u) \<Rightarrow> if u \<noteq> e_uid e (runner_user c) then raise (Refused Ssh_Dir_Not_Owned) else ret ()
    | Some _ \<Rightarrow> raise (Refused Ssh_Dir_Not_Plain))"

text \<open>
  \<open>RunnerKeys.read\<close>. A directory opens, and \<open>os.fdopen\<close> raises before the check that the file is
  a plain one.
\<close>

definition keys_read :: "env \<Rightarrow> cfg \<Rightarrow> string option step" where
  "keys_read e c = bindS (getS (node_at (keys_path c))) (\<lambda>n. case n of
      None \<Rightarrow> ret None
    | Some (Link _) \<Rightarrow> raise (Refused Keys_Not_Plain)
    | Some (Dir _ _) \<Rightarrow> raise Uncaught
    | Some Special \<Rightarrow> raise (Refused Keys_Not_Plain)
    | Some (Reg t _ u l) \<Rightarrow>
        if l \<noteq> 1 then raise (Refused (Keys_Linked l))
        else if u \<noteq> e_uid e (runner_user c) \<and> u \<noteq> e_uid e ''root'' then raise (Refused Keys_Not_Owned)
        else ret (Some t))"

definition keys_write :: "env \<Rightarrow> cfg \<Rightarrow> string \<Rightarrow> bool step" where
  "keys_write e c text = bindS (keys_read e c) (\<lambda>now.
     if now = Some text then ret False
     else bindS (getS (node_at (tmp_of (keys_path c)))) (\<lambda>t.
       if (case t of Some (Dir _ _) \<Rightarrow> True | _ \<Rightarrow> False) then raise (Refused Keys_Not_Written)
       else thenS (upd_fs (\<lambda>fs. put_node (keys_path c) (Reg text mode_0600 (e_uid e (runner_user c)) 1)
                              (drop_node (tmp_of (keys_path c)) fs)))
         (thenS (note_wrote [keys_path c]) (ret True))))"

definition keys_remove :: "cfg \<Rightarrow> bool step" where
  "keys_remove c = bindS (getS (node_at (keys_path c))) (\<lambda>n. case n of
      None \<Rightarrow> ret False
    | Some (Dir _ _) \<Rightarrow> raise Uncaught
    | Some _ \<Rightarrow> thenS (upd_fs (drop_node (keys_path c))) (thenS (note_wrote [keys_path c]) (ret True)))"

definition keys_put_back :: "env \<Rightarrow> cfg \<Rightarrow> string option \<Rightarrow> unit step" where
  "keys_put_back e c text = (case text of
      None \<Rightarrow> thenS (keys_remove c) (ret ())
    | Some t \<Rightarrow> thenS (keys_write e c t) (ret ()))"

section \<open>The proof\<close>

definition HOST_ALIAS :: string where "HOST_ALIAS = ''host.docker.internal''"

definition ssh_argv :: "cfg \<Rightarrow> string \<Rightarrow> string \<Rightarrow> (string \<times> string) list \<Rightarrow> string list" where
  "ssh_argv c key request envs =
     [''/usr/bin/ssh'', ''-F'', ''/dev/null'', ''-T'', ''-i'', key,
      ''-o'', ''IdentitiesOnly=yes'', ''-o'', ''BatchMode=yes'',
      ''-o'', ''StrictHostKeyChecking=yes'',
      ''-o'', ''UserKnownHostsFile='' @ panel_key_dir c @ ''/known_hosts'',
      ''-o'', ''GlobalKnownHostsFile=/dev/null'',
      ''-o'', ''HostKeyAlias='' @ HOST_ALIAS,
      ''-o'', ''HostKeyAlgorithms=ssh-ed25519'',
      ''-o'', ''ConnectTimeout=10'', ''-o'', ''LogLevel=ERROR'']
     @ (if envs = [] then []
        else [''-o'', ''SetEnv '' @ join '' '' (map (\<lambda>kv. fst kv @ ''='' @ snd kv) envs)])
     @ [''-p'', ''22'', runner_user c @ ''@'' @ LOOPBACK, request]"

text \<open>\<open>_dispatch\<close>: up to five attempts while \<open>ssh\<close> itself fails; the last answer is the answer.\<close>

fun dispatch_attempts :: "nat \<Rightarrow> env \<Rightarrow> string list \<Rightarrow> proc step" where
  "dispatch_attempts 0 e argv = run_cmd e argv"
| "dispatch_attempts (Suc n) e argv =
     bindS (run_cmd e argv) (\<lambda>r. if rc r \<noteq> 255 then ret r else dispatch_attempts n e argv)"

definition dispatch_cmd :: "env \<Rightarrow> string list \<Rightarrow> proc step" where
  "dispatch_cmd = dispatch_attempts 4"

definition arrived_names :: "string list \<Rightarrow> string list" where
  "arrived_names ls = map (drop 8) (filter (prefix ''arrived '') ls)"

definition prove :: "env \<Rightarrow> cfg \<Rightarrow> string \<Rightarrow> string \<Rightarrow> proof_reason list step" where
  "prove e c key gen =
     (let names = names_of c in
      bindS (getS (\<lambda>h. e_nonce e (h_calls h))) (\<lambda>nonce.
      bindS (dispatch_cmd e (ssh_argv c key PROOF_ACTION (map (\<lambda>n. (n, nonce)) names))) (\<lambda>r.
        if rc r \<noteq> 0 then ret [Proof_Exit (rc r)]
        else
          (let ls = splitlines (out r);
               answer = (case ls of [] \<Rightarrow> [] | l # _ \<Rightarrow> l);
               lost = filter (\<lambda>n. n \<notin> set (arrived_names (drop 1 ls))) names;
               reasons = (if answer \<noteq> PROOF_ACTION @ '' '' @ gen then [Wrong_Answer answer] else [])
                 @ (if lost \<noteq> [] then [Names_Lost lost] else [])
           in bindS (dispatch_cmd e (ssh_argv c key (PROOF_ACTION @ '' carried'') [])) (\<lambda>r2.
              ret (reasons @ (if rc r2 \<noteq> 2 \<or> \<not> contains ENTRY_REFUSAL (err r2)
                              then [Carried_Accepted (rc r2)] else [])))))))"

definition KEYGEN :: "string \<Rightarrow> string list" where
  "KEYGEN key = [''/usr/bin/ssh-keygen'', ''-q'', ''-t'', ''ed25519'', ''-N'', '''', ''-C'', '''', ''-f'', key]"

definition prove_beside :: "env \<Rightarrow> cfg \<Rightarrow> string \<Rightarrow> string option \<Rightarrow> proof_reason list step" where
  "prove_beside e c gen keys_before =
     (let keydir = e_keydir e; key = keydir @ ''/id_ed25519'' in
      thenS (upd_fs (put_node keydir (Dir (7 * 8 * 8) (e_uid e ''root''))))
      (finallyS
        (bindS (run_cmd e (KEYGEN key)) (\<lambda>r.
           if rc r \<noteq> 0 then ret [No_Proof_Key]
           else bindS (host_read (key @ ''.pub'')) (\<lambda>pub_text. case pub_text of
               None \<Rightarrow> raise Uncaught
             | Some pt \<Rightarrow>
               (let keys = (case keys_before of None \<Rightarrow> HEADER | Some t \<Rightarrow> t);
                    keys' = (if suffix nl keys then keys else keys @ nl);
                    line = key_line (entry_path gen) (strip pt) True (e_expires e)
                in thenS (keys_write e c (keys' @ line @ nl))
                   (finallyS (prove e c key gen) (keys_put_back e c keys_before))))))
        (upd_fs (drop_tree keydir))))"

section \<open>The switch\<close>

record rendered =
  r_gen :: string
  r_panel_key :: string
  r_panel_keys :: string
  r_rule :: string
  r_accept :: string
  r_entry :: string
  r_dispatcher :: string

definition render :: "cfg \<Rightarrow> string \<Rightarrow> string \<Rightarrow> string \<Rightarrow> rendered" where
  "render c gen panel_key panel_pub =
     \<lparr>r_gen = gen, r_panel_key = panel_key, r_panel_keys = panel_keys_text gen panel_pub,
      r_rule = sudo_rule (runner_user c) (dispatcher_path gen) (names_of c),
      r_accept = acceptenv_rule (runner_user c) (names_of c),
      r_entry = text_of (entry_text c), r_dispatcher = text_of (dispatcher_text c)\<rparr>"

definition undo_beside :: "env \<Rightarrow> string \<Rightarrow> bool \<Rightarrow> unit step" where
  "undo_beside e gen reloaded =
     thenS (host_remove (gen_dir gen))
    (thenS (host_remove SUDOERS_NEXT)
    (bindS (host_remove ACCEPTENV_NEXT) (\<lambda>removed.
       if removed \<or> reloaded then sshd_reload e else ret ())))"

definition move_path :: "env \<Rightarrow> cfg \<Rightarrow> rendered \<Rightarrow> string option \<Rightarrow> unit step" where
  "move_path e c p keys_before =
     thenS (on_error
        (thenS (install_generation e (r_gen p) (r_entry p) (r_dispatcher p))
        (thenS (host_write e SUDOERS_NEXT (r_rule p) mode_0440 VISUDO_CHECK)
        (thenS (place_sshd e ACCEPTENV_NEXT (r_accept p)) (ret ()))))
        (undo_beside e (r_gen p) False))
    (thenS (on_error
        (thenS (sshd_reload e)
        (bindS (prove_beside e c (r_gen p) keys_before) (\<lambda>reasons.
           if reasons \<noteq> [] then raise (Refused (Beside_Failed reasons)) else ret ())))
        (undo_beside e (r_gen p) True))
    (thenS (on_error (thenS (keys_write e c (r_panel_keys p)) (ret ())) (undo_beside e (r_gen p) True))
    (on_error
        (bindS (prove e c (r_panel_key p) (r_gen p)) (\<lambda>reasons.
           if reasons \<noteq> [] then raise (Refused (Switch_Failed reasons)) else ret ()))
        (thenS (keys_put_back e c keys_before) (undo_beside e (r_gen p) True)))))"

fun remove_others :: "string \<Rightarrow> string list \<Rightarrow> unit step" where
  "remove_others gen [] = ret ()"
| "remove_others gen (g # gs) =
     thenS (if g \<noteq> gen then thenS (host_remove (gen_dir g)) (ret ()) else ret ()) (remove_others gen gs)"

text \<open>The key directories a run killed during its proof leaves behind.\<close>

definition stale_proof_dirs :: "files \<Rightarrow> string list" where
  "stale_proof_dirs fs = map fst (filter (\<lambda>(p, n).
     prefix ''/run/catena-dispatch-proof.'' p \<and> CHR ''/'' \<notin> set (drop 5 p)
     \<and> (case n of Dir _ _ \<Rightarrow> True | _ \<Rightarrow> False)) fs)"

definition drop_stale :: "files \<Rightarrow> files" where
  "drop_stale fs = foldl (\<lambda>f d. drop_tree d f) fs (stale_proof_dirs fs)"

definition retire_path :: "env \<Rightarrow> cfg \<Rightarrow> rendered \<Rightarrow> unit step" where
  "retire_path e c p =
     bindS (install_generation e (r_gen p) (r_entry p) (r_dispatcher p)) (\<lambda>t1.
     bindS (keys_write e c (r_panel_keys p)) (\<lambda>t2.
     bindS (host_write e SUDOERS (r_rule p) mode_0440 VISUDO_CHECK) (\<lambda>t3.
     bindS (place_sshd e ACCEPTENV (r_accept p)) (\<lambda>t4.
     bindS (host_remove SUDOERS_NEXT) (\<lambda>t5.
     bindS (host_remove ACCEPTENV_NEXT) (\<lambda>t6.
     thenS (if t4 \<or> t6 then sshd_reload e else ret ())
    (thenS (if t1 \<or> t2 \<or> t3 \<or> t4 \<or> t5 \<or> t6 then
        bindS (prove e c (r_panel_key p) (r_gen p)) (\<lambda>reasons.
          if reasons = [] then ret ()
          else
            thenS (host_write e SUDOERS_NEXT (r_rule p) mode_0440 VISUDO_CHECK)
           (bindS (place_sshd e ACCEPTENV_NEXT (r_accept p)) (\<lambda>placed.
            thenS (if placed then sshd_reload e else ret ())
              (raise (Refused (Retire_Failed reasons))))))
      else ret ())
    (thenS (host_link (link_path c) (dispatcher_path (r_gen p)))
    (thenS (bindS (getS (\<lambda>h. generations (h_fs h))) (remove_others (r_gen p)))
      (upd_fs drop_stale))))))))))"

datatype summary =
    Bad_Names name_problem
  | No_Panel_Key
  | Panel_Key_Refused
  | Keys_Refused refusal
  | Dispatches_Through string refusal \<comment> \<open>what the panel still runs, and why\<close>
  | Switched string string
  | Put_In_Place string
  | Nothing_To_Change string

record verdict =
  v_ok :: bool
  v_changed :: bool
  v_generation :: string
  v_wrote :: "string list"
  v_summary :: summary

definition verdict_of :: "string \<Rightarrow> host \<Rightarrow> bool \<Rightarrow> summary \<Rightarrow> verdict" where
  "verdict_of gen h ok s =
     \<lparr>v_ok = ok, v_changed = (h_wrote h \<noteq> []), v_generation = gen,
      v_wrote = sort (remdups (h_wrote h)), v_summary = s\<rparr>"

text \<open>
  The outcome of \<open>_switch\<close>: a verdict, or an exception that is not a \<open>Refused\<close> and leaves the
  program. The state is the host's either way.
\<close>

definition switch_keys :: "env \<Rightarrow> cfg \<Rightarrow> rendered \<Rightarrow> string \<Rightarrow> host \<Rightarrow> verdict option \<times> host" where
  "switch_keys e c p blob h =
     (case keys_read e c h of
        (Inl (Refused r), h1) \<Rightarrow> (Some (verdict_of (r_gen p) h1 False (Keys_Refused r)), h1)
      | (Inl Uncaught, h1) \<Rightarrow> (None, h1)
      | (Inr keys_before, h1) \<Rightarrow>
        (let running = running_generation (line_for keys_before blob) in
         case (if running \<noteq> r_gen p then move_path e c p keys_before else ret ()) h1 of
           (Inl (Refused r), h2) \<Rightarrow> (Some (verdict_of (r_gen p) h2 False (Dispatches_Through running r)), h2)
         | (Inl Uncaught, h2) \<Rightarrow> (None, h2)
         | (Inr _, h2) \<Rightarrow> (case retire_path e c p h2 of
              (Inl (Refused r), h3) \<Rightarrow>
                (Some (verdict_of (r_gen p) h3 False (Dispatches_Through (r_gen p) r)), h3)
            | (Inl Uncaught, h3) \<Rightarrow> (None, h3)
            | (Inr _, h3) \<Rightarrow>
                (Some (verdict_of (r_gen p) h3 True
                   (if running \<noteq> r_gen p then Switched (r_gen p) running
                    else if h_wrote h3 \<noteq> [] then Put_In_Place (r_gen p)
                    else Nothing_To_Change (r_gen p))), h3))))"

definition panel_key_path :: "cfg \<Rightarrow> string" where
  "panel_key_path c = panel_key_dir c @ ''/id_ed25519''"

definition switch :: "env \<Rightarrow> cfg \<Rightarrow> host \<Rightarrow> verdict option \<times> host" where
  "switch e c h =
     (case passthrough_problem (passthrough c) of
        Some problem \<Rightarrow>
          (Some \<lparr>v_ok = False, v_changed = False, v_generation = [], v_wrote = [],
                 v_summary = Bad_Names problem\<rparr>, h)
      | None \<Rightarrow>
        (let gen = generation (e_sha e) c in
         case host_read (panel_key_path c @ ''.pub'') h of
           (Inl _, h1) \<Rightarrow> (None, h1)
         | (Inr pub_text, h1) \<Rightarrow>
           (let panel_pub = strip (case pub_text of None \<Rightarrow> [] | Some t \<Rightarrow> t);
                blob = key_blob panel_pub in
            if blob = [] then (Some (verdict_of gen h1 False No_Panel_Key), h1)
            else if \<not> panel_key_shape panel_pub then (Some (verdict_of gen h1 False Panel_Key_Refused), h1)
            else (case keys_open e c h1 of
                (Inl (Refused r), h2) \<Rightarrow> (Some (verdict_of gen h2 False (Keys_Refused r)), h2)
              | (Inl Uncaught, h2) \<Rightarrow> (None, h2)
              | (Inr _, h2) \<Rightarrow>
                  switch_keys e c (render c gen (panel_key_path c) panel_pub) blob h2))))"

end
