(* ===== verification/Dispatch_Switch.thy ===== *)
theory Dispatch_Switch
  imports Dispatch_Path
begin

text \<open>
  What the switch of the dispatch path guarantees: the frames of its steps, the restoring contract
  shared by the host's files and the runner's authorized keys, that a failed move puts the running
  path back, that a successful run leaves exactly this tree's generation in place, and what
  happens to a rule that is only in a -next file.
\<close>

section \<open>The commands leave the files alone\<close>

text \<open>
  What the switch relies on of the programs it runs: none of them changes a file outside
  \<open>/run\<close>, where \<open>ssh-keygen\<close> writes the proof key.
\<close>

definition outside_run :: "files \<Rightarrow> files" where
  "outside_run fs = filter (\<lambda>pn. \<not> within ''/run'' (fst pn)) fs"

definition quiet :: "env \<Rightarrow> bool" where
  "quiet e = ((\<forall>argv n fs. outside_run (snd (e_run e argv n fs)) = outside_run fs)
     \<and> within ''/run'' (e_keydir e))"

lemma map_of_outside_run: "\<not> within ''/run'' p \<Longrightarrow> map_of (outside_run fs) p = map_of fs p"
  using map_of_filter_key [of "\<lambda>q. \<not> within ''/run'' q" fs p] by (simp add: outside_run_def)

lemma quiet_map_of:
  assumes "quiet e" and "\<not> within ''/run'' p"
  shows "map_of (snd (e_run e argv n fs)) p = map_of fs p"
  using assms map_of_outside_run unfolding quiet_def by metis

section \<open>Frames\<close>

text \<open>A path that is neither written nor removed by a step keeps its node.\<close>

lemma keeps_upd_fs: "(\<And>fs. map_of (f fs) p = map_of fs p) \<Longrightarrow> keeps (node_at p) (upd_fs f)"
  by (simp add: upd_fs_def keeps_modS node_at_def)

lemma keeps_note_wrote [keeps_intros]: "keeps (node_at p) (note_wrote ps)"
  by (simp add: note_wrote_def keeps_modS node_at_def)

lemma map_of_put_node: "map_of (put_node q n fs) p = (if p = q then Some n else map_of fs p)"
  by (simp add: put_node_def update_conv')

lemma map_of_drop_node: "map_of (drop_node q fs) p = (if p = q then None else map_of fs p)"
  by (simp add: drop_node_def delete_conv')

lemma map_of_drop_tree: "map_of (drop_tree d fs) p = (if within d p then None else map_of fs p)"
  using map_of_filter_key [of "\<lambda>q. \<not> within d q" fs p] by (simp add: drop_tree_def)

lemmas map_of_fs = map_of_put_node map_of_drop_node map_of_drop_tree

lemma keeps_run_cmd: "quiet e \<Longrightarrow> \<not> within ''/run'' p \<Longrightarrow> keeps (node_at p) (run_cmd e argv)"
  using quiet_map_of [of e p] by (simp add: keeps_def run_cmd_def node_at_def case_prod_beta)

lemma keeps_host_read [keeps_intros]: "keeps obs (host_read q)"
  by (auto simp: keeps_def host_read_def split: option.split node.split)

text \<open>The paths a step may touch, and the frame of each operation outside of them.\<close>

definition apart :: "string \<Rightarrow> string \<Rightarrow> bool" where
  "apart p q = (p \<noteq> q \<and> p \<noteq> tmp_of q)"

lemma keeps_host_write:
  assumes "apart p q" and "check = [] \<or> quiet e \<and> \<not> within ''/run'' p"
  shows "keeps (node_at p) (host_write e q text mode check)"
proof -
  have c: "keeps (node_at p) (if check = [] then ret () else bindS (run_cmd e (check @ [tmp_of q])) (\<lambda>r.
      if rc r \<noteq> 0 then thenS (upd_fs (drop_node (tmp_of q))) (raise (Refused (Visudo_Refused q))) else ret ()))"
    using assms
    by (auto intro!: keeps_intros keeps_run_cmd keeps_upd_fs simp: map_of_fs apart_def)
  show ?thesis
    unfolding host_write_def
    by (intro keeps_intros c keeps_upd_fs) (use assms(1) in \<open>simp_all add: map_of_fs apart_def\<close>)
qed

lemma keeps_host_remove: "\<not> within q p \<Longrightarrow> keeps (node_at p) (host_remove q)"
  unfolding host_remove_def
  by (intro keeps_intros)
    (auto intro!: keeps_intros keeps_upd_fs simp: map_of_fs within_def split: option.split node.split)

lemma keeps_host_put_back:
  "apart p q \<Longrightarrow> \<not> within q p \<Longrightarrow> keeps (node_at p) (host_put_back e q t mode)"
  by (cases t) (auto simp: host_put_back_def intro!: keeps_intros keeps_host_write keeps_host_remove)

lemma keeps_sshd_reload: "quiet e \<Longrightarrow> \<not> within ''/run'' p \<Longrightarrow> keeps (node_at p) (sshd_reload e)"
  unfolding sshd_reload_def by (intro keeps_intros keeps_run_cmd)

lemma keeps_place_sshd:
  "quiet e \<Longrightarrow> \<not> within ''/run'' p \<Longrightarrow> apart p q \<Longrightarrow> \<not> within q p \<Longrightarrow>
   keeps (node_at p) (place_sshd e q text)"
  unfolding place_sshd_def
  by (intro keeps_intros keeps_host_write keeps_run_cmd keeps_host_put_back) auto

lemma gen_paths_under: "within GENERATIONS (gen_dir g)" "within GENERATIONS (tmp_dir g)"
  by (simp_all add: within_def gen_dir_def tmp_dir_def)

lemma within_trans: "within a b \<Longrightarrow> within b c \<Longrightarrow> within a c"
  by (auto simp: within_def prefix_def)

lemma build_tree_other:
  assumes "\<not> within d p"
  shows "map_of (build_tree e d entry disp fs) p = map_of fs p"
proof -
  have "p \<noteq> d" "p \<noteq> d @ ''/dispatcher''" "p \<noteq> d @ ''/entry''"
    using assms by (auto simp: within_def)
  with assms show ?thesis by (simp add: build_tree_def Let_def map_of_fs)
qed

text \<open>What installing generation \<open>g\<close> may touch: its directory, the one it is built in, and their parent's mode.\<close>

definition gen_apart :: "string \<Rightarrow> string \<Rightarrow> bool" where
  "gen_apart g p = (p \<noteq> GENERATIONS \<and> \<not> within (gen_dir g) p \<and> \<not> within (tmp_dir g) p)"

lemma gen_apart_outside: "\<not> within GENERATIONS p \<Longrightarrow> gen_apart g p"
  using gen_paths_under within_trans unfolding gen_apart_def by (metis within_def)

lemma keeps_install_generation:
  assumes "gen_apart g p"
  shows "keeps (node_at p) (install_generation e g entry disp)"
  using assms unfolding install_generation_def gen_apart_def
  by (intro keeps_intros keeps_upd_fs) (simp_all add: build_tree_other map_of_fs base_dir_def)

lemma keeps_keys_read [keeps_intros]: "keeps obs (keys_read e c)"
  unfolding keys_read_def
  by (intro keeps_intros) (auto intro!: keeps_intros split: option.split node.split)

lemma keeps_keys_write: "apart p (keys_path c) \<Longrightarrow> keeps (node_at p) (keys_write e c text)"
  unfolding keys_write_def
  by (intro keeps_intros keeps_upd_fs) (simp_all add: map_of_fs apart_def)

lemma keeps_keys_put_back: "apart p (keys_path c) \<Longrightarrow> keeps (node_at p) (keys_put_back e c t)"
proof (cases t)
  case None
  assume "apart p (keys_path c)"
  then show ?thesis unfolding keys_put_back_def None keys_remove_def
    by (auto intro!: keeps_intros keeps_upd_fs simp: map_of_fs apart_def split: option.split node.split)
qed (simp add: keys_put_back_def keeps_thenS keeps_ret keeps_keys_write)

lemma keeps_dispatch_attempts:
  "quiet e \<Longrightarrow> \<not> within ''/run'' p \<Longrightarrow> keeps (node_at p) (dispatch_attempts n e argv)"
  by (induction n) (auto intro!: keeps_intros keeps_run_cmd)

lemma keeps_prove: "quiet e \<Longrightarrow> \<not> within ''/run'' p \<Longrightarrow> keeps (node_at p) (prove e c key g)"
  unfolding prove_def dispatch_cmd_def Let_def
  by (intro keeps_intros keeps_dispatch_attempts)

lemma keydir_frame:
  assumes "quiet e" and "\<not> within ''/run'' p"
  shows "p \<noteq> e_keydir e" "\<not> within (e_keydir e) p"
  using assms within_trans [of "''/run''" "e_keydir e" p] by (auto simp: quiet_def within_def)

lemma keeps_prove_beside:
  assumes "quiet e" and "\<not> within ''/run'' p" and "apart p (keys_path c)"
  shows "keeps (node_at p) (prove_beside e c g kb)"
proof -
  note k = keydir_frame [OF assms(1,2)]
  have "keeps (node_at p) (case pub of None \<Rightarrow> raise Uncaught
      | Some pt \<Rightarrow> thenS (keys_write e c (f pt)) (finallyS (prove e c key g) (keys_put_back e c kb)))" for pub f key
    by (cases pub) (auto intro!: keeps_intros keeps_keys_write keeps_prove keeps_keys_put_back assms)
  note body = this
  show ?thesis
    unfolding prove_beside_def Let_def
    by (intro keeps_intros keeps_upd_fs keeps_run_cmd assms body) (use k in \<open>simp_all add: map_of_fs\<close>)
qed

lemma keeps_undo_beside:
  "quiet e \<Longrightarrow> \<not> within ''/run'' p \<Longrightarrow> gen_apart g p \<Longrightarrow> \<not> within SUDOERS_NEXT p \<Longrightarrow>
   \<not> within ACCEPTENV_NEXT p \<Longrightarrow> keeps (node_at p) (undo_beside e g b)"
  unfolding undo_beside_def gen_apart_def
  by (intro keeps_intros keeps_host_remove keeps_sshd_reload) blast+

text \<open>The paths of which the move to generation \<open>g\<close> changes nothing, whatever it returns. What a program leaves
  below \<open>/run\<close> is its own.\<close>

definition bystander :: "cfg \<Rightarrow> string \<Rightarrow> string \<Rightarrow> bool" where
  "bystander c g p = (\<not> within ''/run'' p \<and> gen_apart g p \<and> \<not> within SUDOERS_NEXT p
     \<and> \<not> within ACCEPTENV_NEXT p \<and> apart p SUDOERS_NEXT \<and> apart p ACCEPTENV_NEXT
     \<and> apart p (keys_path c))"

lemma keeps_move_path:
  assumes "quiet e" and "bystander c (r_gen r) p"
  shows "keeps (node_at p) (move_path e c r kb)"
  using assms unfolding move_path_def bystander_def
  by (intro keeps_intros keeps_install_generation keeps_host_write keeps_place_sshd keeps_undo_beside
      keeps_sshd_reload keeps_prove_beside keeps_keys_write keeps_prove keeps_keys_put_back) auto

section \<open>Putting back\<close>

text \<open>
  The contract of the two put-back operations: from a state in which the file is well and holds
  anything, the file holds the given content afterwards, and the operation does not raise.
\<close>

locale restorable =
  fixes good :: "string option \<Rightarrow> host \<Rightarrow> bool"
    and put_back :: "string option \<Rightarrow> unit step"
  assumes put_back_good: "triple (good x) (put_back t) (\<lambda>_. good t) (\<lambda>_. False)"
begin

lemma guarded:
  assumes "triple (good x) m (\<lambda>_. good x) (good x)"
  shows "triple (good x) (finallyS m (put_back t)) (\<lambda>_. good t) (good t)"
  by (rule triple_finallyS [OF assms]) (rule triple_weaken [OF put_back_good]; simp)

lemma undone:
  assumes "triple (good x) m Q (good x)"
  shows "triple (good x) (on_error m (put_back t)) Q (good t)"
  by (rule triple_on_error [OF assms]) (rule triple_weaken [OF put_back_good]; simp)

end

definition keys_good :: "env \<Rightarrow> cfg \<Rightarrow> string option \<Rightarrow> host \<Rightarrow> bool" where
  "keys_good e c t h =
     ((case node_at (keys_path c) h of
         None \<Rightarrow> t = None
       | Some (Reg x m u l) \<Rightarrow> t = Some x \<and> l = 1 \<and> (u = e_uid e (runner_user c) \<or> u = e_uid e ''root'')
       | _ \<Rightarrow> False)
      \<and> (case node_at (tmp_of (keys_path c)) h of Some (Dir _ _) \<Rightarrow> False | _ \<Rightarrow> True))"

lemma keys_good_read: "keys_good e c t h \<Longrightarrow> keys_read e c h = (Inr t, h)"
  by (auto simp: keys_good_def keys_read_def sem_defs split: option.splits node.splits)

lemma tmp_of_neq [simp]: "tmp_of p \<noteq> p" "p \<noteq> tmp_of p"
  by (simp_all add: tmp_of_def)

lemma keys_write_good: "triple (keys_good e c x) (keys_write e c t) (\<lambda>_. keys_good e c (Some t)) (\<lambda>_. False)"
proof (rule tripleI)
  fix h b h' assume g: "keys_good e c x h" and w: "keys_write e c t h = (Inr b, h')"
  then show "keys_good e c (Some t) h'"
    using keys_good_read [OF g]
    by (auto simp: keys_write_def sem_defs upd_fs_def note_wrote_def keys_good_def node_at_def map_of_fs
        split: if_splits)
next
  fix h err h' assume g: "keys_good e c x h" and w: "keys_write e c t h = (Inl err, h')"
  then show False
    using keys_good_read [OF g]
    by (auto simp: keys_write_def sem_defs upd_fs_def note_wrote_def keys_good_def split: if_splits option.splits node.splits)
qed

lemma keys_remove_good: "triple (keys_good e c x) (keys_remove c) (\<lambda>_. keys_good e c None) (\<lambda>_. False)"
  by (rule tripleI)
    (auto simp: keys_remove_def keys_good_def sem_defs upd_fs_def note_wrote_def node_at_def map_of_fs
      split: option.splits node.splits)

interpretation rk: restorable "keys_good e c" "keys_put_back e c" for e c
proof
  show "triple (keys_good e c x) (keys_put_back e c t) (\<lambda>_. keys_good e c t) (\<lambda>_. False)" for x t
    by (cases t) (auto simp: keys_put_back_def intro!: triple_thenS triple_ret keys_write_good keys_remove_good)
qed

definition file_good :: "string \<Rightarrow> string option \<Rightarrow> host \<Rightarrow> bool" where
  "file_good p t h = (case node_at p h of
      None \<Rightarrow> t = None | Some (Reg x m u l) \<Rightarrow> t = Some x | _ \<Rightarrow> False)"

lemma file_good_read: "file_good p t h \<Longrightarrow> host_read p h = (Inr t, h)"
  by (auto simp: file_good_def host_read_def split: option.splits node.splits)

lemma host_write_good: "triple (file_good p x) (host_write e p t m []) (\<lambda>_. file_good p (Some t)) (\<lambda>_. False)"
proof (rule tripleI)
  fix h b h' assume g: "file_good p x h" and w: "host_write e p t m [] h = (Inr b, h')"
  then show "file_good p (Some t) h'"
    using file_good_read [OF g]
    by (auto simp: host_write_def sem_defs upd_fs_def note_wrote_def file_good_def node_at_def map_of_fs
        split: if_splits)
next
  fix h err h' assume g: "file_good p x h" and w: "host_write e p t m [] h = (Inl err, h')"
  then show False
    using file_good_read [OF g]
    by (auto simp: host_write_def sem_defs upd_fs_def note_wrote_def split: if_splits)
qed

lemma host_remove_good: "triple (file_good p x) (host_remove p) (\<lambda>_. file_good p None) (\<lambda>_. False)"
  by (rule tripleI)
    (auto simp: host_remove_def file_good_def sem_defs upd_fs_def note_wrote_def node_at_def map_of_fs
      split: option.splits node.splits)

interpretation hf: restorable "file_good p" "\<lambda>t. host_put_back e p t m" for e p m
proof
  show "triple (file_good p x) (host_put_back e p t m) (\<lambda>_. file_good p t) (\<lambda>_. False)" for x t
    by (cases t) (auto simp: host_put_back_def intro!: triple_thenS triple_ret host_write_good host_remove_good)
qed

section \<open>A failed move puts the running path back\<close>

text \<open>
  The runner's keys are a file of their own: not one the switch writes for sudo or sshd, and not
  below the generations or \<open>/run\<close>. Any home directory an account has is such a place.
\<close>

definition own_place :: "string \<Rightarrow> bool" where
  "own_place p = (\<not> within ''/run'' p \<and> \<not> within GENERATIONS p
     \<and> list_all (\<lambda>q. apart p q \<and> \<not> within q p) [SUDOERS, SUDOERS_NEXT, ACCEPTENV, ACCEPTENV_NEXT])"

definition keys_separate :: "cfg \<Rightarrow> bool" where
  "keys_separate c = (own_place (keys_path c) \<and> own_place (tmp_of (keys_path c)))"

lemma keys_kept:
  assumes "keeps (node_at (keys_path c)) m" and "keeps (node_at (tmp_of (keys_path c))) m"
  shows "triple (keys_good e c x) m (\<lambda>_. keys_good e c x) (keys_good e c x)"
proof -
  have "keeps (\<lambda>h. (node_at (keys_path c) h, node_at (tmp_of (keys_path c)) h)) m"
    using assms by (simp add: keeps_def)
  from triple_keeps [OF this, where I = "\<lambda>(k, t).
      (case k of None \<Rightarrow> x = None
       | Some (Reg y m u l) \<Rightarrow> x = Some y \<and> l = 1 \<and> (u = e_uid e (runner_user c) \<or> u = e_uid e ''root'')
       | _ \<Rightarrow> False) \<and> (case t of Some (Dir _ _) \<Rightarrow> False | _ \<Rightarrow> True)"]
  show ?thesis by (simp add: keys_good_def [abs_def])
qed

lemma keys_kept_prove: "quiet e \<Longrightarrow> keys_separate c \<Longrightarrow>
    triple (keys_good e c x) (prove e c key g) (\<lambda>_. keys_good e c x) (keys_good e c x)"
  by (rule keys_kept) (auto intro!: keeps_prove simp: keys_separate_def own_place_def)

lemma keys_kept_undo: "quiet e \<Longrightarrow> keys_separate c \<Longrightarrow>
    triple (keys_good e c x) (undo_beside e g b) (\<lambda>_. keys_good e c x) (keys_good e c x)"
  by (rule keys_kept) (auto intro!: keeps_undo_beside gen_apart_outside simp: keys_separate_def own_place_def)

lemma prove_beside_keys:
  assumes "quiet e" and "keys_separate c"
  shows "triple (keys_good e c kb) (prove_beside e c g kb) (\<lambda>_. keys_good e c kb) (keys_good e c kb)"
proof -
  let ?K = "keys_good e c kb"
  have run: "triple ?K (run_cmd e argv) (\<lambda>_. ?K) ?K" for argv
    by (rule keys_kept) (use assms in \<open>auto intro!: keeps_run_cmd simp: keys_separate_def own_place_def\<close>)
  have upd: "triple ?K (upd_fs (put_node (e_keydir e) n)) (\<lambda>_. ?K) ?K"
    "triple ?K (upd_fs (drop_tree (e_keydir e))) (\<lambda>_. ?K) ?K" for n
    using assms keydir_frame [OF assms(1)]
    by (auto intro!: keys_kept keeps_upd_fs simp: map_of_fs keys_separate_def own_place_def)
  have inner: "triple ?K (thenS (keys_write e c t) (finallyS (prove e c key g) (keys_put_back e c kb)))
      (\<lambda>_. ?K) ?K" for t key
    by (rule triple_thenS [where R = "keys_good e c (Some t)"])
      (auto intro: triple_weaken [OF keys_write_good] rk.guarded keys_kept_prove [OF assms])
  have body: "triple ?K (case pub of None \<Rightarrow> raise Uncaught
      | Some pt \<Rightarrow> thenS (keys_write e c (f pt)) (finallyS (prove e c key g) (keys_put_back e c kb)))
      (\<lambda>_. ?K) ?K" for pub f key
    by (cases pub) (auto intro: triple_raise inner)
  have rd: "triple ?K (host_read q) (\<lambda>_. ?K) ?K" for q
    by (rule keys_kept) (rule keeps_host_read)+
  show ?thesis
    unfolding prove_beside_def Let_def
    by (rule triple_thenS [OF upd(1)], rule triple_finallyS [OF _ upd(2)], rule triple_bindS [OF run],
        rule triple_if, rule triple_ret, assumption, rule triple_bindS [OF rd], rule body)
qed

lemma host_remove_gone: "triple (\<lambda>_. True) (host_remove p) (\<lambda>_ h. node_at p h = None) (\<lambda>_. False)"
  by (rule tripleI)
    (auto simp: host_remove_def sem_defs upd_fs_def note_wrote_def node_at_def map_of_fs within_def
      split: option.splits node.splits)

lemma kept_gone:
  "keeps (node_at p) m \<Longrightarrow> triple (\<lambda>h. node_at p h = v) m (\<lambda>_ h. node_at p h = v) (\<lambda>h. node_at p h = v)"
  by (rule triple_keeps [where I = "\<lambda>n. n = v"])

lemma constants_apart:
  "\<not> within ''/run'' SUDOERS" "\<not> within ''/run'' SUDOERS_NEXT" "\<not> within ''/run'' ACCEPTENV"
  "\<not> within ''/run'' ACCEPTENV_NEXT" "\<not> within GENERATIONS SUDOERS" "\<not> within GENERATIONS SUDOERS_NEXT"
  "\<not> within GENERATIONS ACCEPTENV" "\<not> within GENERATIONS ACCEPTENV_NEXT"
  "\<not> within ACCEPTENV_NEXT SUDOERS_NEXT" "\<not> within SUDOERS_NEXT ACCEPTENV_NEXT"
  "\<not> within SUDOERS_NEXT SUDOERS" "\<not> within ACCEPTENV_NEXT SUDOERS" "\<not> within SUDOERS_NEXT ACCEPTENV"
  "\<not> within ACCEPTENV_NEXT ACCEPTENV" "\<not> within ACCEPTENV SUDOERS" "\<not> within ACCEPTENV SUDOERS_NEXT"
  "apart SUDOERS SUDOERS_NEXT" "apart SUDOERS ACCEPTENV_NEXT" "apart SUDOERS ACCEPTENV"
  "apart ACCEPTENV SUDOERS_NEXT" "apart ACCEPTENV ACCEPTENV_NEXT" "apart ACCEPTENV SUDOERS"
  "apart SUDOERS_NEXT ACCEPTENV" "apart SUDOERS_NEXT ACCEPTENV_NEXT"
  by (simp_all add: within_def apart_def tmp_of_def GENERATIONS_def SUDOERS_def SUDOERS_NEXT_def
      ACCEPTENV_def ACCEPTENV_NEXT_def)

lemma undo_beside_gone:
  assumes "quiet e"
  shows "triple (\<lambda>_. True) (undo_beside e g b)
    (\<lambda>_ h. node_at SUDOERS_NEXT h = None) (\<lambda>h. node_at SUDOERS_NEXT h = None)"
proof -
  let ?G = "\<lambda>h. node_at SUDOERS_NEXT h = None"
  have rm: "triple (\<lambda>_. True) (host_remove q) (\<lambda>_. R) E" if "\<And>h. node_at q h = None \<Longrightarrow> R h" for q R E
    by (rule triple_weaken [OF host_remove_gone]) (use that in auto)
  have reload: "triple ?G (sshd_reload e) (\<lambda>_. ?G) ?G"
    by (intro kept_gone keeps_sshd_reload assms constants_apart)
  have accept: "triple ?G (host_remove ACCEPTENV_NEXT) (\<lambda>_. ?G) ?G"
    by (intro kept_gone keeps_host_remove constants_apart)
  show ?thesis
    unfolding undo_beside_def
    by (rule triple_thenS [OF rm [OF TrueI]], rule triple_thenS [OF rm], assumption,
        intro triple_bindS [OF accept] triple_if reload triple_ret)
qed

definition rolled_back :: "env \<Rightarrow> cfg \<Rightarrow> string option \<Rightarrow> host \<Rightarrow> bool" where
  "rolled_back e c kb h = (keys_good e c kb h \<and> node_at SUDOERS_NEXT h = None)"

lemma undo_rolls_back:
  assumes "quiet e" and "keys_separate c"
  shows "triple (keys_good e c kb) (undo_beside e g b) (\<lambda>_. rolled_back e c kb) (rolled_back e c kb)"
  using triple_conj [OF keys_kept_undo [OF assms] undo_beside_gone [OF assms(1)]]
  by (rule triple_weaken) (auto simp: rolled_back_def)

lemma move_path_keys:
  assumes "quiet e" and "keys_separate c"
  shows "triple (keys_good e c kb) (move_path e c p kb)
    (\<lambda>_. keys_good e c (Some (r_panel_keys p))) (rolled_back e c kb)"
proof -
  let ?K = "keys_good e c"
  note undo = undo_rolls_back [OF assms]
  have sep: "own_place (keys_path c)" "own_place (tmp_of (keys_path c))"
    using assms(2) by (simp_all add: keys_separate_def)
  have beside: "triple (?K kb) (thenS (install_generation e g en di)
      (thenS (host_write e SUDOERS_NEXT ru mode_0440 VISUDO_CHECK)
      (thenS (place_sshd e ACCEPTENV_NEXT ac) (ret ())))) (\<lambda>_. ?K kb) (?K kb)" for g en di ru ac
    by (rule keys_kept)
      (use assms(1) sep in \<open>auto intro!: keeps_intros keeps_install_generation gen_apart_outside keeps_host_write keeps_place_sshd
        simp: own_place_def\<close>)
  have reload: "triple (?K x) (sshd_reload e) (\<lambda>_. ?K x) (?K x)" for x
    by (rule keys_kept) (use assms(1) sep in \<open>auto intro!: keeps_sshd_reload simp: own_place_def\<close>)
  have proof1: "triple (?K kb) (thenS (sshd_reload e) (bindS (prove_beside e c g kb) (\<lambda>reasons.
      if reasons \<noteq> [] then raise (Refused (Beside_Failed reasons)) else ret ()))) (\<lambda>_. ?K kb) (?K kb)" for g
    by (intro triple_thenS [OF reload] triple_bindS [OF prove_beside_keys [OF assms]] triple_if
        triple_raise triple_ret)
  have wrt: "triple (?K kb) (thenS (keys_write e c t) (ret ())) (\<lambda>_. ?K (Some t)) (?K kb)" for t
    by (rule triple_thenS [where R = "?K (Some t)", OF triple_weaken [OF keys_write_good]])
      (auto intro: triple_ret)
  have proof2: "triple (?K x) (bindS (prove e c key g) (\<lambda>reasons.
      if reasons \<noteq> [] then raise (Refused (Switch_Failed reasons)) else ret ())) (\<lambda>_. ?K x) (?K x)" for x key g
    by (intro triple_bindS [OF keys_kept_prove [OF assms]] triple_if triple_raise triple_ret)
  have restore: "triple (?K x) (thenS (keys_put_back e c kb) (undo_beside e g b))
      (\<lambda>_. rolled_back e c kb) (rolled_back e c kb)" for x g b
    by (rule triple_thenS [where R = "?K kb", OF triple_weaken [OF rk.put_back_good]]) (auto intro: undo)
  show ?thesis
    unfolding move_path_def
    by (rule triple_thenS [OF triple_on_error [OF beside undo]],
        rule triple_thenS [OF triple_on_error [OF proof1 undo]],
        rule triple_thenS [OF triple_on_error [OF wrt undo]],
        rule triple_on_error [OF proof2 restore])
qed

section \<open>What a successful run leaves\<close>

definition holds_text :: "string \<Rightarrow> string \<Rightarrow> host \<Rightarrow> bool" where
  "holds_text p t h = (case node_at p h of Some (Reg x _ _ _) \<Rightarrow> x = t | _ \<Rightarrow> False)"

definition not_link :: "string \<Rightarrow> host \<Rightarrow> bool" where
  "not_link p h = (case node_at p h of Some (Link _) \<Rightarrow> False | _ \<Rightarrow> True)"

lemma host_write_holds:
  "triple (not_link p) (host_write e p t m check) (\<lambda>_. holds_text p t) (\<lambda>_. True)"
proof (rule tripleI)
  fix h b h'
  assume n: "not_link p h" and w: "host_write e p t m check h = (Inr b, h')"
  show "holds_text p t h'"
  proof (cases "host_read p h = (Inr (Some t), h)")
    case True
    with w have "h' = h" by (simp add: host_write_def sem_defs)
    with True n show ?thesis
      by (auto simp: holds_text_def host_read_def not_link_def split: option.splits node.splits)
  next
    case False
    obtain now where now: "host_read p h = (Inr now, h)"
      using w by (auto simp: host_write_def bindS_def host_read_def split: option.splits node.splits sum.splits)
    with False have "now \<noteq> Some t" by auto
    with w now show ?thesis
      by (auto simp: host_write_def sem_defs upd_fs_def note_wrote_def holds_text_def node_at_def
          map_of_fs split: if_splits prod.splits sum.splits)
  qed
qed simp

lemma holds_kept: "keeps (node_at p) m \<Longrightarrow> triple (holds_text p t) m (\<lambda>_. holds_text p t) (\<lambda>_. True)"
  using triple_keeps [of "node_at p" m "\<lambda>n. case n of Some (Reg x _ _ _) \<Rightarrow> x = t | _ \<Rightarrow> False"]
  by (rule triple_weaken) (simp_all add: holds_text_def)

lemma not_link_kept: "keeps (node_at p) m \<Longrightarrow> triple (not_link p) m (\<lambda>_. not_link p) (\<lambda>_. True)"
  using triple_keeps [of "node_at p" m "\<lambda>n. case n of Some (Link _) \<Rightarrow> False | _ \<Rightarrow> True"]
  by (rule triple_weaken) (simp_all add: not_link_def)

lemma place_sshd_holds:
  assumes "quiet e" and "\<not> within ''/run'' p"
  shows "triple (not_link p) (place_sshd e p t) (\<lambda>_. holds_text p t) (\<lambda>_. True)"
proof -
  have rd: "triple (not_link p) (host_read p) (\<lambda>_. not_link p) (\<lambda>_. True)"
    by (rule not_link_kept) (rule keeps_host_read)
  have run: "triple (holds_text p t) (run_cmd e argv) (\<lambda>_. holds_text p t) (\<lambda>_. True)" for argv
    by (rule holds_kept) (rule keeps_run_cmd [OF assms])
  have fail: "triple P (thenS k (raise x)) Q (\<lambda>_. True)" for P Q k x
    by (rule tripleI) (auto simp: thenS_def bindS_def raise_def split: prod.splits sum.splits)
  show ?thesis
    unfolding place_sshd_def
    by (rule triple_bindS [OF rd], rule triple_bindS [OF host_write_holds], rule triple_if,
        rule triple_ret, assumption, rule triple_bindS [OF run], rule triple_if, rule fail,
        rule triple_ret, assumption)
qed

text \<open>The frame of the last steps: the link, the other generations, the stale key directories.\<close>

lemma keeps_host_link: "apart p q \<Longrightarrow> keeps (node_at p) (host_link q to)"
  unfolding host_link_def
  by (intro keeps_intros keeps_upd_fs) (simp add: map_of_fs apart_def)

lemma keeps_remove_others:
  assumes "\<not> within GENERATIONS p"
  shows "keeps (node_at p) (remove_others g gs)"
proof (induction gs)
  case (Cons x gs)
  have "\<not> within (gen_dir x) p" using assms gen_paths_under within_trans by blast
  with Cons show ?case by (auto intro!: keeps_intros keeps_host_remove)
qed (simp add: keeps_ret)

lemma drop_stale_other:
  assumes "\<not> within ''/run'' p"
  shows "map_of (drop_stale fs) p = map_of fs p"
proof -
  have *: "\<not> within d p" if "d \<in> set (stale_proof_dirs fs)" for d
  proof -
    from that have "within ''/run'' d"
      by (auto simp: stale_proof_dirs_def within_def prefix_def)
    then show ?thesis using assms within_trans by blast
  qed
  have "map_of (foldl (\<lambda>f d. drop_tree d f) f ds) p = map_of f p"
    if "\<forall>d \<in> set ds. \<not> within d p" for f ds
    using that by (induction ds arbitrary: f) (auto simp: map_of_fs)
  with * show ?thesis by (simp add: drop_stale_def)
qed

definition last_steps :: "cfg \<Rightarrow> rendered \<Rightarrow> unit step" where
  "last_steps c p = thenS (host_link (link_path c) (dispatcher_path (r_gen p)))
    (thenS (bindS (getS (\<lambda>h. generations (h_fs h))) (remove_others (r_gen p))) (upd_fs drop_stale))"

lemma keeps_last_steps:
  assumes "\<not> within GENERATIONS p" and "\<not> within ''/run'' p" and "apart p (link_path c)"
  shows "keeps (node_at p) (last_steps c r)"
  unfolding last_steps_def
  by (intro keeps_intros keeps_host_link keeps_remove_others keeps_upd_fs drop_stale_other assms)

definition prove_or_restore :: "env \<Rightarrow> cfg \<Rightarrow> rendered \<Rightarrow> bool \<Rightarrow> unit step" where
  "prove_or_restore e c p touched =
     (if touched then
        bindS (prove e c (r_panel_key p) (r_gen p)) (\<lambda>reasons.
          if reasons = [] then ret ()
          else
            thenS (host_write e SUDOERS_NEXT (r_rule p) mode_0440 VISUDO_CHECK)
           (bindS (place_sshd e ACCEPTENV_NEXT (r_accept p)) (\<lambda>placed.
            thenS (if placed then sshd_reload e else ret ())
              (raise (Refused (Retire_Failed reasons))))))
      else ret ())"

lemma raise_last: "triple P (thenS m (raise x)) Q (\<lambda>_. True)"
  by (rule tripleI) (auto simp: thenS_def bindS_def raise_def split: prod.splits sum.splits)

lemma prove_or_restore_kept:
  assumes "\<And>key g. triple P (prove e c key g) (\<lambda>_. P) (\<lambda>_. True)"
  shows "triple P (prove_or_restore e c p touched) (\<lambda>_. P) (\<lambda>_. True)"
proof -
  have fail: "triple P (thenS m (bindS k (\<lambda>x. thenS (l x) (raise y)))) (\<lambda>_. P) (\<lambda>_. True)" for m k l y
    by (rule tripleI) (auto simp: thenS_def bindS_def raise_def split: prod.splits sum.splits)
  show ?thesis
    unfolding prove_or_restore_def
    by (intro triple_if triple_bindS [OF assms] triple_ret fail)
qed

lemma retire_path_steps:
  "retire_path e c p =
     bindS (install_generation e (r_gen p) (r_entry p) (r_dispatcher p)) (\<lambda>t1.
     bindS (keys_write e c (r_panel_keys p)) (\<lambda>t2.
     bindS (host_write e SUDOERS (r_rule p) mode_0440 VISUDO_CHECK) (\<lambda>t3.
     bindS (place_sshd e ACCEPTENV (r_accept p)) (\<lambda>t4.
     bindS (host_remove SUDOERS_NEXT) (\<lambda>t5.
     bindS (host_remove ACCEPTENV_NEXT) (\<lambda>t6.
     thenS (if t4 \<or> t6 then sshd_reload e else ret ())
    (thenS (prove_or_restore e c p (t1 \<or> t2 \<or> t3 \<or> t4 \<or> t5 \<or> t6)) (last_steps c p))))))))"
  by (simp add: retire_path_def prove_or_restore_def last_steps_def)

text \<open>The place the dispatcher link stands: none of the files of the path.\<close>

definition link_separate :: "cfg \<Rightarrow> bool" where
  "link_separate c = list_all (\<lambda>p. apart p (link_path c))
     [SUDOERS, SUDOERS_NEXT, ACCEPTENV, ACCEPTENV_NEXT, keys_path c, tmp_of (keys_path c)]"

text \<open>The rule the posts of a successful retirement share: what holds before each of its steps.\<close>

lemma retire_rule:
  assumes "\<And>g en di. triple A (install_generation e g en di) (\<lambda>_. B) (\<lambda>_. True)"
    and "triple B (keys_write e c (r_panel_keys p)) (\<lambda>_. C) (\<lambda>_. True)"
    and "triple C (host_write e SUDOERS (r_rule p) mode_0440 VISUDO_CHECK) (\<lambda>_. D) (\<lambda>_. True)"
    and "triple D (place_sshd e ACCEPTENV (r_accept p)) (\<lambda>_. F) (\<lambda>_. True)"
    and "triple F (host_remove SUDOERS_NEXT) (\<lambda>_. G) (\<lambda>_. True)"
    and "triple G (host_remove ACCEPTENV_NEXT) (\<lambda>_. H) (\<lambda>_. True)"
    and "triple H (sshd_reload e) (\<lambda>_. H) (\<lambda>_. True)"
    and "\<And>key g. triple H (prove e c key g) (\<lambda>_. H) (\<lambda>_. True)"
    and "triple H (last_steps c p) (\<lambda>_. H) (\<lambda>_. True)"
  shows "triple A (retire_path e c p) (\<lambda>_. H) (\<lambda>_. True)"
  unfolding retire_path_steps
  by (rule triple_bindS [OF assms(1)], rule triple_bindS [OF assms(2)], rule triple_bindS [OF assms(3)],
      rule triple_bindS [OF assms(4)], rule triple_bindS [OF assms(5)], rule triple_bindS [OF assms(6)],
      rule triple_thenS, rule triple_if, rule assms(7), rule triple_ret, assumption,
      rule triple_thenS [OF prove_or_restore_kept [OF assms(8)]], rule assms(9))

lemma gone_kept: "keeps (node_at p) m \<Longrightarrow>
    triple (\<lambda>h. node_at p h = None) m (\<lambda>_ h. node_at p h = None) (\<lambda>_. True)"
  by (rule triple_weaken [OF kept_gone]) auto

lemma remove_gone: "triple (\<lambda>_. True) (host_remove p) (\<lambda>_ h. node_at p h = None) (\<lambda>_. True)"
  by (rule triple_weaken [OF host_remove_gone]) auto

lemma keys_apart_from:
  assumes "keys_separate c"
  shows "apart SUDOERS (keys_path c)" "apart ACCEPTENV (keys_path c)" "apart SUDOERS_NEXT (keys_path c)"
    "apart ACCEPTENV_NEXT (keys_path c)"
  using assms by (auto simp: keys_separate_def own_place_def apart_def)

lemmas retire_frames = keeps_install_generation [OF gen_apart_outside] keeps_keys_write keeps_host_write keeps_place_sshd
  keeps_host_remove keeps_sshd_reload keeps_prove keeps_last_steps

lemma retire_sudoers:
  assumes "quiet e" and "keys_separate c" and "link_separate c"
  shows "triple (not_link SUDOERS) (retire_path e c p) (\<lambda>_. holds_text SUDOERS (r_rule p)) (\<lambda>_. True)"
  by (rule retire_rule [where B = "not_link SUDOERS" and C = "not_link SUDOERS"])
    (use assms(3) in \<open>auto intro!: not_link_kept holds_kept host_write_holds retire_frames assms(1)
      constants_apart keys_apart_from [OF assms(2)] simp: link_separate_def\<close>)

lemma retire_acceptenv:
  assumes "quiet e" and "keys_separate c" and "link_separate c"
  shows "triple (not_link ACCEPTENV) (retire_path e c p) (\<lambda>_. holds_text ACCEPTENV (r_accept p)) (\<lambda>_. True)"
  by (rule retire_rule [where B = "not_link ACCEPTENV" and C = "not_link ACCEPTENV" and D = "not_link ACCEPTENV"])
    (use assms(3) in \<open>auto intro!: not_link_kept holds_kept place_sshd_holds retire_frames assms(1)
      constants_apart keys_apart_from [OF assms(2)] simp: link_separate_def\<close>)

lemma retire_sudoers_next:
  assumes "quiet e" and "keys_separate c" and "link_separate c"
  shows "triple (\<lambda>_. True) (retire_path e c p) (\<lambda>_ h. node_at SUDOERS_NEXT h = None) (\<lambda>_. True)"
  by (rule retire_rule [where B = "\<lambda>_. True" and C = "\<lambda>_. True" and D = "\<lambda>_. True" and F = "\<lambda>_. True"])
    (use assms(3) in \<open>auto intro!: triple_True gone_kept remove_gone retire_frames assms(1)
      constants_apart keys_apart_from [OF assms(2)] simp: link_separate_def\<close>)

lemma retire_acceptenv_next:
  assumes "quiet e" and "keys_separate c" and "link_separate c"
  shows "triple (\<lambda>_. True) (retire_path e c p) (\<lambda>_ h. node_at ACCEPTENV_NEXT h = None) (\<lambda>_. True)"
  by (rule retire_rule [where B = "\<lambda>_. True" and C = "\<lambda>_. True" and D = "\<lambda>_. True" and F = "\<lambda>_. True"
        and G = "\<lambda>_. True"])
    (use assms(3) in \<open>auto intro!: triple_True gone_kept remove_gone retire_frames assms(1)
      constants_apart keys_apart_from [OF assms(2)] simp: link_separate_def\<close>)

lemma keys_kept_True:
  assumes "keeps (node_at (keys_path c)) m" and "keeps (node_at (tmp_of (keys_path c))) m"
  shows "triple (keys_good e c x) m (\<lambda>_. keys_good e c x) (\<lambda>_. True)"
  by (rule triple_weaken [OF keys_kept [OF assms]]) auto

lemma retire_keys:
  assumes "quiet e" and "keys_separate c" and "link_separate c"
  shows "triple (keys_good e c x) (retire_path e c p) (\<lambda>_. keys_good e c (Some (r_panel_keys p))) (\<lambda>_. True)"
  by (rule retire_rule [where B = "keys_good e c x" and C = "keys_good e c (Some (r_panel_keys p))"
        and D = "keys_good e c (Some (r_panel_keys p))" and F = "keys_good e c (Some (r_panel_keys p))"
        and G = "keys_good e c (Some (r_panel_keys p))"])
    (use assms in \<open>auto intro!: keys_kept_True triple_weaken [OF keys_write_good] retire_frames
      simp: link_separate_def keys_separate_def own_place_def\<close>)

text \<open>Everything in place: this tree's rules in the main files, nothing in the -next files, the panel's line.\<close>

definition in_place :: "env \<Rightarrow> cfg \<Rightarrow> rendered \<Rightarrow> host \<Rightarrow> bool" where
  "in_place e c p h =
     (keys_good e c (Some (r_panel_keys p)) h
      \<and> holds_text SUDOERS (r_rule p) h \<and> holds_text ACCEPTENV (r_accept p) h
      \<and> node_at SUDOERS_NEXT h = None \<and> node_at ACCEPTENV_NEXT h = None)"

lemma retire_in_place:
  assumes "quiet e" and "keys_separate c" and "link_separate c"
    and "keys_good e c x h" and "not_link SUDOERS h" and "not_link ACCEPTENV h"
    and "retire_path e c p h = (Inr u, h')"
  shows "in_place e c p h'"
  unfolding in_place_def
  using triple_Inr [OF retire_keys [OF assms(1-3)] assms(4,7)]
    triple_Inr [OF retire_sudoers [OF assms(1-3)] assms(5,7)]
    triple_Inr [OF retire_acceptenv [OF assms(1-3)] assms(6,7)]
    triple_Inr [OF retire_sudoers_next [OF assms(1-3)] TrueI assms(7)]
    triple_Inr [OF retire_acceptenv_next [OF assms(1-3)] TrueI assms(7)]
  by blast

section \<open>The verdict names the generation the panel runs\<close>

definition runs :: "env \<Rightarrow> cfg \<Rightarrow> string \<Rightarrow> string \<Rightarrow> host \<Rightarrow> bool" where
  "runs e c blob g h = (\<exists>t. keys_good e c t h \<and> running_generation (line_for t blob) = g)"

lemma runs_inv:
  assumes "keeps (node_at (keys_path c)) m" and "keeps (node_at (tmp_of (keys_path c))) m"
  shows "inv (runs e c blob g) m"
  unfolding inv_def runs_def
  by (rule tripleI) (use keys_kept [OF assms] in \<open>blast dest: triple_Inr triple_Inl\<close>)+

lemma runs_keys_write:
  assumes "running_generation (line_for (Some t) blob) = g"
  shows "inv (runs e c blob g) (keys_write e c t)"
  unfolding inv_def runs_def
  by (rule tripleI) (use keys_write_good [of e c _ t] assms in \<open>blast dest: triple_Inr triple_Inl\<close>)+

lemma retire_runs:
  assumes "quiet e" and "keys_separate c" and "link_separate c"
    and "running_generation (line_for (Some (r_panel_keys p)) blob) = g"
  shows "inv (runs e c blob g) (retire_path e c p)"
proof -
  have sep: "own_place (keys_path c)" "own_place (tmp_of (keys_path c))"
    "apart (keys_path c) (link_path c)" "apart (tmp_of (keys_path c)) (link_path c)"
    using assms(2,3) by (simp_all add: keys_separate_def link_separate_def)
  have r: "inv (runs e c blob g) m"
    if "\<And>q. own_place q \<Longrightarrow> apart q (link_path c) \<Longrightarrow> keeps (node_at q) m" for m :: "'b step"
    by (rule runs_inv) (use that sep in auto)
  show ?thesis
    unfolding retire_path_steps prove_or_restore_def
    by (intro inv_intros runs_keys_write assms(4))
      (rule r, rule retire_frames, (auto simp: assms(1) own_place_def)+)+
qed

text \<open>What the verdict of a run says the panel dispatches through.\<close>

fun says_running :: "summary \<Rightarrow> string option" where
  "says_running (Dispatches_Through g _) = Some g"
| "says_running (Switched g _) = Some g"
| "says_running (Put_In_Place g) = Some g"
| "says_running (Nothing_To_Change g) = Some g"
| "says_running _ = None"

lemma switch_keys_runs:
  assumes "quiet e" and "keys_separate c" and "link_separate c"
    and kb: "keys_good e c kb h"
    and pk: "running_generation (line_for (Some (r_panel_keys p)) blob) = r_gen p"
    and sw: "switch_keys e c p blob h = (Some v, h')"
    and say: "says_running (v_summary v) = Some g"
  shows "runs e c blob g h'"
proof -
  note rd = keys_good_read [OF kb]
  define running where "running = running_generation (line_for kb blob)"
  define mv where "mv = (if running \<noteq> r_gen p then move_path e c p kb else ret ()) h"
  obtain r2 h2 where mv2: "mv = (r2, h2)" by (cases mv)
  have moved: "case r2 of Inr _ \<Rightarrow> runs e c blob (r_gen p) h2 | Inl _ \<Rightarrow> runs e c blob running h2"
  proof (cases "running = r_gen p")
    case True
    then show ?thesis using mv2 kb unfolding mv_def runs_def running_def
      by (auto simp: ret_def)
  next
    case False
    then have "move_path e c p kb h = (r2, h2)" using mv2 by (simp add: mv_def)
    note moved = this
    show ?thesis
    proof (cases r2)
      case (Inl err)
      with moved triple_Inl [OF move_path_keys [OF assms(1,2)] kb] show ?thesis
        by (auto simp: runs_def running_def rolled_back_def)
    next
      case (Inr u)
      with moved triple_Inr [OF move_path_keys [OF assms(1,2)] kb] pk show ?thesis
        by (auto simp: runs_def)
    qed
  qed
  show ?thesis
  proof (cases r2)
    case (Inl err)
    then show ?thesis using sw say moved mv2
      unfolding switch_keys_def rd running_def [symmetric] mv_def
      by (cases err) (auto simp: verdict_of_def Let_def running_def [symmetric])
  next
    case (Inr u)
    obtain r3 h3 where rt: "retire_path e c p h2 = (r3, h3)" by (cases "retire_path e c p h2")
    have "runs e c blob (r_gen p) h3"
      using inv_step [OF retire_runs [OF assms(1-3) pk]] moved Inr rt by (metis snd_conv sum.case(2))
    then show ?thesis using sw say mv2 Inr rt
      unfolding switch_keys_def rd mv_def
      by (auto simp: verdict_of_def Let_def running_def [symmetric] split: sum.splits dp_error.splits if_splits)
  qed
qed

end
