(* ===== verification/Dispatch_Verdict.thy ===== *)
theory Dispatch_Verdict
  imports Dispatch_Switch
begin

text \<open>
  The properties of a whole run of \<open>src/ansible/helpers/dispatch_path.py\<close>: what a failed move
  leaves, that the verdict names the generation the panel runs, what an ok verdict has put in
  place, what is refused before anything is written, and that a settled host is left alone.
\<close>

section \<open>From the whole run to its steps\<close>

definition sha_hex :: "(string \<Rightarrow> string) \<Rightarrow> bool" where
  "sha_hex sha = (\<forall>x. 12 \<le> length (sha x) \<and> list_all is_hex (take 12 (sha x)))"

lemma generation_name: "sha_hex sha \<Longrightarrow> gen_name (generation sha c)"
  by (auto simp: sha_hex_def gen_name_def generation_def)

lemma keys_open_same: "keys_open e c h = (r, h') \<Longrightarrow> h' = h"
  by (auto simp: keys_open_def sem_defs split: option.splits node.splits if_splits)

definition panel_pub_of :: "string option \<Rightarrow> string" where
  "panel_pub_of pub_text = strip (case pub_text of None \<Rightarrow> [] | Some t \<Rightarrow> t)"

text \<open>A verdict that names a running generation comes from \<open>switch_keys\<close>, on the host as it was found.\<close>

lemma switch_reaches_keys:
  assumes "switch e c h = (Some v, h')" and "says_running (v_summary v) \<noteq> None"
    and "host_read (panel_key_path c @ ''.pub'') h = (Inr pub_text, h)"
  shows "switch_keys e c (render c (generation (e_sha e) c) (panel_key_path c) (panel_pub_of pub_text))
           (key_blob (panel_pub_of pub_text)) h = (Some v, h')"
    and "panel_key_shape (panel_pub_of pub_text)" and "key_blob (panel_pub_of pub_text) \<noteq> []"
  using assms
  by (auto simp: switch_def panel_pub_of_def verdict_of_def Let_def dest: keys_open_same
      split: option.splits if_splits prod.splits sum.splits dp_error.splits)

lemma render_runs:
  assumes "sha_hex (e_sha e)" and "panel_key_shape pub" and "key_blob pub \<noteq> []"
  shows "running_generation (line_for (Some (r_panel_keys (render c (generation (e_sha e) c) key pub))) (key_blob pub))
    = r_gen (render c (generation (e_sha e) c) key pub)"
  using running_panel_keys [OF generation_name [OF assms(1)] assms(2,3)] by (simp add: render_def)

lemma switch_keys_ok:
  assumes "quiet e" and "keys_separate c" and "link_separate c"
    and kb: "keys_good e c kb h" and nl: "not_link SUDOERS h" "not_link ACCEPTENV h"
    and sw: "switch_keys e c p blob h = (Some v, h')" and ok: "v_ok v"
  shows "in_place e c p h'"
proof -
  let ?mv = "if running_generation (line_for kb blob) \<noteq> r_gen p then move_path e c p kb else ret ()"
  have by1: "bystander c (r_gen p) SUDOERS" "bystander c (r_gen p) ACCEPTENV"
    using keys_apart_from [OF assms(2)] constants_apart by (simp_all add: bystander_def gen_apart_outside)
  obtain h2 u where mv: "?mv h = (Inr u, h2)" and rt: "\<exists>w. retire_path e c p h2 = (Inr w, h')"
    using sw ok unfolding switch_keys_def keys_good_read [OF kb]
    by (auto simp: verdict_of_def Let_def split: sum.splits prod.splits dp_error.splits)
  have "\<exists>x. keys_good e c x h2"
    using mv kb triple_Inr [OF move_path_keys [OF assms(1,2)] kb]
    by (auto simp: ret_def split: if_splits)
  moreover have "node_at q h2 = node_at q h" if "bystander c (r_gen p) q" for q
    using mv keeps_move_path [OF assms(1) that]
    by (auto simp: ret_def keeps_def split: if_splits) (metis snd_conv)
  then have "not_link SUDOERS h2" "not_link ACCEPTENV h2"
    using by1 nl by (simp_all add: not_link_def)
  ultimately show ?thesis using retire_in_place [OF assms(1-3)] rt by blast
qed

section \<open>A settled host\<close>

text \<open>Everything this tree asks for is in place already, and nothing else.\<close>

definition settled :: "env \<Rightarrow> cfg \<Rightarrow> rendered \<Rightarrow> host \<Rightarrow> bool" where
  "settled e c p h =
     (in_place e c p h
      \<and> generation_intact e (r_gen p) (r_entry p) (r_dispatcher p) (h_fs h)
      \<and> node_at (link_path c) h = Some (Link (dispatcher_path (r_gen p)))
      \<and> generations (h_fs h) = [r_gen p] \<and> stale_proof_dirs (h_fs h) = [])"

lemma holds_text_read: "holds_text p t h \<Longrightarrow> host_read p h = (Inr (Some t), h)"
  by (auto simp: holds_text_def host_read_def split: option.splits node.splits)

lemma write_same: "holds_text p t h \<Longrightarrow> host_write e p t m check h = (Inr False, h)"
  by (simp add: host_write_def sem_defs holds_text_read)

lemma settled_keys: "settled e c p h \<Longrightarrow> keys_read e c h = (Inr (Some (r_panel_keys p)), h)"
  by (rule keys_good_read) (simp add: settled_def in_place_def)

lemma retire_settled:
  assumes "settled e c p h"
  shows "retire_path e c p h = (Inr (), h)"
proof -
  note s = assms [unfolded settled_def in_place_def]
  have "install_generation e (r_gen p) (r_entry p) (r_dispatcher p) h = (Inr False, h)"
    using s by (simp add: install_generation_def sem_defs)
  moreover have "keys_write e c (r_panel_keys p) h = (Inr False, h)"
    by (simp add: keys_write_def sem_defs settled_keys [OF assms])
  moreover have "place_sshd e ACCEPTENV (r_accept p) h = (Inr False, h)"
    using s holds_text_read [of ACCEPTENV "r_accept p" h] by (simp add: place_sshd_def sem_defs write_same)
  moreover have "host_remove SUDOERS_NEXT h = (Inr False, h)" "host_remove ACCEPTENV_NEXT h = (Inr False, h)"
    using s by (simp_all add: host_remove_def sem_defs)
  moreover have "last_steps c p h = (Inr (), h)"
    using s by (simp add: last_steps_def sem_defs host_link_def upd_fs_def drop_stale_def)
  ultimately show ?thesis
    using s by (simp add: retire_path_steps bindS_def thenS_def write_same prove_or_restore_def ret_def)
qed

lemma switch_keys_settled:
  assumes "settled e c p h" and "h_wrote h = []"
    and "running_generation (line_for (Some (r_panel_keys p)) blob) = r_gen p"
  shows "switch_keys e c p blob h = (Some (verdict_of (r_gen p) h True (Nothing_To_Change (r_gen p))), h)"
  using assms(2,3) by (simp add: switch_keys_def Let_def ret_def retire_settled [OF assms(1)] settled_keys [OF assms(1)])

section \<open>A concrete host\<close>

text \<open>
  A host whose panel dispatches through generation \<open>aaaaaaaaaaaa\<close>, with the rule of that
  generation in the -next file, and programs that answer the way the real ones do: \<open>ssh-keygen\<close>
  writes a key below \<open>/run\<close> and the proof answers for \<open>gen\<close>.
\<close>

definition demo_cfg :: cfg where
  "demo_cfg = \<lparr>runner_user = ''runner'', runner_home = ''/home/runner'', panel_key_dir = ''/opt/panel'',
     link_path = ''/usr/local/bin/catena-admin-dispatch'', passthrough = PList [PStr ''CATENA_STEP''],
     entry_text = ''e'', dispatcher_text = ''d''\<rparr>"

definition demo_run :: "string \<Rightarrow> string list \<Rightarrow> nat \<Rightarrow> files \<Rightarrow> proc option \<times> files" where
  "demo_run gen argv n fs =
     (if hd argv = ''/usr/bin/ssh-keygen''
      then (Some \<lparr>rc = 0, out = [], err = []\<rparr>,
            put_node ''/run/catena-dispatch-proof.x/id_ed25519.pub'' (Reg ''ssh-ed25519 QQ== x'' mode_0600 0 1) fs)
      else if hd argv = ''/usr/bin/ssh'' \<and> last argv = PROOF_ACTION
      then (Some \<lparr>rc = 0, out = PROOF_ACTION @ '' '' @ gen @ nl @ ''arrived CATENA_STEP'' @ nl, err = []\<rparr>, fs)
      else if hd argv = ''/usr/bin/ssh'' then (Some \<lparr>rc = 2, out = [], err = ENTRY_REFUSAL\<rparr>, fs)
      else (Some \<lparr>rc = 0, out = [], err = []\<rparr>, fs))"

definition demo_env :: "string \<Rightarrow> env" where
  "demo_env gen = \<lparr>e_run = demo_run gen, e_uid = (\<lambda>u. if u = ''root'' then 0 else 1000), e_nonce = (\<lambda>_. ''n''),
     e_keydir = ''/run/catena-dispatch-proof.x'', e_expires = ''20300101000000Z'', e_sha = (\<lambda>_. ''0123456789abcdef'')\<rparr>"

definition demo_pub :: string where "demo_pub = ''ssh-ed25519 AAAA panel''"

definition demo_rendered :: rendered where
  "demo_rendered = render demo_cfg ''0123456789ab'' ''/opt/panel/id_ed25519'' demo_pub"

definition demo_host :: host where
  "demo_host = \<lparr>h_fs =
     [(''/home/runner/.ssh'', Dir (7 * 8 * 8) 1000),
      (''/home/runner/.ssh/authorized_keys'', Reg (panel_keys_text ''aaaaaaaaaaaa'' demo_pub) mode_0600 1000 1),
      (SUDOERS_NEXT, Reg (sudo_rule ''runner'' (dispatcher_path ''aaaaaaaaaaaa'') [''CATENA_STEP'']) mode_0440 0 1),
      (''/opt/panel/id_ed25519.pub'', Reg demo_pub mode_0644 0 1)],
     h_wrote = [], h_calls = 0\<rparr>"

text \<open>The host with the files of the generation it runs.\<close>

definition demo_running :: host where
  "demo_running = demo_host\<lparr>h_fs := (h_fs demo_host) @
     [(GENERATIONS, Dir mode_0755 0), (gen_dir ''aaaaaaaaaaaa'', Dir mode_0755 0),
      (entry_path ''aaaaaaaaaaaa'', Reg ''e'' mode_0755 0 1), (dispatcher_path ''aaaaaaaaaaaa'', Reg ''d'' mode_0755 0 1)]\<rparr>"

text \<open>The same host after a complete run.\<close>

definition demo_settled :: host where
  "demo_settled = \<lparr>h_fs =
     [(''/home/runner/.ssh'', Dir (7 * 8 * 8) 1000),
      (''/home/runner/.ssh/authorized_keys'', Reg (r_panel_keys demo_rendered) mode_0600 1000 1),
      (GENERATIONS, Dir mode_0755 0), (gen_dir ''0123456789ab'', Dir mode_0755 0),
      (entry_path ''0123456789ab'', Reg (r_entry demo_rendered) mode_0755 0 1),
      (dispatcher_path ''0123456789ab'', Reg (r_dispatcher demo_rendered) mode_0755 0 1),
      (SUDOERS, Reg (r_rule demo_rendered) mode_0440 0 1), (ACCEPTENV, Reg (r_accept demo_rendered) mode_0644 0 1),
      (''/usr/local/bin/catena-admin-dispatch'', Link (dispatcher_path ''0123456789ab'')),
      (''/opt/panel/id_ed25519.pub'', Reg demo_pub mode_0644 0 1)],
     h_wrote = [], h_calls = 0\<rparr>"

lemma outside_run_put: "within ''/run'' p \<Longrightarrow> outside_run (put_node p n fs) = outside_run fs"
  by (induction fs) (auto simp: outside_run_def put_node_def)

lemma demo_quiet: "quiet (demo_env gen)"
proof -
  have "within ''/run'' ''/run/catena-dispatch-proof.x/id_ed25519.pub''" "within ''/run'' ''/run/catena-dispatch-proof.x''"
    by code_simp+
  then show ?thesis by (auto simp: quiet_def demo_env_def demo_run_def outside_run_put)
qed

lemma demo_sha: "sha_hex (e_sha (demo_env gen))"
  by (simp add: demo_env_def sha_hex_def is_hex_def is_digit_def)

lemma demo_keys_separate: "keys_separate demo_cfg" by code_simp

lemma demo_link_separate: "link_separate demo_cfg" by code_simp

lemma demo_keys_good:
  "keys_good (demo_env gen) demo_cfg (Some (panel_keys_text ''aaaaaaaaaaaa'' demo_pub)) demo_host"
proof -
  have "node_at (keys_path demo_cfg) demo_host
      = Some (Reg (panel_keys_text ''aaaaaaaaaaaa'' demo_pub) mode_0600 1000 1)"
    "node_at (tmp_of (keys_path demo_cfg)) demo_host = None" by code_simp+
  then show ?thesis by (simp add: keys_good_def demo_env_def demo_cfg_def)
qed

lemma demo_panel_key: "host_read (panel_key_path demo_cfg @ ''.pub'') demo_host = (Inr (Some demo_pub), demo_host)"
proof -
  have "node_at (panel_key_path demo_cfg @ ''.pub'') demo_host = Some (Reg demo_pub mode_0644 0 1)" by code_simp
  then show ?thesis by (simp add: host_read_def)
qed

lemma demo_generation: "generation (e_sha (demo_env gen)) demo_cfg = ''0123456789ab''"
  by (simp add: generation_def demo_env_def)

lemma demo_render: "render demo_cfg (generation (e_sha (demo_env gen)) demo_cfg) (panel_key_path demo_cfg)
    (panel_pub_of (Some demo_pub)) = demo_rendered"
proof -
  have "panel_key_path demo_cfg = ''/opt/panel/id_ed25519''" "panel_pub_of (Some demo_pub) = demo_pub" by code_simp+
  then show ?thesis by (simp add: demo_rendered_def demo_generation)
qed

lemma demo_shape: "panel_key_shape (panel_pub_of (Some demo_pub))" "key_blob (panel_pub_of (Some demo_pub)) \<noteq> []"
  by code_simp+

lemma demo_settled: "settled (demo_env ''0123456789ab'') demo_cfg demo_rendered demo_settled" by code_simp

lemma demo_settled_panel_key:
  "host_read (panel_key_path demo_cfg @ ''.pub'') demo_settled = (Inr (Some demo_pub), demo_settled)"
proof -
  have "node_at (panel_key_path demo_cfg @ ''.pub'') demo_settled = Some (Reg demo_pub mode_0644 0 1)" by code_simp
  then show ?thesis by (simp add: host_read_def)
qed

lemma demo_settled_open: "keys_open (demo_env gen) demo_cfg demo_settled = (Inr (), demo_settled)"
proof -
  have "node_at (ssh_dir demo_cfg) demo_settled = Some (Dir (7 * 8 * 8) 1000)" by code_simp
  then show ?thesis by (simp add: keys_open_def sem_defs) (simp add: demo_env_def demo_cfg_def)
qed

lemma demo_switch_settled:
  "switch (demo_env ''0123456789ab'') demo_cfg demo_settled
   = (Some (verdict_of ''0123456789ab'' demo_settled True (Nothing_To_Change ''0123456789ab'')), demo_settled)"
proof -
  have n: "passthrough_problem (passthrough demo_cfg) = None" by code_simp
  have w: "h_wrote demo_settled = []" by (simp add: demo_settled_def)
  have g: "r_gen demo_rendered = ''0123456789ab''" by (simp add: demo_rendered_def render_def)
  note r = render_runs [OF demo_sha demo_shape, where c = demo_cfg and key = "panel_key_path demo_cfg", unfolded demo_render]
  have "strip demo_pub = panel_pub_of (Some demo_pub)" by (simp add: panel_pub_of_def)
  with n demo_shape demo_settled_panel_key demo_settled_open switch_keys_settled [OF demo_settled w r] show ?thesis
    by (simp add: switch_def Let_def demo_render [simplified demo_generation] demo_generation g)
qed

section \<open>Properties\<close>

lemma one_generation:
  assumes "gen_name g" and "gen_name g'" and "within (GENERATIONS @ ''/'' @ g) q" and "within (GENERATIONS @ ''/'' @ g') q"
  shows "g = g'"
proof -
  have "length g = 12" "length g' = 12" using assms(1,2) by (simp_all add: gen_name_def)
  with assms(3,4) show ?thesis by (auto simp: within_def prefix_def append_eq_append_conv2)
qed

lemma other_generation_bystander:
  assumes "keys_separate c" and "gen_name g" and "gen_name g'" and "g \<noteq> g'" and "within (gen_dir g) q"
  shows "bystander c g' q"
proof -
  have G: "within GENERATIONS q" using assms(5) gen_paths_under within_trans by blast
  have "\<not> within (gen_dir g') q" using one_generation [OF assms(2,3)] assms(4,5) by (auto simp: gen_dir_def)
  moreover have "\<not> within (tmp_dir g') q" "q \<noteq> GENERATIONS"
  proof -
    have "\<not> is_hex (CHR ''.'')" by code_simp
    then obtain x y where g: "g = x # y" "x \<noteq> CHR ''.''" using assms(2) by (cases g) (auto simp: gen_name_def)
    then show "\<not> within (tmp_dir g') q" "q \<noteq> GENERATIONS"
      using assms(5) by (auto simp: within_def prefix_def gen_dir_def tmp_dir_def)
  qed
  moreover have "q \<noteq> keys_path c" "q \<noteq> tmp_of (keys_path c)" using G assms(1) by (auto simp: keys_separate_def own_place_def)
  moreover have "\<not> within ''/run'' q" "\<not> within SUDOERS_NEXT q" "\<not> within ACCEPTENV_NEXT q" "apart q SUDOERS_NEXT" "apart q ACCEPTENV_NEXT"
    using G by (auto simp: within_def prefix_def apart_def tmp_of_def GENERATIONS_def SUDOERS_NEXT_def ACCEPTENV_NEXT_def)
  ultimately show ?thesis by (simp add: bystander_def gen_apart_def apart_def)
qed

text \<open>C2: a move that fails puts the running path back. When building the new generation beside the
  running one, its proof, or the proof through the panel's own key fails, the runner's
  authorized keys read as they did before the run, and every file is what it was, apart from the new
  generation's directory and the one it is built in, the mode of their parent, the -next files, the temporaries
  beside the files written, and \<open>/run\<close>, where the programs the move starts keep their state. So the running
  sudo rule, the running sshd rule and every file of every other generation are what they were.\<close>

theorem failed_move_restores:
  assumes "quiet e" and "keys_separate c" and "keys_good e c kb h" and "gen_name (r_gen p)"
    and "move_path e c p kb h = (Inl x, h')"
  shows "keys_read e c h' = (Inr kb, h') \<and> (\<forall>q. bystander c (r_gen p) q \<longrightarrow> node_at q h' = node_at q h)
    \<and> node_at SUDOERS h' = node_at SUDOERS h \<and> node_at ACCEPTENV h' = node_at ACCEPTENV h
    \<and> (\<forall>g q. gen_name g \<and> g \<noteq> r_gen p \<and> within (gen_dir g) q \<longrightarrow> node_at q h' = node_at q h)"
proof -
  have "keys_good e c kb h'"
    using triple_Inl [OF move_path_keys [OF assms(1,2)] assms(3,5)] by (simp add: rolled_back_def)
  moreover have k: "node_at q h' = node_at q h" if "bystander c (r_gen p) q" for q
    using keeps_move_path [OF assms(1) that] assms(5) by (metis keeps_def snd_conv)
  moreover have "bystander c (r_gen p) SUDOERS" "bystander c (r_gen p) ACCEPTENV"
    using keys_apart_from [OF assms(2)] constants_apart by (simp_all add: bystander_def gen_apart_outside)
  moreover have "node_at q h' = node_at q h" if "gen_name g" "g \<noteq> r_gen p" "within (gen_dir g) q" for g q
    by (rule k, rule other_generation_bystander [OF assms(2) that(1) assms(4) that(2,3)])
  ultimately show ?thesis using keys_good_read by blast
qed

theorem failed_move_restores_witness:
  "\<exists>x h'. move_path (demo_env ''wrong'') demo_cfg demo_rendered (Some (panel_keys_text ''aaaaaaaaaaaa'' demo_pub)) demo_running
      = (Inl x, h')
    \<and> keys_read (demo_env ''wrong'') demo_cfg h' = (Inr (Some (panel_keys_text ''aaaaaaaaaaaa'' demo_pub)), h')
    \<and> node_at (entry_path ''aaaaaaaaaaaa'') h' = Some (Reg ''e'' mode_0755 0 1)"
proof -
  let ?m = "move_path (demo_env ''wrong'') demo_cfg demo_rendered (Some (panel_keys_text ''aaaaaaaaaaaa'' demo_pub)) demo_running"
  have "case fst ?m of Inl _ \<Rightarrow> True | Inr _ \<Rightarrow> False" by code_simp
  then obtain x h' where m: "?m = (Inl x, h')" by (cases ?m) (auto split: sum.splits)
  have g: "gen_name (r_gen demo_rendered)" "gen_name ''aaaaaaaaaaaa''" "''aaaaaaaaaaaa'' \<noteq> r_gen demo_rendered"
    "within (gen_dir ''aaaaaaaaaaaa'') (entry_path ''aaaaaaaaaaaa'')"
    "node_at (entry_path ''aaaaaaaaaaaa'') demo_running = Some (Reg ''e'' mode_0755 0 1)" by code_simp+
  have k: "keys_good (demo_env ''wrong'') demo_cfg (Some (panel_keys_text ''aaaaaaaaaaaa'' demo_pub)) demo_running"
  proof -
    have "node_at (keys_path demo_cfg) demo_running = Some (Reg (panel_keys_text ''aaaaaaaaaaaa'' demo_pub) mode_0600 1000 1)"
      "node_at (tmp_of (keys_path demo_cfg)) demo_running = None" by code_simp+
    then show ?thesis by (simp add: keys_good_def demo_env_def demo_cfg_def)
  qed
  note all = failed_move_restores [OF demo_quiet demo_keys_separate k g(1) m]
  have "node_at (entry_path ''aaaaaaaaaaaa'') h' = node_at (entry_path ''aaaaaaaaaaaa'') demo_running"
    using all g(2-4) by blast
  with all m g(5) show ?thesis by auto
qed

text \<open>C5: the verdict tells the truth. Whatever a run's verdict says the panel dispatches through, the
  generation it switched to or the one it fell back to, is the generation that the panel's line in
  the authorized keys names when the run is over.\<close>

theorem verdict_names_running:
  assumes "quiet e" and "sha_hex (e_sha e)" and "keys_separate c" and "link_separate c"
    and "keys_good e c kb h"
    and "host_read (panel_key_path c @ ''.pub'') h = (Inr pub_text, h)"
    and "switch e c h = (Some v, h')" and "says_running (v_summary v) = Some g"
  shows "\<exists>t. keys_read e c h' = (Inr t, h')
    \<and> running_generation (line_for t (key_blob (panel_pub_of pub_text))) = g"
proof -
  have "says_running (v_summary v) \<noteq> None" using assms(8) by simp
  note k = switch_reaches_keys [OF assms(7) this assms(6)]
  have "runs e c (key_blob (panel_pub_of pub_text)) g h'"
    by (rule switch_keys_runs [OF assms(1,3,4,5) render_runs [OF assms(2) k(2,3)] k(1) assms(8)])
  then show ?thesis using keys_good_read by (auto simp: runs_def)
qed

theorem verdict_names_running_witness:
  "\<exists>v h' t. switch (demo_env ''wrong'') demo_cfg demo_host = (Some v, h')
     \<and> says_running (v_summary v) = Some ''aaaaaaaaaaaa'' \<and> keys_read (demo_env ''wrong'') demo_cfg h' = (Inr t, h')
     \<and> running_generation (line_for t (key_blob (panel_pub_of (Some demo_pub)))) = ''aaaaaaaaaaaa''"
proof -
  let ?s = "switch (demo_env ''wrong'') demo_cfg demo_host"
  have "(case fst ?s of Some v \<Rightarrow> says_running (v_summary v) | None \<Rightarrow> None) = Some ''aaaaaaaaaaaa''" by code_simp
  then obtain v h' where s: "?s = (Some v, h')" and g: "says_running (v_summary v) = Some ''aaaaaaaaaaaa''"
    by (cases ?s) (auto split: option.splits)
  from verdict_names_running [OF demo_quiet demo_sha demo_keys_separate demo_link_separate demo_keys_good
      demo_panel_key s g] s g
  show ?thesis by blast
qed

text \<open>C8: an ok verdict means everything is in place. The authorized keys hold the panel's one line for this
  tree's generation, the sudo rule and the sshd rule are this tree's, and neither -next file is
  left, for a host on which the two rule files are not symbolic links.\<close>

theorem switch_ok_in_place:
  assumes "quiet e" and "keys_separate c" and "link_separate c" and "keys_good e c kb h"
    and "not_link SUDOERS h" and "not_link ACCEPTENV h"
    and "host_read (panel_key_path c @ ''.pub'') h = (Inr pub_text, h)"
    and "switch e c h = (Some v, h')" and "v_ok v"
  shows "in_place e c (render c (generation (e_sha e) c) (panel_key_path c) (panel_pub_of pub_text)) h'"
proof -
  have "says_running (v_summary v) \<noteq> None"
    using assms(8,9) by (auto simp: switch_def switch_keys_def verdict_of_def Let_def
        split: option.splits prod.splits sum.splits if_splits dp_error.splits)
  from switch_reaches_keys(1) [OF assms(8) this assms(7)] show ?thesis
    using switch_keys_ok [OF assms(1-6)] assms(9) by blast
qed

theorem switch_ok_in_place_witness:
  "\<exists>v h'. switch (demo_env ''0123456789ab'') demo_cfg demo_settled = (Some v, h') \<and> v_ok v
     \<and> node_at SUDOERS_NEXT h' = None"
proof -
  let ?s = "switch (demo_env ''0123456789ab'') demo_cfg demo_settled"
  have "(case fst ?s of Some v \<Rightarrow> v_ok v | None \<Rightarrow> False)"
    using demo_switch_settled by (simp add: verdict_of_def)
  then obtain v h' where s: "?s = (Some v, h')" and ok: "v_ok v"
    by (cases ?s) (auto split: option.splits)
  have k: "keys_good (demo_env ''0123456789ab'') demo_cfg (Some (r_panel_keys demo_rendered)) demo_settled"
    using demo_settled by (simp add: settled_def in_place_def)
  have "not_link SUDOERS demo_settled" "not_link ACCEPTENV demo_settled" by code_simp+
  from switch_ok_in_place [OF demo_quiet demo_keys_separate demo_link_separate k this demo_settled_panel_key s ok] s ok
  show ?thesis by (auto simp: in_place_def)
qed

text \<open>What is refused before anything happens. A passthrough name of the wrong shape, a panel key
  that is missing or is not one plain ed25519 line, and a keys directory that is missing, is
  not a directory or is not the runner's, each give a verdict that is not ok, and the host is
  unchanged: no file written and no command run.\<close>

theorem switch_refuses_untouched:
  assumes "switch e c h = (Some v, h')" and "says_running (v_summary v) = None"
  shows "\<not> v_ok v \<and> h' = h"
proof -
  have rd: "h1 = h" if "host_read q h = (r, h1)" for q r h1
    using that by (auto simp: host_read_def split: option.splits node.splits)
  have kr: "h1 = h" if "keys_read e c h = (r, h1)" for r h1
    using that by (auto simp: keys_read_def sem_defs split: option.splits node.splits if_splits)
  have sk: "\<not> v_ok v \<and> h' = h" if "switch_keys e c p b h = (Some v, h')" for p b
    using that assms(2) by (auto simp: switch_keys_def verdict_of_def Let_def dest: kr
        split: prod.splits sum.splits dp_error.splits if_splits)
  show ?thesis
    using assms sk by (auto simp: switch_def verdict_of_def Let_def dest!: rd keys_open_same
        split: option.splits prod.splits sum.splits if_splits dp_error.splits)
qed

theorem switch_refuses_untouched_witness:
  "\<exists>v. switch (demo_env ''x'') (demo_cfg\<lparr>passthrough := PList [PStr ''PATH'']\<rparr>) demo_host = (Some v, demo_host) \<and> \<not> v_ok v"
proof -
  have "\<not> name_ok (PStr ''PATH'')" by code_simp
  then have "switch (demo_env ''x'') (demo_cfg\<lparr>passthrough := PList [PStr ''PATH'']\<rparr>) demo_host
    = (Some \<lparr>v_ok = False, v_changed = False, v_generation = [], v_wrote = [],
        v_summary = Bad_Names (Name_Refused (PStr ''PATH''))\<rparr>, demo_host)" (is "?s = (Some ?v, _)")
    by (simp add: switch_def passthrough_problem_def demo_cfg_def)
  from switch_refuses_untouched [OF this] this show ?thesis by auto
qed

text \<open>The names let through are inert in the rules they are written to. Every character of
  the name list of the sudo rule and of the sshd rule is an upper-case letter, an underscore or the
  separating space, and the name that would choose the dispatcher's own action file is not in it.\<close>

theorem passthrough_names_inert:
  assumes "passthrough_problem (passthrough c) = None"
  shows "(\<forall>x \<in> set (join '' '' (names_of c)). is_upper x \<or> x = CHR ''_'' \<or> x = CHR '' '')
    \<and> ''CATENA_ADMIN_ACTIONS_FILE'' \<notin> set (names_of c)"
proof -
  have "name_char x" if "n \<in> set (names_of c)" "x \<in> set n" for n x
    using names_of_chars [OF assms that(1)] that(2) by blast
  moreover have "set (join '' '' (names_of c)) \<subseteq> set '' '' \<union> \<Union> (set (map set (names_of c)))"
    by (rule set_join_chars)
  ultimately have "\<forall>x \<in> set (join '' '' (names_of c)). is_upper x \<or> x = CHR ''_'' \<or> x = CHR '' ''"
    by (fastforce simp: name_char_def)
  moreover have "''CATENA_ADMIN_ACTIONS_FILE'' \<notin> set (names_of c)"
    using names_of_chars [OF assms] by (auto simp: forbidden_names_def)
  ultimately show ?thesis by blast
qed

theorem passthrough_names_inert_witness:
  "names_of demo_cfg = [''CATENA_STEP''] \<and> ''CATENA_ADMIN_ACTIONS_FILE'' \<notin> set (names_of demo_cfg)"
proof -
  have "passthrough_problem (passthrough demo_cfg) = None" by code_simp
  with passthrough_names_inert [of demo_cfg] show ?thesis by (simp add: names_of_def demo_cfg_def)
qed

text \<open>A settled host is left alone. When the generation, the rules, the panel's line and the link are
  this tree's, and nothing else is there to retire, the run says so: its verdict is ok and
  unchanged, no file is written and no command is run.\<close>

theorem settled_switch_changes_nothing:
  assumes "sha_hex (e_sha e)" and "passthrough_problem (passthrough c) = None"
    and "host_read (panel_key_path c @ ''.pub'') h = (Inr pub_text, h)"
    and "panel_key_shape (panel_pub_of pub_text)" and "key_blob (panel_pub_of pub_text) \<noteq> []"
    and "keys_open e c h = (Inr (), h)" and "h_wrote h = []"
    and "settled e c (render c (generation (e_sha e) c) (panel_key_path c) (panel_pub_of pub_text)) h"
  shows "switch e c h = (Some \<lparr>v_ok = True, v_changed = False, v_generation = generation (e_sha e) c,
    v_wrote = [], v_summary = Nothing_To_Change (generation (e_sha e) c)\<rparr>, h)"
  using assms(2-7) switch_keys_settled [OF assms(8,7) render_runs [OF assms(1,4,5)]]
  by (simp add: switch_def Let_def panel_pub_of_def [symmetric] verdict_of_def)
    (simp add: render_def)

theorem settled_switch_changes_nothing_witness:
  "switch (demo_env ''0123456789ab'') demo_cfg demo_settled = (Some \<lparr>v_ok = True, v_changed = False,
     v_generation = ''0123456789ab'', v_wrote = [], v_summary = Nothing_To_Change ''0123456789ab''\<rparr>, demo_settled)"
proof -
  have n: "passthrough_problem (passthrough demo_cfg) = None" by code_simp
  have w: "h_wrote demo_settled = []" by (simp add: demo_settled_def)
  have "settled (demo_env ''0123456789ab'') demo_cfg (render demo_cfg (generation (e_sha (demo_env ''0123456789ab''))
      demo_cfg) (panel_key_path demo_cfg) (panel_pub_of (Some demo_pub))) demo_settled"
    unfolding demo_render by (rule demo_settled)
  from settled_switch_changes_nothing [OF demo_sha n demo_settled_panel_key demo_shape demo_settled_open w this]
  show ?thesis by (simp add: demo_generation)
qed

text \<open>a failed move drops the -next rule, whatever it held. After a failed move the
  file \<open>SUDOERS_NEXT\<close> does not exist. A run that is killed after the switch and before the
  retirement leaves the running generation's rule in that file alone: a later run towards another
  tree that fails then leaves the panel with no rule for the generation it dispatches through.\<close>

theorem failed_move_drops_next:
  assumes "quiet e" and "keys_separate c" and "keys_good e c kb h"
    and "move_path e c p kb h = (Inl x, h')"
  shows "node_at SUDOERS_NEXT h' = None"
  using triple_Inl [OF move_path_keys [OF assms(1,2)] assms(3,4)] by (simp add: rolled_back_def)

theorem failed_move_drops_next_witness:
  "\<exists>x h'. move_path (demo_env ''wrong'') demo_cfg demo_rendered (Some (panel_keys_text ''aaaaaaaaaaaa'' demo_pub)) demo_host
      = (Inl x, h')
    \<and> running_generation (line_for (Some (panel_keys_text ''aaaaaaaaaaaa'' demo_pub)) ''AAAA'') = ''aaaaaaaaaaaa''
    \<and> holds_text SUDOERS_NEXT (sudo_rule ''runner'' (dispatcher_path ''aaaaaaaaaaaa'') [''CATENA_STEP'']) demo_host
    \<and> node_at SUDOERS_NEXT h' = None \<and> node_at SUDOERS h' = None"
proof -
  let ?m = "move_path (demo_env ''wrong'') demo_cfg demo_rendered (Some (panel_keys_text ''aaaaaaaaaaaa'' demo_pub)) demo_host"
  have "case fst ?m of Inl _ \<Rightarrow> True | Inr _ \<Rightarrow> False" by code_simp
  then obtain x h' where m: "?m = (Inl x, h')" by (cases ?m) (auto split: sum.splits)
  have "node_at SUDOERS (snd ?m) = None" by code_simp
  moreover have "running_generation (line_for (Some (panel_keys_text ''aaaaaaaaaaaa'' demo_pub)) ''AAAA'') = ''aaaaaaaaaaaa''"
    "holds_text SUDOERS_NEXT (sudo_rule ''runner'' (dispatcher_path ''aaaaaaaaaaaa'') [''CATENA_STEP'']) demo_host"
    by code_simp+
  ultimately show ?thesis
    using failed_move_drops_next [OF demo_quiet demo_keys_separate demo_keys_good m] m by simp
qed

end
