(* ===== verification/Text_Scan.thy ===== *)
theory Text_Scan
  imports Prelude
begin

text \<open>
  Scanning of text shared by the components that parse image references, tags, headers and
  addresses: the end anchor of \<open>re\<close>, a run of digits, the last occurrence of a separator.
\<close>

section \<open>Definitions\<close>

text \<open>The \<open>$\<close> of \<open>re.match\<close>: at the end, or before a line feed that ends the text.\<close>

definition at_end :: "string \<Rightarrow> bool" where
  "at_end s = (s = [] \<or> s = nl)"

text \<open>\<open>(\d+)\<close>: the longest run of digits, as a number, and what follows.\<close>

definition scan_num :: "string \<Rightarrow> (nat \<times> string) option" where
  "scan_num s = (let d = takeWhile is_digit s in
     if d = [] then None else Some (nat_of_digits 0 d, dropWhile is_digit s))"

definition scan_char :: "char \<Rightarrow> string \<Rightarrow> string option" where
  "scan_char c s = (case s of x # r \<Rightarrow> if x = c then Some r else None | [] \<Rightarrow> None)"

definition opt_char :: "char \<Rightarrow> string \<Rightarrow> string" where
  "opt_char c s = (case s of x # r \<Rightarrow> if x = c then r else s | [] \<Rightarrow> [])"

text \<open>\<open>s.rpartition(c)\<close>: head, whether it was found, tail; without the separator the text is the tail.\<close>

definition rpartition_char :: "char \<Rightarrow> string \<Rightarrow> string \<times> bool \<times> string" where
  "rpartition_char c s =
     (if c \<in> set s
      then (rev (drop 1 (dropWhile (\<lambda>x. x \<noteq> c) (rev s))), True, rev (takeWhile (\<lambda>x. x \<noteq> c) (rev s)))
      else ([], False, s))"

text \<open>\<open>s.removeprefix(p)\<close>.\<close>

definition removeprefix :: "string \<Rightarrow> string \<Rightarrow> string" where
  "removeprefix p s = (if prefix p s then drop (length p) s else s)"

section \<open>URLs\<close>

text \<open>\<open>urlencode\<close>: \<open>quote_plus\<close> of the UTF-8 bytes of each key and value.\<close>

definition hex_upper :: "nat \<Rightarrow> char" where
  "hex_upper n = (if n < 10 then char_of (48 + n) else char_of (55 + n))"

definition pct :: "nat \<Rightarrow> string" where
  "pct n = [CHR ''%'', hex_upper (n div 16), hex_upper (n mod 16)]"

definition quote_plus :: "string \<Rightarrow> string" where
  "quote_plus s = concat (map (\<lambda>c. let n = of_char c :: nat in
     if is_alnum c \<or> c = CHR ''_'' \<or> c = CHR ''.'' \<or> c = CHR ''-'' \<or> c = CHR ''~'' then [c]
     else if c = CHR '' '' then ''+''
     else if n < 128 then pct n
     else pct (192 + n div 64) @ pct (128 + n mod 64)) s)"

definition urlencode :: "(string \<times> string) list \<Rightarrow> string" where
  "urlencode d = join ''&'' (map (\<lambda>(k, v). quote_plus k @ ''='' @ quote_plus v) d)"

text \<open>\<open>urllib.parse.quote\<close>: the slash stays.\<close>

definition url_quote :: "string \<Rightarrow> string" where
  "url_quote s = concat (map (\<lambda>c. let n = of_char c :: nat in
     if is_alnum c \<or> c \<in> set ''_.-~/'' then [c]
     else if n < 128 then pct n
     else pct (192 + n div 64) @ pct (128 + n mod 64)) s)"

text \<open>\<open>s.encode()\<close>, the bytes of the UTF-8 form.\<close>

definition utf8 :: "string \<Rightarrow> nat list" where
  "utf8 s = concat (map (\<lambda>c. let n = of_char c in if n < 128 then [n] else [192 + n div 64, 128 + n mod 64]) s)"

definition scheme_char :: "char \<Rightarrow> bool" where
  "scheme_char c = (is_alnum c \<or> c = CHR ''+'' \<or> c = CHR ''-'' \<or> c = CHR ''.'')"

text \<open>\<open>urlsplit\<close>: the scheme and the network location.\<close>

definition url_scheme :: "string \<Rightarrow> string" where
  "url_scheme url = (case partition_char (CHR '':'') url of (s, found, _) \<Rightarrow>
     if found \<and> s \<noteq> [] \<and> is_alpha (hd s) \<and> list_all scheme_char s then lower s else [])"

section \<open>Laws\<close>

lemma nat_of_digits_append: "nat_of_digits n (s @ t) = nat_of_digits (nat_of_digits n s) t"
  by (induction s arbitrary: n) auto

lemma nat_of_digits_dec [str_simps]: "nat_of_digits 0 (dec_nat n) = n"
proof (induction n rule: dec_nat.induct)
  case (1 n)
  show ?case
  proof (cases "n < 10")
    case True
    then show ?thesis by (subst dec_nat.simps) (simp add: of_char_of)
  next
    case False
    with 1 show ?thesis
      by (subst dec_nat.simps) (simp add: nat_of_digits_append of_char_of)
  qed
qed

text \<open>A number that is printed and followed by anything but a digit is read back.\<close>

lemma scan_num_dec [str_simps]:
  assumes "r = [] \<or> \<not> is_digit (hd r)"
  shows "scan_num (dec_nat n @ r) = Some (n, r)"
proof -
  have tw: "takeWhile is_digit (dec_nat n @ r) = dec_nat n" "dropWhile is_digit (dec_nat n @ r) = r"
    using dec_nat_digits [of n] assms by (cases r; simp add: takeWhile_append2 dropWhile_append2)+
  then show ?thesis by (simp add: scan_num_def nat_of_digits_dec dec_nat_nonempty)
qed

lemma rpartition_char_join:
  assumes "rpartition_char c s = (a, True, b)"
  shows "s = a @ c # b \<and> c \<notin> set b"
proof -
  let ?r = "rev s"
  from assms have c: "c \<in> set s" and a: "a = rev (drop 1 (dropWhile (\<lambda>x. x \<noteq> c) ?r))"
    and b: "b = rev (takeWhile (\<lambda>x. x \<noteq> c) ?r)"
    by (auto simp: rpartition_char_def split: if_splits)
  have "dropWhile (\<lambda>x. x \<noteq> c) ?r \<noteq> []" using c by (auto simp: dropWhile_eq_Nil_conv)
  then obtain t where t: "dropWhile (\<lambda>x. x \<noteq> c) ?r = c # t"
    using hd_dropWhile [of "\<lambda>x. x \<noteq> c" ?r] by (cases "dropWhile (\<lambda>x. x \<noteq> c) ?r") auto
  have "?r = takeWhile (\<lambda>x. x \<noteq> c) ?r @ c # t" using t by (metis takeWhile_dropWhile_id)
  then have "s = rev t @ c # rev (takeWhile (\<lambda>x. x \<noteq> c) ?r)" by (metis rev_append rev_rev_ident rev.simps(2) append.assoc append_Cons append_Nil)
  moreover have "c \<notin> set b" unfolding b by (auto dest: set_takeWhileD)
  ultimately show ?thesis using a b t by simp
qed

lemma rpartition_char_append: "c \<notin> set b \<Longrightarrow> rpartition_char c (a @ c # b) = (a, True, b)"
proof -
  assume "c \<notin> set b"
  then have "\<forall>x \<in> set (rev b). x \<noteq> c" by auto
  then have "takeWhile (\<lambda>x. x \<noteq> c) (rev b @ c # rev a) = rev b"
    "dropWhile (\<lambda>x. x \<noteq> c) (rev b @ c # rev a) = c # rev a"
    by (subst takeWhile_append2, auto, subst dropWhile_append2, auto)
  then show ?thesis by (simp add: rpartition_char_def)
qed

end
