(* ===== verification/Image_Pin.thy ===== *)
theory Image_Pin
  imports Text_Scan
begin

text \<open>
  Which image a service runs: \<open>src/ansible/playbooks/filter_plugins/image_pin.py\<close>, the filter
  that resolves a shipped reference against the pins the update lane recorded, and the choice of
  the newest release tag in \<open>src/ansible/helpers/catena_admin_release.py\<close>. A character is below
  256, where the digits of \<open>re\<close> are the ten ASCII ones.
\<close>

section \<open>References\<close>

text \<open>\<open>_split_ref\<close> of a text: the repository and the tag, the tag empty when there is none.\<close>

definition cut_digest :: "string \<Rightarrow> string" where
  "cut_digest ref = takeWhile (\<lambda>c. c \<noteq> CHR ''@'') ref"

definition split_ref :: "string \<Rightarrow> string \<times> string" where
  "split_ref ref0 =
     (if strip ref0 = [] then ([], [])
      else (let ref = cut_digest (strip ref0) in
        case rpartition_char (CHR '':'') ref of
          (repo, found, tag) \<Rightarrow> if \<not> found \<or> CHR ''/'' \<in> set tag then (ref, []) else (repo, tag)))"

section \<open>Tags\<close>

text \<open>\<open>_MAJOR_MINOR.match\<close>: major, minor and the suffix if there is one.\<close>

definition major_minor :: "string \<Rightarrow> (nat \<times> nat \<times> string option) option" where
  "major_minor tag =
     Option.bind (scan_num tag) (\<lambda>(major, r1).
     Option.bind (scan_char (CHR ''.'') r1) (\<lambda>r2.
     Option.bind (scan_num r2) (\<lambda>(minor, r3).
       if at_end r3 then Some (major, minor, None)
       else Option.bind (scan_char (CHR ''-'') r3) (\<lambda>r4.
         let suf = takeWhile is_alnum r4 in
         if suf \<noteq> [] \<and> is_alpha (hd suf) \<and> at_end (dropWhile is_alnum r4)
         then Some (major, minor, Some suf) else None))))"

definition bare_major_minor :: "string \<Rightarrow> (nat \<times> nat) option" where
  "bare_major_minor tag =
     Option.bind (scan_num (opt_char (CHR ''v'') tag)) (\<lambda>(major, r1).
     Option.bind (scan_char (CHR ''.'') r1) (\<lambda>r2.
     Option.bind (scan_num r2) (\<lambda>(minor, r3). if at_end r3 then Some (major, minor) else None)))"

text \<open>\<open>(?:[-+](.+))?$\<close>: the suffix, empty when there is none.\<close>

definition semver_suffix :: "string \<Rightarrow> string option" where
  "semver_suffix r =
     (if at_end r then Some []
      else case r of
        c # s \<Rightarrow> (let t = takeWhile (\<lambda>x. x \<noteq> CHR 0x0A) s in
          if (c = CHR ''-'' \<or> c = CHR ''+'') \<and> t \<noteq> [] \<and> at_end (drop (length t) s) then Some t else None)
      | [] \<Rightarrow> None)"

definition semver :: "string \<Rightarrow> (nat \<times> nat \<times> nat \<times> nat \<times> string) option" where
  "semver tag =
     Option.bind (scan_num (opt_char (CHR ''v'') tag)) (\<lambda>(major, r1).
     Option.bind (scan_char (CHR ''.'') r1) (\<lambda>r2.
     Option.bind (scan_num r2) (\<lambda>(minor, r3).
     Option.bind (scan_char (CHR ''.'') r3) (\<lambda>r4.
     Option.bind (scan_num r4) (\<lambda>(patch, r5).
       case Option.bind (scan_char (CHR ''.'') r5) scan_num of
         Some (build, r6) \<Rightarrow> map_option (\<lambda>s. (major, minor, patch, build, s)) (semver_suffix r6)
       | None \<Rightarrow> map_option (\<lambda>s. (major, minor, patch, 0, s)) (semver_suffix r5))))))"

datatype family = Semver | Major_Minor nat string

text \<open>A sortable key: the numbers of the tuple, and the text it ends with.\<close>

datatype tag_key = Tag_Key "nat list" string

fun key_numbers :: "tag_key \<Rightarrow> nat list" where "key_numbers (Tag_Key ns s) = ns"
fun key_text :: "tag_key \<Rightarrow> string" where "key_text (Tag_Key ns s) = s"

text \<open>Tuples compare by their first difference; a text by its first differing character.\<close>

instantiation tag_key :: linorder
begin

definition less_tag_key :: "tag_key \<Rightarrow> tag_key \<Rightarrow> bool" where
  "less_tag_key a b = (key_numbers a < key_numbers b \<or> key_numbers a = key_numbers b \<and> key_text a < key_text b)"

definition less_eq_tag_key :: "tag_key \<Rightarrow> tag_key \<Rightarrow> bool" where
  "less_eq_tag_key a b = (key_numbers a < key_numbers b \<or> key_numbers a = key_numbers b \<and> key_text a \<le> key_text b)"

instance
proof
  fix a b c :: tag_key
  show "(a < b) = (a \<le> b \<and> \<not> b \<le> a)" by (auto simp: less_tag_key_def less_eq_tag_key_def)
  show "a \<le> a" by (simp add: less_eq_tag_key_def)
  show "a \<le> b \<Longrightarrow> b \<le> c \<Longrightarrow> a \<le> c" by (auto simp: less_eq_tag_key_def)
  show "a \<le> b \<Longrightarrow> b \<le> a \<Longrightarrow> a = b" by (cases a; cases b) (auto simp: less_eq_tag_key_def)
  show "a \<le> b \<or> b \<le> a" by (auto simp: less_eq_tag_key_def)
qed

end

definition order_of :: "string \<Rightarrow> (family \<times> tag_key) option" where
  "order_of tag =
     (case major_minor tag of
        Some (major, minor, Some suf) \<Rightarrow> Some (Major_Minor major suf, Tag_Key [minor] [])
      | _ \<Rightarrow> (case bare_major_minor tag of
          Some (major, minor) \<Rightarrow> Some (Semver, Tag_Key [major, minor, 0, 0, 1] [])
        | None \<Rightarrow> (case semver tag of
            None \<Rightarrow> None
          | Some (major, minor, patch, build, suf) \<Rightarrow>
              Some (Semver, Tag_Key [major, minor, patch, build, if suf \<noteq> [] then 0 else 1] suf))))"

section \<open>The pin\<close>

definition catena_image_pinned :: "py \<Rightarrow> string \<Rightarrow> string" where
  "catena_image_pinned pins repository =
     (case pins of
        PDict d \<Rightarrow> (case dget d repository of
            PStr pin_ref \<Rightarrow>
              if strip pin_ref = [] then []
              else if fst (split_ref pin_ref) \<noteq> repository \<or> order_of (snd (split_ref pin_ref)) = None then []
              else pin_ref
          | _ \<Rightarrow> [])
      | _ \<Rightarrow> [])"

datatype pin_error = Needs_Image py

definition catena_image_pin :: "py \<Rightarrow> py \<Rightarrow> pin_error + string" where
  "catena_image_pin default_ref pins =
     (case default_ref of
        PStr ref \<Rightarrow>
          if strip ref = [] then Inl (Needs_Image default_ref)
          else
            (let (repo, floor_tag) = split_ref ref; pin_ref = catena_image_pinned pins repo in
             if pin_ref = [] then Inr ref
             else case order_of floor_tag of
                None \<Rightarrow> Inr ref
              | Some (floor_family, floor_key) \<Rightarrow>
                  (case order_of (snd (split_ref pin_ref)) of
                     None \<Rightarrow> Inr ref
                   | Some (pin_family, pin_key) \<Rightarrow>
                       if pin_family \<noteq> floor_family then Inr ref
                       else if floor_key < pin_key then Inr pin_ref else Inr ref))
      | _ \<Rightarrow> Inl (Needs_Image default_ref))"

section \<open>The newest release\<close>

text \<open>\<open>_RELEASE_TAG.match\<close>.\<close>

definition release_tag :: "string \<Rightarrow> nat list option" where
  "release_tag tag =
     Option.bind (scan_num (opt_char (CHR ''v'') tag)) (\<lambda>(major, r1).
     Option.bind (scan_char (CHR ''.'') r1) (\<lambda>r2.
     Option.bind (scan_num r2) (\<lambda>(minor, r3).
     Option.bind (scan_char (CHR ''.'') r3) (\<lambda>r4.
     Option.bind (scan_num r4) (\<lambda>(patch, r5). if at_end r5 then Some [major, minor, patch] else None)))))"

fun newest_from :: "string \<times> nat list option \<Rightarrow> string list \<Rightarrow> string \<times> nat list option" where
  "newest_from best [] = best"
| "newest_from (best, best_key) (tag # tags) =
     (case release_tag (strip tag) of
        None \<Rightarrow> newest_from (best, best_key) tags
      | Some key \<Rightarrow>
          if (case best_key of None \<Rightarrow> True | Some k \<Rightarrow> k < key)
          then newest_from (strip tag, Some key) tags
          else newest_from (best, best_key) tags)"

definition newest_release :: "string list \<Rightarrow> string" where
  "newest_release tags = fst (newest_from ([], None) tags)"

section \<open>A pin against a floor\<close>

text \<open>
  The contract of a resolution: values with a family and a rank, some of them incomparable; the
  resolved value is the challenger when it is of the same family and ranks above, else the floor.
\<close>

locale ranked =
  fixes rank :: "'a \<Rightarrow> ('f \<times> 'k::linorder) option"
    and resolve :: "'a \<Rightarrow> 'a \<Rightarrow> 'a"
  assumes resolve_above: "resolve floor chal = chal \<or> resolve floor chal = floor"
    and resolve_newer: "resolve floor chal \<noteq> floor \<Longrightarrow>
      \<exists>f k l. rank floor = Some (f, k) \<and> rank chal = Some (f, l) \<and> k < l"
    and resolve_takes: "rank floor = Some (f, k) \<Longrightarrow> rank chal = Some (f, l) \<Longrightarrow> k < l \<Longrightarrow> resolve floor chal = chal"
begin

definition at_least :: "'a \<Rightarrow> 'a \<Rightarrow> bool" where
  "at_least x floor = (x = floor \<or> (\<exists>f k l. rank floor = Some (f, k) \<and> rank x = Some (f, l) \<and> k \<le> l))"

lemma at_least_trans: "at_least x y \<Longrightarrow> at_least y z \<Longrightarrow> at_least x z"
  unfolding at_least_def by (metis order_trans option.inject prod.inject)

lemma never_downgrades: "at_least (resolve floor chal) floor"
  using resolve_above [of floor chal] resolve_newer [of floor chal]
  unfolding at_least_def by (metis less_imp_le)

lemma keeps_newer:
  assumes "rank floor = Some (f, k)" and "rank chal = Some (f, l)"
  shows "at_least (resolve floor chal) chal"
proof (cases "k < l")
  case True
  then show ?thesis using resolve_takes [OF assms] by (simp add: at_least_def)
next
  case False
  have "resolve floor chal = floor \<or> resolve floor chal = chal" using resolve_above by blast
  with assms False show ?thesis by (auto simp: at_least_def)
qed

lemma resolve_idem: "resolve (resolve floor chal) chal = resolve floor chal"
  using resolve_above [of floor chal] resolve_above [of chal chal] by (metis)

end

text \<open>The rank of a reference, and the filter as a function of the shipped reference and the usable pin.\<close>

definition ref_rank :: "string \<Rightarrow> (family \<times> tag_key) option" where
  "ref_rank ref = order_of (snd (split_ref ref))"

definition max_ref :: "string \<Rightarrow> string \<Rightarrow> string" where
  "max_ref ref pin_ref =
     (case (ref_rank ref, ref_rank pin_ref) of
        (Some (f, k), Some (g, l)) \<Rightarrow> if g = f \<and> k < l then pin_ref else ref
      | _ \<Rightarrow> ref)"

interpretation img: ranked ref_rank max_ref
proof
  fix a b :: string and f :: family and k l :: tag_key
  show "max_ref a b = b \<or> max_ref a b = a" by (auto simp: max_ref_def split: option.splits)
  show "max_ref a b \<noteq> a \<Longrightarrow> \<exists>f k l. ref_rank a = Some (f, k) \<and> ref_rank b = Some (f, l) \<and> k < l"
    by (auto simp: max_ref_def split: option.splits if_splits)
  show "ref_rank a = Some (f, k) \<Longrightarrow> ref_rank b = Some (f, l) \<Longrightarrow> k < l \<Longrightarrow> max_ref a b = b"
    by (simp add: max_ref_def)
qed

lemma image_pin_max:
  "catena_image_pin (PStr ref) pins =
     (if strip ref = [] then Inl (Needs_Image (PStr ref))
      else Inr (let pin_ref = catena_image_pinned pins (fst (split_ref ref)) in
                if pin_ref = [] then ref else max_ref ref pin_ref))"
  by (auto simp: catena_image_pin_def max_ref_def ref_rank_def Let_def case_prod_beta split: option.splits)

lemma pinned_usable:
  assumes "catena_image_pinned pins repository = pin" and "pin \<noteq> []"
  shows "fst (split_ref pin) = repository" and "ref_rank pin \<noteq> None" and "strip pin \<noteq> []"
    and "\<exists>d. pins = PDict d \<and> dget d repository = PStr pin"
  using assms by (auto simp: catena_image_pinned_def ref_rank_def split: py.splits if_splits)

section \<open>The newest release tag\<close>

text \<open>What the loop has found: the best tag so far is a release tag that none of those seen beats.\<close>

definition best_so_far :: "string list \<Rightarrow> string \<times> nat list option \<Rightarrow> bool" where
  "best_so_far seen b =
     (case snd b of
        None \<Rightarrow> fst b = [] \<and> (\<forall>t \<in> set seen. release_tag (strip t) = None)
      | Some k \<Rightarrow> release_tag (fst b) = Some k \<and> fst b \<in> strip ` set seen
          \<and> (\<forall>t \<in> set seen. \<forall>j. release_tag (strip t) = Some j \<longrightarrow> j \<le> k))"

lemma newest_from_best:
  "best_so_far seen b \<Longrightarrow> best_so_far (seen @ tags) (newest_from b tags)"
proof (induction tags arbitrary: seen b)
  case (Cons tag tags)
  obtain best best_key where b: "b = (best, best_key)" by (cases b)
  let ?b = "case release_tag (strip tag) of None \<Rightarrow> (best, best_key)
     | Some key \<Rightarrow> if (case best_key of None \<Rightarrow> True | Some k \<Rightarrow> k < key) then (strip tag, Some key) else (best, best_key)"
  have "best_so_far (seen @ [tag]) ?b"
    using Cons.prems unfolding b
    by (auto simp: best_so_far_def not_less less_imp_le split: option.splits intro: order.trans)
  from Cons.IH [OF this] have "best_so_far (seen @ tag # tags) (newest_from ?b tags)" by simp
  moreover have "newest_from b (tag # tags) = newest_from ?b tags"
    unfolding b by (auto split: option.splits)
  ultimately show ?case by simp
qed simp

lemma newest_release_best:
  "\<exists>k. best_so_far tags (newest_release tags, k)"
  using newest_from_best [of "[]" "([], None)" tags]
  by (auto simp: newest_release_def best_so_far_def [of "[]"] intro: exI [of _ "snd (newest_from ([], None) tags)"])

section \<open>Version tags\<close>

definition version_tag :: "nat \<Rightarrow> nat \<Rightarrow> nat \<Rightarrow> string \<Rightarrow> string" where
  "version_tag a b c rest = dec_nat a @ ''.'' @ dec_nat b @ ''.'' @ dec_nat c @ rest"

lemma dec_nat_hd_digit: "is_digit (hd (dec_nat n @ r))" "is_digit (hd (dec_nat n))"
  using dec_nat_digits [of n] dec_nat_nonempty [of n] by (cases "dec_nat n"; simp)+

lemma opt_v_digit: "is_digit (hd s) \<Longrightarrow> s \<noteq> [] \<Longrightarrow> opt_char (CHR ''v'') s = s"
  by (cases s) (auto simp: opt_char_def is_digit_def)

lemma not_digits [simp]: "\<not> is_digit (CHR ''.'')" "\<not> is_digit (CHR ''-'')" "\<not> is_digit (CHR ''+'')"
  by (simp_all add: is_digit_def)

lemma scan_version:
  "scan_num (version_tag a b c rest) = Some (a, CHR ''.'' # dec_nat b @ CHR ''.'' # dec_nat c @ rest)"
  "scan_num (dec_nat b @ CHR ''.'' # dec_nat c @ rest) = Some (b, CHR ''.'' # dec_nat c @ rest)"
  by (simp_all add: version_tag_def scan_num_dec)

lemma order_version:
  assumes "rest = [] \<or> \<not> is_digit (hd rest) \<and> hd rest \<noteq> CHR ''.''"
  shows "order_of (version_tag a b c rest) =
    map_option (\<lambda>s. (Semver, Tag_Key [a, b, c, 0, if s \<noteq> [] then 0 else 1] s)) (semver_suffix rest)"
proof -
  let ?t = "version_tag a b c rest"
  have v: "opt_char (CHR ''v'') ?t = ?t"
    by (rule opt_v_digit) (auto simp: version_tag_def dec_nat_hd_digit dec_nat_nonempty)
  have c: "scan_num (dec_nat c @ rest) = Some (c, rest)" using assms by (intro scan_num_dec) auto
  have "major_minor ?t = None"
    by (simp add: major_minor_def scan_version scan_char_def at_end_def nl_def)
  moreover have "bare_major_minor ?t = None"
    by (simp add: bare_major_minor_def v scan_version scan_char_def at_end_def nl_def)
  moreover have "semver ?t = map_option (\<lambda>s. (a, b, c, 0, s)) (semver_suffix rest)"
    using assms by (auto simp: semver_def v scan_version scan_char_def c split: list.split)
  ultimately show ?thesis by (cases "semver_suffix rest") (simp_all add: order_of_def)
qed

section \<open>Properties\<close>

text \<open>The image a host runs is the newer of the shipped one and the pin. The filter refuses only an
  empty reference; what it returns is the shipped reference, or a pin recorded under its repository
  that names that repository, is comparable and is of the same family and strictly newer; and when
  a usable pin of the same family is newer, it is the pin.\<close>

theorem image_pin_newer:
  assumes "strip ref \<noteq> []"
  shows "\<exists>out. catena_image_pin (PStr ref) pins = Inr out
    \<and> (out \<noteq> ref \<longrightarrow> (\<exists>d f k l. pins = PDict d \<and> dget d (fst (split_ref ref)) = PStr out
          \<and> fst (split_ref out) = fst (split_ref ref)
          \<and> ref_rank ref = Some (f, k) \<and> ref_rank out = Some (f, l) \<and> k < l))
    \<and> (\<forall>pin f k l. catena_image_pinned pins (fst (split_ref ref)) = pin \<and> pin \<noteq> []
          \<and> ref_rank ref = Some (f, k) \<and> ref_rank pin = Some (f, l) \<and> k < l \<longrightarrow> out = pin)"
proof -
  define pin where "pin = catena_image_pinned pins (fst (split_ref ref))"
  define out where "out = (if pin = [] then ref else max_ref ref pin)"
  have out: "catena_image_pin (PStr ref) pins = Inr out"
    using assms by (simp add: image_pin_max out_def pin_def)
  have "\<exists>d f k l. pins = PDict d \<and> dget d (fst (split_ref ref)) = PStr out
      \<and> fst (split_ref out) = fst (split_ref ref)
      \<and> ref_rank ref = Some (f, k) \<and> ref_rank out = Some (f, l) \<and> k < l" if "out \<noteq> ref"
  proof -
    from that have p: "pin \<noteq> []" "max_ref ref pin \<noteq> ref" by (auto simp: out_def split: if_splits)
    then have "out = pin" using img.resolve_above [of ref pin] by (auto simp: out_def)
    then show ?thesis
      using pinned_usable [OF pin_def [symmetric] p(1)] img.resolve_newer [OF p(2)] by auto
  qed
  moreover have "out = q" if "q = pin" "q \<noteq> []" "ref_rank ref = Some (f, k)" "ref_rank q = Some (f, l)" "k < l" for q f k l
    using that img.resolve_takes by (simp add: out_def)
  ultimately show ?thesis using out pin_def by blast
qed

theorem image_pin_newer_witness:
  "catena_image_pin (PStr ''postgres:18.7-trixie'') (PDict [(''postgres'', PStr ''postgres:18.9-trixie'')])
    = Inr ''postgres:18.9-trixie''
   \<and> catena_image_pin (PStr ''postgres:18.7-trixie'') (PDict [(''postgres'', PStr ''postgres:19.1-trixie'')])
    = Inr ''postgres:18.7-trixie''"
proof -
  have s: "strip ''postgres:18.7-trixie'' \<noteq> []" by code_simp
  have r: "catena_image_pinned (PDict [(''postgres'', PStr ''postgres:18.9-trixie'')]) (fst (split_ref ''postgres:18.7-trixie''))
      = ''postgres:18.9-trixie''"
    "ref_rank ''postgres:18.7-trixie'' = Some (Major_Minor 18 ''trixie'', Tag_Key [7] [])"
    "ref_rank ''postgres:18.9-trixie'' = Some (Major_Minor 18 ''trixie'', Tag_Key [9] [])" by code_simp+
  have "Tag_Key [7] [] < Tag_Key [9] []" by code_simp
  with r have "catena_image_pin (PStr ''postgres:18.7-trixie'') (PDict [(''postgres'', PStr ''postgres:18.9-trixie'')])
    = Inr ''postgres:18.9-trixie''"
    using image_pin_newer [OF s, of "PDict [(''postgres'', PStr ''postgres:18.9-trixie'')]"] by (metis list.discI)
  moreover have "catena_image_pin (PStr ''postgres:18.7-trixie'') (PDict [(''postgres'', PStr ''postgres:19.1-trixie'')])
    = Inr ''postgres:18.7-trixie''" by code_simp
  ultimately show ?thesis by simp
qed

text \<open>resolving again changes nothing, and no resolution is older than what was shipped. With the
  same pins, the filter applied to its own result returns that result.\<close>

theorem image_pin_stable:
  assumes "catena_image_pin (PStr ref) pins = Inr out"
  shows "catena_image_pin (PStr out) pins = Inr out \<and> img.at_least out ref"
proof -
  define pin where "pin = catena_image_pinned pins (fst (split_ref ref))"
  have s: "strip ref \<noteq> []" and o: "out = (if pin = [] then ref else max_ref ref pin)"
    using assms by (auto simp: image_pin_max pin_def Let_def split: if_splits)
  have "img.at_least out ref"
    using img.never_downgrades by (simp add: o img.at_least_def)
  moreover have "catena_image_pin (PStr out) pins = Inr out"
  proof (cases "out = ref")
    case True
    then show ?thesis using assms by simp
  next
    case False
    then have p: "pin \<noteq> []" "out = pin" using o img.resolve_above [of ref pin] by (auto split: if_splits)
    note u = pinned_usable [OF pin_def [symmetric] p(1)]
    have "max_ref pin pin = pin" using img.resolve_above [of pin pin] by simp
    then show ?thesis using u p pin_def by (simp add: image_pin_max Let_def)
  qed
  ultimately show ?thesis by blast
qed

theorem image_pin_stable_witness:
  "catena_image_pin (PStr ''a/b:v1.2.9'') (PDict [(''a/b'', PStr ''a/b:v1.2.9'')]) = Inr ''a/b:v1.2.9''"
proof -
  have "catena_image_pin (PStr ''a/b:v1.2.3'') (PDict [(''a/b'', PStr ''a/b:v1.2.9'')]) = Inr ''a/b:v1.2.9''" by code_simp
  from image_pin_stable [OF this] show ?thesis by blast
qed

text \<open>the order of release tags. A tag \<open>vX.Y.Z\<close> is read back as its three numbers with the build 0; a
  pre-release of it sorts below it, and it sorts below the release of the next patch, minor or major
  version.\<close>

theorem tag_order_releases:
  "order_of (version_tag a b c []) = Some (Semver, Tag_Key [a, b, c, 0, 1] [])
   \<and> (\<forall>pre. pre \<noteq> [] \<and> CHR 0x0A \<notin> set pre \<longrightarrow>
        (\<exists>k. order_of (version_tag a b c (CHR ''-'' # pre)) = Some (Semver, k) \<and> k < Tag_Key [a, b, c, 0, 1] []))
   \<and> Tag_Key [a, b, c, 0, 1] [] < Tag_Key [a, b, Suc c, 0, 1] []
   \<and> Tag_Key [a, b, c, 0, 1] [] < Tag_Key [a, Suc b, 0, 0, 1] []
   \<and> Tag_Key [a, b, c, 0, 1] [] < Tag_Key [Suc a, 0, 0, 0, 1] []"
proof -
  have "semver_suffix [] = Some []" by (simp add: semver_suffix_def at_end_def)
  moreover have "semver_suffix (CHR ''-'' # pre) = Some pre" if "pre \<noteq> []" "CHR 0x0A \<notin> set pre" for pre
  proof -
    have tw: "takeWhile (\<lambda>x. x \<noteq> CHR 0x0A) pre = pre" using that(2) by (auto simp: takeWhile_eq_all_conv)
    show ?thesis using that(1) by (simp add: semver_suffix_def at_end_def nl_def Let_def tw)
  qed
  ultimately show ?thesis by (auto simp: order_version less_tag_key_def)
qed

theorem tag_order_releases_witness:
  "\<exists>k. order_of (version_tag 3 8 0 ''-rc1'') = Some (Semver, k) \<and> k < Tag_Key [3, 8, 0, 0, 1] []"
  using tag_order_releases [of 3 8 0] by simp

text \<open>The newest release. \<open>newest_release\<close> gives a tag of the list, stripped, that is a release tag
  and that no release tag of the list exceeds; it is empty exactly when the list has none.\<close>

theorem newest_release_newest:
  "if \<exists>t \<in> set tags. release_tag (strip t) \<noteq> None
   then \<exists>k. release_tag (newest_release tags) = Some k \<and> newest_release tags \<in> strip ` set tags
          \<and> (\<forall>t \<in> set tags. \<forall>j. release_tag (strip t) = Some j \<longrightarrow> j \<le> k)
   else newest_release tags = []"
  using newest_release_best [of tags] by (auto simp: best_so_far_def split: option.splits)

theorem newest_release_newest_witness:
  "newest_release [''latest'', ''v1.9.0'', ''v1.10.0'', ''v2.0.0-rc1''] = ''v1.10.0''
   \<and> (\<exists>k. release_tag (newest_release [''latest'', ''v1.9.0'', ''v1.10.0'', ''v2.0.0-rc1'']) = Some k)"
proof -
  have "\<exists>t \<in> set [''latest'', ''v1.9.0'', ''v1.10.0'', ''v2.0.0-rc1'']. release_tag (strip t) \<noteq> None" by code_simp
  with newest_release_newest [of "[''latest'', ''v1.9.0'', ''v1.10.0'', ''v2.0.0-rc1'']"]
  have "\<exists>k. release_tag (newest_release [''latest'', ''v1.9.0'', ''v1.10.0'', ''v2.0.0-rc1'']) = Some k" by auto
  moreover have "newest_release [''latest'', ''v1.9.0'', ''v1.10.0'', ''v2.0.0-rc1''] = ''v1.10.0''" by code_simp
  ultimately show ?thesis by blast
qed

end
