(* ===== verification/Os_Files.thy ===== *)
theory Os_Files
  imports Text_Scan
begin

unbundle bit_operations_syntax

text \<open>
  A file system as the operating system sees it: nodes at absolute paths, and system calls that
  resolve a path by following the symbolic links on the way, at most 40 of them, the way the
  kernel does. The components that unpack archives call these operations.
\<close>

section \<open>Nodes and path resolution\<close>

datatype fnode = FReg string int | FDir int | FLink string

type_synonym path = "string list"
type_synonym fs = "(path \<times> fnode) list"

definition node :: "fs \<Rightarrow> path \<Rightarrow> fnode option" where
  "node fs p = (if p = [] then Some (FDir 493) else map_of fs p)"

definition is_dir :: "fs \<Rightarrow> path \<Rightarrow> bool" where
  "is_dir fs p = (case node fs p of Some (FDir _) \<Rightarrow> True | _ \<Rightarrow> False)"

definition absolute :: "string \<Rightarrow> bool" where
  "absolute s = (case s of c # _ \<Rightarrow> c = CHR ''/'' | [] \<Rightarrow> False)"

definition names :: "string \<Rightarrow> string list" where
  "names s = split_char (CHR ''/'') s"

text \<open>
  The walk: from a directory already reached, through the names still to go. A name that is a link
  is replaced by the names of its target; \<open>..\<close> at the root stays there. Only the last name may be
  missing or be something other than a directory. A 41st link gives up.
\<close>

function walk :: "nat \<Rightarrow> fs \<Rightarrow> path \<Rightarrow> string list \<Rightarrow> path option" where
  "walk hops fs here [] = Some here"
| "walk hops fs here (p # ps) =
     (if p = [] \<or> p = ''.'' then walk hops fs here ps
      else if p = ''..'' then walk hops fs (butlast here) ps
      else case node fs (here @ [p]) of
        Some (FDir _) \<Rightarrow> walk hops fs (here @ [p]) ps
      | Some (FLink t) \<Rightarrow>
          (case hops of 0 \<Rightarrow> None
           | Suc h \<Rightarrow> walk h fs (if absolute t then [] else here) (names t @ ps))
      | _ \<Rightarrow> if ps = [] then Some (here @ [p]) else None)"
  by pat_completeness auto
termination by (relation "(\<lambda>(h, fs, here, ps). h) <*mlex*> (\<lambda>(h, fs, here, ps). length ps) <*mlex*> {}")
    (auto simp: wf_mlex mlex_less mlex_leq mlex_iff)

definition max_hops :: nat where "max_hops = 40"

text \<open>Where a path is, its last name not followed.\<close>

definition locate :: "fs \<Rightarrow> path \<Rightarrow> path option" where
  "locate fs p =
     (if p = [] then Some []
      else case walk max_hops fs [] (butlast p) of
        None \<Rightarrow> None
      | Some d \<Rightarrow> if \<not> is_dir fs d then None
                  else if last p = ''..'' then Some (butlast d) else Some (d @ [last p]))"

section \<open>System calls\<close>

datatype fetch_error =
    Os_Error
  | Absolute_Member string
  | Climbing_Member string
  | No_Such_Path string
  | Through_Symlink string
  | Link_Outside string
  | Link_Missing string
  | No_Directory string
  | Escaping_Link path
  | Http_Error int "(string \<times> string) list"
  | Net_Error
  | Cut_Short
  | Bad_Url string
  | Too_Many_Redirects
  | Empty_Reference
  | Bad_Digest string
  | Not_A_Reference string
  | Not_An_Object
  | Not_Json
  | No_Release string
  | No_Repository
  | No_Realm
  | No_Token
  | Unresolved string
  | Wrong_Hash string
  | Bad_Platform string
  | No_Platform string
  | Bad_Layer string
  | Bad_Manifest
  | Not_Tar
  | Type_Failure

type_synonym 'a fstep = "(fs, fetch_error, 'a) sem"

definition put_at :: "path \<Rightarrow> fnode \<Rightarrow> fs \<Rightarrow> fs" where
  "put_at p n fs = AList.update p n fs"

definition del_at :: "path \<Rightarrow> fs \<Rightarrow> fs" where
  "del_at p fs = AList.delete p fs"

definition del_tree :: "path \<Rightarrow> fs \<Rightarrow> fs" where
  "del_tree d fs = filter (\<lambda>pn. \<not> prefix d (fst pn)) fs"

definition del_below :: "path \<Rightarrow> fs \<Rightarrow> fs" where
  "del_below d fs = filter (\<lambda>pn. \<not> strict_prefix d (fst pn)) fs"

definition os_at :: "path \<Rightarrow> (path \<Rightarrow> 'a fstep) \<Rightarrow> 'a fstep" where
  "os_at p f = bindS (getS (\<lambda>fs. locate fs p)) (\<lambda>q. case q of None \<Rightarrow> raise Os_Error | Some q \<Rightarrow> f q)"

definition os_lstat :: "path \<Rightarrow> fnode option fstep" where
  "os_lstat p = os_at p (\<lambda>q. getS (\<lambda>fs. node fs q))"

definition os_new :: "path \<Rightarrow> fnode \<Rightarrow> unit fstep" where
  "os_new p n = os_at p (\<lambda>q. bindS (getS (\<lambda>fs. node fs q)) (\<lambda>old.
     if old = None then modS (put_at q n) else raise Os_Error))"

definition os_mkdir :: "path \<Rightarrow> int \<Rightarrow> unit fstep" where
  "os_mkdir p mode = os_new p (FDir mode)"

definition os_symlink :: "string \<Rightarrow> path \<Rightarrow> unit fstep" where
  "os_symlink t p = (if t = [] then raise Os_Error else os_new p (FLink t))"

definition os_unlink :: "path \<Rightarrow> unit fstep" where
  "os_unlink p = os_at p (\<lambda>q. bindS (getS (\<lambda>fs. node fs q)) (\<lambda>n. case n of
      Some (FReg _ _) \<Rightarrow> modS (del_at q) | Some (FLink _) \<Rightarrow> modS (del_at q) | _ \<Rightarrow> raise Os_Error))"

text \<open>
  \<open>shutil.rmtree\<close>: the content and then the directory by its path, which fails when the path goes
  up through a directory that the first step removed.
\<close>

definition os_rmtree :: "path \<Rightarrow> unit fstep" where
  "os_rmtree p = os_at p (\<lambda>q.
     if p \<noteq> [] \<and> last p = ''..'' then thenS (modS (del_below q)) (raise Os_Error)
     else modS (del_tree q))"

text \<open>\<open>os.link\<close> without following: another name for a file or a link; a directory is refused.
  The node is copied: the code opens only files it creates, and sets a mode before a file has a second
  name, so the two names never tell a shared inode from a copy.\<close>

definition os_link :: "path \<Rightarrow> path \<Rightarrow> unit fstep" where
  "os_link src dst = bindS (os_lstat src) (\<lambda>n. case n of
      Some (FReg d m) \<Rightarrow> os_new dst (FReg d m)
    | Some (FLink t) \<Rightarrow> os_new dst (FLink t)
    | _ \<Rightarrow> raise Os_Error)"

definition child :: "path \<Rightarrow> path \<Rightarrow> string option" where
  "child d p = (if p \<noteq> [] \<and> butlast p = d then Some (last p) else None)"

text \<open>A name a directory entry can have; \<open>os.listdir\<close> leaves out the two dots.\<close>

definition plain_name :: "string \<Rightarrow> bool" where
  "plain_name s = (s \<noteq> [] \<and> s \<noteq> ''.'' \<and> s \<noteq> ''..'' \<and> CHR ''/'' \<notin> set s)"

definition os_listdir :: "path \<Rightarrow> string list fstep" where
  "os_listdir p = os_at p (\<lambda>q. getS (\<lambda>fs.
     filter plain_name (remdups (List.map_filter (\<lambda>pn. child q (fst pn)) fs))))"

definition os_chmod :: "path \<Rightarrow> int \<Rightarrow> unit fstep" where
  "os_chmod p mode = os_at p (\<lambda>q. bindS (getS (\<lambda>fs. node fs q)) (\<lambda>n. case n of
      Some (FDir _) \<Rightarrow> modS (put_at q (FDir mode))
    | Some (FReg d _) \<Rightarrow> modS (put_at q (FReg d mode))
    | _ \<Rightarrow> raise Os_Error))"

definition move_tree :: "path \<Rightarrow> path \<Rightarrow> fs \<Rightarrow> fs" where
  "move_tree src dst fs =
     map (\<lambda>(p, n). (dst @ drop (length src) p, n)) (filter (\<lambda>pn. prefix src (fst pn)) fs)
     @ filter (\<lambda>pn. \<not> prefix src (fst pn) \<and> \<not> prefix dst (fst pn)) fs"

text \<open>\<open>os.rename\<close> to a name that is free.\<close>

definition os_rename :: "path \<Rightarrow> path \<Rightarrow> unit fstep" where
  "os_rename src dst = os_at src (\<lambda>q. os_at dst (\<lambda>r.
     bindS (getS (\<lambda>fs. (node fs q, node fs r))) (\<lambda>(a, b).
       if a = None \<or> b \<noteq> None \<or> prefix q r then raise Os_Error else modS (move_tree q r))))"

definition os_islink :: "fs \<Rightarrow> path \<Rightarrow> bool" where
  "os_islink fs p = (case locate fs p of
      None \<Rightarrow> False | Some q \<Rightarrow> (case node fs q of Some (FLink _) \<Rightarrow> True | _ \<Rightarrow> False))"

definition os_readlink :: "fs \<Rightarrow> path \<Rightarrow> string option" where
  "os_readlink fs p = (case locate fs p of
      None \<Rightarrow> None | Some q \<Rightarrow> (case node fs q of Some (FLink t) \<Rightarrow> Some t | _ \<Rightarrow> None))"

section \<open>Real directories\<close>

text \<open>A chain of directories, none of them a link.\<close>

definition real_chain :: "fs \<Rightarrow> path \<Rightarrow> bool" where
  "real_chain fs d = (list_all plain_name d \<and> (\<forall>n \<le> length d. is_dir fs (take n d)))"

lemma real_chain_Nil [simp]: "real_chain fs []"
  by (simp add: real_chain_def is_dir_def node_def)

lemma real_chain_snoc: "real_chain fs (d @ [p]) \<longleftrightarrow> real_chain fs d \<and> plain_name p \<and> is_dir fs (d @ [p])"
  by (auto simp: real_chain_def le_Suc_eq)

lemma real_chain_is_dir: "real_chain fs d \<Longrightarrow> is_dir fs d"
  by (auto simp: real_chain_def)

lemma real_chain_butlast: "real_chain fs d \<Longrightarrow> real_chain fs (butlast d)"
  by (cases d rule: rev_cases) (auto simp: real_chain_snoc)

lemma real_chain_append: "real_chain fs (a @ b) \<Longrightarrow> real_chain fs a"
  by (induction b rule: rev_induct) (auto simp: real_chain_snoc append_assoc [symmetric] simp del: append_assoc)

text \<open>Along real directories the walk is where it looks.\<close>

lemma walk_real: "real_chain fs (here @ ps) \<Longrightarrow> walk hops fs here (ps @ qs) = walk hops fs (here @ ps) qs"
proof (induction ps arbitrary: here)
  case (Cons p ps)
  have "real_chain fs (here @ [p])" using Cons.prems real_chain_append [of fs "here @ [p]" ps] by simp
  then have "plain_name p" "is_dir fs (here @ [p])" by (auto simp: real_chain_snoc)
  then have "walk hops fs here ((p # ps) @ qs) = walk hops fs (here @ [p]) (ps @ qs)"
    by (auto simp: plain_name_def is_dir_def split: option.splits fnode.splits)
  with Cons show ?case by simp
qed simp

lemma locate_real:
  assumes "real_chain fs d" and "p \<noteq> ''..''"
  shows "locate fs (d @ [p]) = Some (d @ [p])"
  using assms walk_real [of fs "[]" d max_hops "[]"] real_chain_is_dir [of fs d] by (simp add: locate_def)

lemma locate_up:
  assumes "real_chain fs d"
  shows "locate fs (d @ [''..'']) = Some (butlast d)"
  using assms walk_real [of fs "[]" d max_hops "[]"] real_chain_is_dir [of fs d] by (simp add: locate_def)

lemma locate_chain: "real_chain fs d \<Longrightarrow> locate fs d = Some d"
  by (cases d rule: rev_cases)
    (auto simp: locate_def [of _ "[]"] locate_real real_chain_snoc plain_name_def)

text \<open>What the operations do at a path.\<close>

lemma node_put: "q \<noteq> [] \<Longrightarrow> node (put_at q n fs) p = (if p = q then Some n else node fs p)"
  by (simp add: node_def put_at_def update_conv')

lemma node_del: "q \<noteq> [] \<Longrightarrow> node (del_at q fs) p = (if p = q then None else node fs p)"
  by (simp add: node_def del_at_def delete_conv')

lemma node_del_tree: "d \<noteq> [] \<Longrightarrow> node (del_tree d fs) p = (if prefix d p then None else node fs p)"
  using map_of_filter_key [of "\<lambda>q. \<not> prefix d q" fs p] by (auto simp: node_def del_tree_def)

lemma node_del_below: "node (del_below d fs) p = (if strict_prefix d p then None else node fs p)"
  using map_of_filter_key [of "\<lambda>q. \<not> strict_prefix d q" fs p] by (auto simp: node_def del_below_def)

lemmas node_ops = node_put node_del node_del_tree node_del_below

end
