(* ===== verification/Unpack.thy ===== *)
theory Unpack
  imports Os_Files
begin

unbundle bit_operations_syntax

text \<open>
  Unpacking the layers of an image, the second half of \<open>src/ansible/helpers/fetch_release.py\<close>:
  the vetting of member names, the writes through real directories only, whiteouts, the check of
  the symbolic links and the move into place. The members of a layer come from \<open>tarfile\<close>; they are
  an argument, with whatever names, modes and link targets an image can carry.
\<close>

section \<open>Names\<close>

definition WHITEOUT :: string where "WHITEOUT = ''.wh.''"
definition OPAQUE :: string where "OPAQUE = ''.wh..wh..opq''"

definition kept_parts :: "string \<Rightarrow> string list" where
  "kept_parts s = filter (\<lambda>p. p \<noteq> [] \<and> p \<noteq> ''.'') (split_char (CHR ''/'') s)"

definition member_path :: "string \<Rightarrow> fetch_error + string" where
  "member_path name =
     (if absolute name then Inl (Absolute_Member name)
      else if ''..'' \<in> set (kept_parts name) then Inl (Climbing_Member name)
      else Inr (join ''/'' (kept_parts name)))"

definition under_path :: "string \<Rightarrow> string \<Rightarrow> bool" where
  "under_path p q = (p = q \<or> prefix (q @ ''/'') p)"

fun raw_prefixes :: "string list \<Rightarrow> fetch_error + string list" where
  "raw_prefixes [] = Inr []"
| "raw_prefixes (raw # rest) =
     (let parts = kept_parts raw in
      if parts = [] \<or> ''..'' \<in> set parts then Inl (No_Such_Path raw)
      else bindR (raw_prefixes rest) (\<lambda>out. Inr (join ''/'' parts # out)))"

text \<open>\<open>dict.fromkeys\<close>: the first of each.\<close>

definition unique :: "string list \<Rightarrow> string list" where
  "unique xs = rev (remdups (rev xs))"

definition prefixes_of :: "string list \<Rightarrow> fetch_error + string list" where
  "prefixes_of paths = bindR (raw_prefixes paths) (\<lambda>raw.
     let out = unique raw in
     Inr (filter (\<lambda>p. \<not> list_ex (\<lambda>q. p \<noteq> q \<and> under_path p q) out) out))"

definition join_path :: "string \<Rightarrow> string \<Rightarrow> string" where
  "join_path parent name = (if parent \<noteq> [] then parent @ ''/'' @ name else name)"

definition parts_of :: "string \<Rightarrow> string list" where
  "parts_of rel = (if rel = [] then [] else names rel)"

section \<open>Writes\<close>

text \<open>\<open>directory / leaf\<close>: \<open>pathlib\<close> drops a dot.\<close>

definition slash :: "path \<Rightarrow> string \<Rightarrow> path" where
  "slash d leaf = (if leaf = [] \<or> leaf = ''.'' then d else d @ [leaf])"

fun real_dir :: "string \<Rightarrow> path \<Rightarrow> string list \<Rightarrow> bool \<Rightarrow> path option fstep" where
  "real_dir rel cur [] create = ret (Some cur)"
| "real_dir rel cur (part # ps) create =
     (let nxt = slash cur part in
      bindS (os_lstat nxt) (\<lambda>n. case n of
        None \<Rightarrow> if \<not> create then ret None
                else thenS (os_mkdir nxt 493) (real_dir rel nxt ps create)
      | Some (FDir _) \<Rightarrow> real_dir rel nxt ps create
      | Some (FLink _) \<Rightarrow> if \<not> create then ret None else raise (Through_Symlink rel)
      | Some (FReg _ _) \<Rightarrow> if \<not> create then ret None
          else thenS (os_unlink nxt) (thenS (os_mkdir nxt 493) (real_dir rel nxt ps create))))"

definition clear_at :: "path \<Rightarrow> unit fstep" where
  "clear_at target = bindS (os_lstat target) (\<lambda>n. case n of
      None \<Rightarrow> ret ()
    | Some (FDir _) \<Rightarrow> os_rmtree target
    | Some _ \<Rightarrow> os_unlink target)"

definition remove_rel :: "path \<Rightarrow> string \<Rightarrow> unit fstep" where
  "remove_rel tree rel = (case rpartition_char (CHR ''/'') rel of (parent, _, leaf) \<Rightarrow>
     bindS (real_dir parent tree (parts_of parent) False) (\<lambda>d. case d of
        None \<Rightarrow> ret () | Some dir \<Rightarrow> clear_at (slash dir leaf)))"

fun clear_children :: "path \<Rightarrow> string list \<Rightarrow> unit fstep" where
  "clear_children dir [] = ret ()"
| "clear_children dir (c # cs) = thenS (clear_at (slash dir c)) (clear_children dir cs)"

definition empty_rel :: "path \<Rightarrow> string \<Rightarrow> unit fstep" where
  "empty_rel tree rel = bindS (real_dir rel tree (parts_of rel) False) (\<lambda>d. case d of
      None \<Rightarrow> ret () | Some dir \<Rightarrow> bindS (os_listdir dir) (clear_children dir))"

datatype mkind = Is_Dir | Is_Reg | Is_Sym | Is_Lnk | Is_Other

record member =
  m_name :: string
  m_kind :: mkind
  m_mode :: int
  m_link :: string
  m_data :: string

type_synonym dir_modes = "(string \<times> int) list"

text \<open>\<open>member.mode & 0o7777 & ~(stat.S_ISUID | stat.S_ISGID)\<close>.\<close>

definition masked :: "int \<Rightarrow> int" where
  "masked mode = mode AND 4095 AND NOT 3072"

definition write_member :: "member \<Rightarrow> string \<Rightarrow> path \<Rightarrow> string list \<Rightarrow> dir_modes \<Rightarrow> dir_modes fstep" where
  "write_member m path tree wanted modes =
     (if m_kind m = Is_Other then ret modes
      else (case rpartition_char (CHR ''/'') path of (parent, _, leaf) \<Rightarrow>
        bindS (real_dir parent tree (parts_of parent) True) (\<lambda>d.
          let target = slash (the d) leaf; mode = masked (m_mode m) in
          if m_kind m = Is_Dir then
            bindS (real_dir path tree (parts_of path) False) (\<lambda>e.
              thenS (if e = None then thenS (clear_at target) (os_mkdir target 493) else ret ())
                (ret (AList.update path mode modes)))
          else thenS (clear_at target)
            (if m_kind m = Is_Reg then thenS (os_new target (FReg (m_data m) mode)) (ret modes)
             else if m_kind m = Is_Sym then thenS (os_symlink (m_link m) target) (ret modes)
             else (case member_path (m_link m) of
                Inl e \<Rightarrow> raise e
              | Inr source \<Rightarrow>
                  if \<not> list_ex (under_path source) wanted then raise (Link_Outside source)
                  else (case rpartition_char (CHR ''/'') source of (src_parent, _, src_leaf) \<Rightarrow>
                    bindS (real_dir src_parent tree (parts_of src_parent) False) (\<lambda>s. case s of
                      None \<Rightarrow> raise (Link_Missing source)
                    | Some src_dir \<Rightarrow> thenS (os_link (slash src_dir src_leaf) target) (ret modes))))))))"

section \<open>A layer\<close>

definition whiteout_target :: "string \<Rightarrow> string option" where
  "whiteout_target leaf =
     (if prefix WHITEOUT leaf \<and> \<not> prefix (WHITEOUT @ WHITEOUT) leaf \<and> length WHITEOUT < length leaf
      then Some (drop (length WHITEOUT) leaf) else None)"

fun whiteouts :: "path \<Rightarrow> member list \<Rightarrow> unit fstep" where
  "whiteouts tree [] = ret ()"
| "whiteouts tree (m # ms) = (case member_path (m_name m) of
      Inl e \<Rightarrow> raise e
    | Inr p \<Rightarrow> (case rpartition_char (CHR ''/'') p of (parent, _, leaf) \<Rightarrow>
        thenS (if leaf = OPAQUE then empty_rel tree parent
               else (case whiteout_target leaf of
                  Some x \<Rightarrow> remove_rel tree (join_path parent x) | None \<Rightarrow> ret ()))
          (whiteouts tree ms)))"

fun add_members :: "path \<Rightarrow> string list \<Rightarrow> member list \<Rightarrow> dir_modes \<Rightarrow> dir_modes fstep" where
  "add_members tree wanted [] modes = ret modes"
| "add_members tree wanted (m # ms) modes = (case member_path (m_name m) of
      Inl e \<Rightarrow> raise e
    | Inr p \<Rightarrow>
        if p \<noteq> [] \<and> \<not> prefix WHITEOUT (snd (snd (rpartition_char (CHR ''/'') p)))
            \<and> list_ex (under_path p) wanted
        then bindS (write_member m p tree wanted modes) (add_members tree wanted ms)
        else add_members tree wanted ms modes)"

definition apply_layer :: "member list \<Rightarrow> path \<Rightarrow> string list \<Rightarrow> dir_modes \<Rightarrow> dir_modes fstep" where
  "apply_layer members tree wanted modes =
     thenS (whiteouts tree members) (add_members tree wanted members modes)"

section \<open>Links\<close>

text \<open>The walk of \<open>_resolves_inside\<close>: \<open>rounds\<close> are the rounds of its loop that are left.\<close>

function stays :: "nat \<Rightarrow> fs \<Rightarrow> path \<Rightarrow> path \<Rightarrow> string list \<Rightarrow> bool" where
  "stays rounds fs tree at [] = True"
| "stays rounds fs tree at (part # todo) =
     (if part = [] \<or> part = ''.'' then stays rounds fs tree at todo
      else if part = ''..'' then (if at = [] then False else stays rounds fs tree (butlast at) todo)
      else (case os_readlink fs (tree @ at @ [part]) of
        None \<Rightarrow> stays rounds fs tree (at @ [part]) todo
      | Some target \<Rightarrow> (case rounds of
            0 \<Rightarrow> True
          | Suc r \<Rightarrow> if absolute target then False else stays r fs tree at (names target @ todo))))"
  by pat_completeness auto
termination by (relation "(\<lambda>(r, fs, tree, at, todo). r) <*mlex*> (\<lambda>(r, fs, tree, at, todo). length todo) <*mlex*> {}")
    (auto simp: wf_mlex mlex_less mlex_leq mlex_iff)

definition resolves_inside :: "fs \<Rightarrow> path \<Rightarrow> path \<Rightarrow> bool" where
  "resolves_inside fs tree rel = (case os_readlink fs (tree @ rel) of
      None \<Rightarrow> False
    | Some target \<Rightarrow> \<not> absolute target \<and> stays (max_hops - 1) fs tree (butlast rel) (names target))"

definition links_below :: "fs \<Rightarrow> path \<Rightarrow> path list" where
  "links_below fs d = filter (\<lambda>p. strict_prefix d p \<and> os_islink fs p) (map fst fs)"

definition check_links :: "path \<Rightarrow> string \<Rightarrow> unit fstep" where
  "check_links tree p = bindS (getS (\<lambda>fs.
       find (\<lambda>l. \<not> resolves_inside fs tree (drop (length tree) l)) (links_below fs (tree @ parts_of p))))
     (\<lambda>bad. case bad of None \<Rightarrow> ret () | Some l \<Rightarrow> raise (Escaping_Link (drop (length tree) l)))"

section \<open>Moving into place\<close>

fun each :: "('a \<Rightarrow> unit fstep) \<Rightarrow> 'a list \<Rightarrow> unit fstep" where
  "each f [] = ret ()"
| "each f (x # xs) = thenS (f x) (each f xs)"

definition require_dir :: "path \<Rightarrow> string \<Rightarrow> unit fstep" where
  "require_dir tree p = bindS (real_dir p tree (parts_of p) False) (\<lambda>d.
     if d = None then raise (No_Directory p) else ret ())"

definition set_mode :: "path \<Rightarrow> dir_modes \<Rightarrow> string \<Rightarrow> unit fstep" where
  "set_mode tree modes p = bindS (real_dir p tree (parts_of p) False) (\<lambda>d. case d of
      None \<Rightarrow> ret () | Some dir \<Rightarrow> os_chmod dir (the (map_of modes p)))"

definition previous_name :: "nat \<Rightarrow> string" where
  "previous_name n = ''previous-'' @ dec_nat n"

definition put_in_place :: "path \<Rightarrow> path \<Rightarrow> path \<Rightarrow> nat \<times> string \<Rightarrow> unit fstep" where
  "put_in_place tree dest staging = (\<lambda>(n, p). case rpartition_char (CHR ''/'') p of (parent, _, leaf) \<Rightarrow>
     bindS (real_dir parent dest (parts_of parent) True) (\<lambda>d.
       let target = slash (the d) leaf in
       bindS (os_lstat target) (\<lambda>old.
         thenS (if old \<noteq> None then os_rename target (staging @ [previous_name n]) else ret ())
           (os_rename (tree @ parts_of p) target))))"

definition install_trees :: "path \<Rightarrow> path \<Rightarrow> path \<Rightarrow> string list \<Rightarrow> dir_modes \<Rightarrow> unit fstep" where
  "install_trees tree dest staging wanted modes =
     thenS (each (require_dir tree) wanted)
    (thenS (each (check_links tree) wanted)
    (thenS (each (set_mode tree modes) (rev (sort (map fst modes))))
      (each (put_in_place tree dest staging) (enumerate 0 wanted))))"

end
