(* ===== verification/Unpack_Safety.thy ===== *)
theory Unpack_Safety
  imports Unpack
begin

unbundle bit_operations_syntax

text \<open>
  What unpacking an image can touch: the invariant that every operation of a layer keeps (the tree is
  reached through real directories, nothing outside of it changes, and no node in it has a
  set-user-id or set-group-id bit), and the soundness of the link check against the kernel's walk. One
  name, \<open>.wh...\<close> at the top of a layer, asks for the removal of the tree's parent; with it the
  invariant holds of the staging directory instead.
\<close>

section \<open>The invariant\<close>

definition clean :: "fnode \<Rightarrow> bool" where
  "clean n = (case n of FReg _ m \<Rightarrow> m AND 3072 = 0 | FDir m \<Rightarrow> m AND 3072 = 0 | FLink _ \<Rightarrow> True)"

definition tree_of :: "path \<Rightarrow> path" where
  "tree_of staging = staging @ [''tree'']"

text \<open>
  The paths a layer may change: those of the tree (\<open>inner\<close>), or, when a whiteout climbs out of it, all
  that is strictly below the staging directory.
\<close>

definition region :: "bool \<Rightarrow> path \<Rightarrow> path \<Rightarrow> bool" where
  "region inner S p = (if inner then prefix (tree_of S) p else strict_prefix S p)"

definition contained :: "bool \<Rightarrow> path \<Rightarrow> (path \<Rightarrow> fnode option) \<Rightarrow> fs \<Rightarrow> bool" where
  "contained inn S before fs =
     (real_chain fs S
      \<and> (node fs (tree_of S) = None \<or> is_dir fs (tree_of S))
      \<and> (\<forall>p. \<not> region inn S p \<longrightarrow> node fs p = before p)
      \<and> (\<forall>p n. prefix (tree_of S) p \<and> node fs p = Some n \<longrightarrow> clean n))"

definition in_tree :: "bool \<Rightarrow> path \<Rightarrow> (path \<Rightarrow> fnode option) \<Rightarrow> path \<Rightarrow> fs \<Rightarrow> bool" where
  "in_tree inn S before d fs = (contained inn S before fs \<and> real_chain fs d \<and> prefix (tree_of S) d)"

definition may_enter :: "bool \<Rightarrow> path \<Rightarrow> (path \<Rightarrow> fnode option) \<Rightarrow> path \<Rightarrow> fs \<Rightarrow> bool" where
  "may_enter inn S before d fs = (contained inn S before fs \<and> prefix (tree_of S) d
     \<and> (real_chain fs d \<or> d = tree_of S \<and> node fs d = None))"

lemma in_tree_contained: "in_tree inn S b d fs \<Longrightarrow> contained inn S b fs"
  by (simp add: in_tree_def)

lemma in_tree_may_enter: "in_tree inn S b d fs \<Longrightarrow> may_enter inn S b d fs"
  by (simp add: in_tree_def may_enter_def)

lemma may_enter_contained: "may_enter inn S b d fs \<Longrightarrow> contained inn S b fs"
  by (simp add: may_enter_def)

lemma contained_enter: "contained inn S b fs \<Longrightarrow> may_enter inn S b (tree_of S) fs"
  by (auto simp: may_enter_def contained_def tree_of_def real_chain_snoc plain_name_def)

lemma below_staging: "prefix (tree_of S) d \<Longrightarrow> region inn S (d @ x)"
  by (auto simp: region_def tree_of_def prefix_def strict_prefix_def)

lemma region_below: "region inn S p \<Longrightarrow> prefix p q \<Longrightarrow> region inn S q"
  by (auto simp: region_def dest: prefix_order.less_le_trans split: if_splits)

lemma region_top: "prefix p S \<Longrightarrow> \<not> region inn S p"
  using prefix_length_le [of p S] by (auto simp: region_def tree_of_def dest!: prefix_length_le dest: prefix_length_less)

lemma real_chain_cong:
  assumes "\<And>p. prefix p d \<Longrightarrow> node fs' p = node fs p"
  shows "real_chain fs' d = real_chain fs d"
proof -
  have "is_dir fs' (take n d) = is_dir fs (take n d)" for n
    using assms [of "take n d"] by (simp add: is_dir_def take_is_prefix)
  then show ?thesis by (simp add: real_chain_def)
qed

text \<open>A change strictly below the staging directory keeps the invariant when the tree stays a tree.\<close>

lemma contained_upd:
  assumes "contained inn S b fs" and "\<And>p. \<not> region inn S p \<Longrightarrow> node fs' p = node fs p"
    and "node fs' (tree_of S) = None \<or> is_dir fs' (tree_of S)"
    and "\<And>p n. prefix (tree_of S) p \<Longrightarrow> node fs' p = Some n \<Longrightarrow> clean n"
  shows "contained inn S b fs'"
proof -
  have "real_chain fs' S = real_chain fs S"
    by (rule real_chain_cong) (use assms(2) region_top in blast)
  moreover have "real_chain fs S" "\<And>p. \<not> region inn S p \<Longrightarrow> node fs p = b p"
    using assms(1) by (auto simp: contained_def)
  ultimately show ?thesis
    unfolding contained_def using assms(2,3) by (intro conjI allI impI) (auto intro: assms(4))
qed

lemma clean_at: "contained inn S b fs \<Longrightarrow> prefix (tree_of S) p \<Longrightarrow> node fs p = Some n \<Longrightarrow> clean n"
  by (auto simp: contained_def)

lemma tree_neq_deeper: "prefix (tree_of S) d \<Longrightarrow> tree_of S \<noteq> d @ [x]"
  by (auto simp: prefix_def)

lemma put_in_tree:
  assumes "in_tree inn S b d fs" and "clean n"
  shows "in_tree inn S b d (put_at (d @ [x]) n fs)"
proof -
  note t = assms(1) [unfolded in_tree_def]
  have "contained inn S b (put_at (d @ [x]) n fs)"
  proof (rule contained_upd)
    show "contained inn S b fs" using t by blast
    show "node (put_at (d @ [x]) n fs) p = node fs p" if "\<not> region inn S p" for p
      using that below_staging [of S d inn "[x]"] t by (auto simp: node_put)
    show "node (put_at (d @ [x]) n fs) (tree_of S) = None \<or> is_dir (put_at (d @ [x]) n fs) (tree_of S)"
      using t tree_neq_deeper [of S d x] by (auto simp: contained_def is_dir_def node_put)
    show "clean m" if "prefix (tree_of S) p" "node (put_at (d @ [x]) n fs) p = Some m" for p m
      using that t assms(2) clean_at by (auto simp: node_put split: if_splits)
  qed
  moreover have "real_chain (put_at (d @ [x]) n fs) d = real_chain fs d"
    by (rule real_chain_cong) (auto simp: node_put)
  ultimately show ?thesis using t by (simp add: in_tree_def)
qed

lemma del_in_tree:
  assumes "in_tree inn S b d fs" and "fs' = del_at (d @ [x]) fs \<or> fs' = del_tree (d @ [x]) fs"
  shows "in_tree inn S b d fs'"
proof -
  note t = assms(1) [unfolded in_tree_def]
  have n: "node fs' p = node fs p \<or> node fs' p = None \<and> prefix (d @ [x]) p" for p
    using assms(2) by (auto simp: node_ops split: if_splits)
  have same: "node fs' p = node fs p" if "\<not> prefix (d @ [x]) p" for p using n [of p] that by blast
  have "contained inn S b fs'"
  proof (rule contained_upd)
    show "contained inn S b fs" using t by blast
    show "node fs' p = node fs p" if "\<not> region inn S p" for p
    proof (rule same)
      show "\<not> prefix (d @ [x]) p"
        using that below_staging [of S d inn "[x]"] t region_below by blast
    qed
    have "\<not> prefix (d @ [x]) (tree_of S)" using t by (auto dest!: prefix_length_le)
    then show "node fs' (tree_of S) = None \<or> is_dir fs' (tree_of S)"
      using same t by (simp add: contained_def is_dir_def)
    show "clean m" if "prefix (tree_of S) p" "node fs' p = Some m" for p m
      using that n [of p] t clean_at by fastforce
  qed
  moreover have "real_chain fs' d = real_chain fs d"
    by (rule real_chain_cong, rule same) (auto dest!: prefix_length_le)
  ultimately show ?thesis using t by (simp add: in_tree_def)
qed

lemma climb_contained:
  assumes "in_tree inn S b d fs" and "inn \<longrightarrow> d \<noteq> tree_of S"
  shows "contained inn S b (del_below (butlast d) fs)"
proof (rule contained_upd)
  note t = assms(1) [unfolded in_tree_def]
  show "contained inn S b fs" using t by blast
  from t have d: "prefix S (butlast d)" by (auto simp: tree_of_def prefix_def butlast_append)
  have up: "region inn S p" if "strict_prefix (butlast d) p" for p
  proof (cases inn)
    case True
    then obtain x where "d = tree_of S @ x" "x \<noteq> []" using assms(2) t by (auto simp: prefix_def)
    then have "prefix (tree_of S) (butlast d)" by (simp add: butlast_append)
    with that True show ?thesis by (auto simp: region_def dest: prefix_order.less_imp_le intro: prefix_order.trans)
  next
    case False
    with that d show ?thesis by (auto simp: region_def dest: prefix_order.le_less_trans)
  qed
  show "node (del_below (butlast d) fs) p = node fs p" if "\<not> region inn S p" for p
    using that up by (auto simp: node_ops)
  show "node (del_below (butlast d) fs) (tree_of S) = None \<or> is_dir (del_below (butlast d) fs) (tree_of S)"
    using t by (auto simp: node_ops is_dir_def contained_def split: if_splits)
  show "clean m" if "prefix (tree_of S) p" "node (del_below (butlast d) fs) p = Some m" for p m
    using that t clean_at by (auto simp: node_ops split: if_splits)
qed

lemma drop_dir_contained:
  assumes "in_tree inn S b d fs"
  shows "contained inn S b (del_tree d fs)"
proof (rule contained_upd)
  note t = assms [unfolded in_tree_def]
  show "contained inn S b fs" using t by blast
  have d: "d \<noteq> []" "region inn S d"
    using t below_staging [of S d inn "[]"] by (auto simp: tree_of_def)
  show "node (del_tree d fs) p = node fs p" if "\<not> region inn S p" for p
    using that d region_below by (auto simp: node_ops)
  show "node (del_tree d fs) (tree_of S) = None \<or> is_dir (del_tree d fs) (tree_of S)"
    using t d by (auto simp: node_ops is_dir_def contained_def split: if_splits)
  show "clean m" if "prefix (tree_of S) p" "node (del_tree d fs) p = Some m" for p m
    using that t d(1) clean_at by (auto simp: node_ops split: if_splits)
qed

section \<open>The operations\<close>

text \<open>A path one name below a directory of the tree is where it looks, or the call fails.\<close>

lemma locate_enter:
  assumes "may_enter inn S b d fs" and "x \<noteq> ''..''"
  shows "locate fs (d @ [x]) = None \<or> locate fs (d @ [x]) = Some (d @ [x]) \<and> real_chain fs d"
proof (cases "real_chain fs d")
  case True
  then show ?thesis using locate_real [OF _ assms(2)] by blast
next
  case False
  then have d: "d = S @ [''tree'']" "node fs d = None" "real_chain fs S"
    using assms(1) by (auto simp: may_enter_def tree_of_def contained_def)
  have "walk max_hops fs [] d = Some d"
    using walk_real [of fs "[]" S max_hops "[''tree'']"] d by simp
  then show ?thesis using d(2) by (simp add: locate_def is_dir_def)
qed

lemma enter_up:
  assumes "may_enter inn S b d fs"
  shows "locate fs (d @ [''..'']) = None \<or> locate fs (d @ [''..'']) = Some (butlast d) \<and> real_chain fs d"
proof (cases "real_chain fs d")
  case True
  then show ?thesis using locate_up by blast
next
  case False
  then have d: "d = S @ [''tree'']" "node fs d = None" "real_chain fs S"
    using assms(1) by (auto simp: may_enter_def tree_of_def contained_def)
  have "walk max_hops fs [] d = Some d"
    using walk_real [of fs "[]" S max_hops "[''tree'']"] d by simp
  then show ?thesis using d(2) by (simp add: locate_def is_dir_def)
qed

lemma os_at_enter:
  assumes "x \<noteq> ''..''" and "triple (in_tree inn S b d) (f (d @ [x])) Q (contained inn S b)"
  shows "triple (may_enter inn S b d) (os_at (d @ [x]) f) Q (contained inn S b)"
proof -
  have "case os_at (d @ [x]) f fs of (Inr y, fs') \<Rightarrow> Q y fs' | (Inl e, fs') \<Rightarrow> contained inn S b fs'"
    if m: "may_enter inn S b d fs" for fs
    using locate_enter [OF m assms(1)]
  proof
    assume "locate fs (d @ [x]) = None"
    then show ?thesis using m by (simp add: os_at_def sem_defs may_enter_def)
  next
    assume l: "locate fs (d @ [x]) = Some (d @ [x]) \<and> real_chain fs d"
    then have "in_tree inn S b d fs" using m by (simp add: in_tree_def may_enter_def)
    then show ?thesis using l assms(2) by (simp add: os_at_def sem_defs triple_def)
  qed
  then show ?thesis by (simp add: triple_def)
qed

lemma os_lstat_enter:
  assumes "x \<noteq> ''..''"
  shows "triple (may_enter inn S b d) (os_lstat (d @ [x])) (\<lambda>n fs. in_tree inn S b d fs \<and> n = node fs (d @ [x])) (contained inn S b)"
  unfolding os_lstat_def by (rule os_at_enter [OF assms]) (simp add: triple_def getS_def)

lemma os_new_enter:
  assumes "x \<noteq> ''..''" and "clean n"
  shows "triple (may_enter inn S b d) (os_new (d @ [x]) n)
    (\<lambda>_ fs. in_tree inn S b d fs \<and> node fs (d @ [x]) = Some n) (contained inn S b)"
  unfolding os_new_def
  by (rule os_at_enter [OF assms(1)])
    (auto simp: triple_def sem_defs put_in_tree assms(2) node_put in_tree_contained)

lemma os_mkdir_enter:
  assumes "plain_name x"
  shows "triple (may_enter inn S b d) (os_mkdir (d @ [x]) 493) (\<lambda>_. in_tree inn S b (d @ [x])) (contained inn S b)"
  unfolding os_mkdir_def
  by (rule triple_weaken [OF os_new_enter])
    (use assms in \<open>auto simp: plain_name_def clean_def in_tree_def real_chain_snoc is_dir_def\<close>)

lemma os_unlink_enter:
  assumes "x \<noteq> ''..''"
  shows "triple (may_enter inn S b d) (os_unlink (d @ [x])) (\<lambda>_. in_tree inn S b d) (contained inn S b)"
  unfolding os_unlink_def
  by (rule os_at_enter [OF assms])
    (auto simp: triple_def sem_defs in_tree_contained split: option.splits fnode.splits intro: del_in_tree)

lemma os_rmtree_enter:
  assumes "x \<noteq> ''..''"
  shows "triple (may_enter inn S b d) (os_rmtree (d @ [x])) (\<lambda>_. in_tree inn S b d) (contained inn S b)"
  unfolding os_rmtree_def
  by (rule os_at_enter [OF assms]) (use assms in \<open>auto simp: triple_def sem_defs intro: del_in_tree\<close>)

lemma clear_enter:
  assumes "x \<noteq> ''..''"
  shows "triple (may_enter inn S b d) (clear_at (d @ [x])) (\<lambda>_. in_tree inn S b d) (contained inn S b)"
proof -
  have "triple (\<lambda>fs. in_tree inn S b d fs \<and> n = node fs (d @ [x]))
      (case n of None \<Rightarrow> ret () | Some (FDir _) \<Rightarrow> os_rmtree (d @ [x]) | Some _ \<Rightarrow> os_unlink (d @ [x]))
      (\<lambda>_. in_tree inn S b d) (contained inn S b)" for n
    by (auto split: option.splits fnode.splits
        intro!: triple_ret triple_weaken [OF os_rmtree_enter [OF assms]] triple_weaken [OF os_unlink_enter [OF assms]]
        dest: in_tree_may_enter)
  then show ?thesis unfolding clear_at_def by (rule triple_bindS [OF os_lstat_enter [OF assms]])
qed

section \<open>Names of members\<close>

definition path_ok :: "string \<Rightarrow> bool" where
  "path_ok s = list_all plain_name (parts_of s)"

lemma split_char_append: "split_char c (a @ c # b) = split_char c a @ split_char c b"
  by (induction a) (auto split: list.split dest: split_char_nonempty [THEN notE])

lemma split_char_parts: "p \<in> set (split_char c s) \<Longrightarrow> c \<notin> set p"
  by (induction s arbitrary: p) (auto split: list.splits if_splits)

lemma split_char_none: "c \<notin> set s \<Longrightarrow> split_char c s = [s]"
  by (induction s) auto

lemma split_char_join:
  "xs \<noteq> [] \<Longrightarrow> \<forall>x \<in> set xs. c \<notin> set x \<Longrightarrow> split_char c (join [c] xs) = xs"
proof (induction xs)
  case (Cons x xs)
  then show ?case
    by (cases xs) (simp_all add: split_char_none split_char_append join_Cons)
qed simp

lemma member_path_ok:
  assumes "member_path name = Inr p"
  shows "path_ok p"
proof (cases "kept_parts name = []")
  case True
  with assms show ?thesis by (auto simp: member_path_def path_ok_def parts_of_def split: if_splits)
next
  case False
  have plain: "\<forall>x \<in> set (kept_parts name). plain_name x"
    using assms by (auto simp: member_path_def kept_parts_def plain_name_def dest: split_char_parts split: if_splits)
  have "p = join ''/'' (kept_parts name)" using assms by (auto simp: member_path_def split: if_splits)
  then have "parts_of p = [] \<or> parts_of p = kept_parts name"
    using split_char_join [OF False, of "CHR ''/''"] plain by (auto simp: parts_of_def names_def plain_name_def)
  then show ?thesis using plain by (auto simp: path_ok_def list_all_iff)
qed

lemma rpartition_ok:
  assumes "path_ok s" and "s \<noteq> []" and "rpartition_char (CHR ''/'') s = (parent, f, leaf)"
  shows "path_ok parent" and "plain_name leaf"
proof -
  have "path_ok parent \<and> plain_name leaf"
  proof (cases f)
    case True
    with assms(3) have s: "s = parent @ CHR ''/'' # leaf" "CHR ''/'' \<notin> set leaf"
      using rpartition_char_join by auto
    then have "names s = names parent @ [leaf]" by (simp add: names_def split_char_append split_char_none)
    then show ?thesis using assms(1,2) by (simp add: path_ok_def parts_of_def)
  next
    case False
    with assms(3) have "parent = []" "leaf = s" "CHR ''/'' \<notin> set s" by (auto simp: rpartition_char_def split: if_splits)
    then show ?thesis using assms(1,2) by (simp add: path_ok_def parts_of_def names_def split_char_none)
  qed
  then show "path_ok parent" "plain_name leaf" by auto
qed

lemma slash_plain: "plain_name x \<Longrightarrow> slash d x = d @ [x]"
  by (auto simp: slash_def plain_name_def)

section \<open>Steps of a layer\<close>

lemma triple_pre: "triple P m Q E \<Longrightarrow> (\<And>s. P' s \<Longrightarrow> P s) \<Longrightarrow> triple P' m Q E"
  by (rule triple_weaken)

lemma real_dir_enter:
  assumes "list_all plain_name ps"
  shows "triple (may_enter inn S b cur) (real_dir rel cur ps create)
    (\<lambda>r fs. contained inn S b fs \<and> (create \<longrightarrow> r \<noteq> None) \<and> (\<forall>d. r = Some d \<longrightarrow> may_enter inn S b d fs)) (contained inn S b)"
  using assms
proof (induction ps arbitrary: cur)
  case Nil
  show ?case by (auto intro!: triple_ret simp: may_enter_contained)
next
  case (Cons x ps)
  define Q where "Q = (\<lambda>r fs. contained inn S b fs \<and> (create \<longrightarrow> r \<noteq> None) \<and> (\<forall>d. r = Some d \<longrightarrow> may_enter inn S b d fs))"
  let ?n = "cur @ [x]"
  have x: "plain_name x" "x \<noteq> ''..''" using Cons.prems by (auto simp: plain_name_def)
  have IH: "triple (in_tree inn S b ?n) (real_dir rel ?n ps create) Q (contained inn S b)"
    unfolding Q_def by (rule triple_weaken [OF Cons.IH]) (use Cons.prems in \<open>auto dest: in_tree_may_enter\<close>)
  have mk: "triple (in_tree inn S b cur) (thenS (os_mkdir ?n 493) (real_dir rel ?n ps create)) Q (contained inn S b)"
    by (rule triple_thenS [OF triple_weaken [OF os_mkdir_enter [OF x(1)]] IH]) (auto dest: in_tree_may_enter)
  have un: "triple (in_tree inn S b cur) (thenS (os_unlink ?n) (thenS (os_mkdir ?n 493) (real_dir rel ?n ps create))) Q (contained inn S b)"
    by (rule triple_thenS [OF triple_weaken [OF os_unlink_enter [OF x(2)]] mk]) (auto dest: in_tree_may_enter)
  have go: "triple (\<lambda>fs. in_tree inn S b cur fs \<and> Some (FDir m) = node fs ?n) (real_dir rel ?n ps create) Q (contained inn S b)" for m
    by (rule triple_weaken [OF IH]) (use x in \<open>auto simp: in_tree_def real_chain_snoc is_dir_def dest: sym\<close>)
  have stop: "triple (in_tree inn S b cur) (ret None) Q (contained inn S b)" if "\<not> create"
    using that by (auto intro!: triple_ret simp: in_tree_contained Q_def)
  have none: "triple (in_tree inn S b cur) (if \<not> create then ret None else thenS (os_mkdir ?n 493) (real_dir rel ?n ps create)) Q (contained inn S b)"
    by (cases create) (use stop mk in simp_all)
  have link: "triple (in_tree inn S b cur) (if \<not> create then ret None else raise (Through_Symlink rel)) Q (contained inn S b)"
    by (cases create) (use stop in \<open>simp_all add: triple_raise in_tree_contained\<close>)
  have reg: "triple (in_tree inn S b cur) (if \<not> create then ret None
      else thenS (os_unlink ?n) (thenS (os_mkdir ?n 493) (real_dir rel ?n ps create))) Q (contained inn S b)"
    by (cases create) (use stop un in simp_all)
  have "triple (\<lambda>fs. in_tree inn S b cur fs \<and> n = node fs ?n)
      (case n of None \<Rightarrow> if \<not> create then ret None else thenS (os_mkdir ?n 493) (real_dir rel ?n ps create)
        | Some (FDir _) \<Rightarrow> real_dir rel ?n ps create
        | Some (FLink _) \<Rightarrow> if \<not> create then ret None else raise (Through_Symlink rel)
        | Some (FReg _ _) \<Rightarrow> if \<not> create then ret None
            else thenS (os_unlink ?n) (thenS (os_mkdir ?n 493) (real_dir rel ?n ps create))) Q (contained inn S b)" for n
  proof (cases n)
    case None
    show ?thesis unfolding None option.case by (rule triple_pre [OF none]) simp
  next
    case (Some y)
    then show ?thesis
    proof (cases y)
      case (FReg u v)
      show ?thesis unfolding Some FReg option.case fnode.case by (rule triple_pre [OF reg]) simp
    next
      case (FDir m)
      show ?thesis unfolding Some FDir option.case fnode.case by (rule go)
    next
      case (FLink t)
      show ?thesis unfolding Some FLink option.case fnode.case by (rule triple_pre [OF link]) simp
    qed
  qed
  then show ?case
    unfolding Q_def [symmetric] real_dir.simps Let_def slash_plain [OF x(1)] by (rule triple_bindS [OF os_lstat_enter [OF x(2)]])
qed

text \<open>Without \<open>create\<close>, looking changes nothing.\<close>

lemma os_lstat_same: "os_lstat p fs = (r, fs') \<Longrightarrow> fs' = fs"
  by (auto simp: os_lstat_def os_at_def sem_defs split: option.splits)

lemma real_dir_same: "real_dir rel cur ps False fs = (r, fs') \<Longrightarrow> fs' = fs"
proof (induction ps arbitrary: cur)
  case (Cons x ps)
  then show ?case
    by (auto simp: Let_def bindS_def ret_def dest!: os_lstat_same split: prod.splits sum.splits option.splits fnode.splits)
qed (simp add: ret_def)

lemma real_dir_look:
  assumes "list_all plain_name ps" and "\<And>fs. P fs \<Longrightarrow> contained inn S b fs"
  shows "triple P (real_dir rel (tree_of S) ps False) (\<lambda>r fs. P fs \<and> (\<forall>d. r = Some d \<longrightarrow> may_enter inn S b d fs)) (contained inn S b)"
proof (rule tripleI)
  note t = real_dir_enter [OF assms(1), of inn S b "tree_of S" rel False]
  fix fs r fs' assume P: "P fs" and r: "real_dir rel (tree_of S) ps False fs = (Inr r, fs')"
  from triple_Inr [OF t contained_enter [OF assms(2) [OF P]] r] real_dir_same [OF r] P
  show "P fs' \<and> (\<forall>d. r = Some d \<longrightarrow> may_enter inn S b d fs')" by simp
next
  fix fs e fs' assume P: "P fs" and r: "real_dir rel (tree_of S) ps False fs = (Inl e, fs')"
  then show "contained inn S b fs'" using real_dir_same [OF r] assms(2) by simp
qed

text \<open>Where a look through real directories ends.\<close>

lemma real_dir_at: "list_all plain_name ps \<Longrightarrow> real_dir rel cur ps create fs = (Inr (Some d), fs') \<Longrightarrow> d = cur @ ps"
proof (induction ps arbitrary: cur fs)
  case (Cons p ps)
  then have p: "slash cur p = cur @ [p]" by (simp add: slash_plain)
  from Cons.prems Cons.IH [of "cur @ [p]"] show ?case
    by (auto simp: p Let_def bindS_def thenS_def ret_def raise_def split: prod.splits sum.splits option.splits fnode.splits if_splits)
qed (simp add: ret_def)

lemma real_dir_look_at:
  assumes "list_all plain_name ps" and "\<And>fs. P fs \<Longrightarrow> contained inn S b fs"
  shows "triple P (real_dir rel (tree_of S) ps False)
    (\<lambda>r fs. P fs \<and> (\<forall>d. r = Some d \<longrightarrow> d = tree_of S @ ps \<and> may_enter inn S b d fs)) (contained inn S b)"
proof (rule tripleI)
  note t = real_dir_look [of ps P inn S b rel, OF assms]
  fix fs r fs' assume P: "P fs" and r: "real_dir rel (tree_of S) ps False fs = (Inr r, fs')"
  from triple_Inr [OF t P r] real_dir_at [OF assms(1)] r
  show "P fs' \<and> (\<forall>d. r = Some d \<longrightarrow> d = tree_of S @ ps \<and> may_enter inn S b d fs')" by auto
next
  fix fs e fs' assume "P fs" and "real_dir rel (tree_of S) ps False fs = (Inl e, fs')"
  then show "contained inn S b fs'" using triple_Inl [OF real_dir_look [of ps P inn S b rel, OF assms]] by blast
qed

text \<open>The target of a whiteout: one name, possibly a dot or two.\<close>

lemma clear_contained:
  assumes "CHR ''/'' \<notin> set x" and "x \<noteq> []" and "inn \<and> x = ''..'' \<longrightarrow> d \<noteq> tree_of S"
  shows "triple (may_enter inn S b d) (clear_at (slash d x)) (\<lambda>_. contained inn S b) (contained inn S b)"
proof -
  consider "x = ''.''" | "x = ''..''" | "plain_name x" using assms(1,2) by (auto simp: plain_name_def)
  then show ?thesis
  proof cases
    case 1
    have "case clear_at d fs of (Inr y, fs') \<Rightarrow> contained inn S b fs' | (Inl e, fs') \<Rightarrow> contained inn S b fs'"
      if m: "may_enter inn S b d fs" for fs
    proof (cases "real_chain fs d")
      case True
      then have t: "in_tree inn S b d fs" using m by (simp add: in_tree_def may_enter_def)
      have d: "d \<noteq> []" using t by (auto simp: in_tree_def tree_of_def)
      then have "plain_name (last d)" using True by (simp add: real_chain_def list_all_iff)
      then have "last d \<noteq> ''..''" by (simp add: plain_name_def)
      with d show ?thesis
        using True real_chain_is_dir [OF True] locate_chain [OF True] drop_dir_contained [OF t]
        by (auto simp: clear_at_def os_lstat_def os_rmtree_def os_at_def sem_defs is_dir_def
            split: option.splits fnode.splits)
    next
      case False
      then have "d = S @ [''tree'']" "node fs d = None" "real_chain fs S" "contained inn S b fs"
        using m by (auto simp: may_enter_def tree_of_def contained_def)
      then have "locate fs d = Some d" using locate_real [of fs S "''tree''"] by simp
      then show ?thesis using \<open>node fs d = None\<close> \<open>contained inn S b fs\<close>
        by (simp add: clear_at_def os_lstat_def os_at_def sem_defs)
    qed
    then show ?thesis by (simp add: 1 slash_def triple_def)
  next
    case 2
    have "case clear_at (d @ [''..'']) fs of (Inr y, fs') \<Rightarrow> contained inn S b fs' | (Inl e, fs') \<Rightarrow> contained inn S b fs'"
      if m: "may_enter inn S b d fs" for fs
      using enter_up [OF m]
    proof
      assume "locate fs (d @ [''..'']) = None"
      then show ?thesis using m by (simp add: clear_at_def os_lstat_def os_at_def sem_defs may_enter_def)
    next
      assume l: "locate fs (d @ [''..'']) = Some (butlast d) \<and> real_chain fs d"
      then have t: "in_tree inn S b d fs" using m by (simp add: in_tree_def may_enter_def)
      have "is_dir fs (butlast d)" using l real_chain_butlast real_chain_is_dir by blast
      then show ?thesis using l climb_contained [OF t] assms(3) 2
        by (auto simp: clear_at_def os_lstat_def os_rmtree_def os_at_def sem_defs is_dir_def
            split: option.splits fnode.splits)
    qed
    then show ?thesis by (simp add: 2 slash_def triple_def)
  next
    case 3
    then have "x \<noteq> ''..''" by (simp add: plain_name_def)
    from triple_weaken [OF clear_enter [OF this], of "may_enter inn S b d" inn S b d "\<lambda>_. contained inn S b" "contained inn S b"]
    show ?thesis by (simp add: slash_plain [OF 3] in_tree_contained)
  qed
qed

lemma opt_enter:
  assumes "\<And>d. R d \<Longrightarrow> triple (may_enter inn S b d) (f d) (\<lambda>_. contained inn S b) (contained inn S b)"
  shows "triple (\<lambda>fs. contained inn S b fs \<and> (\<forall>d. r = Some d \<longrightarrow> R d \<and> may_enter inn S b d fs))
    (case r of None \<Rightarrow> ret () | Some d \<Rightarrow> f d) (\<lambda>_. contained inn S b) (contained inn S b)"
  using assms by (cases r) (auto simp: triple_def ret_def)

lemma remove_rel_contained:
  assumes "path_ok parent" and "CHR ''/'' \<notin> set x" and "x \<noteq> []" and "inn \<and> x = ''..'' \<longrightarrow> parent \<noteq> []"
  shows "inv (contained inn S b) (remove_rel (tree_of S) (join_path parent x))"
proof -
  have r: "rpartition_char (CHR ''/'') (join_path parent x) = (parent, parent \<noteq> [], x)"
    using assms(2) rpartition_char_append [OF assms(2), of parent] by (auto simp: join_path_def rpartition_char_def)
  have l: "triple (contained inn S b) (real_dir parent (tree_of S) (parts_of parent) False)
     (\<lambda>r fs. contained inn S b fs \<and> (\<forall>d. r = Some d \<longrightarrow> d = tree_of S @ parts_of parent \<and> may_enter inn S b d fs)) (contained inn S b)"
    by (rule real_dir_look_at) (use assms(1) in \<open>simp_all add: path_ok_def\<close>)
  have "parts_of parent \<noteq> []" if "parent \<noteq> []" using that split_char_nonempty by (simp add: parts_of_def names_def)
  then have "inn \<and> x = ''..'' \<longrightarrow> tree_of S @ parts_of parent \<noteq> tree_of S" using assms(4) by simp
  note c = clear_contained [OF assms(2,3) this]
  show ?thesis
    unfolding inv_def remove_rel_def r prod.case
    by (rule triple_bindS [OF l]) (rule opt_enter, use c in blast)
qed

lemma clear_children_contained:
  assumes "list_all (\<lambda>c. plain_name c) cs"
  shows "triple (may_enter inn S b d) (clear_children d cs) (\<lambda>_. contained inn S b) (contained inn S b)"
  using assms
proof (induction cs)
  case Nil
  show ?case by (auto intro!: triple_ret simp: may_enter_contained)
next
  case (Cons c cs)
  then have c: "plain_name c" "c \<noteq> ''..''" by (auto simp: plain_name_def)
  have "triple (may_enter inn S b d) (clear_at (slash d c)) (\<lambda>_. may_enter inn S b d) (contained inn S b)"
    unfolding slash_plain [OF c(1)]
    by (rule triple_weaken [OF clear_enter [OF c(2)]]) (auto dest: in_tree_may_enter)
  then show ?case unfolding clear_children.simps by (rule triple_thenS) (use Cons in simp)
qed

lemma listdir_enter:
  "triple (may_enter inn S b d) (os_listdir d) (\<lambda>cs fs. list_all plain_name cs \<and> may_enter inn S b d fs) (contained inn S b)"
  by (rule tripleI)
    (auto simp: os_listdir_def os_at_def sem_defs list_all_iff may_enter_contained split: option.splits)

lemma empty_rel_contained:
  assumes "path_ok rel"
  shows "inv (contained inn S b) (empty_rel (tree_of S) rel)"
proof -
  have l: "triple (contained inn S b) (real_dir rel (tree_of S) (parts_of rel) False)
     (\<lambda>r fs. contained inn S b fs \<and> (\<forall>d. r = Some d \<longrightarrow> d = tree_of S @ parts_of rel \<and> may_enter inn S b d fs)) (contained inn S b)"
    by (rule real_dir_look_at) (use assms in \<open>simp_all add: path_ok_def\<close>)
  have c: "triple (\<lambda>fs. list_all plain_name cs \<and> may_enter inn S b d fs) (clear_children d cs)
     (\<lambda>_. contained inn S b) (contained inn S b)" for d cs
    using clear_children_contained [of cs inn S b d] by (auto simp: triple_def)
  have f: "triple (may_enter inn S b d) (bindS (os_listdir d) (clear_children d)) (\<lambda>_. contained inn S b) (contained inn S b)" for d
    by (rule triple_bindS [OF listdir_enter c])
  show ?thesis
    unfolding inv_def empty_rel_def by (rule triple_bindS [OF l]) (rule opt_enter [OF f])
qed

lemma whiteout_name:
  assumes "whiteout_target leaf = Some x" and "CHR ''/'' \<notin> set leaf"
  shows "CHR ''/'' \<notin> set x" and "x \<noteq> []"
  using assms by (auto simp: whiteout_target_def split: if_splits dest: in_set_dropD)

text \<open>The one member name whose whiteout climbs out of the tree.\<close>

definition climbs :: "member \<Rightarrow> bool" where
  "climbs m = (member_path (m_name m) = Inr ''.wh...'')"

lemma whiteout_up:
  assumes "whiteout_target leaf = Some ''..''"
  shows "leaf = ''.wh...''"
proof -
  have "prefix WHITEOUT leaf" "drop (length WHITEOUT) leaf = ''..''"
    using assms by (auto simp: whiteout_target_def split: if_splits)
  then have "leaf = WHITEOUT @ ''..''" by (auto simp: prefix_def)
  then show ?thesis by (simp add: WHITEOUT_def)
qed

lemma top_member:
  assumes "path_ok p" and "rpartition_char (CHR ''/'') p = ([], f, leaf)"
  shows "p = leaf"
proof (cases f)
  case True
  then have "p = CHR ''/'' # leaf" using rpartition_char_join [of "CHR ''/''" p] assms(2) by auto
  then show ?thesis using assms(1) by (auto simp: path_ok_def parts_of_def names_def plain_name_def split: list.splits)
next
  case False
  then show ?thesis using assms(2) by (auto simp: rpartition_char_def split: if_splits)
qed

lemma whiteouts_contained:
  assumes "inn \<longrightarrow> (\<forall>m \<in> set ms. \<not> climbs m)"
  shows "inv (contained inn S b) (whiteouts (tree_of S) ms)"
  using assms
proof (induction ms)
  case (Cons m ms)
  show ?case
  proof (cases "member_path (m_name m)")
    case (Inl e)
    then show ?thesis by (simp add: inv_raise)
  next
    case (Inr p)
    obtain parent f leaf where r: "rpartition_char (CHR ''/'') p = (parent, f, leaf)"
      by (cases "rpartition_char (CHR ''/'') p") auto
    have ok: "path_ok parent" "CHR ''/'' \<notin> set leaf"
      using rpartition_ok [OF member_path_ok [OF Inr] _ r] r
      by (cases "p = []"; auto simp: path_ok_def parts_of_def rpartition_char_def plain_name_def)+
    have up: "inn \<and> x = ''..'' \<longrightarrow> parent \<noteq> []" if x: "whiteout_target leaf = Some x" for x
    proof (intro impI notI)
      assume a: "inn \<and> x = ''..''" and "parent = []"
      then have "p = leaf" using top_member [OF member_path_ok [OF Inr]] r by simp
      moreover have "leaf = ''.wh...''" using whiteout_up x a by simp
      ultimately have "climbs m" using Inr by (simp add: climbs_def)
      then show False using Cons.prems a by simp
    qed
    have "inv (contained inn S b) (case whiteout_target leaf of Some x \<Rightarrow> remove_rel (tree_of S) (join_path parent x) | None \<Rightarrow> ret ())"
    proof (cases "whiteout_target leaf")
      case (Some x)
      show ?thesis unfolding Some option.case
        by (rule remove_rel_contained [OF ok(1) whiteout_name [OF Some ok(2)] up [OF Some]])
    qed (simp add: inv_ret)
    then have "inv (contained inn S b) (if leaf = OPAQUE then empty_rel (tree_of S) parent
        else (case whiteout_target leaf of Some x \<Rightarrow> remove_rel (tree_of S) (join_path parent x) | None \<Rightarrow> ret ()))"
      using empty_rel_contained [OF ok(1)] by simp
    with Cons show ?thesis by (simp add: Inr r inv_thenS)
  qed
qed (simp add: inv_ret)

text \<open>Setting an entry of the modes touches no file; a masked mode is clean.\<close>

lemma masked_clean: "masked m AND 3072 = 0"
  by (simp add: masked_def ac_simps bit_eq_iff bit_and_iff bit_not_iff)

lemma clear_target:
  assumes "plain_name x"
  shows "triple (may_enter inn S b d) (clear_at (d @ [x])) (\<lambda>_. in_tree inn S b d) (contained inn S b)"
  by (rule clear_enter) (use assms in \<open>simp add: plain_name_def\<close>)

lemma new_target:
  assumes "plain_name x" and "clean n"
  shows "triple (in_tree inn S b d) (os_new (d @ [x]) n) (\<lambda>_. contained inn S b) (contained inn S b)"
  by (rule triple_weaken [OF os_new_enter])
    (use assms in \<open>auto simp: plain_name_def dest: in_tree_may_enter in_tree_contained\<close>)

lemma link_target:
  assumes "plain_name x" and "plain_name y"
  shows "triple (\<lambda>fs. in_tree inn S b d fs \<and> may_enter inn S b s fs) (os_link (s @ [y]) (d @ [x]))
    (\<lambda>_. contained inn S b) (contained inn S b)"
proof -
  have st: "triple (\<lambda>fs. in_tree inn S b d fs \<and> may_enter inn S b s fs) (os_lstat (s @ [y]))
     (\<lambda>n fs. in_tree inn S b d fs \<and> (\<forall>k. n = Some k \<longrightarrow> clean k)) (contained inn S b)"
  proof (rule tripleI)
    have y: "y \<noteq> ''..''" using assms(2) by (simp add: plain_name_def)
    fix fs n fs' assume P: "in_tree inn S b d fs \<and> may_enter inn S b s fs" and l: "os_lstat (s @ [y]) fs = (Inr n, fs')"
    from triple_Inr [OF os_lstat_enter [OF y] conjunct2 [OF P] l] os_lstat_same [OF l] P
    show "in_tree inn S b d fs' \<and> (\<forall>k. n = Some k \<longrightarrow> clean k)"
      using clean_at [of inn S b fs "s @ [y]"] by (auto simp: in_tree_def may_enter_def)
  next
    fix fs e fs' assume "in_tree inn S b d fs \<and> may_enter inn S b s fs" and l: "os_lstat (s @ [y]) fs = (Inl e, fs')"
    then show "contained inn S b fs'" using os_lstat_same [OF l] by (simp add: in_tree_def)
  qed
  have "triple (\<lambda>fs. in_tree inn S b d fs \<and> (\<forall>k. n = Some k \<longrightarrow> clean k))
     (case n of Some (FReg a m) \<Rightarrow> os_new (d @ [x]) (FReg a m) | Some (FLink t) \<Rightarrow> os_new (d @ [x]) (FLink t)
        | _ \<Rightarrow> raise Os_Error) (\<lambda>_. contained inn S b) (contained inn S b)" for n
    using new_target [OF assms(1), of _ inn S b d]
    by (auto simp: triple_def raise_def in_tree_contained split: option.split fnode.split)
  then show ?thesis unfolding os_link_def by (rule triple_bindS [OF st])
qed

lemma then_ret: "triple P m (\<lambda>_. Q) E \<Longrightarrow> triple P (thenS m (ret x)) (\<lambda>_. Q) E"
  by (rule triple_thenS, assumption) (simp add: triple_ret)

lemma write_dir:
  assumes "path_ok path" and "plain_name leaf"
  shows "triple (may_enter inn S b d) (bindS (real_dir path (tree_of S) (parts_of path) False) (\<lambda>e.
      thenS (if e = None then thenS (clear_at (d @ [leaf])) (os_mkdir (d @ [leaf]) 493) else ret ()) (ret modes)))
    (\<lambda>_. contained inn S b) (contained inn S b)"
proof -
  have "triple (may_enter inn S b d) (thenS (clear_at (d @ [leaf])) (os_mkdir (d @ [leaf]) 493)) (\<lambda>_. contained inn S b) (contained inn S b)"
    unfolding os_mkdir_def
    by (rule triple_thenS [OF clear_target [OF assms(2)] new_target [OF assms(2)]]) (simp add: clean_def)
  moreover have "triple (may_enter inn S b d) (ret () :: unit fstep) (\<lambda>_. contained inn S b) (contained inn S b)"
    by (auto intro!: triple_ret simp: may_enter_contained)
  ultimately have "triple (may_enter inn S b d)
      (if e = None then thenS (clear_at (d @ [leaf])) (os_mkdir (d @ [leaf]) 493) else ret ())
      (\<lambda>_. contained inn S b) (contained inn S b)" for e :: "path option"
    by simp
  note body = then_ret [OF this]
  have l: "triple (may_enter inn S b d) (real_dir path (tree_of S) (parts_of path) False)
     (\<lambda>r fs. may_enter inn S b d fs \<and> (\<forall>e. r = Some e \<longrightarrow> may_enter inn S b e fs)) (contained inn S b)"
    by (rule real_dir_look) (use assms(1) in \<open>simp_all add: path_ok_def may_enter_contained\<close>)
  show ?thesis by (rule triple_bindS [OF l]) (rule triple_pre [OF body], simp)
qed

lemma write_link:
  assumes "plain_name leaf" and "member_path linkname = Inr source" and "source \<noteq> []"
    and "rpartition_char (CHR ''/'') source = (src_parent, f, src_leaf)"
  shows "triple (in_tree inn S b d) (bindS (real_dir src_parent (tree_of S) (parts_of src_parent) False) (\<lambda>s. case s of
      None \<Rightarrow> raise (Link_Missing source)
    | Some src_dir \<Rightarrow> thenS (os_link (slash src_dir src_leaf) (d @ [leaf])) (ret modes)))
    (\<lambda>_. contained inn S b) (contained inn S b)"
proof -
  note src = rpartition_ok [OF member_path_ok [OF assms(2)] assms(3,4)]
  have l: "triple (in_tree inn S b d) (real_dir src_parent (tree_of S) (parts_of src_parent) False)
     (\<lambda>r fs. in_tree inn S b d fs \<and> (\<forall>e. r = Some e \<longrightarrow> may_enter inn S b e fs)) (contained inn S b)"
    by (rule real_dir_look) (use src(1) in \<open>simp_all add: path_ok_def in_tree_contained\<close>)
  have "triple (\<lambda>fs. in_tree inn S b d fs \<and> (\<forall>e. r = Some e \<longrightarrow> may_enter inn S b e fs)) (case r of
      None \<Rightarrow> raise (Link_Missing source)
    | Some src_dir \<Rightarrow> thenS (os_link (slash src_dir src_leaf) (d @ [leaf])) (ret modes))
    (\<lambda>_. contained inn S b) (contained inn S b)" for r
  proof (cases r)
    case None
    then show ?thesis by (auto intro!: triple_raise simp: in_tree_contained)
  next
    case (Some e)
    show ?thesis unfolding Some option.case slash_plain [OF src(2)]
      by (rule triple_pre [OF then_ret [OF link_target [OF assms(1) src(2)]]]) simp
  qed
  then show ?thesis by (rule triple_bindS [OF l])
qed

lemma under_nonempty: "under_path p q \<Longrightarrow> q \<noteq> [] \<Longrightarrow> p \<noteq> []"
  by (auto simp: under_path_def)

lemma write_member_contained:
  assumes "path_ok path" and "path \<noteq> []" and "\<forall>w \<in> set wanted. w \<noteq> []"
  shows "inv (contained inn S b) (write_member m path (tree_of S) wanted modes)"
proof -
  obtain parent f leaf where r: "rpartition_char (CHR ''/'') path = (parent, f, leaf)"
    by (cases "rpartition_char (CHR ''/'') path") auto
  note ok = rpartition_ok [OF assms(1,2) r]
  have enter: "triple (contained inn S b) (real_dir parent (tree_of S) (parts_of parent) True)
     (\<lambda>r fs. r \<noteq> None \<and> may_enter inn S b (the r) fs) (contained inn S b)"
    by (rule triple_weaken [OF real_dir_enter])
      (use ok(1) contained_enter in \<open>auto simp: path_ok_def\<close>)
  have clr: "triple (may_enter inn S b d) (thenS (clear_at (d @ [leaf])) k) (\<lambda>_. contained inn S b) (contained inn S b)"
    if "triple (in_tree inn S b d) k (\<lambda>_. contained inn S b) (contained inn S b)" for d and k :: "dir_modes fstep"
    by (rule triple_thenS [OF clear_target [OF ok(2)] that])
  have cl: "clean (FReg x (masked y))" "clean (FLink z)" for x y z
    by (simp_all add: clean_def masked_clean)
  have sym: "triple (in_tree inn S b d) (thenS (os_symlink t (d @ [leaf])) (ret modes)) (\<lambda>_. contained inn S b) (contained inn S b)" for d t
    by (rule then_ret)
      (auto simp: os_symlink_def triple_raise in_tree_contained intro: new_target [OF ok(2) cl(2)])
  have lnk: "triple (in_tree inn S b d) (case member_path (m_link m) of
                Inl e \<Rightarrow> raise e
              | Inr source \<Rightarrow>
                  if \<not> list_ex (under_path source) wanted then raise (Link_Outside source)
                  else (case rpartition_char (CHR ''/'') source of (src_parent, _, src_leaf) \<Rightarrow>
                    bindS (real_dir src_parent (tree_of S) (parts_of src_parent) False) (\<lambda>s. case s of
                      None \<Rightarrow> raise (Link_Missing source)
                    | Some src_dir \<Rightarrow> thenS (os_link (slash src_dir src_leaf) (d @ [leaf])) (ret modes))))
      (\<lambda>_. contained inn S b) (contained inn S b)" for d
    using assms(3) under_nonempty
    by (auto split: sum.split prod.split simp: list_ex_iff triple_raise in_tree_contained intro!: write_link [OF ok(2)])
  have "triple (\<lambda>fs. e \<noteq> None \<and> may_enter inn S b (the e) fs)
      (let target = slash (the e) leaf; mode = masked (m_mode m) in
        if m_kind m = Is_Dir then
          bindS (real_dir path (tree_of S) (parts_of path) False) (\<lambda>e.
            thenS (if e = None then thenS (clear_at target) (os_mkdir target 493) else ret ())
              (ret (AList.update path mode modes)))
        else thenS (clear_at target)
          (if m_kind m = Is_Reg then thenS (os_new target (FReg (m_data m) mode)) (ret modes)
           else if m_kind m = Is_Sym then thenS (os_symlink (m_link m) target) (ret modes)
           else (case member_path (m_link m) of
                Inl e \<Rightarrow> raise e
              | Inr source \<Rightarrow>
                  if \<not> list_ex (under_path source) wanted then raise (Link_Outside source)
                  else (case rpartition_char (CHR ''/'') source of (src_parent, _, src_leaf) \<Rightarrow>
                    bindS (real_dir src_parent (tree_of S) (parts_of src_parent) False) (\<lambda>s. case s of
                      None \<Rightarrow> raise (Link_Missing source)
                    | Some src_dir \<Rightarrow> thenS (os_link (slash src_dir src_leaf) target) (ret modes))))))
      (\<lambda>_. contained inn S b) (contained inn S b)" for e
    unfolding Let_def slash_plain [OF ok(2)]
    by (rule triple_pre [where P = "may_enter inn S b (the e)"], intro triple_if write_dir [OF assms(1) ok(2)] clr sym lnk then_ret [OF new_target [OF ok(2) cl(1)]])
      simp
  note body = triple_bindS [OF enter this]
  show ?thesis
    unfolding inv_def write_member_def r prod.case
    by (intro triple_if body triple_ret)
qed

lemma add_members_contained:
  assumes "\<forall>w \<in> set wanted. w \<noteq> []"
  shows "inv (contained inn S b) (add_members (tree_of S) wanted ms modes)"
proof (induction ms arbitrary: modes)
  case (Cons m ms)
  show ?case
    by (cases "member_path (m_name m)")
      (auto intro!: inv_intros Cons write_member_contained assms dest: member_path_ok)
qed (simp add: inv_ret)

lemma apply_layer_contained:
  "\<forall>w \<in> set wanted. w \<noteq> [] \<Longrightarrow> inn \<longrightarrow> (\<forall>m \<in> set ms. \<not> climbs m) \<Longrightarrow> inv (contained inn S b) (apply_layer ms (tree_of S) wanted modes)"
  unfolding apply_layer_def by (intro inv_intros whiteouts_contained add_members_contained)

lemma raw_prefixes_nonempty: "raw_prefixes paths = Inr out \<Longrightarrow> w \<in> set out \<Longrightarrow> w \<noteq> []"
proof (induction paths arbitrary: out)
  case (Cons raw rest)
  have "join ''/'' ps \<noteq> []" if "ps \<noteq> []" "[] \<notin> set ps" for ps
    using that by (cases ps; cases "tl ps") auto
  moreover have "[] \<notin> set (kept_parts raw)" by (simp add: kept_parts_def)
  ultimately have "kept_parts raw \<noteq> [] \<Longrightarrow> join ''/'' (kept_parts raw) \<noteq> []" by blast
  then show ?case using Cons by (auto simp: Let_def bindR_Inr_iff split: if_splits)
qed simp

lemma prefixes_nonempty: "prefixes_of paths = Inr wanted \<Longrightarrow> \<forall>w \<in> set wanted. w \<noteq> []"
  by (auto simp: prefixes_of_def bindR_Inr_iff unique_def Let_def dest: raw_prefixes_nonempty)

section \<open>The link check\<close>

lemma names_no_slash: "p \<in> set (names t) \<Longrightarrow> CHR ''/'' \<notin> set p"
  by (auto simp: names_def dest: split_char_parts)

lemma readlink_real:
  assumes "real_chain fs d" and "p \<noteq> ''..''"
  shows "os_readlink fs (d @ [p]) = (case node fs (d @ [p]) of Some (FLink t) \<Rightarrow> Some t | _ \<Rightarrow> None)"
  using locate_real [OF assms] by (simp add: os_readlink_def)

text \<open>When the check says that a link stays inside, the kernel's walk ends inside.\<close>

lemma stays_sound:
  assumes "stays h fs R at todo" and "real_chain fs (R @ at)" and "\<forall>p \<in> set todo. CHR ''/'' \<notin> set p"
    and "walk h fs (R @ at) todo = Some d"
  shows "prefix R d"
  using assms
proof (induction h fs R at todo rule: stays.induct)
  case (2 h fs R at p todo)
  consider "p = [] \<or> p = ''.''" | "p = ''..''" | "p \<noteq> []" "p \<noteq> ''.''" "p \<noteq> ''..''" by blast
  then show ?case
  proof cases
    case 1
    then show ?thesis using 2 by auto
  next
    case 2
    then have "at \<noteq> []" using "2.prems"(1) by (auto split: if_splits)
    moreover have "real_chain fs (R @ butlast at)"
      using real_chain_butlast [OF "2.prems"(2)] calculation by (simp add: butlast_append)
    ultimately show ?thesis using 2 "2.IH"(2) "2.prems" by (auto simp: butlast_append)
  next
    case 3
    have pl: "plain_name p" using 3 "2.prems"(3) by (simp add: plain_name_def)
    note rl = readlink_real [OF "2.prems"(2) 3(3)]
    show ?thesis
    proof (cases "node fs (R @ at @ [p])")
      case None
      then show ?thesis using 3 "2.prems"(4) by (auto split: if_splits)
    next
      case (Some n)
      show ?thesis
      proof (cases n)
        case (FReg u v)
        then show ?thesis using 3 Some "2.prems"(4) by (auto split: if_splits)
      next
        case (FDir m)
        have "real_chain fs (R @ at @ [p])"
          using "2.prems"(2) Some FDir pl real_chain_snoc [of fs "R @ at" p] by (simp add: is_dir_def)
        then show ?thesis using "2.IH"(3) 3 Some FDir rl "2.prems" by simp
      next
        case (FLink t)
        then obtain r where "h = Suc r" using 3 Some "2.prems"(4) by (cases h) auto
        then show ?thesis
          using "2.IH"(4) [of t r] 3 Some FLink rl "2.prems" names_no_slash by (auto split: if_splits)
      qed
    qed
  qed
qed (auto simp: prefix_def)

lemma resolves_inside_sound:
  assumes "resolves_inside fs R (at @ [leaf])" and "real_chain fs (R @ at)" and "plain_name leaf"
    and "walk max_hops fs (R @ at) [leaf] = Some d"
  shows "prefix R d"
proof -
  have l: "leaf \<noteq> []" "leaf \<noteq> ''.''" "leaf \<noteq> ''..''" using assms(3) by (auto simp: plain_name_def)
  obtain t where t: "node fs (R @ at @ [leaf]) = Some (FLink t)"
    and s: "\<not> absolute t" "stays 39 fs R at (names t)"
    using assms(1) readlink_real [OF assms(2) l(3)]
    by (auto simp: resolves_inside_def max_hops_def split: option.splits fnode.splits)
  have "walk 39 fs (R @ at) (names t) = Some d"
    using assms(4) l t s by (simp add: max_hops_def numeral_eq_Suc)
  then show ?thesis using stays_sound [OF s(2) assms(2)] names_no_slash by blast
qed

section \<open>Properties\<close>

text \<open>C37: unpacking a layer stays in the tree. Whatever names, modes and links the members of a layer have, and
  whether the layer applies or is refused part way: when no member is named \<open>.wh...\<close> at the top, no node
  outside \<open>tree\<close> changes, the downloaded layer beside it and the rest of the staging directory among them; with
  such a member, whose whiteout is the parent of \<open>tree\<close>, no node outside the staging directory changes. In the
  tree no node has a set-user-id or set-group-id bit.\<close>

theorem layer_stays_in_tree:
  assumes "real_chain fs (tree_of S)" and "\<forall>p n. prefix (tree_of S) p \<and> node fs p = Some n \<longrightarrow> clean n"
    and "prefixes_of paths = Inr wanted" and "apply_layer ms (tree_of S) wanted modes fs = (r, fs')"
  shows "((\<forall>m \<in> set ms. member_path (m_name m) \<noteq> Inr ''.wh...'') \<longrightarrow>
        (\<forall>p. \<not> prefix (tree_of S) p \<longrightarrow> node fs' p = node fs p))
    \<and> (\<forall>p. \<not> strict_prefix S p \<longrightarrow> node fs' p = node fs p)
    \<and> (\<forall>p n. prefix (tree_of S) p \<and> node fs' p = Some n \<longrightarrow> clean n)"
proof -
  have c: "contained inn S (node fs) fs" for inn
    using assms(1,2) by (simp add: contained_def tree_of_def real_chain_snoc)
  have inner: "\<forall>p. \<not> prefix (tree_of S) p \<longrightarrow> node fs' p = node fs p" if "\<forall>m \<in> set ms. member_path (m_name m) \<noteq> Inr ''.wh...''"
  proof -
    have "\<forall>m \<in> set ms. \<not> climbs m" using that by (simp add: climbs_def)
    from inv_step [OF apply_layer_contained [OF prefixes_nonempty [OF assms(3)], of True ms] c [of True], of modes] this
    show ?thesis using assms(4) by (simp add: contained_def region_def)
  qed
  have "contained False S (node fs) fs'"
    using inv_step [OF apply_layer_contained [OF prefixes_nonempty [OF assms(3)], of False ms] c [of False], of modes] assms(4) by simp
  then have "\<forall>p. \<not> strict_prefix S p \<longrightarrow> node fs' p = node fs p" "\<forall>p n. prefix (tree_of S) p \<and> node fs' p = Some n \<longrightarrow> clean n"
    unfolding contained_def region_def by simp_all
  with inner show ?thesis by blast
qed

definition demo_fs :: fs where
  "demo_fs = [([''d''], FDir 448), ([''d'', ''s''], FDir 448), ([''d'', ''s'', ''tree''], FDir 493),
     ([''d'', ''s'', ''blob''], FReg ''z'' 384), ([''etc''], FDir 493), ([''etc'', ''passwd''], FReg ''root'' 420)]"

definition demo_members :: "member list" where
  "demo_members =
     [\<lparr>m_name = ''usr/x'', m_kind = Is_Sym, m_mode = 511, m_link = ''/etc'', m_data = []\<rparr>,
      \<lparr>m_name = ''usr/x/passwd'', m_kind = Is_Reg, m_mode = 2541, m_link = [], m_data = ''me''\<rparr>]"

lemma demo_chain: "real_chain demo_fs (tree_of [''d'', ''s''])"
  by (simp add: tree_of_def real_chain_snoc [of _ "[''d'', ''s'']", simplified]
      real_chain_snoc [of _ "[''d'']", simplified] real_chain_snoc [of _ "[]", simplified])
    (simp add: is_dir_def node_def plain_name_def demo_fs_def)

lemma demo_clean: "\<forall>p n. prefix (tree_of [''d'', ''s'']) p \<and> node demo_fs p = Some n \<longrightarrow> clean n"
proof -
  have "\<forall>(p, n) \<in> set demo_fs. clean n" by code_simp
  then have "clean n" if "node demo_fs p = Some n" "p \<noteq> []" for p n
    using that map_of_SomeD [of demo_fs p n] by (auto simp: node_def)
  moreover have "p \<noteq> []" if "prefix (tree_of [''d'', ''s'']) p" for p using that by (auto simp: tree_of_def)
  ultimately show ?thesis by blast
qed

theorem layer_stays_in_tree_witness:
  "\<exists>r fs'. apply_layer demo_members (tree_of [''d'', ''s'']) [''usr''] [] demo_fs = (r, fs')
     \<and> r = Inl (Through_Symlink ''usr/x'') \<and> node fs' [''etc'', ''passwd''] = Some (FReg ''root'' 420)
     \<and> node fs' [''d'', ''s'', ''blob''] = Some (FReg ''z'' 384)"
proof -
  let ?a = "apply_layer demo_members (tree_of [''d'', ''s'']) [''usr''] [] demo_fs"
  have w: "prefixes_of [''usr''] = Inr [''usr'']" by code_simp
  have "?a = (fst ?a, snd ?a)" by simp
  note all = layer_stays_in_tree [OF demo_chain demo_clean w this]
  have "list_all (\<lambda>m. member_path (m_name m) \<noteq> Inr ''.wh...'') demo_members" by code_simp
  then have "\<forall>m \<in> set demo_members. member_path (m_name m) \<noteq> Inr ''.wh...''" by (simp add: list_all_iff)
  with all have o: "\<forall>p. \<not> prefix (tree_of [''d'', ''s'']) p \<longrightarrow> node (snd ?a) p = node demo_fs p" by blast
  have "node (snd ?a) [''etc'', ''passwd''] = node demo_fs [''etc'', ''passwd'']"
    "node (snd ?a) [''d'', ''s'', ''blob''] = node demo_fs [''d'', ''s'', ''blob'']"
    by (rule o [rule_format], simp add: tree_of_def)+
  moreover have "node demo_fs [''etc'', ''passwd''] = Some (FReg ''root'' 420)" "node demo_fs [''d'', ''s'', ''blob''] = Some (FReg ''z'' 384)"
    "fst ?a = Inl (Through_Symlink ''usr/x'')"
    by code_simp+
  ultimately show ?thesis by (metis prod.collapse)
qed

text \<open>C38: the link check is sound. When \<open>_check_links\<close> lets a tree pass, following any symbolic
  link below the checked directory with the kernel's rules, chains of links and their \<open>..\<close>
  included, ends at a path inside the tree, if it ends anywhere.\<close>

theorem checked_links_stay_inside:
  assumes "check_links R p fs = (Inr (), fs')" and "real_chain fs (R @ at)" and "plain_name leaf"
    and "strict_prefix (R @ parts_of p) (R @ at @ [leaf])" and "node fs (R @ at @ [leaf]) = Some (FLink t)"
    and "walk max_hops fs (R @ at) [leaf] = Some d"
  shows "prefix R d"
proof -
  have "leaf \<noteq> ''..''" using assms(3) by (simp add: plain_name_def)
  then have "os_islink fs (R @ at @ [leaf])"
    using locate_real [OF assms(2)] assms(5) by (simp add: os_islink_def)
  moreover have "R @ at @ [leaf] \<in> set (map fst fs)"
    using assms(5) by (force simp: node_def dest: map_of_SomeD)
  ultimately have "R @ at @ [leaf] \<in> set (links_below fs (R @ parts_of p))"
    using assms(4) by (simp add: links_below_def)
  moreover have "find (\<lambda>l. \<not> resolves_inside fs R (drop (length R) l)) (links_below fs (R @ parts_of p)) = None"
    using assms(1) by (auto simp: check_links_def sem_defs split: option.splits)
  ultimately have "resolves_inside fs R (at @ [leaf])"
    by (auto simp: find_None_iff)
  then show ?thesis using resolves_inside_sound [OF _ assms(2,3,6)] by blast
qed

theorem checked_links_stay_inside_witness:
  "\<exists>d. walk max_hops (([''t'', ''a'', ''l''], FLink ''../b'') # [([''t''], FDir 493), ([''t'', ''a''], FDir 493), ([''t'', ''b''], FDir 493)])
      [''t'', ''a''] [''l''] = Some d \<and> prefix [''t''] d"
proof -
  let ?fs = "([''t'', ''a'', ''l''], FLink ''../b'') # [([''t''], FDir 493), ([''t'', ''a''], FDir 493), ([''t'', ''b''], FDir 493)]"
  have w: "walk max_hops ?fs [''t'', ''a''] [''l''] = Some [''t'', ''b'']" by code_simp
  have "check_links [''t''] ''a'' ?fs = (Inr (), ?fs)" by code_simp
  from checked_links_stay_inside [OF this, of "[''a'']" "''l''" "''../b''" "[''t'', ''b'']"] w
  have "prefix [''t''] [''t'', ''b'']"
    by (simp add: real_chain_snoc [of _ "[''t'']" "''a''", simplified] real_chain_snoc [of _ "[]", simplified]
        is_dir_def node_def plain_name_def parts_of_def names_def strict_prefix_def)
  with w show ?thesis by blast
qed

text \<open>A whiteout can name \<open>..\<close>. The name \<open>.wh...\<close> passes the check against climbing names, and the
  removal it asks for empties the staging directory around the tree, the downloaded layer included,
  and then fails.\<close>

theorem whiteout_climbs:
  assumes "m_name m = ''.wh...''" and "real_chain fs (tree_of S)"
  shows "whiteouts (tree_of S) (m # ms) fs = (Inl Os_Error, del_below S fs)"
proof -
  have p: "member_path ''.wh...'' = Inr ''.wh...''" by code_simp
  have r: "rpartition_char (CHR ''/'') ''.wh...'' = ([], False, ''.wh...'')" by code_simp
  have w: "''.wh...'' \<noteq> OPAQUE" "whiteout_target ''.wh...'' = Some ''..''" by code_simp+
  have "clear_at (tree_of S @ [''..'']) fs = (Inl Os_Error, del_below S fs)"
  proof -
    have "locate fs (tree_of S @ [''..'']) = Some S" using locate_up [OF assms(2)] by (simp add: tree_of_def)
    moreover have "is_dir fs S" using assms(2) real_chain_is_dir by (simp add: tree_of_def real_chain_snoc)
    ultimately show ?thesis
      by (auto simp: clear_at_def os_lstat_def os_rmtree_def os_at_def sem_defs is_dir_def split: option.splits fnode.splits)
  qed
  then have "remove_rel (tree_of S) ''..'' fs = (Inl Os_Error, del_below S fs)"
    by (simp add: remove_rel_def rpartition_char_def parts_of_def bindS_def ret_def slash_def)
  then show ?thesis
    by (simp add: assms(1) p r w join_path_def thenS_def bindS_def)
qed

theorem whiteout_climbs_witness:
  "node demo_fs [''d'', ''s'', ''blob''] \<noteq> None \<and>
   (\<exists>fs'. whiteouts (tree_of [''d'', ''s'']) [\<lparr>m_name = ''.wh...'', m_kind = Is_Reg, m_mode = 0, m_link = [], m_data = []\<rparr>] demo_fs
     = (Inl Os_Error, fs') \<and> node fs' [''d'', ''s'', ''blob''] = None)"
  using whiteout_climbs [of "\<lparr>m_name = ''.wh...'', m_kind = Is_Reg, m_mode = 0, m_link = [], m_data = []\<rparr>"
      demo_fs "[''d'', ''s'']" "[]", OF _ demo_chain]
  by (simp add: node_del_below strict_prefix_def) (simp add: node_def demo_fs_def)

end
