(* ===== verification/Fetch_Release.thy ===== *)
theory Fetch_Release
  imports Image_Pin Unpack_Safety
begin

text \<open>
  Fetching a release image: \<open>src/ansible/helpers/fetch_release.py\<close> and the registry rules of
  \<open>src/ansible/helpers/catena_admin_release.py\<close>. The network, the SHA-256 digest, the JSON and tar
  readers, \<open>urljoin\<close> and the machine's name are arguments (\<open>world\<close>): the network answers each
  request with anything it likes, differently each time.
\<close>

section \<open>The world\<close>

type_synonym headers = "(string \<times> string) list"

record request =
  rq_url :: string
  rq_headers :: headers
  rq_method :: string

datatype reply =
    Answer headers string
  | Refusal int headers
  | No_Answer \<comment> \<open>an error of the connection\<close>
  | Half_Answer \<comment> \<open>a body cut short, \<open>IncompleteRead\<close>\<close>

record world =
  w_net :: "request \<Rightarrow> nat \<Rightarrow> reply"
  w_hexdigest :: "string \<Rightarrow> string"
  w_json :: "string \<Rightarrow> py option"
  w_untar :: "string \<Rightarrow> member list option"
  w_urljoin :: "string \<Rightarrow> string \<Rightarrow> string"
  w_machine :: string

record reg =
  r_host :: string
  r_insecure :: bool
  r_token :: string
  r_log :: "request list" \<comment> \<open>the requests sent, newest first\<close>

type_synonym 'a rstep = "(reg, fetch_error, 'a) sem"

definition sha256 :: "world \<Rightarrow> string \<Rightarrow> string" where
  "sha256 w data = ''sha256:'' @ w_hexdigest w data"

section \<open>Naming the image\<close>

definition hex_char :: "char \<Rightarrow> bool" where
  "hex_char c = (is_digit c \<or> (let n = of_char c :: nat in 97 \<le> n \<and> n \<le> 102))"

text \<open>The four patterns, each as the language of its \<open>fullmatch\<close>.\<close>

definition digest_ok :: "string \<Rightarrow> bool" where
  "digest_ok s = (prefix ''sha256:'' s \<and> length s = 71 \<and> list_all hex_char (drop 7 s))"

definition tag_ok :: "string \<Rightarrow> bool" where
  "tag_ok s = (s \<noteq> [] \<and> length s \<le> 128 \<and> (is_alnum (hd s) \<or> hd s = CHR ''_'')
     \<and> list_all (\<lambda>c. is_alnum c \<or> c = CHR ''_'' \<or> c = CHR ''.'' \<or> c = CHR ''-'') s)"

definition host_ok :: "string \<Rightarrow> bool" where
  "host_ok s = (case partition_char (CHR '':'') s of (name, colon, port) \<Rightarrow>
     name \<noteq> [] \<and> list_all (\<lambda>c. is_alnum c \<or> c = CHR ''.'' \<or> c = CHR ''-'') name
     \<and> (colon \<longrightarrow> port \<noteq> [] \<and> list_all is_digit port))"

definition path_part_ok :: "string \<Rightarrow> bool" where
  "path_part_ok s = (s \<noteq> [] \<and> (is_lower (hd s) \<or> is_digit (hd s)) \<and> (is_lower (last s) \<or> is_digit (last s))
     \<and> list_all (\<lambda>c. is_lower c \<or> is_digit c \<or> c = CHR ''.'' \<or> c = CHR ''_'' \<or> c = CHR ''-'') s)"

definition repo_path_ok :: "string \<Rightarrow> bool" where
  "repo_path_ok s = list_all path_part_ok (split_char (CHR ''/'') s)"

record ref =
  f_repository :: string
  f_host :: string
  f_path :: string
  f_tag :: string
  f_digest :: string

definition ref_name :: "ref \<Rightarrow> string" where
  "ref_name r = f_repository r @ (if f_tag r \<noteq> [] then '':'' @ f_tag r else [])
     @ (if f_digest r \<noteq> [] then ''@'' @ f_digest r else [])"

definition split_repository :: "string \<Rightarrow> fetch_error + string \<times> string" where
  "split_repository repository =
     (let repo = strip_by (\<lambda>c. c = CHR ''/'') (strip repository) in
      if repo = [] then Inl No_Repository
      else (case partition_char (CHR ''/'') repo of (head, _, rest) \<Rightarrow>
        if rest \<noteq> [] \<and> (CHR ''.'' \<in> set head \<or> CHR '':'' \<in> set head \<or> head = ''localhost'')
        then Inr (head, rest) else Inr (''registry-1.docker.io'', repo)))"

definition parse_ref :: "string \<Rightarrow> fetch_error + ref" where
  "parse_ref text =
     (let ref = strip text in
      case partition_char (CHR ''@'') ref of (name, _, digest) \<Rightarrow>
        if name = [] then Inl Empty_Reference
        else if digest \<noteq> [] \<and> \<not> digest_ok digest then Inl (Bad_Digest ref)
        else (case split_ref name of (repository, tag) \<Rightarrow>
          bindR (split_repository repository) (\<lambda>(host, path).
            if \<not> (host_ok host \<and> repo_path_ok path \<and> (tag = [] \<or> tag_ok tag)) then Inl (Not_A_Reference ref)
            else Inr \<lparr>f_repository = repository, f_host = host, f_path = path, f_tag = tag, f_digest = digest\<rparr>)))"

text \<open>The store as read from its path: absent, not JSON, or a document.\<close>

datatype store_file = No_Store | Not_Json_Store | Store_Doc py

definition pinned_image :: "string \<Rightarrow> store_file \<Rightarrow> fetch_error + string" where
  "pinned_image repository store = (case store of
      No_Store \<Rightarrow> Inr []
    | Not_Json_Store \<Rightarrow> Inl Not_Json
    | Store_Doc (PDict d) \<Rightarrow> Inr (catena_image_pinned (dget d ''image_pins'') repository)
    | Store_Doc _ \<Rightarrow> Inl Not_An_Object)"

text \<open>\<open>docker service inspect\<close>: nothing when there is no docker, else its exit code and output.\<close>

definition swarm_image :: "string \<Rightarrow> (int \<times> string) option \<Rightarrow> string" where
  "swarm_image repository docker = (case docker of
      None \<Rightarrow> []
    | Some (code, output) \<Rightarrow>
        (let im = (if code = 0 then strip output else []) in
         if fst (split_ref im) = repository then im else []))"

section \<open>Talking to the registry\<close>

definition hget :: "headers \<Rightarrow> string \<Rightarrow> string option" where
  "hget hs name = map_of (map (\<lambda>(k, v). (lower k, v)) hs) (lower name)"

definition REDIRECTS :: "int list" where "REDIRECTS = [301, 302, 303, 307, 308]"

definition url_netloc :: "string \<Rightarrow> string" where
  "url_netloc url =
     (let rest = (if url_scheme url \<noteq> [] then drop (length (url_scheme url) + 1) url else url) in
      if prefix ''//'' rest
      then takeWhile (\<lambda>c. c \<noteq> CHR ''/'' \<and> c \<noteq> CHR ''?'' \<and> c \<noteq> CHR ''#'') (drop 2 rest) else [])"

definition url_allowed :: "bool \<Rightarrow> string \<Rightarrow> bool" where
  "url_allowed insecure url = (url_scheme url = ''https'' \<or> url_scheme url = ''http'' \<and> insecure)"

definition note_request :: "request \<Rightarrow> unit rstep" where
  "note_request rq = modS (\<lambda>s. s\<lparr>r_log := rq # r_log s\<rparr>)"

definition redirected :: "world \<Rightarrow> request \<Rightarrow> string \<Rightarrow> request" where
  "redirected w rq location =
     (let url = w_urljoin w (rq_url rq) location in
      \<lparr>rq_url = url,
       rq_headers = (if url_netloc url \<noteq> url_netloc (rq_url rq)
                     then filter (\<lambda>h. fst h \<noteq> ''Authorization'') (rq_headers rq) else rq_headers rq),
       rq_method = rq_method rq\<rparr>)"

text \<open>\<open>_send\<close>: at most \<open>_MAX_REDIRECTS + 1\<close> requests; the first argument counts those left.\<close>

fun send_from :: "nat \<Rightarrow> world \<Rightarrow> request \<Rightarrow> (headers \<times> string) rstep" where
  "send_from 0 w rq = raise Too_Many_Redirects"
| "send_from (Suc n) w rq =
     bindS (getS r_insecure) (\<lambda>insecure.
       if \<not> url_allowed insecure (rq_url rq) then raise (Bad_Url (rq_url rq))
       else
         bindS (getS (\<lambda>s. w_net w rq (length (r_log s)))) (\<lambda>answer.
         thenS (note_request rq)
           (case answer of
              Answer hs body \<Rightarrow> ret (hs, body)
            | No_Answer \<Rightarrow> raise Net_Error
            | Half_Answer \<Rightarrow> raise Cut_Short
            | Refusal code hs \<Rightarrow>
                if code \<notin> set REDIRECTS then raise (Http_Error code hs)
                else (case hget hs ''Location'' of
                    None \<Rightarrow> raise (Http_Error code hs)
                  | Some location \<Rightarrow>
                      if location = [] then raise (Http_Error code hs)
                      else send_from n w (redirected w rq location)))))"

definition MAX_REDIRECTS :: nat where "MAX_REDIRECTS = 5"

definition send :: "world \<Rightarrow> request \<Rightarrow> (headers \<times> string) rstep" where
  "send = send_from (MAX_REDIRECTS + 1)"

definition base_url :: "reg \<Rightarrow> string" where
  "base_url s = (if r_insecure s then ''http'' else ''https'') @ ''://'' @ r_host s"

definition request_for :: "string \<Rightarrow> string \<Rightarrow> string \<Rightarrow> reg \<Rightarrow> request" where
  "request_for url method accept s =
     \<lparr>rq_url = url,
      rq_headers = (''Accept'', accept) # (if r_token s \<noteq> [] then [(''Authorization'', ''Bearer '' @ r_token s)] else []),
      rq_method = method\<rparr>"

section \<open>The bearer challenge\<close>

definition word_char :: "char \<Rightarrow> bool" where
  "word_char c = (is_alnum c \<or> c = CHR ''_'' \<or> (let n = of_char c :: nat in
     n \<in> {170, 178, 179, 181, 185, 186, 188, 189, 190} \<or> 192 \<le> n \<and> n \<noteq> 215 \<and> n \<noteq> 247))"

definition quote_char :: char where "quote_char = CHR 0x22"

text \<open>\<open>_BEARER_PARAM.findall\<close>: after a word, an equals sign and a quoted value.\<close>

function bearer_params :: "string \<Rightarrow> (string \<times> string) list" where
  "bearer_params s =
     (let s1 = dropWhile (\<lambda>c. \<not> word_char c) s; name = takeWhile word_char s1; s2 = dropWhile word_char s1 in
      if s1 = [] then []
      else if prefix [CHR ''='', quote_char] s2 \<and> quote_char \<in> set (drop 2 s2)
      then (name, takeWhile (\<lambda>c. c \<noteq> quote_char) (drop 2 s2))
             # bearer_params (drop 1 (dropWhile (\<lambda>c. c \<noteq> quote_char) (drop 2 s2)))
      else bearer_params s2)"
  by pat_completeness auto
termination
proof (relation "measure length")
  have dw: "length (dropWhile P t) \<le> length t" for P and t :: string by (rule length_dropWhile_le)
  have shrink: "length (dropWhile word_char (dropWhile (\<lambda>c. \<not> word_char c) s)) < length s"
    if "dropWhile (\<lambda>c. \<not> word_char c) s \<noteq> []" for s
  proof -
    from that obtain c t where c: "dropWhile (\<lambda>c. \<not> word_char c) s = c # t"
      unfolding neq_Nil_conv by blast
    then have "word_char c" using hd_dropWhile [of "\<lambda>c. \<not> word_char c" s] by simp
    then have "length (dropWhile word_char (c # t)) \<le> length t" using dw [of word_char t] by simp
    moreover have "length (c # t) \<le> length s" using dw [of "\<lambda>c. \<not> word_char c" s] c by simp
    ultimately show ?thesis using c by simp
  qed
  show "wf (measure length)" by simp
  fix s x xa xb :: string
  assume "x = dropWhile (\<lambda>c. \<not> word_char c) s" "xa = takeWhile word_char x" "xb = dropWhile word_char x" "x \<noteq> []"
  then have l: "length xb < length s" using shrink by simp
  show "(drop 1 (dropWhile (\<lambda>c. c \<noteq> quote_char) (drop 2 xb)), s) \<in> measure length"
    using l dw [of "\<lambda>c. c \<noteq> quote_char" "drop 2 xb"] by simp
  show "(xb, s) \<in> measure length" using l by simp
qed

declare bearer_params.simps [simp del]

definition bearer_challenge :: "int \<Rightarrow> headers \<Rightarrow> (string \<times> string) list option" where
  "bearer_challenge code hs =
     (if code \<noteq> 401 then None
      else (let header = (case hget hs ''WWW-Authenticate'' of None \<Rightarrow> [] | Some h \<Rightarrow> h) in
        if \<not> prefix ''bearer '' (lower header) then None
        else Some (foldl (\<lambda>d (k, v). AList.update k v d) [] (bearer_params header))))"

definition token_url :: "(string \<times> string) list \<Rightarrow> fetch_error + string" where
  "token_url challenge = (case map_of challenge ''realm'' of
      None \<Rightarrow> Inl No_Realm
    | Some realm \<Rightarrow>
        if realm = [] then Inl No_Realm
        else Inr (realm @ (if CHR ''?'' \<in> set realm then ''&'' else ''?'')
          @ urlencode (filter (\<lambda>(k, v). (k = ''service'' \<or> k = ''scope'') \<and> v \<noteq> []) challenge)))"

definition liftR :: "fetch_error + 'a \<Rightarrow> 'a rstep" where
  "liftR r = (case r of Inl e \<Rightarrow> raise e | Inr x \<Rightarrow> ret x)"

definition fetch_token :: "world \<Rightarrow> (string \<times> string) list \<Rightarrow> string rstep" where
  "fetch_token w challenge =
     bindS (liftR (token_url challenge)) (\<lambda>url.
     bindS (send w \<lparr>rq_url = url, rq_headers = [(''Accept'', ''application/json'')], rq_method = ''GET''\<rparr>) (\<lambda>(_, body).
       case w_json w body of
         None \<Rightarrow> raise Not_Json
       | Some (PDict d) \<Rightarrow>
           (let token = (if truthy (dget d ''token'') then dget d ''token'' else dget d ''access_token'') in
            if \<not> truthy token then raise No_Token else ret (py_str token))
       | Some _ \<Rightarrow> raise Type_Failure))"

text \<open>\<open>_open\<close>: one bearer token on the first 401, then the request once more.\<close>

definition open_path :: "world \<Rightarrow> string \<Rightarrow> string \<Rightarrow> string \<Rightarrow> (headers \<times> string) rstep" where
  "open_path w path method accept s0 =
     (let url = base_url s0 @ path in
      case send w (request_for url method accept s0) s0 of
        (Inl (Http_Error code hs), s1) \<Rightarrow>
          (case bearer_challenge code hs of
             None \<Rightarrow> (Inl (Http_Error code hs), s1)
           | Some challenge \<Rightarrow>
               bindS (fetch_token w challenge) (\<lambda>token.
               thenS (modS (\<lambda>s. s\<lparr>r_token := token\<rparr>))
               (bindS (getS (request_for url method accept)) (send w))) s1)
      | other \<Rightarrow> other)"

definition transient :: "fetch_error \<Rightarrow> bool" where
  "transient e = (case e of Http_Error code _ \<Rightarrow> code \<in> {502, 503, 504} | Cut_Short \<Rightarrow> True | Net_Error \<Rightarrow> True | _ \<Rightarrow> False)"

text \<open>\<open>_retry\<close>: the first argument is how many more attempts there are after this one.\<close>

fun retry :: "nat \<Rightarrow> 'a rstep \<Rightarrow> 'a rstep" where
  "retry 0 once s = once s"
| "retry (Suc n) once s = (case once s of
      (Inl e, s') \<Rightarrow> if transient e then retry n once s' else (Inl e, s')
    | other \<Rightarrow> other)"

definition ATTEMPTS :: nat where "ATTEMPTS = 3"

definition registry_get :: "world \<Rightarrow> string \<Rightarrow> string \<Rightarrow> string \<Rightarrow> (headers \<times> string) rstep" where
  "registry_get w path method accept = retry (ATTEMPTS - 1) (open_path w path method accept)"

section \<open>Tags\<close>

definition find_char :: "char \<Rightarrow> string \<Rightarrow> nat option" where
  "find_char c s = (if c \<in> set s then Some (length (takeWhile (\<lambda>x. x \<noteq> c) s)) else None)"

fun next_in :: "string list \<Rightarrow> string" where
  "next_in [] = []"
| "next_in (part # parts) =
     (if \<not> contains (''rel='' @ [quote_char] @ ''next'' @ [quote_char]) (filter (\<lambda>c. c \<noteq> CHR '' '') part) then next_in parts
      else (case (find_char (CHR ''<'') part, find_char (CHR ''>'') part) of
          (Some start, Some stop) \<Rightarrow>
            if start < stop then take (stop - (start + 1)) (drop (start + 1) part) else next_in parts
        | _ \<Rightarrow> next_in parts))"

definition next_page :: "headers \<Rightarrow> string" where
  "next_page hs = next_in (split_char (CHR '','') (case hget hs ''Link'' of None \<Rightarrow> [] | Some l \<Rightarrow> l))"

text \<open>The tags of one page; a document that is not an object has no \<open>get\<close>, and tags that are not a list or a text do not iterate.\<close>

definition page_tags :: "py \<Rightarrow> fetch_error + string list" where
  "page_tags doc = (case doc of
      PDict d \<Rightarrow> (if \<not> truthy (dget d ''tags'') then Inr []
                 else case dget d ''tags'' of
                   PList xs \<Rightarrow> Inr (map py_str xs)
                 | PStr s \<Rightarrow> Inr (map (\<lambda>c. [c]) s)
                 | PDict e \<Rightarrow> Inr (map fst e)
                 | _ \<Rightarrow> Inl Type_Failure)
    | _ \<Rightarrow> Inl Type_Failure)"

text \<open>\<open>list_tags\<close>: page after page until there is no next one or it was seen. A registry that names a
  fresh page each time keeps the loop going.\<close>

partial_function (option) list_pages ::
  "world \<Rightarrow> string \<Rightarrow> string list \<Rightarrow> string list \<Rightarrow> reg \<Rightarrow> ((fetch_error + string list) \<times> reg) option" where
  "list_pages w page seen tags s =
     (if page = [] \<or> page \<in> set seen then Some (Inr tags, s)
      else case registry_get w page ''GET'' ''application/json'' s of
        (Inl e, s') \<Rightarrow> Some (Inl e, s')
      | (Inr (hs, body), s') \<Rightarrow>
          (case w_json w body of
             None \<Rightarrow> Some (Inl Not_Json, s')
           | Some doc \<Rightarrow> (case page_tags doc of
               Inl e \<Rightarrow> Some (Inl e, s')
             | Inr found \<Rightarrow> list_pages w (next_page hs) (page # seen) (tags @ found) s')))"

definition list_tags :: "world \<Rightarrow> string \<Rightarrow> reg \<Rightarrow> ((fetch_error + string list) \<times> reg) option" where
  "list_tags w path s = list_pages w (''/v2/'' @ path @ ''/tags/list?n=100'') [] [] s"

definition new_reg :: "string \<Rightarrow> bool \<Rightarrow> reg" where
  "new_reg host insecure = \<lparr>r_host = host, r_insecure = insecure, r_token = [], r_log = []\<rparr>"

definition latest_release :: "world \<Rightarrow> bool \<Rightarrow> string \<Rightarrow> (fetch_error + string) option" where
  "latest_release w insecure repository = (case split_repository repository of
      Inl e \<Rightarrow> Some (Inl e)
    | Inr (host, path) \<Rightarrow>
        map_option (\<lambda>(r, s). bindR r (\<lambda>tags.
          let version = newest_release tags in
          if version = [] then Inl (No_Release repository) else Inr (repository @ '':'' @ version)))
        (list_tags w path (new_reg host insecure)))"

definition MANIFEST_ACCEPT :: string where
  "MANIFEST_ACCEPT = join '', '' [''application/vnd.oci.image.index.v1+json'',
     ''application/vnd.oci.image.manifest.v1+json'',
     ''application/vnd.docker.distribution.manifest.list.v2+json'',
     ''application/vnd.docker.distribution.manifest.v2+json'']"

definition manifest_digest :: "world \<Rightarrow> string \<Rightarrow> string \<Rightarrow> string rstep" where
  "manifest_digest w repo_path tag =
     (let url = ''/v2/'' @ repo_path @ ''/manifests/'' @ tag in
      bindS (registry_get w url ''HEAD'' MANIFEST_ACCEPT) (\<lambda>(hs, _).
        let digest = strip (case hget hs ''Docker-Content-Digest'' of None \<Rightarrow> [] | Some d \<Rightarrow> d) in
        if digest_ok digest then ret digest
        else bindS (registry_get w url ''GET'' MANIFEST_ACCEPT) (\<lambda>(_, body). ret (sha256 w body))))"

definition settle_ref :: "world \<Rightarrow> bool \<Rightarrow> string \<Rightarrow> fetch_error + string" where
  "settle_ref w insecure ref = bindR (parse_ref ref) (\<lambda>parsed.
     if f_digest parsed \<noteq> [] then Inr (ref_name parsed)
     else if f_tag parsed = [] then Inl (Unresolved ref)
     else bindR (fst (manifest_digest w (f_path parsed) (f_tag parsed) (new_reg (f_host parsed) insecure)))
       (\<lambda>digest. Inr (ref_name (parsed\<lparr>f_digest := digest\<rparr>))))"

definition resolve_ref ::
  "world \<Rightarrow> bool \<Rightarrow> string \<Rightarrow> string \<Rightarrow> string \<Rightarrow> store_file \<Rightarrow> (int \<times> string) option \<Rightarrow> (fetch_error + string) option" where
  "resolve_ref w insecure repository im release store docker =
     (if im \<noteq> [] then Some (settle_ref w insecure im)
      else if release \<noteq> [] then Some (settle_ref w insecure (repository @ '':'' @ release))
      else case pinned_image repository store of
        Inl e \<Rightarrow> Some (Inl e)
      | Inr pin \<Rightarrow>
          if pin \<noteq> [] then Some (settle_ref w insecure pin)
          else if swarm_image repository docker \<noteq> [] then Some (settle_ref w insecure (swarm_image repository docker))
          else map_option (\<lambda>r. bindR r (settle_ref w insecure)) (latest_release w insecure repository))"

section \<open>Manifests and blobs\<close>

definition int_of :: "py \<Rightarrow> int option" where
  "int_of v = (case v of PInt i \<Rightarrow> Some i | PBool b \<Rightarrow> Some (of_bool b) | _ \<Rightarrow> None)"

text \<open>\<open>download\<close>: the blob, refused unless it hashes to its digest; a short body is tried again.\<close>

definition download_once :: "world \<Rightarrow> string \<Rightarrow> string \<Rightarrow> py \<Rightarrow> string rstep" where
  "download_once w repo_path digest expected =
     bindS (open_path w (''/v2/'' @ repo_path @ ''/blobs/'' @ digest) ''GET'' ''*/*'') (\<lambda>(_, body).
       case int_of expected of
         Some n \<Rightarrow> if int (length body) < n then raise Cut_Short else ret body
       | None \<Rightarrow> ret body)"

definition layer_digest :: "py \<Rightarrow> string" where
  "layer_digest layer = (case layer of PDict d \<Rightarrow> py_str (dget d ''digest'') | _ \<Rightarrow> [])"

definition download :: "world \<Rightarrow> string \<Rightarrow> py \<Rightarrow> string rstep" where
  "download w repo_path layer =
     (let digest = layer_digest layer; expected = (case layer of PDict d \<Rightarrow> dget d ''size'' | _ \<Rightarrow> PNone) in
      bindS (retry (ATTEMPTS - 1) (download_once w repo_path digest expected)) (\<lambda>body.
        if sha256 w body \<noteq> digest then raise (Wrong_Hash digest) else ret body))"

definition get_manifest :: "world \<Rightarrow> string \<Rightarrow> string \<Rightarrow> dict rstep" where
  "get_manifest w repo_path digest =
     bindS (registry_get w (''/v2/'' @ repo_path @ ''/manifests/'' @ digest) ''GET'' MANIFEST_ACCEPT) (\<lambda>(_, body).
       if sha256 w body \<noteq> digest then raise (Wrong_Hash digest)
       else case w_json w body of
         None \<Rightarrow> raise Not_Json
       | Some (PDict d) \<Rightarrow> ret d
       | Some _ \<Rightarrow> raise Not_An_Object)"

definition entry_matches :: "string \<Rightarrow> string \<Rightarrow> string \<Rightarrow> dict \<Rightarrow> bool" where
  "entry_matches os arch variant p =
     (py_eq (dget p ''os'') (PStr os) \<and> py_eq (dget p ''architecture'') (PStr arch)
      \<and> (variant = [] \<or> py_eq (dget p ''variant'') (PStr variant)))"

fun find_platform :: "string \<Rightarrow> string \<Rightarrow> string \<Rightarrow> string \<Rightarrow> py list \<Rightarrow> fetch_error + dict" where
  "find_platform platform os arch variant [] = Inl (No_Platform platform)"
| "find_platform platform os arch variant (entry # entries) =
     (case entry of
        PDict e \<Rightarrow> (case dget e ''platform'' of
            PDict p \<Rightarrow>
              if entry_matches os arch variant p
              then (if digest_ok (py_str (dget e ''digest'')) then Inr e else Inl (Bad_Platform platform))
              else find_platform platform os arch variant entries
          | _ \<Rightarrow> find_platform platform os arch variant entries)
      | _ \<Rightarrow> find_platform platform os arch variant entries)"

definition platform_entry :: "py \<Rightarrow> string \<Rightarrow> fetch_error + dict" where
  "platform_entry entries platform =
     (let found = (\<lambda>os arch variant.
        find_platform platform os arch variant (case entries of PList xs \<Rightarrow> xs | _ \<Rightarrow> [])) in
      case split_char (CHR ''/'') platform of
        [os, arch] \<Rightarrow> found os arch []
      | [os, arch, variant] \<Rightarrow> found os arch variant
      | _ \<Rightarrow> Inl (Bad_Platform platform))"

definition LAYER_TYPES :: "string list" where
  "LAYER_TYPES = [''application/vnd.oci.image.layer.v1.tar+gzip'',
     ''application/vnd.docker.image.rootfs.diff.tar.gzip'', ''application/vnd.oci.image.layer.v1.tar'']"

definition layer_ok :: "py \<Rightarrow> bool" where
  "layer_ok layer = (case layer of
      PDict d \<Rightarrow> digest_ok (py_str (dget d ''digest''))
        \<and> (case dget d ''mediaType'' of PStr t \<Rightarrow> t \<in> set LAYER_TYPES | _ \<Rightarrow> False)
    | _ \<Rightarrow> False)"

definition layers_in :: "string \<Rightarrow> dict \<Rightarrow> fetch_error + py list" where
  "layers_in digest doc = (case dget doc ''layers'' of
      PList layers \<Rightarrow> if list_all layer_ok layers then Inr layers else Inl (Bad_Layer digest)
    | _ \<Rightarrow> Inl Bad_Manifest)"

definition image_layers :: "world \<Rightarrow> string \<Rightarrow> string \<Rightarrow> string \<Rightarrow> py list rstep" where
  "image_layers w repo_path digest platform =
     bindS (get_manifest w repo_path digest) (\<lambda>doc.
     bindS (if has_key doc ''manifests''
            then bindS (liftR (platform_entry (dget doc ''manifests'') platform)) (\<lambda>entry.
              get_manifest w repo_path (py_str (dget entry ''digest'')))
            else ret doc) (\<lambda>doc'. liftR (layers_in digest doc')))"

definition ARCH :: "(string \<times> string) list" where
  "ARCH = [(''x86_64'', ''amd64''), (''amd64'', ''amd64''), (''aarch64'', ''arm64''), (''arm64'', ''arm64'')]"

definition host_platform :: "world \<Rightarrow> fetch_error + string" where
  "host_platform w = (case map_of ARCH (w_machine w) of
      None \<Rightarrow> Inl (No_Platform (w_machine w)) | Some arch \<Rightarrow> Inr (''linux/'' @ arch))"

section \<open>The fetch\<close>

record fst_state =
  t_fs :: fs
  t_reg :: reg

type_synonym 'a step2 = "(fst_state, fetch_error, 'a) sem"

definition on_reg :: "'a rstep \<Rightarrow> 'a step2" where
  "on_reg m s = (case m (t_reg s) of (r, g) \<Rightarrow> (r, s\<lparr>t_reg := g\<rparr>))"

definition on_fs :: "'a fstep \<Rightarrow> 'a step2" where
  "on_fs m s = (case m (t_fs s) of (r, f) \<Rightarrow> (r, s\<lparr>t_fs := f\<rparr>))"

text \<open>The downloaded layer stands in \<open>staging/blob\<close> while it is applied.\<close>

definition write_blob :: "path \<Rightarrow> string \<Rightarrow> unit fstep" where
  "write_blob staging body = thenS (clear_at (staging @ [''blob''])) (os_new (staging @ [''blob'']) (FReg body 384))"

definition one_layer :: "world \<Rightarrow> string \<Rightarrow> path \<Rightarrow> string list \<Rightarrow> dir_modes \<Rightarrow> py \<Rightarrow> dir_modes step2" where
  "one_layer w repo_path staging wanted modes layer =
     bindS (on_reg (download w repo_path layer)) (\<lambda>body.
     thenS (on_fs (write_blob staging body))
     (case w_untar w body of
        None \<Rightarrow> raise Not_Tar
      | Some members \<Rightarrow>
          bindS (on_fs (apply_layer members (tree_of staging) wanted modes)) (\<lambda>modes'.
          thenS (on_fs (os_unlink (staging @ [''blob'']))) (ret modes'))))"

fun all_layers :: "world \<Rightarrow> string \<Rightarrow> path \<Rightarrow> string list \<Rightarrow> dir_modes \<Rightarrow> py list \<Rightarrow> dir_modes step2" where
  "all_layers w repo_path staging wanted modes [] = ret modes"
| "all_layers w repo_path staging wanted modes (l # ls) =
     bindS (one_layer w repo_path staging wanted modes l) (\<lambda>modes'. all_layers w repo_path staging wanted modes' ls)"

text \<open>
  \<open>fetch\<close>, with the directory \<open>dest\<close> there and \<open>staging\<close> the fresh name \<open>mkdtemp\<close> gives in it.
\<close>

definition record_image :: "path \<Rightarrow> string \<Rightarrow> unit fstep" where
  "record_image dest name = os_at (dest @ [''IMAGE'']) (\<lambda>q. bindS (getS (\<lambda>fs. node fs q)) (\<lambda>n. case n of
      Some (FDir _) \<Rightarrow> raise Os_Error | _ \<Rightarrow> modS (put_at q (FReg (name @ nl) 420))))"

definition unpack_image :: "world \<Rightarrow> ref \<Rightarrow> path \<Rightarrow> path \<Rightarrow> string list \<Rightarrow> py list \<Rightarrow> unit step2" where
  "unpack_image w im dest staging wanted layers =
     thenS (on_fs (os_mkdir (tree_of staging) 493))
    (bindS (all_layers w (f_path im) staging wanted [] layers) (\<lambda>modes.
     thenS (on_fs (install_trees (tree_of staging) dest staging wanted modes))
       (on_fs (record_image dest (ref_name im)))))"

definition fetch :: "world \<Rightarrow> bool \<Rightarrow> string \<Rightarrow> path \<Rightarrow> string \<Rightarrow> string list \<Rightarrow> string \<Rightarrow> fs \<Rightarrow> (fetch_error + unit) \<times> fs" where
  "fetch w insecure ref dest stage paths platform fs =
     (case bindR (parse_ref ref) (\<lambda>im.
             if f_digest im = [] then Inl (Unresolved ref)
             else bindR (prefixes_of paths) (\<lambda>wanted.
               bindR (if platform \<noteq> [] then Inr platform else host_platform w) (\<lambda>pf. Inr (im, wanted, pf)))) of
        Inl e \<Rightarrow> (Inl e, fs)
      | Inr (im, wanted, pf) \<Rightarrow>
          (case image_layers w (f_path im) (f_digest im) pf (new_reg (f_host im) insecure) of
             (Inl e, g) \<Rightarrow> (Inl e, fs)
           | (Inr layers, g) \<Rightarrow>
               (let staging = dest @ [stage] in
                case finallyS
                    (unpack_image w im dest staging wanted layers)
                    (on_fs (modS (del_tree staging)))
                    \<lparr>t_fs = put_at staging (FDir 448) fs, t_reg = g\<rparr> of
                  (r, s) \<Rightarrow> (r, t_fs s))))"

section \<open>Only verified bytes are unpacked\<close>

text \<open>The same unpacking from bodies in hand, with no network in it.\<close>

fun apply_bodies :: "world \<Rightarrow> path \<Rightarrow> string list \<Rightarrow> dir_modes \<Rightarrow> string list \<Rightarrow> dir_modes fstep" where
  "apply_bodies w staging wanted modes [] = ret modes"
| "apply_bodies w staging wanted modes (body # bodies) =
     thenS (write_blob staging body)
     (case w_untar w body of
        None \<Rightarrow> raise Not_Tar
      | Some members \<Rightarrow>
          bindS (apply_layer members (tree_of staging) wanted modes) (\<lambda>modes'.
          thenS (os_unlink (staging @ [''blob''])) (apply_bodies w staging wanted modes' bodies)))"

definition unpack_bodies :: "world \<Rightarrow> ref \<Rightarrow> path \<Rightarrow> path \<Rightarrow> string list \<Rightarrow> string list \<Rightarrow> unit fstep" where
  "unpack_bodies w im dest staging wanted bodies =
     thenS (os_mkdir (tree_of staging) 493)
    (bindS (apply_bodies w staging wanted [] bodies) (\<lambda>modes.
     thenS (install_trees (tree_of staging) dest staging wanted modes) (record_image dest (ref_name im))))"

text \<open>When a sequence returned, each of its steps did.\<close>

lemma on_reg_Inr_iff: "on_reg m s = (Inr y, s') \<longleftrightarrow> (\<exists>g. m (t_reg s) = (Inr y, g) \<and> s' = s\<lparr>t_reg := g\<rparr>)"
  by (auto simp: on_reg_def split: prod.splits)

lemma on_fs_Inr_iff: "on_fs m s = (Inr y, s') \<longleftrightarrow> (\<exists>f. m (t_fs s) = (Inr y, f) \<and> s' = s\<lparr>t_fs := f\<rparr>)"
  by (auto simp: on_fs_def split: prod.splits)

lemmas Inr_iffs = bindS_Inr_iff thenS_Inr_iff on_reg_Inr_iff on_fs_Inr_iff

declare ret_Inr_iff [simp] raise_not_Inr [simp]

lemma download_verified:
  "download w p layer g = (Inr body, g') \<Longrightarrow> sha256 w body = layer_digest layer"
  by (auto simp: download_def Inr_iffs Let_def split: if_splits)

lemma one_layer_body:
  assumes "one_layer w p staging wanted modes l s = (Inr modes', s')"
  shows "\<exists>body. sha256 w body = layer_digest l
    \<and> apply_bodies w staging wanted modes [body] (t_fs s) = (Inr modes', t_fs s')"
proof -
  from assms obtain body g fs1 ms fs2 where
    d: "download w p l (t_reg s) = (Inr body, g)" and b: "write_blob staging body (t_fs s) = (Inr (), fs1)"
    and m: "w_untar w body = Some ms" and a: "apply_layer ms (tree_of staging) wanted modes fs1 = (Inr modes', fs2)"
    and u: "os_unlink (staging @ [''blob'']) fs2 = (Inr (), t_fs s')"
    by (auto simp: one_layer_def Inr_iffs split: option.splits)
  then have "apply_bodies w staging wanted modes [body] (t_fs s) = (Inr modes', t_fs s')"
    by (simp add: Inr_iffs)
  with download_verified [OF d] show ?thesis by blast
qed

lemma apply_bodies_Cons:
  assumes "apply_bodies w staging wanted modes [b] fs = (Inr modes', fs')"
  shows "apply_bodies w staging wanted modes (b # bs) fs = apply_bodies w staging wanted modes' bs fs'"
proof -
  from assms obtain fs1 ms fs2 where
    "write_blob staging b fs = (Inr (), fs1)" "w_untar w b = Some ms"
    "apply_layer ms (tree_of staging) wanted modes fs1 = (Inr modes', fs2)"
    "os_unlink (staging @ [''blob'']) fs2 = (Inr (), fs')"
    by (auto simp: Inr_iffs split: option.splits)
  then show ?thesis by (simp add: bindS_def thenS_def)
qed

lemma all_layers_bodies:
  assumes "all_layers w p staging wanted modes ls s = (Inr modes', s')"
  shows "\<exists>bodies. list_all2 (\<lambda>l b. sha256 w b = layer_digest l) ls bodies
    \<and> apply_bodies w staging wanted modes bodies (t_fs s) = (Inr modes', t_fs s')"
  using assms
proof (induction ls arbitrary: modes s)
  case Nil
  then show ?case by (auto simp: ret_def)
next
  case (Cons l ls)
  then obtain m1 s1 where o: "one_layer w p staging wanted modes l s = (Inr m1, s1)"
    and r: "all_layers w p staging wanted m1 ls s1 = (Inr modes', s')"
    by (auto simp: Inr_iffs)
  obtain b where b: "sha256 w b = layer_digest l"
    "apply_bodies w staging wanted modes [b] (t_fs s) = (Inr m1, t_fs s1)"
    using one_layer_body [OF o] by blast
  obtain bs where "list_all2 (\<lambda>l b. sha256 w b = layer_digest l) ls bs"
    "apply_bodies w staging wanted m1 bs (t_fs s1) = (Inr modes', t_fs s')"
    using Cons.IH [OF r] by blast
  then show ?case using b apply_bodies_Cons [OF b(2)] by (intro exI [of _ "b # bs"]) simp
qed

lemma unpack_image_bodies:
  assumes "unpack_image w im dest staging wanted layers s = (Inr u, s')"
  shows "\<exists>bodies. list_all2 (\<lambda>l b. sha256 w b = layer_digest l) layers bodies
    \<and> unpack_bodies w im dest staging wanted bodies (t_fs s) = (Inr (), t_fs s')"
proof -
  from assms obtain s1 modes s2 s3
    where a: "on_fs (os_mkdir (tree_of staging) 493) s = (Inr (), s1)"
      and l: "all_layers w (f_path im) staging wanted [] layers s1 = (Inr modes, s2)"
      and i: "on_fs (install_trees (tree_of staging) dest staging wanted modes) s2 = (Inr (), s3)"
      and r: "on_fs (record_image dest (ref_name im)) s3 = (Inr (), s')"
    by (auto simp: unpack_image_def thenS_Inr_iff bindS_Inr_iff)
  obtain bodies where b: "list_all2 (\<lambda>l b. sha256 w b = layer_digest l) layers bodies"
    "apply_bodies w staging wanted [] bodies (t_fs s1) = (Inr modes, t_fs s2)"
    using all_layers_bodies [OF l] by blast
  have "unpack_bodies w im dest staging wanted bodies (t_fs s) = (Inr (), t_fs s')"
    using a b(2) i r by (auto simp: unpack_bodies_def Inr_iffs)
  with b(1) show ?thesis by blast
qed

text \<open>A manifest that is used hashes to the digest it was asked for by.\<close>

definition manifest_of :: "world \<Rightarrow> string \<Rightarrow> dict \<Rightarrow> bool" where
  "manifest_of w digest d = (\<exists>body. sha256 w body = digest \<and> w_json w body = Some (PDict d))"

lemma get_manifest_of: "get_manifest w p digest g = (Inr d, g') \<Longrightarrow> manifest_of w digest d"
  by (auto simp: get_manifest_def manifest_of_def Inr_iffs split: if_splits option.splits py.splits)

definition layers_under :: "world \<Rightarrow> string \<Rightarrow> string \<Rightarrow> dict \<Rightarrow> py list \<Rightarrow> bool" where
  "layers_under w digest platform doc layers =
     (if has_key doc ''manifests''
      then (case platform_entry (dget doc ''manifests'') platform of
          Inl e \<Rightarrow> False
        | Inr entry \<Rightarrow> \<exists>doc'. manifest_of w (py_str (dget entry ''digest'')) doc' \<and> layers_in digest doc' = Inr layers)
      else layers_in digest doc = Inr layers)"

definition layers_of :: "world \<Rightarrow> string \<Rightarrow> string \<Rightarrow> py list \<Rightarrow> bool" where
  "layers_of w digest platform layers =
     (\<exists>doc. manifest_of w digest doc \<and> layers_under w digest platform doc layers)"

lemma liftR_Inr_iff: "liftR r s = (Inr x, s') \<longleftrightarrow> r = Inr x \<and> s' = s"
  by (auto simp: liftR_def split: sum.splits)

lemma image_layers_of:
  assumes "image_layers w p digest platform g = (Inr layers, g')"
  shows "layers_of w digest platform layers"
proof -
  obtain doc g1 where t: "get_manifest w p digest g = (Inr doc, g1)"
    and d: "bindS (if has_key doc ''manifests''
            then bindS (liftR (platform_entry (dget doc ''manifests'') platform)) (\<lambda>entry.
              get_manifest w p (py_str (dget entry ''digest'')))
            else ret doc) (\<lambda>doc'. liftR (layers_in digest doc')) g1 = (Inr layers, g')"
    using iffD1 [OF bindS_Inr_iff assms [unfolded image_layers_def]] by (elim exE conjE) (rule that)
  have "layers_under w digest platform doc layers"
  proof (cases "has_key doc ''manifests''")
    case True
    with d obtain entry doc' g2 g3 where "platform_entry (dget doc ''manifests'') platform = Inr entry"
      "get_manifest w p (py_str (dget entry ''digest'')) g2 = (Inr doc', g3)" "layers_in digest doc' = Inr layers"
      unfolding if_P [OF True] bindS_Inr_iff liftR_Inr_iff by (elim exE conjE) (rule that, simp_all)
    with True show ?thesis by (auto simp: layers_under_def dest: get_manifest_of)
  next
    case False
    with d show ?thesis by (simp add: layers_under_def bindS_Inr_iff liftR_Inr_iff)
  qed
  then show ?thesis using get_manifest_of [OF t] by (auto simp: layers_of_def)
qed

text \<open>With a digest that has no collisions, the layers and their bodies are what the digest says.\<close>

lemma sha256_inj: "inj (w_hexdigest w) \<Longrightarrow> sha256 w a = sha256 w b \<Longrightarrow> a = b"
  by (simp add: sha256_def inj_def)

lemma manifest_unique: "inj (w_hexdigest w) \<Longrightarrow> manifest_of w d x \<Longrightarrow> manifest_of w d y \<Longrightarrow> x = y"
  unfolding manifest_of_def by (metis sha256_inj option.inject py.inject(5))

lemma layers_under_unique:
  assumes "inj (w_hexdigest w)" and "layers_under w d p doc x" and "layers_under w d p doc y"
  shows "x = y"
proof (cases "has_key doc ''manifests''")
  case True
  then show ?thesis using assms(2,3) manifest_unique [OF assms(1)]
    by (cases "platform_entry (dget doc ''manifests'') p") (auto simp: layers_under_def, metis sum.inject(2))
next
  case False
  then show ?thesis using assms(2,3) by (simp add: layers_under_def)
qed

lemma layers_unique:
  assumes "inj (w_hexdigest w)" and "layers_of w d p x" and "layers_of w d p y"
  shows "x = y"
  using assms(2,3) manifest_unique [OF assms(1)] layers_under_unique [OF assms(1)]
  unfolding layers_of_def by metis

lemma bodies_unique:
  assumes "inj (w_hexdigest w)" and "list_all2 (\<lambda>l b. sha256 w b = layer_digest l) ls x"
    and "list_all2 (\<lambda>l b. sha256 w b = layer_digest l) ls y"
  shows "x = y"
  using assms(2,3)
proof (induction ls arbitrary: x y)
  case (Cons l ls)
  have "a = b" if "sha256 w a = layer_digest l" "sha256 w b = layer_digest l" for a b
    using that sha256_inj [OF assms(1), of a b] by simp
  then show ?case using Cons by (auto simp: list_all2_Cons1)
qed simp

section \<open>Requests\<close>

definition has_auth :: "request \<Rightarrow> bool" where
  "has_auth rq = list_ex (\<lambda>h. fst h = ''Authorization'') (rq_headers rq)"

lemma redirected_auth:
  "has_auth (redirected w rq loc) \<Longrightarrow> has_auth rq \<and> url_netloc (rq_url (redirected w rq loc)) = url_netloc (rq_url rq)"
  by (auto simp: has_auth_def redirected_def Let_def list_ex_iff split: if_splits)

lemma send_from_log:
  assumes "send_from n w rq s = (r, s')" and "has_auth rq \<longrightarrow> url_netloc (rq_url rq) = here"
  shows "\<exists>sent. r_log s' = sent @ r_log s \<and> length sent \<le> n \<and> r_insecure s' = r_insecure s
    \<and> (\<forall>q \<in> set sent. url_allowed (r_insecure s) (rq_url q) \<and> (has_auth q \<longrightarrow> url_netloc (rq_url q) = here))"
  using assms
proof (induction n arbitrary: rq s)
  case 0
  then show ?case by (auto simp: raise_def)
next
  case (Suc n)
  let ?s = "s\<lparr>r_log := rq # r_log s\<rparr>"
  show ?case
  proof (cases "url_allowed (r_insecure s) (rq_url rq)")
    case False
    then show ?thesis using Suc.prems(1) by (auto simp: sem_defs)
  next
    case True
    have one: ?thesis if "s' = ?s" using that True Suc.prems(2) by (intro exI [of _ "[rq]"]) simp
    show ?thesis
    proof (cases "\<exists>code hs loc. w_net w rq (length (r_log s)) = Refusal code hs \<and> code \<in> set REDIRECTS
        \<and> hget hs ''Location'' = Some loc \<and> loc \<noteq> []")
      case False
      then have "s' = ?s" using Suc.prems(1) True
        by (auto simp: sem_defs note_request_def split: reply.splits if_splits option.splits)
      then show ?thesis by (rule one)
    next
      case c: True
      then obtain code hs loc where c: "w_net w rq (length (r_log s)) = Refusal code hs" "code \<in> set REDIRECTS"
        "hget hs ''Location'' = Some loc" "loc \<noteq> []" by blast
      then have "send_from n w (redirected w rq loc) ?s = (r, s')"
        using Suc.prems(1) True by (simp add: sem_defs note_request_def)
      moreover have "has_auth (redirected w rq loc) \<longrightarrow> url_netloc (rq_url (redirected w rq loc)) = here"
        using redirected_auth [of w rq loc] Suc.prems(2) by auto
      ultimately obtain sent where "r_log s' = sent @ r_log ?s" "length sent \<le> n" "r_insecure s' = r_insecure ?s"
        "\<forall>q \<in> set sent. url_allowed (r_insecure ?s) (rq_url q) \<and> (has_auth q \<longrightarrow> url_netloc (rq_url q) = here)"
        using Suc.IH by blast
      then show ?thesis using True Suc.prems(2) by (intro exI [of _ "sent @ [rq]"]) auto
    qed
  qed
qed

text \<open>What a read returns is the answer to some request.\<close>

lemma send_from_answer:
  "send_from n w rq s = (Inr (hs, body), s') \<Longrightarrow> \<exists>q k. w_net w q k = Answer hs body"
proof (induction n arbitrary: rq s)
  case (Suc n)
  then show ?case
    by (auto simp: bindS_Inr_iff thenS_Inr_iff note_request_def modS_def getS_def
        split: if_splits reply.splits option.splits)
qed (simp add: raise_def)

lemma send_answer: "send w rq s = (Inr (hs, body), s') \<Longrightarrow> \<exists>q k. w_net w q k = Answer hs body"
  unfolding send_def by (rule send_from_answer)

lemma open_path_answer:
  "open_path w p m a s = (Inr (hs, body), s') \<Longrightarrow> \<exists>q k. w_net w q k = Answer hs body"
  by (auto simp: open_path_def Let_def bindS_Inr_iff thenS_Inr_iff
      split: prod.splits sum.splits fetch_error.splits option.splits dest!: send_answer)

lemma retry_Inr: "retry n once s = (Inr x, s') \<Longrightarrow> \<exists>t. once t = (Inr x, s')"
  by (induction n arbitrary: s) (auto split: prod.splits sum.splits if_splits)

lemma registry_get_answer:
  "registry_get w p m a s = (Inr (hs, body), s') \<Longrightarrow> \<exists>q k. w_net w q k = Answer hs body"
  by (auto simp: registry_get_def dest!: retry_Inr open_path_answer)

lemma list_pages_ends:
  assumes "finite P" and "\<And>q k hs body. w_net w q k = Answer hs body \<Longrightarrow> next_page hs \<in> P" and "page \<in> P"
  shows "\<exists>r. list_pages w page seen tags s = Some r"
  using assms(3)
proof (induction "card (P - set seen)" arbitrary: page seen tags s rule: less_induct)
  case less
  show ?case
  proof (cases "page = [] \<or> page \<in> set seen")
    case True
    then show ?thesis by (subst list_pages.simps) auto
  next
    case False
    have fewer: "card (P - set (page # seen)) < card (P - set seen)"
      by (rule psubset_card_mono) (use assms(1) less.prems False in auto)
    obtain r s' where g: "registry_get w page ''GET'' ''application/json'' s = (r, s')" by fastforce
    show ?thesis
    proof (cases r)
      case (Inl e)
      then show ?thesis using False g by (subst list_pages.simps) simp
    next
      case (Inr a)
      obtain hs body where a: "a = (hs, body)" by (cases a)
      have "next_page hs \<in> P" using assms(2) registry_get_answer g Inr a by blast
      then have "\<exists>x. list_pages w (next_page hs) (page # seen) t s' = Some x" for t
        using less.hyps [OF fewer] by blast
      then show ?thesis using False g Inr a
        by (subst list_pages.simps) (auto split: option.splits sum.splits)
    qed
  qed
qed

section \<open>A fetch that succeeded\<close>

definition fetched :: "world \<Rightarrow> ref \<Rightarrow> string list \<Rightarrow> string \<Rightarrow> path \<Rightarrow> string \<Rightarrow> fs \<Rightarrow> py list \<Rightarrow> string list \<Rightarrow> fs \<Rightarrow> bool" where
  "fetched w im wanted pf dest stage fs layers bodies fs' =
     (layers_of w (f_digest im) pf layers
      \<and> list_all2 (\<lambda>l b. sha256 w b = layer_digest l) layers bodies
      \<and> (\<exists>fs1. unpack_bodies w im dest (dest @ [stage]) wanted bodies (put_at (dest @ [stage]) (FDir 448) fs) = (Inr (), fs1)
          \<and> fs' = del_tree (dest @ [stage]) fs1))"

definition fetch_args :: "world \<Rightarrow> string \<Rightarrow> string list \<Rightarrow> string \<Rightarrow> fetch_error + ref \<times> string list \<times> string" where
  "fetch_args w ref paths platform = bindR (parse_ref ref) (\<lambda>im.
     if f_digest im = [] then Inl (Unresolved ref)
     else bindR (prefixes_of paths) (\<lambda>wanted.
       bindR (if platform \<noteq> [] then Inr platform else host_platform w) (\<lambda>pf. Inr (im, wanted, pf))))"

lemma fetch_success:
  assumes "fetch w insecure ref dest stage paths platform fs = (Inr (), fs')"
  shows "\<exists>im wanted pf layers bodies. fetch_args w ref paths platform = Inr (im, wanted, pf)
    \<and> fetched w im wanted pf dest stage fs layers bodies fs'"
proof -
  note f = assms [unfolded fetch_def fetch_args_def [symmetric]]
  obtain im wanted pf where a: "fetch_args w ref paths platform = Inr (im, wanted, pf)"
    using f by (cases "fetch_args w ref paths platform") auto
  obtain layers g where l: "image_layers w (f_path im) (f_digest im) pf (new_reg (f_host im) insecure) = (Inr layers, g)"
    using f a by (auto split: prod.splits sum.splits)
  let ?s = "\<lparr>t_fs = put_at (dest @ [stage]) (FDir 448) fs, t_reg = g\<rparr>"
  obtain u s1 where un: "unpack_image w im dest (dest @ [stage]) wanted layers ?s = (Inr u, s1)"
    and fs': "fs' = del_tree (dest @ [stage]) (t_fs s1)"
    using f a l by (auto simp: Let_def finallyS_def on_fs_def modS_def split: prod.splits)
  obtain bodies where "list_all2 (\<lambda>l b. sha256 w b = layer_digest l) layers bodies"
    "unpack_bodies w im dest (dest @ [stage]) wanted bodies (put_at (dest @ [stage]) (FDir 448) fs) = (Inr (), t_fs s1)"
    using unpack_image_bodies [OF un] by auto
  then have "fetched w im wanted pf dest stage fs layers bodies fs'"
    using image_layers_of [OF l] fs' by (auto simp: fetched_def)
  with a show ?thesis by blast
qed

lemma apply_bodies_offline: "apply_bodies (w\<lparr>w_net := n\<rparr>) st wanted modes bs = apply_bodies w st wanted modes bs"
proof (induction bs arbitrary: modes)
  case (Cons b bs)
  show ?case unfolding apply_bodies.simps by (rule arg_cong2 [where f = thenS]) (simp_all add: Cons cong: option.case_cong)
qed simp

text \<open>The network is in none of it.\<close>

lemma fetched_offline:
  "fetched (w\<lparr>w_net := n\<rparr>) im wanted pf dest stage fs layers bodies fs' = fetched w im wanted pf dest stage fs layers bodies fs'"
proof -
  have sh: "sha256 (w\<lparr>w_net := n\<rparr>) = sha256 w" by (rule ext) (simp add: sha256_def)
  have mf: "manifest_of (w\<lparr>w_net := n\<rparr>) = manifest_of w" by (rule ext)+ (simp add: manifest_of_def sh)
  have lo: "layers_of (w\<lparr>w_net := n\<rparr>) = layers_of w" by (rule ext)+ (unfold layers_of_def layers_under_def mf, rule refl)
  have ub: "unpack_bodies (w\<lparr>w_net := n\<rparr>) = unpack_bodies w"
    by (rule ext)+ (simp add: unpack_bodies_def apply_bodies_offline)
  show ?thesis unfolding fetched_def sh lo ub by simp
qed

lemma fetch_args_offline: "fetch_args (w\<lparr>w_net := n\<rparr>) = fetch_args w"
proof -
  have "host_platform (w\<lparr>w_net := n\<rparr>) = host_platform w"
    by (simp add: host_platform_def split: option.split)
  then show ?thesis by (intro ext) (unfold fetch_args_def, simp only:)
qed

lemma fetched_unique:
  assumes "inj (w_hexdigest w)" and "fetched w im wanted pf dest stage fs l1 b1 fs1"
    and "fetched w im wanted pf dest stage fs l2 b2 fs2"
  shows "fs1 = fs2"
proof -
  have "l1 = l2" using assms by (auto simp: fetched_def dest: layers_unique [OF assms(1)])
  then have "b1 = b2" using assms bodies_unique [OF assms(1), of l1 b1 b2] by (simp add: fetched_def)
  then show ?thesis using assms(2,3) by (auto simp: fetched_def)
qed

section \<open>Properties\<close>

text \<open>C36: what is unpacked is exactly what the digest names. When a fetch succeeds, there are a
  manifest that hashes to the digest of the reference, possibly through a manifest list to the one
  of the platform, and one body for each of its layers that hashes to the digest of that layer, and
  the file system is the result of unpacking those bodies, whatever the registry answered.\<close>

theorem fetch_verified:
  assumes "fetch w insecure ref dest stage paths platform fs = (Inr (), fs')"
  shows "\<exists>im wanted pf layers bodies. parse_ref ref = Inr im \<and> f_digest im \<noteq> []
    \<and> prefixes_of paths = Inr wanted \<and> fetched w im wanted pf dest stage fs layers bodies fs'"
proof -
  obtain im wanted pf layers bodies where a: "fetch_args w ref paths platform = Inr (im, wanted, pf)"
    and f: "fetched w im wanted pf dest stage fs layers bodies fs'"
    using fetch_success [OF assms] by blast
  from a have "parse_ref ref = Inr im \<and> f_digest im \<noteq> [] \<and> prefixes_of paths = Inr wanted"
    by (auto simp: fetch_args_def bindR_Inr_iff split: if_splits)
  with f show ?thesis by blast
qed

definition demo_top :: string where "demo_top = replicate 64 (CHR ''a'')"
definition demo_body :: string where "demo_body = replicate 64 (CHR ''b'')"

definition demo_net :: "nat \<Rightarrow> request \<Rightarrow> nat \<Rightarrow> reply" where
  "demo_net bad q k = (if k < bad then No_Answer
     else if suffix demo_top (rq_url q) then Answer [] demo_top
     else Answer [] demo_body)"

definition demo_world :: world where
  "demo_world = \<lparr>w_net = demo_net 0, w_hexdigest = (\<lambda>x. x),
     w_json = (\<lambda>x. if x = demo_top then Some (PDict [(''layers'', PList [PDict
        [(''digest'', PStr (''sha256:'' @ demo_body)), (''mediaType'', PStr ''application/vnd.oci.image.layer.v1.tar'')]])]) else None),
     w_untar = (\<lambda>x. Some [\<lparr>m_name = ''usr'', m_kind = Is_Dir, m_mode = 493, m_link = [], m_data = []\<rparr>,
        \<lparr>m_name = ''usr/f'', m_kind = Is_Reg, m_mode = 420, m_link = [], m_data = x\<rparr>]),
     w_urljoin = (\<lambda>a b. b), w_machine = ''x86_64''\<rparr>"

definition demo_fetch :: "nat \<Rightarrow> (fetch_error + unit) \<times> fs" where
  "demo_fetch bad = fetch (demo_world\<lparr>w_net := demo_net bad\<rparr>) False (''h.io/a@sha256:'' @ demo_top) [''d''] ''s'' [''usr''] []
     [([''d''], FDir 448)]"

lemma demo_fetch_0: "demo_fetch 0 = (Inr (), snd (demo_fetch 0))"
proof -
  have "fst (demo_fetch 0) = Inr ()" by code_simp
  then show ?thesis by (metis prod.collapse)
qed

lemma demo_fetch_2: "demo_fetch 2 = (Inr (), snd (demo_fetch 2))"
proof -
  have "fst (demo_fetch 2) = Inr ()" by code_simp
  then show ?thesis by (metis prod.collapse)
qed

theorem fetch_verified_witness:
  "\<exists>fs' im wanted pf layers bodies. demo_fetch 0 = (Inr (), fs')
    \<and> fetched (demo_world\<lparr>w_net := demo_net 0\<rparr>) im wanted pf [''d''] ''s'' [([''d''], FDir 448)] layers bodies fs'"
  using fetch_verified [OF demo_fetch_0 [unfolded demo_fetch_def]] demo_fetch_0 unfolding demo_fetch_def by blast

text \<open>the registry cannot choose what is unpacked. With a digest function that has no collisions, two
  fetches of one reference from the same state that both succeed, over whatever networks, leave
  the same file system.\<close>

theorem fetch_by_digest:
  assumes "inj (w_hexdigest w)"
    and "fetch (w\<lparr>w_net := n1\<rparr>) i1 ref dest stage paths platform fs = (Inr (), fs1)"
    and "fetch (w\<lparr>w_net := n2\<rparr>) i2 ref dest stage paths platform fs = (Inr (), fs2)"
  shows "fs1 = fs2"
  using fetch_success [OF assms(2)] fetch_success [OF assms(3)] fetched_unique [OF assms(1)]
  unfolding fetch_args_offline fetched_offline by fastforce

theorem fetch_by_digest_witness:
  "snd (demo_fetch 0) = snd (demo_fetch 2)"
proof -
  have "inj (w_hexdigest demo_world)" by (simp add: demo_world_def inj_def)
  from fetch_by_digest [OF this demo_fetch_0 [unfolded demo_fetch_def] demo_fetch_2 [unfolded demo_fetch_def]]
  show ?thesis by (simp add: demo_fetch_def)
qed

text \<open>Where requests go. One read sends at most six requests, each over https unless plain http was
  allowed, and the bearer token is in none that goes to another host than the first one's.\<close>

theorem requests_confined:
  assumes "send w rq s = (r, s')"
  shows "\<exists>sent. r_log s' = sent @ r_log s \<and> length sent \<le> 6
    \<and> (\<forall>q \<in> set sent. (url_scheme (rq_url q) = ''https'' \<or> url_scheme (rq_url q) = ''http'' \<and> r_insecure s)
        \<and> (has_auth q \<longrightarrow> url_netloc (rq_url q) = url_netloc (rq_url rq)))"
  using send_from_log [OF assms [unfolded send_def], of "url_netloc (rq_url rq)"]
  unfolding MAX_REDIRECTS_def url_allowed_def by auto

theorem requests_confined_witness:
  "\<exists>r s' sent. send (demo_world\<lparr>w_net := (\<lambda>q k. if k = 0 then Refusal 307 [(''Location'', ''https://s.io/b'')] else Answer [] [])\<rparr>)
      \<lparr>rq_url = ''https://h.io/v2'', rq_headers = [(''Authorization'', ''Bearer t'')], rq_method = ''GET''\<rparr> (new_reg ''h.io'' False) = (r, s')
    \<and> r_log s' = sent @ [] \<and> length sent \<le> 6 \<and> (\<forall>q \<in> set sent. has_auth q \<longrightarrow> url_netloc (rq_url q) = ''h.io'')"
proof -
  let ?w = "demo_world\<lparr>w_net := (\<lambda>q k. if k = 0 then Refusal 307 [(''Location'', ''https://s.io/b'')] else Answer [] [])\<rparr>"
  let ?q = "\<lparr>rq_url = ''https://h.io/v2'', rq_headers = [(''Authorization'', ''Bearer t'')], rq_method = ''GET''\<rparr>"
  obtain r s' where s: "send ?w ?q (new_reg ''h.io'' False) = (r, s')" by fastforce
  have "url_netloc (rq_url ?q) = ''h.io''" by code_simp
  with requests_confined [OF s] s show ?thesis by (auto simp: new_reg_def)
qed

text \<open>Reading the tags ends. When the registry has finitely many pages of tags, \<open>list_tags\<close>
  returns, with the tags or with an error, even if the pages name each other in a circle.\<close>

theorem list_tags_ends:
  assumes "finite P" and "\<And>q k hs body. w_net w q k = Answer hs body \<Longrightarrow> next_page hs \<in> P"
  shows "\<exists>r. list_tags w path s = Some r"
proof -
  let ?first = "''/v2/'' @ path @ ''/tags/list?n=100''"
  have "finite (insert ?first P)" using assms(1) by simp
  from list_pages_ends [OF this _ insertI1] show ?thesis
    using assms(2) by (auto simp: list_tags_def)
qed

theorem list_tags_ends_witness: "\<exists>r. list_tags demo_world ''a'' (new_reg ''h.io'' False) = Some r"
proof (rule list_tags_ends [of "{[]}"])
  fix q k hs body assume "w_net demo_world q k = Answer hs body"
  then have "hs = []" by (auto simp: demo_world_def demo_net_def split: if_splits)
  then show "next_page hs \<in> {[]}" by (simp add: next_page_def hget_def quote_char_def)
qed simp

end
