(* ===== verification/Filter_Values.thy ===== *)
theory Filter_Values
  imports Text_Scan
begin

text \<open>
  What the Ansible filters share: the exceptions they raise, the iteration and attribute access of
  Python on a value of any type, and the fold of a loop body that may raise.
\<close>

datatype filter_error =
    Value_Error
  | Type_Error
  | Attribute_Error
  | Index_Error
  | Overflow_Error
  | Key_Error string

type_synonym 'a flt = "filter_error + 'a"

text \<open>What a \<open>for\<close> loop visits.\<close>

fun items_of :: "py \<Rightarrow> py list flt" where
  "items_of (PList xs) = Inr xs"
| "items_of (PDict d) = Inr (map (\<lambda>kv. PStr (fst kv)) d)"
| "items_of (PStr s) = Inr (map (\<lambda>c. PStr [c]) s)"
| "items_of _ = Inl Type_Error"

text \<open>\<open>x or []\<close> as the subject of a loop.\<close>

definition items_or :: "py \<Rightarrow> py list flt" where
  "items_or v = (if truthy v then items_of v else Inr [])"

text \<open>\<open>(x or {}).get(k)\<close>.\<close>

definition get_or :: "py \<Rightarrow> string \<Rightarrow> py flt" where
  "get_or v k = (if \<not> truthy v then Inr PNone else case v of PDict d \<Rightarrow> Inr (dget d k) | _ \<Rightarrow> Inl Attribute_Error)"

text \<open>\<open>d.get(k, default)\<close>.\<close>

definition dget_def :: "dict \<Rightarrow> string \<Rightarrow> py \<Rightarrow> py" where
  "dget_def d k v = (case map_of d k of None \<Rightarrow> v | Some x \<Rightarrow> x)"

fun foldR :: "('a \<Rightarrow> 's \<Rightarrow> 'e + 's) \<Rightarrow> 'a list \<Rightarrow> 's \<Rightarrow> 'e + 's" where
  "foldR f [] s = Inr s"
| "foldR f (x # xs) s = bindR (f x s) (foldR f xs)"

fun mapR :: "('a \<Rightarrow> 'e + 'b) \<Rightarrow> 'a list \<Rightarrow> 'e + 'b list" where
  "mapR f [] = Inr []"
| "mapR f (x # xs) = bindR (f x) (\<lambda>y. bindR (mapR f xs) (\<lambda>ys. Inr (y # ys)))"

text \<open>\<open>dict.fromkeys\<close> as an order without repetitions.\<close>

definition first_seen :: "string list \<Rightarrow> string list" where
  "first_seen xs = rev (remdups (rev xs))"

text \<open>A property of every element a loop has seen, by induction over the loop.\<close>

lemma foldR_invariant:
  assumes "foldR f xs s = Inr t" and "P s"
    and "\<And>x s t. x \<in> set xs \<Longrightarrow> P s \<Longrightarrow> f x s = Inr t \<Longrightarrow> P t"
  shows "P t"
  using assms
proof (induction xs arbitrary: s)
  case (Cons x xs)
  then obtain u where "f x s = Inr u" "foldR f xs u = Inr t" by (auto simp: bindR_Inr_iff)
  with Cons show ?case by (metis list.set_intros(1,2))
qed simp

lemma mapR_set: "mapR f xs = Inr ys \<Longrightarrow> set ys = {y. \<exists>x \<in> set xs. f x = Inr y}"
  by (induction xs arbitrary: ys) (auto simp: bindR_Inr_iff)

text \<open>\<open>sorted\<close> on strings, and the entries in the order of a key.\<close>

lemma set_sort_key [simp]: "set (sort_key f xs) = set xs" by simp

end
