(* ===== verification/Converge_Prune.thy ===== *)
theory Converge_Prune
  imports Filter_Values
begin

text \<open>
  What a converge removes and what it reports: \<open>converge_manifest.py\<close>, the filters that decide
  which files of an earlier converge may be deleted, and \<open>bootstrap_drift.py\<close>, the report on files
  that only the bootstrap writes (both under \<open>src/ansible/playbooks/filter_plugins\<close>).
\<close>

section \<open>The converge manifest\<close>

definition absolute_path :: "string \<Rightarrow> bool" where
  "absolute_path p = prefix ''/'' p"

text \<open>\<open>_paths\<close>, one declared entry at a time, with those collected so far.\<close>

definition add_declared :: "py \<Rightarrow> string list \<Rightarrow> string list flt" where
  "add_declared raw acc = (case raw of
      PStr s \<Rightarrow> (let path = strip s in
        if path = [] \<or> path \<in> set acc then Inr acc
        else if \<not> absolute_path path then Inl Value_Error
        else Inr (acc @ [path]))
    | _ \<Rightarrow> Inl Value_Error)"

definition declared_paths :: "py \<Rightarrow> string list flt" where
  "declared_paths declared = (case declared of
      PNone \<Rightarrow> Inr []
    | PList xs \<Rightarrow> foldR add_declared xs []
    | _ \<Rightarrow> Inl Value_Error)"

definition entry_of :: "string \<Rightarrow> py \<Rightarrow> py" where
  "entry_of path digest = PDict [(''path'', PStr path), (''sha256'', digest)]"

definition add_stat :: "py \<Rightarrow> (string \<times> py) list \<Rightarrow> (string \<times> py) list flt" where
  "add_stat result by_path = (case result of
      PDict r \<Rightarrow>
        (let raw = (if truthy (dget r ''item'') then dget r ''item'' else PStr []);
             item = (case raw of PDict i \<Rightarrow> dget_def i ''path'' (PStr []) | _ \<Rightarrow> raw);
             path = strip (py_str item) in
         if path = [] then Inr by_path
         else bindR (get_or (dget r ''stat'') ''exists'') (\<lambda>exists.
           if \<not> truthy exists then Inr by_path
           else bindR (get_or (dget r ''stat'') ''checksum'') (\<lambda>sum.
             Inr (AList.update path (if truthy sum then sum else PStr []) by_path))))
    | _ \<Rightarrow> Inr by_path)"

definition converge_installed :: "py \<Rightarrow> py \<Rightarrow> py list flt" where
  "converge_installed declared stats =
     bindR (items_or stats) (\<lambda>results.
     bindR (foldR add_stat results []) (\<lambda>by_path.
     bindR (declared_paths declared) (\<lambda>ps.
       Inr (List.map_filter (\<lambda>p. map_option (entry_of p) (map_of by_path p)) ps))))"

text \<open>A withdrawn candidate: its path and the digest recorded for it.\<close>

definition add_withdrawn :: "string list \<Rightarrow> py \<Rightarrow> (string \<times> string) list \<Rightarrow> (string \<times> string) list flt" where
  "add_withdrawn keep entry out = (case entry of
      PDict e \<Rightarrow>
        (let path = strip (str_or (dget e ''path'')) in
         if path = [] \<or> path \<in> set keep \<or> path \<in> fst ` set out then Inr out
         else Inr (out @ [(path, str_or (dget e ''sha256''))]))
    | _ \<Rightarrow> Inr out)"

definition converge_withdrawn :: "py \<Rightarrow> py \<Rightarrow> py list flt" where
  "converge_withdrawn previous declared =
     bindR (declared_paths declared) (\<lambda>keep.
     bindR (items_or (case previous of PDict d \<Rightarrow> dget d ''installed'' | _ \<Rightarrow> PNone)) (\<lambda>entries.
     bindR (foldR (add_withdrawn keep) entries []) (\<lambda>out.
       Inr (map (\<lambda>(p, s). entry_of p (PStr s)) (sort_key fst out)))))"

definition claimed_path :: "py \<Rightarrow> string option" where
  "claimed_path entry = (case entry of
      PDict e \<Rightarrow> if truthy (dget e ''path'') then Some (strip (py_str (dget e ''path''))) else None
    | _ \<Rightarrow> None)"

definition claimed_paths :: "py \<Rightarrow> string list flt" where
  "claimed_paths manifest = (case manifest of
      PDict m \<Rightarrow> bindR (items_or (dget m ''entries'')) (\<lambda>es. Inr (List.map_filter claimed_path es))
    | _ \<Rightarrow> Inr [])"

text \<open>A path that is a list or a dictionary cannot be looked up in a set.\<close>

definition add_unclaimed :: "string list \<Rightarrow> py \<Rightarrow> py list \<Rightarrow> py list flt" where
  "add_unclaimed claimed e out = (case e of
      PDict d \<Rightarrow> (case dget d ''path'' of
          PStr p \<Rightarrow> Inr (if p \<in> set claimed then out else out @ [e])
        | PList _ \<Rightarrow> Inl Type_Error
        | PDict _ \<Rightarrow> Inl Type_Error
        | _ \<Rightarrow> Inr (out @ [e]))
    | _ \<Rightarrow> Inr out)"

definition converge_unclaimed :: "py \<Rightarrow> py \<Rightarrow> py list flt" where
  "converge_unclaimed withdrawn payload_manifest =
     bindR (claimed_paths payload_manifest) (\<lambda>claimed.
     bindR (items_or withdrawn) (\<lambda>es. foldR (add_unclaimed claimed) es []))"

text \<open>\<open>_split\<close> on one result of the stat loop: nothing, one of ours or one of another's.\<close>

definition sort_candidate :: "py \<Rightarrow> py list \<times> py list \<Rightarrow> (py list \<times> py list) flt" where
  "sort_candidate result acc = (case result of
      PDict r \<Rightarrow> (case dget r ''item'' of
          PDict e \<Rightarrow>
            if \<not> truthy (dget e ''path'') then Inr acc
            else bindR (get_or (dget r ''stat'') ''exists'') (\<lambda>exists.
              if \<not> truthy exists then Inr acc
              else bindR (get_or (dget r ''stat'') ''checksum'') (\<lambda>sum.
                let recorded = str_or (dget e ''sha256'') in
                if recorded \<noteq> [] \<and> recorded = str_or sum then Inr (fst acc @ [PDict e], snd acc)
                else Inr (fst acc, snd acc @ [PDict e])))
        | _ \<Rightarrow> Inr acc)
    | _ \<Rightarrow> Inr acc)"

definition split_candidates :: "py \<Rightarrow> (py list \<times> py list) flt" where
  "split_candidates stats = bindR (items_or stats) (\<lambda>rs. foldR sort_candidate rs ([], []))"

definition converge_prunable :: "py \<Rightarrow> py list flt" where
  "converge_prunable stats = bindR (split_candidates stats) (\<lambda>s. Inr (fst s))"

definition converge_foreign :: "py \<Rightarrow> py list flt" where
  "converge_foreign stats = bindR (split_candidates stats) (\<lambda>s. Inr (snd s))"

section \<open>The bootstrap report\<close>

definition add_file :: "py \<Rightarrow> (string \<times> string) list \<Rightarrow> (string \<times> string) list flt" where
  "add_file entry out = (case entry of
      PDict e \<Rightarrow> if truthy (dget e ''path'')
                then Inr (AList.update (py_str (dget e ''path'')) (str_or (dget e ''checksum'')) out) else Inr out
    | _ \<Rightarrow> Inr out)"

definition add_result :: "py \<Rightarrow> (string \<times> string) list \<Rightarrow> (string \<times> string) list flt" where
  "add_result result out = (case result of
      PDict r \<Rightarrow>
        bindR (items_or (dget r ''files'')) (\<lambda>files.
        bindR (foldR add_file files out) (\<lambda>out'.
          case dget r ''stat'' of
            PDict i \<Rightarrow> if truthy (dget i ''exists'') \<and> truthy (dget i ''path'')
                      then Inr (AList.update (py_str (dget i ''path'')) (str_or (dget i ''checksum'')) out') else Inr out'
          | _ \<Rightarrow> Inr out'))
    | _ \<Rightarrow> Inr out)"

definition digest_map :: "py \<Rightarrow> (string \<times> string) list flt" where
  "digest_map results = bindR (items_or results) (\<lambda>rs. foldR add_result rs [])"

definition bootstrap_digests :: "py \<Rightarrow> py \<Rightarrow> (string \<times> string) list flt" where
  "bootstrap_digests finds stats =
     bindR (digest_map finds) (\<lambda>a. bindR (digest_map stats) (\<lambda>b.
       Inr (sort_key fst (foldl (\<lambda>m (k, v). AList.update k v m) a b))))"

definition switched_one :: "string \<Rightarrow> string \<Rightarrow> bool" where
  "switched_one path w = (w \<noteq> [] \<and> (path = w \<or> prefix (rstrip_by (\<lambda>c. c = CHR ''/'') w @ ''/'') path))"

definition switched_by :: "string \<Rightarrow> py \<Rightarrow> bool flt" where
  "switched_by path switched = bindR (items_or switched) (\<lambda>ws. Inr (list_ex (\<lambda>w. switched_one path (py_str w)) ws))"

definition str_dict :: "py \<Rightarrow> (string \<times> string) list" where
  "str_dict v = (case v of PDict d \<Rightarrow> map (\<lambda>(k, x). (k, py_str x)) d | _ \<Rightarrow> [])"

record drift =
  added :: "string list"
  removed :: "string list"
  changed :: "string list"

definition keep_unswitched :: "py list \<Rightarrow> string list \<Rightarrow> string list" where
  "keep_unswitched ws ps = sort (filter (\<lambda>p. \<not> list_ex (\<lambda>w. switched_one p (py_str w)) ws) (remdups ps))"

definition bootstrap_drift :: "py \<Rightarrow> py \<Rightarrow> py \<Rightarrow> drift flt" where
  "bootstrap_drift previous current switched =
     (let before = str_dict previous; after = str_dict current;
          new = filter (\<lambda>p. map_of before p = None) (map fst after);
          gone = filter (\<lambda>p. map_of after p = None) (map fst before);
          moved = filter (\<lambda>p. case (map_of before p, map_of after p) of
             (Some b, Some a) \<Rightarrow> b \<noteq> [] \<and> a \<noteq> [] \<and> b \<noteq> a | _ \<Rightarrow> False) (map fst before) in
      if new = [] \<and> gone = [] \<and> moved = [] then Inr \<lparr>added = [], removed = [], changed = []\<rparr>
      else bindR (items_or switched) (\<lambda>ws. Inr
        \<lparr>added = keep_unswitched ws new, removed = keep_unswitched ws gone, changed = keep_unswitched ws moved\<rparr>))"

section \<open>What may be deleted\<close>

lemma withdrawn_entries:
  assumes "converge_withdrawn previous declared = Inr ws" and "e \<in> set ws"
  shows "\<exists>keep d entries p r. declared_paths declared = Inr keep \<and> previous = PDict d
    \<and> items_or (dget d ''installed'') = Inr entries \<and> PDict r \<in> set entries
    \<and> p = strip (str_or (dget r ''path'')) \<and> p \<notin> set keep \<and> p \<noteq> []
    \<and> e = entry_of p (PStr (str_or (dget r ''sha256'')))"
proof -
  from assms(1) obtain keep entries out where k: "declared_paths declared = Inr keep"
    and i: "items_or (case previous of PDict d \<Rightarrow> dget d ''installed'' | _ \<Rightarrow> PNone) = Inr entries"
    and f: "foldR (add_withdrawn keep) entries [] = Inr out"
    and ws: "ws = map (\<lambda>(p, s). entry_of p (PStr s)) (sort_key fst out)"
    by (auto simp: converge_withdrawn_def bindR_Inr_iff)
  let ?P = "\<lambda>acc. \<forall>(p, s) \<in> set acc. \<exists>r. PDict r \<in> set entries \<and> p = strip (str_or (dget r ''path''))
      \<and> p \<notin> set keep \<and> p \<noteq> [] \<and> s = str_or (dget r ''sha256'')"
  have "?P out"
    by (rule foldR_invariant [OF f, where P = ?P])
      (auto simp: add_withdrawn_def Let_def split: py.splits if_splits)
  then obtain p s r where "e = entry_of p (PStr s)" "PDict r \<in> set entries" "p = strip (str_or (dget r ''path''))"
    "p \<notin> set keep" "p \<noteq> []" "s = str_or (dget r ''sha256'')"
    using assms(2) ws by auto
  moreover obtain d where "previous = PDict d"
    using i \<open>PDict r \<in> set entries\<close> by (cases previous) (auto simp: items_or_def)
  ultimately show ?thesis using k i by auto
qed

lemma unclaimed_entries:
  assumes "converge_unclaimed (PList ws) manifest = Inr us" and "entry_of p s \<in> set us"
  shows "entry_of p s \<in> set ws \<and> (\<exists>claimed. claimed_paths manifest = Inr claimed \<and> p \<notin> set claimed)"
proof -
  from assms(1) obtain claimed es where c: "claimed_paths manifest = Inr claimed" and i: "items_or (PList ws) = Inr es"
    and f: "foldR (add_unclaimed claimed) es [] = Inr us"
    by (auto simp: converge_unclaimed_def bindR_Inr_iff)
  have ws: "es = ws" using i by (auto simp: items_or_def split: if_splits)
  let ?P = "\<lambda>acc. \<forall>e \<in> set acc. e \<in> set ws \<and> (\<forall>p s. e = entry_of p s \<longrightarrow> p \<notin> set claimed)"
  have "?P us"
    by (rule foldR_invariant [OF f, where P = ?P])
      (auto simp: add_unclaimed_def entry_of_def dget_def ws split: py.splits if_splits)
  then show ?thesis using assms(2) c by blast
qed

lemma prunable_entries:
  assumes "converge_prunable stats = Inr ps" and "e \<in> set ps"
  shows "\<exists>rs r d sum. items_or stats = Inr rs \<and> PDict r \<in> set rs \<and> dget r ''item'' = e \<and> e = PDict d
    \<and> get_or (dget r ''stat'') ''checksum'' = Inr sum \<and> str_or (dget d ''sha256'') \<noteq> []
    \<and> str_or (dget d ''sha256'') = str_or sum"
proof -
  from assms(1) obtain rs acc where rs: "items_or stats = Inr rs" and f: "foldR sort_candidate rs ([], []) = Inr acc"
    and ps: "ps = fst acc"
    by (auto simp: converge_prunable_def split_candidates_def bindR_Inr_iff)
  let ?P = "\<lambda>a :: py list \<times> py list. \<forall>e \<in> set (fst a). \<exists>r d sum. PDict r \<in> set rs \<and> dget r ''item'' = e \<and> e = PDict d
    \<and> get_or (dget r ''stat'') ''checksum'' = Inr sum \<and> str_or (dget d ''sha256'') \<noteq> []
    \<and> str_or (dget d ''sha256'') = str_or sum"
  have "?P acc"
  proof (rule foldR_invariant [OF f, where P = ?P])
    fix x s t assume x: "x \<in> set rs" and P: "?P s" and t: "sort_candidate x s = Inr t"
    show "?P t"
    proof (cases "fst t = fst s")
      case True
      then show ?thesis using P by simp
    next
      case False
      with t obtain r d sum where "x = PDict r" "dget r ''item'' = PDict d"
        "get_or (dget r ''stat'') ''checksum'' = Inr sum" "str_or (dget d ''sha256'') \<noteq> []"
        "str_or (dget d ''sha256'') = str_or sum" "fst t = fst s @ [PDict d]"
        by (auto simp: sort_candidate_def bindR_Inr_iff Let_def split: py.splits if_splits)
      then show ?thesis using P x by auto
    qed
  qed simp
  then show ?thesis using assms(2) ps rs by blast
qed

section \<open>Properties\<close>

text \<open>C39: a prune deletes only what is still the converge's own. For an entry that the filters give as
  prunable, from a stat loop over the unclaimed withdrawn entries: the earlier converge recorded
  its path with a digest that is not empty, the file has that digest now, this converge does not
  declare the path and the payload's manifest does not claim it.\<close>

theorem prune_only_own_files:
  assumes "converge_withdrawn previous declared = Inr ws" and "converge_unclaimed (PList ws) manifest = Inr us"
    and "\<forall>r. PDict r \<in> set results \<longrightarrow> dget r ''item'' \<in> set us"
    and "converge_prunable (PList results) = Inr ps" and "e \<in> set ps"
  shows "\<exists>p s keep claimed d entries rec r sum. e = entry_of p (PStr s) \<and> s \<noteq> []
    \<and> declared_paths declared = Inr keep \<and> p \<notin> set keep
    \<and> claimed_paths manifest = Inr claimed \<and> p \<notin> set claimed
    \<and> previous = PDict d \<and> items_or (dget d ''installed'') = Inr entries \<and> PDict rec \<in> set entries
    \<and> p = strip (str_or (dget rec ''path'')) \<and> s = str_or (dget rec ''sha256'')
    \<and> PDict r \<in> set results \<and> dget r ''item'' = e
    \<and> get_or (dget r ''stat'') ''checksum'' = Inr sum \<and> str_or sum = s"
proof -
  obtain r d' sum where r: "PDict r \<in> set results" "dget r ''item'' = e" "e = PDict d'"
    "get_or (dget r ''stat'') ''checksum'' = Inr sum" "str_or (dget d' ''sha256'') \<noteq> []"
    "str_or (dget d' ''sha256'') = str_or sum"
    using prunable_entries [OF assms(4,5)] by (auto simp: items_or_def split: if_splits)
  have u: "e \<in> set us" using assms(3) r(1,2) by auto
  have uw: "x \<in> set ws" if "x \<in> set us" for x
  proof -
    obtain es claimed where f: "foldR (add_unclaimed claimed) es [] = Inr us" "items_or (PList ws) = Inr es"
      using assms(2) by (auto simp: converge_unclaimed_def bindR_Inr_iff)
    have "\<forall>e \<in> set us. e \<in> set es"
      by (rule foldR_invariant [OF f(1)]) (auto simp: add_unclaimed_def split: py.splits if_splits)
    then show ?thesis using that f(2) by (auto simp: items_or_def split: if_splits)
  qed
  obtain keep d entries p rec where w: "declared_paths declared = Inr keep" "previous = PDict d"
    "items_or (dget d ''installed'') = Inr entries" "PDict rec \<in> set entries"
    "p = strip (str_or (dget rec ''path''))" "p \<notin> set keep" "p \<noteq> []"
    "e = entry_of p (PStr (str_or (dget rec ''sha256'')))"
    using withdrawn_entries [OF assms(1) uw [OF u]] by auto
  obtain claimed where c: "claimed_paths manifest = Inr claimed" "p \<notin> set claimed"
    using unclaimed_entries [OF assms(2), of p] u w(8) by auto
  have "dget d' ''sha256'' = PStr (str_or (dget rec ''sha256''))"
    using r(3) w(8) by (auto simp: entry_of_def dget_def)
  then have "str_or (dget d' ''sha256'') = str_or (dget rec ''sha256'')" by (simp add: str_or_def)
  then have "str_or (dget rec ''sha256'') \<noteq> []" "str_or sum = str_or (dget rec ''sha256'')" using r(5,6) by auto
  then show ?thesis using w c r by metis
qed

definition demo_previous :: py where
  "demo_previous = PDict [(''installed'', PList [entry_of ''/usr/local/bin/a'' (PStr ''x''), entry_of ''/usr/local/bin/b'' (PStr ''y'')])]"

definition demo_stat :: py where
  "demo_stat = PDict [(''item'', entry_of ''/usr/local/bin/a'' (PStr ''x'')),
     (''stat'', PDict [(''exists'', PBool True), (''checksum'', PStr ''x'')])]"

theorem prune_only_own_files_witness:
  "\<exists>ws us. converge_withdrawn demo_previous (PList [PStr ''/usr/local/bin/b'']) = Inr ws
     \<and> converge_unclaimed (PList ws) (PDict []) = Inr us
     \<and> converge_prunable (PList [demo_stat]) = Inr [entry_of ''/usr/local/bin/a'' (PStr ''x'')]
     \<and> (\<exists>p s. entry_of ''/usr/local/bin/a'' (PStr ''x'') = entry_of p (PStr s) \<and> s \<noteq> [])"
proof -
  have w: "converge_withdrawn demo_previous (PList [PStr ''/usr/local/bin/b'']) = Inr [entry_of ''/usr/local/bin/a'' (PStr ''x'')]"
    "converge_unclaimed (PList [entry_of ''/usr/local/bin/a'' (PStr ''x'')]) (PDict []) = Inr [entry_of ''/usr/local/bin/a'' (PStr ''x'')]"
    "converge_prunable (PList [demo_stat]) = Inr [entry_of ''/usr/local/bin/a'' (PStr ''x'')]" by code_simp+
  have "\<forall>r. PDict r \<in> set [demo_stat] \<longrightarrow> dget r ''item'' \<in> set [entry_of ''/usr/local/bin/a'' (PStr ''x'')]"
    by (simp add: demo_stat_def dget_def)
  from prune_only_own_files [OF w(1,2) this w(3), of "entry_of ''/usr/local/bin/a'' (PStr ''x'')"] w
  show ?thesis by auto
qed

text \<open>The drift report is exact. A path is reported as added, removed or changed exactly when it is
  new, gone, or on both sides with two different digests that are both known, and no proven switch
  of this converge wrote it; the three lists are sorted, without repetition and disjoint.\<close>

theorem drift_report_exact:
  assumes "items_or switched = Inr ws" and "bootstrap_drift previous current switched = Inr r"
  shows "(\<forall>p. let b = map_of (str_dict previous) p; a = map_of (str_dict current) p;
              moved = (\<not> list_ex (\<lambda>w. switched_one p (py_str w)) ws) in
      (p \<in> set (added r) \<longleftrightarrow> moved \<and> b = None \<and> a \<noteq> None)
    \<and> (p \<in> set (removed r) \<longleftrightarrow> moved \<and> b \<noteq> None \<and> a = None)
    \<and> (p \<in> set (changed r) \<longleftrightarrow> moved \<and> (\<exists>x y. b = Some x \<and> a = Some y \<and> x \<noteq> [] \<and> y \<noteq> [] \<and> x \<noteq> y)))
    \<and> list_all (\<lambda>l. sorted l \<and> distinct l) [added r, removed r, changed r]"
proof -
  let ?b = "str_dict previous" and ?a = "str_dict current"
  let ?new = "filter (\<lambda>p. map_of ?b p = None) (map fst ?a)"
  let ?gone = "filter (\<lambda>p. map_of ?a p = None) (map fst ?b)"
  let ?moved = "filter (\<lambda>p. case (map_of ?b p, map_of ?a p) of
     (Some b, Some a) \<Rightarrow> b \<noteq> [] \<and> a \<noteq> [] \<and> b \<noteq> a | _ \<Rightarrow> False) (map fst ?b)"
  have e: "keep_unswitched ws [] = []" by (simp add: keep_unswitched_def)
  have r: "r = \<lparr>added = keep_unswitched ws ?new, removed = keep_unswitched ws ?gone, changed = keep_unswitched ws ?moved\<rparr>"
    using assms by (auto simp: bootstrap_drift_def Let_def e split: if_splits)
  have k: "p \<in> set (keep_unswitched ws xs) \<longleftrightarrow> \<not> list_ex (\<lambda>w. switched_one p (py_str w)) ws \<and> p \<in> set xs" for p xs
    by (auto simp: keep_unswitched_def)
  have kd: "sorted (keep_unswitched ws xs) \<and> distinct (keep_unswitched ws xs)" for xs
    by (simp add: keep_unswitched_def)
  have d: "p \<in> set (map fst m) \<longleftrightarrow> map_of m p \<noteq> None" for p and m :: "(string \<times> string) list"
    by (auto simp: map_of_eq_None_iff)
  have dom: "p \<in> fst ` set m \<longleftrightarrow> (\<exists>y. map_of m p = Some y)" for p and m :: "(string \<times> string) list"
    using d [of p m] by simp
  show ?thesis
    unfolding r by (auto simp: k kd dom Let_def split: option.splits)
qed

theorem drift_report_exact_witness:
  "\<exists>r. bootstrap_drift (PDict [(''/etc/a'', PStr ''1''), (''/etc/b'', PStr ''1'')]) (PDict [(''/etc/a'', PStr ''2''), (''/etc/c'', PStr ''1'')])
      (PList [PStr ''/etc/c'']) = Inr r \<and> ''/etc/a'' \<in> set (changed r) \<and> ''/etc/c'' \<notin> set (added r)"
proof -
  let ?p = "PDict [(''/etc/a'', PStr ''1''), (''/etc/b'', PStr ''1'')]" and ?c = "PDict [(''/etc/a'', PStr ''2''), (''/etc/c'', PStr ''1'')]"
  have "bootstrap_drift ?p ?c (PList [PStr ''/etc/c'']) = Inr \<lparr>added = [], removed = [''/etc/b''], changed = [''/etc/a'']\<rparr>"
    by code_simp
  moreover have "items_or (PList [PStr ''/etc/c'']) = Inr [PStr ''/etc/c'']" by code_simp
  ultimately show ?thesis using drift_report_exact [of "PList [PStr ''/etc/c'']" _ ?p ?c] by auto
qed

end
