(* ===== verification/Ip_Address.thy ===== *)
theory Ip_Address
  imports Filter_Values
begin

text \<open>
  What \<open>src/ansible/helpers/tailnet_reachability.py\<close> uses of Python's \<open>ipaddress\<close> and \<open>shlex\<close>
  modules: reading an address and a network from a text, membership, order and equality, and the
  split of a line into shell words.
\<close>

section \<open>Addresses\<close>

datatype addr = Addr (ip_version: int) (ip_num: int) (ip_scope: "string option")

definition all_digits :: "string \<Rightarrow> bool" where
  "all_digits s = (s \<noteq> [] \<and> list_all is_digit s)"

definition octet :: "string \<Rightarrow> int option" where
  "octet s =
     (let n = int (nat_of_digits 0 s) in
      if all_digits s \<and> length s \<le> 3 \<and> (s = ''0'' \<or> hd s \<noteq> CHR ''0'') \<and> n \<le> 255 then Some n else None)"

fun digits_base :: "int \<Rightarrow> int list \<Rightarrow> int \<Rightarrow> int" where
  "digits_base b [] acc = acc"
| "digits_base b (d # ds) acc = digits_base b ds (acc * b + d)"

fun all_some :: "'a option list \<Rightarrow> 'a list option" where
  "all_some [] = Some []"
| "all_some (None # xs) = None"
| "all_some (Some x # xs) = map_option (Cons x) (all_some xs)"

definition ipv4_int :: "string \<Rightarrow> int option" where
  "ipv4_int s =
     (let parts = split_char (CHR ''.'') s in
      if length parts \<noteq> 4 then None
      else map_option (\<lambda>ds. digits_base 256 ds 0) (all_some (map octet parts)))"

definition hex_value :: "char \<Rightarrow> int option" where
  "hex_value c =
     (let n = of_char c in
      if is_digit c then Some (n - 48)
      else if 97 \<le> n \<and> n \<le> 102 then Some (n - 87)
      else if 65 \<le> n \<and> n \<le> 70 then Some (n - 55) else None)"

definition hextet :: "string \<Rightarrow> int option" where
  "hextet s =
     (if s = [] \<or> 4 < length s then None
      else map_option (\<lambda>ds. digits_base 16 ds 0) (all_some (map hex_value s)))"

definition hextets :: "int option list \<Rightarrow> int option" where
  "hextets xs = map_option (\<lambda>ds. digits_base 65536 ds 0) (all_some xs)"

text \<open>The groups of an address with one \<open>::\<close> at \<open>k\<close>, or with none.\<close>

definition ipv6_groups :: "string list \<Rightarrow> int option" where
  "ipv6_groups parts =
     (let n = length parts in
      if 9 < n then None
      else case filter (\<lambda>i. parts ! i = []) [1..<n - 1] of
        [] \<Rightarrow> if n = 8 then hextets (map hextet parts) else None
      | [k] \<Rightarrow>
          if (hd parts = [] \<and> k \<noteq> 1) \<or> (last parts = [] \<and> k \<noteq> n - 2) then None
          else
            (let hi = (if hd parts = [] then [] else take k parts);
                 lo = (if last parts = [] then [] else drop (k + 1) parts) in
             if 7 < length hi + length lo then None
             else hextets (map hextet hi @ replicate (8 - (length hi + length lo)) (Some 0) @ map hextet lo))
      | _ \<Rightarrow> None)"

text \<open>The dotted tail of an address stands for its last two groups.\<close>

definition hex4 :: "int \<Rightarrow> string" where
  "hex4 n = map (\<lambda>d. hex_digit (nat d)) [n div 4096 mod 16, n div 256 mod 16, n div 16 mod 16, n mod 16]"

definition ipv6_int :: "string \<Rightarrow> int option" where
  "ipv6_int s =
     (let parts = split_char (CHR '':'') s in
      if length parts < 3 then None
      else if CHR ''.'' \<in> set (last parts) then
        (case ipv4_int (last parts) of
           None \<Rightarrow> None
         | Some n \<Rightarrow> ipv6_groups (butlast parts @ [hex4 (n div 65536 mod 65536), hex4 (n mod 65536)]))
      else ipv6_groups parts)"

definition ipv6_of :: "string \<Rightarrow> addr option" where
  "ipv6_of s = (case partition_char (CHR ''%'') s of (a, has_scope, scope) \<Rightarrow>
     if has_scope \<and> (scope = [] \<or> CHR ''%'' \<in> set scope) then None
     else map_option (\<lambda>n. Addr 6 n (if has_scope then Some scope else None)) (ipv6_int a))"

definition ip_address :: "string \<Rightarrow> addr option" where
  "ip_address s =
     (if CHR ''/'' \<in> set s then None
      else case ipv4_int s of Some n \<Rightarrow> Some (Addr 4 n None) | None \<Rightarrow> ipv6_of s)"

definition ip_le :: "addr \<Rightarrow> addr \<Rightarrow> bool" where
  "ip_le a b = (ip_num a < ip_num b \<or> a = b)"

section \<open>Networks\<close>

datatype net = Net (net_version: int) (net_base: int) (net_prefix: nat)

definition width :: "int \<Rightarrow> nat" where "width v = (if v = 4 then 32 else 128)"

definition block_size :: "int \<Rightarrow> nat \<Rightarrow> int" where "block_size v p = 2 ^ (width v - p)"

definition prefix_length :: "int \<Rightarrow> string \<Rightarrow> nat option" where
  "prefix_length v s =
     (if all_digits s \<and> nat_of_digits 0 s \<le> width v then Some (nat_of_digits 0 s) else None)"

text \<open>A dotted netmask or hostmask, for version 4.\<close>

definition mask_length :: "string \<Rightarrow> nat option" where
  "mask_length s = (case ipv4_int s of
      None \<Rightarrow> None
    | Some m \<Rightarrow> (case find (\<lambda>p. m = 2 ^ 32 - block_size 4 p) [0..<33] of
        Some p \<Rightarrow> Some p
      | None \<Rightarrow> find (\<lambda>p. m = block_size 4 p - 1) [0..<33]))"

definition netmask :: "int \<Rightarrow> string \<Rightarrow> nat option" where
  "netmask v s = (case prefix_length v s of
      Some p \<Rightarrow> Some p | None \<Rightarrow> if v = 4 then mask_length s else None)"

definition make_net :: "bool \<Rightarrow> int \<Rightarrow> int \<Rightarrow> nat \<Rightarrow> net option" where
  "make_net strict v n p =
     (if strict \<and> n mod block_size v p \<noteq> 0 then None
      else Some (Net v (n - n mod block_size v p) p))"

definition ip_network :: "bool \<Rightarrow> string \<Rightarrow> net option" where
  "ip_network strict s =
     (let parts = split_char (CHR ''/'') s; base = hd parts;
          len = (\<lambda>v. if length parts = 1 then Some (width v) else netmask v (parts ! 1)) in
      if 2 < length parts then None
      else case Option.bind (ipv4_int base) (\<lambda>n. Option.bind (len 4) (make_net strict 4 n)) of
        Some w \<Rightarrow> Some w
      | None \<Rightarrow> Option.bind (ipv6_of base) (\<lambda>a. Option.bind (len 6) (make_net strict 6 (ip_num a))))"

definition ip_in :: "addr \<Rightarrow> net \<Rightarrow> bool" where
  "ip_in a w = (ip_version a = net_version w
     \<and> ip_num a - ip_num a mod block_size (net_version w) (net_prefix w) = net_base w)"

section \<open>Shell words\<close>

definition shell_space :: "char \<Rightarrow> bool" where
  "shell_space c = (c = CHR '' '' \<or> c = CHR 0x09 \<or> c = CHR 0x0D \<or> c = CHR 0x0A)"

datatype word_state = Between | In_Word | Quoted char | Escaped word_state

text \<open>
  \<open>shlex.split\<close> in POSIX mode: the state of the scan, the word read so far (reversed), the rest. A
  backslash escapes between double quotes only a double quote or a backslash.
\<close>

fun shell_words :: "word_state \<Rightarrow> string \<Rightarrow> string \<Rightarrow> string list option" where
  "shell_words Between w [] = Some []"
| "shell_words In_Word w [] = Some [rev w]"
| "shell_words (Quoted q) w [] = None"
| "shell_words (Escaped st) w [] = None"
| "shell_words (Quoted q) w (c # s) =
     (if c = q then shell_words In_Word w s
      else if c = CHR 0x5C \<and> q = CHR 0x22 then shell_words (Escaped (Quoted q)) w s
      else shell_words (Quoted q) (c # w) s)"
| "shell_words (Escaped st) w (c # s) =
     (let kept = (case st of Quoted q \<Rightarrow> c \<noteq> q \<and> c \<noteq> CHR 0x5C | _ \<Rightarrow> False) in
      shell_words (case st of Quoted q \<Rightarrow> Quoted q | _ \<Rightarrow> In_Word) (c # (if kept then CHR 0x5C # w else w)) s)"
| "shell_words st w (c # s) =
     (if shell_space c then (case st of In_Word \<Rightarrow> map_option (Cons (rev w)) (shell_words Between [] s) | _ \<Rightarrow> shell_words Between [] s)
      else if c = CHR 0x5C then shell_words (Escaped In_Word) w s
      else if c = CHR 0x22 \<or> c = CHR 0x27 then shell_words (Quoted c) w s
      else shell_words In_Word (c # w) s)"

definition shlex_split :: "string \<Rightarrow> string list flt" where
  "shlex_split s = (case shell_words Between [] s of None \<Rightarrow> Inl Value_Error | Some ws \<Rightarrow> Inr ws)"

end
