(* ===== verification/Text_Filters.thy ===== *)
theory Text_Filters
  imports Filter_Values
begin

text \<open>
  The filters and the lookup that turn one text or one stored choice into another, under
  \<open>src/ansible/playbooks\<close>: \<open>smtp_resolve.py\<close>, \<open>catena_served_zones.py\<close>, \<open>swarm_naming.py\<close>,
  \<open>restic_repo_endpoint.py\<close>, \<open>dotenv_value.py\<close>, \<open>keyscan_alias.py\<close> and \<open>lookup_plugins/dotenv.py\<close>.
  The JSON reader, \<open>datetime.fromisoformat\<close> (as seconds) and the files are arguments.
\<close>

section \<open>Outgoing mail\<close>

text \<open>\<open>int(s)\<close> of a text: a sign, and digits with single underscores between them.\<close>

fun int_body :: "bool \<Rightarrow> string \<Rightarrow> string option" where
  "int_body digit [] = (if digit then Some [] else None)"
| "int_body digit (c # s) =
     (if is_digit c then map_option (Cons c) (int_body True s)
      else if c = CHR ''_'' \<and> digit then int_body False s else None)"

definition py_int :: "string \<Rightarrow> int option" where
  "py_int text = (case strip text of
      [] \<Rightarrow> None
    | c # s \<Rightarrow>
        if c = CHR ''-'' then map_option (\<lambda>d. - int (nat_of_digits 0 d)) (int_body False s)
        else if c = CHR ''+'' then map_option (\<lambda>d. int (nat_of_digits 0 d)) (int_body False s)
        else map_option (\<lambda>d. int (nat_of_digits 0 d)) (int_body False (c # s)))"

definition IMPLICIT_TLS_PORT :: int where "IMPLICIT_TLS_PORT = 465"

record relay =
  rl_host :: string
  rl_port :: int
  rl_user :: "string option"

definition KNOWN :: "(string \<times> relay) list" where
  "KNOWN = [(''resend'', \<lparr>rl_host = ''smtp.resend.com'', rl_port = 587, rl_user = Some ''resend''\<rparr>),
     (''brevo'', \<lparr>rl_host = ''smtp-relay.brevo.com'', rl_port = 587, rl_user = None\<rparr>)]"

definition ROUTED :: "string list" where "ROUTED = map fst KNOWN @ [''server'']"

record smtp =
  sm_enabled :: bool
  sm_host :: string
  sm_port :: int
  sm_implicit_tls :: bool
  sm_user :: string
  sm_sender :: string

definition catena_smtp_resolve :: "py \<Rightarrow> py \<Rightarrow> py \<Rightarrow> py \<Rightarrow> py \<Rightarrow> py \<Rightarrow> smtp" where
  "catena_smtp_resolve provider host port user sender fallback_sender =
     (let choice = lower (strip_or provider);
          from = (if strip_or sender \<noteq> [] then strip_or sender else strip_or fallback_sender) in
      if choice \<notin> set ROUTED then
        \<lparr>sm_enabled = False, sm_host = [], sm_port = 587, sm_implicit_tls = False, sm_user = [], sm_sender = from\<rparr>
      else case map_of KNOWN choice of
        Some known \<Rightarrow>
          \<lparr>sm_enabled = True, sm_host = rl_host known, sm_port = rl_port known,
           sm_implicit_tls = (rl_port known = IMPLICIT_TLS_PORT),
           sm_user = (case rl_user known of Some u \<Rightarrow> u | None \<Rightarrow> strip_or user), sm_sender = from\<rparr>
      | None \<Rightarrow>
          (let text = strip (py_str port);
               resolved = (if text = [] then 587 else case py_int text of None \<Rightarrow> 587 | Some n \<Rightarrow> n) in
           \<lparr>sm_enabled = True, sm_host = strip_or host, sm_port = resolved,
            sm_implicit_tls = (resolved = IMPLICIT_TLS_PORT), sm_user = strip_or user, sm_sender = from\<rparr>))"

section \<open>Served zones\<close>

definition parse_iso :: "(string \<Rightarrow> int option) \<Rightarrow> py \<Rightarrow> int option" where
  "parse_iso fromiso v = (case v of
      PStr s \<Rightarrow>
        if strip s = [] then None
        else (let text = strip s in
          fromiso (if suffix ''Z'' text then butlast text @ ''+00:00'' else text))
    | _ \<Rightarrow> None)"

definition add_zone :: "string list \<Rightarrow> py \<Rightarrow> string list" where
  "add_zone out entry = (case entry of
      PDict e \<Rightarrow> (let name = strip_or (dget e ''zone'') in
        if name \<noteq> [] \<and> name \<notin> set out then out @ [name] else out)
    | _ \<Rightarrow> out)"

definition zones_fresh :: "(string \<Rightarrow> int option) \<Rightarrow> dict \<Rightarrow> py \<Rightarrow> int \<Rightarrow> bool" where
  "zones_fresh fromiso doc now max_age_hours =
     (max_age_hours \<le> 0 \<or>
      (case parse_iso fromiso (dget doc ''generated_at'') of
         None \<Rightarrow> False
       | Some generated \<Rightarrow> (case parse_iso fromiso now of
           None \<Rightarrow> True
         | Some reference \<Rightarrow> reference - generated \<le> max_age_hours * 3600)))"

definition catena_served_zones ::
  "(string \<Rightarrow> py option) \<Rightarrow> (string \<Rightarrow> int option) \<Rightarrow> py \<Rightarrow> py \<Rightarrow> py \<Rightarrow> int \<Rightarrow> string list" where
  "catena_served_zones loads fromiso raw schema now max_age_hours =
     (case raw of
        PStr s \<Rightarrow>
          if strip s = [] then []
          else (case loads s of
              Some (PDict doc) \<Rightarrow>
                if \<not> py_eq (dget doc ''schema'') schema then []
                else (case dget doc ''zones'' of
                    PList (primary # others) \<Rightarrow>
                      if \<not> zones_fresh fromiso doc now max_age_hours then [] else foldl add_zone [] others
                  | _ \<Rightarrow> [])
            | _ \<Rightarrow> [])
      | _ \<Rightarrow> [])"

section \<open>Swarm task names\<close>

definition token_ok :: "string \<Rightarrow> bool" where
  "token_ok s = (s \<noteq> [] \<and> list_all (\<lambda>c. is_alnum c \<or> c = CHR ''_'' \<or> c = CHR ''.'' \<or> c = CHR ''-'') s)"

definition validate_token :: "py \<Rightarrow> string flt" where
  "validate_token name = (case name of PStr s \<Rightarrow> if token_ok s then Inr s else Inl Value_Error | _ \<Rightarrow> Inl Value_Error)"

text \<open>\<open>re.escape\<close> on the characters a token can have.\<close>

definition re_escape :: "string \<Rightarrow> string" where
  "re_escape s = concat (map (\<lambda>c. if c = CHR ''.'' \<or> c = CHR ''-'' then [CHR 0x5C, c] else [c]) s)"

definition positive_int :: "py \<Rightarrow> string flt" where
  "positive_int slot = (case slot of
      PInt n \<Rightarrow> if n < 1 then Inl Value_Error else Inr (dec_int n)
    | PBool b \<Rightarrow> if b then Inr ''True'' else Inl Value_Error
    | _ \<Rightarrow> Inl Value_Error)"

definition swarm_container_regex :: "py \<Rightarrow> py \<Rightarrow> py \<Rightarrow> string flt" where
  "swarm_container_regex stack_name service_name slot =
     bindR (validate_token stack_name) (\<lambda>stack.
     bindR (validate_token service_name) (\<lambda>service.
     bindR (positive_int slot) (\<lambda>n.
       Inr (''^'' @ re_escape stack @ ''_'' @ re_escape service @ [CHR 0x5C] @ ''.'' @ n @ [CHR 0x5C] @ ''.[a-z0-9]+$''))))"

section \<open>The endpoint of a restic repository\<close>

definition restic_repo_endpoint :: "py \<Rightarrow> string" where
  "restic_repo_endpoint repo = (case repo of
      PStr s \<Rightarrow>
        (let r = strip s; rest = drop 3 r in
         if s = [] \<or> \<not> prefix ''s3:'' r then []
         else if prefix ''http://'' rest then
           (let netloc = takeWhile (\<lambda>c. c \<noteq> CHR ''/'') (drop 7 rest) in
            if netloc \<noteq> [] then ''http://'' @ netloc else [])
         else if prefix ''https://'' rest then
           (let netloc = takeWhile (\<lambda>c. c \<noteq> CHR ''/'') (drop 8 rest) in
            if netloc \<noteq> [] then ''https://'' @ netloc else [])
         else (let host = takeWhile (\<lambda>c. c \<noteq> CHR ''/'') rest in
            if host \<noteq> [] then ''https://'' @ host else []))
    | _ \<Rightarrow> [])"

section \<open>Environment files\<close>

definition sq :: char where "sq = CHR 0x27"
definition dquote :: char where "dquote = CHR 0x22"

definition blank_tab :: "char \<Rightarrow> bool" where
  "blank_tab c = (c = CHR '' '' \<or> c = CHR 0x09)"

definition key_start :: "char \<Rightarrow> bool" where "key_start c = (is_alpha c \<or> c = CHR ''_'')"
definition key_char :: "char \<Rightarrow> bool" where
  "key_char c = (is_alnum c \<or> c = CHR ''_'' \<or> c = CHR ''.'' \<or> c = CHR ''-'')"

text \<open>A key, spaces, an equals sign and the raw value: the tail of \<open>_LINE\<close> on a line without line feeds.\<close>

definition key_and_value :: "string \<Rightarrow> (string \<times> string) option" where
  "key_and_value s =
     (let key = takeWhile key_char s; rest = dropWhile blank_tab (dropWhile key_char s) in
      if key \<noteq> [] \<and> key_start (hd key) \<and> prefix ''='' rest
      then Some (key, dropWhile blank_tab (drop 1 rest)) else None)"

text \<open>\<open>_LINE.match\<close>: with the optional \<open>export\<close> when the rest then matches, else without it.\<close>

definition env_line :: "string \<Rightarrow> (string \<times> string) option" where
  "env_line line =
     (let s = dropWhile blank_tab line; after = drop 6 s in
      case (if prefix ''export'' s \<and> after \<noteq> [] \<and> blank_tab (hd after)
            then key_and_value (dropWhile blank_tab after) else None) of
        Some kv \<Rightarrow> Some kv
      | None \<Rightarrow> key_and_value s)"

fun unescape :: "string \<Rightarrow> string" where
  "unescape (c # d # s) = (if c = CHR 0x5C \<and> d \<noteq> CHR 0x0A then d # unescape s else c # unescape (d # s))"
| "unescape s = s"

text \<open>\<open>s.split(sep, 1)[0]\<close> for the separator space and number sign.\<close>

fun before_comment :: "string \<Rightarrow> string" where
  "before_comment [] = []"
| "before_comment (c # s) = (if prefix '' #'' (c # s) then [] else c # before_comment s)"

definition env_value :: "string \<Rightarrow> string" where
  "env_value raw0 =
     (let raw = strip raw0 in
      if 2 \<le> length raw \<and> hd raw = sq \<and> last raw = sq then butlast (tl raw)
      else if 2 \<le> length raw \<and> hd raw = dquote \<and> last raw = dquote then unescape (butlast (tl raw))
      else strip (before_comment raw))"

definition take_line :: "string \<Rightarrow> string \<Rightarrow> string \<Rightarrow> string" where
  "take_line key found line = (case env_line line of
      Some (k, raw) \<Rightarrow> if k = key then env_value raw else found | None \<Rightarrow> found)"

definition dotenv_value :: "string \<Rightarrow> string \<Rightarrow> string \<Rightarrow> string" where
  "dotenv_value text key dflt =
     (let found = foldl (take_line key) [] (splitlines text) in if found \<noteq> [] then found else dflt)"

subsection \<open>The lookup\<close>

text \<open>The lines of a file, with universal newlines.\<close>

definition file_line :: "(string \<times> string) list \<Rightarrow> string \<Rightarrow> (string \<times> string) list" where
  "file_line env raw =
     (let line = strip raw in
      if line = [] \<or> prefix ''#'' line \<or> CHR ''='' \<notin> set line then env
      else (case partition_char (CHR ''='') line of (k, _, v) \<Rightarrow>
        let value = strip v in
        AList.update (strip k)
          (if 2 \<le> length value \<and> hd value = last value \<and> (hd value = dquote \<or> hd value = sq)
           then butlast (tl value) else value) env))"

definition load_dotenv :: "string \<Rightarrow> (string \<times> string) list" where
  "load_dotenv text = foldl file_line [] (split_char (CHR 0x0A) (map (\<lambda>c. if c = CHR 0x0D then CHR 0x0A else c) text))"

definition dotenv_candidates :: "string \<Rightarrow> string \<Rightarrow> string \<Rightarrow> (string \<Rightarrow> string) \<Rightarrow> string list" where
  "dotenv_candidates inventory_dir cwd playbook_dir parent =
     (if inventory_dir \<noteq> [] then [inventory_dir @ ''/.env''] else [])
     @ [cwd @ ''/.env'']
     @ (if playbook_dir \<noteq> [] then [parent playbook_dir @ ''/.env'', playbook_dir @ ''/.env''] else [])"

definition find_dotenv :: "(string \<Rightarrow> string option) \<Rightarrow> string list \<Rightarrow> string option" where
  "find_dotenv files candidates = Option.bind (find (\<lambda>c. files c \<noteq> None) candidates) files"

definition dotenv_run :: "string option \<Rightarrow> string list \<Rightarrow> string option \<Rightarrow> string list flt" where
  "dotenv_run text terms dflt =
     (let env = (case text of None \<Rightarrow> [] | Some t \<Rightarrow> load_dotenv t) in
      mapR (\<lambda>key. case map_of env key of
          Some v \<Rightarrow> Inr v
        | None \<Rightarrow> (case dflt of Some d \<Rightarrow> Inr d | None \<Rightarrow> Inl (Key_Error key))) terms)"

section \<open>Known hosts\<close>

definition alias_line :: "string \<Rightarrow> bool \<Rightarrow> string \<Rightarrow> string" where
  "alias_line alias replace raw =
     (let line = rstrip_by (\<lambda>c. c = CHR 0x0A) raw; stripped = lstrip line in
      if stripped = [] \<or> prefix ''#'' stripped then line
      else
        (let (h1, s1, r1) = partition_char (CHR '' '') line; (h2, s2, r2) = partition_char (CHR 0x09) line in
         if s1 then (if replace then alias else alias @ '','' @ h1) @ '' '' @ r1
         else if s2 then (if replace then alias else alias @ '','' @ h2) @ [CHR 0x09] @ r2
         else line))"

definition keyscan_alias_lines :: "py \<Rightarrow> py \<Rightarrow> bool \<Rightarrow> string list flt" where
  "keyscan_alias_lines lines alias replace =
     (if lines = PNone then Inr []
      else bindR (case lines of PStr s \<Rightarrow> Inr (map PStr (splitlines s)) | _ \<Rightarrow> items_of lines) (\<lambda>ls.
        case alias of
          PStr a \<Rightarrow>
            if a = [] then Inl Value_Error
            else mapR (\<lambda>l. case l of PStr s \<Rightarrow> Inr (alias_line a replace s) | _ \<Rightarrow> Inl Attribute_Error) ls
        | _ \<Rightarrow> Inl Value_Error))"

definition keyscan_alias :: "py \<Rightarrow> py \<Rightarrow> bool \<Rightarrow> string flt" where
  "keyscan_alias lines alias replace =
     bindR (keyscan_alias_lines lines alias replace) (\<lambda>ls. Inr (join nl ls @ nl))"

section \<open>A line that was appended is read back\<close>

lemma splitlines_acc_nl: "splitlines_acc acc (s @ CHR 0x0A # t) = splitlines_acc acc (s @ [CHR 0x0A]) @ splitlines_acc [] t"
proof (induction acc s rule: splitlines_acc.induct)
  case (2 acc c s)
  then show ?case by (cases s) (auto simp: line_end_def)
qed (simp add: line_end_def)

lemma splitlines_append_line:
  assumes "\<forall>c \<in> set l. \<not> line_end c"
  shows "splitlines (s @ nl @ l @ nl) = splitlines (s @ nl) @ [l]"
proof -
  have "splitlines_acc acc (l @ [CHR 0x0A]) = [rev acc @ l]" if "\<forall>c \<in> set l. \<not> line_end c" for acc l
    using that by (induction l arbitrary: acc) (auto simp: line_end_def)
  then show ?thesis using assms splitlines_acc_nl [of "[]" s "l @ [CHR 0x0A]"] by (simp add: splitlines_def nl_def)
qed

definition key_ok :: "string \<Rightarrow> bool" where
  "key_ok k = (k \<noteq> [] \<and> key_start (hd k) \<and> list_all key_char k)"

lemma key_char_plain: "key_char c \<Longrightarrow> \<not> blank_tab c \<and> \<not> line_end c \<and> c \<noteq> CHR ''=''"
  by (auto simp: key_char_def blank_tab_def line_end_def is_alnum_def is_alpha_def is_upper_def is_lower_def is_digit_def Let_def)

lemma key_and_value_line:
  assumes "key_ok k" and "r = [] \<or> \<not> blank_tab (hd r)"
  shows "key_and_value (k @ ''='' @ r) = Some (k, r)"
proof -
  have "\<not> key_char (CHR ''='')" "\<not> blank_tab (CHR ''='')" by (simp_all add: key_char_def blank_tab_def is_alnum_def is_alpha_def is_upper_def is_lower_def is_digit_def)
  then have "takeWhile key_char (k @ ''='' @ r) = k" "dropWhile key_char (k @ ''='' @ r) = ''='' @ r"
    using assms(1) by (auto simp: key_ok_def list_all_iff takeWhile_append2 dropWhile_append2)
  moreover have "dropWhile blank_tab r = r" using assms(2) by (cases r) auto
  ultimately show ?thesis
    using assms(1) \<open>\<not> blank_tab (CHR ''='')\<close> by (simp add: key_and_value_def Let_def key_ok_def)
qed

lemma env_line_key:
  assumes "key_ok k" and "r = [] \<or> \<not> blank_tab (hd r)"
  shows "env_line (k @ ''='' @ r) = Some (k, r)"
proof -
  have hd: "\<not> blank_tab (hd (k @ ''='' @ r))"
    using assms(1) key_char_plain by (cases k) (auto simp: key_ok_def)
  then have dw: "dropWhile blank_tab (k @ ''='' @ r) = k @ ''='' @ r"
    by (cases "k @ ''='' @ r") auto
  have "\<not> (prefix ''export'' (k @ ''='' @ r) \<and> drop 6 (k @ ''='' @ r) \<noteq> [] \<and> blank_tab (hd (drop 6 (k @ ''='' @ r))))"
  proof
    assume p: "prefix ''export'' (k @ ''='' @ r) \<and> drop 6 (k @ ''='' @ r) \<noteq> [] \<and> blank_tab (hd (drop 6 (k @ ''='' @ r)))"
    show False
    proof (cases "6 < length k")
      case True
      then have "hd (drop 6 (k @ ''='' @ r)) \<in> set k" by (simp add: hd_append hd_drop_conv_nth)
      then show False using p assms(1) key_char_plain by (auto simp: key_ok_def list_all_iff)
    next
      case False
      have "\<not> length k < 6"
      proof
        assume l: "length k < 6"
        from p obtain zs where "k @ ''='' @ r = ''export'' @ zs" by (auto simp: prefix_def)
        then have "take 6 (k @ ''='' @ r) = ''export''" by simp
        moreover have "CHR ''='' \<in> set (take 6 (k @ ''='' @ r))" using l by (cases "6 - length k") auto
        ultimately show False by simp
      qed
      with False have "length k = 6" by simp
      then show False using p by (simp add: blank_tab_def)
    qed
  qed
  then show ?thesis
    unfolding env_line_def Let_def dw key_and_value_line [OF assms] by (simp only: if_False option.case)
qed

lemma env_value_quoted: "\<forall>c \<in> set v. \<not> line_end c \<Longrightarrow> env_value ([sq] @ v @ [sq]) = v"
proof -
  have "\<not> py_isspace sq" by (simp add: sq_def py_isspace_def)
  then have "strip ([sq] @ v @ [sq]) = [sq] @ v @ [sq]"
    by (simp add: strip_def strip_by_def rstrip_by_def)
  then show ?thesis by (simp add: env_value_def Let_def)
qed

section \<open>Properties\<close>

text \<open>An application's setting is read back. After a line that sets a key to a single-quoted value is
  appended to an environment file, whatever the file held before, the filter gives that value, and
  the default when the value is empty.\<close>

theorem dotenv_appended_value:
  assumes "key_ok key" and "\<forall>c \<in> set v. \<not> line_end c"
  shows "dotenv_value (text @ nl @ key @ ''='' @ [sq] @ v @ [sq] @ nl) key dflt = (if v = [] then dflt else v)"
proof -
  let ?l = "key @ ''='' @ ([sq] @ v @ [sq])"
  have "\<forall>c \<in> set ?l. \<not> line_end c"
    using assms key_char_plain by (auto simp: key_ok_def list_all_iff line_end_def sq_def)
  then have "splitlines (text @ nl @ ?l @ nl) = splitlines (text @ nl) @ [?l]" by (rule splitlines_append_line)
  moreover have "env_line ?l = Some (key, [sq] @ v @ [sq])"
    by (rule env_line_key [OF assms(1)]) (simp add: sq_def blank_tab_def)
  moreover have "env_value ([sq] @ v @ [sq]) = v" using env_value_quoted [OF assms(2)] .
  ultimately show ?thesis by (simp add: dotenv_value_def take_line_def Let_def)
qed

theorem dotenv_appended_value_witness:
  "dotenv_value (''A=1'' @ nl @ ''A'' @ ''='' @ [sq] @ ''x y #z'' @ [sq] @ nl) ''A'' ''d'' = ''x y #z''"
proof -
  have "key_ok ''A''" "\<forall>c \<in> set ''x y #z''. \<not> line_end c" by code_simp+
  from dotenv_appended_value [OF this, of "''A=1''" "''d''"] show ?thesis by simp
qed

lemma foldl_add_zone:
  "distinct out \<Longrightarrow> [] \<notin> set out \<Longrightarrow> distinct (foldl add_zone out es) \<and> [] \<notin> set (foldl add_zone out es)
    \<and> set (foldl add_zone out es) = set out \<union> {n. n \<noteq> [] \<and> (\<exists>e. PDict e \<in> set es \<and> n = strip_or (dget e ''zone''))}"
proof (induction es arbitrary: out)
  case (Cons x es)
  have "distinct (add_zone out x)" "[] \<notin> set (add_zone out x)"
    "set (add_zone out x) = set out \<union> {n. n \<noteq> [] \<and> (\<exists>e. PDict e = x \<and> n = strip_or (dget e ''zone''))}"
    using Cons.prems by (auto simp: add_zone_def Let_def split: py.splits)
  with Cons.IH [of "add_zone out x"] show ?case by auto
qed simp

text \<open>The secondary domains are routed only from a projection that can be trusted. Every name given comes
  from an entry after the first of a document with the expected schema whose stamp can be read and is
  at most the allowed age before now; the names are distinct and not blank, and every such entry's
  name is given.\<close>

theorem served_zones_trusted:
  assumes "catena_served_zones loads fromiso (PStr raw) schema now max_age_hours = zs" and "zs \<noteq> []"
  shows "\<exists>doc primary others. loads raw = Some (PDict doc) \<and> py_eq (dget doc ''schema'') schema
    \<and> dget doc ''zones'' = PList (primary # others)
    \<and> (0 < max_age_hours \<longrightarrow> (\<exists>generated. parse_iso fromiso (dget doc ''generated_at'') = Some generated
        \<and> (\<forall>reference. parse_iso fromiso now = Some reference \<longrightarrow> reference - generated \<le> max_age_hours * 3600)))
    \<and> distinct zs \<and> [] \<notin> set zs
    \<and> set zs = {n. n \<noteq> [] \<and> (\<exists>e. PDict e \<in> set others \<and> n = strip_or (dget e ''zone''))}"
proof -
  obtain doc primary others where d: "loads raw = Some (PDict doc)" "py_eq (dget doc ''schema'') schema"
    "dget doc ''zones'' = PList (primary # others)" "zones_fresh fromiso doc now max_age_hours" "zs = foldl add_zone [] others"
    using assms by (auto simp: catena_served_zones_def split: if_splits option.splits py.splits list.splits)
  have "0 < max_age_hours \<longrightarrow> (\<exists>generated. parse_iso fromiso (dget doc ''generated_at'') = Some generated
        \<and> (\<forall>reference. parse_iso fromiso now = Some reference \<longrightarrow> reference - generated \<le> max_age_hours * 3600))"
    using d(4) by (auto simp: zones_fresh_def split: option.splits)
  then show ?thesis using d foldl_add_zone [of "[]" others] by auto
qed

definition demo_projection :: "string \<Rightarrow> py option" where
  "demo_projection s = Some (PDict [(''schema'', PInt 1), (''generated_at'', PStr ''t''),
     (''zones'', PList [PDict [(''zone'', PStr ''a.com'')], PDict [(''zone'', PStr ''b.com'')], PDict [(''zone'', PStr ''b.com'')]])])"

theorem served_zones_trusted_witness:
  "catena_served_zones demo_projection (\<lambda>_. Some 0) (PStr ''x'') (PInt 1) (PStr ''n'') 48 = [''b.com''] \<and> distinct [''b.com'']"
proof -
  have "catena_served_zones demo_projection (\<lambda>_. Some 0) (PStr ''x'') (PInt 1) (PStr ''n'') 48 = [''b.com'']" by code_simp
  from served_zones_trusted [OF this] this show ?thesis by auto
qed

end
