(* ===== verification/Firewall.thy ===== *)
theory Firewall
  imports Ip_Address Text_Filters
begin

text \<open>
  The walk of an SSH packet that arrives over the tailnet through the host's firewall:
  \<open>parse_ruleset\<close>, \<open>_ports\<close>, \<open>rule_matches\<close> and \<open>walk_inbound\<close> of
  \<open>src/ansible/helpers/tailnet_reachability.py\<close>. A condition of a rule is decided (\<open>Some b\<close>) or not
  (\<open>None\<close>). The depth of the chains walked is the \<open>depth\<close> of the code counted down from 31.
\<close>

section \<open>Reading a ruleset\<close>

record table =
  policies :: "(string \<times> string) list"
  rules :: "(string \<times> string list) list"

type_synonym tables = "(string \<times> table) list"

definition no_table :: table where "no_table = \<lparr>policies = [], rules = []\<rparr>"

definition table_of :: "tables \<Rightarrow> string \<Rightarrow> table" where
  "table_of ts t = (case map_of ts t of None \<Rightarrow> no_table | Some tb \<Rightarrow> tb)"

definition add_rules :: "string \<Rightarrow> string list \<Rightarrow> table \<Rightarrow> table" where
  "add_rules chain ls tb = tb\<lparr>rules := AList.update chain
     ((case map_of (rules tb) chain of None \<Rightarrow> [] | Some old \<Rightarrow> old) @ ls) (rules tb)\<rparr>"

definition ruleset_line :: "string \<Rightarrow> tables \<times> string option \<Rightarrow> (tables \<times> string option) flt" where
  "ruleset_line raw st = (case st of (ts, cur) \<Rightarrow>
     let line = strip raw in
     if prefix ''*'' line then
       (let t = drop 1 line in Inr (AList.update t (table_of ts t) ts, Some t))
     else (case cur of
         None \<Rightarrow> Inr st
       | Some t \<Rightarrow>
           if line = [] \<or> prefix ''#'' line then Inr st
           else if prefix '':'' line then
             (case split_ws (drop 1 line) of
                chain # policy # _ \<Rightarrow>
                  Inr (AList.update t (add_rules chain []
                    ((table_of ts t)\<lparr>policies := AList.update chain policy (policies (table_of ts t))\<rparr>)) ts, cur)
              | _ \<Rightarrow> Inl Value_Error)
           else if prefix ''-A '' line then
             (case split_ws line of
                _ # chain # _ \<Rightarrow> Inr (AList.update t (add_rules chain [line] (table_of ts t)) ts, cur)
              | _ \<Rightarrow> Inl Index_Error)
           else Inr st))"

definition parse_ruleset :: "string \<Rightarrow> tables flt" where
  "parse_ruleset text = bindR (foldR ruleset_line (splitlines text) ([], None)) (\<lambda>st. Inr (fst st))"

section \<open>Matching a rule\<close>

definition TAILNET_IFACE :: string where "TAILNET_IFACE = ''tailscale0''"
definition SSH_PORT :: int where "SSH_PORT = 22"

definition int_or :: "string \<Rightarrow> int \<Rightarrow> int flt" where
  "int_or s n = (if s = [] then Inr n else case py_int s of None \<Rightarrow> Inl Value_Error | Some k \<Rightarrow> Inr k)"

definition port_range_of :: "string \<Rightarrow> (int \<times> int) flt" where
  "port_range_of part = (case partition_char (CHR '':'') part of (lo, _, hi) \<Rightarrow>
     bindR (int_or lo 0) (\<lambda>a. bindR (int_or (if hi \<noteq> [] then hi else lo) 65535) (\<lambda>b. Inr (a, b))))"

definition ports :: "string \<Rightarrow> (int \<times> int) list flt" where
  "ports spec = mapR port_range_of (split_char (CHR '','') spec)"

definition net_of :: "string \<Rightarrow> net flt" where
  "net_of s = (case ip_network False s of None \<Rightarrow> Inl Value_Error | Some w \<Rightarrow> Inr w)"

text \<open>The value of a condition the walk models; \<open>None\<close> for an option it does not.\<close>

definition option_value :: "addr list \<Rightarrow> string \<Rightarrow> string \<Rightarrow> bool option flt option" where
  "option_value own opt arg =
     (if opt \<in> {''-i'', ''--in-interface''} then
        Some (Inr (Some (if suffix ''+'' arg then prefix (butlast arg) TAILNET_IFACE else arg = TAILNET_IFACE)))
      else if opt \<in> {''-p'', ''--protocol''} then Some (Inr (Some (arg \<in> {''tcp'', ''6'', ''all'', ''0''})))
      else if opt \<in> {''-d'', ''--destination''} then
        Some (bindR (mapR net_of (split_char (CHR '','') arg)) (\<lambda>nets.
          Inr (Some (\<exists>a \<in> set own. \<exists>w \<in> set nets. ip_version a = net_version w \<and> ip_in a w))))
      else if opt \<in> {''--dport'', ''--destination-port'', ''--dports'', ''--destination-ports''} then
        Some (bindR (ports arg) (\<lambda>ps. Inr (Some (\<exists>(lo, hi) \<in> set ps. lo \<le> SSH_PORT \<and> SSH_PORT \<le> hi))))
      else if opt \<in> {''--ctstate'', ''--state''} then Some (Inr (Some (''NEW'' \<in> set (split_char (CHR '','') arg))))
      else if opt = ''--dst-type'' then Some (Inr (if arg = ''LOCAL'' then Some True else None))
      else None)"

definition fold_match :: "bool \<Rightarrow> bool option \<Rightarrow> bool option \<Rightarrow> bool option" where
  "fold_match negate value result =
     (let v = map_option (\<lambda>b. b \<noteq> negate) value in
      if v = Some False then Some False
      else if v = None \<and> result = Some True then None else result)"

definition option_word :: "string \<Rightarrow> bool" where
  "option_word t = (prefix ''-'' t \<or> t = ''!'')"

function rule_scan :: "addr list \<Rightarrow> bool option \<Rightarrow> bool \<Rightarrow> string list \<Rightarrow> bool option flt" where
  "rule_scan own result negate [] = Inr result"
| "rule_scan own result negate (opt # rest) =
     (if opt \<in> {''-j'', ''-g''} then Inr result
      else if opt = ''!'' then rule_scan own result True rest
      else if opt \<in> {''-A'', ''-m'', ''--comment''} then rule_scan own result negate (drop 1 rest)
      else (case option_value own opt (case rest of [] \<Rightarrow> [] | arg # _ \<Rightarrow> arg) of
          Some value \<Rightarrow> bindR value (\<lambda>v. rule_scan own (fold_match negate v result) False (drop 1 rest))
        | None \<Rightarrow> rule_scan own (fold_match negate None result) False (dropWhile (\<lambda>t. \<not> option_word t) rest)))"
  by pat_completeness auto
termination
  by (relation "measure (\<lambda>(own, result, negate, ts). length ts)") (auto simp: length_dropWhile_le le_imp_less_Suc)

definition rule_matches :: "string list \<Rightarrow> addr list \<Rightarrow> bool option flt" where
  "rule_matches tokens own = rule_scan own (Some True) False tokens"

section \<open>The walk\<close>

datatype verdict = Accept | Drop | Return

definition CONTINUE :: "string list" where
  "CONTINUE = [''LOG'', ''NFLOG'', ''MARK'', ''CONNMARK'', ''CT'', ''TRACE'', ''AUDIT'', ''DNAT'',
     ''SNAT'', ''MASQUERADE'', ''REDIRECT'']"

definition INBOUND :: "(string \<times> string) list" where
  "INBOUND = [(''raw'', ''PREROUTING''), (''mangle'', ''PREROUTING''), (''nat'', ''PREROUTING''),
     (''mangle'', ''INPUT''), (''filter'', ''INPUT'')]"

text \<open>The jump of a rule: whether it is a \<open>goto\<close>, and its target. \<open>None\<close> when it has no target.\<close>

definition rule_jump :: "string list \<Rightarrow> (bool \<times> string) option flt" where
  "rule_jump tokens =
     (let goto = ''-g'' \<in> set tokens; flag = (if goto then ''-g'' else ''-j'') in
      if flag \<notin> set tokens then Inr None
      else (case dropWhile (\<lambda>t. t \<noteq> flag) tokens of
          _ # target # _ \<Rightarrow> Inr (Some (goto, target))
        | _ \<Rightarrow> Inl Index_Error))"

record rule =
  goto :: bool
  target :: string
  matching :: "bool option"

definition read_rule :: "addr list \<Rightarrow> string \<Rightarrow> rule option flt" where
  "read_rule own line =
     bindR (shlex_split line) (\<lambda>tokens.
     bindR (rule_jump tokens) (\<lambda>j. case j of
         None \<Rightarrow> Inr None
       | Some (g, t) \<Rightarrow> bindR (rule_matches tokens own) (\<lambda>m.
           Inr (Some \<lparr>goto = g, target = t, matching = m\<rparr>))))"

definition chain_rules :: "table \<Rightarrow> string \<Rightarrow> string list" where
  "chain_rules tb name = (case map_of (rules tb) name of None \<Rightarrow> [] | Some ls \<Rightarrow> ls)"

definition is_jump :: "table \<Rightarrow> rule \<Rightarrow> bool" where
  "is_jump tb r = (target r \<notin> set CONTINUE \<and> target r \<in> fst ` set (rules tb))"

fun walk_chain :: "string \<Rightarrow> table \<Rightarrow> addr list \<Rightarrow> nat \<Rightarrow> string \<Rightarrow> string list \<Rightarrow> string list \<Rightarrow> (verdict \<times> string list) flt" where
  "walk_chain t tb own left name [] reasons = Inr (Return, reasons)"
| "walk_chain t tb own left name (line # ls) reasons =
     bindR (read_rule own line) (\<lambda>r. case r of
         None \<Rightarrow> walk_chain t tb own left name ls reasons
       | Some r \<Rightarrow>
           if matching r = Some False then walk_chain t tb own left name ls reasons
           else if target r = ''DROP'' \<or> target r = ''REJECT'' then
             (let reasons = reasons @ [t @ '': '' @ line] in
              if matching r = Some True then Inr (Drop, reasons) else walk_chain t tb own left name ls reasons)
           else if target r = ''ACCEPT'' \<or> target r = ''RETURN'' then
             (if matching r = Some True then Inr (if target r = ''ACCEPT'' then Accept else Return, reasons)
              else walk_chain t tb own left name ls reasons)
           else if is_jump tb r then
             (case left of
                0 \<Rightarrow> Inr (Drop, reasons @ [t @ '': '' @ name @ '' jumps deeper than 30 chains''])
              | Suc n \<Rightarrow> bindR (walk_chain t tb own n (target r) (chain_rules tb (target r)) reasons) (\<lambda>(v, reasons).
                  if matching r = Some True \<and> (v = Accept \<or> v = Drop \<or> goto r) then Inr (v, reasons)
                  else walk_chain t tb own left name ls reasons))
           else walk_chain t tb own left name ls reasons)"

definition MAX_DEPTH :: nat where "MAX_DEPTH = 31"

fun walk_hooks :: "tables \<Rightarrow> addr list \<Rightarrow> (string \<times> string) list \<Rightarrow> string list \<Rightarrow> string list flt" where
  "walk_hooks ts own [] reasons = Inr reasons"
| "walk_hooks ts own ((t, name) # hooks) reasons =
     (if name \<notin> fst ` set (rules (table_of ts t)) then walk_hooks ts own hooks reasons
      else bindR (walk_chain t (table_of ts t) own MAX_DEPTH name (chain_rules (table_of ts t) name) reasons) (\<lambda>(v, reasons).
        if v = Drop then Inr reasons
        else if v = Return \<and> map_of (policies (table_of ts t)) name = Some ''DROP'' then
          Inr (reasons @ [t @ '': nothing in '' @ name @ '' accepts it and its policy is DROP''])
        else if v = Accept \<and> t = ''filter'' then Inr reasons
        else walk_hooks ts own hooks reasons))"

definition walk_inbound :: "tables \<Rightarrow> addr list \<Rightarrow> string list flt" where
  "walk_inbound ts own = bindR (walk_hooks ts own INBOUND []) (\<lambda>rs. Inr (first_seen rs))"

end
