(* ===== verification/Firewall_Sound.thy ===== *)
theory Firewall_Sound
  imports Firewall
begin

text \<open>
  What an empty answer of \<open>walk_inbound\<close> means. \<open>netfilter\<close> is the traversal the kernel makes for one
  packet, written from the documented behaviour of netfilter and its targets, without the walk, its
  hooks or its set of targets. \<open>holds\<close> says which rules match the packet. The walk cannot decide every
  condition; a packet is any \<open>holds\<close> that agrees with what it decides.
\<close>

section \<open>The kernel's traversal\<close>

text \<open>What becomes of a packet in a chain: let in, refused, back to the calling chain, or taken out of
  the traversal by a target that sends it somewhere else.\<close>

datatype fate = Let_in | Refused | Left | Diverted

definition jump_of :: "string \<Rightarrow> (bool \<times> string) option" where
  "jump_of line = (case bindR (shlex_split line) rule_jump of Inr (Some j) \<Rightarrow> Some j | _ \<Rightarrow> None)"

definition standard_fate :: "string \<Rightarrow> fate option" where
  "standard_fate t =
     (if t = ''ACCEPT'' then Some Let_in
      else if t = ''DROP'' \<or> t = ''REJECT'' then Some Refused
      else if t = ''RETURN'' then Some Left else None)"

text \<open>The targets after which the packet goes on to the next rule (iptables-extensions(8)), and the names
  of the others: they hand the packet to a program, answer it or rewrite where it goes.\<close>

definition PASSING :: "string list" where
  "PASSING = [''AUDIT'', ''CHECKSUM'', ''CLASSIFY'', ''CONNMARK'', ''CONNSECMARK'', ''CT'', ''DSCP'', ''ECN'', ''HL'',
     ''HMARK'', ''IDLETIMER'', ''LED'', ''LOG'', ''MARK'', ''NFLOG'', ''NOTRACK'', ''RATEEST'', ''SECMARK'', ''SET'',
     ''TCPMSS'', ''TCPOPTSTRIP'', ''TEE'', ''TOS'', ''TRACE'', ''TTL'', ''ULOG'']"

definition DIVERTING :: "string list" where
  "DIVERTING = [''DNAT'', ''MASQUERADE'', ''MIRROR'', ''NETMAP'', ''NFQUEUE'', ''QUEUE'', ''REDIRECT'', ''SNAT'',
     ''SYNPROXY'', ''TARPIT'', ''TPROXY'']"

definition chains :: "table \<Rightarrow> string set" where
  "chains tb = fst ` set (rules tb)"

text \<open>iptables refuses a chain with the name of a target.\<close>

definition named_apart :: "table \<Rightarrow> bool" where
  "named_apart tb = (\<forall>c \<in> chains tb. c \<notin> set PASSING \<and> c \<notin> set DIVERTING)"

definition calls_chain :: "table \<Rightarrow> string \<Rightarrow> bool" where
  "calls_chain tb t = (standard_fate t = None \<and> t \<in> chains tb)"

definition extension :: "table \<Rightarrow> string \<Rightarrow> bool" where
  "extension tb t = (standard_fate t = None \<and> t \<notin> chains tb)"

text \<open>One chain. A jump (\<open>-j\<close>) that comes back goes on after it, a goto (\<open>-g\<close>) that comes back leaves this
  chain too.\<close>

inductive netfilter :: "table \<Rightarrow> (string \<Rightarrow> bool) \<Rightarrow> string list \<Rightarrow> fate \<Rightarrow> bool" for tb holds where
  nf_end: "netfilter tb holds [] Left"
| nf_skip: "\<lbrakk>\<not> holds line \<or> jump_of line = None; netfilter tb holds ls v\<rbrakk> \<Longrightarrow> netfilter tb holds (line # ls) v"
| nf_final: "\<lbrakk>holds line; jump_of line = Some (g, t); standard_fate t = Some v\<rbrakk> \<Longrightarrow> netfilter tb holds (line # ls) v"
| nf_pass: "\<lbrakk>holds line; jump_of line = Some (g, t); extension tb t; t \<in> set PASSING; netfilter tb holds ls v\<rbrakk> \<Longrightarrow>
      netfilter tb holds (line # ls) v"
| nf_divert: "\<lbrakk>holds line; jump_of line = Some (g, t); extension tb t; t \<notin> set PASSING\<rbrakk> \<Longrightarrow>
      netfilter tb holds (line # ls) Diverted"
| nf_call: "\<lbrakk>holds line; jump_of line = Some (g, t); calls_chain tb t; netfilter tb holds (chain_rules tb t) v;
      g \<or> v \<noteq> Left\<rbrakk> \<Longrightarrow> netfilter tb holds (line # ls) v"
| nf_return: "\<lbrakk>holds line; jump_of line = Some (False, t); calls_chain tb t;
      netfilter tb holds (chain_rules tb t) Left; netfilter tb holds ls v\<rbrakk> \<Longrightarrow> netfilter tb holds (line # ls) v"

inductive_cases netfilter_ConsE: "netfilter tb holds (line # ls) v"

inductive_simps netfilter_Nil [simp]: "netfilter tb holds [] v"

text \<open>A rule of the table that the packet matches and that takes it out of the traversal.\<close>

definition diverts :: "table \<Rightarrow> string \<Rightarrow> bool" where
  "diverts tb line = (case jump_of line of None \<Rightarrow> False | Some (g, t) \<Rightarrow> extension tb t \<and> t \<notin> set PASSING)"

definition diverted_by :: "table \<Rightarrow> (string \<Rightarrow> bool) \<Rightarrow> string \<Rightarrow> bool" where
  "diverted_by tb holds line = (holds line \<and> diverts tb line \<and> (\<exists>c. line \<in> set (chain_rules tb c)))"

lemma netfilter_diverted:
  "netfilter tb holds ls v \<Longrightarrow> v = Diverted \<Longrightarrow> (\<exists>c. set ls \<subseteq> set (chain_rules tb c)) \<Longrightarrow> \<exists>line. diverted_by tb holds line"
proof (induction rule: netfilter.induct)
  case (nf_divert line g t ls)
  then show ?case by (auto simp: diverted_by_def diverts_def)
next
  case (nf_final line g t v ls)
  then show ?case by (auto simp: standard_fate_def split: if_splits)
qed auto

section \<open>Where a packet to this host goes\<close>

text \<open>The kernel's hooks for a packet addressed to this host, in order. A hook without a chain in the
  ruleset has no rules; the policy of a chain decides what comes to its end.\<close>

definition KERNEL_HOOKS :: "(string \<times> string) list" where
  "KERNEL_HOOKS = [(''raw'', ''PREROUTING''), (''mangle'', ''PREROUTING''), (''nat'', ''PREROUTING''),
     (''mangle'', ''INPUT''), (''filter'', ''INPUT''), (''security'', ''INPUT''), (''nat'', ''INPUT'')]"

definition hook_fate :: "tables \<Rightarrow> (string \<Rightarrow> bool) \<Rightarrow> string \<Rightarrow> string \<Rightarrow> fate \<Rightarrow> bool" where
  "hook_fate ts holds t name v = (\<exists>u. netfilter (table_of ts t) holds (chain_rules (table_of ts t) name) u
     \<and> v = (if u \<noteq> Left then u
           else if map_of (policies (table_of ts t)) name = Some ''DROP'' then Refused else Let_in))"

text \<open>The hook has a fate for the packet, and lets it in; or a rule the packet matches diverts it.\<close>

definition hook_lets_in :: "tables \<Rightarrow> (string \<Rightarrow> bool) \<Rightarrow> string \<Rightarrow> string \<Rightarrow> bool" where
  "hook_lets_in ts holds t name = (name \<in> chains (table_of ts t) \<longrightarrow>
     (\<exists>v. hook_fate ts holds t name v)
     \<and> (\<forall>v. hook_fate ts holds t name v \<longrightarrow> v = Let_in \<or> (v = Diverted \<and> (\<exists>line. diverted_by (table_of ts t) holds line))))"

text \<open>The two hooks that the walk does not look at: without rules, and without a \<open>DROP\<close> policy.\<close>

definition later_hooks_open :: "tables \<Rightarrow> bool" where
  "later_hooks_open ts = list_all (\<lambda>t. chain_rules (table_of ts t) ''INPUT'' = []
     \<and> map_of (policies (table_of ts t)) ''INPUT'' \<noteq> Some ''DROP'') [''security'', ''nat'']"

section \<open>Packets that agree with the walk\<close>

definition agrees :: "addr list \<Rightarrow> (string \<Rightarrow> bool) \<Rightarrow> bool" where
  "agrees own holds = (\<forall>line r b. read_rule own line = Inr (Some r) \<and> matching r = Some b \<longrightarrow> holds line = b)"

text \<open>A rule that the packet matches leaves its chain early, by \<open>RETURN\<close> or by a goto, only on a condition the
  walk decides.\<close>

definition decided_exit :: "addr list \<Rightarrow> (string \<Rightarrow> bool) \<Rightarrow> string \<Rightarrow> bool" where
  "decided_exit own holds line = (case read_rule own line of
      Inr (Some r) \<Rightarrow> holds line \<longrightarrow> matching r \<noteq> None \<or> (target r \<noteq> ''RETURN'' \<and> \<not> goto r)
    | _ \<Rightarrow> True)"

definition decided_exits :: "addr list \<Rightarrow> (string \<Rightarrow> bool) \<Rightarrow> table \<Rightarrow> bool" where
  "decided_exits own holds tb = list_all (\<lambda>(c, ls). list_all (decided_exit own holds) ls) (rules tb)"

lemma read_rule_jump:
  "read_rule own line = Inr (Some r) \<Longrightarrow> jump_of line = Some (goto r, target r)"
  "read_rule own line = Inr None \<Longrightarrow> jump_of line = None"
  by (auto simp: read_rule_def jump_of_def bindR_Inr_iff split: option.splits)

lemma agrees_holds: "agrees own holds \<Longrightarrow> read_rule own line = Inr (Some r) \<Longrightarrow> matching r = Some b \<Longrightarrow> holds line = b"
  by (auto simp: agrees_def)

lemma decided_chain: "decided_exits own holds tb \<Longrightarrow> list_all (decided_exit own holds) (chain_rules tb name)"
  by (cases "map_of (rules tb) name")
    (auto simp: decided_exits_def chain_rules_def list_all_iff dest!: map_of_SomeD)

section \<open>The steps of the walk\<close>

lemma CONTINUE_extension: "t \<in> set CONTINUE \<Longrightarrow> t \<in> set PASSING \<or> t \<in> set DIVERTING"
proof -
  have "list_all (\<lambda>t. t \<in> set PASSING \<or> t \<in> set DIVERTING) CONTINUE" by code_simp
  then show "t \<in> set CONTINUE \<Longrightarrow> t \<in> set PASSING \<or> t \<in> set DIVERTING" by (auto simp only: list_all_iff)
qed

lemma is_jump_calls:
  assumes "named_apart tb" and "\<not> (target r = ''DROP'' \<or> target r = ''REJECT'')" and "\<not> (target r = ''ACCEPT'' \<or> target r = ''RETURN'')"
  shows "is_jump tb r = calls_chain tb (target r)" and "standard_fate (target r) = None"
proof -
  show st: "standard_fate (target r) = None" using assms(2,3) by (simp add: standard_fate_def)
  have "target r \<in> chains tb \<Longrightarrow> target r \<notin> set CONTINUE" using assms(1) CONTINUE_extension unfolding named_apart_def by blast
  then show "is_jump tb r = calls_chain tb (target r)" using st by (auto simp: is_jump_def calls_chain_def chains_def)
qed

fun fate_of :: "verdict \<Rightarrow> fate" where
  "fate_of Accept = Let_in"
| "fate_of Drop = Refused"
| "fate_of Return = Left"

text \<open>Rules that the walk passes over without a word.\<close>

definition passed_over :: "addr list \<Rightarrow> table \<Rightarrow> string \<Rightarrow> bool" where
  "passed_over own tb line = (case read_rule own line of
      Inr None \<Rightarrow> True
    | Inr (Some r) \<Rightarrow> matching r = Some False
        \<or> (matching r = None \<and> (standard_fate (target r) = Some Let_in \<or> standard_fate (target r) = Some Left))
        \<or> extension tb (target r)
    | _ \<Rightarrow> False)"

lemma walk_chain_ConsE:
  assumes "named_apart tb" and "walk_chain t tb own left name (line # ls) rs = Inr (v, rs')"
  obtains
    (pass) "passed_over own tb line" "walk_chain t tb own left name ls rs = Inr (v, rs')"
  | (may_drop) x where "walk_chain t tb own left name ls (rs @ [x]) = Inr (v, rs')"
  | (drops) x where "v = Drop" "rs' = rs @ [x]"
  | (final) r where "read_rule own line = Inr (Some r)" "matching r = Some True" "standard_fate (target r) = Some (fate_of v)"
      "v \<noteq> Drop" "rs' = rs"
  | (call) r n w rs1 where "read_rule own line = Inr (Some r)" "calls_chain tb (target r)" "left = Suc n"
      "walk_chain t tb own n (target r) (chain_rules tb (target r)) rs = Inr (w, rs1)"
      "matching r = Some True" "w \<noteq> Return \<or> goto r" "v = w" "rs' = rs1"
  | (resume) r n w rs1 where "read_rule own line = Inr (Some r)" "calls_chain tb (target r)" "left = Suc n"
      "walk_chain t tb own n (target r) (chain_rules tb (target r)) rs = Inr (w, rs1)"
      "matching r = None \<or> (w = Return \<and> \<not> goto r)" "walk_chain t tb own left name ls rs1 = Inr (v, rs')"
proof -
  note apart = assms(1)
  obtain ro where ro: "read_rule own line = Inr ro" using assms by (auto simp: bindR_Inr_iff)
  show ?thesis
  proof (cases ro)
    case None
    then show ?thesis using pass assms ro by (simp add: passed_over_def)
  next
    case (Some r)
    have step: "read_rule own line = Inr (Some r)" using ro Some by simp
    consider (off) "matching r = Some False"
      | (drop) "matching r \<noteq> Some False" "target r = ''DROP'' \<or> target r = ''REJECT''"
      | (fin) "matching r \<noteq> Some False" "target r = ''ACCEPT'' \<or> target r = ''RETURN''"
      | (jump) "matching r \<noteq> Some False" "\<not> (target r = ''DROP'' \<or> target r = ''REJECT'')"
          "\<not> (target r = ''ACCEPT'' \<or> target r = ''RETURN'')" "is_jump tb r"
      | (other) "matching r \<noteq> Some False" "\<not> (target r = ''DROP'' \<or> target r = ''REJECT'')"
          "\<not> (target r = ''ACCEPT'' \<or> target r = ''RETURN'')" "\<not> is_jump tb r"
      by blast
    then show ?thesis
    proof cases
      case off
      then show ?thesis using pass assms step by (simp add: passed_over_def)
    next
      case drop
      then show ?thesis using may_drop drops assms step by (auto simp: Let_def split: if_splits)
    next
      case fin
      then show ?thesis
        using pass final [OF step] assms step
        by (cases "matching r") (auto simp: passed_over_def standard_fate_def)
    next
      case jump
      show ?thesis
      proof (cases left)
        case 0
        then show ?thesis
          using drops [of "t @ '': '' @ name @ '' jumps deeper than 30 chains''"] assms step jump by auto
      next
        case (Suc n)
        from jump Suc obtain w rs1 where
          sub: "walk_chain t tb own n (target r) (chain_rules tb (target r)) rs = Inr (w, rs1)"
        and cont: "(if matching r = Some True \<and> (w = Accept \<or> w = Drop \<or> goto r) then Inr (w, rs1)
             else walk_chain t tb own left name ls rs1) = Inr (v, rs')"
        using assms step by (auto simp: bindR_Inr_iff)
        moreover have "calls_chain tb (target r)" using jump is_jump_calls [OF apart] by blast
        moreover have "matching r = None \<or> matching r = Some True" using jump(1) by (cases "matching r") auto
        ultimately show ?thesis using Suc call [OF step] resume [OF step] by (cases w) (auto split: if_splits)
      qed
    next
      case other
      then have "extension tb (target r)" using is_jump_calls [OF apart, of r] by (simp add: calls_chain_def extension_def)
      then show ?thesis using other pass assms step by (simp add: passed_over_def)
    qed
  qed
qed

text \<open>Induction over the walk: the rest of the chain, and any chain one level deeper.\<close>

lemma walk_induct [case_names End Step]:
  assumes "\<And>left. P left []"
    and "\<And>left line ls. P left ls \<Longrightarrow> (\<And>n ls'. left = Suc n \<Longrightarrow> P n ls') \<Longrightarrow> P left (line # ls)"
  shows "P left ls"
proof (induction left arbitrary: ls)
  case 0
  then show ?case by (induction ls) (auto intro: assms)
next
  case (Suc left)
  then show ?case by (induction ls) (auto intro: assms)
qed

lemma walk_chain_reasons:
  assumes "named_apart tb"
  shows "walk_chain t tb own left name ls rs = Inr (v, rs') \<Longrightarrow> prefix rs rs' \<and> (v = Drop \<longrightarrow> rs' \<noteq> rs)"
proof (induction left ls arbitrary: name rs v rs' rule: walk_induct)
  case (Step left line ls)
  from assms Step.prems show ?case
  proof (cases rule: walk_chain_ConsE)
    case (may_drop x)
    then have "prefix (rs @ [x]) rs'" using Step.IH(1) by blast
    then show ?thesis by (auto simp: prefix_def)
  next
    case (resume r n w rs1)
    then show ?thesis using Step.IH(1) [OF resume(6)] Step.IH(2) [OF resume(3,4)] prefix_order.antisym by auto
  qed (use Step.IH in auto)
qed simp

lemma walk_chain_silent: "named_apart tb \<Longrightarrow> walk_chain t tb own left name ls rs = Inr (v, rs) \<Longrightarrow> v \<noteq> Drop"
  using walk_chain_reasons by blast

section \<open>A silent walk accepts\<close>

text \<open>The fates the kernel may reach where the walk, silent, reached \<open>w\<close>.\<close>

definition covers :: "verdict \<Rightarrow> fate \<Rightarrow> bool" where
  "covers w v = (v \<noteq> Refused \<and> (w = Accept \<longrightarrow> v \<noteq> Left))"

definition kernel_covered :: "table \<Rightarrow> (string \<Rightarrow> bool) \<Rightarrow> string list \<Rightarrow> verdict \<Rightarrow> bool" where
  "kernel_covered tb holds ls w = ((\<exists>v. netfilter tb holds ls v) \<and> (\<forall>v. netfilter tb holds ls v \<longrightarrow> covers w v))"

lemma kernel_coveredI: "netfilter tb holds ls v0 \<Longrightarrow> (\<And>v. netfilter tb holds ls v \<Longrightarrow> covers w v) \<Longrightarrow> kernel_covered tb holds ls w"
  by (auto simp: kernel_covered_def)

lemma kernel_coveredE:
  assumes "kernel_covered tb holds ls w"
  obtains v where "netfilter tb holds ls v" "\<And>u. netfilter tb holds ls u \<Longrightarrow> covers w u"
  using assms by (auto simp: kernel_covered_def)

lemma targets_apart:
  "calls_chain tb t \<Longrightarrow> standard_fate t = None" "extension tb t \<Longrightarrow> standard_fate t = None"
  "calls_chain tb t \<Longrightarrow> \<not> extension tb t"
  by (auto simp: calls_chain_def extension_def)

lemma covered_skip:
  assumes "kernel_covered tb holds ls w" and "\<not> holds line \<or> jump_of line = None"
  shows "kernel_covered tb holds (line # ls) w"
proof -
  from assms(1) obtain v where v: "netfilter tb holds ls v" and all: "\<And>u. netfilter tb holds ls u \<Longrightarrow> covers w u"
    by (erule kernel_coveredE)
  show ?thesis
    using all assms(2) by (intro kernel_coveredI [OF nf_skip [of holds, OF assms(2) v]]) (auto elim!: netfilter_ConsE)
qed

lemma covered_extension:
  assumes "kernel_covered tb holds ls w" and "holds line" "jump_of line = Some (g, t)" "extension tb t"
  shows "kernel_covered tb holds (line # ls) w"
proof (cases "t \<in> set PASSING")
  case True
  from assms(1) obtain v where v: "netfilter tb holds ls v" and all: "\<And>u. netfilter tb holds ls u \<Longrightarrow> covers w u"
    by (erule kernel_coveredE)
  show ?thesis
    using all assms(2-4) True
    by (intro kernel_coveredI [OF nf_pass [of holds, OF assms(2-4) True v]]) (auto elim!: netfilter_ConsE dest: targets_apart)
next
  case False
  show ?thesis
    using assms(2-4) False
    by (intro kernel_coveredI [OF nf_divert [of holds, OF assms(2-4) False]]) (auto simp: covers_def elim!: netfilter_ConsE dest: targets_apart)
qed

lemma covered_final:
  assumes "holds line" "jump_of line = Some (g, t)" "standard_fate t = Some (fate_of v)" "v \<noteq> Drop"
  shows "kernel_covered tb holds (line # ls) v"
  using assms(4,1,2,3)
  by (cases v; intro kernel_coveredI [OF nf_final [of holds, OF assms(1-3)]])
    (auto simp: covers_def elim!: netfilter_ConsE dest: targets_apart)

lemma passed_over_step:
  assumes "passed_over own tb line" and "agrees own holds" and "decided_exit own holds line"
  shows "\<not> holds line \<or> jump_of line = None
     \<or> (\<exists>g t. jump_of line = Some (g, t) \<and> (standard_fate t = Some Let_in \<or> extension tb t))"
proof -
  from assms(1) consider "read_rule own line = Inr None" | r where "read_rule own line = Inr (Some r)"
    by (auto simp: passed_over_def split: sum.splits option.splits)
  then show ?thesis
  proof cases
    case (2 r)
    then show ?thesis
      using assms agrees_holds [OF assms(2) 2] read_rule_jump(1) [OF 2]
      by (auto simp: passed_over_def decided_exit_def standard_fate_def split: if_splits)
  qed (simp add: read_rule_jump)
qed

lemma covered_pass:
  assumes "kernel_covered tb holds ls w" and "passed_over own tb line" and "agrees own holds" and "decided_exit own holds line"
  shows "kernel_covered tb holds (line # ls) w"
proof -
  from passed_over_step [OF assms(2-4)]
  consider "\<not> holds line \<or> jump_of line = None"
    | g t where "holds line" "jump_of line = Some (g, t)" "standard_fate t = Some Let_in"
    | g t where "holds line" "jump_of line = Some (g, t)" "extension tb t"
    by metis
  then show ?thesis
  proof cases
    case 2
    then show ?thesis
      by (intro kernel_coveredI [OF nf_final [of holds, OF 2]]) (auto simp: covers_def elim!: netfilter_ConsE dest: targets_apart)
  qed (use assms(1) covered_skip covered_extension in blast)+
qed

lemma covered_call:
  assumes "holds line" "jump_of line = Some (g, t)" "calls_chain tb t"
    and "kernel_covered tb holds (chain_rules tb t) w" "g \<or> w = Accept"
  shows "kernel_covered tb holds (line # ls) w"
proof -
  from assms(4) obtain v where v: "netfilter tb holds (chain_rules tb t) v"
    and all: "\<And>u. netfilter tb holds (chain_rules tb t) u \<Longrightarrow> covers w u" by (erule kernel_coveredE)
  have "g \<or> v \<noteq> Left" using assms(5) all [OF v] by (auto simp: covers_def)
  with assms(1-3) v have "netfilter tb holds (line # ls) v" by (rule nf_call)
  then show ?thesis
  proof (rule kernel_coveredI)
    fix u
    assume "netfilter tb holds (line # ls) u"
    then show "covers w u"
      using assms(1-3,5) all [of u] all [of Left]
      by (auto elim!: netfilter_ConsE dest: targets_apart simp: covers_def)
  qed
qed

lemma covered_resume:
  assumes "jump_of line = Some (g, t)" "calls_chain tb t" "holds line \<Longrightarrow> \<not> g"
    and "kernel_covered tb holds (chain_rules tb t) w'" and "kernel_covered tb holds ls w"
  shows "kernel_covered tb holds (line # ls) w"
proof (cases "holds line")
  case False
  then show ?thesis using assms(5) covered_skip by blast
next
  case True
  then have jump: "jump_of line = Some (False, t)" using assms(1,3) by simp
  from assms(5) obtain v where v: "netfilter tb holds ls v" and all: "\<And>u. netfilter tb holds ls u \<Longrightarrow> covers w u"
    by (erule kernel_coveredE)
  from assms(4) obtain v' where v': "netfilter tb holds (chain_rules tb t) v'"
    and all': "\<And>u. netfilter tb holds (chain_rules tb t) u \<Longrightarrow> u \<noteq> Refused"
    by (rule kernel_coveredE) (auto simp: covers_def)
  have "\<exists>u. netfilter tb holds (line # ls) u"
    using nf_call [of holds, OF True jump assms(2) v'] nf_return [of holds, OF True jump assms(2) _ v] v' by metis
  then obtain u where "netfilter tb holds (line # ls) u" ..
  moreover have "covers w u" if "netfilter tb holds (line # ls) u" for u
    using that True jump assms(2)
    by (rule_tac netfilter_ConsE [OF that]) (auto dest: targets_apart all all' simp: covers_def)
  ultimately show ?thesis by (rule kernel_coveredI)
qed

lemma walk_chain_sound:
  assumes "agrees own holds" and "named_apart tb" and "decided_exits own holds tb"
  shows "walk_chain t tb own left name ls rs = Inr (w, rs) \<Longrightarrow> list_all (decided_exit own holds) ls \<Longrightarrow>
     kernel_covered tb holds ls w"
proof (induction left ls arbitrary: name rs w rule: walk_induct)
  case End
  then show ?case by (simp add: kernel_covered_def covers_def)
next
  case (Step left line ls)
  from assms(2) Step.prems(1) show ?case
  proof (cases rule: walk_chain_ConsE)
    case pass
    then show ?thesis using Step assms(1) by (auto intro: covered_pass)
  next
    case (may_drop x)
    then show ?thesis using walk_chain_reasons [OF assms(2)] by (fastforce simp: prefix_def)
  next
    case (final r)
    then show ?thesis
      using agrees_holds [OF assms(1)] read_rule_jump(1) by (blast intro: covered_final)
  next
    case (call r n v rs1)
    have "kernel_covered tb holds (chain_rules tb (target r)) w"
      using call Step.IH(2) decided_chain [OF assms(3)] by blast
    then show ?thesis
      using call agrees_holds [OF assms(1) call(1,5)] read_rule_jump(1) [OF call(1)] walk_chain_silent [OF assms(2) Step.prems(1)]
      by (intro covered_call [of holds line "goto r" "target r"]) (cases w; auto)+
  next
    case (resume r n v rs1)
    have "prefix rs rs1" "prefix rs1 rs" using walk_chain_reasons [OF assms(2)] resume(4,6) by blast+
    then have "rs1 = rs" by (rule prefix_order.antisym[symmetric])
    moreover have "holds line \<Longrightarrow> \<not> goto r" using resume(1,5) Step.prems(2) by (auto simp: decided_exit_def)
    moreover from \<open>rs1 = rs\<close> have "kernel_covered tb holds (chain_rules tb (target r)) v"
      using resume(3,4) Step.IH(2) decided_chain [OF assms(3)] by blast
    moreover from \<open>rs1 = rs\<close> have "kernel_covered tb holds ls w" using resume(6) Step.IH(1) Step.prems(2) by simp
    ultimately show ?thesis using covered_resume [OF read_rule_jump(1) [OF resume(1)] resume(2)] by blast
  qed simp
qed

section \<open>The hooks\<close>

lemma walk_hooks_reasons:
  assumes "\<And>t. named_apart (table_of ts t)"
  shows "walk_hooks ts own hooks rs = Inr rs' \<Longrightarrow> prefix rs rs'"
proof (induction hooks arbitrary: rs)
  case (Cons h hooks)
  obtain t name where h: "h = (t, name)" by (cases h)
  show ?case
  proof (cases "name \<in> fst ` set (rules (table_of ts t))")
    case True
    with Cons.prems obtain v rs1 where w: "walk_chain t (table_of ts t) own MAX_DEPTH name (chain_rules (table_of ts t) name) rs = Inr (v, rs1)"
      and cont: "(if v = Drop then Inr rs1
        else if v = Return \<and> map_of (policies (table_of ts t)) name = Some ''DROP'' then
          Inr (rs1 @ [t @ '': nothing in '' @ name @ '' accepts it and its policy is DROP''])
        else if v = Accept \<and> t = ''filter'' then Inr rs1
        else walk_hooks ts own hooks rs1) = Inr rs'"
      by (auto simp: h bindR_Inr_iff)
    have "prefix rs1 rs'" using cont Cons.IH by (auto simp: prefix_def split: if_splits)
    then show ?thesis using walk_chain_reasons [OF assms w] prefix_order.trans by blast
  qed (use Cons h in simp)
qed simp

lemma covered_lets_in:
  assumes "kernel_covered (table_of ts t) holds (chain_rules (table_of ts t) name) w"
    and "w = Return \<Longrightarrow> map_of (policies (table_of ts t)) name \<noteq> Some ''DROP''" and "w \<noteq> Drop"
  shows "hook_lets_in ts holds t name"
proof -
  let ?tb = "table_of ts t"
  have "u = Let_in \<or> (u = Left \<and> map_of (policies ?tb) name \<noteq> Some ''DROP'') \<or> (u = Diverted \<and> (\<exists>line. diverted_by ?tb holds line))"
    if u: "netfilter ?tb holds (chain_rules ?tb name) u" for u
  proof -
    have "covers w u" using assms(1) u by (simp add: kernel_covered_def)
    then show ?thesis
      using netfilter_diverted [OF u] assms(2,3) by (cases u; cases w) (auto simp: covers_def)
  qed
  then show ?thesis using assms(1) by (fastforce simp: hook_lets_in_def hook_fate_def kernel_covered_def)
qed

lemma walk_hooks_sound:
  assumes "agrees own holds" and "\<And>t. named_apart (table_of ts t)" and "\<And>t. decided_exits own holds (table_of ts t)"
  shows "walk_hooks ts own hooks rs = Inr rs \<Longrightarrow> \<forall>n. (''filter'', n) \<in> set (butlast hooks) \<longrightarrow> False \<Longrightarrow>
    (t, name) \<in> set hooks \<Longrightarrow> hook_lets_in ts holds t name"
proof (induction hooks)
  case (Cons h hooks)
  obtain ht hn where h: "h = (ht, hn)" by (cases h)
  have last: "ht = ''filter'' \<Longrightarrow> hooks = []" using Cons.prems(2) h by (cases hooks) auto
  have rest: "\<forall>n. (''filter'', n) \<in> set (butlast hooks) \<longrightarrow> False" using Cons.prems(2) by (cases hooks) auto
  show ?case
  proof (cases "hn \<in> fst ` set (rules (table_of ts ht))")
    case False
    then show ?thesis using Cons h rest by (auto simp: hook_lets_in_def chains_def)
  next
    case True
    let ?tb = "table_of ts ht"
    from True Cons.prems(1) obtain v rs1 where
      w: "walk_chain ht ?tb own MAX_DEPTH hn (chain_rules ?tb hn) rs = Inr (v, rs1)"
      and cont: "(if v = Drop then Inr rs1
        else if v = Return \<and> map_of (policies ?tb) hn = Some ''DROP'' then
          Inr (rs1 @ [ht @ '': nothing in '' @ hn @ '' accepts it and its policy is DROP''])
        else if v = Accept \<and> ht = ''filter'' then Inr rs1
        else walk_hooks ts own hooks rs1) = Inr rs"
      by (auto simp: h bindR_Inr_iff)
    have "prefix rs rs1" using walk_chain_reasons [OF assms(2) w] by blast
    moreover have "prefix rs1 rs" using cont walk_hooks_reasons [OF assms(2)] by (auto split: if_splits simp: prefix_def)
    ultimately have "rs1 = rs" by (rule prefix_order.antisym[symmetric])
    note w = w [unfolded this] and cont = cont [unfolded this]
    have "v \<noteq> Drop" using walk_chain_silent [OF assms(2) w] .
    have pol: "v = Return \<Longrightarrow> map_of (policies ?tb) hn \<noteq> Some ''DROP''" using cont by auto
    have "kernel_covered ?tb holds (chain_rules ?tb hn) v"
      by (rule walk_chain_sound [OF assms w decided_chain [OF assms(3)]])
    then have here: "hook_lets_in ts holds ht hn" using pol \<open>v \<noteq> Drop\<close> by (rule covered_lets_in)
    show ?thesis
    proof (cases "(t, name) = (ht, hn)")
      case False
      then have "hooks \<noteq> []" "(t, name) \<in> set hooks" using Cons.prems(3) h by auto
      moreover from this have "walk_hooks ts own hooks rs = Inr rs" using cont \<open>v \<noteq> Drop\<close> last by (auto split: if_splits)
      ultimately show ?thesis using Cons.IH rest by blast
    qed (use here in auto)
  qed
qed simp

lemma later_hooks_let_in:
  assumes "later_hooks_open ts" and "t = ''security'' \<or> t = ''nat''"
  shows "hook_lets_in ts holds t ''INPUT''"
proof -
  have "chain_rules (table_of ts t) ''INPUT'' = []" "map_of (policies (table_of ts t)) ''INPUT'' \<noteq> Some ''DROP''"
    using assms by (auto simp: later_hooks_open_def)
  then show ?thesis by (simp add: hook_lets_in_def hook_fate_def)
qed

lemma first_seen_Nil [simp]: "first_seen xs = [] \<longleftrightarrow> xs = []"
  by (auto simp: first_seen_def)

lemma KERNEL_HOOKS_walked: "KERNEL_HOOKS = INBOUND @ [(''security'', ''INPUT''), (''nat'', ''INPUT'')]"
  by (simp add: KERNEL_HOOKS_def INBOUND_def)

text \<open>C9: An empty answer of the firewall walk is a promise about the kernel. Take a ruleset whose chains
  have no target's name, which iptables enforces, and whose \<open>INPUT\<close> chains in the security and nat
  tables, where the walk does not look, are empty and open; and a packet that matches the rules the
  walk decides as it decides them, however the undecided conditions (a source address, a rate limit,
  a mark) turn out, as long as no rule it matches leaves its chain by \<open>RETURN\<close> or a goto on such a
  condition. Then each of the kernel's hooks for a packet to this host has a fate for it and lets it in:
  no rule refuses it and no chain falls through to a \<open>DROP\<close> policy. The only other fate is a rule the
  packet matches whose target takes it elsewhere (NFQUEUE, TARPIT, DNAT), which the walk passes over.\<close>

theorem silent_walk_lets_ssh_in:
  assumes "walk_inbound ts own = Inr []" and "agrees own holds"
    and "\<And>t. named_apart (table_of ts t)" and "later_hooks_open ts"
    and "\<And>t. decided_exits own holds (table_of ts t)"
    and "(t, name) \<in> set KERNEL_HOOKS"
  shows "hook_lets_in ts holds t name"
proof -
  have "walk_hooks ts own INBOUND [] = Inr []" using assms(1) by (auto simp: walk_inbound_def bindR_Inr_iff)
  moreover have "\<forall>n. (''filter'', n) \<in> set (butlast INBOUND) \<longrightarrow> False" by (simp add: INBOUND_def)
  ultimately have "(t, name) \<in> set INBOUND \<Longrightarrow> hook_lets_in ts holds t name" using walk_hooks_sound [OF assms(2,3,5)] by blast
  moreover have "(t, name) \<in> set INBOUND \<or> (t, name) = (''security'', ''INPUT'') \<or> (t, name) = (''nat'', ''INPUT'')"
    using assms(6) unfolding KERNEL_HOOKS_walked by (simp only: set_append Un_iff set_simps insert_iff empty_iff simp_thms)
  ultimately show ?thesis using later_hooks_let_in [OF assms(4)] by (elim disjE) (simp_all only: prod.inject simp_thms)
qed

definition demo_tables :: tables where
  "demo_tables = [(''filter'', \<lparr>policies = [(''INPUT'', ''DROP'')],
     rules = [(''INPUT'', [''-A INPUT -m conntrack --ctstate INVALID -j DROP'', ''-A INPUT -j not-local'', ''-A INPUT -j ts-input'',
                ''-A INPUT -s 10.0.0.0/8 -p tcp --dport 80 -j DROP'']),
              (''not-local'', [''-A not-local -m addrtype --dst-type LOCAL -j RETURN'',
                ''-A not-local -m addrtype --dst-type MULTICAST -j RETURN'', ''-A not-local -j DROP'']),
              (''ts-input'', [''-A ts-input -s 100.115.92.0/23 -j LOG'', ''-A ts-input -i tailscale0 -j ACCEPT''])]\<rparr>)]"

definition demo_own :: "addr list" where "demo_own = [Addr 4 1681915905 None]"

definition demo_holds :: "string \<Rightarrow> bool" where
  "demo_holds line = (case read_rule demo_own line of Inr (Some r) \<Rightarrow> matching r = Some True | _ \<Rightarrow> False)"

lemma demo_holds_agrees: "agrees demo_own demo_holds"
  by (auto simp: agrees_def demo_holds_def)

lemma only_filter:
  "P no_table \<Longrightarrow> P (table_of demo_tables ''filter'') \<Longrightarrow> P (table_of demo_tables t)"
  by (cases "t = ''filter''") (simp_all add: table_of_def demo_tables_def)

theorem silent_walk_lets_ssh_in_witness:
  "walk_inbound demo_tables demo_own = Inr [] \<and> hook_lets_in demo_tables demo_holds ''filter'' ''INPUT''
   \<and> ''INPUT'' \<in> chains (table_of demo_tables ''filter'')"
proof -
  have w: "walk_inbound demo_tables demo_own = Inr []" by code_simp
  have "named_apart no_table" "named_apart (table_of demo_tables ''filter'')" by code_simp+
  then have n: "named_apart (table_of demo_tables t)" for t by (rule only_filter)
  have "decided_exits demo_own demo_holds no_table" "decided_exits demo_own demo_holds (table_of demo_tables ''filter'')" by code_simp+
  then have d: "decided_exits demo_own demo_holds (table_of demo_tables t)" for t by (rule only_filter)
  have l: "later_hooks_open demo_tables" by code_simp
  have "(''filter'', ''INPUT'') \<in> set KERNEL_HOOKS" by (simp add: KERNEL_HOOKS_def)
  moreover have "''INPUT'' \<in> chains (table_of demo_tables ''filter'')" by code_simp
  ultimately show ?thesis using silent_walk_lets_ssh_in [OF w demo_holds_agrees n l d] w by blast
qed

section \<open>What a silent walk does not promise\<close>

definition risky_tables :: tables where
  "risky_tables = [(''filter'', \<lparr>policies = [(''INPUT'', ''DROP'')],
     rules = [(''INPUT'', [''-A INPUT -i tailscale0 -j ssh'']),
              (''ssh'', [''-A ssh -s 100.64.0.0/10 -j RETURN'', ''-A ssh -j ACCEPT''])]\<rparr>)]"

definition risky_holds :: "string \<Rightarrow> bool" where
  "risky_holds line = (case read_rule demo_own line of Inr (Some r) \<Rightarrow> matching r \<noteq> Some False | _ \<Rightarrow> False)"

lemma risky_holds_agrees: "agrees demo_own risky_holds"
  by (auto simp: agrees_def risky_holds_def)

text \<open>The condition on early exits is needed. The walk passes over a \<open>RETURN\<close> whose condition it cannot
  decide, and takes the \<open>ACCEPT\<close> after it: it answers that SSH gets in, while a packet from the
  tailnet's own range leaves the chain at the \<open>RETURN\<close> and falls through to the \<open>DROP\<close> policy.\<close>

theorem undecided_return_trusted:
  "walk_inbound risky_tables demo_own = Inr [] \<and> agrees demo_own risky_holds
   \<and> hook_fate risky_tables risky_holds ''filter'' ''INPUT'' Refused"
proof -
  let ?tb = "table_of risky_tables ''filter''"
  have "walk_inbound risky_tables demo_own = Inr []" by code_simp
  moreover have rules: "chain_rules ?tb ''INPUT'' = [''-A INPUT -i tailscale0 -j ssh'']"
    "chain_rules ?tb ''ssh'' = [''-A ssh -s 100.64.0.0/10 -j RETURN'', ''-A ssh -j ACCEPT'']" by code_simp+
  moreover have "risky_holds ''-A ssh -s 100.64.0.0/10 -j RETURN''" "risky_holds ''-A INPUT -i tailscale0 -j ssh''"
    "jump_of ''-A ssh -s 100.64.0.0/10 -j RETURN'' = Some (False, ''RETURN'')"
    "jump_of ''-A INPUT -i tailscale0 -j ssh'' = Some (False, ''ssh'')"
    "standard_fate ''RETURN'' = Some Left" "calls_chain ?tb ''ssh''" by code_simp+
  then have "netfilter ?tb risky_holds (chain_rules ?tb ''INPUT'') Left"
    using nf_return [of risky_holds "''-A INPUT -i tailscale0 -j ssh''" "''ssh''" ?tb "[]" Left]
      nf_final [of risky_holds "''-A ssh -s 100.64.0.0/10 -j RETURN''" False "''RETURN''" Left ?tb "[''-A ssh -j ACCEPT'']"]
    unfolding rules by (simp only: netfilter_Nil)
  moreover have "map_of (policies ?tb) ''INPUT'' = Some ''DROP''" by code_simp
  ultimately show ?thesis using risky_holds_agrees unfolding hook_fate_def by auto
qed

definition queued_tables :: tables where
  "queued_tables = [(''filter'', \<lparr>policies = [(''INPUT'', ''ACCEPT'')],
     rules = [(''INPUT'', [''-A INPUT -i tailscale0 -j TARPIT''])]\<rparr>)]"

text \<open>A rule that takes every packet of the tailnet to a target the walk does not know is passed over
  too: the walk answers that SSH gets in, and the kernel never hands the packet to sshd.\<close>

theorem diverted_packet_trusted:
  "walk_inbound queued_tables demo_own = Inr [] \<and> agrees demo_own demo_holds
   \<and> hook_fate queued_tables demo_holds ''filter'' ''INPUT'' Diverted"
proof -
  let ?tb = "table_of queued_tables ''filter''"
  have "walk_inbound queued_tables demo_own = Inr []" by code_simp
  moreover have rules: "chain_rules ?tb ''INPUT'' = [''-A INPUT -i tailscale0 -j TARPIT'']" by code_simp
  moreover have "demo_holds ''-A INPUT -i tailscale0 -j TARPIT''" "extension ?tb ''TARPIT''"
    "jump_of ''-A INPUT -i tailscale0 -j TARPIT'' = Some (False, ''TARPIT'')" "''TARPIT'' \<notin> set PASSING" by code_simp+
  then have "netfilter ?tb demo_holds (chain_rules ?tb ''INPUT'') Diverted"
    unfolding rules by (blast intro: nf_divert)
  ultimately show ?thesis using demo_holds_agrees unfolding hook_fate_def by auto
qed

end
