(* ===== verification/Tailnet_Reach.thy ===== *)
theory Tailnet_Reach
  imports Firewall_Sound Minting
begin

text \<open>
  The reachability check of \<open>src/ansible/helpers/tailnet_reachability.py\<close>, around the firewall walk
  of \<open>Firewall\<close>: the control server, the peers, the tailnet policy, and \<open>check\<close>. What a
  command prints and what a server answers are functions of the calls made so far (\<open>tn_world\<close>), so
  that an answer may change between two attempts; the JSON reader and the texts of exceptions are
  arguments too.
\<close>

section \<open>The outside\<close>

record hreq =
  hq_method :: string
  hq_url :: string
  hq_headers :: "(string \<times> string) list"
  hq_body :: "string option"

datatype event = Ran "string list" | Asked hreq | Slept

datatype ran = Exited int string string | Os_Failure string | Timed_Out

datatype answer = Replied int string | Http_Failure int | No_Answer

record tn_world =
  tw_run :: "event list \<Rightarrow> string list \<Rightarrow> ran"
  tw_net :: "event list \<Rightarrow> hreq \<Rightarrow> answer"
  tw_loads :: "string \<Rightarrow> string + py"
  tw_text :: "filter_error \<Rightarrow> string"

datatype tn_error = Raised filter_error | Os_Raised string | Timeout_Expired | Runtime_Raised string | Bad_Json string

type_synonym 'a tn = "(event list, tn_error, 'a) sem"

definition liftF :: "'a flt \<Rightarrow> 'a tn" where
  "liftF r = (case r of Inl e \<Rightarrow> raise (Raised e) | Inr x \<Rightarrow> ret x)"

definition note_event :: "event \<Rightarrow> unit tn" where
  "note_event e = modS (\<lambda>h. h @ [e])"

definition tn_run :: "tn_world \<Rightarrow> string list \<Rightarrow> (int \<times> string \<times> string) tn" where
  "tn_run w argv = bindS (getS (\<lambda>h. tw_run w h argv)) (\<lambda>r. thenS (note_event (Ran argv)) (case r of
      Exited c o1 o2 \<Rightarrow> ret (c, o1, o2)
    | Os_Failure e \<Rightarrow> raise (Os_Raised e)
    | Timed_Out \<Rightarrow> raise Timeout_Expired))"

definition loads_or_none :: "tn_world \<Rightarrow> string \<Rightarrow> py" where
  "loads_or_none w s = (case tw_loads w s of Inl e \<Rightarrow> PNone | Inr v \<Rightarrow> v)"

definition answer_value :: "tn_world \<Rightarrow> answer \<Rightarrow> int \<times> py" where
  "answer_value w a = (case a of
      Replied status body \<Rightarrow> (status, loads_or_none w (if body = [] then ''null'' else body))
    | Http_Failure code \<Rightarrow> (code, PNone)
    | No_Answer \<Rightarrow> (0, PNone))"

definition tn_http :: "tn_world \<Rightarrow> hreq \<Rightarrow> (int \<times> py) tn" where
  "tn_http w q = bindS (getS (\<lambda>h. tw_net w h q)) (\<lambda>a. thenS (note_event (Asked q)) (ret (answer_value w a)))"

section \<open>Values\<close>

definition pget :: "py \<Rightarrow> string \<Rightarrow> py flt" where
  "pget v k = (case v of PDict d \<Rightarrow> Inr (dget d k) | _ \<Rightarrow> Inl Attribute_Error)"

text \<open>\<open>(v.get(a) or {}).get(b)\<close>.\<close>

definition pget2 :: "py \<Rightarrow> string \<Rightarrow> string \<Rightarrow> py flt" where
  "pget2 v a b = bindR (pget v a) (\<lambda>x. get_or x b)"

text \<open>\<open>(cfg.get(k) or s)\<close> where a method of \<open>str\<close> follows.\<close>

definition text_or :: "dict \<Rightarrow> string \<Rightarrow> string \<Rightarrow> string flt" where
  "text_or cfg k s = (if \<not> truthy (dget cfg k) then Inr s
     else case dget cfg k of PStr t \<Rightarrow> Inr t | _ \<Rightarrow> Inl Attribute_Error)"

fun anyR :: "('a \<Rightarrow> bool flt) \<Rightarrow> 'a list \<Rightarrow> bool flt" where
  "anyR f [] = Inr False"
| "anyR f (x # xs) = bindR (f x) (\<lambda>b. if b then Inr True else anyR f xs)"

lemma anyR_True: "anyR f xs = Inr True \<Longrightarrow> \<exists>x \<in> set xs. f x = Inr True"
  by (induction xs) (auto simp: bindR_Inr_iff split: if_splits)

definition plain_str :: "py \<Rightarrow> string flt" where
  "plain_str v = (case v of PStr s \<Rightarrow> Inr s | _ \<Rightarrow> Inl Type_Error)"

definition rstrip_slash :: "string \<Rightarrow> string" where
  "rstrip_slash = rstrip_by (\<lambda>c. c = CHR ''/'')"

definition last_300 :: "string \<Rightarrow> string" where
  "last_300 s = drop (length s - 300) s"

text \<open>The body of an answer that is an object with status 200.\<close>

definition ok_dict :: "int \<Rightarrow> py \<Rightarrow> dict option" where
  "ok_dict code v = (if code \<noteq> 200 then None else case v of PDict d \<Rightarrow> Some d | _ \<Rightarrow> None)"

section \<open>The control server\<close>

definition local_status :: "tn_world \<Rightarrow> py tn" where
  "local_status w = bindS (tn_run w [''tailscale'', ''status'', ''--json'']) (\<lambda>(code, out, err).
     if code \<noteq> 0 then raise (Runtime_Raised (''`tailscale status --json` exited '' @ dec_int code @ '': '' @ last_300 (strip err)))
     else (case tw_loads w out of Inl e \<Rightarrow> raise (Bad_Json e) | Inr v \<Rightarrow> ret v))"

definition basic_auth :: "string \<Rightarrow> string \<Rightarrow> string" where
  "basic_auth client_id secret = ''Basic '' @ b64encode b64_std (utf8 (client_id @ '':'' @ secret))"

definition token_request :: "string \<Rightarrow> string \<Rightarrow> string \<Rightarrow> hreq" where
  "token_request base client_id secret =
     \<lparr>hq_method = ''POST'', hq_url = base @ ''/oauth/token'',
      hq_headers = [(''Authorization'', basic_auth client_id secret), (''Content-Type'', ''application/x-www-form-urlencoded'')],
      hq_body = Some (urlencode [(''grant_type'', ''client_credentials'')])\<rparr>"

definition get_request :: "string \<Rightarrow> string \<Rightarrow> hreq" where
  "get_request url bearer =
     \<lparr>hq_method = ''GET'', hq_url = url, hq_headers = [(''Authorization'', ''Bearer '' @ bearer)], hq_body = None\<rparr>"

definition has_token :: "py \<Rightarrow> bool" where
  "has_token token = (case token of PDict d \<Rightarrow> truthy (dget d ''access_token'') | _ \<Rightarrow> False)"

definition access_token :: "py \<Rightarrow> string" where
  "access_token token = (case token of PDict d \<Rightarrow> py_str (dget d ''access_token'') | _ \<Rightarrow> [])"

definition device_reasons :: "dict \<Rightarrow> string list" where
  "device_reasons device =
     (if truthy (dget device ''connectedToControl'') then [] else [''the control server does not see this server connected''])
     @ (if truthy (dget device ''blocksIncomingConnections'')
        then [''this server refuses incoming tailnet connections (shields up), so no device can reach it''] else [])"

definition tailscale_control :: "tn_world \<Rightarrow> py \<Rightarrow> dict \<Rightarrow> string list tn" where
  "tailscale_control w status cfg =
     bindS (liftF (pget2 status ''Self'' ''ID'')) (\<lambda>ident. let node_id = str_or ident in
     if node_id = [] then ret [''`tailscale status` names no node id for this host'']
     else bindS (liftF (text_or cfg ''TAILSCALE_API_BASE'' ''https://api.tailscale.com/api/v2'')) (\<lambda>b.
       let base = rstrip_slash b; client_id = str_or (dget cfg ''TAILSCALE_OAUTH_CLIENT_ID'');
           secret = str_or (dget cfg ''TAILSCALE_OAUTH_CLIENT_SECRET'') in
       if client_id = [] \<or> secret = [] then ret [''no Tailscale OAuth client is stored, so the control server cannot be asked'']
       else bindS (tn_http w (token_request base client_id secret)) (\<lambda>(code, token).
         if code \<noteq> 200 \<or> \<not> has_token token
         then ret [''the OAuth client did not exchange for a token (HTTP '' @ dec_int code @ '')'']
         else bindS (tn_http w (get_request (base @ ''/device/'' @ url_quote node_id @ ''?fields=all'') (access_token token)))
           (\<lambda>(code, device).
             if code = 403 then ret [''the OAuth client cannot read devices: add Devices > Core (read) to its scopes in the Tailscale admin console'']
             else (case ok_dict code device of
                 Some d \<Rightarrow> ret (device_reasons d)
               | None \<Rightarrow> ret [''the control server has no readable record of device '' @ node_id @ '' (HTTP '' @ dec_int code @ '')''])))))"

fun find_node :: "string \<Rightarrow> py list \<Rightarrow> dict option flt" where
  "find_node key [] = Inr None"
| "find_node key (n # ns) = (case n of
     PDict d \<Rightarrow> if py_eq (dget d ''nodeKey'') (PStr key) then Inr (Some d) else find_node key ns
   | _ \<Rightarrow> Inl Attribute_Error)"

definition headscale_control :: "tn_world \<Rightarrow> py \<Rightarrow> dict \<Rightarrow> string list option tn" where
  "headscale_control w status cfg =
     (let key = str_or (dget cfg ''HEADSCALE_API_KEY'') in
      if key = [] then ret None
      else bindS (liftF (pget2 status ''Self'' ''PublicKey'')) (\<lambda>pk.
        bindS (liftF (text_or cfg ''HEADSCALE_URL'' [])) (\<lambda>url.
        bindS (tn_http w (get_request (rstrip_slash url @ ''/api/v1/node'') key)) (\<lambda>(code, body).
          case ok_dict code body of
            Some d \<Rightarrow>
              bindS (liftF (bindR (items_or (dget d ''nodes'')) (find_node (str_or pk)))) (\<lambda>node. ret (Some (case node of
                  None \<Rightarrow> [''the Headscale server has no node with this server's key'']
                | Some n \<Rightarrow> if truthy (dget n ''online'') then [] else [''the Headscale server does not see this server online''])))
          | None \<Rightarrow> ret (Some [''the Headscale server did not list its nodes (HTTP '' @ dec_int code @ '')''])))))"

section \<open>Peers\<close>

type_synonym peer = "py \<times> string list"

definition hashable :: "py \<Rightarrow> py flt" where
  "hashable v = (case v of PList _ \<Rightarrow> Inl Type_Error | PDict _ \<Rightarrow> Inl Type_Error | _ \<Rightarrow> Inr v)"

definition ipv4_first :: "string list \<Rightarrow> string list" where
  "ipv4_first xs = filter (\<lambda>a. CHR '':'' \<notin> set a) xs @ filter (\<lambda>a. CHR '':'' \<in> set a) xs"

definition peer_of :: "string set \<Rightarrow> py \<Rightarrow> peer option flt" where
  "peer_of own_tags v =
     bindR (pget v ''Online'') (\<lambda>online.
     if \<not> truthy online then Inr None
     else bindR (pget v ''Tags'') (\<lambda>tags. bindR (items_or tags) (\<lambda>ts. bindR (mapR hashable ts) (\<lambda>ts.
       if (\<exists>t \<in> set ts. case t of PStr s \<Rightarrow> s \<in> own_tags | _ \<Rightarrow> False) then Inr None
       else bindR (pget v ''TailscaleIPs'') (\<lambda>ips. bindR (items_or ips) (\<lambda>is. bindR (mapR plain_str is) (\<lambda>as.
         let addrs = ipv4_first as in
         if addrs \<noteq> [] \<and> CHR ''.'' \<in> set (hd addrs)
         then bindR (pget v ''HostName'') (\<lambda>n. Inr (Some (if truthy n then n else PStr (hd addrs), addrs)))
         else Inr None)))))))"

definition dict_values :: "py \<Rightarrow> py list flt" where
  "dict_values v = (if \<not> truthy v then Inr [] else case v of PDict d \<Rightarrow> Inr (map snd d) | _ \<Rightarrow> Inl Attribute_Error)"

definition eligible_peers :: "py \<Rightarrow> string set \<Rightarrow> peer list flt" where
  "eligible_peers status own_tags =
     bindR (pget status ''Peer'') (\<lambda>p. bindR (dict_values p) (\<lambda>vs. bindR (mapR (peer_of own_tags) vs) (\<lambda>ps.
       Inr (List.map_filter id ps))))"

definition MAX_PEERS :: nat where "MAX_PEERS = 5"

definition ping_argv :: "string \<Rightarrow> string list" where
  "ping_argv a = [''tailscale'', ''ping'', ''--tsmp'', ''--c'', ''3'', ''--timeout'', ''5s'', a]"

fun ping_each :: "tn_world \<Rightarrow> peer list \<Rightarrow> py option tn" where
  "ping_each w [] = ret None"
| "ping_each w ((name, addrs) # ps) =
     bindS (tn_run w (ping_argv (hd addrs))) (\<lambda>(code, _). if code = 0 then ret (Some name) else ping_each w ps)"

definition ping_a_peer :: "tn_world \<Rightarrow> peer list \<Rightarrow> py option tn" where
  "ping_a_peer w peers = ping_each w (take MAX_PEERS peers)"

definition peer_names :: "peer list \<Rightarrow> string flt" where
  "peer_names peers = bindR (mapR (\<lambda>p. plain_str (fst p)) (take MAX_PEERS peers)) (\<lambda>ns. Inr (join '', '' ns))"

section \<open>The firewall\<close>

definition number_addr :: "int \<Rightarrow> addr flt" where
  "number_addr n =
     (if 0 \<le> n \<and> n < 2 ^ 32 then Inr (Addr 4 n None)
      else if 0 \<le> n \<and> n < 2 ^ 128 then Inr (Addr 6 n None) else Inl Value_Error)"

definition addr_of :: "py \<Rightarrow> addr flt" where
  "addr_of v = (case v of
      PStr s \<Rightarrow> (case ip_address s of None \<Rightarrow> Inl Value_Error | Some a \<Rightarrow> Inr a)
    | PInt n \<Rightarrow> number_addr n
    | PBool b \<Rightarrow> number_addr (of_bool b)
    | _ \<Rightarrow> Inl Value_Error)"

definition own_addrs :: "py \<Rightarrow> addr list flt" where
  "own_addrs status = bindR (pget2 status ''Self'' ''TailscaleIPs'') (\<lambda>ips. bindR (items_or ips) (mapR addr_of))"

definition run_or_os_error :: "tn_world \<Rightarrow> string list \<Rightarrow> (string + int \<times> string \<times> string) tn" where
  "run_or_os_error w argv = catchS (bindS (tn_run w argv) (\<lambda>r. ret (Inr r)))
     (\<lambda>e. case e of Os_Raised t \<Rightarrow> Some (ret (Inl t)) | _ \<Rightarrow> None)"

text \<open>One tool of the loop: its reasons for the addresses of its version.\<close>

definition tool_reasons :: "tn_world \<Rightarrow> addr list \<Rightarrow> string \<times> int \<Rightarrow> string list tn" where
  "tool_reasons w own tv = (case tv of (tool, version) \<Rightarrow>
     let addrs = filter (\<lambda>a. ip_version a = version) own in
     if addrs = [] then ret []
     else bindS (run_or_os_error w [tool]) (\<lambda>r. case r of
         Inl e \<Rightarrow> ret [''could not read this server's firewall ('' @ tool @ '': '' @ e @ '')'']
       | Inr (code, out, _) \<Rightarrow>
           if code \<noteq> 0 then ret [''could not read this server's firewall ('' @ tool @ '' exited '' @ dec_int code @ '')'']
           else liftF (bindR (parse_ruleset out) (\<lambda>ts. bindR (walk_inbound ts addrs) (\<lambda>whys.
             Inr (map (\<lambda>why. ''this server's firewall drops SSH arriving over the tailnet ('' @ tool @ '', '' @ why @ '')'') whys))))))"

definition TOOLS :: "(string \<times> int) list" where
  "TOOLS = [(''iptables-save'', 4), (''ip6tables-save'', 6)]"

fun all_reasons :: "('a \<Rightarrow> string list tn) \<Rightarrow> 'a list \<Rightarrow> string list tn" where
  "all_reasons f [] = ret []"
| "all_reasons f (x # xs) = bindS (f x) (\<lambda>a. bindS (all_reasons f xs) (\<lambda>b. ret (a @ b)))"

definition firewall_reasons :: "tn_world \<Rightarrow> py \<Rightarrow> string list tn" where
  "firewall_reasons w status = bindS (liftF (own_addrs status)) (\<lambda>own.
     if own = [] then ret [''`tailscale status` names no tailnet address for this server, so its firewall cannot be checked'']
     else all_reasons (tool_reasons w own) TOOLS)"

section \<open>The tailnet policy\<close>

definition TCP :: int where "TCP = 6"

definition PROTO_NAMES :: "(int \<times> string) list" where
  "PROTO_NAMES = [(1, ''icmp''), (6, ''tcp''), (17, ''udp''), (58, ''icmpv6''), (132, ''sctp'')]"

definition holds_text :: "string \<Rightarrow> addr \<Rightarrow> bool" where
  "holds_text spec a =
     (if spec = ''*'' then True
      else if prefix ''cap:'' spec then False
      else if CHR ''/'' \<in> set spec then (case ip_network True spec of None \<Rightarrow> False | Some n \<Rightarrow> ip_in a n)
      else if length (filter (\<lambda>c. c = CHR ''-'') spec) = 1 then
        (case partition_char (CHR ''-'') spec of (l, _, h) \<Rightarrow>
          case (ip_address l, ip_address h) of
            (Some lo, Some hi) \<Rightarrow> ip_version lo = ip_version hi \<and> ip_version hi = ip_version a \<and> ip_le lo a \<and> ip_le a hi
          | _ \<Rightarrow> False)
      else ip_address spec = Some a)"

definition holds_spec :: "py \<Rightarrow> addr \<Rightarrow> bool flt" where
  "holds_spec v a = (case v of PStr s \<Rightarrow> Inr (holds_text s a) | _ \<Rightarrow> Inl Attribute_Error)"

text \<open>\<open>n in v\<close> for an integer.\<close>

definition int_in :: "int \<Rightarrow> py \<Rightarrow> bool flt" where
  "int_in n v = (case v of
      PList xs \<Rightarrow> Inr (list_ex (\<lambda>x. py_eq x (PInt n)) xs)
    | PDict _ \<Rightarrow> Inr False
    | _ \<Rightarrow> Inl Type_Error)"

text \<open>\<open>v[k]\<close>.\<close>

definition subscript :: "py \<Rightarrow> string \<Rightarrow> py flt" where
  "subscript v k = (case v of
      PDict d \<Rightarrow> (case map_of d k of None \<Rightarrow> Inl (Key_Error k) | Some x \<Rightarrow> Inr x)
    | _ \<Rightarrow> Inl Type_Error)"

definition num_of :: "py \<Rightarrow> int flt" where
  "num_of v = (case v of PInt i \<Rightarrow> Inr i | PBool b \<Rightarrow> Inr (of_bool b) | _ \<Rightarrow> Inl Type_Error)"

definition dst_allows :: "addr \<Rightarrow> py \<Rightarrow> bool flt" where
  "dst_allows dst d =
     bindR (subscript d ''IP'') (\<lambda>ip. bindR (holds_spec ip dst) (\<lambda>here.
     if \<not> here then Inr False
     else bindR (subscript d ''Ports'') (\<lambda>ps. bindR (bindR (subscript ps ''First'') num_of) (\<lambda>lo.
       if \<not> lo \<le> SSH_PORT then Inr False
       else bindR (bindR (subscript ps ''Last'') num_of) (\<lambda>hi. Inr (SSH_PORT \<le> hi))))))"

definition allows_ssh :: "py \<Rightarrow> addr \<Rightarrow> addr \<Rightarrow> bool flt" where
  "allows_ssh fr src dst =
     bindR (pget fr ''IPProto'') (\<lambda>protos.
     bindR (if truthy protos then int_in TCP protos else Inr True) (\<lambda>tcp.
     if \<not> tcp then Inr False
     else bindR (pget fr ''SrcIPs'') (\<lambda>s. bindR (items_or s) (\<lambda>srcs. bindR (anyR (\<lambda>v. holds_spec v src) srcs) (\<lambda>from.
       if \<not> from then Inr False
       else bindR (pget fr ''DstPorts'') (\<lambda>d. bindR (items_or d) (anyR (dst_allows dst))))))))"

definition brief :: "string list \<Rightarrow> nat \<Rightarrow> string" where
  "brief xs most = join '', '' (take most xs)
     @ (if most < length xs then '' and '' @ dec_nat (length xs - most) @ '' more'' else [])"

definition brief_py :: "py \<Rightarrow> string flt" where
  "brief_py v = (case v of
      PDict d \<Rightarrow> if d = [] then Inr [] else Inl Type_Error
    | _ \<Rightarrow> bindR (items_or v) (\<lambda>xs. bindR (mapR plain_str (take 3 xs)) (\<lambda>_. Inr (brief (map py_str xs) 3))))"

definition port_range :: "py \<Rightarrow> string flt" where
  "port_range pr = bindR (subscript pr ''First'') (\<lambda>lo. bindR (subscript pr ''Last'') (\<lambda>hi.
     Inr (if py_eq lo (PInt 0) \<and> py_eq hi (PInt 65535) then ''*''
          else if py_eq lo hi then py_str lo else py_str lo @ ''-'' @ py_str hi)))"

definition proto_name :: "py \<Rightarrow> string flt" where
  "proto_name p = bindR (hashable p) (\<lambda>p. Inr (case find (\<lambda>kv. py_eq p (PInt (fst kv))) PROTO_NAMES of
      Some kv \<Rightarrow> snd kv | None \<Rightarrow> py_str p))"

definition dst_text :: "py \<Rightarrow> string flt" where
  "dst_text d = bindR (subscript d ''IP'') (\<lambda>ip. bindR (subscript d ''Ports'') (\<lambda>ps. bindR (port_range ps) (\<lambda>r.
     Inr (py_str ip @ '':'' @ r))))"

definition describe :: "py \<Rightarrow> string flt" where
  "describe fr =
     bindR (bindR (pget fr ''SrcIPs'') brief_py) (\<lambda>b. let srcs = (if b = [] then ''no source'' else b) in
     bindR (pget fr ''DstPorts'') (\<lambda>dp.
     if \<not> truthy dp then Inr (''[capability grants only, from '' @ srcs @ '']'')
     else bindR (pget fr ''IPProto'') (\<lambda>pr. bindR (items_or pr) (\<lambda>ps. bindR (mapR proto_name ps) (\<lambda>names.
       bindR (items_of dp) (\<lambda>ds. bindR (mapR dst_text ds) (\<lambda>dsts.
         Inr (''['' @ (if join ''/'' names = [] then ''tcp/udp/icmp'' else join ''/'' names)
           @ '' from '' @ srcs @ '' to '' @ brief dsts 3 @ '']''))))))))"

definition family_pairs :: "peer list \<Rightarrow> addr list \<Rightarrow> (addr \<times> addr) list flt" where
  "family_pairs peers own = bindR (mapR (\<lambda>p. mapR (\<lambda>a. addr_of (PStr a)) (snd p)) peers) (\<lambda>srcs.
     Inr [(src, dst). src \<leftarrow> concat srcs, dst \<leftarrow> own, ip_version src = ip_version dst])"

text \<open>What the \<open>try\<close> block gives: the descriptions of the filter rules, or \<open>None\<close> when one lets a pair in.\<close>

definition read_policy :: "tn_world \<Rightarrow> string \<Rightarrow> (addr \<times> addr) list \<Rightarrow> string list option flt" where
  "read_policy w out pairs = (case tw_loads w out of
      Inl e \<Rightarrow> Inl Value_Error
    | Inr doc \<Rightarrow>
        bindR (subscript doc ''PacketFilterRules'') (\<lambda>v. bindR (items_or v) (\<lambda>frs.
        bindR (anyR (\<lambda>fr. anyR (\<lambda>(src, dst). allows_ssh fr src dst) pairs) frs) (\<lambda>let_in.
          if let_in then Inr None else bindR (mapR describe frs) (\<lambda>ds. Inr (Some ds))))))"

definition policy_reasons :: "tn_world \<Rightarrow> py \<Rightarrow> peer list \<Rightarrow> string set \<Rightarrow> string list tn" where
  "policy_reasons w status peers own_tags =
     bindS (liftF (own_addrs status)) (\<lambda>own. bindS (liftF (family_pairs peers own)) (\<lambda>pairs.
     bindS (tn_run w [''tailscale'', ''debug'', ''netmap'']) (\<lambda>(code, out, err).
     if code \<noteq> 0 then ret [''could not read the tailnet policy this server received (`tailscale debug netmap` exited ''
         @ dec_int code @ '': '' @ last_300 (strip err) @ '')'']
     else (case read_policy w out pairs of
         Inl e \<Rightarrow> ret [''could not parse the tailnet policy this server received from `tailscale debug netmap` ('' @ tw_text w e @ '')'']
       | Inr None \<Rightarrow> ret []
       | Inr (Some allows) \<Rightarrow> bindS (liftF (peer_names peers)) (\<lambda>names.
           ret [''the tailnet policy lets none of '' @ names @ '' open SSH (TCP port 22) to this server''
             @ (if own_tags = {} then [] else '' ('' @ join '', '' (sorted_list_of_set own_tags) @ '')'')
             @ '': it lets in '' @ (if brief allows 5 = [] then ''nothing'' else brief allows 5)])))))"

section \<open>The check\<close>

record tn_conf =
  tc_provider :: string
  tc_require :: bool
  tc_tags :: "string set"

definition tn_conf_of :: "dict \<Rightarrow> tn_conf flt" where
  "tn_conf_of cfg =
     bindR (text_or cfg ''TAILNET_PROVIDER'' ''tailscale'') (\<lambda>p.
     bindR (text_or cfg ''TAILNET_REQUIRE_PEER'' ''0'') (\<lambda>r.
     bindR (text_or cfg ''TAILNET_OWN_TAGS'' []) (\<lambda>t.
       Inr \<lparr>tc_provider = lower (strip p), tc_require = (strip r = ''1''),
            tc_tags = set (filter (\<lambda>s. s \<noteq> []) (map strip (split_char (CHR '','') t)))\<rparr>)))"

definition control_reasons :: "tn_world \<Rightarrow> dict \<Rightarrow> tn_conf \<Rightarrow> py \<Rightarrow> (string list \<times> string list) tn" where
  "control_reasons w cfg c status =
     (if tc_provider c = ''headscale'' then
        bindS (headscale_control w status cfg) (\<lambda>r. ret (case r of
            Some reasons \<Rightarrow> (reasons, [])
          | None \<Rightarrow>
              if tc_require c then
                ([''no Headscale API key is stored, so the control server cannot confirm this server is online; enter one in catena-admin > Settings > Admin access tunnel''], [])
              else ([], [''Headscale not asked (no API key stored)''])))
      else bindS (tailscale_control w status cfg) (\<lambda>r. ret (r, [])))"

record attempt =
  at_reasons :: "string list"
  at_notes :: "string list"
  at_status :: py
  at_peers :: "peer list"

definition peer_step :: "tn_world \<Rightarrow> tn_conf \<Rightarrow> py \<Rightarrow> string list \<Rightarrow> attempt tn" where
  "peer_step w c status notes =
     bindS (liftF (eligible_peers status (tc_tags c))) (\<lambda>peers.
     if peers = [] then
       ret \<lparr>at_reasons = [''no other device is online on the tailnet: turn Tailscale on on the device used to administer this server, then apply again''],
         at_notes = notes, at_status = status, at_peers = peers\<rparr>
     else bindS (ping_a_peer w peers) (\<lambda>answered. case answered of
         Some name \<Rightarrow> ret \<lparr>at_reasons = [], at_notes = notes @ [py_str name @ '' answered through the tunnel''],
           at_status = status, at_peers = peers\<rparr>
       | None \<Rightarrow> bindS (liftF (peer_names peers)) (\<lambda>names.
           ret \<lparr>at_reasons = [''none of '' @ names @ '' answered a ping through the tunnel''],
             at_notes = notes, at_status = status, at_peers = peers\<rparr>)))"

definition status_or_reason :: "tn_world \<Rightarrow> (string + py) tn" where
  "status_or_reason w = catchS (bindS (local_status w) (\<lambda>v. ret (Inr v))) (\<lambda>e. case e of
      Runtime_Raised t \<Rightarrow> Some (ret (Inl t))
    | Bad_Json t \<Rightarrow> Some (ret (Inl t))
    | _ \<Rightarrow> None)"

definition attempt_with :: "tn_world \<Rightarrow> dict \<Rightarrow> tn_conf \<Rightarrow> py \<Rightarrow> attempt tn" where
  "attempt_with w cfg c status =
     bindS (liftF (pget status ''BackendState'')) (\<lambda>st.
       if \<not> py_eq st (PStr ''Running'') then
         ret \<lparr>at_reasons = [''tailscale is '' @ py_repr st @ '', not Running''], at_notes = [], at_status = status, at_peers = []\<rparr>
       else bindS (control_reasons w cfg c status) (\<lambda>(reasons, notes).
         if tc_require c \<and> reasons = [] then peer_step w c status notes
         else ret \<lparr>at_reasons = reasons, at_notes = notes, at_status = status, at_peers = []\<rparr>))"

definition one_attempt :: "tn_world \<Rightarrow> dict \<Rightarrow> tn_conf \<Rightarrow> attempt tn" where
  "one_attempt w cfg c = bindS (status_or_reason w) (\<lambda>r. case r of
      Inl e \<Rightarrow> ret \<lparr>at_reasons = [e], at_notes = [], at_status = PNone, at_peers = []\<rparr>
    | Inr status \<Rightarrow> attempt_with w cfg c status)"

definition ATTEMPTS :: nat where "ATTEMPTS = 7"

fun attempts :: "nat \<Rightarrow> bool \<Rightarrow> tn_world \<Rightarrow> dict \<Rightarrow> tn_conf \<Rightarrow> attempt \<Rightarrow> attempt tn" where
  "attempts 0 first w cfg c a = ret a"
| "attempts (Suc n) first w cfg c a =
     thenS (whenS (\<not> first) (note_event Slept)) (bindS (one_attempt w cfg c) (\<lambda>a.
       if at_reasons a = [] then ret a else attempts n False w cfg c a))"

record tn_verdict =
  tv_ok :: bool
  tv_reasons :: "string list"
  tv_summary :: string

definition no_attempt :: attempt where
  "no_attempt = \<lparr>at_reasons = [], at_notes = [], at_status = PNone, at_peers = []\<rparr>"

definition tn_check :: "tn_world \<Rightarrow> dict \<Rightarrow> tn_verdict tn" where
  "tn_check w cfg =
     bindS (liftF (tn_conf_of cfg)) (\<lambda>c.
     bindS (attempts ATTEMPTS True w cfg c no_attempt) (\<lambda>a.
     bindS (if tc_require c \<and> at_reasons a = [] then
              bindS (policy_reasons w (at_status a) (at_peers a) (tc_tags c)) (\<lambda>p.
              bindS (firewall_reasons w (at_status a)) (\<lambda>f. ret (p @ f)))
            else ret (at_reasons a)) (\<lambda>reasons.
       ret \<lparr>tv_ok = (reasons = []), tv_reasons = reasons,
         tv_summary = (if reasons = [] then ''the tailnet confirms this server is reachable''
             @ (if at_notes a = [] then [] else '': '' @ join ''; '' (at_notes a))
           else join ''; '' reasons)\<rparr>)))"

end
