(* ===== verification/Tailnet_Sound.thy ===== *)
theory Tailnet_Sound
  imports Tailnet_Reach
begin

text \<open>
  What a verdict of the reachability check rests on. A command or a request of a run is one that the
  history of the run holds, with the answer the outside gave at that point.
\<close>

section \<open>What a run saw\<close>

definition saw :: "tn_world \<Rightarrow> event list \<Rightarrow> string list \<Rightarrow> int \<Rightarrow> string \<Rightarrow> bool" where
  "saw w h argv code out = (\<exists>h1 err. prefix (h1 @ [Ran argv]) h \<and> tw_run w h1 argv = Exited code out err)"

definition heard :: "tn_world \<Rightarrow> event list \<Rightarrow> hreq \<Rightarrow> int \<Rightarrow> py \<Rightarrow> bool" where
  "heard w h q code body = (\<exists>h1. prefix (h1 @ [Asked q]) h \<and> answer_value w (tw_net w h1 q) = (code, body))"

lemma saw_later: "saw w h argv code out \<Longrightarrow> prefix h h' \<Longrightarrow> saw w h' argv code out"
  unfolding saw_def using prefix_order.trans by blast

lemma heard_later: "heard w h q code body \<Longrightarrow> prefix h h' \<Longrightarrow> heard w h' q code body"
  unfolding heard_def using prefix_order.trans by blast

lemma liftF_Inr [simp]: "liftF r h = (Inr x, h') \<longleftrightarrow> r = Inr x \<and> h' = h"
  by (auto simp: liftF_def ret_def raise_def split: sum.splits)

lemmas tn_iffs = bindS_Inr_iff thenS_Inr_iff ret_Inr_iff raise_not_Inr catchS_Inr_iff

lemma tn_run_saw: "tn_run w argv h = (Inr (code, out, err), h') \<Longrightarrow> h' = h @ [Ran argv] \<and> saw w h' argv code out"
  by (auto simp: tn_run_def saw_def note_event_def modS_def getS_def tn_iffs split: ran.splits)

lemma tn_http_heard: "tn_http w q h = (Inr (code, body), h') \<Longrightarrow> h' = h @ [Asked q] \<and> heard w h' q code body"
  by (auto simp: tn_http_def heard_def note_event_def modS_def getS_def tn_iffs)

section \<open>Histories only grow\<close>

definition grows :: "'a tn \<Rightarrow> bool" where
  "grows m = (\<forall>h0. inv (prefix h0) m)"

named_theorems grows_intros \<open>steps that only extend the history\<close>

lemma growsI: "(\<And>h0. inv (prefix h0) m) \<Longrightarrow> grows m"
  by (simp add: grows_def)

lemma growsD: "grows m \<Longrightarrow> m h = (r, h') \<Longrightarrow> prefix h h'"
  unfolding grows_def using inv_step [of "prefix h" m h] by simp

lemma grows_ret [grows_intros]: "grows (ret x)"
  by (auto intro!: growsI inv_intros)

lemma grows_raise [grows_intros]: "grows (raise e)"
  by (auto intro!: growsI inv_intros)

lemma grows_getS [grows_intros]: "grows (getS f)"
  by (auto intro!: growsI inv_intros)

lemma grows_note [grows_intros]: "grows (note_event e)"
  by (auto simp: grows_def note_event_def inv_def triple_def modS_def intro: prefix_order.trans)

lemma grows_liftF [grows_intros]: "grows (liftF r)"
  by (cases r) (auto simp: liftF_def intro: grows_intros)

lemma grows_bind [grows_intros]: "grows m \<Longrightarrow> (\<And>x. grows (f x)) \<Longrightarrow> grows (bindS m f)"
  by (auto simp: grows_def intro!: inv_intros)

lemma grows_then [grows_intros]: "grows m \<Longrightarrow> grows k \<Longrightarrow> grows (thenS m k)"
  by (auto simp: grows_def intro!: inv_intros)

lemma grows_when [grows_intros]: "grows m \<Longrightarrow> grows (whenS b m)"
  by (auto simp: grows_def intro!: inv_intros)

lemma grows_catch [grows_intros]: "grows m \<Longrightarrow> (\<And>e k. handler e = Some k \<Longrightarrow> grows k) \<Longrightarrow> grows (catchS m handler)"
  by (auto simp: grows_def intro!: inv_intros)

lemma grows_cases [grows_intros]:
  "grows m \<Longrightarrow> grows k \<Longrightarrow> grows (if b then m else k)"
  "(\<And>x y. grows (f x y)) \<Longrightarrow> grows (case p of (x, y) \<Rightarrow> f x y)"
  "grows m \<Longrightarrow> (\<And>x. grows (g x)) \<Longrightarrow> grows (case r of None \<Rightarrow> m | Some x \<Rightarrow> g x)"
  "(\<And>e. grows (i e)) \<Longrightarrow> (\<And>x. grows (j x)) \<Longrightarrow> grows (case t of Inl e \<Rightarrow> i e | Inr x \<Rightarrow> j x)"
  by (auto split: prod.split option.split sum.split)

lemma grows_tn_run [grows_intros]: "grows (tn_run w argv)"
  unfolding tn_run_def by (auto intro!: grows_intros split: ran.split)

lemma grows_tn_http [grows_intros]: "grows (tn_http w q)"
  unfolding tn_http_def by (intro grows_intros)

lemma grows_ping_each [grows_intros]: "grows (ping_each w ps)"
  by (induction ps) (auto intro!: grows_intros simp del: split_paired_All)

lemma grows_status [grows_intros]: "grows (status_or_reason w)"
  unfolding status_or_reason_def local_status_def
  by (intro grows_intros) (auto intro: grows_intros split: tn_error.splits)

lemma grows_control [grows_intros]: "grows (control_reasons w cfg c status)"
  unfolding control_reasons_def headscale_control_def tailscale_control_def Let_def
  by (intro grows_intros)

lemma grows_peer_step [grows_intros]: "grows (peer_step w c status notes)"
  unfolding peer_step_def ping_a_peer_def by (intro grows_intros)

lemma grows_one_attempt [grows_intros]: "grows (one_attempt w cfg c)"
  unfolding one_attempt_def attempt_with_def by (intro grows_intros)

lemma grows_attempts [grows_intros]: "grows (attempts n first w cfg c a)"
  by (induction n arbitrary: first a) (simp_all, (intro grows_intros | simp)+)

lemma grows_policy [grows_intros]: "grows (policy_reasons w status peers tags)"
  unfolding policy_reasons_def by (intro grows_intros)

lemma grows_run_or_os_error [grows_intros]: "grows (run_or_os_error w argv)"
  unfolding run_or_os_error_def by (intro grows_intros) (auto intro: grows_intros split: tn_error.splits)

lemma grows_tool [grows_intros]: "grows (tool_reasons w own tv)"
  unfolding tool_reasons_def Let_def by (intro grows_intros)

lemma grows_all_reasons [grows_intros]: "(\<And>x. grows (f x)) \<Longrightarrow> grows (all_reasons f xs)"
  by (induction xs) (auto intro!: grows_intros)

lemma grows_firewall [grows_intros]: "grows (firewall_reasons w status)"
  unfolding firewall_reasons_def by (intro grows_intros)

section \<open>A confirmed server\<close>

text \<open>The server's own record, as the command \<open>tailscale status\<close> of this run gave it.\<close>

definition status_seen :: "tn_world \<Rightarrow> event list \<Rightarrow> py \<Rightarrow> bool" where
  "status_seen w h status = (\<exists>out. saw w h [''tailscale'', ''status'', ''--json''] 0 out \<and> tw_loads w out = Inr status)"

text \<open>Tailscale's control server sees this node: the stored OAuth client was exchanged for a token, and with it
  the record of the device with the node id of the status says it is connected and takes connections.\<close>

definition tailscale_sees :: "tn_world \<Rightarrow> event list \<Rightarrow> dict \<Rightarrow> py \<Rightarrow> bool" where
  "tailscale_sees w h cfg status = (\<exists>ident b token d.
     pget2 status ''Self'' ''ID'' = Inr ident \<and> str_or ident \<noteq> []
     \<and> text_or cfg ''TAILSCALE_API_BASE'' ''https://api.tailscale.com/api/v2'' = Inr b
     \<and> str_or (dget cfg ''TAILSCALE_OAUTH_CLIENT_ID'') \<noteq> [] \<and> str_or (dget cfg ''TAILSCALE_OAUTH_CLIENT_SECRET'') \<noteq> []
     \<and> heard w h (token_request (rstrip_slash b) (str_or (dget cfg ''TAILSCALE_OAUTH_CLIENT_ID''))
         (str_or (dget cfg ''TAILSCALE_OAUTH_CLIENT_SECRET''))) 200 token \<and> has_token token
     \<and> heard w h (get_request (rstrip_slash b @ ''/device/'' @ url_quote (str_or ident) @ ''?fields=all'') (access_token token)) 200 (PDict d)
     \<and> truthy (dget d ''connectedToControl'') \<and> \<not> truthy (dget d ''blocksIncomingConnections''))"

text \<open>The Headscale server sees this node: asked with the stored key, the first node of its list that has
  the public key of the status is online.\<close>

definition headscale_sees :: "tn_world \<Rightarrow> event list \<Rightarrow> dict \<Rightarrow> py \<Rightarrow> bool" where
  "headscale_sees w h cfg status = (\<exists>pk url d others n rest.
     pget2 status ''Self'' ''PublicKey'' = Inr pk \<and> text_or cfg ''HEADSCALE_URL'' [] = Inr url
     \<and> heard w h (get_request (rstrip_slash url @ ''/api/v1/node'') (str_or (dget cfg ''HEADSCALE_API_KEY''))) 200 (PDict d)
     \<and> items_or (dget d ''nodes'') = Inr (map PDict others @ PDict n # rest)
     \<and> (\<forall>m \<in> set others. dget m ''nodeKey'' \<noteq> PStr (str_or pk)) \<and> dget n ''nodeKey'' = PStr (str_or pk)
     \<and> truthy (dget n ''online''))"

text \<open>The control server of the configured provider sees it. Without a peer to require, a Headscale server for
  which no API key is stored is not asked.\<close>

definition control_confirms :: "tn_world \<Rightarrow> event list \<Rightarrow> dict \<Rightarrow> tn_conf \<Rightarrow> py \<Rightarrow> bool" where
  "control_confirms w h cfg c status =
     (if tc_provider c \<noteq> ''headscale'' then tailscale_sees w h cfg status
      else if str_or (dget cfg ''HEADSCALE_API_KEY'') = [] then \<not> tc_require c
      else headscale_sees w h cfg status)"

definition peer_answers :: "tn_world \<Rightarrow> event list \<Rightarrow> peer list \<Rightarrow> bool" where
  "peer_answers w h peers = (\<exists>p \<in> set peers. \<exists>out. saw w h (ping_argv (hd (snd p))) 0 out)"

definition policy_lets_in :: "tn_world \<Rightarrow> event list \<Rightarrow> peer list \<Rightarrow> addr list \<Rightarrow> bool" where
  "policy_lets_in w h peers own = (\<exists>out doc v frs fr pairs src dst.
     saw w h [''tailscale'', ''debug'', ''netmap''] 0 out \<and> tw_loads w out = Inr doc
     \<and> subscript doc ''PacketFilterRules'' = Inr v \<and> items_or v = Inr frs \<and> fr \<in> set frs
     \<and> family_pairs peers own = Inr pairs \<and> (src, dst) \<in> set pairs \<and> allows_ssh fr src dst = Inr True)"

definition firewall_silent :: "tn_world \<Rightarrow> event list \<Rightarrow> addr list \<Rightarrow> bool" where
  "firewall_silent w h own = (\<forall>(tool, version) \<in> set TOOLS.
     let addrs = filter (\<lambda>a. ip_version a = version) own in
     addrs = [] \<or> (\<exists>out ts. saw w h [tool] 0 out \<and> parse_ruleset out = Inr ts \<and> walk_inbound ts addrs = Inr []))"

lemma ping_each_answers:
  "ping_each w ps h = (Inr (Some name), h') \<Longrightarrow> peer_answers w h' ps"
proof (induction ps arbitrary: h)
  case (Cons p ps)
  obtain n addrs where p: "p = (n, addrs)" by (cases p)
  from Cons.prems obtain code o1 o2 h1 where run: "tn_run w (ping_argv (hd addrs)) h = (Inr (code, o1, o2), h1)"
    and rest: "(if code = 0 then ret (Some n) else ping_each w ps) h1 = (Inr (Some name), h')"
    by (auto simp: p bindS_Inr_iff)
  show ?case
  proof (cases "code = 0")
    case True
    then show ?thesis using tn_run_saw [OF run] rest by (auto simp: p peer_answers_def ret_def)
  next
    case False
    then show ?thesis using Cons.IH rest by (auto simp: peer_answers_def)
  qed
qed (simp add: ret_def)

lemma ok_dict_Some: "ok_dict code v = Some d \<longleftrightarrow> code = 200 \<and> v = PDict d"
  by (auto simp: ok_dict_def split: py.splits)

lemma tailscale_control_confirms:
  assumes "tailscale_control w status cfg h = (Inr [], h')"
  shows "tailscale_sees w h' cfg status"
proof -
  from assms obtain ident b token code device h1 d where
    "pget2 status ''Self'' ''ID'' = Inr ident" "str_or ident \<noteq> []"
    "text_or cfg ''TAILSCALE_API_BASE'' ''https://api.tailscale.com/api/v2'' = Inr b"
    "str_or (dget cfg ''TAILSCALE_OAUTH_CLIENT_ID'') \<noteq> []" "str_or (dget cfg ''TAILSCALE_OAUTH_CLIENT_SECRET'') \<noteq> []"
    and q1: "tn_http w (token_request (rstrip_slash b) (str_or (dget cfg ''TAILSCALE_OAUTH_CLIENT_ID''))
         (str_or (dget cfg ''TAILSCALE_OAUTH_CLIENT_SECRET''))) h = (Inr (200, token), h1)" and "has_token token"
    and q: "tn_http w (get_request (rstrip_slash b @ ''/device/'' @ url_quote (str_or ident) @ ''?fields=all'') (access_token token)) h1
        = (Inr (code, device), h')" and d: "ok_dict code device = Some d" and r: "device_reasons d = []"
    unfolding tailscale_control_def Let_def
    by (auto simp: tn_iffs split: if_splits option.splits)
  moreover from r have "truthy (dget d ''connectedToControl'')" "\<not> truthy (dget d ''blocksIncomingConnections'')"
    by (auto simp: device_reasons_def split: if_splits)
  moreover have "heard w h' (token_request (rstrip_slash b) (str_or (dget cfg ''TAILSCALE_OAUTH_CLIENT_ID''))
         (str_or (dget cfg ''TAILSCALE_OAUTH_CLIENT_SECRET''))) 200 token"
    using tn_http_heard [OF q1] heard_later growsD [OF grows_tn_http q] by blast
  moreover have "heard w h' (get_request (rstrip_slash b @ ''/device/'' @ url_quote (str_or ident) @ ''?fields=all'') (access_token token)) 200 (PDict d)"
    using tn_http_heard [OF q, THEN conjunct2] d by (simp only: ok_dict_Some)
  ultimately show ?thesis unfolding tailscale_sees_def by blast
qed

lemma py_eq_PStr: "py_eq v (PStr s) \<longleftrightarrow> v = PStr s"
  by (cases v) (auto split: py.splits)

lemma find_node_first:
  "find_node key ns = Inr (Some n) \<Longrightarrow> \<exists>others rest. ns = map PDict others @ PDict n # rest
     \<and> (\<forall>m \<in> set others. dget m ''nodeKey'' \<noteq> PStr key) \<and> dget n ''nodeKey'' = PStr key"
proof (induction ns)
  case (Cons v ns)
  from Cons.prems obtain d where v: "v = PDict d" by (cases v) auto
  show ?case
  proof (cases "dget d ''nodeKey'' = PStr key")
    case True
    then have "d = n" using Cons.prems v by (auto simp: py_eq_PStr)
    then show ?thesis using True v by (intro exI [of _ "[]"] exI [of _ ns]) simp
  next
    case False
    then obtain others rest where "ns = map PDict others @ PDict n # rest"
      "\<forall>m \<in> set others. dget m ''nodeKey'' \<noteq> PStr key" "dget n ''nodeKey'' = PStr key"
      using Cons v by (auto simp: py_eq_PStr)
    then show ?thesis using v False by (intro exI [of _ "d # others"] exI [of _ rest]) simp
  qed
qed simp

lemma headscale_control_confirms:
  assumes "headscale_control w status cfg h = (Inr (Some []), h')"
  shows "headscale_sees w h' cfg status"
proof -
  from assms obtain q code body h1 d pk url ns n where pk: "pget2 status ''Self'' ''PublicKey'' = Inr pk"
    and url: "text_or cfg ''HEADSCALE_URL'' [] = Inr url"
    and q: "tn_http w (get_request (rstrip_slash url @ ''/api/v1/node'') (str_or (dget cfg ''HEADSCALE_API_KEY''))) h1 = (Inr (code, body), h')"
    and d: "ok_dict code body = Some d"
    and ns: "items_or (dget d ''nodes'') = Inr ns" "find_node (str_or pk) ns = Inr (Some n)" "truthy (dget n ''online'')"
    unfolding headscale_control_def Let_def
    by (auto simp: tn_iffs bindR_Inr_iff split: if_splits option.splits)
  from find_node_first [OF ns(2)] obtain others rest where "ns = map PDict others @ PDict n # rest"
    "\<forall>m \<in> set others. dget m ''nodeKey'' \<noteq> PStr (str_or pk)" "dget n ''nodeKey'' = PStr (str_or pk)" by blast
  moreover have "heard w h' (get_request (rstrip_slash url @ ''/api/v1/node'') (str_or (dget cfg ''HEADSCALE_API_KEY''))) 200 (PDict d)"
    using tn_http_heard [OF q, THEN conjunct2] d by (simp only: ok_dict_Some)
  ultimately show ?thesis using pk url ns unfolding headscale_sees_def by blast
qed

lemma headscale_not_asked:
  assumes "headscale_control w status cfg h = (Inr r, h')" and "str_or (dget cfg ''HEADSCALE_API_KEY'') \<noteq> []"
  shows "\<exists>whys. r = Some whys"
proof -
  from assms obtain url h1 code body where
    "(case ok_dict code body of
        Some d \<Rightarrow> bindS (liftF (bindR (items_or (dget d ''nodes'')) (find_node url))) (\<lambda>node. ret (Some (case node of
            None \<Rightarrow> [''the Headscale server has no node with this server's key'']
          | Some n \<Rightarrow> if truthy (dget n ''online'') then [] else [''the Headscale server does not see this server online''])))
      | None \<Rightarrow> ret (Some [''the Headscale server did not list its nodes (HTTP '' @ dec_int code @ '')''])) h1 = (Inr r, h')"
    unfolding headscale_control_def Let_def by (simp only: if_False bindS_Inr_iff prod.case split_paired_Ex) blast
  then show ?thesis by (cases "ok_dict code body") (auto simp only: option.case tn_iffs)
qed

lemma headscale_keyless:
  assumes "headscale_control w status cfg h = (Inr r, h')" and "str_or (dget cfg ''HEADSCALE_API_KEY'') = []"
  shows "r = None"
  using assms by (auto simp: headscale_control_def Let_def tn_iffs)

lemma control_reasons_confirm:
  assumes "control_reasons w cfg c status h = (Inr ([], notes), h')"
  shows "control_confirms w h' cfg c status"
proof (cases "tc_provider c = ''headscale''")
  case True
  from assms obtain r where r: "headscale_control w status cfg h = (Inr r, h')" "r = Some [] \<or> r = None \<and> \<not> tc_require c"
    by (auto simp: control_reasons_def True tn_iffs split: option.splits if_splits)
  then show ?thesis
    using headscale_control_confirms headscale_not_asked [OF r(1)] headscale_keyless [OF r(1)] True
    by (cases "str_or (dget cfg ''HEADSCALE_API_KEY'') = []") (auto simp: control_confirms_def)
next
  case False
  from assms have "tailscale_control w status cfg h = (Inr [], h')"
    by (auto simp: control_reasons_def False tn_iffs)
  then show ?thesis using tailscale_control_confirms False by (auto simp: control_confirms_def)
qed

lemma policy_reasons_lets_in:
  assumes "policy_reasons w status peers tags h = (Inr [], h')"
  shows "\<exists>own. own_addrs status = Inr own \<and> policy_lets_in w h' peers own"
proof -
  from assms obtain own pairs code out err h1 where
    own: "own_addrs status = Inr own" and pairs: "family_pairs peers own = Inr pairs"
    and run: "tn_run w [''tailscale'', ''debug'', ''netmap''] h = (Inr (code, out, err), h1)"
    and ok: "code = 0" "read_policy w out pairs = Inr None" and h1: "h' = h1"
    unfolding policy_reasons_def
    by (auto simp: tn_iffs split: if_splits sum.splits option.splits)
  from ok(2) obtain doc v frs where "tw_loads w out = Inr doc" "subscript doc ''PacketFilterRules'' = Inr v"
    "items_or v = Inr frs" "anyR (\<lambda>fr. anyR (\<lambda>(src, dst). allows_ssh fr src dst) pairs) frs = Inr True"
    by (auto simp: read_policy_def bindR_Inr_iff split: sum.splits if_splits)
  moreover from this(4) obtain fr src dst where "fr \<in> set frs" "(src, dst) \<in> set pairs" "allows_ssh fr src dst = Inr True"
    by (auto dest!: anyR_True)
  ultimately show ?thesis
    using own pairs tn_run_saw [OF run] ok(1) h1 unfolding policy_lets_in_def by blast
qed

lemma all_reasons_Nil:
  assumes "\<And>x. grows (f x)" and "all_reasons f xs h = (Inr [], h')" and "x \<in> set xs"
  shows "\<exists>h1 h2. f x h1 = (Inr [], h2) \<and> prefix h2 h'"
  using assms(2,3)
proof (induction xs arbitrary: h)
  case (Cons y ys)
  then obtain h1 where y: "f y h = (Inr [], h1)" and ys: "all_reasons f ys h1 = (Inr [], h')"
    by (auto simp: tn_iffs)
  then show ?case
    using Cons grows_all_reasons [OF assms(1), THEN growsD, OF ys] by auto
qed simp

lemma run_or_os_error_run: "run_or_os_error w argv h = (Inr (Inr r), h') \<Longrightarrow> tn_run w argv h = (Inr r, h')"
  unfolding run_or_os_error_def catchS_Inr_iff
proof (elim disjE exE conjE)
  fix e s1 k
  assume "(case e of Os_Raised t \<Rightarrow> Some (ret (Inl t)) | _ \<Rightarrow> None) = Some k" "k s1 = (Inr (Inr r), h')"
  then show ?thesis by (cases e) (auto simp: ret_def)
qed (auto simp: tn_iffs)

lemma tool_reasons_silent:
  assumes "tool_reasons w own (tool, version) h = (Inr [], h')" and "filter (\<lambda>a. ip_version a = version) own \<noteq> []"
  shows "\<exists>out ts. saw w h' [tool] 0 out \<and> parse_ruleset out = Inr ts \<and> walk_inbound ts (filter (\<lambda>a. ip_version a = version) own) = Inr []"
proof -
  from assms obtain r h1 where run: "run_or_os_error w [tool] h = (Inr r, h1)" and
    rest: "(case r of Inl e \<Rightarrow> ret [''could not read this server's firewall ('' @ tool @ '': '' @ e @ '')'']
       | Inr (code, out, _) \<Rightarrow>
           if code \<noteq> 0 then ret [''could not read this server's firewall ('' @ tool @ '' exited '' @ dec_int code @ '')'']
           else liftF (bindR (parse_ruleset out) (\<lambda>ts. bindR (walk_inbound ts (filter (\<lambda>a. ip_version a = version) own)) (\<lambda>whys.
             Inr (map (\<lambda>why. ''this server's firewall drops SSH arriving over the tailnet ('' @ tool @ '', '' @ why @ '')'') whys))))) h1 = (Inr [], h')"
    unfolding tool_reasons_def Let_def prod.case by (simp only: if_False bindS_Inr_iff) blast
  from rest obtain code out err where r: "r = Inr (code, out, err)" by (cases r) (auto simp: ret_def)
  with rest have "code = 0" "h' = h1" and "\<exists>ts. parse_ruleset out = Inr ts \<and> walk_inbound ts (filter (\<lambda>a. ip_version a = version) own) = Inr []"
    by (auto simp: ret_def bindR_Inr_iff split: if_splits)
  then show ?thesis using tn_run_saw [OF run_or_os_error_run [OF run [unfolded r]]] by auto
qed

lemma firewall_reasons_silent:
  assumes "firewall_reasons w status h = (Inr [], h')"
  shows "\<exists>own. own_addrs status = Inr own \<and> own \<noteq> [] \<and> firewall_silent w h' own"
proof -
  from assms obtain own where own: "own_addrs status = Inr own" "own \<noteq> []"
    and all: "all_reasons (tool_reasons w own) TOOLS h = (Inr [], h')"
    unfolding firewall_reasons_def by (auto simp: tn_iffs split: if_splits)
  have "\<exists>out ts. saw w h' [tool] 0 out \<and> parse_ruleset out = Inr ts \<and> walk_inbound ts (filter (\<lambda>a. ip_version a = version) own) = Inr []"
    if "(tool, version) \<in> set TOOLS" "filter (\<lambda>a. ip_version a = version) own \<noteq> []" for tool version
  proof -
    from all_reasons_Nil [OF grows_tool all that(1)] obtain h1 h2 where
      "tool_reasons w own (tool, version) h1 = (Inr [], h2)" "prefix h2 h'" by blast
    then show ?thesis using tool_reasons_silent that(2) saw_later by blast
  qed
  then show ?thesis using own unfolding firewall_silent_def Let_def by blast
qed

section \<open>The attempts\<close>

lemma status_or_reason_seen:
  assumes "status_or_reason w h = (Inr (Inr status), h')"
  shows "status_seen w h' status"
proof -
  from assms have "local_status w h = (Inr status, h')"
    unfolding status_or_reason_def catchS_Inr_iff
  proof (elim disjE exE conjE)
    fix e s1 k
    assume "(case e of Runtime_Raised t \<Rightarrow> Some (ret (Inl t)) | Bad_Json t \<Rightarrow> Some (ret (Inl t)) | _ \<Rightarrow> None) = Some k"
      "k s1 = (Inr (Inr status), h')"
    then show ?thesis by (cases e) (auto simp: ret_def)
  qed (auto simp: tn_iffs)
  then obtain code out err h1 where run: "tn_run w [''tailscale'', ''status'', ''--json''] h = (Inr (code, out, err), h1)"
    and "code = 0" "tw_loads w out = Inr status" "h' = h1"
    unfolding local_status_def by (auto simp: tn_iffs split: if_splits sum.splits)
  then show ?thesis using tn_run_saw [OF run] unfolding status_seen_def by blast
qed

text \<open>An attempt that ended without a reason.\<close>

definition attempt_grounded :: "tn_world \<Rightarrow> event list \<Rightarrow> dict \<Rightarrow> tn_conf \<Rightarrow> attempt \<Rightarrow> bool" where
  "attempt_grounded w h cfg c a = (status_seen w h (at_status a) \<and> pget (at_status a) ''BackendState'' = Inr (PStr ''Running'')
     \<and> control_confirms w h cfg c (at_status a)
     \<and> (tc_require c \<longrightarrow> eligible_peers (at_status a) (tc_tags c) = Inr (at_peers a) \<and> peer_answers w h (at_peers a)))"

lemma peer_step_grounded:
  assumes "peer_step w c status notes h = (Inr a, h')" and "at_reasons a = []"
  shows "at_status a = status \<and> eligible_peers status (tc_tags c) = Inr (at_peers a) \<and> peer_answers w h' (at_peers a)"
proof -
  from assms obtain peers name where "eligible_peers status (tc_tags c) = Inr peers"
    "ping_a_peer w peers h = (Inr (Some name), h')" "at_status a = status" "at_peers a = peers"
    unfolding peer_step_def by (auto simp: tn_iffs split: if_splits option.splits)
  moreover from this(2) have "peer_answers w h' (take MAX_PEERS peers)"
    unfolding ping_a_peer_def by (rule ping_each_answers)
  ultimately show ?thesis by (auto simp: peer_answers_def dest: in_set_takeD)
qed

lemma control_later:
  assumes "control_confirms w h cfg c st" and "prefix h h'"
  shows "control_confirms w h' cfg c st"
proof -
  have "tailscale_sees w h cfg st \<Longrightarrow> tailscale_sees w h' cfg st" "headscale_sees w h cfg st \<Longrightarrow> headscale_sees w h' cfg st"
    unfolding tailscale_sees_def headscale_sees_def using heard_later [OF _ assms(2)] by blast+
  then show ?thesis using assms(1) by (auto simp: control_confirms_def split: if_splits)
qed

lemma seen_later: "status_seen w h st \<Longrightarrow> prefix h h' \<Longrightarrow> status_seen w h' st"
  unfolding status_seen_def by (blast intro: saw_later)

lemma answers_later: "peer_answers w h ps \<Longrightarrow> prefix h h' \<Longrightarrow> peer_answers w h' ps"
  unfolding peer_answers_def by (blast intro: saw_later)

lemma attempt_later: "attempt_grounded w h cfg c a \<Longrightarrow> prefix h h' \<Longrightarrow> attempt_grounded w h' cfg c a"
  unfolding attempt_grounded_def using control_later seen_later answers_later by blast

lemma one_attempt_grounded:
  assumes "one_attempt w cfg c h = (Inr a, h')" and "at_reasons a = []"
  shows "attempt_grounded w h' cfg c a"
proof -
  from assms(1) obtain r h1 where r: "status_or_reason w h = (Inr r, h1)"
    and rest: "(case r of Inl e \<Rightarrow> ret \<lparr>at_reasons = [e], at_notes = [], at_status = PNone, at_peers = []\<rparr>
      | Inr status \<Rightarrow> attempt_with w cfg c status) h1 = (Inr a, h')"
    unfolding one_attempt_def bindS_Inr_iff by blast
  from rest assms(2) obtain status where st: "r = Inr status" "attempt_with w cfg c status h1 = (Inr a, h')"
    by (cases r) (auto simp: ret_def)
  from st(2) assms(2) obtain st remarks h2 where running: "pget status ''BackendState'' = Inr st" "py_eq st (PStr ''Running'')"
    and control: "control_reasons w cfg c status h1 = (Inr ([], remarks), h2)"
    and peers: "(if tc_require c then peer_step w c status remarks
        else ret \<lparr>at_reasons = [], at_notes = remarks, at_status = status, at_peers = []\<rparr>) h2 = (Inr a, h')"
    unfolding attempt_with_def by (auto simp: tn_iffs split: if_splits)
  have pre: "prefix h1 h2" "prefix h2 h'"
    using growsD [OF grows_control control] growsD [OF grows_cases(1) [OF grows_peer_step grows_ret] peers] .
  have "st = PStr ''Running''" using running(2) by (simp add: py_eq_PStr)
  moreover have "status_seen w h' status"
    using status_or_reason_seen [OF r [unfolded st(1)]] seen_later prefix_order.trans [OF pre] by blast
  moreover have "control_confirms w h' cfg c status" using control_reasons_confirm [OF control] control_later pre(2) by blast
  moreover have "at_status a = status \<and> (tc_require c \<longrightarrow> eligible_peers status (tc_tags c) = Inr (at_peers a) \<and> peer_answers w h' (at_peers a))"
    using peers peer_step_grounded [OF _ assms(2)] by (cases "tc_require c") (auto simp: ret_def)
  ultimately show ?thesis using running(1) by (simp add: attempt_grounded_def)
qed

lemma attempts_grounded:
  "attempts n first w cfg c a0 h = (Inr a, h') \<Longrightarrow> at_reasons a = [] \<Longrightarrow> n \<noteq> 0 \<or> at_reasons a0 \<noteq> [] \<Longrightarrow>
     attempt_grounded w h' cfg c a"
proof (induction n arbitrary: first a0 h)
  case (Suc n)
  then obtain a1 h1 h2 where one: "one_attempt w cfg c h1 = (Inr a1, h2)"
    and rest: "(if at_reasons a1 = [] then ret a1 else attempts n False w cfg c a1) h2 = (Inr a, h')"
    by (auto simp: thenS_Inr_iff bindS_Inr_iff)
  show ?case
  proof (cases "at_reasons a1 = []")
    case True
    then show ?thesis using rest one_attempt_grounded [OF one] Suc.prems by (auto simp: ret_def)
  next
    case False
    then show ?thesis using rest Suc by auto
  qed
qed (auto simp: ret_def)

text \<open>C11: A positive verdict is never a guess. In the run that gave it the server's own status was read and said
  Running, and the control server of the configured provider confirmed that very node: Tailscale's record of the
  device with its node id is connected and takes connections, or the first of Headscale's nodes with its public
  key is online. The one exception is a Headscale server without a stored API key, which is not asked; then no peer was
  required. When a peer is required, moreover, an online peer outside this host's tags answered a ping through
  the tunnel, the packet filter the control server sent lets such a peer open TCP 22 to one of this host's
  addresses of the same family, and the firewall walk of each address family the host has was silent.\<close>

theorem reachable_verdict_grounded:
  assumes "tn_check w cfg [] = (Inr v, h)" and "tv_ok v" and "tn_conf_of cfg = Inr c"
  shows "\<exists>a. attempt_grounded w h cfg c a
    \<and> (tc_require c \<longrightarrow> (\<exists>own. own_addrs (at_status a) = Inr own \<and> own \<noteq> []
        \<and> policy_lets_in w h (at_peers a) own \<and> firewall_silent w h own))"
proof -
  from assms(1,3) obtain a h1 rs where a: "attempts ATTEMPTS True w cfg c no_attempt [] = (Inr a, h1)"
    and rs: "(if tc_require c \<and> at_reasons a = [] then
              bindS (policy_reasons w (at_status a) (at_peers a) (tc_tags c)) (\<lambda>p.
              bindS (firewall_reasons w (at_status a)) (\<lambda>f. ret (p @ f)))
            else ret (at_reasons a)) h1 = (Inr rs, h)" and v: "tv_ok v = (rs = [])"
    unfolding tn_check_def by (auto simp: tn_iffs)
  have "rs = []" using v assms(2) by simp
  have ok: "at_reasons a = []" using rs \<open>rs = []\<close> by (auto simp: ret_def split: if_splits)
  have g: "attempt_grounded w h1 cfg c a" using attempts_grounded [OF a ok] by (simp add: ATTEMPTS_def)
  show ?thesis
  proof (cases "tc_require c")
    case False
    then show ?thesis using g rs by (auto simp: ret_def)
  next
    case True
    with rs ok \<open>rs = []\<close> obtain h2 where p: "policy_reasons w (at_status a) (at_peers a) (tc_tags c) h1 = (Inr [], h2)"
      and f: "firewall_reasons w (at_status a) h2 = (Inr [], h)"
      by (auto simp: tn_iffs)
    have pre: "prefix h1 h2" "prefix h2 h" using growsD [OF grows_policy p] growsD [OF grows_firewall f] .
    have "attempt_grounded w h cfg c a" using g prefix_order.trans [OF pre] attempt_later by blast
    moreover obtain own where "own_addrs (at_status a) = Inr own" "policy_lets_in w h2 (at_peers a) own"
      using policy_reasons_lets_in [OF p] by blast
    moreover from this(2) have "policy_lets_in w h (at_peers a) own"
      unfolding policy_lets_in_def using saw_later [OF _ pre(2)] by blast
    ultimately show ?thesis using firewall_reasons_silent [OF f] by auto
  qed
qed

definition demo_status :: py where
  "demo_status = PDict [(''BackendState'', PStr ''Running''),
     (''Self'', PDict [(''ID'', PStr ''n1''), (''TailscaleIPs'', PList [PStr ''100.64.0.1''])]),
     (''Peer'', PDict [(''k'', PDict [(''Online'', PBool True), (''HostName'', PStr ''laptop''), (''TailscaleIPs'', PList [PStr ''100.64.0.9''])])])]"

definition demo_netmap :: py where
  "demo_netmap = PDict [(''PacketFilterRules'', PList [PDict [(''SrcIPs'', PList [PStr ''100.64.0.0/10'']),
     (''DstPorts'', PList [PDict [(''IP'', PStr ''*''), (''Ports'', PDict [(''First'', PInt 22), (''Last'', PInt 22)])]])]])]"

definition demo_tailnet :: tn_world where
  "demo_tailnet = \<lparr>
     tw_run = (\<lambda>h argv. if argv = [''iptables-save''] then Exited 0 (''*filter'' @ nl @ '':INPUT DROP [0:0]'' @ nl @ ''-A INPUT -i tailscale0 -j ACCEPT'') []
       else Exited 0 (if argv ! 1 = ''status'' then ''S'' else if argv ! 1 = ''debug'' then ''N'' else []) []),
     tw_net = (\<lambda>h q. Replied 200 (if hq_method q = ''POST'' then ''T'' else ''D'')),
     tw_loads = (\<lambda>s. if s = ''S'' then Inr demo_status else if s = ''N'' then Inr demo_netmap
       else if s = ''T'' then Inr (PDict [(''access_token'', PStr ''t'')])
       else if s = ''D'' then Inr (PDict [(''connectedToControl'', PBool True)]) else Inl ''bad''),
     tw_text = (\<lambda>e. [])\<rparr>"

definition demo_cfg :: dict where
  "demo_cfg = [(''TAILNET_REQUIRE_PEER'', PStr ''1''), (''TAILNET_OWN_TAGS'', PStr ''tag:vps''),
     (''TAILSCALE_OAUTH_CLIENT_ID'', PStr ''id''), (''TAILSCALE_OAUTH_CLIENT_SECRET'', PStr ''s'')]"

definition ok_run :: "tn_world \<Rightarrow> dict \<Rightarrow> bool" where
  "ok_run w cfg = (case fst (tn_check w cfg []) of Inr v \<Rightarrow> tv_ok v | Inl e \<Rightarrow> False)"

lemma demo_run: "ok_run demo_tailnet demo_cfg" by code_simp

theorem reachable_verdict_grounded_witness:
  "\<exists>h c (a :: attempt) own. tn_conf_of demo_cfg = Inr c \<and> tc_require c \<and> tailscale_sees demo_tailnet h demo_cfg (at_status a) \<and> peer_answers demo_tailnet h (at_peers a)
    \<and> own_addrs (at_status a) = Inr own \<and> own \<noteq> []
    \<and> policy_lets_in demo_tailnet h (at_peers a) own \<and> firewall_silent demo_tailnet h own"
proof -
  obtain v h where v: "tn_check demo_tailnet demo_cfg [] = (Inr v, h)" "tv_ok v"
    using demo_run unfolding ok_run_def by (cases "tn_check demo_tailnet demo_cfg []") (auto split: sum.splits)
  have "\<exists>c. tn_conf_of demo_cfg = Inr c \<and> tc_require c \<and> tc_provider c \<noteq> ''headscale''"
    by (simp add: tn_conf_of_def text_or_def demo_cfg_def dget_def bindR_def) code_simp
  then obtain c where c: "tn_conf_of demo_cfg = Inr c" "tc_require c" "tc_provider c \<noteq> ''headscale''" by blast
  from reachable_verdict_grounded [OF v c(1)] obtain a own where a: "attempt_grounded demo_tailnet h demo_cfg c a"
    and own: "own_addrs (at_status a) = Inr own" "own \<noteq> []" "policy_lets_in demo_tailnet h (at_peers a) own" "firewall_silent demo_tailnet h own"
    using c(2) by blast
  from a c have "tailscale_sees demo_tailnet h demo_cfg (at_status a)" "peer_answers demo_tailnet h (at_peers a)"
    by (simp_all add: attempt_grounded_def control_confirms_def)
  with own c show ?thesis by blast
qed

section \<open>The waits\<close>

definition waits :: "event list \<Rightarrow> nat" where
  "waits h = length (filter (\<lambda>e. e = Slept) h)"

lemma keeps_waits_basic [keeps_intros]:
  "e \<noteq> Slept \<Longrightarrow> keeps waits (note_event e)" "keeps waits (liftF r)"
  by (auto simp: note_event_def waits_def liftF_def intro!: keeps_modS keeps_intros split: sum.split)

lemma keeps_cases [keeps_intros]:
  "(\<And>x y. keeps obs (f x y)) \<Longrightarrow> keeps obs (case p of (x, y) \<Rightarrow> f x y)"
  "keeps obs m \<Longrightarrow> (\<And>x. keeps obs (g x)) \<Longrightarrow> keeps obs (case r of None \<Rightarrow> m | Some x \<Rightarrow> g x)"
  "(\<And>e. keeps obs (i e)) \<Longrightarrow> (\<And>x. keeps obs (j x)) \<Longrightarrow> keeps obs (case t of Inl e \<Rightarrow> i e | Inr x \<Rightarrow> j x)"
  by (auto split: prod.split option.split sum.split)

lemma keeps_waits_run [keeps_intros]: "keeps waits (tn_run w argv)"
  unfolding tn_run_def by (intro keeps_intros) (auto intro: keeps_intros split: ran.split)

lemma keeps_waits_http [keeps_intros]: "keeps waits (tn_http w q)"
  unfolding tn_http_def by (intro keeps_intros) simp

lemma keeps_waits_ping [keeps_intros]: "keeps waits (ping_each w ps)"
  by (induction ps) (auto intro!: keeps_intros)

lemma keeps_waits_status [keeps_intros]: "keeps waits (status_or_reason w)"
  unfolding status_or_reason_def local_status_def
  by (intro keeps_intros) (auto intro: keeps_intros split: tn_error.splits)

lemma keeps_waits_attempt [keeps_intros]: "keeps waits (one_attempt w cfg c)"
  unfolding one_attempt_def attempt_with_def control_reasons_def headscale_control_def tailscale_control_def
    peer_step_def ping_a_peer_def Let_def
  by (intro keeps_intros)

lemma keeps_waits_tool [keeps_intros]: "keeps waits (tool_reasons w own tv)"
  unfolding tool_reasons_def run_or_os_error_def Let_def
  by (intro keeps_intros) (auto intro: keeps_intros split: tn_error.splits)

lemma keeps_waits_all [keeps_intros]: "(\<And>x. keeps waits (f x)) \<Longrightarrow> keeps waits (all_reasons f xs)"
  by (induction xs) (auto intro!: keeps_intros)

lemma keeps_waits_policy [keeps_intros]: "keeps waits (policy_reasons w status peers tags)"
  unfolding policy_reasons_def by (intro keeps_intros)

lemma keeps_waits_firewall [keeps_intros]: "keeps waits (firewall_reasons w status)"
  unfolding firewall_reasons_def by (intro keeps_intros)

lemma keepsD: "keeps obs m \<Longrightarrow> m s = (r, s') \<Longrightarrow> obs s' = obs s"
  by (metis keeps_def snd_conv)

lemma bindS_cases:
  assumes "bindS m f s = (r, s')"
  obtains e where "m s = (Inl e, s')" "r = Inl e" | x s1 where "m s = (Inr x, s1)" "f x s1 = (r, s')"
  using assms by (cases "m s"; cases "fst (m s)") (auto simp: bindS_def)

lemma attempts_waits:
  "attempts n first w cfg c a h = (r, h') \<Longrightarrow> waits h' \<le> waits h + (if first then n - 1 else n)"
proof (induction n arbitrary: first a h r)
  case (Suc n)
  let ?h = "if first then h else h @ [Slept]"
  from Suc.prems have "bindS (one_attempt w cfg c) (\<lambda>a. if at_reasons a = [] then ret a else attempts n False w cfg c a) ?h = (r, h')"
    by (auto simp: thenS_def whenS_def note_event_def modS_def bindS_def ret_def split: if_splits)
  then consider r' where "one_attempt w cfg c ?h = (r', h')"
    | a1 h1 where "one_attempt w cfg c ?h = (Inr a1, h1)" "(if at_reasons a1 = [] then ret a1 else attempts n False w cfg c a1) h1 = (r, h')"
    by (elim bindS_cases) blast+
  then show ?case
  proof cases
    case (1 r')
    then show ?thesis using keepsD [OF keeps_waits_attempt] by (fastforce simp: waits_def)
  next
    case (2 a1 h1)
    then have "waits h1 = waits ?h" using keepsD [OF keeps_waits_attempt] by blast
    moreover have "waits h' \<le> waits h1 + n" using 2(2) Suc.IH by (fastforce simp: ret_def split: if_splits)
    ultimately show ?thesis by (auto simp: waits_def)
  qed
qed (auto simp: ret_def)

text \<open>C17: The check always ends, and waits at most six times, between its seven attempts: whatever
  the commands and the servers answer, and whether it ends in a verdict or an exception, the run
  holds no more than six waits of ten seconds.\<close>

theorem check_waits_bounded: "waits (snd (tn_check w cfg [])) \<le> 6"
proof -
  obtain r h where run: "tn_check w cfg [] = (r, h)" by (cases "tn_check w cfg []")
  show ?thesis
  proof (cases "tn_conf_of cfg")
    case (Inl e)
    then show ?thesis by (simp add: tn_check_def bindS_def liftF_def raise_def waits_def)
  next
    case (Inr c)
    let ?rest = "\<lambda>a. bindS (if tc_require c \<and> at_reasons a = [] then
              bindS (policy_reasons w (at_status a) (at_peers a) (tc_tags c)) (\<lambda>p.
              bindS (firewall_reasons w (at_status a)) (\<lambda>f. ret (p @ f)))
            else ret (at_reasons a)) (\<lambda>reasons.
       ret \<lparr>tv_ok = (reasons = []), tv_reasons = reasons,
         tv_summary = (if reasons = [] then ''the tailnet confirms this server is reachable''
             @ (if at_notes a = [] then [] else '': '' @ join ''; '' (at_notes a))
           else join ''; '' reasons)\<rparr>)"
    have k: "keeps waits (?rest a)" for a by (intro keeps_intros)
    have "bindS (attempts ATTEMPTS True w cfg c no_attempt) ?rest [] = (r, h)"
      using run Inr by (simp add: tn_check_def liftF_def bindS_ret)
    then have "waits h \<le> waits [] + (ATTEMPTS - 1)"
    proof (cases rule: bindS_cases)
      case (1 e)
      then show ?thesis using attempts_waits [OF 1(1)] by simp
    next
      case (2 a h1)
      then show ?thesis using attempts_waits [OF 2(1)] keepsD [OF k 2(2)] by simp
    qed
    then show ?thesis by (simp add: run waits_def ATTEMPTS_def)
  qed
qed

end
