(* ===== verification/Tailnet_Creds.thy ===== *)
theory Tailnet_Creds
  imports Tailnet_Sound
begin

text \<open>
  The check of tailnet credentials before the panel stores them:
  \<open>src/ansible/scripts/catena-tailnet-check.py\<close>. The requests are those of \<open>Tailnet_Reach\<close>;
  the JSON writer is the argument \<open>dumps\<close>.
\<close>

section \<open>Definitions\<close>

definition TAILSCALE_API :: string where "TAILSCALE_API = ''https://api.tailscale.com/api/v2''"

definition HEADSCALE_MIN_VERSION :: "nat \<times> nat" where "HEADSCALE_MIN_VERSION = (0, 29)"

definition tags_of :: "dict \<Rightarrow> string list" where
  "tags_of req = filter (\<lambda>t. t \<noteq> []) (map strip (split_char (CHR '','') (str_or (dget req ''TAILSCALE_TAGS''))))"

definition key_request :: "(py \<Rightarrow> string) \<Rightarrow> string \<Rightarrow> string list \<Rightarrow> hreq" where
  "key_request dumps bearer tags =
     \<lparr>hq_method = ''POST'', hq_url = TAILSCALE_API @ ''/tailnet/-/keys'',
      hq_headers = [(''Authorization'', ''Bearer '' @ bearer), (''Content-Type'', ''application/json'')],
      hq_body = Some (dumps (PDict [(''capabilities'', PDict [(''devices'', PDict [(''create'', PDict [
        (''reusable'', PBool False), (''ephemeral'', PBool True), (''preauthorized'', PBool True),
        (''tags'', PList (map PStr tags))])])]), (''expirySeconds'', PInt 60)]))\<rparr>"

definition refused :: "int \<Rightarrow> string" where "refused code = '' (HTTP '' @ dec_int code @ '')''"

definition check_tailscale :: "tn_world \<Rightarrow> (py \<Rightarrow> string) \<Rightarrow> dict \<Rightarrow> string tn" where
  "check_tailscale w dumps req =
     (let client_id = strip_or (dget req ''tailscale_oauth_client_id'');
          secret = strip_or (dget req ''tailscale_oauth_client_secret'') in
      if client_id = [] \<or> secret = [] then ret ''the Tailscale OAuth client ID and secret are both required''
      else if tags_of req = [] then
        ret ''the private network tags are empty; the server joins under them, for example tag:vps''
      else bindS (tn_http w (token_request TAILSCALE_API client_id secret)) (\<lambda>(code, token).
        if code \<noteq> 200 \<or> \<not> has_token token
        then ret (''Tailscale refused the OAuth client'' @ refused code @ ''; check the client ID and secret'')
        else bindS (tn_http w (key_request dumps (access_token token) (tags_of req))) (\<lambda>(code, _).
          if code \<noteq> 200 then ret (''the OAuth client cannot create keys tagged '' @ join '', '' (tags_of req) @ refused code
            @ '': give it the Auth Keys write scope and those tags, and declare the tags in the tailnet policy'')
          else bindS (tn_http w (get_request (TAILSCALE_API @ ''/tailnet/-/devices'') (access_token token))) (\<lambda>(code, _).
            ret (if code \<noteq> 200 then ''the OAuth client cannot read devices'' @ refused code
              @ '': the Lockdown asks Tailscale whether this server is connected before it closes public SSH, which needs the Devices > Core read scope''
              else [])))))"

text \<open>\<open>_VERSION.match\<close>: the first two of the three numbers.\<close>

definition version_numbers :: "string \<Rightarrow> (nat \<times> nat) option" where
  "version_numbers s =
     Option.bind (scan_num (opt_char (CHR ''v'') s)) (\<lambda>(a, r).
     Option.bind (scan_char (CHR ''.'') r) (\<lambda>r. Option.bind (scan_num r) (\<lambda>(b, r).
     Option.bind (scan_char (CHR ''.'') r) (\<lambda>r. Option.bind (scan_num r) (\<lambda>(c, r). Some (a, b))))))"

definition old_version :: "nat \<times> nat \<Rightarrow> bool" where
  "old_version v = (fst v < fst HEADSCALE_MIN_VERSION
     \<or> fst v = fst HEADSCALE_MIN_VERSION \<and> snd v < snd HEADSCALE_MIN_VERSION)"

definition version_of :: "py \<Rightarrow> string" where
  "version_of body = (case body of PDict d \<Rightarrow> str_or (dget d ''version'') | _ \<Rightarrow> [])"

definition plain_get :: "string \<Rightarrow> hreq" where
  "plain_get url = \<lparr>hq_method = ''GET'', hq_url = url, hq_headers = [], hq_body = None\<rparr>"

definition headscale_version_reason :: "tn_world \<Rightarrow> string \<Rightarrow> string tn" where
  "headscale_version_reason w url =
     bindS (tn_http w (plain_get (url @ ''/version''))) (\<lambda>(code, body). ret (
       if code = 0 then ''the Headscale server at '' @ url @ '' does not answer''
       else if code \<noteq> 200 \<or> version_of body = [] then
         ''the Headscale server at '' @ url @ '' does not report its version (GET /version answered HTTP '' @ dec_int code
         @ ''); Headscale 0.29 or later is required''
       else case version_numbers (version_of body) of
           None \<Rightarrow> ''the Headscale server at '' @ url @ '' reports version '' @ repr_str (version_of body)
             @ '', which is not a release number; Headscale 0.29 or later is required''
         | Some v \<Rightarrow> if old_version v then ''the Headscale server at '' @ url @ '' runs '' @ version_of body
             @ ''; Headscale 0.29 or later is required'' else []))"

definition user_name :: "py \<Rightarrow> string flt" where
  "user_name u = bindR (pget u ''name'') (\<lambda>n. Inr (str_or n))"

definition users_reason :: "string \<Rightarrow> string \<Rightarrow> int \<Rightarrow> py \<Rightarrow> string flt" where
  "users_reason url user code body =
     (if code = 0 then Inr (''the Headscale server at '' @ url @ '' does not answer'')
      else case ok_dict code body of
          None \<Rightarrow> Inr (''the Headscale server refused the API key'' @ refused code)
        | Some d \<Rightarrow> bindR (items_or (dget d ''users'')) (\<lambda>us. bindR (mapR user_name us) (\<lambda>names.
            Inr (if user \<in> set names then [] else ''the Headscale server has no user named '' @ user))))"

definition check_headscale :: "tn_world \<Rightarrow> dict \<Rightarrow> string tn" where
  "check_headscale w req =
     (let url = rstrip_slash (strip_or (dget req ''TAILNET_CONTROL_URL''));
          api_key = strip_or (dget req ''headscale_api_key''); preauth = strip_or (dget req ''headscale_preauth_key'');
          user = strip_or (dget req ''HEADSCALE_USER'') in
      if url_scheme url \<notin> {''http'', ''https''} then ret ''the Headscale server address must start with http:// or https://''
      else if api_key = [] \<and> preauth = [] then ret ''a Headscale API key or pre-authentication key is required''
      else if api_key \<noteq> [] \<and> user = [] then ret ''the Headscale user is required: the server's key is minted for that user''
      else bindS (headscale_version_reason w url) (\<lambda>reason.
        if reason \<noteq> [] \<or> api_key = [] then ret reason
        else bindS (tn_http w (get_request (url @ ''/api/v1/user'') api_key)) (\<lambda>(code, body).
          liftF (users_reason url user code body))))"

definition creds_check :: "tn_world \<Rightarrow> (py \<Rightarrow> string) \<Rightarrow> dict \<Rightarrow> string tn" where
  "creds_check w dumps req =
     (let provider = lower (strip_or (dget req ''TAILNET_PROVIDER'')) in
      if provider = ''tailscale'' then check_tailscale w dumps req
      else if provider = ''headscale'' then check_headscale w req
      else ret (''unknown tailnet provider '' @ repr_str provider))"

text \<open>The printed result and the exit code: valid when there is no reason.\<close>

definition creds_main :: "tn_world \<Rightarrow> (py \<Rightarrow> string) \<Rightarrow> string \<Rightarrow> (bool \<times> string \<times> int) tn" where
  "creds_main w dumps stdin = (case tw_loads w (if stdin = [] then [CHR 0x7B, CHR 0x7D] else stdin) of
      Inr (PDict req) \<Rightarrow> bindS (creds_check w dumps req) (\<lambda>reason.
        ret (reason = [], reason, if reason = [] then 0 else 1))
    | _ \<Rightarrow> ret (False, ''the request is not a JSON object'', 1))"

section \<open>What a valid answer rests on\<close>

definition tailscale_confirmed :: "tn_world \<Rightarrow> (py \<Rightarrow> string) \<Rightarrow> dict \<Rightarrow> event list \<Rightarrow> bool" where
  "tailscale_confirmed w dumps req h = (\<exists>token key devices. has_token token \<and> tags_of req \<noteq> []
     \<and> strip_or (dget req ''tailscale_oauth_client_id'') \<noteq> [] \<and> strip_or (dget req ''tailscale_oauth_client_secret'') \<noteq> []
     \<and> heard w h (token_request TAILSCALE_API (strip_or (dget req ''tailscale_oauth_client_id'')) (strip_or (dget req ''tailscale_oauth_client_secret''))) 200 token
     \<and> heard w h (key_request dumps (access_token token) (tags_of req)) 200 key
     \<and> heard w h (get_request (TAILSCALE_API @ ''/tailnet/-/devices'') (access_token token)) 200 devices)"

definition headscale_confirmed :: "tn_world \<Rightarrow> dict \<Rightarrow> event list \<Rightarrow> bool" where
  "headscale_confirmed w req h =
     (let url = rstrip_slash (strip_or (dget req ''TAILNET_CONTROL_URL'')); key = strip_or (dget req ''headscale_api_key'') in
      url_scheme url \<in> {''http'', ''https''}
      \<and> (\<exists>body v. heard w h (plain_get (url @ ''/version'')) 200 body \<and> version_numbers (version_of body) = Some v
         \<and> (0 < fst v \<or> 29 \<le> snd v))
      \<and> (if key = [] then strip_or (dget req ''headscale_preauth_key'') \<noteq> []
         else strip_or (dget req ''HEADSCALE_USER'') \<noteq> [] \<and> (\<exists>d us names. heard w h (get_request (url @ ''/api/v1/user'') key) 200 (PDict d)
           \<and> items_or (dget d ''users'') = Inr us \<and> mapR user_name us = Inr names \<and> strip_or (dget req ''HEADSCALE_USER'') \<in> set names)))"

text \<open>The request on the standard input was confirmed by the servers of the provider it names.\<close>

definition confirmed :: "tn_world \<Rightarrow> (py \<Rightarrow> string) \<Rightarrow> dict \<Rightarrow> event list \<Rightarrow> bool" where
  "confirmed w dumps req h =
     (if lower (strip_or (dget req ''TAILNET_PROVIDER'')) = ''tailscale'' then tailscale_confirmed w dumps req h
      else lower (strip_or (dget req ''TAILNET_PROVIDER'')) = ''headscale'' \<and> headscale_confirmed w req h)"

lemma check_tailscale_confirmed:
  assumes "check_tailscale w dumps req h0 = (Inr [], h)"
  shows "tailscale_confirmed w dumps req h"
proof -
  let ?tok = "token_request TAILSCALE_API (strip_or (dget req ''tailscale_oauth_client_id'')) (strip_or (dget req ''tailscale_oauth_client_secret''))"
  from assms obtain token code2 b2 b3 h1 h2 where tags: "tags_of req \<noteq> []"
    "strip_or (dget req ''tailscale_oauth_client_id'') \<noteq> []" "strip_or (dget req ''tailscale_oauth_client_secret'') \<noteq> []" and tok: "has_token token"
    and 1: "tn_http w ?tok h0 = (Inr (200, token), h1)"
    and 2: "tn_http w (key_request dumps (access_token token) (tags_of req)) h1 = (Inr (200, b2), h2)"
    and 3: "tn_http w (get_request (TAILSCALE_API @ ''/tailnet/-/devices'') (access_token token)) h2 = (Inr (200, b3), h)"
    unfolding check_tailscale_def Let_def by (auto simp: tn_iffs split: if_splits)
  have "prefix h1 h2" "prefix h2 h" using growsD [OF grows_tn_http 2] growsD [OF grows_tn_http 3] .
  then have "heard w h ?tok 200 token" "heard w h (key_request dumps (access_token token) (tags_of req)) 200 b2"
    using tn_http_heard [OF 1] tn_http_heard [OF 2] prefix_order.trans by (blast intro: heard_later)+
  then show ?thesis
    using tn_http_heard [OF 3] tok tags unfolding tailscale_confirmed_def by blast
qed

lemma version_reason_confirmed:
  assumes "headscale_version_reason w url h0 = (Inr [], h)"
  shows "\<exists>body v. heard w h (plain_get (url @ ''/version'')) 200 body \<and> version_numbers (version_of body) = Some v \<and> (0 < fst v \<or> 29 \<le> snd v)"
proof -
  from assms obtain body v where q: "tn_http w (plain_get (url @ ''/version'')) h0 = (Inr (200, body), h)"
    and v: "version_numbers (version_of body) = Some v" "\<not> old_version v"
    unfolding headscale_version_reason_def by (auto simp: tn_iffs split: if_splits option.splits)
  from v(2) have "0 < fst v \<or> 29 \<le> snd v" by (auto simp: old_version_def HEADSCALE_MIN_VERSION_def)
  then show ?thesis using tn_http_heard [OF q] v(1) by blast
qed

lemma check_headscale_confirmed:
  assumes "check_headscale w req h0 = (Inr [], h)"
  shows "headscale_confirmed w req h"
proof -
  let ?url = "rstrip_slash (strip_or (dget req ''TAILNET_CONTROL_URL''))" and ?key = "strip_or (dget req ''headscale_api_key'')"
  from assms obtain h1 where v: "headscale_version_reason w ?url h0 = (Inr [], h1)"
    and given: "url_scheme ?url \<in> {''http'', ''https''}" "?key = [] \<longrightarrow> strip_or (dget req ''headscale_preauth_key'') \<noteq> []"
      "?key \<noteq> [] \<longrightarrow> strip_or (dget req ''HEADSCALE_USER'') \<noteq> []"
    and rest: "?key = [] \<and> h = h1 \<or> (\<exists>code body. tn_http w (get_request (?url @ ''/api/v1/user'') ?key) h1 = (Inr (code, body), h)
       \<and> users_reason ?url (strip_or (dget req ''HEADSCALE_USER'')) code body = Inr [])"
    unfolding check_headscale_def Let_def by (auto simp: tn_iffs split: if_splits)
  from rest have "prefix h1 h" using growsD [OF grows_tn_http] by blast
  with version_reason_confirmed [OF v] obtain body v where
    "heard w h (plain_get (?url @ ''/version'')) 200 body" "version_numbers (version_of body) = Some v" "(0 < fst v \<or> 29 \<le> snd v)"
    using heard_later by blast
  moreover have "\<exists>d us names. heard w h (get_request (?url @ ''/api/v1/user'') ?key) 200 (PDict d)
       \<and> items_or (dget d ''users'') = Inr us \<and> mapR user_name us = Inr names \<and> strip_or (dget req ''HEADSCALE_USER'') \<in> set names"
    if "?key \<noteq> []"
  proof -
    from rest that obtain code body where q: "tn_http w (get_request (?url @ ''/api/v1/user'') ?key) h1 = (Inr (code, body), h)"
      and u: "users_reason ?url (strip_or (dget req ''HEADSCALE_USER'')) code body = Inr []" by blast
    from u obtain d us names where "ok_dict code body = Some d" "items_or (dget d ''users'') = Inr us"
      "mapR user_name us = Inr names" "strip_or (dget req ''HEADSCALE_USER'') \<in> set names"
      unfolding users_reason_def by (auto simp: bindR_Inr_iff split: if_splits option.splits)
    then show ?thesis using tn_http_heard [OF q] by (auto simp: ok_dict_Some)
  qed
  ultimately show ?thesis using given unfolding headscale_confirmed_def Let_def by (cases "?key = []") (simp_all only: if_True if_False simp_thms, blast+)
qed


definition demo_creds :: dict where
  "demo_creds = [(''TAILNET_PROVIDER'', PStr ''tailscale''), (''TAILSCALE_TAGS'', PStr ''tag:vps''),
     (''tailscale_oauth_client_id'', PStr ''id''), (''tailscale_oauth_client_secret'', PStr ''s'')]"

definition creds_world :: tn_world where
  "creds_world = demo_tailnet\<lparr>tw_loads := (\<lambda>s. if s = ''R'' then Inr (PDict demo_creds) else tw_loads demo_tailnet s)\<rparr>"


section \<open>Nothing printed carries a credential\<close>

definition CREDENTIALS :: "string set" where
  "CREDENTIALS = {''tailscale_oauth_client_id'', ''tailscale_oauth_client_secret'', ''headscale_api_key'', ''headscale_preauth_key''}"

text \<open>Two runs side by side, after equally many calls: the same result, and equally many calls again.\<close>

definition alike :: "'a tn \<Rightarrow> 'a tn \<Rightarrow> bool" where
  "alike m1 m2 = (\<forall>h1 h2. length h1 = length h2 \<longrightarrow>
     fst (m1 h1) = fst (m2 h2) \<and> length (snd (m1 h1)) = length (snd (m2 h2)))"

named_theorems alike_intros \<open>two runs side by side\<close>

lemma alike_ret [alike_intros]: "alike (ret x) (ret x)"
  by (simp add: alike_def ret_def)

lemma alike_liftF [alike_intros]: "alike (liftF r) (liftF r)"
  by (simp add: alike_def liftF_def ret_def raise_def split: sum.split)

lemma alike_bindS [alike_intros]:
  assumes "alike m1 m2" and "\<And>x. alike (f1 x) (f2 x)"
  shows "alike (bindS m1 f1) (bindS m2 f2)"
  unfolding alike_def
proof (intro allI impI)
  fix h1 h2 :: "event list"
  assume "length h1 = length h2"
  then have "fst (m1 h1) = fst (m2 h2)" "length (snd (m1 h1)) = length (snd (m2 h2))"
    using assms(1) by (auto simp: alike_def)
  then show "fst (bindS m1 f1 h1) = fst (bindS m2 f2 h2) \<and> length (snd (bindS m1 f1 h1)) = length (snd (bindS m2 f2 h2))"
    using assms(2) by (cases "m1 h1"; cases "m2 h2") (auto simp: bindS_def alike_def split: sum.split)
qed

lemma alike_cases [alike_intros]:
  "alike m1 m2 \<Longrightarrow> alike k1 k2 \<Longrightarrow> alike (if b then m1 else k1) (if b then m2 else k2)"
  "(\<And>x y. alike (f x y) (g x y)) \<Longrightarrow> alike (case p of (x, y) \<Rightarrow> f x y) (case p of (x, y) \<Rightarrow> g x y)"
  by (auto split: prod.split)

lemma alike_http:
  assumes "\<And>h q. tw_net w h q = ans (length h)"
  shows "alike (tn_http w q1) (tn_http w q2)"
  by (auto simp: alike_def tn_http_def bindS_def thenS_def getS_def note_event_def modS_def ret_def assms)

lemma tags_of_same: "dget r1 ''TAILSCALE_TAGS'' = dget r2 ''TAILSCALE_TAGS'' \<Longrightarrow> tags_of r1 = tags_of r2"
  by (simp add: tags_of_def)

text \<open>C12: Nothing the credential check prints carries a credential. Take two requests that differ only in
  the OAuth client, the API key and the pre-auth key, each present in both or absent in both; as long
  as the servers' answers are the same, what is printed is the same. So the reason is made of the
  answers and of the fields that are not credentials, and of nothing else.\<close>

theorem credentials_not_printed:
  assumes net: "\<And>h q. tw_net w h q = ans (length h)"
    and same: "\<And>k. k \<notin> CREDENTIALS \<Longrightarrow> dget r1 k = dget r2 k"
    and present: "\<And>k. k \<in> CREDENTIALS \<Longrightarrow> strip_or (dget r1 k) = [] \<longleftrightarrow> strip_or (dget r2 k) = []"
  shows "fst (creds_check w dumps r1 []) = fst (creds_check w dumps r2 [])"
proof -
  note http = alike_http [of w ans, OF net]
  have plain: "dget r1 ''TAILNET_PROVIDER'' = dget r2 ''TAILNET_PROVIDER''" "dget r1 ''TAILSCALE_TAGS'' = dget r2 ''TAILSCALE_TAGS''"
    "dget r1 ''TAILNET_CONTROL_URL'' = dget r2 ''TAILNET_CONTROL_URL''" "dget r1 ''HEADSCALE_USER'' = dget r2 ''HEADSCALE_USER''"
    using same by (simp_all add: CREDENTIALS_def)
  have creds: "strip_or (dget r1 ''tailscale_oauth_client_id'') = [] \<longleftrightarrow> strip_or (dget r2 ''tailscale_oauth_client_id'') = []"
    "strip_or (dget r1 ''tailscale_oauth_client_secret'') = [] \<longleftrightarrow> strip_or (dget r2 ''tailscale_oauth_client_secret'') = []"
    "strip_or (dget r1 ''headscale_api_key'') = [] \<longleftrightarrow> strip_or (dget r2 ''headscale_api_key'') = []"
    "strip_or (dget r1 ''headscale_preauth_key'') = [] \<longleftrightarrow> strip_or (dget r2 ''headscale_preauth_key'') = []"
    using present by (simp_all add: CREDENTIALS_def)
  have "alike (check_tailscale w dumps r1) (check_tailscale w dumps r2)"
    unfolding check_tailscale_def Let_def tags_of_same [OF plain(2)] creds
    by (intro alike_intros http)
  moreover have "alike (check_headscale w r1) (check_headscale w r2)"
    unfolding check_headscale_def headscale_version_reason_def Let_def plain creds
    by (intro alike_intros http)
  ultimately have "alike (creds_check w dumps r1) (creds_check w dumps r2)"
    unfolding creds_check_def Let_def plain by (intro alike_intros)
  then show ?thesis by (simp add: alike_def)
qed

theorem credentials_not_printed_witness:
  "fst (creds_check (demo_tailnet\<lparr>tw_net := (\<lambda>h q. Http_Failure (int (length h)))\<rparr>) (\<lambda>_. []) demo_creds [])
   = fst (creds_check (demo_tailnet\<lparr>tw_net := (\<lambda>h q. Http_Failure (int (length h)))\<rparr>) (\<lambda>_. [])
       (dset ''tailscale_oauth_client_secret'' (PStr ''other'') demo_creds) [])"
proof (rule credentials_not_printed [of _ "\<lambda>n. Http_Failure (int n)"])
  show "tw_net (demo_tailnet\<lparr>tw_net := \<lambda>h q. Http_Failure (int (length h))\<rparr>) h q = Http_Failure (int (length h))" for h q
    by simp
  show "dget demo_creds k = dget (dset ''tailscale_oauth_client_secret'' (PStr ''other'') demo_creds) k" if "k \<notin> CREDENTIALS" for k
    using that by (auto simp: CREDENTIALS_def dget_def map_of_dset)
  show "(strip_or (dget demo_creds k) = []) = (strip_or (dget (dset ''tailscale_oauth_client_secret'' (PStr ''other'') demo_creds) k) = [])"
    if "k \<in> CREDENTIALS" for k
  proof (cases "k = ''tailscale_oauth_client_secret''")
    case True
    have "strip_or (PStr ''s'') \<noteq> []" "strip_or (PStr ''other'') \<noteq> []" by code_simp+
    then show ?thesis using True by (simp add: dget_def map_of_dset) (simp add: demo_creds_def)
  qed (simp add: dget_def map_of_dset)
qed

end
