(* ===== verification/Restic_Key.thy ===== *)
theory Restic_Key
  imports Filter_Values Minting
begin

text \<open>
  The backup password on the host: \<open>src/ansible/scripts/catena-restic-key.py\<close>. The state is what a
  request can change: the store file, the runtime password file, and the repositories (of any type
  \<open>'r\<close>), next to the hold record, which it only reads. The programs restic and rclone are the
  argument \<open>rs\<close>; the bytes of \<open>os.urandom\<close> are the argument \<open>ent\<close>. A JSON file is its document, or
  a text that does not parse.
\<close>

section \<open>State and programs\<close>

datatype json_file = No_File | Json py | Garbage

record renv =
  re_repo :: string
  re_access :: string
  re_secret :: string

record 'r restic =
  rs_cat :: "'r \<Rightarrow> renv \<Rightarrow> string \<Rightarrow> int"
  rs_init :: "'r \<Rightarrow> renv \<Rightarrow> string \<Rightarrow> int \<times> string \<times> 'r"
  rs_passwd :: "'r \<Rightarrow> renv \<Rightarrow> string \<Rightarrow> string \<Rightarrow> int \<times> string \<times> 'r"
  rs_lsf :: "'r \<Rightarrow> renv \<Rightarrow> string \<Rightarrow> string \<Rightarrow> string \<times> int"

record 'r key_state =
  ks_store :: json_file
  ks_pass :: "string option"
  ks_held :: json_file
  ks_repos :: 'r

datatype key_error = Key_Raised filter_error | System_Exit string

datatype key_result =
    Password_Made string
  | Done
  | Repository string
  | Opens bool
  | Refused_Key string

type_synonym ('r, 'a) key_step = "('r key_state, key_error, 'a) sem"

text \<open>The two sections of the store, as a request holds them.\<close>

record sections =
  sec_secrets :: dict
  sec_config :: dict

section \<open>The store\<close>

definition key_lift :: "'a flt \<Rightarrow> ('r, 'a) key_step" where
  "key_lift r = (case r of Inl e \<Rightarrow> raise (Key_Raised e) | Inr x \<Rightarrow> ret x)"

text \<open>\<open>dict(x or {})\<close> for a value of a JSON document.\<close>

definition dict_or :: "py \<Rightarrow> dict flt" where
  "dict_or v = (if \<not> truthy v then Inr [] else case v of PDict d \<Rightarrow> Inr d | PStr _ \<Rightarrow> Inl Value_Error | _ \<Rightarrow> Inl Type_Error)"

definition load_sections :: "json_file \<Rightarrow> sections flt" where
  "load_sections f = (case f of
      No_File \<Rightarrow> Inr \<lparr>sec_secrets = [], sec_config = []\<rparr>
    | Garbage \<Rightarrow> Inl Value_Error
    | Json (PDict d) \<Rightarrow>
        bindR (dict_or (dget d ''secrets'')) (\<lambda>s. bindR (dict_or (dget d ''config'')) (\<lambda>c.
          Inr \<lparr>sec_secrets = s, sec_config = c\<rparr>))
    | Json _ \<Rightarrow> Inl Attribute_Error)"

definition saved_doc :: "sections \<Rightarrow> json_file \<Rightarrow> json_file flt" where
  "saved_doc sec f = (case f of
      No_File \<Rightarrow> Inr (Json (PDict (dset ''config'' (PDict (sec_config sec)) (dset ''secrets'' (PDict (sec_secrets sec)) []))))
    | Garbage \<Rightarrow> Inl Value_Error
    | Json (PDict d) \<Rightarrow> Inr (Json (PDict (dset ''config'' (PDict (sec_config sec)) (dset ''secrets'' (PDict (sec_secrets sec)) d))))
    | Json _ \<Rightarrow> Inl Type_Error)"

definition save_sections :: "sections \<Rightarrow> ('r, unit) key_step" where
  "save_sections sec = bindS (getS ks_store) (\<lambda>f. bindS (key_lift (saved_doc sec f)) (\<lambda>g. modS (\<lambda>s. s\<lparr>ks_store := g\<rparr>)))"

definition write_pass :: "string \<Rightarrow> ('r, unit) key_step" where
  "write_pass p = modS (\<lambda>s. s\<lparr>ks_pass := Some (p @ nl)\<rparr>)"

text \<open>\<open>_held\<close>: \<open>None\<close> while there is no record; a record that cannot be read holds all the same.\<close>

definition held :: "json_file \<Rightarrow> dict option" where
  "held f = (case f of No_File \<Rightarrow> None | Json (PDict d) \<Rightarrow> Some d | _ \<Rightarrow> Some [])"

section \<open>The repository\<close>

definition NO_REPOSITORY :: int where "NO_REPOSITORY = 10"
definition WRONG_PASSWORD :: int where "WRONG_PASSWORD = 12"
definition RCLONE_DIR_NOT_FOUND :: int where "RCLONE_DIR_NOT_FOUND = 3"

text \<open>\<open>d.get(k, "")\<close>, and a value where the system needs a string.\<close>

definition get_text :: "dict \<Rightarrow> string \<Rightarrow> py" where
  "get_text d k = dget_def d k (PStr [])"

definition as_text :: "py \<Rightarrow> string flt" where
  "as_text v = (case v of PStr s \<Rightarrow> Inr s | _ \<Rightarrow> Inl Type_Error)"

definition PW :: string where "PW = ''backup_restic_password''"
definition REPO :: string where "REPO = ''BACKUP_RESTIC_REPO''"

text \<open>The environment of a call: the three variables as the store holds them, and what a started
  program sees.\<close>

record penv =
  pe_repo :: py
  pe_access :: py
  pe_secret :: py

definition restic_env :: "sections \<Rightarrow> penv" where
  "restic_env sec = \<lparr>pe_repo = get_text (sec_config sec) REPO,
     pe_access = get_text (sec_secrets sec) ''backup_s3_access_key'',
     pe_secret = get_text (sec_secrets sec) ''backup_s3_secret_key''\<rparr>"

definition started :: "penv \<Rightarrow> renv flt" where
  "started e = bindR (as_text (pe_repo e)) (\<lambda>r. bindR (as_text (pe_access e)) (\<lambda>a. bindR (as_text (pe_secret e)) (\<lambda>k.
     Inr \<lparr>re_repo = r, re_access = a, re_secret = k\<rparr>)))"

definition cat_config :: "'r restic \<Rightarrow> penv \<Rightarrow> string \<Rightarrow> ('r, int) key_step" where
  "cat_config rs e p = bindS (key_lift (started e)) (\<lambda>e. getS (\<lambda>s. rs_cat rs (ks_repos s) e p))"

definition strip_slashes :: "string \<Rightarrow> string" where
  "strip_slashes = strip_by (\<lambda>c. c = CHR ''/'')"

definition location :: "string \<Rightarrow> (string \<times> string \<times> string) option" where
  "location repo =
     (if \<not> prefix ''s3:'' repo then None
      else
        (let rest0 = drop 3 repo;
             (scheme1, rest1) = (if prefix ''http://'' rest0 then (''http'', drop 7 rest0) else (''https'', rest0));
             (scheme, rest) = (if prefix ''https://'' rest1 then (''https'', drop 8 rest1) else (scheme1, rest1));
             (host, _, path0) = partition_char (CHR ''/'') rest; path = strip_slashes path0 in
         if host = [] \<or> path = [] then None else Some (scheme, host, path)))"

text \<open>\<open>_rclone_location\<close> and \<open>_location_holds_anything\<close>: the endpoint and the path of the remote.\<close>

definition rclone_location :: "renv \<Rightarrow> (string \<times> string) option" where
  "rclone_location e = (case location (re_repo e) of
      None \<Rightarrow> None | Some (scheme, host, path) \<Rightarrow> Some (scheme @ ''://'' @ host, ''dest:'' @ path))"

definition location_holds_anything :: "'r restic \<Rightarrow> renv \<Rightarrow> ('r, bool option) key_step" where
  "location_holds_anything rs e = (case rclone_location e of
      None \<Rightarrow> ret None
    | Some (endpoint, path) \<Rightarrow> bindS (getS (\<lambda>s. rs_lsf rs (ks_repos s) e endpoint path)) (\<lambda>(line, rc).
        ret (if strip line \<noteq> [] then Some True
          else if rc = 0 \<or> rc = RCLONE_DIR_NOT_FOUND then Some False else None)))"

section \<open>The operations\<close>

definition minted :: "entropy \<Rightarrow> string" where
  "minted ent = b64encode b64_std (urandom ent 0 48)"

definition set_password :: "'r restic \<Rightarrow> sections \<Rightarrow> string \<Rightarrow> ('r, key_result) key_step" where
  "set_password rs sec new =
     (let current = get_text (sec_secrets sec) PW; env = restic_env sec in
      if \<not> truthy current then ret (Refused_Key ''no current restic password on-box to re-key from'')
      else if \<not> truthy (pe_repo env) then ret (Refused_Key ''backup repo not configured'')
      else bindS (key_lift (as_text current)) (\<lambda>cur. bindS (key_lift (started env)) (\<lambda>e.
        bindS (getS (\<lambda>s. rs_passwd rs (ks_repos s) e cur new)) (\<lambda>(rc, err, repos).
          thenS (modS (\<lambda>s. s\<lparr>ks_repos := repos\<rparr>))
            (if rc \<noteq> 0 then ret (Refused_Key (''restic key passwd failed: '' @ take 200 err))
             else thenS (save_sections (sec\<lparr>sec_secrets := dset PW (PStr new) (sec_secrets sec)\<rparr>))
               (thenS (write_pass new) (ret Done)))))))"

definition str_method :: "py \<Rightarrow> string flt" where
  "str_method v = (case v of PStr s \<Rightarrow> Inr s | _ \<Rightarrow> Inl Attribute_Error)"

text \<open>The branch of a request to replace a stored password: a refusal, a re-key of the repository the
  restore adopted (\<open>Some True\<close>), or a new destination (\<open>Some False\<close>).\<close>

definition replace_case :: "sections \<Rightarrow> json_file \<Rightarrow> (string + bool) flt" where
  "replace_case sec f = (case held f of
      None \<Rightarrow> Inr (Inl ''a new backup encryption password replaces the stored one only while the backups wait after a restore; rotate it instead'')
    | Some hold \<Rightarrow> bindR (str_method (get_text (sec_config sec) REPO)) (\<lambda>repo. Inr (
        case location repo of
          None \<Rightarrow> Inl ''the backup destination is not a repository address; save one in Settings''
        | Some here \<Rightarrow>
            if location (str_or (dget hold ''settings'')) = Some here then
              (if \<not> py_eq (dget hold ''choice'') (PStr ''fresh'')
               then Inl ''the backup destination is the one the restore brought back; a new password is made for a new destination, or when the Restore page's choice is a fresh repository''
               else Inr True)
            else Inr False)))"

definition new_destination :: "'r restic \<Rightarrow> entropy \<Rightarrow> sections \<Rightarrow> bool \<Rightarrow> ('r, key_result) key_step" where
  "new_destination rs ent sec replace =
     bindS (if \<not> truthy (pe_repo (restic_env sec)) then ret NO_REPOSITORY
            else cat_config rs (restic_env sec) (minted ent)) (\<lambda>rc.
     if rc = WRONG_PASSWORD then ret (Refused_Key ''the repository already holds backups encrypted under another password. Restore this server from it on the Restore page, or point Settings at an empty repository'')
     else if rc \<noteq> NO_REPOSITORY then ret (Refused_Key (''could not read the repository (restic exit '' @ dec_int rc @ ''); check its address and keys''))
     else thenS (save_sections (sec\<lparr>sec_secrets := dset PW (PStr (minted ent)) (sec_secrets sec)\<rparr>))
       (thenS (whenS replace (write_pass (minted ent))) (ret (Password_Made (minted ent)))))"

definition cmd_generate :: "'r restic \<Rightarrow> entropy \<Rightarrow> sections \<Rightarrow> bool \<Rightarrow> ('r, key_result) key_step" where
  "cmd_generate rs ent sec replace =
     (if \<not> truthy (dget (sec_secrets sec) PW) then new_destination rs ent sec replace
      else if \<not> replace then ret (Refused_Key ''a backup encryption password already exists; validate or rotate it instead'')
      else bindS (getS ks_held) (\<lambda>f. bindS (key_lift (replace_case sec f)) (\<lambda>c. case c of
          Inl err \<Rightarrow> ret (Refused_Key err)
        | Inr True \<Rightarrow> bindS (set_password rs sec (minted ent)) (\<lambda>r. ret (case r of Done \<Rightarrow> Password_Made (minted ent) | _ \<Rightarrow> r))
        | Inr False \<Rightarrow> new_destination rs ent sec replace)))"

definition create_repository :: "'r restic \<Rightarrow> renv \<Rightarrow> string \<Rightarrow> ('r, key_result) key_step" where
  "create_repository rs e password =
     bindS (getS (\<lambda>s. rs_init rs (ks_repos s) e password)) (\<lambda>(rc, err, repos).
       thenS (modS (\<lambda>s. s\<lparr>ks_repos := repos\<rparr>))
         (ret (if rc \<noteq> 0 then Refused_Key (''restic init failed: '' @ take 200 err) else Repository ''created'')))"

definition cmd_init :: "'r restic \<Rightarrow> sections \<Rightarrow> ('r, key_result) key_step" where
  "cmd_init rs sec =
     (let env = restic_env sec; stored = get_text (sec_secrets sec) PW in
      if \<not> (truthy (pe_repo env) \<and> truthy (pe_access env) \<and> truthy (pe_secret env)) then ret (Refused_Key ''no backup destination is saved'')
      else if \<not> truthy stored then ret (Refused_Key ''no backup encryption password is stored yet; generate it on the Settings page'')
      else bindS (key_lift (as_text stored)) (\<lambda>password. bindS (cat_config rs env password) (\<lambda>rc.
        if rc = 0 then ret (Repository ''exists'')
        else if rc = WRONG_PASSWORD then ret (Refused_Key ''the destination holds a repository encrypted under another password. Restore this server from it on the Restore page, or point Settings at an empty bucket'')
        else if rc \<noteq> NO_REPOSITORY then ret (Refused_Key (''could not read the destination (restic exit '' @ dec_int rc @ ''); check its address and keys''))
        else bindS (key_lift (started env)) (\<lambda>e. bindS (location_holds_anything rs e) (\<lambda>holds. case holds of
            None \<Rightarrow> ret (Refused_Key ''could not list the destination, so nothing was created there; check its address and keys'')
          | Some True \<Rightarrow> ret (Refused_Key ''the destination holds files that are not a restic repository. Point Settings at an empty bucket, or at a prefix nothing else uses'')
          | Some False \<Rightarrow> create_repository rs e password)))))"

definition cmd_validate :: "'r restic \<Rightarrow> sections \<Rightarrow> dict \<Rightarrow> ('r, key_result) key_step" where
  "cmd_validate rs sec req =
     (let password = str_or (dget req ''password'') in
      if password = [] then ret (Refused_Key ''no password supplied'')
      else if \<not> truthy (dget (sec_config sec) REPO) then ret (Refused_Key ''backup repo not configured'')
      else bindS (cat_config rs (restic_env sec) password) (\<lambda>rc. ret (Opens (rc = 0))))"

definition cmd_rotate :: "'r restic \<Rightarrow> sections \<Rightarrow> dict \<Rightarrow> ('r, key_result) key_step" where
  "cmd_rotate rs sec req = bindS (getS ks_held) (\<lambda>f.
     if held f \<noteq> None then ret (Refused_Key ''the backups wait after a restore of this server, and nothing is written to the repository until the destination is confirmed, or a new one saved, in Settings'')
     else (let new = str_or (dget req ''new_password'') in
       if new = [] then ret (Refused_Key ''no new password supplied'') else set_password rs sec new))"

text \<open>\<open>main\<close>: an empty standard input is an empty request.\<close>

definition key_input :: "json_file \<Rightarrow> dict + key_error" where
  "key_input stdin = (case stdin of
      No_File \<Rightarrow> Inl []
    | Garbage \<Rightarrow> Inr (Key_Raised Value_Error)
    | Json v \<Rightarrow> (case v of PDict req \<Rightarrow> Inl req | _ \<Rightarrow> Inr (System_Exit ''expected a JSON object on stdin'')))"

definition key_main :: "'r restic \<Rightarrow> entropy \<Rightarrow> json_file \<Rightarrow> ('r, key_result) key_step" where
  "key_main rs ent stdin = (case key_input stdin of
      Inr e \<Rightarrow> raise e
    | Inl req \<Rightarrow> bindS (getS ks_store) (\<lambda>f. bindS (key_lift (load_sections f)) (\<lambda>sec.
        let op = dget req ''op'' in
        if op = PStr ''generate'' then cmd_generate rs ent sec (dget req ''replace'' = PBool True)
        else if op = PStr ''validate'' then cmd_validate rs sec req
        else if op = PStr ''rotate'' then cmd_rotate rs sec req
        else if op = PStr ''init'' then cmd_init rs sec
        else raise (System_Exit (''unknown op '' @ py_repr op)))))"

definition exit_code :: "key_result \<Rightarrow> int" where
  "exit_code r = (case r of Refused_Key _ \<Rightarrow> 1 | Opens b \<Rightarrow> if b then 0 else 1 | _ \<Rightarrow> 0)"

end
