(* ===== verification/Restic_Safe.thy ===== *)
theory Restic_Safe
  imports Restic_Key
begin

text \<open>
  What the backup password promises: over any sequence of requests the stored password opens the
  repository the store names, and a request that is refused or raises leaves the store and the
  password file alone. restic's documented behaviour is the hypothesis \<open>restic_laws\<close>.
\<close>

section \<open>restic's contract\<close>

text \<open>
  \<open>there r q\<close>: a repository exists at \<open>q\<close>; \<open>opens r q p\<close>: the password \<open>p\<close> opens it. \<open>cat config\<close>
  exits 0 only when the password opens the repository and 10 only when there is none; a re-key or an
  init that succeeds leaves the new password able to open that repository, and no other repository
  is touched; one that fails takes no password away and creates nothing.
\<close>

definition elsewhere_same :: "('r \<Rightarrow> string \<Rightarrow> bool) \<Rightarrow> ('r \<Rightarrow> string \<Rightarrow> string \<Rightarrow> bool) \<Rightarrow> string \<Rightarrow> 'r \<Rightarrow> 'r \<Rightarrow> bool" where
  "elsewhere_same there opens q r r' = (\<forall>q'. q' \<noteq> q \<longrightarrow> there r' q' = there r q' \<and> opens r' q' = opens r q')"

definition nothing_lost :: "('r \<Rightarrow> string \<Rightarrow> bool) \<Rightarrow> ('r \<Rightarrow> string \<Rightarrow> string \<Rightarrow> bool) \<Rightarrow> 'r \<Rightarrow> 'r \<Rightarrow> bool" where
  "nothing_lost there opens r r' = (\<forall>q p. (there r' q \<longrightarrow> there r q) \<and> (opens r q p \<longrightarrow> opens r' q p))"

definition restic_laws :: "'r restic \<Rightarrow> ('r \<Rightarrow> string \<Rightarrow> bool) \<Rightarrow> ('r \<Rightarrow> string \<Rightarrow> string \<Rightarrow> bool) \<Rightarrow> bool" where
  "restic_laws rs there opens =
     ((\<forall>r e p. (rs_cat rs r e p = 0 \<longrightarrow> opens r (re_repo e) p) \<and> (rs_cat rs r e p = NO_REPOSITORY \<longrightarrow> \<not> there r (re_repo e)))
      \<and> (\<forall>r e cur new rc err r'. rs_passwd rs r e cur new = (rc, err, r') \<longrightarrow>
           (if rc = 0 then opens r' (re_repo e) new \<and> elsewhere_same there opens (re_repo e) r r' else nothing_lost there opens r r'))
      \<and> (\<forall>r e p rc err r'. rs_init rs r e p = (rc, err, r') \<longrightarrow>
           (if rc = 0 then opens r' (re_repo e) p \<and> elsewhere_same there opens (re_repo e) r r' else nothing_lost there opens r r')))"

lemma laws_cat: "restic_laws rs there opens \<Longrightarrow> rs_cat rs r e p = NO_REPOSITORY \<Longrightarrow> \<not> there r (re_repo e)"
  unfolding restic_laws_def by blast

lemma laws_passwd:
  "restic_laws rs there opens \<Longrightarrow> rs_passwd rs r e cur new = (rc, err, r') \<Longrightarrow>
     if rc = 0 then opens r' (re_repo e) new \<and> elsewhere_same there opens (re_repo e) r r' else nothing_lost there opens r r'"
  unfolding restic_laws_def by blast

lemma laws_init:
  "restic_laws rs there opens \<Longrightarrow> rs_init rs r e p = (rc, err, r') \<Longrightarrow>
     if rc = 0 then opens r' (re_repo e) p \<and> elsewhere_same there opens (re_repo e) r r' else nothing_lost there opens r r'"
  unfolding restic_laws_def by blast

section \<open>The store read back\<close>

lemma key_lift_simps [simp]: "key_lift (Inr x) = ret x" "key_lift (Inl e) = raise (Key_Raised e)"
  by (simp_all add: key_lift_def)

lemma dict_or_PDict [simp]: "dict_or (PDict d) = Inr d"
  by (simp add: dict_or_def)

lemma load_saved: "saved_doc sec f = Inr g \<Longrightarrow> load_sections g = Inr sec"
  by (auto simp: saved_doc_def load_sections_def dget_def map_of_dset split: json_file.splits py.splits)

lemma saved_after_load: "load_sections f = Inr sec \<Longrightarrow> \<exists>g. saved_doc sec' f = Inr g"
  by (auto simp: saved_doc_def load_sections_def split: json_file.splits py.splits)

lemma saved_keeps_others:
  assumes "saved_doc sec (Json (PDict d)) = Inr g" and "k \<notin> {''secrets'', ''config''}"
  shows "\<exists>d'. g = Json (PDict d') \<and> dget d' k = dget d k"
  using assms by (auto simp: saved_doc_def dget_def map_of_dset)

text \<open>The password and the repository a store names, when both are set.\<close>

definition names :: "json_file \<Rightarrow> string \<Rightarrow> string \<Rightarrow> bool" where
  "names f repo pw = (\<exists>sec. load_sections f = Inr sec \<and> get_text (sec_config sec) REPO = PStr repo \<and> repo \<noteq> []
     \<and> get_text (sec_secrets sec) PW = PStr pw \<and> pw \<noteq> [])"

definition recoverable :: "('r \<Rightarrow> string \<Rightarrow> bool) \<Rightarrow> ('r \<Rightarrow> string \<Rightarrow> string \<Rightarrow> bool) \<Rightarrow> 'r key_state \<Rightarrow> bool" where
  "recoverable there opens s = (\<forall>repo pw. names (ks_store s) repo pw \<and> there (ks_repos s) repo \<longrightarrow> opens (ks_repos s) repo pw)"

lemma names_saved:
  assumes "saved_doc (sec\<lparr>sec_secrets := dset PW (PStr new) (sec_secrets sec)\<rparr>) f = Inr g" and "names g repo pw"
  shows "get_text (sec_config sec) REPO = PStr repo \<and> repo \<noteq> [] \<and> pw = new"
  using assms(2) unfolding names_def load_saved [OF assms(1)]
  by (auto simp: get_text_def dget_def_def map_of_dset)

lemma recoverable_weaker:
  "recoverable there opens s \<Longrightarrow> ks_store s' = ks_store s \<Longrightarrow> nothing_lost there opens (ks_repos s) (ks_repos s') \<Longrightarrow>
     recoverable there opens s'"
  unfolding recoverable_def nothing_lost_def by metis

lemma recoverable_same_repos: "recoverable there opens s \<Longrightarrow> ks_store s' = ks_store s \<Longrightarrow> ks_repos s' = ks_repos s \<Longrightarrow> recoverable there opens s'"
  unfolding recoverable_def by simp

lemma started_repo: "started (restic_env sec) = Inr e \<Longrightarrow> get_text (sec_config sec) REPO = PStr (re_repo e)"
  by (auto simp: started_def restic_env_def bindR_Inr_iff as_text_def split: py.splits)

section \<open>Each operation\<close>

text \<open>What a step may do to a recoverable state that was loaded as \<open>sec\<close>.\<close>

definition keeps_recoverable :: "('r \<Rightarrow> string \<Rightarrow> bool) \<Rightarrow> ('r \<Rightarrow> string \<Rightarrow> string \<Rightarrow> bool) \<Rightarrow> sections \<Rightarrow> ('r, 'a) key_step \<Rightarrow> bool" where
  "keeps_recoverable there opens sec m = (\<forall>s r s'. load_sections (ks_store s) = Inr sec \<longrightarrow>
     recoverable there opens s \<longrightarrow> m s = (r, s') \<longrightarrow> recoverable there opens s')"

text \<open>Steps that change nothing.\<close>

definition quiet :: "('r, 'a) key_step \<Rightarrow> bool" where
  "quiet m = (\<forall>s. snd (m s) = s)"

named_theorems quiet_intros \<open>steps that change nothing\<close>

lemma quiet_ret [quiet_intros]: "quiet (ret x)" by (simp add: quiet_def ret_def)
lemma quiet_raise [quiet_intros]: "quiet (raise e)" by (simp add: quiet_def raise_def)
lemma quiet_getS [quiet_intros]: "quiet (getS f)" by (simp add: quiet_def getS_def)
lemma quiet_lift [quiet_intros]: "quiet (key_lift r)" by (cases r) (simp_all add: quiet_intros)

lemma quiet_bindS [quiet_intros]: "quiet m \<Longrightarrow> (\<And>x. quiet (f x)) \<Longrightarrow> quiet (bindS m f)"
proof -
  assume m: "quiet m" and f: "\<And>x. quiet (f x)"
  have "snd (bindS m f s) = s" for s
  proof (cases "m s")
    case (Pair r s')
    then have "s' = s" using m by (metis quiet_def snd_conv)
    then show ?thesis using Pair f by (auto simp: bindS_def quiet_def split: sum.split)
  qed
  then show ?thesis by (simp add: quiet_def)
qed

lemma quiet_cases [quiet_intros]:
  "quiet m \<Longrightarrow> quiet k \<Longrightarrow> quiet (if b then m else k)"
  "(\<And>x y. quiet (f x y)) \<Longrightarrow> quiet (case p of (x, y) \<Rightarrow> f x y)"
  by (auto split: prod.split)

lemma quiet_cat [quiet_intros]: "quiet (cat_config rs e p)"
  unfolding cat_config_def by (intro quiet_intros)

lemma quiet_holds [quiet_intros]: "quiet (location_holds_anything rs e)"
  unfolding location_holds_anything_def by (cases "rclone_location e") (auto intro!: quiet_intros)

lemma quiet_validate: "quiet (cmd_validate rs sec req)"
  unfolding cmd_validate_def Let_def by (intro quiet_intros)

lemma quietD: "quiet m \<Longrightarrow> m s = (r, s') \<Longrightarrow> s' = s"
  by (metis quiet_def snd_conv)

lemma keeps_quiet: "quiet m \<Longrightarrow> keeps_recoverable there opens sec m"
  unfolding keeps_recoverable_def using quietD by blast

lemma keeps_after_quiet:
  assumes "quiet m" and "\<And>x. keeps_recoverable there opens sec (f x)"
  shows "keeps_recoverable there opens sec (bindS m f)"
  unfolding keeps_recoverable_def
proof (intro allI impI)
  fix s r s'
  assume s: "load_sections (ks_store s) = Inr sec" "recoverable there opens s" and run: "bindS m f s = (r, s')"
  obtain r1 where "m s = (r1, s)" using assms(1) by (metis quiet_def prod.collapse)
  then show "recoverable there opens s'"
    using run s assms(2) by (cases r1) (auto simp: bindS_def keeps_recoverable_def)
qed

text \<open>Saving a new password, on a store that was loaded.\<close>

lemma save_sections_run:
  assumes "load_sections (ks_store s) = Inr sec"
  obtains g where "saved_doc sec' (ks_store s) = Inr g" "save_sections sec' s = (Inr (), s\<lparr>ks_store := g\<rparr>)"
  using saved_after_load [OF assms] by (auto simp: save_sections_def bindS_def getS_def modS_def ret_def)

lemma recoverable_new_password:
  assumes "saved_doc (sec\<lparr>sec_secrets := dset PW (PStr new) (sec_secrets sec)\<rparr>) f = Inr g" and "ks_store s = g"
    and "\<And>repo. get_text (sec_config sec) REPO = PStr repo \<Longrightarrow> repo \<noteq> [] \<Longrightarrow> there (ks_repos s) repo \<Longrightarrow> opens (ks_repos s) repo new"
  shows "recoverable there opens s"
  using assms names_saved unfolding recoverable_def by metis

lemma keeps_set_password:
  assumes "restic_laws rs there opens"
  shows "keeps_recoverable there opens sec (set_password rs sec new)"
  unfolding keeps_recoverable_def
proof (intro allI impI)
  fix s r s'
  assume s: "load_sections (ks_store s) = Inr sec" "recoverable there opens s" and run: "set_password rs sec new s = (r, s')"
  let ?cur = "get_text (sec_secrets sec) PW" and ?env = "restic_env sec"
  show "recoverable there opens s'"
  proof (cases "truthy ?cur \<and> truthy (pe_repo ?env) \<and> (\<exists>cur e. as_text ?cur = Inr cur \<and> started ?env = Inr e)")
    case False
    then have "s' = s"
      using run unfolding set_password_def Let_def
      by (cases "as_text ?cur"; cases "started ?env") (auto simp: bindS_def ret_def raise_def split: if_splits)
    then show ?thesis using s(2) by simp
  next
    case True
    then obtain cur e where ce: "as_text ?cur = Inr cur" "started ?env = Inr e" by blast
    obtain rc err repos where p: "rs_passwd rs (ks_repos s) e cur new = (rc, err, repos)" by (cases "rs_passwd rs (ks_repos s) e cur new")
    note law = laws_passwd [OF assms p]
    let ?s1 = "s\<lparr>ks_repos := repos\<rparr>" and ?sec = "sec\<lparr>sec_secrets := dset PW (PStr new) (sec_secrets sec)\<rparr>"
    show ?thesis
    proof (cases "rc = 0")
      case False
      then have "s' = ?s1" using run True ce p
        by (auto simp: set_password_def Let_def bindS_def thenS_def getS_def modS_def ret_def)
      then show ?thesis using recoverable_weaker [OF s(2), of ?s1] law False by simp
    next
      case rc: True
      have "load_sections (ks_store ?s1) = Inr sec" using s(1) by simp
      then obtain g where g: "saved_doc ?sec (ks_store ?s1) = Inr g" "save_sections ?sec ?s1 = (Inr (), ?s1\<lparr>ks_store := g\<rparr>)"
        by (rule save_sections_run)
      then have s': "s' = ?s1\<lparr>ks_store := g, ks_pass := Some (new @ nl)\<rparr>"
        using run True ce p rc
        by (auto simp: set_password_def Let_def bindS_def thenS_def getS_def modS_def ret_def write_pass_def)
      show ?thesis
      proof (rule recoverable_new_password [OF g(1)])
        show "opens (ks_repos s') repo new" if "get_text (sec_config sec) REPO = PStr repo" for repo
          using law rc started_repo [OF ce(2)] that s' by simp
      qed (simp add: s')
    qed
  qed
qed

lemma keeps_new_destination:
  assumes "restic_laws rs there opens"
  shows "keeps_recoverable there opens sec (new_destination rs ent sec replace)"
  unfolding keeps_recoverable_def
proof (intro allI impI)
  fix s r s'
  assume s: "load_sections (ks_store s) = Inr sec" "recoverable there opens s" and run: "new_destination rs ent sec replace s = (r, s')"
  let ?ask = "if \<not> truthy (pe_repo (restic_env sec)) then ret NO_REPOSITORY else cat_config rs (restic_env sec) (minted ent)"
  let ?sec = "sec\<lparr>sec_secrets := dset PW (PStr (minted ent)) (sec_secrets sec)\<rparr>"
  have "quiet ?ask" by (intro quiet_intros)
  then obtain a where a: "?ask s = (a, s)" by (metis quiet_def prod.collapse)
  show "recoverable there opens s'"
  proof (cases "a = Inr NO_REPOSITORY")
    case False
    then have "s' = s"
      using run a unfolding new_destination_def by (cases a) (auto simp: bindS_def ret_def split: if_splits)
    then show ?thesis using s(2) by simp
  next
    case True
    obtain g where g: "saved_doc ?sec (ks_store s) = Inr g" "save_sections ?sec s = (Inr (), s\<lparr>ks_store := g\<rparr>)"
      using s(1) by (rule save_sections_run)
    then have s': "ks_store s' = g" "ks_repos s' = ks_repos s"
      using run a True unfolding new_destination_def
      by (auto simp: bindS_def thenS_def whenS_def ret_def write_pass_def modS_def WRONG_PASSWORD_def NO_REPOSITORY_def split: if_splits)
    show ?thesis
    proof (rule recoverable_new_password [OF g(1) s'(1)])
      fix repo
      assume repo: "get_text (sec_config sec) REPO = PStr repo" "repo \<noteq> []" "there (ks_repos s') repo"
      then have "truthy (pe_repo (restic_env sec))" by (simp add: restic_env_def)
      with a True obtain e where "started (restic_env sec) = Inr e" "rs_cat rs (ks_repos s) e (minted ent) = NO_REPOSITORY"
        by (cases "started (restic_env sec)") (auto simp: cat_config_def bindS_def getS_def ret_def raise_def)
      then have "\<not> there (ks_repos s) repo" using laws_cat [OF assms] started_repo repo(1) by fastforce
      then show "opens (ks_repos s') repo (minted ent)" using repo(3) s'(2) by simp
    qed
  qed
qed

lemma keeps_create:
  assumes "restic_laws rs there opens" and "started (restic_env sec) = Inr e" and "get_text (sec_secrets sec) PW = PStr pw"
  shows "keeps_recoverable there opens sec (create_repository rs e pw)"
  unfolding keeps_recoverable_def
proof (intro allI impI)
  fix s r s'
  assume s: "load_sections (ks_store s) = Inr sec" "recoverable there opens s" and run: "create_repository rs e pw s = (r, s')"
  obtain rc err repos where i: "rs_init rs (ks_repos s) e pw = (rc, err, repos)" by (cases "rs_init rs (ks_repos s) e pw")
  have s': "s' = s\<lparr>ks_repos := repos\<rparr>"
    using run i by (auto simp: create_repository_def bindS_def thenS_def getS_def modS_def ret_def)
  show "recoverable there opens s'"
  proof (cases "rc = 0")
    case True
    then have "opens repos (re_repo e) pw" using laws_init [OF assms(1) i] by simp
    moreover have "names (ks_store s') repo pw' \<Longrightarrow> repo = re_repo e \<and> pw' = pw" for repo pw'
      using s(1) s' started_repo [OF assms(2)] assms(3) by (auto simp: names_def)
    ultimately show ?thesis unfolding recoverable_def using s' by auto
  next
    case False
    then show ?thesis using recoverable_weaker [OF s(2), of s'] laws_init [OF assms(1) i] s' by simp
  qed
qed

lemma recoverable_if: "keeps_recoverable there opens sec m \<Longrightarrow> keeps_recoverable there opens sec k \<Longrightarrow> keeps_recoverable there opens sec (if b then m else k)"
  by simp

lemma keeps_init:
  assumes "restic_laws rs there opens"
  shows "keeps_recoverable there opens sec (cmd_init rs sec)"
proof -
  have end_case: "keeps_recoverable there opens sec (case holds of
            None \<Rightarrow> ret (Refused_Key a) | Some True \<Rightarrow> ret (Refused_Key b) | Some False \<Rightarrow> create_repository rs e pw)"
    if "started (restic_env sec) = Inr e" "get_text (sec_secrets sec) PW = PStr pw" for holds e pw a b
    using keeps_create [OF assms that] by (auto intro: keeps_quiet quiet_intros split: option.split bool.split)
  have "keeps_recoverable there opens sec (bindS (key_lift (started (restic_env sec))) (\<lambda>e.
      bindS (location_holds_anything rs e) (\<lambda>holds. case holds of
            None \<Rightarrow> ret (Refused_Key a) | Some True \<Rightarrow> ret (Refused_Key b) | Some False \<Rightarrow> create_repository rs e pw)))"
    if "get_text (sec_secrets sec) PW = PStr pw" for a b pw
    using that end_case
    by (cases "started (restic_env sec)")
      (auto simp: bindS_ret bindS_raise intro!: keeps_quiet [OF quiet_raise] keeps_after_quiet [OF quiet_holds])
  moreover have "as_text (get_text (sec_secrets sec) PW) = Inr pw \<Longrightarrow> get_text (sec_secrets sec) PW = PStr pw" for pw
    by (auto simp: as_text_def split: py.splits)
  ultimately show ?thesis
    unfolding cmd_init_def Let_def
    by (cases "as_text (get_text (sec_secrets sec) PW)")
      (auto simp: bindS_ret bindS_raise intro!: recoverable_if keeps_quiet [OF quiet_ret] keeps_quiet [OF quiet_raise]
        keeps_after_quiet [OF quiet_cat] split del: if_split)
qed

lemma keeps_generate:
  assumes "restic_laws rs there opens"
  shows "keeps_recoverable there opens sec (cmd_generate rs ent sec replace)"
proof -
  have "keeps_recoverable there opens sec (bindS (set_password rs sec p) (\<lambda>r. ret (f r)))" for p f
    using keeps_set_password [OF assms, of sec p] unfolding keeps_recoverable_def
    by (fastforce simp: bindS_def ret_def split: prod.splits sum.splits)
  then have "keeps_recoverable there opens sec (case c of
          Inl err \<Rightarrow> ret (Refused_Key err)
        | Inr True \<Rightarrow> bindS (set_password rs sec (minted ent)) (\<lambda>r. ret (case r of Done \<Rightarrow> Password_Made (minted ent) | _ \<Rightarrow> r))
        | Inr False \<Rightarrow> new_destination rs ent sec replace)" for c
    using keeps_new_destination [OF assms] by (auto intro: keeps_quiet quiet_intros split: sum.split bool.split)
  then show ?thesis
    unfolding cmd_generate_def
    by (intro recoverable_if keeps_new_destination assms keeps_quiet [OF quiet_ret] keeps_after_quiet quiet_getS quiet_lift)
qed

lemma keeps_rotate:
  assumes "restic_laws rs there opens"
  shows "keeps_recoverable there opens sec (cmd_rotate rs sec req)"
  unfolding cmd_rotate_def Let_def
  by (intro recoverable_if keeps_set_password assms keeps_quiet [OF quiet_ret] keeps_after_quiet quiet_getS)

lemma main_recoverable:
  assumes "restic_laws rs there opens" and "recoverable there opens s" and "key_main rs ent stdin s = (r, s')"
  shows "recoverable there opens s'"
proof (cases "key_input stdin")
  case (Inr e)
  then show ?thesis using assms(2,3) by (simp add: key_main_def raise_def)
next
  case (Inl req)
  show ?thesis
  proof (cases "load_sections (ks_store s)")
    case (Inl e)
    then show ?thesis using assms(2,3) \<open>key_input stdin = _\<close> by (simp add: key_main_def bindS_def getS_def raise_def)
  next
    case (Inr sec)
    have keeps: "keeps_recoverable there opens sec (let op = dget req ''op'' in
        if op = PStr ''generate'' then cmd_generate rs ent sec (dget req ''replace'' = PBool True)
        else if op = PStr ''validate'' then cmd_validate rs sec req
        else if op = PStr ''rotate'' then cmd_rotate rs sec req
        else if op = PStr ''init'' then cmd_init rs sec
        else raise (System_Exit (''unknown op '' @ py_repr op)))"
      unfolding Let_def
      by (intro recoverable_if keeps_generate keeps_rotate keeps_init assms(1) keeps_quiet [OF quiet_validate] keeps_quiet [OF quiet_raise])
    show ?thesis
      using assms(2,3) Inr keeps unfolding keeps_recoverable_def
      by (auto simp: key_main_def \<open>key_input stdin = _\<close> bindS_def getS_def ret_def)
  qed
qed

text \<open>The states that requests lead to, one after the other.\<close>

inductive served :: "'r restic \<Rightarrow> 'r key_state \<Rightarrow> 'r key_state \<Rightarrow> bool" for rs s where
  served_none: "served rs s s"
| served_request: "served rs s s1 \<Longrightarrow> key_main rs ent stdin s1 = (r, s2) \<Longrightarrow> served rs s s2"


text \<open>A restic that keeps one password per repository.\<close>

definition plain_restic :: "(string \<times> string) list restic" where
  "plain_restic = \<lparr>
     rs_cat = (\<lambda>r e p. case map_of r (re_repo e) of None \<Rightarrow> NO_REPOSITORY | Some q \<Rightarrow> if p = q then 0 else WRONG_PASSWORD),
     rs_init = (\<lambda>r e p. if map_of r (re_repo e) = None then (0, [], (re_repo e, p) # r) else (1, ''exists'', r)),
     rs_passwd = (\<lambda>r e cur new. if map_of r (re_repo e) = Some cur then (0, [], (re_repo e, new) # r) else (1, ''wrong'', r)),
     rs_lsf = (\<lambda>r e endpoint path. ([], RCLONE_DIR_NOT_FOUND))\<rparr>"

lemma plain_restic_laws: "restic_laws plain_restic (\<lambda>r q. map_of r q \<noteq> None) (\<lambda>r q p. map_of r q = Some p)"
  unfolding restic_laws_def
proof (intro conjI allI)
  show "rs_cat plain_restic r e p = 0 \<longrightarrow> map_of r (re_repo e) = Some p"
    "rs_cat plain_restic r e p = NO_REPOSITORY \<longrightarrow> \<not> map_of r (re_repo e) \<noteq> None" for r e p
    by (auto simp: plain_restic_def NO_REPOSITORY_def WRONG_PASSWORD_def split: option.splits if_splits)
qed (auto simp: plain_restic_def elsewhere_same_def nothing_lost_def split: if_splits)

definition demo_keys :: "(string \<times> string) list key_state" where
  "demo_keys = \<lparr>ks_store = Json (PDict [(''config'', PDict [(REPO, PStr ''s3:h/b'')]), (''secrets'', PDict [(PW, PStr ''old'')]), (''images'', PDict [])]),
     ks_pass = None, ks_held = No_File, ks_repos = [(''s3:h/b'', ''old'')]\<rparr>"

definition demo_rotate :: "(string \<times> string) list key_state" where
  "demo_rotate = snd (key_main plain_restic (\<lambda>_. 0) (Json (PDict [(''op'', PStr ''rotate''), (''new_password'', PStr ''new'')])) demo_keys)"


section \<open>Requests that do not succeed\<close>

text \<open>What a request does to the store and the password file, by its result.\<close>

definition stores :: "'r key_state \<Rightarrow> string \<Rightarrow> bool" where
  "stores s p = (\<exists>sec. load_sections (ks_store s) = Inr sec \<and> get_text (sec_secrets sec) PW = PStr p)"

fun result_matches :: "string \<Rightarrow> 'r key_state \<Rightarrow> key_error + key_result \<Rightarrow> 'r key_state \<Rightarrow> bool" where
  "result_matches new s (Inr (Password_Made p)) s' = stores s' p"
| "result_matches new s (Inr Done) s' = (stores s' new \<and> ks_pass s' = Some (new @ nl))"
| "result_matches new s _ s' = (ks_store s' = ks_store s \<and> ks_pass s' = ks_pass s)"

definition matched :: "sections \<Rightarrow> string \<Rightarrow> ('r, key_result) key_step \<Rightarrow> bool" where
  "matched sec new m = (\<forall>s r s'. load_sections (ks_store s) = Inr sec \<longrightarrow> m s = (r, s') \<longrightarrow> result_matches new s r s')"

lemma matchedI: "(\<And>s r s'. load_sections (ks_store s) = Inr sec \<Longrightarrow> m s = (r, s') \<Longrightarrow> result_matches new s r s') \<Longrightarrow> matched sec new m"
  by (simp add: matched_def)

lemma matched_refuse: "matched sec new (ret (Refused_Key x))" "matched sec new (ret (Opens b))" "matched sec new (ret (Repository y))" "matched sec new (raise e)"
  by (simp_all add: matched_def ret_def raise_def)

lemma matched_if: "matched sec new m \<Longrightarrow> matched sec new k \<Longrightarrow> matched sec new (if b then m else k)"
  by simp

lemma matched_pair: "(\<And>x y. matched sec new (f x y)) \<Longrightarrow> matched sec new (case p of (x, y) \<Rightarrow> f x y)"
  by (cases p) simp

lemma matched_after_quiet:
  assumes "quiet m" and "\<And>x. matched sec new (f x)"
  shows "matched sec new (bindS m f)"
proof (rule matchedI)
  fix s r s'
  assume s: "load_sections (ks_store s) = Inr sec" and run: "bindS m f s = (r, s')"
  obtain r1 where "m s = (r1, s)" using assms(1) by (metis quiet_def prod.collapse)
  then show "result_matches new s r s'" using run s assms(2) by (cases r1) (auto simp: bindS_def matched_def)
qed

lemma matched_repos:
  assumes "matched sec new m"
  shows "matched sec new (thenS (modS (\<lambda>s. s\<lparr>ks_repos := x\<rparr>)) m)"
proof (rule matchedI)
  fix s r s'
  assume "load_sections (ks_store s) = Inr sec" and "thenS (modS (\<lambda>s. s\<lparr>ks_repos := x\<rparr>)) m s = (r, s')"
  then have "result_matches new (s\<lparr>ks_repos := x\<rparr>) r s'" using assms by (simp add: thenS_def bindS_def modS_def matched_def)
  then show "result_matches new s r s'" by (cases "(new, s, r, s')" rule: result_matches.cases) auto
qed

lemma stores_saved:
  "saved_doc (sec\<lparr>sec_secrets := dset PW (PStr p) (sec_secrets sec)\<rparr>) f = Inr g \<Longrightarrow> ks_store s = g \<Longrightarrow> stores s p"
  using load_saved by (fastforce simp: stores_def get_text_def dget_def_def map_of_dset)

text \<open>The tail that saves the password and writes the file.\<close>

lemma matched_save_done:
  "matched sec p (thenS (save_sections (sec\<lparr>sec_secrets := dset PW (PStr p) (sec_secrets sec)\<rparr>)) (thenS (write_pass p) (ret Done)))"
proof (rule matchedI)
  fix s r s'
  let ?sec = "sec\<lparr>sec_secrets := dset PW (PStr p) (sec_secrets sec)\<rparr>"
  assume "load_sections (ks_store s) = Inr sec" and run: "thenS (save_sections ?sec) (thenS (write_pass p) (ret Done)) s = (r, s')"
  then obtain g where g: "saved_doc ?sec (ks_store s) = Inr g" "save_sections ?sec s = (Inr (), s\<lparr>ks_store := g\<rparr>)"
    using save_sections_run by blast
  then show "result_matches p s r s'"
    using run g by (auto simp: thenS_def bindS_def write_pass_def modS_def ret_def intro!: stores_saved [OF g(1)])
qed

lemma matched_save_made:
  "matched sec new (thenS (save_sections (sec\<lparr>sec_secrets := dset PW (PStr p) (sec_secrets sec)\<rparr>))
     (thenS (whenS b (write_pass p)) (ret (Password_Made p))))"
proof (rule matchedI)
  fix s r s'
  let ?sec = "sec\<lparr>sec_secrets := dset PW (PStr p) (sec_secrets sec)\<rparr>"
  assume "load_sections (ks_store s) = Inr sec"
    and run: "thenS (save_sections ?sec) (thenS (whenS b (write_pass p)) (ret (Password_Made p))) s = (r, s')"
  then obtain g where g: "saved_doc ?sec (ks_store s) = Inr g" "save_sections ?sec s = (Inr (), s\<lparr>ks_store := g\<rparr>)"
    using save_sections_run by blast
  then show "result_matches new s r s'"
    using run g by (auto simp: thenS_def bindS_def whenS_def write_pass_def modS_def ret_def intro!: stores_saved [OF g(1)] split: if_splits)
qed

lemma matched_set_password: "matched sec new (set_password rs sec new)"
  unfolding set_password_def Let_def
  by (intro matched_if matched_refuse matched_after_quiet matched_pair matched_repos matched_save_done quiet_lift quiet_getS)

lemma matched_new_destination: "matched sec new (new_destination rs ent sec replace)"
  unfolding new_destination_def
  by (intro matched_if matched_refuse matched_after_quiet matched_save_made quiet_intros)

lemma matched_renamed: "matched sec new (bindS (set_password rs sec p) (\<lambda>r. ret (case r of Done \<Rightarrow> Password_Made p | _ \<Rightarrow> r)))"
proof (rule matchedI)
  fix s r s'
  assume s: "load_sections (ks_store s) = Inr sec"
    and run: "bindS (set_password rs sec p) (\<lambda>r. ret (case r of Done \<Rightarrow> Password_Made p | _ \<Rightarrow> r)) s = (r, s')"
  obtain r1 s1 where r1: "set_password rs sec p s = (r1, s1)" by (cases "set_password rs sec p s")
  then have "result_matches p s r1 s1" using matched_set_password [of sec p rs] s by (auto simp: matched_def)
  then show "result_matches new s r s'"
    using run r1 by (cases "(p, s, r1, s1)" rule: result_matches.cases) (auto simp: bindS_def ret_def)
qed

lemma matched_generate: "matched sec new (cmd_generate rs ent sec replace)"
proof -
  have "matched sec new (case c of
          Inl err \<Rightarrow> ret (Refused_Key err)
        | Inr True \<Rightarrow> bindS (set_password rs sec (minted ent)) (\<lambda>r. ret (case r of Done \<Rightarrow> Password_Made (minted ent) | _ \<Rightarrow> r))
        | Inr False \<Rightarrow> new_destination rs ent sec replace)" for c
    using matched_renamed matched_new_destination by (auto intro: matched_refuse split: sum.split bool.split)
  then show ?thesis
    unfolding cmd_generate_def
    by (intro matched_if matched_new_destination matched_refuse matched_after_quiet quiet_getS quiet_lift)
qed

lemma matched_create: "matched sec new (create_repository rs e pw)"
  unfolding create_repository_def
  by (intro matched_after_quiet matched_pair matched_repos quiet_getS) (auto intro: matched_refuse)

lemma matched_init: "matched sec new (cmd_init rs sec)"
proof -
  have "matched sec new (case holds of None \<Rightarrow> ret (Refused_Key a) | Some True \<Rightarrow> ret (Refused_Key b) | Some False \<Rightarrow> create_repository rs e pw)" for holds a b e pw
    using matched_create by (auto intro: matched_refuse split: option.split bool.split)
  then show ?thesis
    unfolding cmd_init_def Let_def
    by (intro matched_if matched_refuse matched_after_quiet quiet_lift quiet_cat quiet_holds)
qed

lemma matched_validate: "matched sec new (cmd_validate rs sec req)"
  unfolding cmd_validate_def Let_def
  by (intro matched_if matched_refuse matched_after_quiet quiet_cat)

lemma matched_rotate: "matched sec (str_or (dget req ''new_password'')) (cmd_rotate rs sec req)"
  unfolding cmd_rotate_def Let_def
  by (intro matched_if matched_refuse matched_after_quiet matched_set_password quiet_getS)

text \<open>The result a request reports is what it did to the files. A password that is printed as made
  is the one in the store; a rotation that reports success has stored the new password and written it
  to the runtime file; and a request that is refused, that only answers a question, or that ends in an
  exception leaves the store and the runtime file as they were.\<close>

theorem key_result_matches:
  assumes "key_main rs ent (Json (PDict req)) s = (r, s')"
  shows "result_matches (str_or (dget req ''new_password'')) s r s'"
proof (cases "load_sections (ks_store s)")
  case (Inl e)
  then show ?thesis using assms by (auto simp: key_main_def key_input_def bindS_def getS_def raise_def)
next
  case (Inr sec)
  have "matched sec (str_or (dget req ''new_password'')) (let op = dget req ''op'' in
        if op = PStr ''generate'' then cmd_generate rs ent sec (dget req ''replace'' = PBool True)
        else if op = PStr ''validate'' then cmd_validate rs sec req
        else if op = PStr ''rotate'' then cmd_rotate rs sec req
        else if op = PStr ''init'' then cmd_init rs sec
        else raise (System_Exit (''unknown op '' @ py_repr op)))"
    unfolding Let_def
    by (intro matched_if matched_generate matched_validate matched_rotate matched_init matched_refuse)
  then show ?thesis
    using assms Inr unfolding matched_def by (auto simp: key_main_def key_input_def bindS_def getS_def ret_def)
qed

theorem key_result_matches_witness:
  "key_main plain_restic (\<lambda>_. 0) (Json (PDict [(''op'', PStr ''rotate''), (''new_password'', PStr ''new'')])) demo_keys = (Inr Done, demo_rotate)
   \<and> stores demo_rotate ''new'' \<and> ks_pass demo_rotate = Some (''new'' @ nl)"
proof -
  have "fst (key_main plain_restic (\<lambda>_. 0) (Json (PDict [(''op'', PStr ''rotate''), (''new_password'', PStr ''new'')])) demo_keys) = Inr Done"
    by code_simp
  then have run: "key_main plain_restic (\<lambda>_. 0) (Json (PDict [(''op'', PStr ''rotate''), (''new_password'', PStr ''new'')])) demo_keys = (Inr Done, demo_rotate)"
    unfolding demo_rotate_def by (metis prod.collapse)
  have "str_or (dget [(''op'', PStr ''rotate''), (''new_password'', PStr ''new'')] ''new_password'') = ''new''" by code_simp
  with key_result_matches [OF run] run show ?thesis by simp
qed

section \<open>A save without the store's lock\<close>

text \<open>A save writes back the sections the request loaded, whatever the store holds by then. A
  settings write that lands between the load and the save of a request is undone: after the save the
  store reads as the request found it, while the top-level keys of other writers survive.\<close>

theorem save_reverts_settings:
  assumes "save_sections sec s = (Inr (), s')"
  shows "load_sections (ks_store s') = Inr sec"
  using assms load_saved
  by (auto simp: save_sections_def bindS_Inr_iff getS_def modS_def key_lift_def ret_def raise_def split: sum.splits)

theorem save_reverts_settings_witness:
  "\<exists>(s :: (string \<times> string) list key_state) sec changed. load_sections (ks_store demo_keys) = Inr sec \<and> load_sections (ks_store s) = Inr changed \<and> changed \<noteq> sec
     \<and> (\<exists>s'. save_sections sec s = (Inr (), s') \<and> load_sections (ks_store s') = Inr sec)"
proof -
  let ?sec = "\<lparr>sec_secrets = [(PW, PStr ''old'')], sec_config = [(REPO, PStr ''s3:h/b'')]\<rparr>"
    and ?changed = "\<lparr>sec_secrets = [(PW, PStr ''old'')], sec_config = [(REPO, PStr ''s3:h/c'')]\<rparr>"
  let ?s = "demo_keys\<lparr>ks_store := Json (PDict [(''config'', PDict [(REPO, PStr ''s3:h/c'')]), (''secrets'', PDict [(PW, PStr ''old'')])])\<rparr>"
  have loads: "load_sections (ks_store demo_keys) = Inr ?sec" "load_sections (ks_store ?s) = Inr ?changed"
    by (simp_all add: load_sections_def demo_keys_def dget_def)
  obtain g where g: "save_sections ?sec ?s = (Inr (), ?s\<lparr>ks_store := g\<rparr>)"
    using save_sections_run [OF loads(2), of ?sec] by blast
  have "?changed \<noteq> ?sec" by simp
  show ?thesis
    by (intro exI [of _ ?s] exI [of _ ?sec] exI [of _ ?changed] exI [of _ "?s\<lparr>ks_store := g\<rparr>"] conjI loads g \<open>?changed \<noteq> ?sec\<close>
        save_reverts_settings [OF g])
qed

end
