(* ===== verification/Service_Drift.thy ===== *)
theory Service_Drift
  imports Text_Filters Complex_Main
begin

text \<open>
  The hardening flags of a swarm service and their diff against a live one:
  \<open>src/ansible/playbooks/filter_plugins/swarm_service_drift.py\<close>. A float is its value, a rational
  that binary64 holds, or an infinity or NaN; a JSON number that is not an integer is not a value of
  \<open>py\<close>, and the constraints docker reports are texts.
\<close>

section \<open>Floats\<close>

datatype dbl = Fin rat | Infinite bool | Not_A_Number

function bits :: "int \<Rightarrow> int" where
  "bits n = (if n \<le> 0 then 0 else 1 + bits (n div 2))"
  by pat_completeness auto
termination
  by (relation "measure nat") auto

function ipow :: "int \<Rightarrow> int \<Rightarrow> int" where
  "ipow b e =
     (if e \<le> 0 then 1
      else let h = ipow b (e div 2) in if even e then h * h else b * h * h)"
  by pat_completeness auto
termination
  by (relation "measure (\<lambda>(b, e). nat e)") auto

declare bits.simps [simp del] ipow.simps [simp del]

lemma ipow_power: "ipow b e = b ^ nat e"
proof (induction b e rule: ipow.induct)
  case (1 b e)
  show ?case
  proof (cases "e \<le> 0")
    case False
    have "nat e = nat (e div 2) + nat (e div 2) + (if even e then 0 else 1)"
      using False by (auto elim!: evenE oddE)
    then show ?thesis
      using 1 False by (subst ipow.simps) (auto simp: Let_def power_add mult.commute mult.left_commute)
  qed (simp add: ipow.simps)
qed

definition scale :: "int \<Rightarrow> int \<Rightarrow> rat" where
  "scale b e = (if 0 \<le> e then of_int (ipow b e) else 1 / of_int (ipow b (- e)))"

definition half_even :: "rat \<Rightarrow> int" where
  "half_even r =
     (let f = \<lfloor>r\<rfloor>; d = r - of_int f in
      if d < 1 / 2 \<or> (d = 1 / 2 \<and> even f) then f else f + 1)"

text \<open>Rounding to nearest, ties to even, to 53 bits or to the least subnormal.\<close>

definition exponent_for :: "rat \<Rightarrow> int" where
  "exponent_for r =
     (let (n, d) = quotient_of r; e = bits n - bits d - 53;
          e' = (if r < scale 2 (e + 53) then e else e + 1) in max e' (-1074))"

definition round_dbl :: "rat \<Rightarrow> dbl" where
  "round_dbl r =
     (if r = 0 then Fin 0
      else (let e = exponent_for \<bar>r\<bar>; v = of_int (half_even (\<bar>r\<bar> / scale 2 e)) * scale 2 e in
        if scale 2 1024 \<le> v then Infinite (r < 0) else Fin (if r < 0 then - v else v)))"

text \<open>\<open>x * n\<close> for a positive integer \<open>n\<close> that a float holds exactly.\<close>

fun dbl_times :: "dbl \<Rightarrow> int \<Rightarrow> dbl" where
  "dbl_times (Fin r) n = round_dbl (r * of_int n)"
| "dbl_times x n = x"

fun dbl_eq :: "dbl \<Rightarrow> dbl \<Rightarrow> bool" where
  "dbl_eq Not_A_Number _ = False"
| "dbl_eq _ Not_A_Number = False"
| "dbl_eq x y = (x = y)"

text \<open>\<open>int(x)\<close>: towards zero.\<close>

fun dbl_int :: "dbl \<Rightarrow> int flt" where
  "dbl_int (Fin r) = Inr (if r < 0 then - \<lfloor>- r\<rfloor> else \<lfloor>r\<rfloor>)"
| "dbl_int (Infinite _) = Inl Overflow_Error"
| "dbl_int Not_A_Number = Inl Value_Error"

text \<open>\<open>float(s)\<close> of a text: a sign, digits with a point, an exponent, or a name of infinity or NaN.\<close>

definition digit_group :: "string \<Rightarrow> string option" where
  "digit_group s = (if s = [] then Some [] else int_body False s)"

definition decimal :: "string \<Rightarrow> string \<Rightarrow> int \<Rightarrow> rat option" where
  "decimal lead part expo = (case (digit_group lead, digit_group part) of
      (Some w, Some f) \<Rightarrow>
        if w @ f = [] then None
        else Some (of_nat (nat_of_digits 0 (w @ f)) * scale 10 (expo - int (length f)))
    | _ \<Rightarrow> None)"

definition unsigned_float :: "string \<Rightarrow> bool \<Rightarrow> dbl option" where
  "unsigned_float s neg =
     (if s = ''inf'' \<or> s = ''infinity'' then Some (Infinite neg)
      else if s = ''nan'' then Some Not_A_Number
      else
        (let (mantissa, has_exp, expo) = partition_char CHR ''e'' s;
             (lead, point, part) = partition_char CHR ''.'' mantissa in
         case (if has_exp then (if expo \<noteq> [] \<and> py_isspace (hd expo) then None else py_int expo) else Some 0) of
           None \<Rightarrow> None
         | Some e \<Rightarrow> map_option (\<lambda>r. round_dbl (if neg then - r else r)) (decimal lead part e)))"

definition py_float :: "string \<Rightarrow> dbl option" where
  "py_float text = (case lower (strip text) of
      [] \<Rightarrow> None
    | c # s \<Rightarrow> if c = CHR ''-'' then unsigned_float s True
        else if c = CHR ''+'' then unsigned_float s False else unsigned_float (c # s) False)"

definition float_of :: "py \<Rightarrow> dbl flt" where
  "float_of v = (case v of
      PInt i \<Rightarrow> (case round_dbl (of_int i) of Infinite _ \<Rightarrow> Inl Overflow_Error | x \<Rightarrow> Inr x)
    | PBool b \<Rightarrow> Inr (Fin (of_bool b))
    | PStr s \<Rightarrow> (case py_float s of None \<Rightarrow> Inl Value_Error | Some x \<Rightarrow> Inr x)
    | _ \<Rightarrow> Inl Type_Error)"

section \<open>Memory and durations\<close>

definition BYTE_SUFFIXES :: "(char \<times> int) list" where
  "BYTE_SUFFIXES = [(CHR ''b'', 1), (CHR ''k'', 1024), (CHR ''m'', 1024 ^ 2), (CHR ''g'', 1024 ^ 3), (CHR ''t'', 1024 ^ 4)]"

definition as_bytes :: "py \<Rightarrow> int flt" where
  "as_bytes value = (case value of
      PInt i \<Rightarrow> Inr i
    | PStr s \<Rightarrow>
        (let text = rstrip_by (\<lambda>c. c = CHR ''i'' \<or> c = CHR ''b'') (lower (strip s)) in
         if strip s = [] \<or> text = [] then Inl Value_Error
         else
           (let (multiplier, number) = (case map_of BYTE_SUFFIXES (last text) of
               Some m \<Rightarrow> (m, butlast text) | None \<Rightarrow> (1, text)) in
            case py_float number of None \<Rightarrow> Inl Value_Error | Some r \<Rightarrow> dbl_int (dbl_times r multiplier)))
    | _ \<Rightarrow> Inl Value_Error)"

definition DURATION_UNITS :: "(string \<times> int) list" where
  "DURATION_UNITS = [(''ns'', 1), (''us'', 1000), (''ms'', 1000000), (''s'', 1000000000),
     (''m'', 60 * 1000000000), (''h'', 3600 * 1000000000)]"

definition number_char :: "char \<Rightarrow> bool" where
  "number_char c = (is_digit c \<or> c = CHR ''.'' \<or> (let n = of_char c :: nat in n = 178 \<or> n = 179 \<or> n = 185))"

lemma duration_unit_nonempty: "find (\<lambda>u. prefix (fst u) s) DURATION_UNITS = Some u \<Longrightarrow> fst u \<noteq> []"
  by (auto simp: DURATION_UNITS_def split: if_splits)

text \<open>The scan of \<open>_as_nanos\<close>: the number read so far, the sum and the rest of the text.\<close>

function nanos_from :: "string \<Rightarrow> int \<Rightarrow> string \<Rightarrow> int flt" where
  "nanos_from number acc [] = (if number \<noteq> [] then Inl Value_Error else Inr acc)"
| "nanos_from number acc (c # s) =
     (if number_char c then nanos_from (number @ [c]) acc s
      else (case find (\<lambda>u. prefix (fst u) (c # s)) DURATION_UNITS of
        None \<Rightarrow> Inl Value_Error
      | Some u \<Rightarrow>
          if number = [] then Inl Value_Error
          else (case py_float number of
              None \<Rightarrow> Inl Value_Error
            | Some r \<Rightarrow> bindR (dbl_int (dbl_times r (snd u))) (\<lambda>n. nanos_from [] (acc + n) (drop (length (fst u)) (c # s))))))"
  by pat_completeness auto
termination
  by (relation "measure (\<lambda>(number, acc, s). length s)")
    (auto dest: duration_unit_nonempty simp: Suc_diff_le)

definition as_nanos :: "py \<Rightarrow> int flt" where
  "as_nanos value = (case value of
      PInt i \<Rightarrow> Inr i
    | PStr s \<Rightarrow> if strip s = [] then Inl Value_Error else nanos_from [] 0 (lower (strip s))
    | _ \<Rightarrow> Inl Value_Error)"

definition as_int :: "py \<Rightarrow> int flt" where
  "as_int v = (case v of
      PInt i \<Rightarrow> Inr i
    | PBool b \<Rightarrow> Inr (of_bool b)
    | PStr s \<Rightarrow> (case py_int s of None \<Rightarrow> Inl Value_Error | Some n \<Rightarrow> Inr n)
    | _ \<Rightarrow> Inl Type_Error)"

section \<open>Images\<close>

definition strip_digest :: "py \<Rightarrow> string" where
  "strip_digest ref = (case ref of PStr s \<Rightarrow> takeWhile (\<lambda>c. c \<noteq> CHR ''@'') s | _ \<Rightarrow> [])"

definition same_image :: "py \<Rightarrow> py \<Rightarrow> bool" where
  "same_image live want0 =
     (let want = py_str want0 in
      if CHR ''@'' \<in> set want then py_str live = want else strip_digest live = want)"

section \<open>Create\<close>

definition flag_if :: "dict \<Rightarrow> string \<Rightarrow> string \<Rightarrow> string list" where
  "flag_if desired key flag = (if has_key desired key then [flag, py_str (dget desired key)] else [])"

definition health_flags :: "dict \<Rightarrow> string list" where
  "health_flags desired = [''--health-cmd'', py_str (dget desired ''health_cmd'')]
     @ flag_if desired ''health_interval'' ''--health-interval''
     @ flag_if desired ''health_retries'' ''--health-retries''
     @ flag_if desired ''health_start_period'' ''--health-start-period''"

definition swarm_service_create_args :: "py \<Rightarrow> string list flt" where
  "swarm_service_create_args desired = (case desired of
      PDict d \<Rightarrow>
        bindR (items_of (dget_def d ''constraints'' (PList []))) (\<lambda>cs. Inr (
          flag_if d ''limit_memory'' ''--limit-memory''
          @ flag_if d ''reserve_memory'' ''--reserve-memory''
          @ flag_if d ''stop_grace_period'' ''--stop-grace-period''
          @ flag_if d ''update_failure_action'' ''--update-failure-action''
          @ flag_if d ''update_monitor'' ''--update-monitor''
          @ flag_if d ''update_max_failure_ratio'' ''--update-max-failure-ratio''
          @ flag_if d ''update_order'' ''--update-order''
          @ concat (map (\<lambda>c. [''--constraint'', py_str c]) cs)
          @ (if has_key d ''health_cmd'' then health_flags d else [])))
    | _ \<Rightarrow> Inl Value_Error)"

section \<open>Drift\<close>

text \<open>One managed field: its flag when it is declared and \<open>same\<close> says that the live value is not it.\<close>

definition field_drift :: "dict \<Rightarrow> string \<Rightarrow> string \<Rightarrow> (py \<Rightarrow> bool flt) \<Rightarrow> string list flt" where
  "field_drift desired key flag same =
     (if \<not> has_key desired key then Inr []
      else bindR (same (dget desired key)) (\<lambda>b. Inr (if b then [] else [flag, py_str (dget desired key)])))"

definition or_default :: "py flt \<Rightarrow> py \<Rightarrow> py flt" where
  "or_default r v = bindR r (\<lambda>x. Inr (if x = PNone then v else x))"

text \<open>\<open>x.get(k, v)\<close> on a value that is a dictionary or was replaced by an empty one.\<close>

definition get_default :: "py \<Rightarrow> string \<Rightarrow> py \<Rightarrow> py flt" where
  "get_default x k v = (if \<not> truthy x then Inr v else case x of PDict d \<Rightarrow> Inr (dget_def d k v) | _ \<Rightarrow> Inl Attribute_Error)"

definition same_int :: "py \<Rightarrow> string \<Rightarrow> (py \<Rightarrow> int flt) \<Rightarrow> py \<Rightarrow> bool flt" where
  "same_int x k conv want = bindR (get_default x k (PInt 0)) (\<lambda>live. bindR (conv want) (\<lambda>n. Inr (py_eq live (PInt n))))"

definition same_py :: "py \<Rightarrow> string \<Rightarrow> py \<Rightarrow> bool flt" where
  "same_py x k want = bindR (get_default x k (PStr [])) (\<lambda>live. Inr (py_eq live want))"

definition same_ratio :: "py \<Rightarrow> string \<Rightarrow> py \<Rightarrow> bool flt" where
  "same_ratio x k want = bindR (get_default x k (PInt 0)) (\<lambda>live.
     bindR (float_of live) (\<lambda>a. bindR (float_of want) (\<lambda>b. Inr (dbl_eq a b))))"

definition text_item :: "py \<Rightarrow> string flt" where
  "text_item v = (case v of PStr s \<Rightarrow> Inr s | _ \<Rightarrow> Inl Type_Error)"

definition live_constraints :: "py \<Rightarrow> string list flt" where
  "live_constraints placement =
     bindR (get_or placement ''Constraints'') (\<lambda>cs. bindR (items_or cs) (mapR text_item))"

definition wanted_constraints :: "dict \<Rightarrow> string list flt" where
  "wanted_constraints desired = bindR (items_of (dget desired ''constraints'')) (\<lambda>ws. Inr (map py_str ws))"

text \<open>\<open>sorted\<close> of the difference of two sets.\<close>

definition sorted_diff :: "string list \<Rightarrow> string list \<Rightarrow> string list" where
  "sorted_diff xs ys = sort (remdups (filter (\<lambda>c. c \<notin> set ys) xs))"

definition constraint_drift :: "dict \<Rightarrow> py \<Rightarrow> string list flt" where
  "constraint_drift desired placement =
     (if \<not> has_key desired ''constraints'' then Inr []
      else bindR (live_constraints placement) (\<lambda>live. bindR (wanted_constraints desired) (\<lambda>want.
        Inr (concat (map (\<lambda>c. [''--constraint-rm'', c]) (sorted_diff live want))
           @ concat (map (\<lambda>c. [''--constraint-add'', c]) (sorted_diff want live))))))"

text \<open>The comparisons of the healthcheck stop at the first difference.\<close>

definition next_same :: "dict \<Rightarrow> string \<Rightarrow> (py \<Rightarrow> bool flt) \<Rightarrow> bool \<Rightarrow> bool flt" where
  "next_same desired key same ok =
     (if ok \<and> has_key desired key then same (dget desired key) else Inr ok)"

definition health_same :: "dict \<Rightarrow> py \<Rightarrow> bool flt" where
  "health_same desired health =
     bindR (get_or health ''Test'') (\<lambda>test.
     bindR (next_same desired ''health_interval'' (same_int health ''Interval'' as_nanos)
        (py_eq (if truthy test then test else PList [])
           (PList [PStr ''CMD-SHELL'', PStr (py_str (dget desired ''health_cmd''))]))) (\<lambda>a.
     bindR (next_same desired ''health_retries'' (same_int health ''Retries'' as_int) a) (\<lambda>b.
       next_same desired ''health_start_period'' (same_int health ''StartPeriod'' as_nanos) b)))"

definition health_drift :: "dict \<Rightarrow> py \<Rightarrow> string list flt" where
  "health_drift desired container =
     (if \<not> has_key desired ''health_cmd'' then Inr []
      else bindR (get_or container ''Healthcheck'') (\<lambda>health.
        bindR (health_same desired health) (\<lambda>same. Inr (if same then [] else health_flags desired))))"

definition first_of :: "py \<Rightarrow> py" where
  "first_of inspect = (case inspect of
      PList (x # _) \<Rightarrow> x | PDict d \<Rightarrow> inspect | _ \<Rightarrow> PDict [])"

text \<open>\<open>_first(inspect).get("Spec", {})\<close>: a first element that is not a dictionary has no \<open>get\<close>.\<close>

definition spec_of :: "py \<Rightarrow> py flt" where
  "spec_of inspect = (case first_of inspect of PDict d \<Rightarrow> Inr (dget d ''Spec'') | _ \<Rightarrow> Inl Attribute_Error)"

text \<open>\<open>args += ...\<close> in order: the first part that raises ends the run.\<close>

definition concatR :: "string list flt list \<Rightarrow> string list flt" where
  "concatR parts = bindR (mapR id parts) (\<lambda>xs. Inr (concat xs))"

definition drift_parts :: "dict \<Rightarrow> py \<Rightarrow> py \<Rightarrow> py \<Rightarrow> py \<Rightarrow> string list flt list" where
  "drift_parts d container resources update_config placement =
     [field_drift d ''image'' ''--image''
        (\<lambda>w. bindR (get_default container ''Image'' (PStr [])) (\<lambda>l. Inr (same_image l w))),
      bindR (get_or resources ''Limits'') (\<lambda>limits.
        field_drift d ''limit_memory'' ''--limit-memory'' (same_int limits ''MemoryBytes'' as_bytes)),
      bindR (get_or resources ''Reservations'') (\<lambda>reservations.
        field_drift d ''reserve_memory'' ''--reserve-memory'' (same_int reservations ''MemoryBytes'' as_bytes)),
      field_drift d ''stop_grace_period'' ''--stop-grace-period'' (same_int container ''StopGracePeriod'' as_nanos),
      field_drift d ''update_failure_action'' ''--update-failure-action'' (same_py update_config ''FailureAction''),
      field_drift d ''update_monitor'' ''--update-monitor'' (same_int update_config ''Monitor'' as_nanos),
      field_drift d ''update_max_failure_ratio'' ''--update-max-failure-ratio''
        (same_ratio update_config ''MaxFailureRatio''),
      field_drift d ''update_order'' ''--update-order'' (same_py update_config ''Order''),
      constraint_drift d placement,
      health_drift d container]"

definition swarm_service_drift :: "py \<Rightarrow> py \<Rightarrow> string list flt" where
  "swarm_service_drift inspect desired = (case desired of
      PDict d \<Rightarrow>
        bindR (spec_of inspect) (\<lambda>spec.
        bindR (get_or spec ''TaskTemplate'') (\<lambda>task.
        bindR (get_or task ''ContainerSpec'') (\<lambda>container.
        bindR (get_or task ''Resources'') (\<lambda>resources.
        bindR (get_or spec ''UpdateConfig'') (\<lambda>update_config.
        bindR (get_or task ''Placement'') (\<lambda>placement.
          concatR (drift_parts d container resources update_config placement)))))))
    | _ \<Rightarrow> Inl Value_Error)"

section \<open>What the diff promises\<close>

lemma mapR_id: "mapR id xs = Inr ys \<longleftrightarrow> xs = map Inr ys"
  by (induction xs arbitrary: ys) (auto simp: bindR_Inr_iff)

lemma concatR_empty: "concatR xs = Inr [] \<Longrightarrow> x \<in> set xs \<Longrightarrow> x = Inr []"
  by (auto simp: concatR_def bindR_Inr_iff mapR_id)

lemma field_drift_empty: "field_drift d k f same = Inr [] \<Longrightarrow> has_key d k \<Longrightarrow> same (dget d k) = Inr True"
  by (auto simp: field_drift_def bindR_Inr_iff split: if_splits)

lemma set_sorted_diff [simp]: "set (sorted_diff xs ys) = set xs - set ys"
  by (auto simp: sorted_diff_def)

lemma sorted_diff_empty: "sorted_diff xs ys = [] \<longleftrightarrow> set xs \<subseteq> set ys"
  using set_sorted_diff [of xs ys] by (metis Diff_eq_empty_iff set_empty)

lemma constraint_drift_empty:
  assumes "constraint_drift d placement = Inr []" and "has_key d ''constraints''"
  shows "\<exists>live want. live_constraints placement = Inr live \<and> wanted_constraints d = Inr want \<and> set live = set want"
  using assms by (auto simp: constraint_drift_def bindR_Inr_iff sorted_diff_empty)

text \<open>A part of the live specification, by the keys that lead to it.\<close>

fun at_path :: "string list \<Rightarrow> py \<Rightarrow> py flt" where
  "at_path [] v = Inr v"
| "at_path (k # ks) v = bindR (get_or v k) (at_path ks)"

definition live_part :: "py \<Rightarrow> string list \<Rightarrow> py flt" where
  "live_part inspect ks = bindR (spec_of inspect) (at_path ks)"

lemma drift_parts_of:
  assumes "swarm_service_drift inspect (PDict d) = Inr args"
  obtains container resources update_config placement where
    "live_part inspect [''TaskTemplate'', ''ContainerSpec''] = Inr container"
    "live_part inspect [''TaskTemplate'', ''Resources''] = Inr resources"
    "live_part inspect [''UpdateConfig''] = Inr update_config"
    "live_part inspect [''TaskTemplate'', ''Placement''] = Inr placement"
    "concatR (drift_parts d container resources update_config placement) = Inr args"
  using assms by (auto simp: swarm_service_drift_def live_part_def bindR_Inr_iff)

text \<open>C40: An empty diff means the live service is the declared one: the image is the pinned one, with
  its digest when the pin has one and whatever digest docker resolved when it has none; the memory
  limit is the declared number of bytes; and the placement constraints are the declared set.\<close>

theorem drift_empty_converged:
  assumes "swarm_service_drift inspect (PDict d) = Inr []"
  shows "(has_key d ''image'' \<longrightarrow> (\<exists>c live. live_part inspect [''TaskTemplate'', ''ContainerSpec''] = Inr c
           \<and> get_default c ''Image'' (PStr []) = Inr live
           \<and> (if CHR ''@'' \<in> set (py_str (dget d ''image'')) then py_str live = py_str (dget d ''image'')
              else strip_digest live = py_str (dget d ''image''))))
       \<and> (has_key d ''limit_memory'' \<longrightarrow> (\<exists>l live n. live_part inspect [''TaskTemplate'', ''Resources'', ''Limits''] = Inr l
           \<and> get_default l ''MemoryBytes'' (PInt 0) = Inr live \<and> as_bytes (dget d ''limit_memory'') = Inr n
           \<and> py_eq live (PInt n)))
       \<and> (has_key d ''constraints'' \<longrightarrow> (\<exists>p live want. live_part inspect [''TaskTemplate'', ''Placement''] = Inr p
           \<and> live_constraints p = Inr live \<and> wanted_constraints d = Inr want \<and> set live = set want))"
proof -
  obtain c r u p where
    parts: "live_part inspect [''TaskTemplate'', ''ContainerSpec''] = Inr c"
      "live_part inspect [''TaskTemplate'', ''Resources''] = Inr r"
      "live_part inspect [''TaskTemplate'', ''Placement''] = Inr p"
    and "concatR (drift_parts d c r u p) = Inr []"
    using assms by (rule drift_parts_of)
  note part = concatR_empty [OF \<open>concatR _ = _\<close>, unfolded drift_parts_def]
  show ?thesis
  proof (intro conjI impI)
    assume "has_key d ''image''"
    moreover have "field_drift d ''image'' ''--image''
        (\<lambda>w. bindR (get_default c ''Image'' (PStr [])) (\<lambda>l. Inr (same_image l w))) = Inr []"
      by (rule part) simp
    ultimately have "bindR (get_default c ''Image'' (PStr [])) (\<lambda>l. Inr (same_image l (dget d ''image''))) = Inr True"
      using field_drift_empty by fastforce
    then show "\<exists>c live. live_part inspect [''TaskTemplate'', ''ContainerSpec''] = Inr c
           \<and> get_default c ''Image'' (PStr []) = Inr live
           \<and> (if CHR ''@'' \<in> set (py_str (dget d ''image'')) then py_str live = py_str (dget d ''image'')
              else strip_digest live = py_str (dget d ''image''))"
      using parts by (auto simp: bindR_Inr_iff same_image_def Let_def)
  next
    assume has: "has_key d ''limit_memory''"
    have "bindR (get_or r ''Limits'') (\<lambda>limits.
        field_drift d ''limit_memory'' ''--limit-memory'' (same_int limits ''MemoryBytes'' as_bytes)) = Inr []"
      by (rule part) simp
    then show "\<exists>l live n. live_part inspect [''TaskTemplate'', ''Resources'', ''Limits''] = Inr l
           \<and> get_default l ''MemoryBytes'' (PInt 0) = Inr live \<and> as_bytes (dget d ''limit_memory'') = Inr n
           \<and> py_eq live (PInt n)"
      using parts(2) has by (fastforce simp: live_part_def bindR_Inr_iff same_int_def dest: field_drift_empty)
  next
    assume "has_key d ''constraints''"
    moreover have "constraint_drift d p = Inr []" by (rule part) simp
    ultimately show "\<exists>p live want. live_part inspect [''TaskTemplate'', ''Placement''] = Inr p
           \<and> live_constraints p = Inr live \<and> wanted_constraints d = Inr want \<and> set live = set want"
      using constraint_drift_empty parts(3) by blast
  qed
qed

definition demo_service :: py where
  "demo_service = PList [PDict [(''Spec'', PDict [(''TaskTemplate'', PDict [
     (''ContainerSpec'', PDict [(''Image'', PStr ''postgres:18@sha256:ab'')]),
     (''Resources'', PDict [(''Limits'', PDict [(''MemoryBytes'', PInt 536870912)])]),
     (''Placement'', PDict [(''Constraints'', PList [PStr ''node.role==manager''])])])])]]"

definition demo_desired :: dict where
  "demo_desired = [(''image'', PStr ''postgres:18''), (''limit_memory'', PStr ''512m''),
     (''constraints'', PList [PStr ''node.role==manager''])]"

lemma demo_converged: "swarm_service_drift demo_service (PDict demo_desired) = Inr []"
  by code_simp

theorem drift_empty_converged_witness:
  "swarm_service_drift demo_service (PDict demo_desired) = Inr []
   \<and> (\<exists>l live n. live_part demo_service [''TaskTemplate'', ''Resources'', ''Limits''] = Inr l
        \<and> get_default l ''MemoryBytes'' (PInt 0) = Inr live \<and> as_bytes (dget demo_desired ''limit_memory'') = Inr n
        \<and> py_eq live (PInt n))"
proof -
  have "has_key demo_desired ''limit_memory''" by code_simp
  with demo_converged drift_empty_converged [OF demo_converged] show ?thesis by blast
qed

section \<open>Only what is declared\<close>

text \<open>The keys of the desired specification and the flags of \<open>docker service update\<close> each manages.\<close>

definition MANAGED :: "(string \<times> string) list" where
  "MANAGED = [(''image'', ''--image''), (''limit_memory'', ''--limit-memory''),
     (''reserve_memory'', ''--reserve-memory''), (''stop_grace_period'', ''--stop-grace-period''),
     (''update_failure_action'', ''--update-failure-action''), (''update_monitor'', ''--update-monitor''),
     (''update_max_failure_ratio'', ''--update-max-failure-ratio''), (''update_order'', ''--update-order''),
     (''constraints'', ''--constraint-rm''), (''constraints'', ''--constraint-add''),
     (''health_cmd'', ''--health-cmd''), (''health_interval'', ''--health-interval''),
     (''health_retries'', ''--health-retries''), (''health_start_period'', ''--health-start-period'')]"

text \<open>A list of flags, each with its value, every flag of a key that is declared.\<close>

fun declared_flags :: "dict \<Rightarrow> string list \<Rightarrow> bool" where
  "declared_flags d [] = True"
| "declared_flags d [x] = False"
| "declared_flags d (f # v # args) =
     ((\<exists>k. (k, f) \<in> set MANAGED \<and> has_key d k) \<and> declared_flags d args)"

lemma declared_flags_append: "declared_flags d xs \<Longrightarrow> declared_flags d ys \<Longrightarrow> declared_flags d (xs @ ys)"
  by (induction d xs rule: declared_flags.induct) auto

lemma declared_flags_concat: "(\<And>x. x \<in> set xs \<Longrightarrow> declared_flags d x) \<Longrightarrow> declared_flags d (concat xs)"
  by (induction xs) (auto intro: declared_flags_append)

lemma declared_pair: "(k, f) \<in> set MANAGED \<Longrightarrow> has_key d k \<Longrightarrow> declared_flags d [f, v]"
  by auto

lemma flag_if_declared: "(k, f) \<in> set MANAGED \<Longrightarrow> declared_flags d (flag_if d k f)"
  by (auto simp: flag_if_def)

lemma field_drift_declared:
  "field_drift d k f same = Inr xs \<Longrightarrow> (k, f) \<in> set MANAGED \<Longrightarrow> declared_flags d xs"
  by (auto simp: field_drift_def bindR_Inr_iff split: if_splits)

lemma health_flags_declared: "has_key d ''health_cmd'' \<Longrightarrow> declared_flags d (health_flags d)"
  unfolding health_flags_def
  by (intro declared_flags_append flag_if_declared declared_pair [of "''health_cmd''"]) (simp_all add: MANAGED_def)

lemma health_drift_declared: "health_drift d c = Inr xs \<Longrightarrow> declared_flags d xs"
  by (auto simp: health_drift_def bindR_Inr_iff health_flags_declared split: if_splits)

lemma constraint_drift_declared: "constraint_drift d p = Inr xs \<Longrightarrow> declared_flags d xs"
  by (auto simp: constraint_drift_def bindR_Inr_iff split: if_splits
      intro!: declared_flags_append declared_flags_concat declared_pair [of "''constraints''"])
    (simp_all add: MANAGED_def)

definition part_declared :: "dict \<Rightarrow> string list flt \<Rightarrow> bool" where
  "part_declared d part = (\<forall>xs. part = Inr xs \<longrightarrow> declared_flags d xs)"

lemma part_declared_bind: "(\<And>x. part_declared d (f x)) \<Longrightarrow> part_declared d (bindR r f)"
  by (auto simp: part_declared_def bindR_Inr_iff)

lemma part_declared_parts:
  "(k, f) \<in> set MANAGED \<Longrightarrow> part_declared d (field_drift d k f same)"
  "part_declared d (constraint_drift d p)"
  "part_declared d (health_drift d c)"
  by (auto simp: part_declared_def intro: field_drift_declared constraint_drift_declared health_drift_declared)

lemma drift_parts_declared: "list_all (part_declared d) (drift_parts d c r u p)"
  unfolding drift_parts_def list.pred_inject
  by (intro conjI TrueI part_declared_bind part_declared_parts) (simp_all add: MANAGED_def)

text \<open>The diff touches only what is declared: what it returns is a list of flags with their
  values, and every flag belongs to a key of the desired specification. A field that the
  specification does not name is never sent to docker, whatever the live service has there.\<close>

theorem drift_only_declared:
  assumes "swarm_service_drift inspect (PDict d) = Inr args"
  shows "declared_flags d args"
proof -
  obtain c r u p where "concatR (drift_parts d c r u p) = Inr args"
    using assms by (rule drift_parts_of)
  then obtain xs where "drift_parts d c r u p = map Inr xs" "args = concat xs"
    by (auto simp: concatR_def bindR_Inr_iff mapR_id)
  then show ?thesis
    using drift_parts_declared [of d c r u p] by (auto simp: list_all_iff part_declared_def intro!: declared_flags_concat)
qed

theorem drift_only_declared_witness:
  "swarm_service_drift (PDict []) (PDict demo_desired)
     = Inr [''--image'', ''postgres:18'', ''--limit-memory'', ''512m'', ''--constraint-add'', ''node.role==manager'']
   \<and> declared_flags demo_desired [''--image'', ''postgres:18'', ''--limit-memory'', ''512m'', ''--constraint-add'', ''node.role==manager'']"
proof -
  have run: "swarm_service_drift (PDict []) (PDict demo_desired)
     = Inr [''--image'', ''postgres:18'', ''--limit-memory'', ''512m'', ''--constraint-add'', ''node.role==manager'']"
    by code_simp
  from drift_only_declared [OF run] run show ?thesis by blast
qed

end
