(* ===== verification/Tier1_Stack.thy ===== *)
theory Tier1_Stack
  imports Service_Drift
begin

text \<open>
  The compose rendering of the control plane's services,
  \<open>src/ansible/playbooks/filter_plugins/tier1_stack.py\<close>: the mount form, the blocks of a service, the
  roster the roles accumulate and the whole file. A key the filter leaves out of its output when a list
  is empty is an empty list here; a key it sets only sometimes is an option.
\<close>

section \<open>Definitions\<close>

definition RESTART_DELAY :: string where "RESTART_DELAY = ''5s''"
definition T1_REQUIRED :: "string list" where "T1_REQUIRED = [''name'', ''image'']"
definition T1_REFUSED :: "string list" where
  "T1_REFUSED = [''depends_on'', ''restart'', ''network_mode'', ''group'', ''group_add'']"

text \<open>\<open>str(v)\<close> of a key, when it is there.\<close>

definition str_opt :: "dict \<Rightarrow> string \<Rightarrow> string option" where
  "str_opt d k = map_option py_str (map_of d k)"

text \<open>\<open>[str(x) for x in d.get(k) or []]\<close>.\<close>

definition strs_or :: "dict \<Rightarrow> string \<Rightarrow> string list flt" where
  "strs_or d k = bindR (items_or (dget d k)) (\<lambda>xs. Inr (map py_str xs))"

definition opt_by :: "(py \<Rightarrow> 'a flt) \<Rightarrow> dict \<Rightarrow> string \<Rightarrow> 'a option flt" where
  "opt_by f d k = (case map_of d k of None \<Rightarrow> Inr None | Some v \<Rightarrow> bindR (f v) (\<lambda>x. Inr (Some x)))"

subsection \<open>Mounts\<close>

definition mount_field :: "(string \<times> string) list \<Rightarrow> string \<Rightarrow> (string \<times> string) list" where
  "mount_field fs part = (case partition_char (CHR ''='') (strip part) of (key, sep, v) \<Rightarrow>
     AList.update (strip key) (if sep then strip v else ''true'') fs)"

definition field_or :: "(string \<times> string) list \<Rightarrow> string \<Rightarrow> string \<Rightarrow> string" where
  "field_or fs a b = (let x = (case map_of fs a of None \<Rightarrow> [] | Some v \<Rightarrow> v) in
     if x \<noteq> [] then x else case map_of fs b of None \<Rightarrow> [] | Some v \<Rightarrow> v)"

definition swarm_mount_to_compose :: "py \<Rightarrow> string flt" where
  "swarm_mount_to_compose mount =
     (let fs = foldl mount_field [] (split_char (CHR '','') (py_str mount));
          source = field_or fs ''source'' ''src''; dest = field_or fs ''destination'' ''target'';
          readonly = lower (case map_of fs ''readonly'' of None \<Rightarrow> [] | Some v \<Rightarrow> v) in
      if source = [] \<or> dest = [] then Inl Value_Error
      else Inr (source @ '':'' @ dest @ (if readonly = ''true'' \<or> readonly = ''1'' then '':ro'' else [])))"

subsection \<open>The blocks of a service\<close>

record deploy =
  dp_replicas :: "int option"
  dp_restart :: "string \<times> string"
  dp_global :: bool
  dp_limit_memory :: "string option"
  dp_reserve_memory :: "string option"
  dp_failure_action :: "string option"
  dp_monitor :: "string option"
  dp_order :: "string option"
  dp_max_failure_ratio :: "dbl option"
  dp_constraints :: "string list"

definition deploy_block :: "dict \<Rightarrow> deploy flt" where
  "deploy_block spec =
     bindR (as_int (dget_def spec ''replicas'' (PInt 1))) (\<lambda>replicas.
     let global = (strip_or (dget spec ''mode'') = ''global'') in
     bindR (if str_opt spec ''update_failure_action'' = Some ''rollback'' then Inl Value_Error
            else Inr (str_opt spec ''update_failure_action'')) (\<lambda>action.
     bindR (opt_by float_of spec ''update_max_failure_ratio'') (\<lambda>ratio.
     bindR (strs_or spec ''constraints'') (\<lambda>constraints.
       Inr \<lparr>dp_replicas = (if global then None else Some replicas), dp_restart = (''any'', RESTART_DELAY), dp_global = global,
         dp_limit_memory = str_opt spec ''limit_memory'', dp_reserve_memory = str_opt spec ''reserve_memory'',
         dp_failure_action = action, dp_monitor = str_opt spec ''update_monitor'', dp_order = str_opt spec ''update_order'',
         dp_max_failure_ratio = ratio, dp_constraints = constraints\<rparr>))))"

record health =
  hc_cmd :: string
  hc_interval :: "string option"
  hc_retries :: "int option"
  hc_start_period :: "string option"

definition healthcheck :: "dict \<Rightarrow> health option flt" where
  "healthcheck spec = (case map_of spec ''health_cmd'' of
      None \<Rightarrow> Inr None
    | Some cmd \<Rightarrow> bindR (opt_by as_int spec ''health_retries'') (\<lambda>retries.
        Inr (Some \<lparr>hc_cmd = py_str cmd, hc_interval = str_opt spec ''health_interval'', hc_retries = retries,
          hc_start_period = str_opt spec ''health_start_period''\<rparr>)))"

record t1_port =
  tp_target :: int
  tp_published :: int
  tp_protocol :: string
  tp_mode :: string

definition port_int :: "dict \<Rightarrow> string \<Rightarrow> int flt" where
  "port_int port k = (case map_of port k of None \<Rightarrow> Inl (Key_Error k) | Some v \<Rightarrow> as_int v)"

definition one_port :: "py \<Rightarrow> t1_port flt" where
  "one_port v = (case v of
      PDict port \<Rightarrow>
        if has_key port ''host_ip'' then Inl Value_Error
        else bindR (port_int port ''target'') (\<lambda>t. bindR (port_int port ''published'') (\<lambda>p.
          Inr \<lparr>tp_target = t, tp_published = p, tp_protocol = py_str (dget_def port ''protocol'' (PStr ''tcp'')),
            tp_mode = py_str (dget_def port ''mode'' (PStr ''host''))\<rparr>))
    | _ \<Rightarrow> Inl Value_Error)"

definition ports_of :: "dict \<Rightarrow> t1_port list flt" where
  "ports_of spec = bindR (items_or (dget spec ''ports'')) (mapR one_port)"

text \<open>A secret by its own name, or under a target of its own.\<close>

datatype t1_secret = Plain_Secret string | Mounted_Secret string string

definition secret_source :: "dict \<Rightarrow> py" where
  "secret_source d = (if truthy (dget d ''name'') then dget d ''name'' else dget d ''source'')"

definition one_secret :: "py \<Rightarrow> t1_secret flt" where
  "one_secret v = (case v of
      PDict d \<Rightarrow> (let source = str_or (secret_source d); target = str_or (dget d ''target'') in
        if source = [] \<or> target = [] then Inl Value_Error else Inr (Mounted_Secret source target))
    | _ \<Rightarrow> Inr (Plain_Secret (py_str v)))"

text \<open>\<open>{str(k): str(v) for k, v in sorted(d.items())}\<close>.\<close>

definition sorted_strs :: "py \<Rightarrow> (string \<times> string) list flt" where
  "sorted_strs v = (if \<not> truthy v then Inr [] else case v of
      PDict d \<Rightarrow> Inr (map (\<lambda>kv. (fst kv, py_str (snd kv))) (sort_key fst d))
    | _ \<Rightarrow> Inl Attribute_Error)"

record compose_service =
  cs_image :: string
  cs_deploy :: deploy
  cs_stop_grace_period :: "string option"
  cs_networks :: "string list"
  cs_environment :: "(string \<times> string) list"
  cs_secrets :: "t1_secret list"
  cs_volumes :: "string list"
  cs_ports :: "t1_port list"
  cs_extra_hosts :: "string list"
  cs_labels :: "(string \<times> string) list"
  cs_healthcheck :: "health option"
  cs_command :: "py list option"
  cs_user :: "string option"

definition service_body :: "dict \<Rightarrow> compose_service flt" where
  "service_body spec =
     bindR (deploy_block spec) (\<lambda>dep.
     bindR (strs_or spec ''networks'') (\<lambda>networks.
     bindR (sorted_strs (dget spec ''environment'')) (\<lambda>environment.
     bindR (bindR (items_or (dget spec ''secrets'')) (mapR one_secret)) (\<lambda>secrets.
     bindR (strs_or spec ''volumes'') (\<lambda>volumes.
     bindR (ports_of spec) (\<lambda>ps.
     bindR (strs_or spec ''extra_hosts'') (\<lambda>hosts.
     bindR (sorted_strs (dget spec ''container_labels'')) (\<lambda>labels.
     bindR (healthcheck spec) (\<lambda>hc.
     bindR (opt_by items_of spec ''command'') (\<lambda>command.
       Inr \<lparr>cs_image = py_str (dget spec ''image''), cs_deploy = dep,
         cs_stop_grace_period = str_opt spec ''stop_grace_period'', cs_networks = networks, cs_environment = environment,
         cs_secrets = secrets, cs_volumes = volumes, cs_ports = ps, cs_extra_hosts = hosts, cs_labels = labels,
         cs_healthcheck = hc, cs_command = command, cs_user = str_opt spec ''user''\<rparr>))))))))))"

definition t1_service :: "py \<Rightarrow> compose_service flt" where
  "t1_service v = (case v of
      PDict spec \<Rightarrow>
        if list_ex (\<lambda>k. strip_or (dget spec k) = []) T1_REQUIRED then Inl Value_Error
        else if list_ex (has_key spec) T1_REFUSED then Inl Value_Error
        else service_body spec
    | _ \<Rightarrow> Inl Value_Error)"

subsection \<open>The roster and the file\<close>

definition get_name :: "py \<Rightarrow> string flt" where
  "get_name v = (case v of PDict d \<Rightarrow> Inr (str_or (dget d ''name'')) | _ \<Rightarrow> Inl Attribute_Error)"

fun other_names :: "string \<Rightarrow> py list \<Rightarrow> py list flt" where
  "other_names name [] = Inr []"
| "other_names name (s # ss) =
     bindR (get_name s) (\<lambda>n. bindR (other_names name ss) (\<lambda>r. Inr (if n \<noteq> name then s # r else r)))"

definition tier1_spec_upsert :: "py \<Rightarrow> py \<Rightarrow> py list flt" where
  "tier1_spec_upsert existing spec =
     bindR (if truthy spec then get_name spec else Inr []) (\<lambda>n.
       if strip n = [] then Inl Value_Error
       else bindR (items_or existing) (\<lambda>ss. bindR (other_names (strip n) ss) (\<lambda>r. Inr (r @ [spec]))))"

definition spec_name :: "py \<Rightarrow> string" where
  "spec_name v = (case v of PDict d \<Rightarrow> strip_or (dget d ''name'') | _ \<Rightarrow> [])"

definition add_service :: "py \<Rightarrow> (string \<times> compose_service) list \<Rightarrow> (string \<times> compose_service) list flt" where
  "add_service v rendered =
     (if spec_name v \<in> set (map fst rendered) then Inl Value_Error
      else bindR (t1_service v) (\<lambda>s. Inr (rendered @ [(spec_name v, s)])))"

record references =
  rf_networks :: "string list"
  rf_secrets :: "string list"
  rf_volumes :: "string list"

definition declared_secret :: "py \<Rightarrow> string" where
  "declared_secret v = (case v of PDict d \<Rightarrow> py_str (secret_source d) | _ \<Rightarrow> py_str v)"

definition volume_source :: "string \<Rightarrow> string" where
  "volume_source v = takeWhile (\<lambda>c. c \<noteq> CHR '':'') v"

definition named_volume :: "string \<Rightarrow> bool" where
  "named_volume v = (volume_source v \<noteq> [] \<and> \<not> prefix ''/'' (volume_source v))"

definition add_references :: "py \<Rightarrow> references \<Rightarrow> references flt" where
  "add_references v r = (case v of
      PDict spec \<Rightarrow>
        bindR (strs_or spec ''networks'') (\<lambda>networks.
        bindR (items_or (dget spec ''secrets'')) (\<lambda>secrets.
        bindR (strs_or spec ''volumes'') (\<lambda>volumes.
          Inr \<lparr>rf_networks = rf_networks r @ networks, rf_secrets = rf_secrets r @ map declared_secret secrets,
            rf_volumes = rf_volumes r @ map volume_source (filter named_volume volumes)\<rparr>)))
    | _ \<Rightarrow> Inl Attribute_Error)"

record compose =
  cm_services :: "(string \<times> compose_service) list"
  cm_networks :: "string list"
  cm_volumes :: "string list"
  cm_secrets :: "string list"

definition external :: "string list \<Rightarrow> string list" where
  "external names = sort (remdups names)"

definition tier1_stack_render :: "py \<Rightarrow> compose flt" where
  "tier1_stack_render services = (case services of
      PList (s # ss) \<Rightarrow>
        bindR (foldR add_service (s # ss) []) (\<lambda>rendered.
        bindR (foldR add_references (s # ss) \<lparr>rf_networks = [], rf_secrets = [], rf_volumes = []\<rparr>) (\<lambda>r.
          Inr \<lparr>cm_services = rendered, cm_networks = external (rf_networks r), cm_volumes = external (rf_volumes r),
            cm_secrets = external (rf_secrets r)\<rparr>))
    | _ \<Rightarrow> Inl Value_Error)"

section \<open>Services and what they refer to\<close>

fun secret_name :: "t1_secret \<Rightarrow> string" where
  "secret_name (Plain_Secret s) = s"
| "secret_name (Mounted_Secret s t) = s"

definition volume_names :: "compose_service \<Rightarrow> string list" where
  "volume_names s = map volume_source (filter named_volume (cs_volumes s))"

lemma one_secret_name: "one_secret v = Inr x \<Longrightarrow> declared_secret v = secret_name x"
  by (auto simp: one_secret_def declared_secret_def str_or_def Let_def split: py.splits if_splits)

lemma mapR_secret_names: "mapR one_secret vs = Inr xs \<Longrightarrow> map declared_secret vs = map secret_name xs"
  by (induction vs arbitrary: xs) (auto simp: bindR_Inr_iff one_secret_name)

lemma t1_service_parts:
  assumes "t1_service v = Inr s"
  obtains spec vs where "v = PDict spec" "strs_or spec ''networks'' = Inr (cs_networks s)"
    "items_or (dget spec ''secrets'') = Inr vs" "mapR one_secret vs = Inr (cs_secrets s)"
    "strs_or spec ''volumes'' = Inr (cs_volumes s)" "deploy_block spec = Inr (cs_deploy s)"
proof -
  from assms obtain spec where v: "v = PDict spec" "service_body spec = Inr s"
    by (auto simp: t1_service_def split: py.splits if_splits)
  from v(2) obtain dep nets env vs secs vols where "deploy_block spec = Inr dep" "strs_or spec ''networks'' = Inr nets"
    "items_or (dget spec ''secrets'') = Inr vs" "mapR one_secret vs = Inr secs" "strs_or spec ''volumes'' = Inr vols"
    "cs_networks s = nets" "cs_secrets s = secs" "cs_volumes s = vols" "cs_deploy s = dep"
    unfolding service_body_def bindR_Inr_iff by auto
  with that v(1) show thesis by blast
qed

lemma add_references_service:
  assumes "t1_service v = Inr s"
  shows "add_references v r = Inr \<lparr>rf_networks = rf_networks r @ cs_networks s,
    rf_secrets = rf_secrets r @ map secret_name (cs_secrets s), rf_volumes = rf_volumes r @ volume_names s\<rparr>"
proof -
  obtain spec vs where p: "v = PDict spec" "strs_or spec ''networks'' = Inr (cs_networks s)"
    "items_or (dget spec ''secrets'') = Inr vs" "mapR one_secret vs = Inr (cs_secrets s)"
    "strs_or spec ''volumes'' = Inr (cs_volumes s)" using t1_service_parts [OF assms] .
  show ?thesis unfolding add_references_def p(1) py.case p(2,3,5) bindR_simps mapR_secret_names [OF p(4)] volume_names_def ..
qed

definition renders :: "py \<Rightarrow> string \<times> compose_service \<Rightarrow> bool" where
  "renders v r = (fst r = spec_name v \<and> t1_service v = Inr (snd r))"

lemma foldR_add_references:
  assumes "list_all2 renders vs rs"
  shows "foldR add_references vs r = Inr \<lparr>rf_networks = rf_networks r @ concat (map (cs_networks \<circ> snd) rs),
    rf_secrets = rf_secrets r @ concat (map (map secret_name \<circ> cs_secrets \<circ> snd) rs),
    rf_volumes = rf_volumes r @ concat (map (volume_names \<circ> snd) rs)\<rparr>"
  using assms
  by (induction arbitrary: r rule: list_all2_induct) (auto simp: renders_def add_references_service)

lemma add_service_Inr:
  "add_service v acc = Inr out \<longleftrightarrow> spec_name v \<notin> set (map fst acc) \<and> (\<exists>s. t1_service v = Inr s \<and> out = acc @ [(spec_name v, s)])"
  by (auto simp: add_service_def bindR_Inr_iff)

lemma foldR_add_service:
  assumes "foldR add_service vs acc = Inr out" and "distinct (map fst acc)"
  shows "\<exists>rs. out = acc @ rs \<and> list_all2 renders vs rs \<and> distinct (map fst out)"
  using assms
proof (induction vs arbitrary: acc)
  case (Cons v vs)
  then obtain s where s: "t1_service v = Inr s" "spec_name v \<notin> set (map fst acc)"
    "foldR add_service vs (acc @ [(spec_name v, s)]) = Inr out"
    unfolding foldR.simps bindR_Inr_iff add_service_Inr by blast
  with Cons.IH [OF s(3)] Cons.prems(2) obtain rs where "out = acc @ (spec_name v, s) # rs" "list_all2 renders vs rs" "distinct (map fst out)"
    by auto
  moreover have "renders v (spec_name v, s)" using s(1) by (simp add: renders_def)
  ultimately show ?case by (intro exI [of _ "(spec_name v, s) # rs"]) simp
qed simp

lemma foldR_add_service_ok:
  assumes "list_all2 renders vs rs" and "distinct (map fst (acc @ rs))"
  shows "foldR add_service vs acc = Inr (acc @ rs)"
  using assms
proof (induction arbitrary: acc rule: list_all2_induct)
  case (Cons v vs r rs)
  then have "add_service v acc = Inr (acc @ [r])" by (cases r) (auto simp: add_service_def renders_def)
  with Cons.IH [of "acc @ [r]"] Cons.prems show ?case by simp
qed simp

lemma deploy_block_sane:
  assumes "deploy_block spec = Inr d"
  shows "dp_failure_action d \<noteq> Some ''rollback'' \<and> dp_restart d = (''any'', RESTART_DELAY) \<and> (dp_global d \<longleftrightarrow> dp_replicas d = None)"
  using assms unfolding deploy_block_def Let_def bindR_Inr_iff by (auto split: if_splits)

lemma set_external [simp]: "set (external xs) = set xs"
  by (simp add: external_def)

lemma render_parts:
  assumes "tier1_stack_render services = Inr out"
  obtains vs where "services = PList vs" and "list_all2 renders vs (cm_services out)" and "distinct (map fst (cm_services out))"
    and "cm_networks out = external (concat (map (cs_networks \<circ> snd) (cm_services out)))"
    and "cm_secrets out = external (concat (map (map secret_name \<circ> cs_secrets \<circ> snd) (cm_services out)))"
    and "cm_volumes out = external (concat (map (volume_names \<circ> snd) (cm_services out)))"
proof -
  from assms obtain v vs where s: "services = PList (v # vs)"
    by (auto simp: tier1_stack_render_def split: py.splits list.splits)
  from assms obtain rs where f: "foldR add_service (v # vs) [] = Inr rs"
    unfolding s tier1_stack_render_def py.case list.case bindR_Inr_iff by blast
  obtain rs' where r: "rs = [] @ rs'" "list_all2 renders (v # vs) rs'" "distinct (map fst rs)"
    using foldR_add_service [OF f] by auto
  have "out = \<lparr>cm_services = rs', cm_networks = external (concat (map (cs_networks \<circ> snd) rs')),
      cm_volumes = external (concat (map (volume_names \<circ> snd) rs')), cm_secrets = external (concat (map (map secret_name \<circ> cs_secrets \<circ> snd) rs'))\<rparr>"
    using assms unfolding s tier1_stack_render_def py.case list.case f bindR_simps foldR_add_references [OF r(2)] r(1) by simp
  with that s r show thesis by simp
qed

section \<open>The roster\<close>

definition trimmed :: "py \<Rightarrow> bool" where
  "trimmed v = (case v of PDict d \<Rightarrow> strip_or (dget d ''name'') = str_or (dget d ''name'') | _ \<Rightarrow> False)"

definition upsert_all :: "py list \<Rightarrow> py list flt" where
  "upsert_all specs = foldR (\<lambda>s r. tier1_spec_upsert (PList r) s) specs []"

lemma foldR_append: "foldR f (xs @ ys) s = bindR (foldR f xs s) (foldR f ys)"
  by (induction xs arbitrary: s) (auto simp: bindR_def split: sum.split)

lemma trimmed_name: "trimmed v \<Longrightarrow> get_name v = Inr (spec_name v)"
  by (auto simp: trimmed_def get_name_def spec_name_def split: py.splits)

lemma other_names_trimmed: "\<forall>s \<in> set ss. trimmed s \<Longrightarrow> other_names n ss = Inr (filter (\<lambda>s. spec_name s \<noteq> n) ss)"
  by (induction ss) (auto simp: trimmed_name)

lemma strip_spec_name: "strip (spec_name v) = spec_name v"
proof -
  have "strip [] = []" by (simp add: strip_def strip_by_def)
  then show ?thesis by (auto simp: spec_name_def strip_or_def split: py.splits)
qed

lemma service_named: "t1_service v = Inr s \<Longrightarrow> spec_name v \<noteq> [] \<and> truthy v"
  by (auto simp: t1_service_def spec_name_def T1_REQUIRED_def strip_or_def str_or_def dget_def strip_def strip_by_def split: py.splits if_splits)

lemma upsert_trimmed:
  assumes "\<forall>x \<in> set r. trimmed x" and "trimmed s" and "spec_name s \<noteq> []" and "truthy s"
  shows "tier1_spec_upsert (PList r) s = Inr (filter (\<lambda>x. spec_name x \<noteq> spec_name s) r @ [s])"
  using assms by (simp add: tier1_spec_upsert_def trimmed_name strip_spec_name items_or_def other_names_trimmed)

lemma find_other: "n \<noteq> m \<Longrightarrow> find (\<lambda>s. f s = n) (filter (\<lambda>x. f x \<noteq> m) r) = find (\<lambda>s. f s = n) r"
  by (induction r) auto

lemma find_append: "find P (xs @ ys) = (case find P xs of None \<Rightarrow> find P ys | Some x \<Rightarrow> Some x)"
  by (induction xs) auto

lemma upsert_all_roster:
  assumes "\<forall>s \<in> set specs. trimmed s \<and> spec_name s \<noteq> [] \<and> truthy s"
  shows "\<exists>roster. upsert_all specs = Inr roster \<and> set roster \<subseteq> set specs \<and> distinct (map spec_name roster)
    \<and> (\<forall>n. find (\<lambda>s. spec_name s = n) roster = find (\<lambda>s. spec_name s = n) (rev specs)) \<and> (specs \<noteq> [] \<longrightarrow> roster \<noteq> [])"
  using assms
proof (induction specs rule: rev_induct)
  case (snoc s specs)
  then obtain r where r: "upsert_all specs = Inr r" "set r \<subseteq> set specs" "distinct (map spec_name r)"
    "\<forall>n. find (\<lambda>s. spec_name s = n) r = find (\<lambda>s. spec_name s = n) (rev specs)" by auto
  let ?r = "filter (\<lambda>x. spec_name x \<noteq> spec_name s) r @ [s]"
  have "\<forall>x \<in> set r. trimmed x" using r(2) snoc.prems by auto
  then have "upsert_all (specs @ [s]) = Inr ?r"
    using r(1) snoc.prems upsert_trimmed [of r s] by (simp add: upsert_all_def foldR_append)
  moreover have "find (\<lambda>x. spec_name x = n) ?r = find (\<lambda>x. spec_name x = n) (rev (specs @ [s]))" for n
  proof (cases "n = spec_name s")
    case True
    then have "find (\<lambda>x. spec_name x = n) (filter (\<lambda>x. spec_name x \<noteq> spec_name s) r) = None" by (auto simp: find_None_iff)
    with True show ?thesis by (simp add: find_append)
  next
    case False
    then show ?thesis using r(4) by (auto simp: find_append find_other split: option.splits)
  qed
  moreover have "distinct (map spec_name ?r)" using r(3) by (auto simp: distinct_map_filter)
  ultimately show ?case using r(2) by auto
qed (simp add: upsert_all_def)

section \<open>Properties\<close>

text \<open>C25: the file declares what its services refer to. In every rendered file the services have distinct
  names, the networks, secrets and named volumes declared at the top are exactly those the services
  refer to, no service asks swarm to roll back on its own, and each one restarts after a delay and has
  replicas unless it is global.\<close>

theorem references_declared:
  assumes "tier1_stack_render services = Inr out"
  shows "distinct (map fst (cm_services out))
    \<and> set (cm_networks out) = (\<Union>(n, s) \<in> set (cm_services out). set (cs_networks s))
    \<and> set (cm_secrets out) = (\<Union>(n, s) \<in> set (cm_services out). secret_name ` set (cs_secrets s))
    \<and> set (cm_volumes out) = (\<Union>(n, s) \<in> set (cm_services out). volume_source ` {v \<in> set (cs_volumes s). named_volume v})
    \<and> (\<forall>(n, s) \<in> set (cm_services out). dp_failure_action (cs_deploy s) \<noteq> Some ''rollback''
        \<and> dp_restart (cs_deploy s) = (''any'', RESTART_DELAY) \<and> (dp_global (cs_deploy s) \<longleftrightarrow> dp_replicas (cs_deploy s) = None))"
proof -
  obtain vs where p: "list_all2 renders vs (cm_services out)" "distinct (map fst (cm_services out))"
    "cm_networks out = external (concat (map (cs_networks \<circ> snd) (cm_services out)))"
    "cm_secrets out = external (concat (map (map secret_name \<circ> cs_secrets \<circ> snd) (cm_services out)))"
    "cm_volumes out = external (concat (map (volume_names \<circ> snd) (cm_services out)))"
    using render_parts [OF assms] .
  have "\<exists>spec. deploy_block spec = Inr (cs_deploy s)" if "(n, s) \<in> set (cm_services out)" for n s
  proof -
    from p(1) that obtain v where "renders v (n, s)" by (auto simp: list_all2_conv_all_nth in_set_conv_nth)
    then show ?thesis using t1_service_parts [of v s] by (auto simp: renders_def)
  qed
  then have "\<forall>(n, s) \<in> set (cm_services out). dp_failure_action (cs_deploy s) \<noteq> Some ''rollback''
      \<and> dp_restart (cs_deploy s) = (''any'', RESTART_DELAY) \<and> (dp_global (cs_deploy s) \<longleftrightarrow> dp_replicas (cs_deploy s) = None)"
    using deploy_block_sane by blast
  moreover have "set (cm_networks out) = (\<Union>(n, s) \<in> set (cm_services out). set (cs_networks s))"
    "set (cm_secrets out) = (\<Union>(n, s) \<in> set (cm_services out). secret_name ` set (cs_secrets s))"
    "set (cm_volumes out) = (\<Union>(n, s) \<in> set (cm_services out). volume_source ` {v \<in> set (cs_volumes s). named_volume v})"
    unfolding p(3-5) by (auto simp: volume_names_def)
  ultimately show ?thesis using p(2) by (intro conjI)
qed

definition demo_db :: py where
  "demo_db = PDict [(''name'', PStr ''catena-postgres''), (''image'', PStr ''postgres:17''), (''networks'', PList [PStr ''overlay'']),
     (''volumes'', PList [PStr ''pgdata:/var/lib/postgresql'', PStr ''/etc/x:/x:ro'']),
     (''secrets'', PList [PDict [(''name'', PStr ''pw-1a2b''), (''target'', PStr ''pw'')]])]"

theorem references_declared_witness:
  "\<exists>out. tier1_stack_render (PList [demo_db]) = Inr out \<and> distinct (map fst (cm_services out))
    \<and> cm_networks out = [''overlay''] \<and> cm_volumes out = [''pgdata''] \<and> cm_secrets out = [''pw-1a2b'']"
proof -
  have "case tier1_stack_render (PList [demo_db]) of Inl _ \<Rightarrow> False
    | Inr out \<Rightarrow> cm_networks out = [''overlay''] \<and> cm_volumes out = [''pgdata''] \<and> cm_secrets out = [''pw-1a2b'']"
    by code_simp
  then obtain out where "tier1_stack_render (PList [demo_db]) = Inr out"
    "cm_networks out = [''overlay''] \<and> cm_volumes out = [''pgdata''] \<and> cm_secrets out = [''pw-1a2b'']"
    by (auto split: sum.splits)
  moreover note references_declared [OF this(1), THEN conjunct1]
  ultimately show ?thesis by (intro exI [of _ out] conjI) simp_all
qed

text \<open>A roster that the roles fill one spec at a time renders, however often a role runs. When every spec
  renders on its own and no name has blanks around it, upserting them in turn succeeds, the roster
  renders, and under each name the file has the last spec given for it.\<close>

theorem roster_renders:
  assumes "specs \<noteq> []" and "\<forall>s \<in> set specs. trimmed s \<and> (\<exists>c. t1_service s = Inr c)"
  shows "\<exists>roster out. upsert_all specs = Inr roster \<and> tier1_stack_render (PList roster) = Inr out
    \<and> (\<forall>n c. map_of (cm_services out) n = Some c \<longleftrightarrow>
        (\<exists>s. find (\<lambda>s. spec_name s = n) (rev specs) = Some s \<and> t1_service s = Inr c))"
proof -
  have "\<forall>s \<in> set specs. trimmed s \<and> spec_name s \<noteq> [] \<and> truthy s" using assms(2) service_named by blast
  from upsert_all_roster [OF this] assms(1) obtain roster where
    r: "upsert_all specs = Inr roster" "set roster \<subseteq> set specs" "distinct (map spec_name roster)"
      "\<forall>n. find (\<lambda>s. spec_name s = n) roster = find (\<lambda>s. spec_name s = n) (rev specs)" "roster \<noteq> []" by blast
  let ?rs = "map (\<lambda>s. (spec_name s, projr (t1_service s))) roster"
  have ok: "\<forall>s \<in> set roster. t1_service s = Inr (projr (t1_service s))" using r(2) assms(2) by force
  then have l: "list_all2 renders roster ?rs" by (auto simp: list_all2_conv_all_nth renders_def)
  have a: "foldR add_service roster [] = Inr ?rs"
    using foldR_add_service_ok [OF l, of "[]"] r(3) by (simp add: comp_def)
  obtain x xs where x: "roster = x # xs" using r(5) by (cases roster) auto
  obtain out where o1: "tier1_stack_render (PList roster) = Inr out" "cm_services out = ?rs"
    using a foldR_add_references [OF l] unfolding x tier1_stack_render_def py.case list.case by auto
  have "map_of ?rs n = Some c \<longleftrightarrow> (\<exists>s. find (\<lambda>s. spec_name s = n) roster = Some s \<and> t1_service s = Inr c)" for n c
    using ok by (induction roster) (auto split: if_splits)
  then show ?thesis using r(1,4) o1 by auto
qed

theorem roster_renders_witness:
  "\<exists>roster out. upsert_all [demo_db, demo_db] = Inr roster \<and> tier1_stack_render (PList roster) = Inr out
    \<and> (\<exists>c. map_of (cm_services out) ''catena-postgres'' = Some c)"
proof -
  have "trimmed demo_db" "spec_name demo_db = ''catena-postgres''" by code_simp+
  have "case t1_service demo_db of Inl _ \<Rightarrow> False | Inr _ \<Rightarrow> True" by code_simp
  then obtain c where c: "t1_service demo_db = Inr c" by (auto split: sum.splits)
  with \<open>trimmed demo_db\<close> have "\<forall>s \<in> set [demo_db, demo_db]. trimmed s \<and> (\<exists>c. t1_service s = Inr c)" by simp
  from roster_renders [OF list.distinct(2) this] obtain roster out where r: "upsert_all [demo_db, demo_db] = Inr roster"
    "tier1_stack_render (PList roster) = Inr out" "\<forall>n c. map_of (cm_services out) n = Some c \<longleftrightarrow>
        (\<exists>s. find (\<lambda>s. spec_name s = n) (rev [demo_db, demo_db]) = Some s \<and> t1_service s = Inr c)"
    by (elim exE conjE) (rule that)
  have "map_of (cm_services out) ''catena-postgres'' = Some c"
    unfolding r(3) [rule_format] using c \<open>spec_name demo_db = ''catena-postgres''\<close> by simp
  with r(1,2) show ?thesis by blast
qed

text \<open>A name with blanks around it is compared untrimmed with the roster's: the same spec is then added twice,
  and the roster is refused for its duplicate name.\<close>

theorem padded_name_duplicates:
  "\<exists>roster. upsert_all [PDict [(''name'', PStr '' db''), (''image'', PStr ''i'')], PDict [(''name'', PStr '' db''), (''image'', PStr ''i'')]] = Inr roster
    \<and> length roster = 2 \<and> tier1_stack_render (PList roster) = Inl Value_Error
    \<and> (\<exists>out. tier1_stack_render (PList (tl roster)) = Inr out)"
proof -
  let ?s = "PDict [(''name'', PStr '' db''), (''image'', PStr ''i'')]"
  have "upsert_all [?s, ?s] = Inr [?s, ?s]" "tier1_stack_render (PList [?s, ?s]) = Inl Value_Error" by code_simp+
  moreover have "case tier1_stack_render (PList [?s]) of Inl _ \<Rightarrow> False | Inr _ \<Rightarrow> True" by code_simp
  ultimately show ?thesis by (auto split: sum.splits)
qed

end
