(* ===== verification/Knob_Registry.thy ===== *)
theory Knob_Registry
  imports Filter_Values "HOL-Library.Multiset"
begin

text \<open>
  The knob registry, \<open>src/ansible/helpers/render_knobs.py\<close>: \<open>load\<close> with its checks, each loop body a
  definition of its own. The YAML reader is outside: \<open>load\<close> takes the document it gives, with mappings
  keyed by strings. A \<open>KnobError\<close> carries what its message names first, the key or the part of the
  registry at fault; an exception of the language (a mapping used where a set hashes its members, say)
  is kept apart from it.
\<close>

section \<open>Definitions\<close>

definition RESIDENCES :: "string list" where "RESIDENCES = [''store'', ''controller'', ''host'']"
definition KINDS :: "string list" where "KINDS = [''secret'', ''text'', ''choice'']"
definition SECTIONS :: "string list" where "SECTIONS = [''secrets'', ''config'']"
definition GROUPS :: "string list" where
  "GROUPS = [''tunnel'', ''backup'', ''mail'', ''alerts'', ''share'', ''access'', ''license'', ''hostnames'',
     ''subdomains'', ''server'', ''vulnerabilities'']"
definition PANEL_OPTION_SOURCES :: "string list" where
  "PANEL_OPTION_SOURCES = [''timezones'', ''cloudflare_zones'']"
definition GUI_SUGGESTION_SOURCES :: "string list" where "GUI_SUGGESTION_SOURCES = [''ssh_keys'']"
definition LANGS :: "string list" where "LANGS = [''en'', ''fr'']"
definition KNOB_FIELDS :: "string list" where
  "KNOB_FIELDS = [''key'', ''residence'', ''var'', ''env'', ''panel'', ''step'', ''label'', ''help'', ''depends'',
     ''required'', ''gui_suggestions_from'', ''gui_choice'']"
definition GUI_CHOICES :: "string list" where "GUI_CHOICES = [''public'', ''private'']"
definition GUI_STEP_FIELDS :: "string list" where "GUI_STEP_FIELDS = [''name'', ''title'', ''doc'', ''note'']"
definition ENV_UNQUOTABLE :: string where
  "ENV_UNQUOTABLE = [CHR '' '', CHR 0x09, CHR ''#'', CHR 0x22, CHR 0x27, CHR ''$'']"

datatype knob_error = Knob_Error string | Raised filter_error

type_synonym 'a kn = "knob_error + 'a"

definition require :: "bool \<Rightarrow> string \<Rightarrow> unit kn" where
  "require condition at_fault = (if condition then Inr () else Inl (Knob_Error at_fault))"

definition thenR :: "'e + unit \<Rightarrow> 'e + 'a \<Rightarrow> 'e + 'a" where
  "thenR a b = bindR a (\<lambda>_. b)"

fun eachR :: "('a \<Rightarrow> 'e + unit) \<Rightarrow> 'a list \<Rightarrow> 'e + unit" where
  "eachR f [] = Inr ()"
| "eachR f (x # xs) = thenR (f x) (eachR f xs)"

definition whenR :: "bool \<Rightarrow> 'e + unit \<Rightarrow> 'e + unit" where
  "whenR b m = (if b then m else Inr ())"

text \<open>\<open>v in (names)\<close> for a tuple or list of strings, and for a set or dictionary, which hash \<open>v\<close> first.\<close>

definition one_of :: "py \<Rightarrow> string list \<Rightarrow> bool" where
  "one_of v ss = (case v of PStr s \<Rightarrow> s \<in> set ss | _ \<Rightarrow> False)"

definition can_hash :: "py \<Rightarrow> bool" where
  "can_hash v = (case v of PList _ \<Rightarrow> False | PDict _ \<Rightarrow> False | _ \<Rightarrow> True)"

definition one_of_set :: "py \<Rightarrow> string list \<Rightarrow> bool kn" where
  "one_of_set v ss = (if can_hash v then Inr (one_of v ss) else Inl (Raised Type_Error))"

definition is_str :: "py \<Rightarrow> bool" where "is_str v = (case v of PStr _ \<Rightarrow> True | _ \<Rightarrow> False)"
definition is_bool :: "py \<Rightarrow> bool" where "is_bool v = (case v of PBool _ \<Rightarrow> True | _ \<Rightarrow> False)"
definition is_dict :: "py \<Rightarrow> bool" where "is_dict v = (case v of PDict _ \<Rightarrow> True | _ \<Rightarrow> False)"
definition is_list :: "py \<Rightarrow> bool" where "is_list v = (case v of PList _ \<Rightarrow> True | _ \<Rightarrow> False)"
definition filled_str :: "py \<Rightarrow> bool" where "filled_str v = (case v of PStr s \<Rightarrow> s \<noteq> [] | _ \<Rightarrow> False)"
definition fields_of :: "py \<Rightarrow> dict" where "fields_of v = (case v of PDict d \<Rightarrow> d | _ \<Rightarrow> [])"
definition elems_of :: "py \<Rightarrow> py list" where "elems_of v = (case v of PList xs \<Rightarrow> xs | _ \<Rightarrow> [])"
definition py_text :: "py \<Rightarrow> string" where "py_text v = (case v of PStr s \<Rightarrow> s | _ \<Rightarrow> [])"

definition worded :: "dict \<Rightarrow> string \<Rightarrow> bool" where
  "worded d lang = (is_str (dget d lang) \<and> \<not> blank (py_text (dget d lang)))"

definition check_text :: "string \<Rightarrow> py \<Rightarrow> string list \<Rightarrow> unit kn" where
  "check_text whose v required =
     thenR (require (is_dict v) whose)
    (thenR (require (list_all (\<lambda>kv. fst kv \<in> set LANGS) (fields_of v)) whose)
       (eachR (\<lambda>lang. require (worded (fields_of v) lang) whose) required))"

definition choice_list :: "py \<Rightarrow> bool" where
  "choice_list options = (is_list options \<and> elems_of options \<noteq> [])"

definition panel_default :: "string \<Rightarrow> dict \<Rightarrow> unit kn" where
  "panel_default key panel =
     (let dflt = dget panel ''default''; options = dget panel ''options'' in
      whenR (dflt \<noteq> PNone)
       (thenR (require (\<not> py_eq (dget panel ''kind'') (PStr ''secret'')) key)
       (thenR (require (filled_str dflt) key)
         (whenR (options \<noteq> PNone) (require (list_ex (py_eq dflt) (elems_of options)) key)))))"

definition panel_source :: "string \<Rightarrow> dict \<Rightarrow> unit kn" where
  "panel_source key panel =
     (let source = dget panel ''options_from'' in
      whenR (source \<noteq> PNone)
       (thenR (require (one_of source PANEL_OPTION_SOURCES) key)
         (require (py_eq (dget panel ''kind'') (PStr ''text'')) key)))"

definition check_panel :: "string \<Rightarrow> py \<Rightarrow> unit kn" where
  "check_panel key v =
     (let panel = fields_of v; options = dget panel ''options'' in
      thenR (require (is_dict v) key)
     (thenR (eachR (\<lambda>k. require (has_key panel k) key) [''group'', ''section'', ''kind'', ''optional''])
     (thenR (require (one_of (dget panel ''group'') GROUPS) key)
     (thenR (require (one_of (dget panel ''section'') SECTIONS) key)
     (thenR (require (one_of (dget panel ''kind'') KINDS) key)
     (thenR (require (is_bool (dget panel ''optional'')) key)
     (thenR (if py_eq (dget panel ''kind'') (PStr ''choice'') then
               thenR (require (choice_list options) key) (require (list_all is_str (elems_of options)) key)
             else require (options = PNone) key)
     (thenR (panel_default key panel) (panel_source key panel)))))))))"

definition env_options :: "string \<Rightarrow> dict \<Rightarrow> unit kn" where
  "env_options key env =
     (let options = dget env ''options'' in
      whenR (options \<noteq> PNone)
       (thenR (require (choice_list options) key)
       (thenR (require (list_all is_str (elems_of options)) key)
         (require (list_ex (py_eq (dget env ''default'')) (elems_of options)) key))))"

definition env_example :: "string \<Rightarrow> dict \<Rightarrow> unit kn" where
  "env_example key env =
     whenR (dget env ''example'' \<noteq> PNone)
       (thenR (require (filled_str (dget env ''example'')) key) (require (\<not> truthy (dget env ''default'')) key))"

definition check_env :: "string \<Rightarrow> py \<Rightarrow> string list \<Rightarrow> unit kn" where
  "check_env key v sections =
     (let env = fields_of v; dflt = dget env ''default'' in
      thenR (require (is_dict v) key)
     (bindR (one_of_set (dget env ''section'') sections) (\<lambda>known.
      thenR (require known key)
     (thenR (require (is_str dflt) key)
     (thenR (require (\<not> list_ex (\<lambda>c. c \<in> set (py_text dflt)) ENV_UNQUOTABLE) key)
     (thenR (env_options key env)
     (thenR (env_example key env)
       (whenR (dget env ''reseed'' \<noteq> PNone) (require (dget env ''reseed'' = PBool True) key)))))))))"

subsection \<open>The sections and the steps\<close>

definition declare_section :: "py \<Rightarrow> string list \<Rightarrow> string list kn" where
  "declare_section section seen =
     (let d = fields_of section; name = dget d ''name'' in
      thenR (require (is_dict section) ''env_sections'')
     (thenR (require (filled_str name) ''env_sections'')
     (thenR (require (filled_str (dget d ''title'')) (py_text name))
     (thenR (require (py_text name \<notin> set seen) (py_text name)) (Inr (seen @ [py_text name]))))))"

definition declare_step :: "py \<Rightarrow> string list \<Rightarrow> string list kn" where
  "declare_step step seen =
     (let d = fields_of step; name = py_text (dget d ''name'') in
      thenR (require (is_dict step) ''gui_steps'')
     (thenR (require (filled_str (dget d ''name'')) ''gui_steps'')
     (thenR (require (name \<notin> set seen) name)
     (thenR (require (list_all (\<lambda>kv. fst kv \<in> set GUI_STEP_FIELDS) d) name)
     (thenR (eachR (\<lambda>field. thenR (require (has_key d field) name) (check_text name (dget d field) LANGS)) [''title'', ''doc''])
     (thenR (whenR (has_key d ''note'') (check_text name (dget d ''note'') LANGS))
       (Inr (seen @ [name]))))))))"

subsection \<open>The entries\<close>

text \<open>Where the launcher and the file print a knob, and the texts each of them needs.\<close>

definition entry_help :: "string \<Rightarrow> dict \<Rightarrow> string list \<Rightarrow> unit kn" where
  "entry_help key entry step_names =
     (if has_key entry ''step'' then
        thenR (require (one_of (dget entry ''step'') step_names) key)
       (thenR (require (has_key entry ''env'') key)
       (thenR (require (has_key entry ''label'') key)
       (thenR (check_text key (dget entry ''label'') LANGS)
       (thenR (require (has_key entry ''help'') key) (check_text key (dget entry ''help'') LANGS)))))
      else if has_key entry ''env'' then
        thenR (require (has_key entry ''help'') key) (check_text key (dget entry ''help'') [''en''])
      else require (\<not> has_key entry ''help'') key)"

definition entry_choice :: "string \<Rightarrow> dict \<Rightarrow> unit kn" where
  "entry_choice key entry =
     (let choice = dget entry ''gui_choice'' in
      whenR (has_key entry ''gui_choice'')
       (thenR (require (is_dict choice \<and> sort (map fst (fields_of choice)) = sort GUI_CHOICES) key)
       (thenR (eachR (\<lambda>option. check_text key (dget (fields_of choice) option) LANGS) GUI_CHOICES)
         (require (\<not> truthy (dget entry ''required'')) key))))"

definition check_entry :: "string list \<Rightarrow> py \<Rightarrow> string list \<Rightarrow> string list kn" where
  "check_entry step_names v seen =
     (let entry = fields_of v; key = py_text (dget entry ''key'') in
      thenR (require (is_dict v) ''knobs.yml'')
     (thenR (require (filled_str (dget entry ''key'')) ''knobs.yml'')
     (thenR (require (key \<notin> set seen) key)
     (thenR (require (list_all (\<lambda>kv. fst kv \<in> set KNOB_FIELDS) entry) key)
     (thenR (whenR (has_key entry ''panel'') (check_panel key (dget entry ''panel'')))
     (thenR (require (\<not> (has_key entry ''env'' \<and> truthy (dget entry ''panel''))) key)
     (thenR (entry_help key entry step_names)
     (thenR (eachR (\<lambda>field. whenR (has_key entry field) (require (has_key entry ''step'') key))
               [''required'', ''gui_suggestions_from'', ''label'', ''gui_choice''])
     (thenR (entry_choice key entry)
     (thenR (whenR (has_key entry ''required'') (require (is_bool (dget entry ''required'')) key))
     (thenR (whenR (has_key entry ''gui_suggestions_from'')
               (require (one_of (dget entry ''gui_suggestions_from'') GUI_SUGGESTION_SOURCES) key))
       (Inr (seen @ [key])))))))))))))"

definition check_secret :: "py \<Rightarrow> unit kn" where
  "check_secret v =
     (let entry = fields_of v; key = py_text (dget entry ''key''); panel = dget entry ''panel'' in
      thenR (require (\<not> has_key entry ''residence'') key)
     (thenR (require (\<not> has_key entry ''env'') key)
       (whenR (truthy panel)
         (thenR (require (py_eq (dget (fields_of panel) ''section'') (PStr ''secrets'')) key)
           (require (py_eq (dget (fields_of panel) ''kind'') (PStr ''secret'')) key)))))"

definition check_config :: "string list \<Rightarrow> py \<Rightarrow> unit kn" where
  "check_config section_names v =
     (let entry = fields_of v; key = py_text (dget entry ''key''); residence = dget entry ''residence'';
          stored = py_eq residence (PStr ''store'') in
      thenR (require (one_of residence RESIDENCES) key)
     (thenR (whenR (has_key entry ''var'') (require stored key))
     (thenR (whenR (has_key entry ''env'')
         (thenR (check_env key (dget entry ''env'') section_names)
           (require (\<not> truthy (dget (fields_of (dget entry ''env'')) ''reseed'') \<or> stored) key)))
       (whenR (truthy (dget entry ''panel''))
         (thenR (require stored key)
           (require (py_eq (dget (fields_of (dget entry ''panel'')) ''section'') (PStr ''config'')) key))))))"

subsection \<open>Across entries\<close>

definition entry_section :: "py \<Rightarrow> string" where
  "entry_section v = py_text (dget (fields_of (dget (fields_of v) ''env'')) ''section'')"

definition used_sections :: "py list \<Rightarrow> string list" where
  "used_sections config = map entry_section (filter (\<lambda>v. has_key (fields_of v) ''env'') config)"

definition asked_steps :: "py list \<Rightarrow> string list" where
  "asked_steps entries = map (\<lambda>v. py_text (dget (fields_of v) ''step'')) (filter (\<lambda>v. has_key (fields_of v) ''step'') entries)"

definition choices_of :: "py list \<Rightarrow> (string \<times> py list) list" where
  "choices_of entries = map (\<lambda>v. (py_text (dget (fields_of v) ''key''),
       elems_of (dget (fields_of (dget (fields_of v) ''panel'')) ''options'')))
     (filter (\<lambda>v. py_eq (dget (fields_of (dget (fields_of v) ''panel'')) ''kind'') (PStr ''choice'')) entries)"

definition check_depends :: "(string \<times> py list) list \<Rightarrow> py \<Rightarrow> unit kn" where
  "check_depends choices v =
     (let entry = fields_of v; key = py_text (dget entry ''key''); depends = dget entry ''depends'';
          governor = dget (fields_of depends) ''choice'' in
      whenR (depends \<noteq> PNone)
       (thenR (require (is_dict depends \<and> has_key (fields_of depends) ''choice'' \<and> has_key (fields_of depends) ''values'') key)
       (bindR (one_of_set governor (map fst choices)) (\<lambda>known.
        thenR (require known key)
       (bindR (case items_of (dget (fields_of depends) ''values'') of Inl e \<Rightarrow> Inl (Raised e) | Inr vs \<Rightarrow> Inr vs) (\<lambda>vs.
        thenR (require (list_all (\<lambda>x. list_ex (py_eq x) (the (map_of choices (py_text governor)))) vs) key)
          (require (truthy (dget entry ''panel'')) key)))))))"

definition list_or :: "py \<Rightarrow> py" where
  "list_or v = (if truthy v then v else PList [])"

definition load_registry :: "py \<Rightarrow> dict kn" where
  "load_registry v =
     (let doc = fields_of v; secrets = list_or (dget doc ''secrets''); config = list_or (dget doc ''config'');
          env_sections = list_or (dget doc ''env_sections''); gui_steps = list_or (dget doc ''gui_steps'');
          entries = elems_of secrets @ elems_of config in
      thenR (require (is_dict v) ''knobs.yml'')
     (thenR (require (py_eq (dget doc ''version'') (PInt 1)) ''knobs.yml'')
     (thenR (require (is_list secrets) ''knobs.yml'')
     (thenR (require (is_list config) ''knobs.yml'')
     (thenR (require (worded doc ''env_header'') ''knobs.yml'')
     (thenR (require (choice_list env_sections) ''knobs.yml'')
     (bindR (foldR declare_section (elems_of env_sections) []) (\<lambda>section_names.
      thenR (require (choice_list gui_steps) ''knobs.yml'')
     (bindR (foldR declare_step (elems_of gui_steps) []) (\<lambda>step_names.
      bindR (foldR (check_entry step_names) entries []) (\<lambda>_.
      thenR (eachR check_secret (elems_of secrets))
     (thenR (eachR (check_config section_names) (elems_of config))
     (thenR (require (list_all (\<lambda>n. n \<in> set (used_sections (elems_of config))) section_names) ''env_sections'')
     (thenR (require (list_all (\<lambda>n. n \<in> set (asked_steps entries)) step_names) ''gui_steps'')
     (thenR (eachR (check_depends (choices_of entries)) entries)
       (Inr doc))))))))))))))))"

section \<open>What a registry that loads looks like\<close>

named_theorems kn_iff \<open>when a check passes\<close>

lemma thenR_Inr [kn_iff]: "thenR a b = Inr y \<longleftrightarrow> a = Inr () \<and> b = Inr y"
  by (simp add: thenR_def bindR_Inr_iff)

lemma require_Inr [kn_iff]: "require b k = Inr () \<longleftrightarrow> b"
  by (simp add: require_def)

lemma whenR_Inr [kn_iff]: "whenR b m = Inr () \<longleftrightarrow> (b \<longrightarrow> m = Inr ())"
  by (simp add: whenR_def)

lemma eachR_Inr [kn_iff]: "eachR f xs = Inr () \<longleftrightarrow> (\<forall>x \<in> set xs. f x = Inr ())"
  by (induction xs) (auto simp: kn_iff)

lemma one_of_set_Inr [kn_iff]: "one_of_set v ss = Inr b \<longleftrightarrow> can_hash v \<and> b = one_of v ss"
  by (auto simp: one_of_set_def)

lemma one_of_iff: "one_of v ss \<longleftrightarrow> (\<exists>s. v = PStr s \<and> s \<in> set ss)"
  by (cases v) (auto simp: one_of_def)

lemma is_iffs:
  "is_str v \<longleftrightarrow> (\<exists>s. v = PStr s)" "is_dict v \<longleftrightarrow> (\<exists>d. v = PDict d)" "is_list v \<longleftrightarrow> (\<exists>xs. v = PList xs)"
  "filled_str v \<longleftrightarrow> (\<exists>s. v = PStr s \<and> s \<noteq> [])"
  by (cases v; simp add: is_str_def is_dict_def is_list_def filled_str_def)+

lemma of_simps [simp]: "fields_of (PDict d) = d" "elems_of (PList xs) = xs" "py_text (PStr s) = s"
  by (simp_all add: fields_of_def elems_of_def py_text_def)

lemma dget_found: "dget d k = v \<Longrightarrow> v \<noteq> PNone \<Longrightarrow> map_of d k = Some v"
  by (auto simp: dget_def split: option.splits)

text \<open>A loop that files a new name per element.\<close>

lemma foldR_names:
  assumes "foldR f xs s = Inr t" and "\<And>x s t. f x s = Inr t \<Longrightarrow> P x \<and> g x \<notin> set s \<and> t = s @ [g x]"
  shows "t = s @ map g xs \<and> (\<forall>x \<in> set xs. P x) \<and> (distinct s \<longrightarrow> distinct t)"
  using assms(1)
proof (induction xs arbitrary: s)
  case (Cons x xs)
  then obtain u where u: "f x s = Inr u" "foldR f xs u = Inr t" by (auto simp: bindR_Inr_iff)
  from Cons.IH [OF u(2)] assms(2) [OF u(1)] show ?case by (fastforce simp: disjoint_iff)
qed simp

definition section_name :: "py \<Rightarrow> string" where "section_name v = py_text (dget (fields_of v) ''name'')"
definition knob_key :: "py \<Rightarrow> string" where "knob_key v = py_text (dget (fields_of v) ''key'')"
definition has_home :: "py \<Rightarrow> bool" where "has_home v = has_key (fields_of v) ''env''"

definition section_shape :: "py \<Rightarrow> bool" where
  "section_shape v = (\<exists>d t. v = PDict d \<and> map_of d ''name'' = Some (PStr (section_name v)) \<and> map_of d ''title'' = Some (PStr t))"

definition env_shape :: "string list \<Rightarrow> dict \<Rightarrow> bool" where
  "env_shape sections env =
     (\<exists>s d. map_of env ''section'' = Some (PStr s) \<and> s \<in> set sections \<and> map_of env ''default'' = Some (PStr d)
       \<and> (\<forall>c \<in> set ENV_UNQUOTABLE. c \<notin> set d)
       \<and> (dget env ''options'' = PNone \<or> (\<exists>xs. dget env ''options'' = PList xs \<and> list_all is_str xs))
       \<and> (dget env ''example'' = PNone \<or> is_str (dget env ''example'')))"

definition knob_shape :: "py \<Rightarrow> bool" where
  "knob_shape v = (\<exists>e. v = PDict e \<and> map_of e ''key'' = Some (PStr (knob_key v))
     \<and> (has_home v \<longrightarrow> (\<exists>h t. map_of e ''help'' = Some (PDict h) \<and> map_of h ''en'' = Some (PStr t) \<and> t \<noteq> [])))"

lemma declare_section_step:
  "declare_section v s = Inr t \<Longrightarrow> section_shape v \<and> section_name v \<notin> set s \<and> t = s @ [section_name v]"
  by (auto simp: declare_section_def Let_def kn_iff is_iffs section_shape_def section_name_def dget_found)

lemma worded_found: "worded d k \<Longrightarrow> \<exists>t. map_of d k = Some (PStr t) \<and> t \<noteq> []"
  by (auto simp: worded_def is_iffs blank_def strip_def strip_by_def dget_found intro!: dget_found)

lemma check_text_shape: "check_text whose v required = Inr () \<Longrightarrow> k \<in> set required
    \<Longrightarrow> \<exists>d t. v = PDict d \<and> map_of d k = Some (PStr t) \<and> t \<noteq> []"
  using worded_found by (fastforce simp: check_text_def kn_iff is_iffs)

lemma entry_help_shape:
  assumes "entry_help key entry names = Inr ()" and "has_key entry ''env''"
  shows "\<exists>h t. map_of entry ''help'' = Some (PDict h) \<and> map_of h ''en'' = Some (PStr t) \<and> t \<noteq> []"
proof -
  from assms obtain req where "check_text key (dget entry ''help'') req = Inr ()" "''en'' \<in> set req"
    by (auto simp: entry_help_def kn_iff LANGS_def split: if_splits)
  from check_text_shape [OF this] show ?thesis by (auto dest: dget_found)
qed

lemma check_entry_step:
  assumes "check_entry names v s = Inr t"
  shows "knob_shape v \<and> knob_key v \<notin> set s \<and> t = s @ [knob_key v]"
proof -
  from assms have "is_dict v" "filled_str (dget (fields_of v) ''key'')" "knob_key v \<notin> set s" "t = s @ [knob_key v]"
    and h: "entry_help (knob_key v) (fields_of v) names = Inr ()"
    by (simp_all add: check_entry_def Let_def kn_iff knob_key_def)
  moreover have "has_home v \<Longrightarrow> \<exists>h t. map_of (fields_of v) ''help'' = Some (PDict h) \<and> map_of h ''en'' = Some (PStr t) \<and> t \<noteq> []"
    unfolding has_home_def by (rule entry_help_shape [OF h])
  ultimately show ?thesis by (auto simp: knob_shape_def is_iffs knob_key_def dget_found)
qed

lemma check_env_shape:
  assumes "check_env key v sections = Inr ()"
  shows "\<exists>env. v = PDict env \<and> env_shape sections env"
proof -
  let ?env = "fields_of v"
  from assms have a: "is_dict v" "one_of (dget ?env ''section'') sections" "is_str (dget ?env ''default'')"
    "\<forall>c \<in> set ENV_UNQUOTABLE. c \<notin> set (py_text (dget ?env ''default''))"
    "dget ?env ''options'' = PNone \<or> choice_list (dget ?env ''options'') \<and> list_all is_str (elems_of (dget ?env ''options''))"
    "dget ?env ''example'' = PNone \<or> filled_str (dget ?env ''example'')"
    by (auto simp: check_env_def env_options_def env_example_def Let_def kn_iff bindR_Inr_iff list_ex_iff)
  then show ?thesis
    by (auto simp: env_shape_def is_iffs one_of_iff choice_list_def dget_found)
qed

lemma check_config_shape:
  assumes "check_config sections v = Inr ()" and "has_home v"
  shows "\<exists>env. map_of (fields_of v) ''env'' = Some (PDict env) \<and> env_shape sections env"
proof -
  from assms have "check_env (knob_key v) (dget (fields_of v) ''env'') sections = Inr ()"
    by (simp add: check_config_def Let_def kn_iff has_home_def knob_key_def)
  from check_env_shape [OF this] show ?thesis by (auto dest: dget_found)
qed

definition registry_shape :: "dict \<Rightarrow> py list \<Rightarrow> py list \<Rightarrow> bool" where
  "registry_shape doc sections config =
     (map_of doc ''env_sections'' = Some (PList sections) \<and> map_of doc ''config'' = Some (PList config)
      \<and> (\<exists>h. map_of doc ''env_header'' = Some (PStr h))
      \<and> list_all section_shape sections \<and> distinct (map section_name sections)
      \<and> list_all knob_shape config \<and> distinct (map knob_key config)
      \<and> (\<forall>v \<in> set config. has_home v \<longrightarrow>
           (\<exists>env. map_of (fields_of v) ''env'' = Some (PDict env) \<and> env_shape (map section_name sections) env)))"

lemma list_or_list: "list_or v = PList (x # xs) \<Longrightarrow> v = PList (x # xs)"
  by (auto simp: list_or_def split: if_splits)

lemma load_registry_shape:
  assumes "load_registry v = Inr doc"
  obtains sections config where "v = PDict doc" and "registry_shape doc sections config"
proof -
  let ?d = "fields_of v"
  let ?sections = "elems_of (list_or (dget ?d ''env_sections''))" and ?config = "elems_of (list_or (dget ?d ''config''))"
    and ?secrets = "elems_of (list_or (dget ?d ''secrets''))"
  from assms obtain names steps seen where
    a: "is_dict v" "is_list (list_or (dget ?d ''config''))" "worded ?d ''env_header''"
      "choice_list (list_or (dget ?d ''env_sections''))" "doc = ?d"
    and f: "foldR declare_section ?sections [] = Inr names"
      "foldR (check_entry steps) (?secrets @ ?config) [] = Inr seen"
    and c: "\<forall>x \<in> set ?config. check_config names x = Inr ()"
    and u: "list_all (\<lambda>n. n \<in> set (used_sections ?config)) names"
    unfolding load_registry_def Let_def thenR_Inr bindR_Inr_iff require_Inr eachR_Inr by blast
  have n: "names = [] @ map section_name ?sections \<and> (\<forall>x \<in> set ?sections. section_shape x) \<and> (distinct ([] :: string list) \<longrightarrow> distinct names)"
    by (rule foldR_names [OF f(1)]) (rule declare_section_step)
  then have s: "names = map section_name ?sections" "\<forall>x \<in> set ?sections. section_shape x" "distinct names"
    by (simp, blast, blast intro: distinct.simps(1) [THEN iffD2])
  have "seen = [] @ map knob_key (?secrets @ ?config) \<and> (\<forall>x \<in> set (?secrets @ ?config). knob_shape x)
      \<and> (distinct ([] :: string list) \<longrightarrow> distinct seen)"
    by (rule foldR_names [OF f(2)]) (rule check_entry_step)
  then have k: "\<forall>x \<in> set ?config. knob_shape x" "distinct (map knob_key ?config)" by auto
  from a(4) obtain x xs where "?sections = x # xs" by (cases ?sections) (auto simp: choice_list_def)
  then have sec: "map_of doc ''env_sections'' = Some (PList ?sections)"
    using a(4,5) by (auto simp: choice_list_def is_iffs dest!: list_or_list intro: dget_found)
  have "?config \<noteq> []" using u s(1) \<open>?sections = x # xs\<close> by (auto simp: used_sections_def)
  then obtain y ys where "?config = y # ys" by (cases ?config) auto
  then have con: "map_of doc ''config'' = Some (PList ?config)"
    using a(2,5) by (auto simp: is_iffs dest!: list_or_list intro: dget_found)
  have "\<forall>x \<in> set ?config. has_home x \<longrightarrow>
      (\<exists>env. map_of (fields_of x) ''env'' = Some (PDict env) \<and> env_shape (map section_name ?sections) env)"
    using c check_config_shape s(1) by auto
  with sec con s k worded_found [OF a(3)] a(5) have "registry_shape doc ?sections ?config"
    by (auto simp: registry_shape_def list_all_iff)
  with that a(1,5) show thesis by (auto simp: is_iffs)
qed

end
