(* ===== verification/Env_Render.thy ===== *)
theory Env_Render
  imports Knob_Registry Text_Filters
begin

text \<open>
  The inventory \<open>.env\<close> rendered from the knob registry, the second half of
  \<open>src/ansible/helpers/render_knobs.py\<close>: \<open>_env_by_section\<close>, \<open>env_knobs\<close>, \<open>_comment\<close> with the greedy
  wrapping of \<open>textwrap.wrap\<close> it calls, and \<open>render_env\<close>. The properties tie it to the checks of
  \<open>load\<close> and to the lookup that reads the file back.
\<close>

section \<open>Definitions\<close>

definition ENV_WIDTH :: nat where "ENV_WIDTH = 74"

text \<open>Subscripts and attribute access on a value of any type.\<close>

definition item :: "py \<Rightarrow> string \<Rightarrow> py kn" where
  "item v k = (case v of
      PDict d \<Rightarrow> (case map_of d k of None \<Rightarrow> Inl (Raised (Key_Error k)) | Some x \<Rightarrow> Inr x)
    | _ \<Rightarrow> Inl (Raised Type_Error))"

definition get_attr :: "py \<Rightarrow> string \<Rightarrow> py kn" where
  "get_attr v k = (case v of PDict d \<Rightarrow> Inr (dget d k) | _ \<Rightarrow> Inl (Raised Attribute_Error))"

definition iter :: "py \<Rightarrow> py list kn" where
  "iter v = (case items_of v of Inl e \<Rightarrow> Inl (Raised e) | Inr xs \<Rightarrow> Inr xs)"

subsection \<open>Wrapping\<close>

text \<open>\<open>str.expandtabs(8)\<close>; then every other whitespace character of ASCII becomes a space.\<close>

fun expandtabs :: "nat \<Rightarrow> string \<Rightarrow> string" where
  "expandtabs col [] = []"
| "expandtabs col (c # s) =
     (if c = CHR 0x09 then replicate (8 - col mod 8) (CHR '' '') @ expandtabs (col + (8 - col mod 8)) s
      else if c = CHR 0x0A \<or> c = CHR 0x0D then c # expandtabs 0 s
      else c # expandtabs (Suc col) s)"

definition ascii_white :: "char \<Rightarrow> bool" where
  "ascii_white c = (let n = of_char c :: nat in 9 \<le> n \<and> n \<le> 13 \<or> n = 32)"

definition munge :: "string \<Rightarrow> string" where
  "munge s = map (\<lambda>c. if ascii_white c then CHR '' '' else c) (expandtabs 0 s)"

text \<open>The text in runs of spaces and runs of other characters.\<close>

fun chunks :: "string \<Rightarrow> string list" where
  "chunks [] = []"
| "chunks (c # s) = (case chunks s of
      [] \<Rightarrow> [[c]]
    | w # ws \<Rightarrow> if ascii_white c = ascii_white (hd w) then (c # w) # ws else [c] # w # ws)"

fun take_fit :: "nat \<Rightarrow> nat \<Rightarrow> string list \<Rightarrow> string list \<times> string list" where
  "take_fit w n [] = ([], [])"
| "take_fit w n (c # cs) =
     (if n + length c \<le> w then (case take_fit w (n + length c) cs of (a, b) \<Rightarrow> (c # a, b)) else ([], c # cs))"

text \<open>One line: a word wider than the column stands alone, and a blank chunk is dropped at the end; at the
  start it is dropped too, unless the line is the first.\<close>

definition fit_line :: "nat \<Rightarrow> string list \<Rightarrow> string list \<times> string list" where
  "fit_line w cs = (case take_fit w 0 cs of (fit, rest) \<Rightarrow>
     (case (if rest \<noteq> [] \<and> w < length (hd rest) \<and> fit = [] then ([hd rest], tl rest) else (fit, rest)) of
        (line, left) \<Rightarrow> (if line \<noteq> [] \<and> blank (last line) then butlast line else line, left)))"

definition next_line :: "nat \<Rightarrow> bool \<Rightarrow> string list \<Rightarrow> string list \<times> string list" where
  "next_line w first cs = fit_line w (if \<not> first \<and> cs \<noteq> [] \<and> blank (hd cs) then tl cs else cs)"

lemma take_fit_append: "take_fit w n cs = (a, b) \<Longrightarrow> cs = a @ b"
  by (induction w n cs arbitrary: a b rule: take_fit.induct) (auto split: if_splits prod.splits)

lemma take_fit_stuck: "take_fit w 0 (c # cs) = ([], r) \<Longrightarrow> r = c # cs \<and> w < length c"
  by (auto split: if_splits prod.splits)

lemma fit_line_parts:
  assumes "fit_line w cs = (line, rest)"
  shows "\<exists>t. cs = t @ rest \<and> (cs \<noteq> [] \<longrightarrow> t \<noteq> []) \<and> (line = t \<or> line = butlast t)"
proof -
  obtain fit rem where t: "take_fit w 0 cs = (fit, rem)" by fastforce
  show ?thesis
  proof (cases "fit = [] \<and> rem \<noteq> []")
    case True
    with take_fit_append [OF t] have "take_fit w 0 (hd rem # tl rem) = ([], rem)" "cs = rem" using t by auto
    then show ?thesis using assms t True take_fit_stuck [of w "hd rem" "tl rem" rem]
      by (intro exI [of _ "[hd rem]"]) (auto simp: fit_line_def split: if_splits)
  next
    case False
    then show ?thesis using assms t take_fit_append [OF t]
      by (intro exI [of _ fit]) (auto simp: fit_line_def split: if_splits)
  qed
qed

lemma next_line_shorter:
  assumes "next_line w first cs = (line, rest)" and "cs \<noteq> []"
  shows "length rest < length cs"
proof -
  have *: "length rest < length ds \<or> ds = [] \<and> rest = []" if "fit_line w ds = (line, rest)" for ds
    using fit_line_parts [OF that] by auto
  have "length (tl cs) < length cs" using assms(2) by (cases cs) auto
  with assms * show ?thesis by (fastforce simp: next_line_def split: if_splits)
qed

function wrap_chunks :: "nat \<Rightarrow> string list \<Rightarrow> string list \<Rightarrow> string list" where
  "wrap_chunks w lines cs =
     (if cs = [] then lines
      else (case next_line w (lines = []) cs of (line, rest) \<Rightarrow>
        wrap_chunks w (if line = [] then lines else lines @ [concat line]) rest))"
  by pat_completeness auto
termination
  by (relation "measure (\<lambda>(w, lines, cs). length cs)") (auto dest: next_line_shorter [OF sym])

declare wrap_chunks.simps [simp del]

definition wrap :: "string \<Rightarrow> nat \<Rightarrow> string list" where
  "wrap text w = wrap_chunks w [] (chunks (munge text))"

subsection \<open>Comments\<close>

definition flush :: "string list \<Rightarrow> string list \<Rightarrow> string list" where
  "flush out paragraph = (if paragraph = [] then out
     else out @ map (\<lambda>chunk. ''# '' @ chunk) (wrap (join '' '' paragraph) ENV_WIDTH))"

definition comment_line :: "string list \<times> string list \<Rightarrow> string \<Rightarrow> string list \<times> string list" where
  "comment_line acc line = (case acc of (out, paragraph) \<Rightarrow>
     if blank line then (flush out paragraph @ [''#''], [])
     else if blank_tab (hd line) then (flush out paragraph @ [rstrip_by py_isspace (''# '' @ line)], [])
     else (out, paragraph @ [strip line]))"

definition comment_text :: "string \<Rightarrow> string list" where
  "comment_text text = (case foldl comment_line ([], []) (splitlines (strip_by (\<lambda>c. c = CHR 0x0A) text)) of
     (out, paragraph) \<Rightarrow> flush out paragraph)"

definition comment :: "py \<Rightarrow> string list kn" where
  "comment v = (if \<not> truthy v then Inr (comment_text [])
     else case v of PStr s \<Rightarrow> Inr (comment_text s) | _ \<Rightarrow> Inl (Raised Attribute_Error))"

subsection \<open>The knobs in the order of the file\<close>

fun file_under :: "py \<Rightarrow> py \<Rightarrow> (py \<times> py list) list \<Rightarrow> (py \<times> py list) list" where
  "file_under k e [] = [(k, [e])]"
| "file_under k e ((j, es) # r) = (if py_eq j k then (j, es @ [e]) # r else (j, es) # file_under k e r)"

definition shelf :: "(py \<times> py list) list \<Rightarrow> py \<Rightarrow> py list" where
  "shelf by k = (case find (\<lambda>x. py_eq (fst x) k) by of None \<Rightarrow> [] | Some x \<Rightarrow> snd x)"

definition filed :: "(py \<times> py list) list \<Rightarrow> py \<Rightarrow> py list kn" where
  "filed by k = (if can_hash k then Inr (shelf by k) else Inl (Raised Type_Error))"

definition add_entry :: "py \<Rightarrow> (py \<times> py list) list \<Rightarrow> (py \<times> py list) list kn" where
  "add_entry entry by =
     bindR (get_attr entry ''env'') (\<lambda>env.
       if \<not> truthy env then Inr by
       else bindR (item env ''section'') (\<lambda>k.
         if can_hash k then Inr (file_under k entry by) else Inl (Raised Type_Error)))"

definition env_by_section :: "py \<Rightarrow> (py \<times> py list) list kn" where
  "env_by_section doc = bindR (item doc ''config'') (\<lambda>c. bindR (iter c) (\<lambda>es. foldR add_entry es []))"

definition section_entries :: "(py \<times> py list) list \<Rightarrow> py \<Rightarrow> py list kn" where
  "section_entries by section = bindR (item section ''name'') (filed by)"

definition env_knobs :: "py \<Rightarrow> py list kn" where
  "env_knobs doc =
     bindR (env_by_section doc) (\<lambda>by.
     bindR (item doc ''env_sections'') (\<lambda>v. bindR (iter v) (\<lambda>sections.
     bindR (mapR (section_entries by) sections) (\<lambda>ess. Inr (concat ess)))))"

subsection \<open>The file\<close>

definition heading :: "string \<Rightarrow> string" where
  "heading title = (let h = ''# --- '' @ title @ '' '' in h @ replicate (78 - length h) (CHR ''-''))"

definition joined :: "py \<Rightarrow> string kn" where
  "joined v = bindR (iter v) (\<lambda>xs. if list_all is_str xs then Inr (join '', '' (map py_text xs)) else Inl (Raised Type_Error))"

definition knob_lines :: "py \<Rightarrow> string list kn" where
  "knob_lines entry =
     bindR (item entry ''help'') (\<lambda>h. bindR (item h ''en'') (\<lambda>en. bindR (comment en) (\<lambda>help.
     bindR (item entry ''env'') (\<lambda>env. bindR (get_attr env ''options'') (\<lambda>options.
     bindR (if truthy options then bindR (joined options) (\<lambda>o'. Inr (comment_text (''One of: '' @ o' @ ''.''))) else Inr []) (\<lambda>opts.
     bindR (get_attr env ''example'') (\<lambda>example.
     bindR (item entry ''key'') (\<lambda>key. bindR (item env ''default'') (\<lambda>dflt.
       Inr ([] # help @ opts
         @ (if truthy example then comment_text (''For example: '' @ py_str example) else [])
         @ [py_str key @ ''='' @ py_str dflt]))))))))))"

definition section_lines :: "(py \<times> py list) list \<Rightarrow> py \<Rightarrow> string list kn" where
  "section_lines by section =
     bindR (item section ''title'') (\<lambda>title. bindR (get_attr section ''doc'') (\<lambda>doc.
     bindR (if truthy doc then bindR (comment doc) (\<lambda>c. Inr (''#'' # c)) else Inr []) (\<lambda>about.
     bindR (section_entries by section) (\<lambda>es. bindR (mapR knob_lines es) (\<lambda>ks.
       Inr ([] # heading (py_str title) # about @ concat ks))))))"

definition render_env :: "py \<Rightarrow> string kn" where
  "render_env doc =
     bindR (item doc ''env_header'') (\<lambda>h. bindR (comment h) (\<lambda>header.
     bindR (env_by_section doc) (\<lambda>by.
     bindR (item doc ''env_sections'') (\<lambda>v. bindR (iter v) (\<lambda>sections.
     bindR (mapR (section_lines by) sections) (\<lambda>ls.
       Inr (join nl (header @ concat ls) @ nl)))))))"

section \<open>Every comment is a comment\<close>

lemma comment_str [simp]: "comment (PStr t) = Inr (comment_text t)"
  by (cases t) (simp_all add: comment_def)

text \<open>Nothing but a number sign can open a line of a comment, and no line of one breaks in two.\<close>

definition comment_form :: "string \<Rightarrow> bool" where
  "comment_form l = (prefix ''#'' l \<and> (\<forall>c \<in> set l. \<not> line_end c))"

definition unbroken :: "string \<Rightarrow> bool" where
  "unbroken l = (\<forall>c \<in> set l. \<not> line_end c)"

lemma space_stays: "\<not> line_end (CHR '' '')" "\<not> line_end (CHR ''#'')" by (simp_all add: line_end_def)

lemma unbroken_subset: "unbroken l \<Longrightarrow> set m \<subseteq> set l \<union> {CHR '' ''} \<Longrightarrow> unbroken m"
  using space_stays unfolding unbroken_def by blast

lemma splitlines_acc_unbroken: "unbroken acc \<Longrightarrow> l \<in> set (splitlines_acc acc s) \<Longrightarrow> unbroken l"
proof (induction acc s rule: splitlines_acc.induct)
  case (2 acc c s)
  have n: "unbroken []" by (simp add: unbroken_def)
  show ?case
  proof (cases "line_end c")
    case True
    with "2.prems" have "l = rev acc \<or> l \<in> set (splitlines_acc [] (if c = CHR 0x0D \<and> s \<noteq> [] \<and> hd s = CHR 0x0A then tl s else s))" by simp
    with "2.IH"(1) [OF True n] "2.prems"(1) show ?thesis by (auto simp: unbroken_def)
  next
    case False
    with "2.prems"(1) have "unbroken (c # acc)" by (simp add: unbroken_def)
    from "2.IH"(2) [OF False this] False "2.prems"(2) show ?thesis by simp
  qed
qed (simp add: unbroken_def split: if_splits)

lemma splitlines_unbroken: "l \<in> set (splitlines s) \<Longrightarrow> unbroken l"
  unfolding splitlines_def by (rule splitlines_acc_unbroken) (simp_all add: unbroken_def)

lemma set_expandtabs: "set (expandtabs n s) \<subseteq> set s \<union> {CHR '' ''}"
  by (induction n s rule: expandtabs.induct) auto

lemma set_munge: "set (munge s) \<subseteq> set s \<union> {CHR '' ''}"
  using set_expandtabs [of 0 s] by (auto simp: munge_def split: if_splits)

lemma concat_chunks: "concat (chunks s) = s"
  by (induction s) (auto split: list.splits)

lemma set_concat_butlast: "set (concat (butlast t)) \<subseteq> set (concat t)"
  by (auto dest: in_set_butlastD)

lemma next_line_chars:
  assumes "next_line w first cs = (line, rest)"
  shows "set (concat line) \<subseteq> set (concat cs) \<and> set (concat rest) \<subseteq> set (concat cs)"
proof -
  have *: "set (concat line) \<subseteq> set (concat ds) \<and> set (concat rest) \<subseteq> set (concat ds)" if "fit_line w ds = (line, rest)" for ds
    using fit_line_parts [OF that] set_concat_butlast by fastforce
  have t: "set (concat (tl cs)) \<subseteq> set (concat cs)" by (cases cs) auto
  show ?thesis
  proof (cases "\<not> first \<and> cs \<noteq> [] \<and> blank (hd cs)")
    case True
    with assms have "fit_line w (tl cs) = (line, rest)" unfolding next_line_def by simp
    from * [OF this] t show ?thesis by (meson subset_trans)
  next
    case False
    with assms have "fit_line w cs = (line, rest)" unfolding next_line_def by auto
    then show ?thesis by (rule *)
  qed
qed

lemma wrap_chunks_chars: "l \<in> set (wrap_chunks w lines cs) \<Longrightarrow> l \<in> set lines \<or> set l \<subseteq> set (concat cs)"
proof (induction w lines cs rule: wrap_chunks.induct)
  case (1 w lines cs)
  show ?case
  proof (cases "cs = []")
    case True
    with 1(2) show ?thesis by (simp add: wrap_chunks.simps)
  next
    case False
    obtain line rest where n: "next_line w (lines = []) cs = (line, rest)" by fastforce
    with 1(2) False have "l \<in> set (wrap_chunks w (if line = [] then lines else lines @ [concat line]) rest)"
      by (subst (asm) wrap_chunks.simps) simp
    from 1(1) [OF False n [symmetric] this] next_line_chars [OF n] show ?thesis by (auto split: if_splits)
  qed
qed

lemma set_wrap: "l \<in> set (wrap text w) \<Longrightarrow> set l \<subseteq> set text \<union> {CHR '' ''}"
  using wrap_chunks_chars [of l w "[]" "chunks (munge text)"] set_munge [of "text"]
  by (simp add: wrap_def concat_chunks)

lemma set_join_space: "set (join '' '' ws) \<subseteq> (\<Union>w \<in> set ws. set w) \<union> {CHR '' ''}"
  by (induction "'' ''" ws rule: join.induct) auto

lemma comment_formI: "unbroken l \<Longrightarrow> comment_form (''# '' @ l)"
  by (simp add: comment_form_def unbroken_def space_stays)

lemma flush_form:
  assumes "\<forall>l \<in> set out. comment_form l" and "\<forall>l \<in> set paragraph. unbroken l"
  shows "\<forall>l \<in> set (flush out paragraph). comment_form l"
proof -
  have "unbroken (join '' '' paragraph)"
    using assms(2) set_join_space [of "paragraph"] space_stays unfolding unbroken_def by blast
  then have "unbroken l" if "l \<in> set (wrap (join '' '' paragraph) w)" for l w
    using set_wrap [OF that] by (rule unbroken_subset)
  with assms(1) show ?thesis by (auto simp: flush_def comment_formI simp del: append_Cons)
qed

lemma comment_line_form:
  assumes "comment_line (out, par) line = (out', par')" and "unbroken line"
    and "\<forall>l \<in> set out. comment_form l" and "\<forall>l \<in> set par. unbroken l"
  shows "(\<forall>l \<in> set out'. comment_form l) \<and> (\<forall>l \<in> set par'. unbroken l)"
proof -
  have r: "comment_form (rstrip_by py_isspace (''# '' @ line))"
  proof -
    have "rstrip_by py_isspace (''# '' @ line) = CHR ''#'' # rstrip_by py_isspace ('' '' @ line)"
      using rstrip_by_Cons_keep [of py_isspace "CHR ''#''"] by (simp add: py_isspace_def)
    moreover have "unbroken ('' '' @ line)" using assms(2) by (simp add: unbroken_def space_stays)
    moreover have "set (rstrip_by py_isspace ('' '' @ line)) \<subseteq> set ('' '' @ line)"
      unfolding rstrip_by_def by (auto dest: set_dropWhileD)
    ultimately show ?thesis using space_stays by (auto simp: comment_form_def unbroken_def)
  qed
  have "comment_form ''#''" by (simp add: comment_form_def space_stays)
  moreover have "unbroken (strip line)"
    using assms(2) set_strip_by [of py_isspace line] by (auto simp: unbroken_def strip_def)
  ultimately have
    "(\<forall>l \<in> set (flush out par @ [''#'']). comment_form l) \<and> (\<forall>l \<in> set (flush out par @ [rstrip_by py_isspace (''# '' @ line)]). comment_form l)
     \<and> (\<forall>l \<in> set (par @ [strip line]). unbroken l)"
    using assms(4) r flush_form [OF assms(3,4)] by (simp only: set_append list.set Un_insert_right ball_simps Un_empty_right)
  then show ?thesis using assms(1,3) unfolding comment_line_def prod.case
    by (cases "blank line"; cases "blank_tab (hd line)") auto
qed

lemma comment_lines_form:
  assumes "foldl comment_line (out, par) ls = (out', par')" and "\<forall>l \<in> set ls. unbroken l"
    and "\<forall>l \<in> set out. comment_form l" and "\<forall>l \<in> set par. unbroken l"
  shows "(\<forall>l \<in> set out'. comment_form l) \<and> (\<forall>l \<in> set par'. unbroken l)"
  using assms
proof (induction ls arbitrary: out par)
  case (Cons x ls)
  obtain o1 p1 where "comment_line (out, par) x = (o1, p1)" by fastforce
  note c = this
  have x: "unbroken x" "\<forall>l \<in> set ls. unbroken l" using Cons.prems(2) by simp_all
  note f = comment_line_form [OF c x(1) Cons.prems(3,4)]
  have "\<forall>l \<in> set o1. comment_form l" "\<forall>l \<in> set p1. unbroken l" using f by simp_all
  moreover have "foldl comment_line (o1, p1) ls = (out', par')" using Cons.prems(1) c by simp
  ultimately show ?case using x(2) by (intro Cons.IH)
qed simp

lemma comment_text_form: "l \<in> set (comment_text text) \<Longrightarrow> comment_form l"
proof -
  assume l: "l \<in> set (comment_text text)"
  let ?ls = "splitlines (strip_by (\<lambda>c. c = CHR 0x0A) text)"
  obtain out par where f: "foldl comment_line ([], []) ?ls = (out, par)" by fastforce
  from comment_lines_form [OF f] splitlines_unbroken
  have "\<forall>l \<in> set out. comment_form l" "\<forall>l \<in> set par. unbroken l" by auto
  from flush_form [OF this] l f show ?thesis by (simp add: comment_text_def)
qed

end
