(* ===== verification/Env_Sound.thy ===== *)
theory Env_Sound
  imports Env_Render
begin

text \<open>
  What the rendered environment file promises of a registry that loads: it renders, it prints every
  knob with a home in the file once, and the lookup reads back each one's default.
\<close>

section \<open>The knobs by section\<close>

definition at_home :: "py list \<Rightarrow> string \<Rightarrow> py list" where
  "at_home config s = filter (\<lambda>v. has_home v \<and> entry_section v = s) config"

definition str_keys :: "(py \<times> py list) list \<Rightarrow> bool" where
  "str_keys by = (\<forall>x \<in> set by. is_str (fst x))"

lemma str_keys_file: "str_keys by \<Longrightarrow> str_keys (file_under (PStr k) e by)"
  by (induction "PStr k" e "by" rule: file_under.induct) (auto simp: str_keys_def is_str_def)

lemma shelf_Nil [simp]: "shelf [] k = []" by (simp add: shelf_def)

lemma shelf_Cons: "shelf (x # by) k = (if py_eq (fst x) k then snd x else shelf by k)"
  by (simp add: shelf_def)

lemma shelf_file: "str_keys by \<Longrightarrow>
   shelf (file_under (PStr k) e by) (PStr s) = shelf by (PStr s) @ (if s = k then [e] else [])"
proof (induction "by")
  case (Cons x r)
  obtain j es where x: "x = (PStr j, es)" using Cons.prems by (cases x) (auto simp: str_keys_def is_iffs)
  have "str_keys r" using Cons.prems by (simp add: str_keys_def)
  with Cons.IH x show ?case by (auto simp: shelf_Cons)
qed (auto simp: shelf_Cons)

definition housed :: "string list \<Rightarrow> py \<Rightarrow> bool" where
  "housed names v = (knob_shape v \<and> (has_home v \<longrightarrow>
     (\<exists>env. map_of (fields_of v) ''env'' = Some (PDict env) \<and> env_shape names env)))"

lemma housed_section: "housed names v \<Longrightarrow> has_home v \<Longrightarrow> entry_section v \<in> set names"
  by (auto simp: housed_def env_shape_def entry_section_def dget_def)

lemma add_entry_housed:
  assumes "housed names v"
  shows "add_entry v by = Inr (if has_home v then file_under (PStr (entry_section v)) v by else by)"
proof (cases "has_home v")
  case True
  with assms obtain e env s where "v = PDict e" "map_of e ''env'' = Some (PDict env)" "map_of env ''section'' = Some (PStr s)"
    by (auto simp: housed_def knob_shape_def env_shape_def)
  moreover from this have "env \<noteq> []" by auto
  ultimately show ?thesis using True
    by (simp add: add_entry_def get_attr_def item_def dget_def can_hash_def entry_section_def)
next
  case False
  with assms show ?thesis by (auto simp: housed_def knob_shape_def add_entry_def get_attr_def has_home_def has_key_def dget_def)
qed

lemma foldR_add_entry:
  assumes "\<forall>v \<in> set config. housed names v" and "str_keys by"
  shows "\<exists>by'. foldR add_entry config by = Inr by' \<and> (\<forall>s. shelf by' (PStr s) = shelf by (PStr s) @ at_home config s)"
  using assms
proof (induction config arbitrary: "by")
  case (Cons v config)
  let ?by = "if has_home v then file_under (PStr (entry_section v)) v by else by"
  have "str_keys ?by" using Cons.prems(2) by (simp add: str_keys_file)
  with Cons obtain by' where "foldR add_entry config ?by = Inr by'"
    "\<forall>s. shelf by' (PStr s) = shelf ?by (PStr s) @ at_home config s" by (metis list.set_intros(2))
  moreover have "add_entry v by = Inr ?by" using Cons.prems(1) by (intro add_entry_housed [of names]) simp
  ultimately show ?case using Cons.prems(2) by (auto simp: at_home_def shelf_file)
qed (simp add: at_home_def)

lemma registry_housed: "registry_shape doc sections config \<Longrightarrow> v \<in> set config \<Longrightarrow> housed (map section_name sections) v"
  by (auto simp: registry_shape_def housed_def list_all_iff)

lemma env_by_section_shape:
  assumes "registry_shape doc sections config"
  obtains "by" where "env_by_section (PDict doc) = Inr by" and "\<And>s. shelf by (PStr s) = at_home config s"
proof -
  from foldR_add_entry [of config "map section_name sections" "[]"] registry_housed [OF assms]
  obtain by' where "foldR add_entry config [] = Inr by'" "\<forall>s. shelf by' (PStr s) = at_home config s"
    by (auto simp: str_keys_def)
  with assms that show thesis by (auto simp: env_by_section_def item_def iter_def registry_shape_def)
qed

lemma section_entries_shape:
  "section_shape x \<Longrightarrow> section_entries by x = Inr (shelf by (PStr (section_name x)))"
  by (auto simp: section_shape_def section_entries_def item_def filed_def can_hash_def)

lemma mapR_Inr: "\<forall>x \<in> set xs. f x = Inr (g x) \<Longrightarrow> mapR f xs = Inr (map g xs)"
  by (induction xs) auto

lemma env_knobs_shape:
  assumes "registry_shape doc sections config"
  shows "env_knobs (PDict doc) = Inr (concat (map (\<lambda>s. at_home config (section_name s)) sections))"
proof -
  obtain "by" where b: "env_by_section (PDict doc) = Inr by" "\<And>s. shelf by (PStr s) = at_home config s"
    using env_by_section_shape [OF assms] by blast
  have "mapR (section_entries by) sections = Inr (map (\<lambda>s. at_home config (section_name s)) sections)"
    using assms section_entries_shape b(2) by (intro mapR_Inr) (auto simp: registry_shape_def list_all_iff)
  with b(1) assms show ?thesis by (auto simp: env_knobs_def item_def iter_def registry_shape_def)
qed

lemma mset_by_section:
  assumes "distinct names" and "\<forall>v \<in> set xs. P v \<longrightarrow> f v \<in> set names"
  shows "mset (concat (map (\<lambda>n. filter (\<lambda>v. P v \<and> f v = n) xs) names)) = mset (filter P xs)"
  using assms
proof (induction names arbitrary: xs P)
  case Nil
  then show ?case by (auto simp: filter_empty_conv)
next
  case (Cons n names)
  let ?Q = "\<lambda>v. P v \<and> f v \<noteq> n"
  have "concat (map (\<lambda>m. filter (\<lambda>v. P v \<and> f v = m) xs) names) = concat (map (\<lambda>m. filter (\<lambda>v. ?Q v \<and> f v = m) xs) names)"
    using Cons.prems(1) by (intro arg_cong [where f = concat] map_cong refl filter_cong) auto
  moreover have "mset (concat (map (\<lambda>m. filter (\<lambda>v. ?Q v \<and> f v = m) xs) names)) = mset (filter ?Q xs)"
    using Cons.prems by (intro Cons.IH) auto
  moreover have "mset (filter P xs) = mset (filter (\<lambda>v. P v \<and> f v = n) xs) + mset (filter ?Q xs)"
    by (induction xs) auto
  ultimately show ?case by simp
qed

text \<open>The order of the file: the position of a knob's section, knobs of one section in the registry's order.\<close>

fun rank :: "string list \<Rightarrow> string \<Rightarrow> nat" where
  "rank [] s = 0"
| "rank (n # ns) s = (if s = n then 0 else Suc (rank ns s))"

definition section_rank :: "dict \<Rightarrow> py \<Rightarrow> nat" where
  "section_rank doc v = rank (map section_name (elems_of (dget doc ''env_sections''))) (entry_section v)"

lemma rank_inj: "a \<in> set ns \<Longrightarrow> b \<in> set ns \<Longrightarrow> rank ns a = rank ns b \<longleftrightarrow> a = b"
  by (induction ns) auto

definition groups :: "('a \<Rightarrow> string) \<Rightarrow> 'a list \<Rightarrow> string list \<Rightarrow> 'a list" where
  "groups f xs names = concat (map (\<lambda>n. filter (\<lambda>v. f v = n) xs) names)"

lemma groups_sorted: "distinct names \<Longrightarrow> sorted (map (\<lambda>v. rank names (f v)) (groups f xs names))"
proof (induction names)
  case (Cons n names)
  have "map (\<lambda>v. rank (n # names) (f v)) (groups f xs names) = map Suc (map (\<lambda>v. rank names (f v)) (groups f xs names))"
    using Cons.prems by (auto simp: groups_def)
  moreover have "sorted (map Suc (map (\<lambda>v. rank names (f v)) (groups f xs names)))"
    using Cons by (simp add: sorted_map)
  moreover have "groups f xs (n # names) = filter (\<lambda>v. f v = n) xs @ groups f xs names" by (simp add: groups_def)
  moreover have "map (\<lambda>v. rank (n # names) (f v)) (filter (\<lambda>v. f v = n) xs) = map (\<lambda>_. 0) (filter (\<lambda>v. f v = n) xs)" by simp
  moreover have "sorted (map (\<lambda>_. 0 :: nat) ys)" for ys :: "'a list" by (induction ys) auto
  ultimately show ?case by (simp only: map_append sorted_append) auto
qed (simp add: groups_def)

lemma groups_stable: "distinct names \<Longrightarrow> m \<in> set names \<Longrightarrow> filter (\<lambda>v. f v = m) (groups f xs names) = filter (\<lambda>v. f v = m) xs"
proof (induction names)
  case (Cons n names)
  have "filter (\<lambda>v. f v = m) (groups f xs names) = []" if "m \<notin> set names"
    using that by (auto simp: groups_def filter_empty_conv)
  with Cons show ?case by (cases "m = n") (auto simp: groups_def filter_empty_conv)
qed simp

lemma groups_sort:
  assumes "distinct names" and "\<forall>v \<in> set xs. f v \<in> set names"
  shows "groups f xs names = sort_key (\<lambda>v. rank names (f v)) xs"
proof -
  have m: "mset (groups f xs names) = mset xs"
    using mset_by_section [of names xs "\<lambda>_. True" f] assms by (simp add: groups_def)
  have "filter (\<lambda>x. rank names (f k) = rank names (f x)) (groups f xs names) = filter (\<lambda>x. rank names (f k) = rank names (f x)) xs"
    if "k \<in> set (groups f xs names)" for k
  proof -
    have e: "rank names (f k) = rank names (f x) \<longleftrightarrow> f x = f k" if "x \<in> set xs" for x
      using that \<open>k \<in> set (groups f xs names)\<close> assms(2) mset_eq_setD [OF m] rank_inj by metis
    have "filter (\<lambda>x. rank names (f k) = rank names (f x)) (groups f xs names) = filter (\<lambda>x. f x = f k) (groups f xs names)"
      using e mset_eq_setD [OF m] by (intro filter_cong) auto
    also have "\<dots> = filter (\<lambda>x. f x = f k) xs"
      using groups_stable [OF assms(1)] that assms(2) mset_eq_setD [OF m] by auto
    also have "\<dots> = filter (\<lambda>x. rank names (f k) = rank names (f x)) xs" using e by (intro filter_cong) auto
    finally show ?thesis .
  qed
  then show ?thesis using m groups_sorted [OF assms(1), of f xs] by (intro properties_for_sort_key [symmetric]) auto
qed

section \<open>The lines of the file\<close>

definition knob_default :: "py \<Rightarrow> string" where
  "knob_default v = py_text (dget (fields_of (dget (fields_of v) ''env'')) ''default'')"

definition knob_line :: "py \<Rightarrow> string" where
  "knob_line v = knob_key v @ ''='' @ knob_default v"

lemma joined_strs: "list_all is_str xs \<Longrightarrow> joined (PList xs) = Inr (join '', '' (map py_text xs))"
  by (simp add: joined_def iter_def)

lemma options_lines:
  assumes "dget env ''options'' = PNone \<or> (\<exists>xs. dget env ''options'' = PList xs \<and> list_all is_str xs)"
  obtains opts where "(if truthy (dget env ''options'')
      then bindR (joined (dget env ''options'')) (\<lambda>o'. Inr (comment_text (''One of: '' @ o' @ ''.''))) else Inr []) = Inr opts"
    and "\<forall>l \<in> set opts. comment_form l"
  using assms by (cases "truthy (dget env ''options'')") (auto simp: joined_strs comment_text_form)

lemma knob_lines_shape:
  assumes "housed names v" and "has_home v"
  obtains cs where "knob_lines v = Inr ([] # cs @ [knob_line v])" and "\<forall>l \<in> set cs. comment_form l"
proof -
  from assms obtain e env h t where v: "v = PDict e" "map_of e ''key'' = Some (PStr (knob_key v))"
    "map_of e ''env'' = Some (PDict env)" "map_of e ''help'' = Some (PDict h)" "map_of h ''en'' = Some (PStr t)"
    and es: "env_shape names env"
    by (auto simp: housed_def knob_shape_def)
  from es obtain d where d: "map_of env ''default'' = Some (PStr d)"
    and opt: "dget env ''options'' = PNone \<or> (\<exists>xs. dget env ''options'' = PList xs \<and> list_all is_str xs)"
    by (auto simp: env_shape_def)
  have k: "knob_line v = knob_key v @ ''='' @ d" using v d by (simp add: knob_line_def knob_default_def dget_def)
  obtain hlp where hl: "comment (PStr t) = Inr hlp" "\<forall>l \<in> set hlp. comment_form l"
    by (simp add: comment_text_form)
  obtain opts where op: "(if truthy (dget env ''options'')
      then bindR (joined (dget env ''options'')) (\<lambda>o'. Inr (comment_text (''One of: '' @ o' @ ''.''))) else Inr []) = Inr opts"
    "\<forall>l \<in> set opts. comment_form l" using options_lines [OF opt] .
  let ?ex = "if truthy (dget env ''example'') then comment_text (''For example: '' @ py_str (dget env ''example'')) else []"
  have "knob_lines v = Inr ([] # (hlp @ opts @ ?ex) @ [knob_line v])"
    unfolding knob_lines_def item_def get_attr_def v(1) py.case v(2-5) option.case bindR_simps hl(1) op(1) d k [unfolded v(1)] by simp
  moreover have "\<forall>l \<in> set (hlp @ opts @ ?ex). comment_form l" using hl(2) op(2) by (auto simp: comment_text_form)
  ultimately show thesis using that by blast
qed

definition doc_is_text :: "py \<Rightarrow> bool" where
  "doc_is_text s = (\<not> truthy (dget (fields_of s) ''doc'') \<or> is_str (dget (fields_of s) ''doc''))"

definition title_unbroken :: "py \<Rightarrow> bool" where
  "title_unbroken s = unbroken (py_text (dget (fields_of s) ''title''))"

text \<open>A list of lines that the lookup reads as the settings of some knobs: blank lines, comments and, in
  their order, a line for each of the knobs.\<close>

inductive prints :: "string list \<Rightarrow> py list \<Rightarrow> bool" where
  prints_Nil: "prints [] []"
| prints_blank: "prints ls vs \<Longrightarrow> prints ([] # ls) vs"
| prints_comment: "comment_form l \<Longrightarrow> prints ls vs \<Longrightarrow> prints (l # ls) vs"
| prints_knob: "prints ls vs \<Longrightarrow> prints (knob_line v # ls) (v # vs)"

lemma prints_append: "prints ls vs \<Longrightarrow> prints ms ws \<Longrightarrow> prints (ls @ ms) (vs @ ws)"
  by (induction rule: prints.induct) (auto intro: prints.intros)

lemma prints_comments: "\<forall>l \<in> set ls. comment_form l \<Longrightarrow> prints ls []"
  by (induction ls) (auto intro: prints.intros)

lemma prints_concat: "list_all2 prints lss vss \<Longrightarrow> prints (concat lss) (concat vss)"
  by (induction rule: list_all2_induct) (auto intro: prints_Nil prints_append)

lemma mapR_Inr_all2: "\<forall>x \<in> set xs. \<exists>y. f x = Inr y \<and> R y (g x) \<Longrightarrow> \<exists>ys. mapR f xs = Inr ys \<and> list_all2 R ys (map g xs)"
  by (induction xs) force+

lemma prints_knob_lines:
  assumes "housed names v" and "has_home v"
  shows "\<exists>ls. knob_lines v = Inr ls \<and> prints ls [v]"
proof -
  obtain cs where c: "knob_lines v = Inr ([] # cs @ [knob_line v])" "\<forall>l \<in> set cs. comment_form l"
    using knob_lines_shape [OF assms] .
  have "prints (cs @ [knob_line v]) ([] @ [v])"
    by (intro prints_append prints_comments c(2) prints_knob prints_Nil)
  then have "prints ([] # cs @ [knob_line v]) [v]" by (auto intro: prints_blank)
  with c(1) show ?thesis by blast
qed

lemma heading_form: "unbroken title \<Longrightarrow> comment_form (heading title)"
proof -
  assume u: "unbroken title"
  have "\<not> line_end (CHR ''-'')" by (simp add: line_end_def)
  with u show ?thesis
    by (auto simp: heading_def Let_def comment_form_def unbroken_def space_stays)
qed

text \<open>The lines of a section, whatever its title; with an unbroken one they print its knobs.\<close>

lemma section_lines_shape:
  assumes "section_shape x" and "doc_is_text x" and "\<forall>v \<in> set (shelf by (PStr (section_name x))). housed names v \<and> has_home v"
  shows "\<exists>ls. section_lines by x = Inr ls \<and> (title_unbroken x \<longrightarrow> prints ls (shelf by (PStr (section_name x))))"
proof -
  let ?vs = "shelf by (PStr (section_name x))"
  from assms(1) obtain d t where x: "x = PDict d" "map_of d ''title'' = Some (PStr t)" by (auto simp: section_shape_def)
  obtain about where a: "(if truthy (dget d ''doc'') then bindR (comment (dget d ''doc'')) (\<lambda>c. Inr (''#'' # c)) else Inr []) = Inr about"
    "\<forall>l \<in> set about. comment_form l"
  proof (cases "truthy (dget d ''doc'')")
    case True
    with assms(2) x(1) obtain s where "dget d ''doc'' = PStr s" by (auto simp: doc_is_text_def is_iffs)
    moreover have "comment_form ''#''" by (simp add: comment_form_def space_stays)
    ultimately show ?thesis using that [of "''#'' # comment_text s"] True by (simp add: comment_text_form)
  qed (use that [of "[]"] in simp)
  obtain ks where k: "mapR knob_lines ?vs = Inr ks" "list_all2 prints ks (map (\<lambda>v. [v]) ?vs)"
    using mapR_Inr_all2 [of ?vs knob_lines prints "\<lambda>v. [v]"] prints_knob_lines assms(3) by blast
  have "section_lines by x = Inr ([] # heading t # about @ concat ks)"
    unfolding section_lines_def section_entries_shape [OF assms(1)] x(1) item_def get_attr_def py.case x(2) option.case bindR_simps a(1) k(1)
      section_entries_shape [OF assms(1), unfolded x(1)] by (simp add: k(1) [unfolded x(1)])
  moreover have "prints ([] # heading t # about @ concat ks) ?vs" if "title_unbroken x"
  proof -
    have "prints (about @ concat ks) ([] @ concat (map (\<lambda>v. [v]) ?vs))"
      by (intro prints_append prints_comments a(2) prints_concat k(2))
    moreover have "comment_form (heading t)" using that x by (intro heading_form) (simp add: title_unbroken_def dget_def)
    ultimately show ?thesis by (auto intro: prints_blank prints_comment)
  qed
  ultimately show ?thesis by blast
qed

lemma render_env_shape:
  assumes "registry_shape doc sections config" and "\<forall>x \<in> set sections. doc_is_text x"
  shows "\<exists>ls. render_env (PDict doc) = Inr (join nl ls @ nl)
    \<and> ((\<forall>x \<in> set sections. title_unbroken x) \<longrightarrow> prints ls (concat (map (\<lambda>x. at_home config (section_name x)) sections)))"
proof -
  obtain "by" where b: "env_by_section (PDict doc) = Inr by" "\<And>s. shelf by (PStr s) = at_home config s"
    using env_by_section_shape [OF assms(1)] by blast
  from assms(1) obtain h where d: "map_of doc ''env_header'' = Some (PStr h)" "map_of doc ''env_sections'' = Some (PList sections)"
    and s: "list_all section_shape sections" by (auto simp: registry_shape_def)
  let ?R = "\<lambda>ls x. title_unbroken x \<longrightarrow> prints ls (at_home config (section_name x))"
  have "\<forall>x \<in> set sections. \<exists>ls. section_lines by x = Inr ls \<and> ?R ls x"
  proof
    fix x assume "x \<in> set sections"
    moreover have "\<forall>v \<in> set (at_home config (section_name x)). housed (map section_name sections) v \<and> has_home v"
      using registry_housed [OF assms(1)] by (auto simp: at_home_def)
    ultimately show "\<exists>ls. section_lines by x = Inr ls \<and> ?R ls x"
      using section_lines_shape [of x "by" "map section_name sections"] s assms(2) b(2) by (simp add: list_all_iff)
  qed
  then obtain lss where l: "mapR (section_lines by) sections = Inr lss" "list_all2 ?R lss sections"
    using mapR_Inr_all2 [of sections "section_lines by" ?R "\<lambda>x. x"] by auto
  have "render_env (PDict doc) = Inr (join nl (comment_text h @ concat lss) @ nl)"
    unfolding render_env_def item_def py.case d option.case bindR_simps b(1) comment_str
    by (simp add: iter_def l(1))
  moreover have "prints (comment_text h @ concat lss) ([] @ concat (map (\<lambda>x. at_home config (section_name x)) sections))"
    if t: "\<forall>x \<in> set sections. title_unbroken x"
  proof -
    have "list_all2 prints lss (map (\<lambda>x. at_home config (section_name x)) sections)"
      using l(2) t by (auto simp: list_all2_conv_all_nth)
    then show ?thesis by (intro prints_append prints_comments prints_concat) (simp add: comment_text_form)
  qed
  ultimately show ?thesis by auto
qed

section \<open>The file read back\<close>

definition plain_knob :: "py \<Rightarrow> bool" where
  "plain_knob v = (\<not> prefix ''#'' (knob_key v) \<and> (\<forall>c \<in> set (knob_key v). \<not> py_isspace c \<and> c \<noteq> CHR ''='')
     \<and> (\<forall>c \<in> set (knob_default v). \<not> py_isspace c))"

definition settings :: "py list \<Rightarrow> (string \<times> string) list" where
  "settings vs = map (\<lambda>v. (knob_key v, knob_default v)) vs"

lemma break_is_space: "line_end c \<Longrightarrow> py_isspace c"
  by (auto simp: line_end_def py_isspace_def Let_def)

lemma no_unquotable:
  assumes "housed names v" and "has_home v"
  shows "dquote \<notin> set (knob_default v)" "sq \<notin> set (knob_default v)"
proof -
  from assms obtain env d where "map_of (fields_of v) ''env'' = Some (PDict env)" "map_of env ''default'' = Some (PStr d)"
    "\<forall>c \<in> set ENV_UNQUOTABLE. c \<notin> set d" by (auto simp: housed_def env_shape_def)
  then show "dquote \<notin> set (knob_default v)" "sq \<notin> set (knob_default v)"
    by (simp_all add: knob_default_def dget_def ENV_UNQUOTABLE_def dquote_def sq_def)
qed

lemma file_line_knob:
  assumes "plain_knob v" and "dquote \<notin> set (knob_default v)" and "sq \<notin> set (knob_default v)"
  shows "file_line env (knob_line v) = AList.update (knob_key v) (knob_default v) env"
proof -
  let ?k = "knob_key v" and ?d = "knob_default v"
  have p: "\<forall>c \<in> set (knob_line v). \<not> py_isspace c" using assms(1) by (auto simp: plain_knob_def knob_line_def py_isspace_def)
  have s: "strip (knob_line v) = knob_line v" "strip ?k = ?k" "strip ?d = ?d"
    unfolding strip_def using p assms(1) by (auto intro!: strip_id simp: plain_knob_def)
  have pt: "partition_char (CHR ''='') (knob_line v) = (?k, True, ?d)"
    using assms(1) partition_char_line [of "CHR ''=''" ?k ?d] by (auto simp: knob_line_def plain_knob_def)
  have "\<not> prefix ''#'' (knob_line v)" using assms(1) by (cases ?k) (auto simp: plain_knob_def knob_line_def)
  moreover have "\<not> (2 \<le> length ?d \<and> hd ?d = last ?d \<and> (hd ?d = dquote \<or> hd ?d = sq))"
    using assms(2,3) by (cases ?d) auto
  moreover have "knob_line v \<noteq> []" "CHR ''='' \<in> set (knob_line v)" by (simp_all add: knob_line_def)
  ultimately show ?thesis unfolding file_line_def Let_def s(1) pt by (auto simp: s)
qed

lemma file_line_skips: "comment_form l \<Longrightarrow> file_line env l = env" "file_line env [] = env"
proof -
  assume "comment_form l"
  then obtain r where "l = CHR ''#'' # r" by (auto simp: comment_form_def prefix_def)
  moreover have "\<not> py_isspace (CHR ''#'')" by (simp add: py_isspace_def)
  ultimately have "prefix ''#'' (strip l)"
    by (simp add: strip_def strip_by_def rstrip_by_Cons_keep)
  then show "file_line env l = env" by (simp add: file_line_def Let_def)
qed (simp add: file_line_def strip_def strip_by_def)

lemma prints_read:
  assumes "prints ls vs" and "\<forall>v \<in> set vs. plain_knob v \<and> dquote \<notin> set (knob_default v) \<and> sq \<notin> set (knob_default v)"
  shows "foldl file_line env ls = foldl (\<lambda>e kv. AList.update (fst kv) (snd kv) e) env (settings vs)
    \<and> (\<forall>l \<in> set ls. unbroken l)"
  using assms
proof (induction arbitrary: env rule: prints.induct)
  case (prints_knob ls vs v)
  then have "unbroken (knob_line v)"
    using break_is_space space_stays
    by (auto simp: unbroken_def knob_line_def plain_knob_def line_end_def)
  with prints_knob show ?case by (simp add: file_line_knob settings_def)
qed (simp_all add: file_line_skips settings_def unbroken_def comment_form_def)

lemma split_char_no: "c \<notin> set l \<Longrightarrow> split_char c (l @ c # r) = l # split_char c r"
  by (induction l) auto

lemma split_join_nl:
  assumes "\<forall>l \<in> set ls. c \<notin> set l"
  shows "split_char c (join [c] ls @ [c]) = (if ls = [] then [[]] else ls) @ [[]]"
  using assms
proof (induction "[c]" ls rule: join.induct)
  case (2 x)
  then show ?case using split_char_no [of c x "[]"] by simp
next
  case (3 x y xs)
  then show ?case using split_char_no [of c x "join [c] (y # xs) @ [c]"] by simp
qed simp

lemma set_join_nl: "set (join nl ls) \<subseteq> (\<Union>l \<in> set ls. set l) \<union> {CHR 0x0A}"
  by (induction nl ls rule: join.induct) (auto simp: nl_def)

lemma load_dotenv_lines:
  assumes "\<forall>l \<in> set ls. unbroken l"
  shows "load_dotenv (join nl ls @ nl) = foldl file_line [] ls"
proof -
  have e: "line_end (CHR 0x0D)" "line_end (CHR 0x0A)" by (simp_all add: line_end_def)
  with assms have "\<forall>l \<in> set ls. CHR 0x0D \<notin> set l \<and> CHR 0x0A \<notin> set l" unfolding unbroken_def by blast
  then have n: "\<forall>l \<in> set ls. CHR 0x0A \<notin> set l" and "CHR 0x0D \<notin> set (join nl ls @ nl)"
    using set_join_nl [of ls] by (auto simp: nl_def)
  then have "map (\<lambda>c. if c = CHR 0x0D then CHR 0x0A else c) (join nl ls @ nl) = join nl ls @ nl"
    by (intro map_idI) auto
  with split_join_nl [OF n] show ?thesis by (simp add: load_dotenv_def file_line_skips nl_def)
qed

lemma map_of_updates:
  "map_of (foldl (\<lambda>e kv. AList.update (fst kv) (snd kv) e) env kvs) = map_of env ++ map_of (rev kvs)"
  by (induction kvs arbitrary: env) (auto simp: update_conv' map_add_def fun_eq_iff split: option.splits)

lemma sections_cover:
  assumes "registry_shape doc sections config"
  shows "mset (concat (map (\<lambda>s. at_home config (section_name s)) sections)) = mset (filter has_home config)"
    "distinct (map knob_key (concat (map (\<lambda>s. at_home config (section_name s)) sections)))"
proof -
  let ?es = "concat (map (\<lambda>s. at_home config (section_name s)) sections)"
  have d: "distinct (map section_name sections)" "distinct (map knob_key config)"
    using assms by (auto simp: registry_shape_def)
  have "mset ?es = mset (concat (map (\<lambda>n. filter (\<lambda>v. has_home v \<and> entry_section v = n) config) (map section_name sections)))"
    by (simp add: at_home_def comp_def)
  also have "\<dots> = mset (filter has_home config)"
    using d(1) housed_section registry_housed [OF assms] by (intro mset_by_section) blast+
  finally show m: "mset ?es = mset (filter has_home config)" .
  have "distinct (map knob_key (filter has_home config))" using d(2) by (simp add: distinct_map_filter)
  then show "distinct (map knob_key ?es)" using m by (metis mset_map mset_eq_imp_distinct_iff)
qed

section \<open>A registry\<close>

definition demo_text :: "string \<Rightarrow> py" where
  "demo_text t = PDict [(''en'', PStr t), (''fr'', PStr t)]"

definition demo_knobs :: "string \<Rightarrow> py \<Rightarrow> py" where
  "demo_knobs dflt section_doc = PDict [(''version'', PInt 1),
     (''secrets'', PList [PDict [(''key'', PStr ''token''), (''panel'', PDict [(''group'', PStr ''mail''),
        (''section'', PStr ''secrets''), (''kind'', PStr ''secret''), (''optional'', PBool True)])]]),
     (''config'', PList [
        PDict [(''key'', PStr ''HOST''), (''residence'', PStr ''controller''), (''step'', PStr ''first''),
          (''label'', demo_text ''Host''), (''help'', demo_text ''The host.''),
          (''env'', PDict [(''section'', PStr ''b''), (''default'', PStr []), (''example'', PStr ''192.0.2.1'')])],
        PDict [(''key'', PStr ''MODE''), (''residence'', PStr ''store''), (''help'', PDict [(''en'', PStr ''The mode.'')]),
          (''env'', PDict [(''section'', PStr ''a''), (''default'', PStr dflt), (''reseed'', PBool True)])]]),
     (''env_header'', PStr ''Settings''),
     (''env_sections'', PList [PDict [(''name'', PStr ''a''), (''title'', PStr ''A'')],
        PDict [(''name'', PStr ''b''), (''title'', PStr ''B''), (''doc'', section_doc)]]),
     (''gui_steps'', PList [PDict [(''name'', PStr ''first''), (''title'', demo_text ''T''), (''doc'', demo_text ''D'')]])]"

lemma demo_loads: "load_registry (demo_knobs ''on'' (PStr ''Doc'')) = Inr (fields_of (demo_knobs ''on'' (PStr ''Doc'')))"
  by code_simp

section \<open>Properties\<close>

text \<open>C22: a registry that loads can be rendered. When \<open>load\<close> accepts a document and the sections' texts are
  texts, \<open>render_env\<close> gives a file; no subscript, attribute or loop of it raises.\<close>

theorem loaded_registry_renders:
  assumes "load_registry v = Inr doc" and "\<forall>x \<in> set (elems_of (dget doc ''env_sections'')). doc_is_text x"
  shows "\<exists>text. render_env v = Inr text"
proof -
  obtain sections config where r: "v = PDict doc" "registry_shape doc sections config"
    using load_registry_shape [OF assms(1)] .
  then have "\<forall>x \<in> set sections. doc_is_text x" using assms(2) by (auto simp: registry_shape_def dget_def)
  from render_env_shape [OF r(2) this] r(1) show ?thesis by blast
qed

theorem loaded_registry_renders_witness:
  "load_registry (demo_knobs ''on'' (PStr ''Doc'')) = Inr (fields_of (demo_knobs ''on'' (PStr ''Doc'')))
   \<and> (\<exists>text. render_env (demo_knobs ''on'' (PStr ''Doc'')) = Inr text)"
proof -
  have "\<forall>x \<in> set (elems_of (dget (fields_of (demo_knobs ''on'' (PStr ''Doc''))) ''env_sections'')). doc_is_text x" by code_simp
  from loaded_registry_renders [OF demo_loads this] demo_loads show ?thesis by (rule conjI [rotated])
qed

text \<open>\<open>load\<close> does not look at the text of a section: one that is a number loads, and the file cannot be rendered.\<close>

lemma section_doc_unchecked:
  "load_registry (demo_knobs ''on'' (PInt 5)) = Inr (fields_of (demo_knobs ''on'' (PInt 5)))
   \<and> render_env (demo_knobs ''on'' (PInt 5)) = Inl (Raised Attribute_Error)"
  by (rule conjI; code_simp)

text \<open>The knobs in the order of the file. \<open>env_knobs\<close>, which files the knobs under their sections and then
  walks the sections, gives the configuration's knobs with a home in the file, each once, sorted by the
  position of their section, and in the registry's order within a section.\<close>

theorem env_knobs_sorts:
  assumes "load_registry v = Inr doc"
  shows "env_knobs v = Inr (sort_key (section_rank doc) (filter has_home (elems_of (dget doc ''config''))))"
proof -
  obtain sections config where r: "v = PDict doc" "registry_shape doc sections config"
    using load_registry_shape [OF assms] .
  have c: "elems_of (dget doc ''config'') = config" "elems_of (dget doc ''env_sections'') = sections"
    and d: "distinct (map section_name sections)" using r(2) by (auto simp: registry_shape_def dget_def)
  have "concat (map (\<lambda>s. at_home config (section_name s)) sections) = groups entry_section (filter has_home config) (map section_name sections)"
    by (simp add: groups_def at_home_def comp_def conj_commute)
  also have "\<dots> = sort_key (\<lambda>v. rank (map section_name sections) (entry_section v)) (filter has_home config)"
    using d housed_section [OF registry_housed [OF r(2)]] by (intro groups_sort) simp_all
  finally show ?thesis using env_knobs_shape [OF r(2)] r(1) by (simp add: c section_rank_def [abs_def])
qed

theorem env_knobs_sorts_witness:
  "env_knobs (demo_knobs ''on'' (PStr ''Doc'')) = Inr (rev (elems_of (dget (fields_of (demo_knobs ''on'' (PStr ''Doc''))) ''config'')))
   \<and> sort_key (section_rank (fields_of (demo_knobs ''on'' (PStr ''Doc'')))) (filter has_home (elems_of (dget (fields_of (demo_knobs ''on'' (PStr ''Doc''))) ''config'')))
      = rev (elems_of (dget (fields_of (demo_knobs ''on'' (PStr ''Doc''))) ''config''))"
proof -
  have "env_knobs (demo_knobs ''on'' (PStr ''Doc'')) = Inr (rev (elems_of (dget (fields_of (demo_knobs ''on'' (PStr ''Doc''))) ''config'')))"
    by code_simp
  with env_knobs_sorts [OF demo_loads] show ?thesis by simp
qed

text \<open>C23: the rendered file carries the defaults. When the titles hold no line break and every knob of the file
  has a key without spaces, equals sign or leading number sign and a default without spaces or line
  breaks, the lookup that reads the rendered file finds every such knob with its default, and nothing
  else.\<close>

theorem rendered_env_reads_back:
  assumes "load_registry v = Inr doc"
    and "\<forall>x \<in> set (elems_of (dget doc ''env_sections'')). doc_is_text x \<and> title_unbroken x"
    and "\<forall>x \<in> set (elems_of (dget doc ''config'')). has_home x \<longrightarrow> plain_knob x"
  shows "\<exists>text. render_env v = Inr text
    \<and> map_of (load_dotenv text) = map_of (settings (filter has_home (elems_of (dget doc ''config''))))"
proof -
  obtain sections config where r: "v = PDict doc" "registry_shape doc sections config"
    using load_registry_shape [OF assms(1)] .
  let ?es = "concat (map (\<lambda>s. at_home config (section_name s)) sections)"
  have c: "elems_of (dget doc ''config'') = config" "elems_of (dget doc ''env_sections'') = sections"
    and d: "distinct (map section_name sections)" "distinct (map knob_key config)"
    using r(2) by (auto simp: registry_shape_def dget_def)
  obtain ls where l: "render_env v = Inr (join nl ls @ nl)" "prints ls ?es"
    using render_env_shape [OF r(2)] assms(2) c(2) r(1) by auto
  have es: "set ?es = set (filter has_home config)" using sections_cover(1) [OF r(2)] by (rule mset_eq_setD)
  have "\<forall>x \<in> set ?es. plain_knob x \<and> dquote \<notin> set (knob_default x) \<and> sq \<notin> set (knob_default x)"
    unfolding es using assms(3) c(1) no_unquotable [OF registry_housed [OF r(2)]] by auto
  note rd = prints_read [OF l(2) this]
  have "map_of (load_dotenv (join nl ls @ nl)) = map_of (rev (settings ?es))"
    using rd load_dotenv_lines [of ls] by (simp add: map_of_updates)
  also have "\<dots> = map_of (settings (filter has_home config))"
  proof -
    have "distinct (map fst (rev (settings ?es)))" using sections_cover(2) [OF r(2)] by (simp add: settings_def comp_def rev_map [symmetric])
    moreover have "distinct (map fst (settings (filter has_home config)))" using d(2) by (simp add: settings_def comp_def distinct_map_filter)
    ultimately show ?thesis by (subst map_of_inject_set) (simp_all add: settings_def es del: set_concat)
  qed
  finally show ?thesis using l(1) c(1) by auto
qed

theorem rendered_env_reads_back_witness:
  "\<exists>text. render_env (demo_knobs ''on'' (PStr ''Doc'')) = Inr text \<and> map_of (load_dotenv text) ''MODE'' = Some ''on''"
proof -
  have a: "\<forall>x \<in> set (elems_of (dget (fields_of (demo_knobs ''on'' (PStr ''Doc''))) ''env_sections'')). doc_is_text x \<and> title_unbroken x"
    by code_simp
  have b: "\<forall>x \<in> set (elems_of (dget (fields_of (demo_knobs ''on'' (PStr ''Doc''))) ''config'')). has_home x \<longrightarrow> plain_knob x"
    by code_simp
  have c: "map_of (settings (filter has_home (elems_of (dget (fields_of (demo_knobs ''on'' (PStr ''Doc''))) ''config'')))) ''MODE'' = Some ''on''"
    by code_simp
  from rendered_env_reads_back [OF demo_loads a b] c show ?thesis by (metis (no_types))
qed

text \<open>A default with a line break loads, and the rendered file then sets a key that no knob has.\<close>

lemma default_breaks_line:
  "load_registry (demo_knobs (''on'' @ nl @ ''EXTRA=1'') (PStr ''Doc'')) = Inr (fields_of (demo_knobs (''on'' @ nl @ ''EXTRA=1'') (PStr ''Doc'')))
   \<and> (case render_env (demo_knobs (''on'' @ nl @ ''EXTRA=1'') (PStr ''Doc'')) of
        Inl _ \<Rightarrow> False | Inr text \<Rightarrow> map_of (load_dotenv text) ''EXTRA'' = Some ''1'')"
  by (rule conjI; code_simp)

end
