(* ===== verification/Seed_Env.thy ===== *)
theory Seed_Env
  imports Env_Sound
begin

text \<open>
  The values of an inventory in \<open>src/ansible/seed.py\<close>: what counts as an answer (\<open>_is_placeholder\<close>,
  \<open>_is_filled\<close>, \<open>_effective_options\<close>), the file read (\<open>parse_env_pairs\<close>) and written (\<open>emit_env\<close>), the
  split of an input file, the names the server holds, the checks of an input and the names of
  inventories. The messages printed on the way are not part of the model.
\<close>

section \<open>Definitions\<close>

definition PLACEHOLDER_VALUES :: "string list" where
  "PLACEHOLDER_VALUES = [''REPLACE'', ''REPLACE-LONG-RANDOM-STRING'']"

definition PLACEHOLDER_DOMAINS :: "string list" where
  "PLACEHOLDER_DOMAINS = [''example.com'', ''example.net'', ''example.org'']"

definition is_placeholder :: "string \<Rightarrow> bool" where
  "is_placeholder v =
     (let s = strip v; low = lower s in
      s \<in> set PLACEHOLDER_VALUES \<or> list_ex (\<lambda>d. low = d \<or> suffix (CHR ''@'' # d) low) PLACEHOLDER_DOMAINS)"

definition is_filled :: "py \<Rightarrow> bool" where
  "is_filled v = (case v of
      PNone \<Rightarrow> False
    | PBool _ \<Rightarrow> True
    | _ \<Rightarrow> (let s = strip (py_str v) in s \<noteq> [] \<and> \<not> is_placeholder s))"

definition BOOL_VALUES :: "string list" where "BOOL_VALUES = [''true'', ''false'']"

text \<open>The values a field accepts; the empty list stands for no constraint.\<close>

definition effective_options :: "string \<Rightarrow> string list \<Rightarrow> string list" where
  "effective_options dflt options =
     (if options \<noteq> [] then options else if dflt \<in> set BOOL_VALUES then BOOL_VALUES else [])"

subsection \<open>The registry as seed sees it\<close>

record seed_knobs =
  sk_env :: "(string \<times> string) list"
  sk_options :: "(string \<times> string list) list"
  sk_exampled :: "string list"
  sk_declared :: "string list"

text \<open>\<open>ENV_KEYS\<close>, \<open>ENV_OPTIONS\<close>, \<open>ENV_EXAMPLED\<close> and the keys of the registry, from a document that loads.\<close>

definition env_of :: "py \<Rightarrow> dict" where
  "env_of v = fields_of (dget (fields_of v) ''env'')"

definition seed_knobs_of :: "py \<Rightarrow> seed_knobs kn" where
  "seed_knobs_of doc = bindR (load_registry doc) (\<lambda>d. bindR (env_knobs doc) (\<lambda>es. Inr
     \<lparr>sk_env = map (\<lambda>v. (knob_key v, knob_default v)) es,
      sk_options = map (\<lambda>v. (knob_key v, map py_text (elems_of (dget (env_of v) ''options''))))
        (filter (\<lambda>v. has_key (env_of v) ''options'') es),
      sk_exampled = map knob_key (filter (\<lambda>v. truthy (dget (env_of v) ''example'')) es),
      sk_declared = map knob_key (elems_of (dget d ''secrets'') @ elems_of (dget d ''config''))\<rparr>))"

definition options_for :: "seed_knobs \<Rightarrow> string \<Rightarrow> string list" where
  "options_for kn key = (case map_of (sk_options kn) key of None \<Rightarrow> [] | Some os \<Rightarrow> os)"

definition ADMIN_PASSWORD_KEY :: string where "ADMIN_PASSWORD_KEY = ''admin_password''"
definition ADMIN_PASSWORD_MIN_LEN :: nat where "ADMIN_PASSWORD_MIN_LEN = 16"

text \<open>The names the server holds, \<open>secret_names\<close> being those of the store.\<close>

definition server_held :: "seed_knobs \<Rightarrow> string list \<Rightarrow> string list \<Rightarrow> string list" where
  "server_held kn secret_names keys =
     (let server = filter (\<lambda>k. k \<notin> set (map fst (sk_env kn))) (sk_declared kn) @ secret_names in
      sort (remdups (filter (\<lambda>k. k \<in> set server \<and> k \<noteq> ADMIN_PASSWORD_KEY) keys)))"

subsection \<open>The input file\<close>

record seed_input =
  si_inventory :: py
  si_host :: py
  si_env :: py
  si_secrets :: py

definition HOST_PREFIX :: string where "HOST_PREFIX = ''host_''"

definition or_empty :: "py \<Rightarrow> py" where
  "or_empty v = (if truthy v then v else PDict [])"

definition split_install_dict :: "string list \<Rightarrow> py \<Rightarrow> seed_input flt" where
  "split_install_dict secret_names raw = (case raw of
      PDict d \<Rightarrow>
        if list_ex (\<lambda>k. is_dict (dget d k)) [''host'', ''env'', ''secrets''] then
          Inr \<lparr>si_inventory = dget d ''inventory'', si_host = or_empty (dget d ''host''),
            si_env = or_empty (dget d ''env''), si_secrets = or_empty (dget d ''secrets'')\<rparr>
        else (let rest = filter (\<lambda>kv. fst kv \<noteq> ''inventory'') d;
                  hosts = filter (\<lambda>kv. prefix HOST_PREFIX (fst kv)) rest;
                  plain = filter (\<lambda>kv. \<not> prefix HOST_PREFIX (fst kv)) rest in
          Inr \<lparr>si_inventory = dget d ''inventory'',
            si_host = PDict (map (\<lambda>kv. (drop (length HOST_PREFIX) (fst kv), snd kv)) hosts),
            si_env = PDict (filter (\<lambda>kv. fst kv \<notin> set secret_names) plain),
            si_secrets = PDict (filter (\<lambda>kv. fst kv \<in> set secret_names) plain)\<rparr>)
    | _ \<Rightarrow> Inl Attribute_Error)"

text \<open>\<open>set(x or {})\<close>: the strings among the members.\<close>

definition member_names :: "py \<Rightarrow> string list flt" where
  "member_names v = bindR (items_or v) (\<lambda>xs.
     if list_all can_hash xs then Inr (map py_text (filter is_str xs)) else Inl Type_Error)"

definition not_install_inputs :: "seed_knobs \<Rightarrow> string list \<Rightarrow> seed_input \<Rightarrow> string list flt" where
  "not_install_inputs kn secret_names inp =
     bindR (member_names (si_env inp)) (\<lambda>e. bindR (member_names (si_secrets inp)) (\<lambda>s.
       Inr (server_held kn secret_names (e @ s))))"

subsection \<open>The file\<close>

definition unquoted :: "string \<Rightarrow> string" where
  "unquoted v = (if 2 \<le> length v \<and> hd v = last v \<and> (hd v = dquote \<or> hd v = sq) then butlast (tl v) else v)"

definition env_pair :: "string \<Rightarrow> (string \<times> string) option" where
  "env_pair raw =
     (let line = strip raw in
      if line = [] \<or> prefix ''#'' line \<or> CHR ''='' \<notin> set line then None
      else (case partition_char (CHR ''='') line of (k, _, v) \<Rightarrow> Some (strip k, unquoted (strip v))))"

definition parse_env_pairs :: "string \<Rightarrow> (string \<times> string) list" where
  "parse_env_pairs text = concat (map (\<lambda>raw. case env_pair raw of None \<Rightarrow> [] | Some kv \<Rightarrow> [kv]) (splitlines text))"

text \<open>\<open>dict(pairs)\<close>: a key keeps its first place and its last value.\<close>

definition dict_of :: "(string \<times> string) list \<Rightarrow> (string \<times> string) list" where
  "dict_of pairs = foldl (\<lambda>d kv. AList.update (fst kv) (snd kv) d) [] pairs"

definition read_existing_env :: "string \<Rightarrow> (string \<times> string) list" where
  "read_existing_env text = dict_of (parse_env_pairs text)"

definition escaped :: "string \<Rightarrow> string" where
  "escaped v = concat (map (\<lambda>c. if c = CHR 0x5C \<or> c = dquote then [CHR 0x5C, c] else [c]) v)"

definition quotable :: "string \<Rightarrow> bool" where
  "quotable v = list_ex (\<lambda>c. c \<in> set v) ENV_UNQUOTABLE"

definition written :: "string \<Rightarrow> string" where
  "written v = (if quotable v then [dquote] @ escaped v @ [dquote] else v)"

definition pair_line :: "string \<Rightarrow> string \<Rightarrow> string" where
  "pair_line k v = k @ ''='' @ written v"

text \<open>The key a line of the template sets.\<close>

definition template_key :: "string \<Rightarrow> string option" where
  "template_key raw =
     (let s = strip raw in
      if s = [] \<or> prefix ''#'' s \<or> CHR ''='' \<notin> set s then None
      else Some (strip (fst (partition_char (CHR ''='') s))))"

definition value_for :: "(string \<times> string) list \<Rightarrow> (string \<times> string) list \<Rightarrow> string \<Rightarrow> string" where
  "value_for existing vals key = (case map_of existing key of Some v \<Rightarrow> v
     | None \<Rightarrow> (case map_of vals key of Some v \<Rightarrow> v | None \<Rightarrow> []))"

definition template_line :: "(string \<times> string) list \<Rightarrow> (string \<times> string) list \<Rightarrow> string \<Rightarrow> string" where
  "template_line existing vals raw = (case template_key raw of None \<Rightarrow> raw
     | Some k \<Rightarrow> pair_line k (value_for existing vals k))"

definition template_keys :: "string \<Rightarrow> string list" where
  "template_keys template = concat (map (\<lambda>raw. case template_key raw of None \<Rightarrow> [] | Some k \<Rightarrow> [k]) (splitlines template))"

definition emit_lines :: "string \<Rightarrow> (string \<times> string) list \<Rightarrow> (string \<times> string) list \<Rightarrow> bool \<Rightarrow> string list" where
  "emit_lines template vals on_disk keep =
     (let existing = (if keep then on_disk else []);
          out = map (template_line existing vals) (splitlines template);
          extra = filter (\<lambda>kv. fst kv \<notin> set (template_keys template)) on_disk in
      out @ (if extra = [] then [] else [[], ''# Not in the template, kept as found.''] @ map (\<lambda>kv. pair_line (fst kv) (snd kv)) extra))"

text \<open>What \<open>emit_env\<close> writes, given what the file held.\<close>

definition emit_env :: "string \<Rightarrow> (string \<times> string) list \<Rightarrow> string option \<Rightarrow> bool \<Rightarrow> string" where
  "emit_env template vals before keep =
     join nl (emit_lines template vals (case before of None \<Rightarrow> [] | Some t \<Rightarrow> read_existing_env t) keep) @ nl"

text \<open>\<open>write_env\<close>: every key at its default unless answered.\<close>

definition write_env :: "seed_knobs \<Rightarrow> string \<Rightarrow> (string \<times> string) list \<Rightarrow> string option \<Rightarrow> string" where
  "write_env kn template answers before =
     emit_env template (foldl (\<lambda>d kv. AList.update (fst kv) (snd kv) d) (dict_of (sk_env kn)) answers) before False"

subsection \<open>The checks\<close>

definition yaml_bool :: "py \<Rightarrow> py" where
  "yaml_bool v = (case v of PBool b \<Rightarrow> PStr (if b then ''true'' else ''false'') | _ \<Rightarrow> v)"

text \<open>Whether one key of the registry is a problem.\<close>

definition key_problem :: "seed_knobs \<Rightarrow> dict \<Rightarrow> string \<times> string \<Rightarrow> bool" where
  "key_problem kn env kd = (case kd of (key, dflt) \<Rightarrow>
     let v = dget_def env key (PStr dflt); eff = effective_options dflt (options_for kn key); norm = yaml_bool v in
     if dflt = [] \<and> key \<notin> set (sk_exampled kn) \<and> \<not> is_filled v then False
     else if \<not> is_filled norm then True
     else eff \<noteq> [] \<and> py_str norm \<notin> set eff)"

definition validate_install_structural :: "seed_knobs \<Rightarrow> py \<Rightarrow> dict \<Rightarrow> nat" where
  "validate_install_structural kn inventory env =
     (if truthy inventory then 0 else 1) + length (filter (key_problem kn env) (sk_env kn))"

subsection \<open>Inventories\<close>

definition name_start :: "char \<Rightarrow> bool" where "name_start c = (is_lower c \<or> is_digit c)"
definition name_char :: "char \<Rightarrow> bool" where
  "name_char c = (name_start c \<or> c = CHR ''_'' \<or> c = CHR ''-'')"

text \<open>The pattern of \<open>_INVENTORY_NAME\<close>, with the end anchor of \<open>re\<close>.\<close>

definition inventory_name_ok :: "string \<Rightarrow> bool" where
  "inventory_name_ok name = (case name of [] \<Rightarrow> False
     | c # s \<Rightarrow> name_start c \<and> length (takeWhile name_char s) \<le> 62 \<and> at_end (dropWhile name_char s))"

definition inventory_name_problem :: "string \<Rightarrow> bool \<Rightarrow> string" where
  "inventory_name_problem name exists =
     (if \<not> inventory_name_ok name then ''invalid'' else if exists then ''exists'' else [])"

definition inventories :: "(string \<times> bool) list \<Rightarrow> string list" where
  "inventories entries = sort (map fst (filter (\<lambda>p. snd p \<and> \<not> prefix ''.'' (fst p)) entries))"

end
