(* ===== verification/Seed_Sound.thy ===== *)
theory Seed_Sound
  imports Seed_Env
begin

text \<open>
  The environment file that seed writes is the one it reads back: which values survive, that a second
  run writes the same file, and that a value with a quotation mark does not survive.
\<close>

section \<open>Lines\<close>

lemma splitlines_line: "unbroken l \<Longrightarrow> splitlines (l @ nl @ t) = l # splitlines t"
proof -
  have "splitlines_acc acc (l @ CHR 0x0A # t) = (rev acc @ l) # splitlines_acc [] t" if "unbroken l" for acc
    using that by (induction l arbitrary: acc) (auto simp: unbroken_def line_end_def)
  then show "unbroken l \<Longrightarrow> splitlines (l @ nl @ t) = l # splitlines t" by (simp add: splitlines_def nl_def)
qed

lemma splitlines_join: "\<forall>l \<in> set ls. unbroken l \<Longrightarrow> ls \<noteq> [] \<Longrightarrow> splitlines (join nl ls @ nl) = ls"
proof (induction nl ls rule: join.induct)
  case (2 x)
  then show ?case using splitlines_line [of x "[]"] by (simp add: splitlines_def)
next
  case (3 x y xs)
  then show ?case using splitlines_line [of x "join nl (y # xs) @ nl"] by simp
qed simp

lemma strip_fixed: "s = [] \<or> \<not> py_isspace (hd s) \<and> \<not> py_isspace (last s) \<Longrightarrow> strip s = s"
proof -
  assume a: "s = [] \<or> \<not> py_isspace (hd s) \<and> \<not> py_isspace (last s)"
  have d: "dropWhile py_isspace t = t" if "t = [] \<or> \<not> py_isspace (hd t)" for t using that by (cases t) auto
  have "dropWhile py_isspace s = s" "dropWhile py_isspace (rev s) = rev s" using a by (auto intro!: d simp: hd_rev)
  then show ?thesis by (simp add: strip_def strip_by_def rstrip_by_def)
qed

lemma strip_hd: "strip s = s \<Longrightarrow> s \<noteq> [] \<Longrightarrow> \<not> py_isspace (hd s)"
proof
  assume s: "strip s = s" "s \<noteq> []" and h: "py_isspace (hd s)"
  then obtain t where t: "s = hd s # t" by (cases s) auto
  have "length (strip s) \<le> length (dropWhile py_isspace s)"
    by (simp add: strip_def strip_by_def rstrip_by_def length_dropWhile_le [of _ "rev _", simplified])
  moreover have "length (dropWhile py_isspace s) < length s"
    using h length_dropWhile_le [of py_isspace t] by (subst (1 2) t) (simp add: le_imp_less_Suc)
  ultimately show False using s(1) by simp
qed

definition good_key :: "string \<Rightarrow> bool" where
  "good_key k = (strip k = k \<and> CHR ''='' \<notin> set k \<and> \<not> prefix ''#'' k \<and> unbroken k)"

definition storable :: "string \<Rightarrow> bool" where
  "storable v = (unbroken v \<and> (\<forall>c \<in> set v. py_isspace c \<longrightarrow> blank_tab c)
     \<and> (quotable v \<longrightarrow> dquote \<notin> set v \<and> CHR 0x5C \<notin> set v))"

lemma quotable_char: "c \<in> set v \<Longrightarrow> c \<in> set ENV_UNQUOTABLE \<Longrightarrow> quotable v"
  by (auto simp: quotable_def list_ex_iff)

lemma escaped_id: "dquote \<notin> set v \<Longrightarrow> CHR 0x5C \<notin> set v \<Longrightarrow> escaped v = v"
  by (induction v) (auto simp: escaped_def)

lemma written_cases:
  assumes "storable v"
  obtains "quotable v" "written v = [dquote] @ v @ [dquote]" | "\<not> quotable v" "written v = v" "\<forall>c \<in> set v. \<not> py_isspace c"
    "dquote \<notin> set v" "sq \<notin> set v"
proof (cases "quotable v")
  case True
  with assms that(1) show thesis by (simp add: storable_def written_def escaped_id)
next
  case False
  then have "blank_tab c \<Longrightarrow> c \<notin> set v" "dquote \<notin> set v" "sq \<notin> set v" for c
    using quotable_char by (auto simp: ENV_UNQUOTABLE_def blank_tab_def dquote_def sq_def)
  with assms that(2) False show thesis by (auto simp: storable_def written_def)
qed

lemma strip_written: "storable v \<Longrightarrow> strip (written v) = written v"
proof (erule written_cases)
  assume "written v = [dquote] @ v @ [dquote]"
  then show ?thesis by (intro strip_fixed) (simp add: dquote_def py_isspace_def)
next
  assume "written v = v" "\<forall>c \<in> set v. \<not> py_isspace c"
  then show ?thesis by (intro strip_fixed) auto
qed

lemma unquoted_written: "storable v \<Longrightarrow> unquoted (written v) = v"
proof (erule written_cases)
  assume "written v = [dquote] @ v @ [dquote]"
  then show ?thesis by (simp add: unquoted_def)
next
  assume "written v = v" "dquote \<notin> set v" "sq \<notin> set v"
  then show ?thesis by (cases v) (auto simp: unquoted_def)
qed

lemma written_last: "storable v \<Longrightarrow> written v \<noteq> [] \<Longrightarrow> \<not> py_isspace (last (written v))"
  using strip_written [of v] by (erule_tac written_cases) (auto simp: dquote_def py_isspace_def)

lemma eq_plain: "\<not> py_isspace (CHR ''='')" "\<not> line_end (CHR ''='')" "\<not> line_end dquote"
  by (simp_all add: py_isspace_def line_end_def dquote_def)

lemma pair_line_strip:
  assumes "good_key k" and "storable v"
  shows "strip (pair_line k v) = pair_line k v"
proof (intro strip_fixed disjI2 conjI)
  show "\<not> py_isspace (hd (pair_line k v))"
    using assms(1) strip_hd [of k] eq_plain by (cases k) (auto simp: pair_line_def good_key_def)
  show "\<not> py_isspace (last (pair_line k v))"
    using written_last [OF assms(2)] eq_plain by (cases "written v = []") (auto simp: pair_line_def)
qed

lemma env_pair_line:
  assumes "good_key k" and "storable v"
  shows "env_pair (pair_line k v) = Some (k, v)"
proof -
  have "partition_char (CHR ''='') (pair_line k v) = (k, True, written v)"
    using assms(1) partition_char_line [of "CHR ''=''" k "written v"] by (simp add: pair_line_def good_key_def)
  moreover have "\<not> prefix ''#'' (pair_line k v)" using assms(1) by (cases k) (auto simp: pair_line_def good_key_def)
  ultimately show ?thesis
    using assms pair_line_strip [OF assms] strip_written unquoted_written
    by (simp add: env_pair_def Let_def good_key_def) (simp add: pair_line_def)
qed

lemma pair_line_unbroken: "good_key k \<Longrightarrow> storable v \<Longrightarrow> unbroken (pair_line k v)"
proof -
  assume k: "good_key k" and v: "storable v"
  have "unbroken v" using v by (simp add: storable_def)
  with v have "unbroken (written v)" by (elim written_cases) (auto simp: unbroken_def eq_plain)
  with k show ?thesis by (auto simp: pair_line_def good_key_def unbroken_def eq_plain)
qed

text \<open>The keys of a file or a template are good ones.\<close>

lemma strip_unbroken: "unbroken s \<Longrightarrow> unbroken (strip s)"
  using set_strip_by [of py_isspace s] by (auto simp: unbroken_def strip_def)

lemma head_good:
  assumes "unbroken raw" and "strip raw \<noteq> []" and "\<not> prefix ''#'' (strip raw)"
  shows "good_key (strip (takeWhile (\<lambda>c. c \<noteq> CHR ''='') (strip raw)))"
proof -
  let ?s = "strip raw" and ?h = "takeWhile (\<lambda>c. c \<noteq> CHR ''='') (strip raw)"
  have sub: "set (strip ?h) \<subseteq> set ?h" using set_strip_by by (simp add: strip_def)
  have "unbroken (strip ?h)" using assms(1) strip_unbroken [of raw] sub by (auto simp: unbroken_def dest!: set_takeWhileD)
  moreover have "CHR ''='' \<notin> set (strip ?h)" using sub by (auto dest: set_takeWhileD)
  moreover have "\<not> prefix ''#'' (strip ?h)"
  proof
    assume p: "prefix ''#'' (strip ?h)"
    then have "?h \<noteq> []" by (auto simp: strip_def strip_by_def)
    then have hh: "hd ?h = hd ?s" by (cases ?s) auto
    have "\<not> py_isspace (hd ?s)" using strip_hd [of ?s] assms(2) by simp
    then have "dropWhile py_isspace ?h = ?h" using hh \<open>?h \<noteq> []\<close> by (cases ?h) auto
    then have "strip ?h = rstrip_by py_isspace ?h" by (simp add: strip_def strip_by_def)
    moreover have "rstrip_by py_isspace (hd ?h # tl ?h) = hd ?h # rstrip_by py_isspace (tl ?h)"
      using \<open>\<not> py_isspace (hd ?s)\<close> hh by (intro rstrip_by_Cons_keep) simp
    ultimately have "strip ?h = hd ?h # rstrip_by py_isspace (tl ?h)" by (simp only: list.collapse [OF \<open>?h \<noteq> []\<close>])
    then have "hd (strip ?h) = hd ?s" using hh by simp
    with p assms(2,3) show False by (cases "strip ?h"; cases ?s) auto
  qed
  ultimately show ?thesis by (simp add: good_key_def)
qed

lemma template_key_good: "unbroken raw \<Longrightarrow> template_key raw = Some k \<Longrightarrow> good_key k"
  using head_good by (auto simp: template_key_def partition_char_def Let_def split: if_splits)

lemma env_pair_good: "unbroken raw \<Longrightarrow> env_pair raw = Some (k, v) \<Longrightarrow> good_key k"
  using head_good by (auto simp: env_pair_def partition_char_def Let_def split: if_splits)

lemma no_template_key: "template_key raw = None \<Longrightarrow> env_pair raw = None"
  by (auto simp: template_key_def env_pair_def Let_def split: if_splits prod.splits)

section \<open>The file\<close>

definition pairs_of :: "string list \<Rightarrow> (string \<times> string) list" where
  "pairs_of ls = concat (map (\<lambda>raw. case env_pair raw of None \<Rightarrow> [] | Some kv \<Rightarrow> [kv]) ls)"

definition on_disk :: "string option \<Rightarrow> (string \<times> string) list" where
  "on_disk before = (case before of None \<Rightarrow> [] | Some t \<Rightarrow> read_existing_env t)"

definition kept :: "string option \<Rightarrow> bool \<Rightarrow> (string \<times> string) list" where
  "kept before keep = (if keep then on_disk before else [])"

definition extra_pairs :: "string \<Rightarrow> string option \<Rightarrow> (string \<times> string) list" where
  "extra_pairs template before = filter (\<lambda>kv. fst kv \<notin> set (template_keys template)) (on_disk before)"

definition storable_all :: "(string \<times> string) list \<Rightarrow> bool" where
  "storable_all d = (\<forall>v \<in> snd ` set d. storable v)"

lemma storable_Nil: "storable []" by (simp add: storable_def unbroken_def quotable_def list_ex_iff)

lemma value_for_storable: "storable_all e \<Longrightarrow> storable_all vals \<Longrightarrow> storable (value_for e vals k)"
  using map_of_SomeD [of e k] map_of_SomeD [of vals k]
  by (force simp: value_for_def storable_all_def storable_Nil split: option.splits)

lemma set_update: "set (AList.update k v d) \<subseteq> insert (k, v) (set d)"
  by (induction d) auto

lemma dict_of_snoc: "dict_of (ps @ [kv]) = AList.update (fst kv) (snd kv) (dict_of ps)"
  by (simp add: dict_of_def)

lemma set_dict_of: "set (dict_of ps) \<subseteq> set ps"
proof (induction ps rule: rev_induct)
  case (snoc kv ps)
  then show ?case using set_update [of "fst kv" "snd kv" "dict_of ps"] by (auto simp: dict_of_snoc)
qed (simp add: dict_of_def)

lemma distinct_dict_of: "distinct (map fst (dict_of ps))"
  by (induction ps rule: rev_induct) (auto simp: dict_of_snoc distinct_update, simp add: dict_of_def)

lemma map_of_dict_of: "map_of (dict_of ps) = map_of (rev ps)"
  using map_of_updates [of "[]" ps] by (simp add: dict_of_def)

lemma parse_good:
  assumes "(k, v) \<in> set (parse_env_pairs t)"
  shows "good_key k"
proof -
  from assms obtain raw where "raw \<in> set (splitlines t)" "env_pair raw = Some (k, v)"
    by (auto simp: parse_env_pairs_def split: option.splits)
  then show ?thesis using splitlines_unbroken env_pair_good by metis
qed

lemma on_disk_good: "(k, v) \<in> set (on_disk before) \<Longrightarrow> good_key k"
  using set_dict_of parse_good by (fastforce simp: on_disk_def read_existing_env_def split: option.splits)

lemma emit_env_lines:
  "emit_env template vals before keep = join nl (map (template_line (kept before keep) vals) (splitlines template)
     @ (if extra_pairs template before = [] then []
        else [[], ''# Not in the template, kept as found.''] @ map (\<lambda>kv. pair_line (fst kv) (snd kv)) (extra_pairs template before))) @ nl"
  by (simp add: emit_env_def emit_lines_def Let_def kept_def extra_pairs_def on_disk_def)

lemma pairs_template:
  assumes "\<forall>raw \<in> set raws. unbroken raw" and "\<And>k. storable (f k)"
    and "\<And>raw. line raw = (case template_key raw of None \<Rightarrow> raw | Some k \<Rightarrow> pair_line k (f k))"
  shows "pairs_of (map line raws)
      = map (\<lambda>k. (k, f k)) (concat (map (\<lambda>raw. case template_key raw of None \<Rightarrow> [] | Some k \<Rightarrow> [k]) raws))
    \<and> (\<forall>l \<in> set (map line raws). unbroken l)"
  using assms(1)
proof (induction raws)
  case (Cons raw raws)
  show ?case
  proof (cases "template_key raw")
    case None
    with Cons no_template_key [OF None] show ?thesis by (simp add: pairs_of_def assms(3))
  next
    case (Some k)
    moreover have "unbroken raw" using Cons.prems by simp
    ultimately have "good_key k" using template_key_good by metis
    with Some Cons env_pair_line [OF _ assms(2)] pair_line_unbroken [OF _ assms(2)] show ?thesis
      by (simp add: pairs_of_def assms(3))
  qed
qed (simp add: pairs_of_def)

lemma pairs_extra:
  assumes "\<forall>kv \<in> set ps. good_key (fst kv) \<and> storable (snd kv)"
  shows "pairs_of (map (\<lambda>kv. pair_line (fst kv) (snd kv)) ps) = ps
    \<and> (\<forall>l \<in> set (map (\<lambda>kv. pair_line (fst kv) (snd kv)) ps). unbroken l)"
  using assms by (induction ps) (auto simp: pairs_of_def env_pair_line pair_line_unbroken)

lemma pairs_of_append: "pairs_of (a @ b) = pairs_of a @ pairs_of b" by (simp add: pairs_of_def)

lemma pairs_of_file:
  assumes "\<forall>l \<in> set ls. unbroken l"
  shows "pairs_of (splitlines (join nl ls @ nl)) = pairs_of ls"
proof (cases "ls = []")
  case True
  moreover have "pairs_of (splitlines (join nl [] @ nl)) = []" by code_simp
  ultimately show ?thesis by (simp add: pairs_of_def)
next
  case False
  then show ?thesis using splitlines_join [OF assms] by simp
qed

lemma parse_emitted:
  assumes "storable_all vals" and "storable_all (on_disk before)"
  shows "parse_env_pairs (emit_env template vals before keep)
    = map (\<lambda>k. (k, value_for (kept before keep) vals k)) (template_keys template) @ extra_pairs template before"
proof -
  let ?t = "map (template_line (kept before keep) vals) (splitlines template)"
  let ?e = "map (\<lambda>kv. pair_line (fst kv) (snd kv)) (extra_pairs template before)"
  let ?note = "''# Not in the template, kept as found.''"
  have kv: "storable (value_for (kept before keep) vals k)" for k
    using assms by (intro value_for_storable) (auto simp: kept_def storable_all_def)
  have t: "pairs_of ?t = map (\<lambda>k. (k, value_for (kept before keep) vals k)) (template_keys template)" "\<forall>l \<in> set ?t. unbroken l"
    using pairs_template [of "splitlines template" "value_for (kept before keep) vals" "template_line (kept before keep) vals"] kv splitlines_unbroken
    by (auto simp: template_line_def template_keys_def)
  have e: "pairs_of ?e = extra_pairs template before" "\<forall>l \<in> set ?e. unbroken l"
  proof -
    have "\<forall>kv \<in> set (extra_pairs template before). good_key (fst kv) \<and> storable (snd kv)"
      using assms(2) on_disk_good by (force simp: extra_pairs_def storable_all_def)
    from pairs_extra [OF this] show "pairs_of ?e = extra_pairs template before" "\<forall>l \<in> set ?e. unbroken l" by blast+
  qed
  have n: "env_pair [] = None" "env_pair ?note = None" "unbroken []" "unbroken ?note" by code_simp+
  let ?ls = "?t @ (if extra_pairs template before = [] then [] else [[], ?note] @ ?e)"
  have ps: "pairs_of ?ls = map (\<lambda>k. (k, value_for (kept before keep) vals k)) (template_keys template) @ extra_pairs template before"
    using t(1) e(1) n(1,2) by (simp add: pairs_of_append) (simp add: pairs_of_def)
  have "\<forall>l \<in> set ?ls. unbroken l" using t(2) e(2) n(3,4) by auto
  then have "pairs_of (splitlines (join nl ?ls @ nl)) = pairs_of ?ls" by (rule pairs_of_file)
  then show ?thesis unfolding emit_env_lines parse_env_pairs_def using ps by (simp add: pairs_of_def)
qed

lemma emitted_maps:
  assumes "storable_all vals" and "storable_all (on_disk before)"
  shows "map_of (read_existing_env (emit_env template vals before keep)) k
    = (if k \<in> set (template_keys template) then Some (value_for (kept before keep) vals k) else map_of (on_disk before) k)"
proof -
  have "map_of (rev (map (\<lambda>k. (k, f k)) ks)) k = (if k \<in> set ks then Some (f k) else None)" for f :: "string \<Rightarrow> string" and ks
    by (induction ks) (auto simp: map_add_def split: option.splits)
  moreover have "map_of (rev (extra_pairs template before)) = map_of (extra_pairs template before)"
    by (rule map_of_inject_set [THEN iffD2])
      (auto simp: extra_pairs_def on_disk_def read_existing_env_def distinct_dict_of distinct_map_filter rev_map [symmetric] split: option.splits)
  moreover have "map_of (extra_pairs template before) k = (if k \<in> set (template_keys template) then None else map_of (on_disk before) k)"
    unfolding extra_pairs_def using map_of_filter_key [of "\<lambda>k. k \<notin> set (template_keys template)" "on_disk before" k] by auto
  ultimately show ?thesis
    by (simp add: read_existing_env_def map_of_dict_of parse_emitted [OF assms] map_add_def split: option.splits)
qed

text \<open>A dictionary built from pairs with new, distinct keys appends them.\<close>

lemma update_new: "k \<notin> fst ` set d \<Longrightarrow> AList.update k v d = d @ [(k, v)]"
  by (induction d) auto

lemma foldl_update_new:
  "distinct (map fst ps) \<Longrightarrow> set (map fst ps) \<inter> set (map fst d) = {} \<Longrightarrow>
   foldl (\<lambda>d kv. AList.update (fst kv) (snd kv) d) d ps = d @ ps"
proof (induction ps arbitrary: d)
  case (Cons kv ps)
  have "AList.update (fst kv) (snd kv) d = d @ [kv]" using Cons.prems by (cases kv) (auto intro: update_new)
  with Cons.IH [of "d @ [kv]"] Cons.prems show ?case by auto
qed simp

lemma fst_dict_of: "fst ` set (dict_of ps) \<subseteq> fst ` set ps"
  using set_dict_of by (rule image_mono)

lemma extra_stable:
  assumes "storable_all vals" and "storable_all (on_disk before)"
  shows "extra_pairs template (Some (emit_env template vals before keep)) = extra_pairs template before"
proof -
  let ?a = "map (\<lambda>k. (k, value_for (kept before keep) vals k)) (template_keys template)" and ?e = "extra_pairs template before"
  have d: "distinct (map fst ?e)"
    by (auto simp: extra_pairs_def on_disk_def read_existing_env_def distinct_dict_of distinct_map_filter split: option.splits)
  have k: "fst ` set (dict_of ?a) \<subseteq> set (template_keys template)" using fst_dict_of [of ?a] by (auto simp: image_image)
  then have "set (map fst ?e) \<inter> set (map fst (dict_of ?a)) = {}" by (auto simp: extra_pairs_def)
  from foldl_update_new [OF d this] have "dict_of (?a @ ?e) = dict_of ?a @ ?e" by (simp add: dict_of_def)
  moreover have "filter (\<lambda>kv. fst kv \<notin> set (template_keys template)) (dict_of ?a) = []"
    using k by (auto simp: filter_empty_conv)
  moreover have "filter (\<lambda>kv. fst kv \<notin> set (template_keys template)) ?e = ?e" by (simp add: extra_pairs_def)
  ultimately show ?thesis
    by (simp add: extra_pairs_def [of _ "Some _"] on_disk_def [of "Some _"] read_existing_env_def parse_emitted [OF assms])
qed

section \<open>Properties\<close>

text \<open>C21: the inventory's file is read back. When the values hold no line break, and none that needs quotation
  marks holds a quotation mark or a backslash, reading the file \<open>emit_env\<close> writes gives, for every key
  of the template, what the file held before when a re-run keeps it and the given value otherwise, and
  every other key the file held with its value.\<close>

theorem emitted_env_reads_back:
  assumes "storable_all vals" and "storable_all (on_disk before)"
  shows "map_of (read_existing_env (emit_env template vals before keep)) k
    = (if k \<in> set (template_keys template) then Some (value_for (kept before keep) vals k) else map_of (on_disk before) k)"
  by (rule emitted_maps [OF assms])

definition demo_before :: string where
  "demo_before = ''A=kept'' @ nl @ ''OWN=mine'' @ nl"

theorem emitted_env_reads_back_witness:
  "storable_all [(''A'', ''x''), (''B'', ''two words'')]
   \<and> map_of (read_existing_env (emit_env (''# t'' @ nl @ ''A='' @ nl @ ''B='') [(''A'', ''x''), (''B'', ''two words'')] (Some demo_before) True)) ''B''
      = Some ''two words''"
proof -
  have "storable_all [(''A'', ''x''), (''B'', ''two words'')]" "storable_all (on_disk (Some demo_before))" by code_simp+
  moreover have "''B'' \<in> set (template_keys (''# t'' @ nl @ ''A='' @ nl @ ''B=''))" by code_simp
  moreover have "value_for (kept (Some demo_before) True) [(''A'', ''x''), (''B'', ''two words'')] ''B'' = ''two words''" by code_simp
  ultimately show ?thesis by (simp add: emitted_env_reads_back)
qed

text \<open>A re-run rewrites nothing. With the values of the file storable, writing the inventory's file a second
  time, whatever the second run's values, gives the same text as the first.\<close>

theorem rerun_rewrites_nothing:
  assumes "storable_all vals" and "storable_all (on_disk before)"
  shows "emit_env template vals' (Some (emit_env template vals before True)) True = emit_env template vals before True"
proof -
  let ?text = "emit_env template vals before True"
  have "value_for (kept (Some ?text) True) vals' k = value_for (kept before True) vals k" if "k \<in> set (template_keys template)" for k
    using that emitted_maps [OF assms, of "template" True k]
    by (simp add: value_for_def [of "read_existing_env ?text"] kept_def on_disk_def [of "Some ?text"])
  note v = this
  have "template_line (kept (Some ?text) True) vals' raw = template_line (kept before True) vals raw" if "raw \<in> set (splitlines template)" for raw
  proof (cases "template_key raw")
    case (Some k)
    with that have "k \<in> set (template_keys template)" by (force simp: template_keys_def)
    with Some v show ?thesis by (simp add: template_line_def)
  qed (simp add: template_line_def)
  then have "map (template_line (kept (Some ?text) True) vals') (splitlines template) = map (template_line (kept before True) vals) (splitlines template)"
    by (intro map_cong refl)
  then have "emit_env template vals' (Some ?text) True = join nl (map (template_line (kept before True) vals) (splitlines template)
     @ (if extra_pairs template before = [] then []
        else [[], ''# Not in the template, kept as found.''] @ map (\<lambda>kv. pair_line (fst kv) (snd kv)) (extra_pairs template before))) @ nl"
    by (subst emit_env_lines) (simp only: extra_stable [OF assms])
  also have "\<dots> = ?text" by (rule emit_env_lines [symmetric])
  finally show ?thesis .
qed

theorem rerun_rewrites_nothing_witness:
  "emit_env ''A='' [(''A'', ''other'')] (Some (emit_env ''A='' [(''A'', ''x'')] (Some demo_before) True)) True
   = emit_env ''A='' [(''A'', ''x'')] (Some demo_before) True"
proof -
  have "storable_all [(''A'', ''x'')]" "storable_all (on_disk (Some demo_before))" by code_simp+
  then show ?thesis by (rule rerun_rewrites_nothing)
qed

text \<open>A value with a quotation mark is not read back. The writer escapes it and the reader does not undo the
  escape, so each run that keeps the file's value writes a longer one.\<close>

theorem quoted_value_grows:
  "\<exists>first second. first = emit_env ''A='' [(''A'', [CHR ''a'', dquote])] None True
    \<and> second = emit_env ''A='' [(''A'', [CHR ''a'', dquote])] (Some first) True
    \<and> map_of (read_existing_env first) ''A'' = Some [CHR ''a'', CHR 0x5C, dquote]
    \<and> map_of (read_existing_env second) ''A'' = Some [CHR ''a'', CHR 0x5C, CHR 0x5C, CHR 0x5C, dquote]"
proof -
  let ?first = "emit_env ''A='' [(''A'', [CHR ''a'', dquote])] None True"
  have "map_of (read_existing_env ?first) ''A'' = Some [CHR ''a'', CHR 0x5C, dquote]"
    "map_of (read_existing_env (emit_env ''A='' [(''A'', [CHR ''a'', dquote])] (Some ?first) True)) ''A''
      = Some [CHR ''a'', CHR 0x5C, CHR 0x5C, CHR 0x5C, dquote]" by code_simp+
  then show ?thesis by blast
qed

text \<open>The pattern of an inventory's name ends at a final line break as well as at the end.\<close>

lemma name_with_line_break: "inventory_name_problem (''prod'' @ nl) False = []"
  by code_simp

end
