(* ===== verification/Seed_Run.thy ===== *)
theory Seed_Run
  imports Seed_Sound
begin

text \<open>
  A run of \<open>src/ansible/seed.py\<close>: the prompts, \<open>fill\<close>, the files it writes and \<open>main\<close>. The state is what
  is typed, what has been asked and the files; the YAML library, the home directory, \<open>ssh-keygen\<close> and
  which paths the system lets the run write are parameters. A host's name in the input file is a text.
\<close>

section \<open>Definitions\<close>

record seed_state =
  ss_in :: "string list"
  ss_asked :: "string list"
  ss_files :: "(string \<times> string) list"

record seed_world =
  sw_knobs :: seed_knobs
  sw_template :: string
  sw_secret_names :: "string list"
  sw_tty :: bool
  sw_yaml :: "string \<Rightarrow> py option"
  sw_dump :: "py \<Rightarrow> string"
  sw_expand :: "string \<Rightarrow> string"
  sw_keygen :: "string \<Rightarrow> int \<times> (string \<times> string) list"
  sw_denied :: "string \<Rightarrow> bool"
  sw_skel :: string
  sw_root :: string
  sw_temp :: string

datatype seed_exit = Died int | No_Input | Py_Raised filter_error | Yaml_Error | Os_Refused string

type_synonym 'a seed = "(seed_state, seed_exit, 'a) sem"

definition die :: "'a seed" where "die = raise (Died 1)"

definition liftP :: "'a flt \<Rightarrow> 'a seed" where
  "liftP r = (case r of Inl e \<Rightarrow> raise (Py_Raised e) | Inr x \<Rightarrow> ret x)"

definition read_file :: "string \<Rightarrow> string option seed" where
  "read_file path = getS (\<lambda>s. map_of (ss_files s) path)"

definition write_file :: "seed_world \<Rightarrow> string \<Rightarrow> string \<Rightarrow> unit seed" where
  "write_file w path text =
     (if sw_denied w path then raise (Os_Refused path)
      else modS (\<lambda>s. s\<lparr>ss_files := AList.update path text (ss_files s)\<rparr>))"

subsection \<open>Prompting\<close>

definition prompt_suffix :: "string \<Rightarrow> string list \<Rightarrow> bool \<Rightarrow> string" where
  "prompt_suffix dflt options secret =
     (let eff = effective_options dflt options in
      if secret then []
      else if eff \<noteq> [] then (if dflt \<noteq> [] then '' ('' @ join ''/'' eff @ '', default: '' @ dflt @ '')'' else '' ('' @ join ''/'' eff @ '')'')
      else if dflt \<noteq> [] then '' ['' @ dflt @ '']'' else [])"

text \<open>The loop of \<open>prompt\<close>: the answer, the lines left and how often it asked; no answer when the input ends.\<close>

fun prompt_loop :: "string list \<Rightarrow> string \<Rightarrow> bool \<Rightarrow> string list \<Rightarrow> string option \<times> string list \<times> nat" where
  "prompt_loop eff dflt allow_empty [] = (None, [], 1)"
| "prompt_loop eff dflt allow_empty (line # rest) =
     (let raw = strip line; v = (if raw \<noteq> [] then raw else dflt);
          again = (case prompt_loop eff dflt allow_empty rest of (r, left, n) \<Rightarrow> (r, left, Suc n)) in
      if v \<noteq> [] \<and> eff \<noteq> [] \<and> v \<notin> set eff then again
      else if is_placeholder v then again
      else if v \<noteq> [] \<or> allow_empty then (Some v, rest, 1)
      else again)"

definition prompt :: "string \<Rightarrow> string \<Rightarrow> bool \<Rightarrow> bool \<Rightarrow> string list \<Rightarrow> string seed" where
  "prompt label dflt secret allow_empty options s =
     (case prompt_loop (effective_options dflt options) dflt allow_empty (ss_in s) of (r, left, n) \<Rightarrow>
        (case r of None \<Rightarrow> Inl No_Input | Some v \<Rightarrow> Inr v,
         s\<lparr>ss_in := left, ss_asked := ss_asked s @ replicate n (label @ prompt_suffix dflt options secret @ '': '')\<rparr>))"

text \<open>One question with \<open>input\<close>.\<close>

definition ask_line :: "string \<Rightarrow> string seed" where
  "ask_line question s = (case ss_in s of
      [] \<Rightarrow> (Inl No_Input, s\<lparr>ss_asked := ss_asked s @ [question]\<rparr>)
    | l # ls \<Rightarrow> (Inr (lower (strip l)), s\<lparr>ss_in := ls, ss_asked := ss_asked s @ [question]\<rparr>))"

datatype offered = Taken string | Not_Given

text \<open>What \<open>fill\<close> takes from the values provided.\<close>

definition offer :: "dict \<Rightarrow> string \<Rightarrow> string list \<Rightarrow> bool \<Rightarrow> offered" where
  "offer provided key eff allow_empty = (case map_of provided key of
      None \<Rightarrow> Not_Given
    | Some (PBool b) \<Rightarrow> Taken (if b then ''true'' else ''false'')
    | Some raw \<Rightarrow>
        (let s = (if raw = PNone then [] else strip (py_str raw)) in
         if s \<noteq> [] \<and> \<not> is_placeholder s then (if eff \<noteq> [] \<and> s \<notin> set eff then Not_Given else Taken s)
         else if allow_empty \<and> s = [] then Taken [] else Not_Given))"

definition fill :: "seed_world \<Rightarrow> dict \<Rightarrow> string \<Rightarrow> string \<Rightarrow> string \<Rightarrow> bool \<Rightarrow> bool \<Rightarrow> string list \<Rightarrow> bool \<Rightarrow> string seed" where
  "fill w provided key dflt label secret allow_empty options ask =
     (case offer provided key (effective_options dflt options) allow_empty of
        Taken v \<Rightarrow> ret v
      | Not_Given \<Rightarrow>
          if \<not> ask \<or> \<not> sw_tty w then
            (if dflt \<noteq> [] \<and> \<not> is_placeholder dflt then ret dflt else if allow_empty then ret [] else die)
          else prompt (if label \<noteq> [] then label else key) dflt secret allow_empty options)"

fun collect_env_values :: "seed_world \<Rightarrow> (string \<times> string) list \<Rightarrow> dict \<Rightarrow> bool \<Rightarrow> (string \<times> string) list seed" where
  "collect_env_values w [] provided ask = ret []"
| "collect_env_values w ((key, dflt) # ks) provided ask =
     bindS (fill w provided key dflt key False (dflt = []) (options_for (sw_knobs w) key) ask) (\<lambda>v.
     bindS (collect_env_values w ks provided ask) (\<lambda>vs. ret ((key, v) # vs)))"

subsection \<open>The target and its input\<close>

text \<open>\<open>(values.get(k) or "").strip()\<close>.\<close>

definition stripped :: "dict \<Rightarrow> string \<Rightarrow> string flt" where
  "stripped d k = (let v = dget d k in
     if \<not> truthy v then Inr [] else case v of PStr s \<Rightarrow> Inr (strip s) | _ \<Rightarrow> Inl Attribute_Error)"

definition ipv4_endpoint :: "dict \<Rightarrow> string flt" where
  "ipv4_endpoint vals =
     bindR (stripped vals ''HOST_SSH_ADDRESS'') (\<lambda>a.
     bindR (if a \<noteq> [] then Inr a else bindR (stripped vals ''HOST_PUBLIC_IP'') (\<lambda>p.
        Inr (if p \<noteq> [] then p else ''HOST_PUBLIC_IP NOT SET''))) (\<lambda>ip.
     bindR (stripped vals ''HOST_SSH_PORT'') (\<lambda>port.
     bindR (stripped vals ''HOST_INITIAL_USER'') (\<lambda>user.
       Inr ((if user \<noteq> [] then user else ''root'') @ ''@'' @ ip @ '':'' @ (if port \<noteq> [] then port else ''22''))))))"

record seed_args =
  sa_input :: string
  sa_inventory :: string
  sa_inventory_path :: string
  sa_secrets_out :: string
  sa_no_confirm :: bool

definition empty_input :: seed_input where
  "empty_input = \<lparr>si_inventory = PNone, si_host = PDict [], si_env = PDict [], si_secrets = PDict []\<rparr>"

definition load_input :: "seed_world \<Rightarrow> string \<Rightarrow> seed_input seed" where
  "load_input w path =
     (if path = [] then ret empty_input
      else bindS (read_file path) (\<lambda>f. case f of
          None \<Rightarrow> die
        | Some text \<Rightarrow> (case sw_yaml w text of
            None \<Rightarrow> raise Yaml_Error
          | Some raw \<Rightarrow> liftP (split_install_dict (sw_secret_names w) (or_empty raw)))))"

definition path_name :: "string \<Rightarrow> string" where
  "path_name p = (case filter (\<lambda>c. c \<noteq> [] \<and> c \<noteq> ''.'') (split_char (CHR ''/'') p) of [] \<Rightarrow> [] | cs \<Rightarrow> last cs)"

definition seed_target :: "seed_world \<Rightarrow> seed_args \<Rightarrow> seed_input \<Rightarrow> (string \<times> string) seed" where
  "seed_target w a inp =
     (if sa_inventory_path a \<noteq> [] then
        (let dir = sw_expand w (sa_inventory_path a) in ret (path_name dir, dir))
      else bindS (if sa_inventory a \<noteq> [] then ret (PStr (sa_inventory a))
                  else if truthy (si_inventory inp) then ret (si_inventory inp)
                  else bindS (fill w [] ''inventory'' ''prod'' ''Inventory name (directory under inventory/)'' False False [] True) (\<lambda>v. ret (PStr v)))
        (\<lambda>inventory. case inventory of
            PStr name \<Rightarrow> ret (name, sw_root w @ ''/'' @ name)
          | _ \<Rightarrow> raise (Py_Raised Type_Error)))"

definition env_file :: "string \<Rightarrow> string" where "env_file inv_dir = inv_dir @ ''/.env''"
definition hosts_file :: "string \<Rightarrow> string" where "hosts_file inv_dir = inv_dir @ ''/hosts.yml''"

definition str_vals :: "(string \<times> string) list \<Rightarrow> dict" where
  "str_vals vs = map (\<lambda>kv. (fst kv, PStr (snd kv))) vs"

definition provided_values :: "seed_args \<Rightarrow> seed_input \<Rightarrow> string \<Rightarrow> py seed" where
  "provided_values a inp inv_dir =
     (if sa_input a \<noteq> [] then ret (si_env inp)
      else bindS (read_file (env_file inv_dir)) (\<lambda>f. case f of
          None \<Rightarrow> die
        | Some text \<Rightarrow> ret (PDict (str_vals (read_existing_env text)))))"

text \<open>A value used as a mapping with \<open>.get\<close>.\<close>

definition as_dict :: "py \<Rightarrow> dict seed" where
  "as_dict v = (case v of PDict d \<Rightarrow> ret d | _ \<Rightarrow> raise (Py_Raised Attribute_Error))"

definition resolve_admin_override :: "dict \<Rightarrow> (string \<times> string) list seed" where
  "resolve_admin_override secrets_provided =
     (let provided = strip (py_str (dget_def secrets_provided ADMIN_PASSWORD_KEY (PStr []))) in
      if provided = [] \<or> provided \<in> set PLACEHOLDER_VALUES then ret []
      else if length provided < ADMIN_PASSWORD_MIN_LEN then die
      else ret [(ADMIN_PASSWORD_KEY, provided)])"

subsection \<open>The files\<close>

definition emit_env_file :: "seed_world \<Rightarrow> (string \<times> string) list \<Rightarrow> string \<Rightarrow> unit seed" where
  "emit_env_file w vals path = bindS (read_file path) (\<lambda>before. write_file w path (emit_env (sw_template w) vals before True))"

definition emit_hosts_yml :: "seed_world \<Rightarrow> string \<Rightarrow> unit seed" where
  "emit_hosts_yml w path = bindS (read_file path) (\<lambda>before. case before of
      Some _ \<Rightarrow> ret () | None \<Rightarrow> write_file w path (sw_skel w))"

text \<open>\<open>d.setdefault(k, {})\<close> and an update of the mapping it gives.\<close>

definition in_child :: "string \<Rightarrow> (dict \<Rightarrow> dict flt) \<Rightarrow> dict \<Rightarrow> dict flt" where
  "in_child k f d = (case dget_def d k (PDict []) of
      PDict c \<Rightarrow> bindR (f c) (\<lambda>c'. Inr (dset k (PDict c') d))
    | _ \<Rightarrow> Inl Attribute_Error)"

definition name_host :: "string \<Rightarrow> dict \<Rightarrow> dict flt" where
  "name_host host_name vps = (case or_empty (dget vps ''hosts'') of
      PDict hosts \<Rightarrow> Inr (dset ''hosts'' (PDict [(host_name, or_empty (dget hosts host_name))]) vps)
    | _ \<Rightarrow> Inl Attribute_Error)"

definition hosts_entry :: "string \<Rightarrow> py \<Rightarrow> py flt" where
  "hosts_entry host_name raw = (case or_empty raw of
      PDict d \<Rightarrow> bindR (in_child ''all'' (in_child ''children'' (in_child ''vps'' (name_host host_name))) d) (\<lambda>d'. Inr (PDict d'))
    | _ \<Rightarrow> Inl Attribute_Error)"

definition emit_hosts_yml_entry :: "seed_world \<Rightarrow> string \<Rightarrow> string \<Rightarrow> unit seed" where
  "emit_hosts_yml_entry w path host_name =
     bindS (read_file path) (\<lambda>before.
     bindS (case before of None \<Rightarrow> ret (PDict []) | Some text \<Rightarrow> (case sw_yaml w text of None \<Rightarrow> raise Yaml_Error | Some v \<Rightarrow> ret v)) (\<lambda>data.
     bindS (liftP (hosts_entry host_name data)) (\<lambda>d. write_file w path (sw_dump w d))))"

definition ensure_ssh_key :: "seed_world \<Rightarrow> string \<Rightarrow> unit seed" where
  "ensure_ssh_key w privkey_path =
     (let priv = sw_expand w privkey_path in
      bindS (read_file priv) (\<lambda>a. bindS (read_file (priv @ ''.pub'')) (\<lambda>b.
        if a \<noteq> None \<and> b \<noteq> None then ret ()
        else bindS (ask_line ''Generate one now? [Y/n]: '') (\<lambda>answer.
          if answer \<notin> {[], ''y'', ''yes''} then die
          else (case sw_keygen w priv of (rc, fs) \<Rightarrow>
            thenS (modS (\<lambda>s. s\<lparr>ss_files := fs @ ss_files s\<rparr>)) (if rc \<noteq> 0 then raise (Died rc) else ret ()))))))"

definition write_inventory_files :: "seed_world \<Rightarrow> string \<Rightarrow> (string \<times> string) list \<Rightarrow> string option \<Rightarrow> unit seed" where
  "write_inventory_files w inv_dir env_values host_name =
     thenS (emit_env_file w env_values (env_file inv_dir))
       (case host_name of
          Some n \<Rightarrow> emit_hosts_yml_entry w (hosts_file inv_dir) n
        | None \<Rightarrow> emit_hosts_yml w (hosts_file inv_dir))"

definition write_secrets_out :: "seed_world \<Rightarrow> string \<Rightarrow> (string \<times> string) list \<Rightarrow> unit seed" where
  "write_secrets_out w path secrets =
     write_file w path (sw_dump w (PDict (str_vals
       (filter (\<lambda>kv. \<not> blank (snd kv) \<and> snd kv \<notin> set PLACEHOLDER_VALUES) secrets))))"

subsection \<open>The run\<close>

definition confirm :: "unit seed" where
  "confirm = bindS (ask_line ''Proceed with seed (write inventory files)? [y/N]: '') (\<lambda>answer.
     if answer \<notin> {''y'', ''yes''} then raise (Died 130) else ret ())"

definition host_name_of :: "seed_args \<Rightarrow> dict \<Rightarrow> string \<Rightarrow> string option" where
  "host_name_of a host inventory =
     (if sa_input a = [] then None
      else Some (if truthy (dget host ''name'') then py_str (dget host ''name'') else inventory @ ''1''))"

text \<open>Everything up to the first write: the values, the admin override and the checks.\<close>

definition seed_answers ::
  "seed_world \<Rightarrow> seed_args \<Rightarrow> seed_input \<Rightarrow> string \<Rightarrow> string \<Rightarrow> ((string \<times> string) list \<times> (string \<times> string) list \<times> string option) seed" where
  "seed_answers w a inp inventory inv_dir =
     bindS (provided_values a inp inv_dir) (\<lambda>v.
     bindS (read_file (hosts_file inv_dir)) (\<lambda>hosts.
     bindS (as_dict v) (\<lambda>provided.
     bindS (liftP (ipv4_endpoint provided)) (\<lambda>_.
     bindS (collect_env_values w (sk_env (sw_knobs w)) provided (hosts = None)) (\<lambda>env_values.
     bindS (as_dict (si_host inp)) (\<lambda>host.
     bindS (as_dict (si_secrets inp)) (\<lambda>secrets.
     bindS (resolve_admin_override secrets) (\<lambda>secret_values.
     if validate_install_structural (sw_knobs w) (PStr inventory) (str_vals env_values) \<noteq> 0 then die
     else thenS (if sa_no_confirm a \<or> hosts \<noteq> None then ret () else confirm)
       (ret (env_values, secret_values, host_name_of a host inventory))))))))))"

record seed_plan =
  sp_dir :: string
  sp_values :: "(string \<times> string) list"
  sp_secrets :: "(string \<times> string) list"
  sp_host :: "string option"
  sp_key :: string

definition seed_planned :: "seed_world \<Rightarrow> seed_args \<Rightarrow> seed_plan seed" where
  "seed_planned w a =
     bindS (load_input w (sa_input a)) (\<lambda>inp.
     bindS (liftP (not_install_inputs (sw_knobs w) (sw_secret_names w) inp)) (\<lambda>refused.
     if refused \<noteq> [] then die
     else bindS (seed_target w a inp) (\<lambda>(inventory, inv_dir).
       bindS (seed_answers w a inp inventory inv_dir) (\<lambda>(env_values, secret_values, host_name).
       case map_of env_values ''SSH_PRIVATE_KEY'' of
         None \<Rightarrow> raise (Py_Raised (Key_Error ''SSH_PRIVATE_KEY''))
       | Some k \<Rightarrow> ret \<lparr>sp_dir = inv_dir, sp_values = env_values, sp_secrets = secret_values, sp_host = host_name, sp_key = k\<rparr>))))"

definition secrets_path :: "seed_world \<Rightarrow> seed_args \<Rightarrow> string" where
  "secrets_path w a = (if sa_secrets_out a \<noteq> [] then sw_expand w (sa_secrets_out a) else sw_temp w)"

definition seed_main :: "seed_world \<Rightarrow> seed_args \<Rightarrow> int seed" where
  "seed_main w a = bindS (seed_planned w a) (\<lambda>p.
     thenS (ensure_ssh_key w (sp_key p))
    (thenS (write_inventory_files w (sp_dir p) (sp_values p) (sp_host p))
    (thenS (write_secrets_out w (secrets_path w a) (sp_secrets p)) (ret 0))))"

section \<open>What a step keeps and raises\<close>

lemma keeps_seed_ops [keeps_intros]:
  "keeps obs (die :: 'a seed)" "keeps obs (liftP r :: 'b seed)" "keeps obs (read_file p)" "keeps obs (as_dict v)"
  by (auto simp: die_def liftP_def read_file_def as_dict_def keeps_raise keeps_ret keeps_getS split: sum.split py.split)

lemma keeps_prompt [keeps_intros]: "keeps ss_files (prompt l d sec ae opts)" "keeps ss_files (ask_line q)"
  by (auto simp: keeps_def prompt_def ask_line_def split: prod.split list.split)

lemma keeps_case_option [keeps_intros]:
  "keeps obs m \<Longrightarrow> (\<And>x. keeps obs (f x)) \<Longrightarrow> keeps obs (case v of None \<Rightarrow> m | Some x \<Rightarrow> f x)"
  by (cases v) auto

lemma keeps_case_prod [keeps_intros]: "(\<And>x y. keeps obs (f x y)) \<Longrightarrow> keeps obs (case p of (x, y) \<Rightarrow> f x y)"
  by (cases p) auto

lemma keeps_fill [keeps_intros]: "keeps ss_files (fill w provided key dflt label sec ae opts ask)"
  unfolding fill_def by (auto intro!: keeps_intros split: offered.split)

lemma keeps_collect [keeps_intros]: "keeps ss_files (collect_env_values w ks provided ask)"
  by (induction w ks provided ask rule: collect_env_values.induct) (auto intro!: keeps_intros)

lemma keeps_load_input [keeps_intros]: "keeps ss_files (load_input w path)"
  unfolding load_input_def by (intro keeps_intros)

lemma keeps_target [keeps_intros]: "keeps ss_files (seed_target w a inp)"
  unfolding seed_target_def Let_def by (intro keeps_intros) (auto intro!: keeps_intros split: py.split)

lemma keeps_answers [keeps_intros]: "keeps ss_files (seed_answers w a inp inventory inv_dir)"
  unfolding seed_answers_def provided_values_def resolve_admin_override_def confirm_def Let_def by (intro keeps_intros)

lemma keeps_planned: "keeps ss_files (seed_planned w a)"
  unfolding seed_planned_def by (intro keeps_intros)

text \<open>A run that ends with \<open>die\<close> or at the end of its input.\<close>

definition refusal :: "seed_exit \<Rightarrow> bool" where
  "refusal e = (case e of Died _ \<Rightarrow> True | No_Input \<Rightarrow> True | _ \<Rightarrow> False)"

lemma raises_case_option [raises_intros]:
  "raises_only P m \<Longrightarrow> (\<And>x. raises_only P (f x)) \<Longrightarrow> raises_only P (case v of None \<Rightarrow> m | Some x \<Rightarrow> f x)"
  by (cases v) auto

lemma raises_writes [raises_intros]:
  "raises_only (\<lambda>e. \<not> refusal e) (write_file w p t)" "raises_only (\<lambda>e. \<not> refusal e) (read_file p)"
  "raises_only (\<lambda>e. \<not> refusal e) (liftP r :: 'a seed)"
  by (auto simp: write_file_def read_file_def liftP_def refusal_def intro!: raises_intros split: sum.split)

lemma raises_write_inventory: "raises_only (\<lambda>e. \<not> refusal e) (write_inventory_files w d vs h)"
  unfolding write_inventory_files_def emit_env_file_def emit_hosts_yml_def emit_hosts_yml_entry_def
  by (intro raises_intros) (simp add: refusal_def)

lemma raises_write_secrets: "raises_only (\<lambda>e. \<not> refusal e) (write_secrets_out w p vs)"
  unfolding write_secrets_out_def by (intro raises_intros)

definition keygen_files :: "seed_world \<Rightarrow> string \<Rightarrow> string set" where
  "keygen_files w key = fst ` set (snd (sw_keygen w (sw_expand w key)))"

lemma ensure_ssh_key_files:
  "map_of (ss_files (snd (ensure_ssh_key w key s))) p = map_of (ss_files s) p \<or> p \<in> keygen_files w key"
proof -
  have "map_of (fs @ gs) p = map_of gs p \<or> p \<in> fst ` set fs" for fs gs :: "(string \<times> string) list"
    by (auto simp: map_add_def map_of_eq_None_iff split: option.split dest: map_of_SomeD) (metis fst_conv imageI map_of_SomeD)
  then show ?thesis
    unfolding ensure_ssh_key_def keygen_files_def Let_def
    by (auto simp: sem_defs read_file_def ask_line_def die_def split: list.split prod.split)
qed

section \<open>Values\<close>

lemma placeholder_simps [simp]: "\<not> is_placeholder []" "\<not> is_placeholder ''true''" "\<not> is_placeholder ''false''"
  by code_simp+

lemma prompt_loop_ok: "prompt_loop eff d ae ls = (Some v, left, n) \<Longrightarrow> \<not> is_placeholder v \<and> (v = [] \<longrightarrow> ae) \<and> (v \<noteq> [] \<and> eff \<noteq> [] \<longrightarrow> v \<in> set eff)"
proof (induction eff d ae ls arbitrary: v left n rule: prompt_loop.induct)
  case (2 eff d ae line rest)
  obtain x where x: "(if strip line \<noteq> [] then strip line else d) = x" by blast
  obtain r l m where again: "prompt_loop eff d ae rest = (r, l, m)" by (cases "prompt_loop eff d ae rest") auto
  have eq: "prompt_loop eff d ae (line # rest) =
     (if x \<noteq> [] \<and> eff \<noteq> [] \<and> x \<notin> set eff then (r, l, Suc m) else if is_placeholder x then (r, l, Suc m)
      else if x \<noteq> [] \<or> ae then (Some x, rest, 1) else (r, l, Suc m))"
    by (simp only: prompt_loop.simps Let_def x again prod.case)
  show ?case
  proof (cases "x \<noteq> [] \<and> eff \<noteq> [] \<and> x \<notin> set eff \<or> is_placeholder x \<or> \<not> (x \<noteq> [] \<or> ae)")
    case True
    then have "prompt_loop eff d ae rest = (Some v, l, m)" using "2.prems" again unfolding eq by (auto split: if_splits)
    then show ?thesis using True "2.IH" [OF refl x [symmetric]] "2.prems" again unfolding eq by (auto split: if_splits)
  next
    case False
    then have "v = x" using "2.prems" unfolding eq by (auto split: if_splits)
    with False show ?thesis by blast
  qed
qed simp

lemma fill_ok:
  assumes "fill w provided key dflt label sec ae opts ask s = (Inr v, s')"
  shows "\<not> is_placeholder v \<and> (v = [] \<longrightarrow> ae)"
proof (cases "offer provided key (effective_options dflt opts) ae")
  case (Taken x)
  then have "v = x" using assms by (simp add: fill_def ret_def)
  with Taken show ?thesis by (auto simp: offer_def Let_def split: option.splits py.splits if_splits)
next
  case Not_Given
  then show ?thesis using assms
    by (auto simp: fill_def die_def prompt_def sem_defs split: if_splits prod.splits option.splits dest!: prompt_loop_ok)
qed

lemma collect_ok:
  assumes "collect_env_values w ks provided ask s = (Inr vs, s')"
  shows "map fst vs = map fst ks \<and> (\<forall>v \<in> snd ` set vs. \<not> is_placeholder v)"
  using assms
proof (induction w ks provided ask arbitrary: s vs rule: collect_env_values.induct)
  case (2 w key dflt ks provided ask)
  then obtain v s1 vs' where "fill w provided key dflt key False (dflt = []) (options_for (sw_knobs w) key) ask s = (Inr v, s1)"
    "collect_env_values w ks provided ask s1 = (Inr vs', s')" "vs = (key, v) # vs'"
    by (auto simp: bindS_Inr_iff ret_Inr_iff)
  with 2 fill_ok show ?case by (metis (no_types, lifting) fst_conv image_insert insert_iff list.set(2) list.simps(9) snd_conv)
qed (simp add: ret_def)

end
