(* ===== verification/Seed_Props.thy ===== *)
theory Seed_Props
  imports Seed_Run Seed_Sound
begin

text \<open>
  What a run of seed promises: a refusal leaves the files alone, a run that succeeds has checked every
  value it adds to the inventory and keeps no secret there, and a re-run asks nothing.
\<close>

section \<open>The plan of a run\<close>

lemma keeps_files: "keeps ss_files m \<Longrightarrow> m s = (r, s') \<Longrightarrow> ss_files s' = ss_files s"
  unfolding keeps_def by (metis snd_conv)

lemma liftP_Inr: "liftP r s = (Inr x, s') \<longleftrightarrow> r = Inr x \<and> s' = s"
  by (auto simp: liftP_def sem_defs split: sum.splits)

lemma as_dict_Inr: "as_dict v s = (Inr d, s') \<longleftrightarrow> v = PDict d \<and> s' = s"
  by (auto simp: as_dict_def sem_defs split: py.splits)

lemma die_not_Inr: "die s \<noteq> (Inr x, s')" by (simp add: die_def raise_def)

definition admin_only :: "(string \<times> string) list \<Rightarrow> bool" where
  "admin_only sv = (sv = [] \<or> (\<exists>p. sv = [(ADMIN_PASSWORD_KEY, p)] \<and> ADMIN_PASSWORD_MIN_LEN \<le> length p \<and> p \<notin> set PLACEHOLDER_VALUES))"

definition checked_values :: "seed_knobs \<Rightarrow> (string \<times> string) list \<Rightarrow> bool" where
  "checked_values kn vs = (map fst vs = map fst (sk_env kn) \<and> (\<forall>v \<in> snd ` set vs. \<not> is_placeholder v)
     \<and> (\<forall>kd \<in> set (sk_env kn). \<not> key_problem kn (str_vals vs) kd))"

lemma resolve_admin: "resolve_admin_override d s = (Inr sv, s') \<Longrightarrow> admin_only sv"
  by (auto simp: resolve_admin_override_def admin_only_def die_def sem_defs Let_def split: if_splits)

lemma no_structural_problem:
  "validate_install_structural kn inventory env = 0 \<longleftrightarrow> truthy inventory \<and> (\<forall>kd \<in> set (sk_env kn). \<not> key_problem kn env kd)"
  by (auto simp: validate_install_structural_def filter_empty_conv)

lemma seed_answers_checked:
  assumes "seed_answers w a inp inventory dir s = (Inr (vs, sv, hn), s')"
  shows "checked_values (sw_knobs w) vs \<and> admin_only sv"
proof -
  from assms obtain provided ask s1 s2 secrets s3 s4 where
    c: "collect_env_values w (sk_env (sw_knobs w)) provided ask s1 = (Inr vs, s2)"
    and r: "resolve_admin_override secrets s3 = (Inr sv, s4)"
    and v: "validate_install_structural (sw_knobs w) (PStr inventory) (str_vals vs) = 0"
    unfolding seed_answers_def bindS_Inr_iff by (auto simp: die_not_Inr thenS_Inr_iff ret_Inr_iff split: if_splits)
  from collect_ok [OF c] resolve_admin [OF r] v show ?thesis
    by (simp add: checked_values_def no_structural_problem)
qed

lemma planned_checked:
  assumes "seed_planned w a s = (Inr p, s')"
  shows "checked_values (sw_knobs w) (sp_values p) \<and> admin_only (sp_secrets p)"
proof -
  from assms obtain inp inventory dir s1 vs sv hn s2 where
    "seed_answers w a inp inventory dir s1 = (Inr (vs, sv, hn), s2)" "sp_values p = vs" "sp_secrets p = sv"
    unfolding seed_planned_def bindS_Inr_iff
    by (auto simp: die_not_Inr bindS_Inr_iff ret_Inr_iff raise_not_Inr split: if_splits option.splits)
  with seed_answers_checked show ?thesis by blast
qed

section \<open>The files of a run\<close>

definition untouched :: "string set \<Rightarrow> seed_state \<Rightarrow> seed_state \<Rightarrow> bool" where
  "untouched ps s s' = (\<forall>q. q \<notin> ps \<longrightarrow> map_of (ss_files s') q = map_of (ss_files s) q)"

lemma untouched_trans: "untouched ps s t \<Longrightarrow> untouched qs t u \<Longrightarrow> untouched (ps \<union> qs) s u"
  by (auto simp: untouched_def)

lemma write_file_step:
  "write_file w q t s = (r, s') \<Longrightarrow> untouched {q} s s' \<and> (\<forall>x. r = Inr x \<longrightarrow> map_of (ss_files s') q = Some t)"
  by (auto simp: write_file_def untouched_def sem_defs update_conv' split: if_splits)

lemma read_file_Inr: "read_file q s = (Inr f, s') \<longleftrightarrow> f = map_of (ss_files s) q \<and> s' = s"
  by (auto simp: read_file_def getS_def)

lemma ensure_untouched: "ensure_ssh_key w key s = (r, s') \<Longrightarrow> untouched (keygen_files w key) s s'"
  unfolding untouched_def using ensure_ssh_key_files [of w key s] by (metis snd_conv)

lemma inventory_written:
  assumes "write_inventory_files w dir vs hn s = (Inr x, s')"
  shows "untouched {env_file dir, hosts_file dir} s s'"
    and "map_of (ss_files s') (env_file dir) = Some (emit_env (sw_template w) vs (map_of (ss_files s) (env_file dir)) True)"
proof -
  from assms obtain s1 where e: "emit_env_file w vs (env_file dir) s = (Inr (), s1)"
    and h: "(case hn of Some n \<Rightarrow> emit_hosts_yml_entry w (hosts_file dir) n | None \<Rightarrow> emit_hosts_yml w (hosts_file dir)) s1 = (Inr x, s')"
    unfolding write_inventory_files_def thenS_Inr_iff by auto
  from e have env: "untouched {env_file dir} s s1"
      "map_of (ss_files s1) (env_file dir) = Some (emit_env (sw_template w) vs (map_of (ss_files s) (env_file dir)) True)"
    unfolding emit_env_file_def bindS_Inr_iff read_file_Inr by (auto dest: write_file_step)
  from h have hosts: "untouched {hosts_file dir} s1 s'"
    by (cases hn)
      (auto simp: emit_hosts_yml_def emit_hosts_yml_entry_def bindS_Inr_iff read_file_Inr liftP_Inr ret_Inr_iff raise_not_Inr untouched_def
        split: option.splits dest!: write_file_step)
  show "untouched {env_file dir, hosts_file dir} s s'" using untouched_trans [OF env(1) hosts] by (simp add: insert_commute)
  have "env_file dir \<noteq> hosts_file dir" by (simp add: env_file_def hosts_file_def)
  then show "map_of (ss_files s') (env_file dir) = Some (emit_env (sw_template w) vs (map_of (ss_files s) (env_file dir)) True)"
    using env(2) hosts by (simp add: untouched_def)
qed

text \<open>What the environment file holds after a run, given what it held: every key of the template, with its
  old value if it had one and the checked value otherwise, and the other keys it had. So a
  placeholder in it was there before.\<close>

definition env_holds :: "string \<Rightarrow> (string \<times> string) list \<Rightarrow> string option \<Rightarrow> (string \<times> string) list \<Rightarrow> bool" where
  "env_holds template vs before held = (\<forall>k.
     map_of held k = (case map_of (on_disk before) k of Some v \<Rightarrow> Some v
       | None \<Rightarrow> if k \<notin> set (template_keys template) then None
           else Some (case map_of vs k of Some v \<Rightarrow> v | None \<Rightarrow> []))
     \<and> (\<forall>v. map_of held k = Some v \<and> is_placeholder v \<longrightarrow> map_of (on_disk before) k = Some v))"

lemma emitted_holds:
  assumes "storable_all vs" and "storable_all (on_disk before)" and "checked_values kn vs"
  shows "env_holds template vs before (read_existing_env (emit_env template vs before True))"
proof -
  have "\<not> is_placeholder v" if "map_of vs k = Some v" for k v
    using assms(3) map_of_SomeD [OF that] by (force simp: checked_values_def)
  then show ?thesis
    by (auto simp: env_holds_def emitted_maps [OF assms(1,2)] kept_def value_for_def split: option.split)
qed

section \<open>A machine\<close>

definition demo_seed_knobs :: seed_knobs where
  "demo_seed_knobs = \<lparr>sk_env = [(''SSH_PRIVATE_KEY'', ''~/.ssh/id''), (''ADMIN_EMAIL'', ''you@example.com''), (''HOST_SSH_PORT'', ''22'')],
     sk_options = [], sk_exampled = [], sk_declared = [''SSH_PRIVATE_KEY'', ''ADMIN_EMAIL'', ''HOST_SSH_PORT'', ''DOMAIN'']\<rparr>"

definition demo_seed_template :: string where
  "demo_seed_template = ''SSH_PRIVATE_KEY=~/.ssh/id'' @ nl @ ''ADMIN_EMAIL=you@example.com'' @ nl @ ''HOST_SSH_PORT=22'' @ nl"

text \<open>A machine whose YAML reader gives one document for every input file.\<close>

definition demo_machine :: "py \<Rightarrow> seed_world" where
  "demo_machine doc = \<lparr>sw_knobs = demo_seed_knobs, sw_template = demo_seed_template, sw_secret_names = [''admin_password''], sw_tty = False,
     sw_yaml = (\<lambda>_. Some doc), sw_dump = py_repr, sw_expand = (\<lambda>p. p), sw_keygen = (\<lambda>_. (0, [])), sw_denied = (\<lambda>_. False),
     sw_skel = ''all:'', sw_root = ''/inv'', sw_temp = ''/tmp/s''\<rparr>"

definition demo_run :: "string \<Rightarrow> seed_args" where
  "demo_run input = \<lparr>sa_input = input, sa_inventory = [], sa_inventory_path = ''/inv/prod'', sa_secrets_out = [], sa_no_confirm = True\<rparr>"

definition demo_files :: "string \<Rightarrow> (string \<times> string) list" where
  "demo_files email = [(''/inv/prod/.env'', ''ADMIN_EMAIL='' @ email @ nl), (''/inv/prod/hosts.yml'', ''all:''), (''~/.ssh/id'', ''k''),
     (''~/.ssh/id.pub'', ''p''), (''in.yml'', ''i'')]"

definition demo_seed_state :: "string \<Rightarrow> seed_state" where
  "demo_seed_state email = \<lparr>ss_in = [], ss_asked = [], ss_files = demo_files email\<rparr>"

section \<open>Properties\<close>

text \<open>C18: a run that refuses, for what the input or an answer says or because the input ended, leaves every file
  as it was, apart from the key pair that \<open>ssh-keygen\<close> may have written.\<close>

theorem refused_seed_writes_nothing:
  assumes "seed_main w a s = (Inl e, s')" and "refusal e" and "\<forall>key. q \<notin> keygen_files w key"
  shows "map_of (ss_files s') q = map_of (ss_files s) q"
proof (cases "seed_planned w a s")
  case (Pair r s1)
  have k: "ss_files s1 = ss_files s" using keeps_files [OF keeps_planned Pair] .
  show ?thesis
  proof (cases r)
    case (Inl e1)
    then show ?thesis using assms(1) Pair k by (simp add: seed_main_def bindS_def)
  next
    case (Inr p)
    let ?rest = "thenS (write_inventory_files w (sp_dir p) (sp_values p) (sp_host p)) (thenS (write_secrets_out w (secrets_path w a) (sp_secrets p)) (ret (0 :: int)))"
    have "thenS (ensure_ssh_key w (sp_key p)) ?rest s1 = (Inl e, s')" using assms(1) Pair Inr by (simp add: seed_main_def bindS_def)
    moreover have "raises_only (\<lambda>e. \<not> refusal e) ?rest" by (intro raises_intros raises_write_inventory raises_write_secrets)
    ultimately have "ensure_ssh_key w (sp_key p) s1 = (Inl e, s')"
      unfolding thenS_Inl_iff [of "ensure_ssh_key w (sp_key p)"] raises_only_def using assms(2) by blast
    from ensure_untouched [OF this] assms(3) k show ?thesis by (simp add: untouched_def)
  qed
qed

theorem refused_seed_writes_nothing_witness:
  "\<exists>s'. seed_main (demo_machine PNone) (demo_run []) (demo_seed_state ''REPLACE'') = (Inl (Died 1), s')
    \<and> map_of (ss_files s') ''/inv/prod/.env'' = map_of (demo_files ''REPLACE'') ''/inv/prod/.env''"
proof -
  have "fst (seed_main (demo_machine PNone) (demo_run []) (demo_seed_state ''REPLACE'')) = Inl (Died 1)" by code_simp
  then obtain s' where s': "seed_main (demo_machine PNone) (demo_run []) (demo_seed_state ''REPLACE'') = (Inl (Died 1), s')"
    by (metis prod.collapse)
  have "refusal (Died 1)" "\<forall>key. ''/inv/prod/.env'' \<notin> keygen_files (demo_machine PNone) key"
    by (simp_all add: refusal_def keygen_files_def demo_machine_def)
  from refused_seed_writes_nothing [OF s' this] s' show ?thesis by (auto simp: demo_seed_state_def)
qed

text \<open>C19: what a run that succeeds has written. The values of its plan, one for each key of the registry, have
  passed the checks, and none is a placeholder. The only files it changed are the inventory's two,
  the key pair and the transient file for secrets, and that one holds at most an admin password of
  sixteen characters or more. The inventory's environment file, unless the key pair or the
  transient file was put in its place, is the template filled in from what it held and the plan:
  read back, and as long as the values can be stored (C21), it holds for a key the value it had
  before, unchecked, and for each other key of the template the checked value of the plan, so a placeholder in
  it was there before the run.\<close>

theorem seed_success_checked:
  assumes "seed_main w a s = (Inr r, s')"
  shows "\<exists>p s1. seed_planned w a s = (Inr p, s1) \<and> r = 0 \<and> checked_values (sw_knobs w) (sp_values p)
    \<and> admin_only (sp_secrets p)
    \<and> map_of (ss_files s') (secrets_path w a) = Some (sw_dump w (PDict (str_vals (filter (\<lambda>kv. \<not> blank (snd kv)) (sp_secrets p)))))
    \<and> untouched (keygen_files w (sp_key p) \<union> {env_file (sp_dir p), hosts_file (sp_dir p), secrets_path w a}) s s'
    \<and> (env_file (sp_dir p) \<notin> keygen_files w (sp_key p) \<and> env_file (sp_dir p) \<noteq> secrets_path w a \<longrightarrow>
        (\<exists>t before. before = map_of (ss_files s) (env_file (sp_dir p)) \<and> map_of (ss_files s') (env_file (sp_dir p)) = Some t
          \<and> t = emit_env (sw_template w) (sp_values p) before True
          \<and> (storable_all (sp_values p) \<and> storable_all (on_disk before) \<longrightarrow>
              env_holds (sw_template w) (sp_values p) before (read_existing_env t))))"
proof -
  from assms obtain p s1 s2 s3 where
    p: "seed_planned w a s = (Inr p, s1)" and e: "ensure_ssh_key w (sp_key p) s1 = (Inr (), s2)"
    and i: "write_inventory_files w (sp_dir p) (sp_values p) (sp_host p) s2 = (Inr (), s3)"
    and o1: "write_secrets_out w (secrets_path w a) (sp_secrets p) s3 = (Inr (), s')" and r: "r = 0"
    unfolding seed_main_def bindS_Inr_iff thenS_Inr_iff ret_Inr_iff by auto
  let ?env = "env_file (sp_dir p)"
  have k: "ss_files s1 = ss_files s" using keeps_files [OF keeps_planned p] .
  note checked = planned_checked [OF p]
  have "filter (\<lambda>kv. \<not> blank (snd kv) \<and> snd kv \<notin> set PLACEHOLDER_VALUES) (sp_secrets p) = filter (\<lambda>kv. \<not> blank (snd kv)) (sp_secrets p)"
    using checked by (auto simp: admin_only_def intro!: filter_cong)
  then have o2: "write_file w (secrets_path w a) (sw_dump w (PDict (str_vals (filter (\<lambda>kv. \<not> blank (snd kv)) (sp_secrets p))))) s3 = (Inr (), s')"
    using o1 by (simp add: write_secrets_out_def)
  have "untouched (keygen_files w (sp_key p) \<union> {?env, hosts_file (sp_dir p)} \<union> {secrets_path w a}) s1 s'"
    using untouched_trans [OF untouched_trans [OF ensure_untouched [OF e] inventory_written(1) [OF i]]] write_file_step [OF o2] by blast
  then have u: "untouched (keygen_files w (sp_key p) \<union> {?env, hosts_file (sp_dir p), secrets_path w a}) s s'"
    using k by (simp add: untouched_def)
  have env: "map_of (ss_files s') ?env = Some (emit_env (sw_template w) (sp_values p) (map_of (ss_files s) ?env) True)"
    if "?env \<notin> keygen_files w (sp_key p)" "?env \<noteq> secrets_path w a"
    using inventory_written(2) [OF i] ensure_untouched [OF e] write_file_step [OF o2] that k by (simp add: untouched_def)
  from p r checked write_file_step [OF o2] u env emitted_holds show ?thesis by (intro exI [of _ p] exI [of _ s1]) auto
qed

definition demo_success :: "seed_exit + int \<times> string" where
  "demo_success = (case fst (seed_planned (demo_machine (PDict [(''ADMIN_EMAIL'', PStr ''a@b.fr'')])) (demo_run ''in.yml'') (demo_seed_state ''a@b.fr'')) of
     Inl e \<Rightarrow> Inl e | Inr p \<Rightarrow> Inr (if storable_all (sp_values p) then 0 else 1, sp_dir p))"

theorem seed_success_checked_witness:
  "\<exists>s' (p :: seed_plan) t. seed_main (demo_machine (PDict [(''ADMIN_EMAIL'', PStr ''a@b.fr'')])) (demo_run ''in.yml'') (demo_seed_state ''a@b.fr'') = (Inr 0, s')
    \<and> checked_values demo_seed_knobs (sp_values p) \<and> admin_only (sp_secrets p)
    \<and> map_of (ss_files s') ''/inv/prod/.env'' = Some t
    \<and> env_holds demo_seed_template (sp_values p) (Some (''ADMIN_EMAIL=a@b.fr'' @ nl)) (read_existing_env t)"
proof -
  let ?w = "demo_machine (PDict [(''ADMIN_EMAIL'', PStr ''a@b.fr'')])" and ?s = "demo_seed_state ''a@b.fr''"
  have "fst (seed_main ?w (demo_run ''in.yml'') ?s) = Inr 0" by code_simp
  then obtain s' where s': "seed_main ?w (demo_run ''in.yml'') ?s = (Inr 0, s')" by (metis prod.collapse)
  have kn: "sw_knobs ?w = demo_seed_knobs" "sw_template ?w = demo_seed_template" "keygen_files ?w k = {}"
    "secrets_path ?w (demo_run ''in.yml'') = ''/tmp/s''" for k
    by (simp_all add: demo_machine_def keygen_files_def secrets_path_def demo_run_def)
  from seed_success_checked [OF s', unfolded kn] obtain p s1 where p: "seed_planned ?w (demo_run ''in.yml'') ?s = (Inr p, s1)"
    and c: "checked_values demo_seed_knobs (sp_values p)" "admin_only (sp_secrets p)"
    and h: "env_file (sp_dir p) \<noteq> ''/tmp/s'' \<Longrightarrow> \<exists>t before. before = map_of (ss_files ?s) (env_file (sp_dir p)) \<and> map_of (ss_files s') (env_file (sp_dir p)) = Some t
      \<and> (storable_all (sp_values p) \<and> storable_all (on_disk before) \<longrightarrow> env_holds demo_seed_template (sp_values p) before (read_existing_env t))"
    by blast
  have "demo_success = Inr (0, ''/inv/prod'')" by code_simp
  then have d: "sp_dir p = ''/inv/prod''" "storable_all (sp_values p)" using p by (auto simp: demo_success_def split: if_splits)
  have "map_of (ss_files ?s) ''/inv/prod/.env'' = Some (''ADMIN_EMAIL=a@b.fr'' @ nl)" "storable_all (on_disk (Some (''ADMIN_EMAIL=a@b.fr'' @ nl)))"
    "env_file ''/inv/prod'' = ''/inv/prod/.env''" by code_simp+
  with h d s' c show ?thesis by auto
qed

text \<open>The checks look at the input, the file keeps what it had. With an input file and an inventory whose
  environment file still holds a placeholder, the run checks the input's value, succeeds, and leaves
  the placeholder in the file.\<close>

theorem kept_placeholder_unchecked:
  "\<exists>s'. seed_main (demo_machine (PDict [(''ADMIN_EMAIL'', PStr ''a@b.fr'')])) (demo_run ''in.yml'') (demo_seed_state ''REPLACE'') = (Inr 0, s')
    \<and> map_option (\<lambda>t. map_of (read_existing_env t) ''ADMIN_EMAIL'') (map_of (ss_files s') ''/inv/prod/.env'') = Some (Some ''REPLACE'')"
proof -
  let ?r = "seed_main (demo_machine (PDict [(''ADMIN_EMAIL'', PStr ''a@b.fr'')])) (demo_run ''in.yml'') (demo_seed_state ''REPLACE'')"
  have "fst ?r = Inr 0" by code_simp
  moreover have "map_option (\<lambda>t. map_of (read_existing_env t) ''ADMIN_EMAIL'') (map_of (ss_files (snd ?r)) ''/inv/prod/.env'') = Some (Some ''REPLACE'')"
    by code_simp
  ultimately show ?thesis by (metis prod.collapse)
qed

text \<open>A port written as a number in the input file ends the run with an exception, and an admin password left
  blank is taken for the four characters of \<open>None\<close>.\<close>

lemma numeric_port_raises:
  "fst (seed_main (demo_machine (PDict [(''ADMIN_EMAIL'', PStr ''a@b.fr''), (''HOST_SSH_PORT'', PInt 2222)])) (demo_run ''in.yml'') (demo_seed_state ''a@b.fr''))
   = Inl (Py_Raised Attribute_Error)"
  by code_simp

lemma blank_admin_password_dies:
  "fst (seed_main (demo_machine (PDict [(''ADMIN_EMAIL'', PStr ''a@b.fr''), (''admin_password'', PNone)])) (demo_run ''in.yml'') (demo_seed_state ''a@b.fr''))
   = Inl (Died 1)"
  by code_simp

section \<open>A re-run\<close>

text \<open>The value a key gets when nobody is asked.\<close>

definition unasked :: "seed_knobs \<Rightarrow> dict \<Rightarrow> string \<times> string \<Rightarrow> string option" where
  "unasked kn provided kd = (case offer provided (fst kd) (effective_options (snd kd) (options_for kn (fst kd))) (snd kd = []) of
      Taken v \<Rightarrow> Some v
    | Not_Given \<Rightarrow> if snd kd \<noteq> [] \<and> \<not> is_placeholder (snd kd) then Some (snd kd) else if snd kd = [] then Some [] else None)"

lemma fill_unasked:
  "unasked (sw_knobs w) provided (key, dflt) = Some v \<Longrightarrow>
   fill w provided key dflt l sec (dflt = []) (options_for (sw_knobs w) key) False s = (Inr v, s)"
  by (auto simp: unasked_def fill_def ret_def split: offered.splits if_splits)

lemma collect_unasked:
  assumes "\<forall>kd \<in> set ks. unasked (sw_knobs w) provided kd = Some (f kd)"
  shows "collect_env_values w ks provided False s = (Inr (map (\<lambda>kd. (fst kd, f kd)) ks), s)"
  using assms
proof (induction ks)
  case (Cons kd ks)
  obtain k d where "kd = (k, d)" by fastforce
  with Cons fill_unasked [of w provided k d "f kd" k False s] show ?case by (simp add: bindS_def ret_def)
qed (simp add: ret_def)

lemma str_vals_dget: "distinct (map fst ks) \<Longrightarrow> kd \<in> set ks \<Longrightarrow> map_of (str_vals (map (\<lambda>kd. (fst kd, f kd)) ks)) (fst kd) = Some (PStr (f kd))"
  by (induction ks) (auto simp: str_vals_def)

lemma stripped_str: "\<exists>t. stripped (str_vals vs) k = Inr t"
proof (cases "map_of (str_vals vs) k")
  case (Some v)
  then obtain t where "v = PStr t" by (auto simp: str_vals_def dest!: map_of_SomeD)
  with Some show ?thesis by (simp add: stripped_def dget_def)
qed (simp add: stripped_def dget_def)

lemma ipv4_endpoint_str: "\<exists>t. ipv4_endpoint (str_vals vs) = Inr t"
proof -
  obtain a b c d where "stripped (str_vals vs) ''HOST_SSH_ADDRESS'' = Inr a" "stripped (str_vals vs) ''HOST_PUBLIC_IP'' = Inr b"
    "stripped (str_vals vs) ''HOST_SSH_PORT'' = Inr c" "stripped (str_vals vs) ''HOST_INITIAL_USER'' = Inr d"
    using stripped_str by meson
  then show ?thesis by (simp add: ipv4_endpoint_def)
qed

text \<open>An inventory that was installed: its two files, a value for every key that passes the checks, and the key pair.\<close>

definition installed_values :: "seed_knobs \<Rightarrow> string \<Rightarrow> (string \<times> string) list" where
  "installed_values kn text = map (\<lambda>kd. (fst kd, the (unasked kn (str_vals (read_existing_env text)) kd))) (sk_env kn)"

definition installed :: "seed_world \<Rightarrow> string \<Rightarrow> string \<Rightarrow> seed_state \<Rightarrow> bool" where
  "installed w dir text s =
     (map_of (ss_files s) (env_file dir) = Some text \<and> map_of (ss_files s) (hosts_file dir) \<noteq> None
      \<and> path_name dir \<noteq> [] \<and> distinct (map fst (sk_env (sw_knobs w)))
      \<and> (\<forall>kd \<in> set (sk_env (sw_knobs w)). unasked (sw_knobs w) (str_vals (read_existing_env text)) kd \<noteq> None
           \<and> \<not> key_problem (sw_knobs w) (str_vals (installed_values (sw_knobs w) text)) kd)
      \<and> (\<exists>key. map_of (installed_values (sw_knobs w) text) ''SSH_PRIVATE_KEY'' = Some key
           \<and> map_of (ss_files s) (sw_expand w key) \<noteq> None \<and> map_of (ss_files s) (sw_expand w key @ ''.pub'') \<noteq> None))"

lemma not_refused_empty: "not_install_inputs kn sn empty_input = Inr []"
  by (simp add: not_install_inputs_def empty_input_def member_names_def items_or_def server_held_def)

lemma answers_unasked:
  assumes "sa_input a = []" and "installed w dir text s"
  shows "seed_answers w a empty_input (path_name dir) dir s = (Inr (installed_values (sw_knobs w) text, [], None), s)"
proof -
  let ?kn = "sw_knobs w" and ?env = "str_vals (read_existing_env text)"
  obtain t where t: "ipv4_endpoint ?env = Inr t" using ipv4_endpoint_str by blast
  obtain h where h: "map_of (ss_files s) (hosts_file dir) = Some h" "map_of (ss_files s) (env_file dir) = Some text"
    using assms(2) by (auto simp: installed_def)
  have c: "collect_env_values w (sk_env ?kn) ?env False s = (Inr (installed_values ?kn text), s)"
    unfolding installed_values_def using assms(2) by (intro collect_unasked) (auto simp: installed_def)
  have v: "validate_install_structural ?kn (PStr (path_name dir)) (str_vals (installed_values ?kn text)) = 0"
    using assms(2) by (auto simp: no_structural_problem installed_def)
  have r: "resolve_admin_override [] = ret []"
    by (simp add: resolve_admin_override_def dget_def_def Let_def strip_def strip_by_def)
  show ?thesis
    unfolding seed_answers_def provided_values_def
    by (simp add: assms(1) bindS_def thenS_def read_file_def getS_def ret_def [abs_def] h as_dict_def liftP_def t c empty_input_def r v host_name_of_def)
qed

text \<open>C20: a re-run finishes unasked. On an inventory whose file answers every key, with its hosts file and its key
  pair in place and nothing refusing the writes, a run without an input file returns, asks nothing and
  leaves the environment file with the values it has.\<close>

theorem rerun_finishes_unasked:
  assumes "installed w dir text s" and "sa_input a = []" and "sa_inventory_path a = given" and "given \<noteq> []" and "sw_expand w given = dir"
    and "\<forall>q. \<not> sw_denied w q" and "secrets_path w a \<noteq> env_file dir" and "hosts_file dir \<noteq> env_file dir"
  shows "\<exists>s'. seed_main w a s = (Inr 0, s') \<and> ss_asked s' = ss_asked s \<and> ss_in s' = ss_in s
    \<and> map_of (ss_files s') (env_file dir) = Some (emit_env (sw_template w) (installed_values (sw_knobs w) text) (Some text) True)"
proof -
  let ?vs = "installed_values (sw_knobs w) text"
  obtain key h where k: "map_of ?vs ''SSH_PRIVATE_KEY'' = Some key" "map_of (ss_files s) (sw_expand w key) \<noteq> None"
    "map_of (ss_files s) (sw_expand w key @ ''.pub'') \<noteq> None" "map_of (ss_files s) (hosts_file dir) = Some h"
    "map_of (ss_files s) (env_file dir) = Some text"
    using assms(1) by (auto simp: installed_def)
  let ?p = "\<lparr>sp_dir = dir, sp_values = ?vs, sp_secrets = [], sp_host = None, sp_key = key\<rparr>"
  have p: "seed_planned w a s = (Inr ?p, s)"
    unfolding seed_planned_def load_input_def seed_target_def
    by (simp add: assms(2-5) not_refused_empty liftP_def bindS_def ret_def [abs_def] answers_unasked [OF assms(2,1)] k(1))
  have e: "ensure_ssh_key w key s = (Inr (), s)"
    using k(2,3) by (simp add: ensure_ssh_key_def Let_def bindS_def read_file_def getS_def ret_def)
  let ?s1 = "s\<lparr>ss_files := AList.update (env_file dir) (emit_env (sw_template w) ?vs (Some text) True) (ss_files s)\<rparr>"
  have i: "write_inventory_files w dir ?vs None s = (Inr (), ?s1)"
    using assms(6,8) k(4,5)
    by (simp add: write_inventory_files_def emit_env_file_def emit_hosts_yml_def thenS_def bindS_def read_file_def getS_def write_file_def modS_def ret_def update_conv')
  let ?s2 = "?s1\<lparr>ss_files := AList.update (secrets_path w a) (sw_dump w (PDict [])) (ss_files ?s1)\<rparr>"
  have o1: "write_secrets_out w (secrets_path w a) [] ?s1 = (Inr (), ?s2)"
    using assms(6) by (simp add: write_secrets_out_def write_file_def modS_def str_vals_def)
  have "seed_main w a s = (Inr 0, ?s2)"
    unfolding seed_main_def by (simp only: bindS_def thenS_def p e i o1 prod.case sum.case seed_plan.simps ret_def)
  moreover have "map_of (ss_files ?s2) (env_file dir) = Some (emit_env (sw_template w) ?vs (Some text) True)"
    using assms(7) by (simp add: update_conv')
  ultimately show ?thesis by (intro exI [of _ ?s2]) simp
qed

theorem rerun_finishes_unasked_witness:
  "\<exists>s'. seed_main (demo_machine PNone) (demo_run []) (demo_seed_state ''a@b.fr'') = (Inr 0, s') \<and> ss_asked s' = []"
proof -
  have "map_of (ss_files (demo_seed_state ''a@b.fr'')) (env_file ''/inv/prod'') = Some (''ADMIN_EMAIL=a@b.fr'' @ nl)"
    "map_of (ss_files (demo_seed_state ''a@b.fr'')) (hosts_file ''/inv/prod'') \<noteq> None" "path_name ''/inv/prod'' \<noteq> []"
    "distinct (map fst (sk_env demo_seed_knobs))"
    "\<forall>kd \<in> set (sk_env demo_seed_knobs). unasked demo_seed_knobs (str_vals (read_existing_env (''ADMIN_EMAIL=a@b.fr'' @ nl))) kd \<noteq> None
       \<and> \<not> key_problem demo_seed_knobs (str_vals (installed_values demo_seed_knobs (''ADMIN_EMAIL=a@b.fr'' @ nl))) kd"
    "map_of (installed_values demo_seed_knobs (''ADMIN_EMAIL=a@b.fr'' @ nl)) ''SSH_PRIVATE_KEY'' = Some ''~/.ssh/id''"
    "map_of (ss_files (demo_seed_state ''a@b.fr'')) ''~/.ssh/id'' \<noteq> None" "map_of (ss_files (demo_seed_state ''a@b.fr'')) ''~/.ssh/id.pub'' \<noteq> None"
    by code_simp+
  then have i: "installed (demo_machine PNone) ''/inv/prod'' (''ADMIN_EMAIL=a@b.fr'' @ nl) (demo_seed_state ''a@b.fr'')"
    unfolding installed_def by (simp add: demo_machine_def)
  have a: "sa_input (demo_run []) = []" "sa_inventory_path (demo_run []) = ''/inv/prod''" "''/inv/prod'' \<noteq> []" "sw_expand (demo_machine PNone) ''/inv/prod'' = ''/inv/prod''"
    "\<forall>q. \<not> sw_denied (demo_machine PNone) q" "secrets_path (demo_machine PNone) (demo_run []) \<noteq> env_file ''/inv/prod''" "hosts_file ''/inv/prod'' \<noteq> env_file ''/inv/prod''"
    by (simp_all add: demo_run_def demo_machine_def secrets_path_def env_file_def hosts_file_def)
  from rerun_finishes_unasked [OF i a] show ?thesis by (auto simp: demo_seed_state_def)
qed

end
