(* ===== verification/Admin_Service.thy ===== *)
theory Admin_Service
  imports Service_Drift
begin

text \<open>
  The panel's swarm service, \<open>src/ansible/playbooks/filter_plugins/catena_admin_service.py\<close>: the names of
  swarm secrets, the secrets a rotation left behind, the \<open>docker service create\<close> command, and the flags
  that bring a live service's environment, secrets and networks to what is declared. The SHA-256 of a
  text, in hexadecimal, is a parameter.
\<close>

section \<open>Definitions\<close>

definition ADMIN_MOUNTS :: "(string \<times> string \<times> bool) list" where
  "ADMIN_MOUNTS = [
     (''/var/lib/catena/admin'', ''/var/lib/catena/admin'', False),
     (''/etc/catena/admin-ssh'', ''/etc/catena/admin-ssh'', True),
     (''/var/backups/catena-export'', ''/var/backups/catena-export'', True),
     (''/var/lib/catena'', ''/var/lib/catena'', True),
     (''/etc/catena/admin-actions.yml'', ''/etc/catena/admin-actions.yml'', True),
     (''/etc/catena/extra-tiles.yml'', ''/etc/catena/extra-tiles.yml'', True),
     (''/run/systemd/journal/socket'', ''/run/systemd/journal/socket'', False)]"

definition SECRET_MOUNT_DIR :: string where "SECRET_MOUNT_DIR = ''/run/secrets''"

definition entry_at :: "dict \<Rightarrow> string \<Rightarrow> py flt" where
  "entry_at d k = (case map_of d k of None \<Rightarrow> Inl (Key_Error k) | Some v \<Rightarrow> Inr v)"

subsection \<open>Secrets\<close>

definition swarm_secret_name :: "(string \<Rightarrow> string) \<Rightarrow> py \<Rightarrow> string \<Rightarrow> string" where
  "swarm_secret_name sha256 base v = py_str base @ ''-'' @ take 8 (sha256 v)"

record swarm_secret =
  sws_name :: string
  sws_target :: string
  sws_value :: string

definition add_secret_entry :: "(string \<Rightarrow> string) \<Rightarrow> py \<Rightarrow> swarm_secret list \<Rightarrow> swarm_secret list flt" where
  "add_secret_entry sha256 v acc = (case v of
      PDict spec \<Rightarrow>
        (let val = str_or (dget spec ''value'') in
         if blank val then Inr acc
         else bindR (entry_at spec ''base'') (\<lambda>base. bindR (entry_at spec ''target'') (\<lambda>target.
           Inr (acc @ [\<lparr>sws_name = swarm_secret_name sha256 base val, sws_target = py_str target, sws_value = val\<rparr>]))))
    | _ \<Rightarrow> Inl Attribute_Error)"

definition secret_entries :: "(string \<Rightarrow> string) \<Rightarrow> py \<Rightarrow> swarm_secret list flt" where
  "secret_entries sha256 specs = bindR (items_or specs) (\<lambda>xs. foldR (add_secret_entry sha256) xs [])"

definition lower_hex :: "char \<Rightarrow> bool" where
  "lower_hex c = (is_digit c \<or> (let n = of_char c :: nat in 97 \<le> n \<and> n \<le> 102))"

text \<open>The pattern: one of the bases, a dash, eight hexadecimal digits, the end.\<close>

definition made_for :: "string list \<Rightarrow> string \<Rightarrow> bool" where
  "made_for bases name = list_ex (\<lambda>b. prefix (b @ ''-'') name
     \<and> (let rest = drop (length b + 1) name in 8 \<le> length rest \<and> list_all lower_hex (take 8 rest) \<and> at_end (drop 8 rest))) bases"

text \<open>\<open>(x.get(k, {}) or {})\<close> of a mapping, and of a value that may be something else.\<close>

definition or_dict :: "dict \<Rightarrow> string \<Rightarrow> py" where
  "or_dict d k = (if truthy (dget d k) then dget d k else PDict [])"

definition get_of :: "py \<Rightarrow> string \<Rightarrow> py flt" where
  "get_of v k = (case v of PDict d \<Rightarrow> Inr (dget d k) | _ \<Rightarrow> Inl Attribute_Error)"

definition task_template :: "py \<Rightarrow> py flt" where
  "task_template inspect =
     (let i = (case inspect of PList xs \<Rightarrow> (if xs = [] then PDict [] else hd xs) | _ \<Rightarrow> inspect) in
      case i of
        PDict d \<Rightarrow> bindR (get_of (or_dict d ''Spec'') ''TaskTemplate'') (\<lambda>t. Inr (if truthy t then t else PDict []))
      | _ \<Rightarrow> Inr (PDict []))"

definition container_spec :: "py \<Rightarrow> py flt" where
  "container_spec inspect = bindR (task_template inspect) (\<lambda>t.
     bindR (get_of t ''ContainerSpec'') (\<lambda>c. Inr (if truthy c then c else PDict [])))"

text \<open>\<open>[e for e in d.get(k) or [] if isinstance(e, dict)]\<close>.\<close>

definition dict_entries :: "py \<Rightarrow> string \<Rightarrow> dict list flt" where
  "dict_entries v k = bindR (get_of v k) (\<lambda>x. bindR (items_or x) (\<lambda>es.
     Inr (concat (map (\<lambda>e. case e of PDict d \<Rightarrow> [d] | _ \<Rightarrow> []) es))))"

definition mounted_names :: "string \<Rightarrow> py \<Rightarrow> string list flt" where
  "mounted_names label service = bindR (container_spec service) (\<lambda>c.
     bindR (dict_entries c (label @ ''s'')) (\<lambda>es. Inr (map (\<lambda>d. str_or (dget d (label @ ''Name''))) es)))"

definition secrets_unmounted :: "string list \<Rightarrow> py \<Rightarrow> py \<Rightarrow> string \<Rightarrow> string list flt" where
  "secrets_unmounted all_names services bases kind =
     (if \<not> truthy bases then Inr []
      else bindR (items_of bases) (\<lambda>bs. bindR (items_or services) (\<lambda>ss.
        bindR (mapR (mounted_names (if kind = ''config'' then ''Config'' else ''Secret'')) ss) (\<lambda>ms.
          Inr (sort (filter (\<lambda>n. made_for (map py_str bs) n \<and> n \<notin> set (concat ms)) all_names))))))"

subsection \<open>The create command\<close>

definition add_file_env :: "py \<Rightarrow> (string \<times> string) list \<Rightarrow> (string \<times> string) list flt" where
  "add_file_env v env = (case v of
      PDict d \<Rightarrow> bindR (entry_at d ''target'') (\<lambda>t.
        Inr (AList.update (py_str t @ ''_FILE'') (SECRET_MOUNT_DIR @ ''/'' @ py_str t) env))
    | _ \<Rightarrow> Inl Type_Error)"

definition wanted_env :: "dict \<Rightarrow> (string \<times> string) list" where
  "wanted_env want = map (\<lambda>kv. (fst kv, py_str (snd kv))) want"

definition plain_env :: "py \<Rightarrow> (string \<times> string) list flt" where
  "plain_env v = (if \<not> truthy v then Inr [] else case v of
      PDict d \<Rightarrow> Inr (wanted_env d)
    | _ \<Rightarrow> Inl Attribute_Error)"

definition catena_admin_full_env :: "py \<Rightarrow> (string \<times> string) list flt" where
  "catena_admin_full_env spec = (case spec of
      PDict d \<Rightarrow> bindR (plain_env (dget d ''env'')) (\<lambda>env.
        bindR (items_or (dget d ''secrets'')) (\<lambda>ss. foldR add_file_env ss env))
    | _ \<Rightarrow> Inl Attribute_Error)"

definition mount_arg :: "string \<times> string \<times> bool \<Rightarrow> string" where
  "mount_arg m = (case m of (source, destination, readonly) \<Rightarrow>
     ''type=bind,source='' @ source @ '',destination='' @ destination @ (if readonly then '',readonly'' else []))"

definition secret_arg :: "py \<Rightarrow> string flt" where
  "secret_arg v = (case v of
      PDict d \<Rightarrow> bindR (entry_at d ''name'') (\<lambda>n. bindR (entry_at d ''target'') (\<lambda>t.
        Inr (''--secret=source='' @ py_str n @ '',target='' @ py_str t)))
    | _ \<Rightarrow> Inl Type_Error)"

definition hardening_args :: "py \<Rightarrow> string list flt" where
  "hardening_args v = bindR (items_or v) (\<lambda>xs. Inr (map py_str xs))"

definition create_argv :: "dict \<Rightarrow> py list \<Rightarrow> string list \<Rightarrow> (string \<times> string) list \<Rightarrow> string list \<Rightarrow> string list" where
  "create_argv spec networks secrets env hardening =
     [''docker'', ''service'', ''create'', ''--detach'', ''--name='' @ py_str (dget spec ''name'')]
     @ map (\<lambda>n. ''--network='' @ py_str n) networks
     @ [''--restart-condition=any'',
        ''--publish=mode=host,published='' @ py_str (dget spec ''ui_port'') @ '',target='' @ py_str (dget spec ''direct_port''),
        ''--host=host.docker.internal:host-gateway'']
     @ (if strip_or (dget spec ''group'') = [] then [] else [''--group='' @ strip_or (dget spec ''group'')])
     @ map (\<lambda>m. ''--mount='' @ mount_arg m) ADMIN_MOUNTS
     @ secrets
     @ map (\<lambda>k. ''--env='' @ k @ ''='' @ the (map_of env k)) (sort (map fst env))
     @ hardening @ [py_str (dget spec ''image'')]"

definition catena_admin_service_argv :: "py \<Rightarrow> string list flt" where
  "catena_admin_service_argv v = (case v of
      PDict spec \<Rightarrow>
        if list_ex (\<lambda>k. \<not> truthy (dget spec k) \<or> blank (py_str (dget spec k))) [''name'', ''image'', ''networks'', ''ui_port'', ''direct_port'']
        then Inl Value_Error
        else (case dget spec ''networks'' of
          PList networks \<Rightarrow>
            bindR (bindR (items_or (dget spec ''secrets'')) (mapR secret_arg)) (\<lambda>secrets.
            bindR (catena_admin_full_env v) (\<lambda>env.
            bindR (hardening_args (dget spec ''hardening'')) (\<lambda>hardening.
              Inr (create_argv spec networks secrets env hardening))))
        | _ \<Rightarrow> Inl Value_Error)
    | _ \<Rightarrow> Inl Value_Error)"

subsection \<open>Drift\<close>

text \<open>A flag of \<open>docker service update\<close> and its argument.\<close>

datatype flag = Env_Add string string | Env_Rm string | Secret_Add string string | Secret_Rm string
  | Network_Add string | Network_Rm string

fun flag_args :: "flag \<Rightarrow> string list" where
  "flag_args (Env_Add k v) = [''--env-add'', k @ ''='' @ v]"
| "flag_args (Env_Rm k) = [''--env-rm'', k]"
| "flag_args (Secret_Add n t) = [''--secret-add'', ''source='' @ n @ '',target='' @ t]"
| "flag_args (Secret_Rm n) = [''--secret-rm'', n]"
| "flag_args (Network_Add n) = [''--network-add'', n]"
| "flag_args (Network_Rm t) = [''--network-rm'', t]"

definition args_of :: "flag list \<Rightarrow> string list" where
  "args_of fl = concat (map flag_args fl)"

definition live_env :: "py list \<Rightarrow> (string \<times> string) list" where
  "live_env entries = foldl (\<lambda>d e. case partition_char (CHR ''='') (py_str e) of (k, _, v) \<Rightarrow> AList.update k v d) [] entries"

definition env_flags :: "(string \<times> string) list \<Rightarrow> (string \<times> string) list \<Rightarrow> flag list" where
  "env_flags live want =
     map (\<lambda>k. Env_Add k (the (map_of want k))) (filter (\<lambda>k. map_of live k \<noteq> map_of want k) (sort (map fst want)))
     @ map Env_Rm (sort (filter (\<lambda>k. k \<notin> fst ` set want) (map fst live)))"

definition catena_admin_env_drift :: "py \<Rightarrow> py \<Rightarrow> string list flt" where
  "catena_admin_env_drift inspect env = (case env of
      PDict want \<Rightarrow>
        bindR (container_spec inspect) (\<lambda>c. bindR (get_of c ''Env'') (\<lambda>e. bindR (items_or e) (\<lambda>es.
          Inr (args_of (env_flags (live_env es) (wanted_env want))))))
    | _ \<Rightarrow> Inl Value_Error)"

definition secret_target :: "dict \<Rightarrow> string flt" where
  "secret_target d = bindR (get_of (or_dict d ''File'') ''Name'') (\<lambda>n. Inr (str_or n))"

definition add_live_secret :: "dict \<Rightarrow> (string \<times> string) list \<Rightarrow> (string \<times> string) list flt" where
  "add_live_secret d live = bindR (secret_target d) (\<lambda>t.
     let name = str_or (dget d ''SecretName'') in Inr (if name \<noteq> [] then AList.update name t live else live))"

definition add_wanted_secret :: "py \<Rightarrow> (string \<times> string) list \<Rightarrow> (string \<times> string) list flt" where
  "add_wanted_secret v want = (case v of
      PDict d \<Rightarrow> bindR (entry_at d ''name'') (\<lambda>n. bindR (entry_at d ''target'') (\<lambda>t. Inr (AList.update (py_str n) (py_str t) want)))
    | _ \<Rightarrow> Inl Type_Error)"

definition secret_flags :: "(string \<times> string) list \<Rightarrow> (string \<times> string) list \<Rightarrow> flag list" where
  "secret_flags live want =
     map Secret_Rm (sort (filter (\<lambda>n. n \<notin> fst ` set want) (map fst live)))
     @ map (\<lambda>n. Secret_Add n (the (map_of want n))) (sort (filter (\<lambda>n. n \<notin> fst ` set live) (map fst want)))"

definition catena_admin_secret_drift :: "py \<Rightarrow> py \<Rightarrow> string list flt" where
  "catena_admin_secret_drift inspect secrets =
     bindR (container_spec inspect) (\<lambda>c. bindR (dict_entries c ''Secrets'') (\<lambda>es. bindR (foldR add_live_secret es []) (\<lambda>live.
     bindR (items_or secrets) (\<lambda>ss. bindR (foldR add_wanted_secret ss []) (\<lambda>want. Inr (args_of (secret_flags live want)))))))"

definition add_network_id :: "string \<times> py \<Rightarrow> (string \<times> string) list \<Rightarrow> (string \<times> string) list flt" where
  "add_network_id kv want = (if strip_or (snd kv) = [] then Inl Value_Error
     else Inr (AList.update (strip (py_str (snd kv))) (fst kv) want))"

definition network_flags :: "string list \<Rightarrow> (string \<times> string) list \<Rightarrow> flag list" where
  "network_flags live want =
     map Network_Rm (sort (remdups (filter (\<lambda>t. t \<notin> fst ` set want) live)))
     @ map (\<lambda>i. Network_Add (the (map_of want i))) (sort (filter (\<lambda>i. i \<notin> set live) (map fst want)))"

definition catena_admin_network_drift :: "py \<Rightarrow> py \<Rightarrow> string list flt" where
  "catena_admin_network_drift inspect network_ids = (case network_ids of
      PDict ids \<Rightarrow>
        bindR (foldR add_network_id ids []) (\<lambda>want.
        bindR (task_template inspect) (\<lambda>t. bindR (dict_entries t ''Networks'') (\<lambda>es.
          Inr (args_of (network_flags (map (\<lambda>d. str_or (dget d ''Target'')) es) want)))))
    | _ \<Rightarrow> Inl Value_Error)"

section \<open>What the flags do\<close>

text \<open>
  The interface of a drift filter and \<open>docker service update\<close>: the filter compares what is live with
  what is wanted and gives flags, the update applies them one after another.
\<close>

locale converging =
  fixes diff :: "'l \<Rightarrow> 'w \<Rightarrow> 'f list" and apply_flag :: "'l \<Rightarrow> 'f \<Rightarrow> 'l" and same :: "'l \<Rightarrow> 'w \<Rightarrow> bool" and wf :: "'w \<Rightarrow> bool"
  assumes reaches: "wf want \<Longrightarrow> same (foldl apply_flag live (diff live want)) want"
    and silent: "wf want \<Longrightarrow> same live want \<Longrightarrow> diff live want = []"
begin

lemma settles: "wf want \<Longrightarrow> diff (foldl apply_flag live (diff live want)) want = []"
  by (intro silent reaches)

lemma silent_iff: "wf want \<Longrightarrow> diff live want = [] \<longleftrightarrow> same live want"
  using reaches [of want live] silent [of want live] by auto

end

fun env_step :: "(string \<times> string) list \<Rightarrow> flag \<Rightarrow> (string \<times> string) list" where
  "env_step m (Env_Add k v) = AList.update k v m"
| "env_step m (Env_Rm k) = AList.delete k m"
| "env_step m _ = m"

fun secret_step :: "(string \<times> string) list \<Rightarrow> flag \<Rightarrow> (string \<times> string) list" where
  "secret_step m (Secret_Add n t) = AList.update n t m"
| "secret_step m (Secret_Rm n) = AList.delete n m"
| "secret_step m _ = m"

text \<open>A network is added by its name, and attached under the id that name has.\<close>

fun network_step :: "(string \<Rightarrow> string) \<Rightarrow> string list \<Rightarrow> flag \<Rightarrow> string list" where
  "network_step id_of ts (Network_Add n) = id_of n # ts"
| "network_step id_of ts (Network_Rm t) = filter (\<lambda>x. x \<noteq> t) ts"
| "network_step id_of ts _ = ts"

lemma env_adds: "map_of (foldl env_step m (map (\<lambda>k. Env_Add k (f k)) ks)) k = (if k \<in> set ks then Some (f k) else map_of m k)"
  by (induction ks arbitrary: m) (auto simp: update_conv')

lemma env_rms: "map_of (foldl env_step m (map Env_Rm ks)) k = (if k \<in> set ks then None else map_of m k)"
  by (induction ks arbitrary: m) (auto simp: delete_conv')

lemma secret_adds: "map_of (foldl secret_step m (map (\<lambda>k. Secret_Add k (f k)) ks)) k = (if k \<in> set ks then Some (f k) else map_of m k)"
  by (induction ks arbitrary: m) (auto simp: update_conv')

lemma secret_rms: "map_of (foldl secret_step m (map Secret_Rm ks)) k = (if k \<in> set ks then None else map_of m k)"
  by (induction ks arbitrary: m) (auto simp: delete_conv')

lemma network_adds: "set (foldl (network_step id_of) ts (map (\<lambda>i. Network_Add (f i)) is)) = set ts \<union> (\<lambda>i. id_of (f i)) ` set is"
  by (induction "is" arbitrary: ts) auto

lemma network_rms: "set (foldl (network_step id_of) ts (map Network_Rm ks)) = set ts - set ks"
  by (induction ks arbitrary: ts) auto

lemma map_of_None: "map_of m k = None \<longleftrightarrow> k \<notin> fst ` set m"
  by (simp add: map_of_eq_None_iff)

lemma env_flags_reach: "map_of (foldl env_step live (env_flags live want)) = map_of want"
proof
  fix k
  have "map_of (foldl env_step live (env_flags live want)) k
    = (if k \<notin> fst ` set want \<and> k \<in> fst ` set live then None
       else if k \<in> fst ` set want \<and> map_of live k \<noteq> map_of want k then Some (the (map_of want k)) else map_of live k)"
    by (simp add: env_flags_def env_rms env_adds)
  then show "map_of (foldl env_step live (env_flags live want)) k = map_of want k"
    using map_of_None [of live k] map_of_None [of want k] by (cases "map_of want k") auto
qed

interpretation env: converging env_flags env_step "\<lambda>live want. map_of live = map_of want" "\<lambda>_. True"
proof
  fix live want :: "(string \<times> string) list"
  show "map_of (foldl env_step live (env_flags live want)) = map_of want" by (rule env_flags_reach)
  assume m: "map_of live = map_of want"
  then have "fst ` set live = fst ` set want" by (metis dom_map_of_conv_image_fst)
  with m show "env_flags live want = []" by (auto simp: env_flags_def filter_empty_conv image_iff)
qed

interpretation swarm_secrets: converging secret_flags secret_step "\<lambda>live want. fst ` set live = fst ` set want" "\<lambda>_. True"
proof
  fix live want :: "(string \<times> string) list"
  have "k \<in> fst ` set (foldl secret_step live (secret_flags live want)) \<longleftrightarrow> k \<in> fst ` set want" for k
    using map_of_None [of "foldl secret_step live (secret_flags live want)" k] map_of_None [of live k]
    by (simp add: secret_flags_def secret_adds secret_rms split: if_splits) blast
  then show "fst ` set (foldl secret_step live (secret_flags live want)) = fst ` set want" by blast
  assume "fst ` set live = fst ` set want"
  then show "secret_flags live want = []" by (auto simp: secret_flags_def filter_empty_conv)
qed

interpretation swarm_networks: converging network_flags "network_step id_of" "\<lambda>live want. set live = fst ` set want"
  "\<lambda>want. \<forall>(i, n) \<in> set want. id_of (the (map_of want i)) = i" for id_of
proof
  fix live :: "string list" and want :: "(string \<times> string) list"
  assume w: "\<forall>(i, n) \<in> set want. id_of (the (map_of want i)) = i"
  have "(\<lambda>i. id_of (the (map_of want i))) ` {i \<in> fst ` set want. i \<notin> set live} = {i \<in> fst ` set want. i \<notin> set live}"
    using w by (force simp: image_iff)
  then show "set (foldl (network_step id_of) live (network_flags live want)) = fst ` set want"
    by (auto simp: network_flags_def network_adds network_rms)
next
  fix live :: "string list" and want :: "(string \<times> string) list"
  assume "set live = fst ` set want"
  then show "network_flags live want = []" by (auto simp: network_flags_def filter_empty_conv)
qed

section \<open>Properties\<close>

text \<open>
  \<open>docker service update\<close> on the text of the environment flags: \<open>--env-add\<close> reads a name up to the
  first equals sign, \<open>--env-rm\<close> a whole name.
\<close>

fun update_env :: "string list \<Rightarrow> (string \<times> string) list \<Rightarrow> (string \<times> string) list" where
  "update_env (f # a # rest) m = update_env rest
     (if f = ''--env-add'' then (case partition_char (CHR ''='') a of (k, _, v) \<Rightarrow> AList.update k v m)
      else if f = ''--env-rm'' then AList.delete a m else m)"
| "update_env _ m = m"

fun env_flag :: "flag \<Rightarrow> bool" where
  "env_flag (Env_Add k v) = (CHR ''='' \<notin> set k)"
| "env_flag (Env_Rm k) = True"
| "env_flag _ = False"

lemma args_of_simps [simp]: "args_of [] = []" "args_of (f # fl) = flag_args f @ args_of fl"
  by (simp_all add: args_of_def)

lemma args_of_empty: "args_of fl = [] \<longleftrightarrow> fl = []"
proof (cases fl)
  case (Cons f fs)
  then show ?thesis by (cases f) auto
qed simp

lemma update_env_args: "list_all env_flag fl \<Longrightarrow> update_env (args_of fl) m = foldl env_step m fl"
proof (induction fl arbitrary: m)
  case (Cons f fl)
  then show ?case using partition_char_line [of "CHR ''=''"] by (cases f) auto
qed simp

lemma env_flags_env: "\<forall>k \<in> fst ` set want. CHR ''='' \<notin> set k \<Longrightarrow> list_all env_flag (env_flags live want)"
  by (auto simp: env_flags_def list_all_iff)

lemma env_drift_value:
  assumes "container_spec inspect = Inr (PDict c)" and "items_or (dget c ''Env'') = Inr es"
  shows "catena_admin_env_drift inspect (PDict want) = Inr (args_of (env_flags (live_env es) (wanted_env want)))"
  using assms by (simp add: catena_admin_env_drift_def get_of_def wanted_env_def)

text \<open>C31: Applied to a live service, the flags of \<open>catena_admin_env_drift\<close> leave exactly the declared
  environment: every declared name with its value and no other name. There are no flags exactly when
  the live environment already is the declared one, so a second run on the updated service asks for
  nothing and no task is recreated. Declared names hold no equals sign.
\<close>

theorem env_drift_converges:
  assumes "container_spec inspect = Inr (PDict c)" and "items_or (dget c ''Env'') = Inr es"
    and "\<forall>k \<in> fst ` set want. CHR ''='' \<notin> set k"
  shows "\<exists>args. catena_admin_env_drift inspect (PDict want) = Inr args
    \<and> map_of (update_env args (live_env es)) = map_of (wanted_env want)
    \<and> (args = [] \<longleftrightarrow> map_of (live_env es) = map_of (wanted_env want))
    \<and> (\<forall>later c' es'. container_spec later = Inr (PDict c') \<and> items_or (dget c' ''Env'') = Inr es'
         \<and> map_of (live_env es') = map_of (update_env args (live_env es))
         \<longrightarrow> catena_admin_env_drift later (PDict want) = Inr [])"
proof -
  let ?w = "wanted_env want" and ?fl = "env_flags (live_env es) (wanted_env want)"
  have u: "update_env (args_of ?fl) (live_env es) = foldl env_step (live_env es) ?fl"
    using assms(3) by (intro update_env_args env_flags_env) (auto simp: wanted_env_def image_iff)
  have r: "map_of (update_env (args_of ?fl) (live_env es)) = map_of ?w"
    unfolding u by (rule env.reaches) (rule TrueI)
  have "catena_admin_env_drift later (PDict want) = Inr []"
    if "container_spec later = Inr (PDict c')" "items_or (dget c' ''Env'') = Inr es'"
      "map_of (live_env es') = map_of ?w" for later c' es'
    using env_drift_value [OF that(1,2)] env.silent [OF TrueI that(3)] by simp
  then show ?thesis
    using env_drift_value [OF assms(1,2)] r env.silent_iff [OF TrueI, of "live_env es" ?w]
    by (auto simp: args_of_empty)
qed

definition panel_inspect :: "string list \<Rightarrow> py" where
  "panel_inspect env = PList [PDict [(''Spec'', PDict [(''TaskTemplate'',
     PDict [(''ContainerSpec'', PDict [(''Env'', PList (map PStr env))])])])]]"

theorem env_drift_converges_witness:
  "\<exists>args. catena_admin_env_drift (panel_inspect [''A=1'', ''OLD=x'']) (PDict [(''A'', PInt 2), (''B'', PStr ''b=c'')]) = Inr args
    \<and> map_of (update_env args (live_env (map PStr [''A=1'', ''OLD=x'']))) = map_of [(''A'', ''2''), (''B'', ''b=c'')]"
proof -
  have c: "container_spec (panel_inspect [''A=1'', ''OLD=x'']) = Inr (PDict [(''Env'', PList (map PStr [''A=1'', ''OLD=x'']))])"
    "items_or (dget [(''Env'', PList (map PStr [''A=1'', ''OLD=x'']))] ''Env'') = Inr (map PStr [''A=1'', ''OLD=x''])"
    "\<forall>k \<in> fst ` set [(''A'', PInt 2), (''B'', PStr ''b=c'')]. CHR ''='' \<notin> set k"
    "wanted_env [(''A'', PInt 2), (''B'', PStr ''b=c'')] = [(''A'', ''2''), (''B'', ''b=c'')]"
    by code_simp+
  show ?thesis using env_drift_converges [OF c(1-3)] unfolding c(4) by blast
qed

text \<open>The name \<open>swarm_secret_name\<close> gives is one the prune recognises, for a hash in hexadecimal.\<close>

lemma made_for_iff:
  "made_for bases n \<longleftrightarrow> (\<exists>b \<in> set bases. \<exists>h e. n = b @ ''-'' @ h @ e \<and> length h = 8 \<and> list_all lower_hex h \<and> at_end e)"
proof
  assume "made_for bases n"
  then obtain b r where b: "b \<in> set bases" "n = b @ ''-'' @ r" "8 \<le> length r" "list_all lower_hex (take 8 r)" "at_end (drop 8 r)"
    by (auto simp: made_for_def list_ex_iff prefix_def Let_def)
  have "n = b @ ''-'' @ take 8 r @ drop 8 r" using b(2) by simp
  moreover have "length (take 8 r) = 8" using b(3) by simp
  ultimately show "\<exists>b \<in> set bases. \<exists>h e. n = b @ ''-'' @ h @ e \<and> length h = 8 \<and> list_all lower_hex h \<and> at_end e"
    using b(1,4,5) by blast
qed (auto simp: made_for_def list_ex_iff prefix_def Let_def)

lemma named_recognised:
  assumes "8 \<le> length (sha256 v)" and "list_all lower_hex (sha256 v)" and "base \<in> set bs"
  shows "made_for (map py_str bs) (swarm_secret_name sha256 base v)"
proof -
  have "list_all lower_hex (take 8 (sha256 v))" using assms(2) set_take_subset [of 8 "sha256 v"] by (auto simp: list_all_iff)
  then show ?thesis using assms(1,3) unfolding made_for_iff swarm_secret_name_def
    by (intro bexI [of _ "py_str base"] exI [of _ "take 8 (sha256 v)"] exI [of _ "[]"]) (auto simp: at_end_def)
qed

lemma secret_entries_named:
  assumes "secret_entries sha256 (PList specs) = Inr es" and "e \<in> set es"
  shows "\<exists>d base. PDict d \<in> set specs \<and> map_of d ''base'' = Some base \<and> sws_value e = str_or (dget d ''value'')
    \<and> \<not> blank (sws_value e) \<and> sws_name e = swarm_secret_name sha256 base (sws_value e)"
proof -
  let ?P = "\<lambda>es :: swarm_secret list. \<forall>e \<in> set es. \<exists>d base. PDict d \<in> set specs \<and> map_of d ''base'' = Some base \<and> sws_value e = str_or (dget d ''value'')
    \<and> \<not> blank (sws_value e) \<and> sws_name e = swarm_secret_name sha256 base (sws_value e)"
  have f: "foldR (add_secret_entry sha256) specs [] = Inr es"
    using assms(1) by (cases specs) (auto simp: secret_entries_def items_or_def)
  have "?P es"
  proof (rule foldR_invariant [where P = ?P, OF f])
    fix x and s t :: "swarm_secret list"
    assume x: "x \<in> set specs" "?P s" "add_secret_entry sha256 x s = Inr t"
    from x(3) obtain d where d: "x = PDict d" by (cases x) (auto simp: add_secret_entry_def)
    show "?P t"
    proof (cases "blank (str_or (dget d ''value''))")
      case False
      with x(3) d obtain base tg where "map_of d ''base'' = Some base"
        and t: "t = s @ [\<lparr>sws_name = swarm_secret_name sha256 base (str_or (dget d ''value'')), sws_target = tg, sws_value = str_or (dget d ''value'')\<rparr>]"
        by (auto simp: add_secret_entry_def entry_at_def bindR_Inr_iff Let_def split: option.splits)
      with False x(1,2) d show ?thesis by (simp add: t) blast
    qed (use x d in \<open>simp add: add_secret_entry_def\<close>)
  qed simp
  with assms(2) show ?thesis by blast
qed

definition swarm_label :: "string \<Rightarrow> string" where
  "swarm_label kind = (if kind = ''config'' then ''Config'' else ''Secret'')"

definition mounted_by :: "string \<Rightarrow> py list \<Rightarrow> string \<Rightarrow> bool" where
  "mounted_by label services n = list_ex (\<lambda>s. case mounted_names label s of Inr ms \<Rightarrow> n \<in> set ms | Inl _ \<Rightarrow> False) services"

lemma mounted_by_iff: "mounted_by label services n \<longleftrightarrow> (\<exists>s \<in> set services. \<exists>ms. mounted_names label s = Inr ms \<and> n \<in> set ms)"
proof -
  have "(case x of Inr ms \<Rightarrow> n \<in> set ms | Inl _ \<Rightarrow> False) \<longleftrightarrow> (\<exists>ms. x = Inr ms \<and> n \<in> set ms)" for x :: "string list flt"
    by (cases x) auto
  then show ?thesis by (simp add: mounted_by_def list_ex_iff)
qed

lemma unmounted_set:
  assumes "secrets_unmounted all_names (PList services) (PList bases) kind = Inr r"
  shows "set r = {n \<in> set all_names. made_for (map py_str bases) n \<and> \<not> mounted_by (swarm_label kind) services n} \<and> sorted r"
proof (cases "bases = []")
  case True
  with assms show ?thesis by (auto simp: secrets_unmounted_def made_for_def)
next
  case False
  have i: "items_or (PList services) = Inr services" by (simp add: items_or_def)
  from False assms obtain ms where ms: "mapR (mounted_names (swarm_label kind)) services = Inr ms"
    and r: "r = sort (filter (\<lambda>n. made_for (map py_str bases) n \<and> n \<notin> set (concat ms)) all_names)"
    by (auto simp: secrets_unmounted_def i swarm_label_def bindR_Inr_iff)
  have "n \<in> set (concat ms) \<longleftrightarrow> mounted_by (swarm_label kind) services n" for n
    using mapR_set [OF ms] by (simp add: mounted_by_iff) blast
  then show ?thesis by (auto simp: r)
qed

text \<open>The prune after a rotation, \<open>secrets_unmounted\<close>: it lists, in order, exactly the names that are
  one of the bases, a dash and eight hexadecimal digits (a final newline is let through, as \<open>$\<close> does)
  and that no inspected service mounts. Of the secrets \<open>secret_entries\<close> names for these bases, it lists
  exactly those no service mounts: a credential in use is never pruned and a rotated one always is.
\<close>

theorem prune_spares_mounted:
  assumes "\<forall>v. 8 \<le> length (sha256 v) \<and> list_all lower_hex (sha256 v)"
    and "secrets_unmounted all_names (PList services) (PList bases) kind = Inr r"
    and "secret_entries sha256 (PList specs) = Inr es"
    and "\<forall>d base. PDict d \<in> set specs \<longrightarrow> map_of d ''base'' = Some base \<longrightarrow> base \<in> set bases"
  shows "sorted r
    \<and> set r = {n \<in> set all_names. (\<exists>b \<in> set bases. \<exists>h e. n = py_str b @ ''-'' @ h @ e \<and> length h = 8 \<and> list_all lower_hex h \<and> at_end e)
      \<and> \<not> mounted_by (swarm_label kind) services n}
    \<and> (\<forall>e \<in> set es. sws_name e \<in> set all_names \<longrightarrow> (sws_name e \<in> set r \<longleftrightarrow> \<not> mounted_by (swarm_label kind) services (sws_name e)))"
proof -
  note u = unmounted_set [OF assms(2)]
  have "made_for (map py_str bases) (sws_name e)" if e: "e \<in> set es" for e
  proof -
    obtain d base where "PDict d \<in> set specs" "map_of d ''base'' = Some base"
      "sws_name e = swarm_secret_name sha256 base (sws_value e)"
      using secret_entries_named [OF assms(3) e] by blast
    with assms(1,4) show ?thesis by (metis named_recognised)
  qed
  then have "\<forall>e \<in> set es. sws_name e \<in> set all_names \<longrightarrow> (sws_name e \<in> set r \<longleftrightarrow> \<not> mounted_by (swarm_label kind) services (sws_name e))"
    using u by blast
  with u show ?thesis by (simp only: made_for_iff set_map bex_simps)
qed

definition sample_sha :: "string \<Rightarrow> string" where
  "sample_sha v = (if v = ''new'' then ''cafe0123'' else ''beef4567'')"

definition panel_mounting :: "string list \<Rightarrow> py" where
  "panel_mounting ns = PDict [(''Spec'', PDict [(''TaskTemplate'', PDict [(''ContainerSpec'',
     PDict [(''Secrets'', PList (map (\<lambda>n. PDict [(''SecretName'', PStr n)]) ns))])])])]"

theorem prune_spares_mounted_witness:
  "set [''key-beef4567''] = {n \<in> set [''key-cafe0123'', ''key-beef4567'', ''other-beef4567'']. (\<exists>b \<in> set [PStr ''key'']. \<exists>h e. n = py_str b @ ''-'' @ h @ e \<and> length h = 8 \<and> list_all lower_hex h \<and> at_end e)
      \<and> \<not> mounted_by (swarm_label ''secret'') [panel_mounting [''key-cafe0123'']] n}"
proof -
  have sha: "\<forall>v. 8 \<le> length (sample_sha v) \<and> list_all lower_hex (sample_sha v)"
    by (simp add: sample_sha_def lower_hex_def is_digit_def Let_def)
  have r: "secrets_unmounted [''key-cafe0123'', ''key-beef4567'', ''other-beef4567''] (PList [panel_mounting [''key-cafe0123'']]) (PList [PStr ''key'']) ''secret'' = Inr [''key-beef4567'']"
    "secret_entries sample_sha (PList [PDict [(''base'', PStr ''key''), (''target'', PStr ''KEY''), (''value'', PStr ''new'')]])
       = Inr [\<lparr>sws_name = ''key-cafe0123'', sws_target = ''KEY'', sws_value = ''new''\<rparr>]"
    by code_simp+
  have b: "\<forall>d base. PDict d \<in> set [PDict [(''base'', PStr ''key''), (''target'', PStr ''KEY''), (''value'', PStr ''new'')]]
      \<longrightarrow> map_of d ''base'' = Some base \<longrightarrow> base \<in> set [PStr ''key'']" by simp
  show ?thesis using prune_spares_mounted [OF sha r b] by blast
qed

text \<open>
  A secret that keeps its name but moves to another target is not seen by the secret drift, which
  compares names: the flags are empty and the service keeps the old target.
\<close>

theorem retargeted_secret_unseen:
  "catena_admin_secret_drift (PDict [(''Spec'', PDict [(''TaskTemplate'', PDict [(''ContainerSpec'',
      PDict [(''Secrets'', PList [PDict [(''SecretName'', PStr ''key-cafe0123''), (''File'', PDict [(''Name'', PStr ''OLD'')])]])])])])])
     (PList [PDict [(''name'', PStr ''key-cafe0123''), (''target'', PStr ''NEW'')]]) = Inr []"
  by code_simp

text \<open>The command and the environment read of a mounted secret its name and its target only.\<close>

definition same_mount :: "dict \<Rightarrow> dict \<Rightarrow> bool" where
  "same_mount d e = (map_of d ''name'' = map_of e ''name'' \<and> map_of d ''target'' = map_of e ''target'')"

lemma secret_arg_same: "same_mount d e \<Longrightarrow> secret_arg (PDict d) = secret_arg (PDict e)"
  by (simp add: same_mount_def secret_arg_def entry_at_def)

lemma add_file_env_same: "same_mount d e \<Longrightarrow> add_file_env (PDict d) env = add_file_env (PDict e) env"
  by (simp add: same_mount_def add_file_env_def entry_at_def)

lemma secrets_same:
  assumes "list_all2 same_mount ds es"
  shows "mapR secret_arg (map PDict ds) = mapR secret_arg (map PDict es)
    \<and> foldR add_file_env (map PDict ds) env = foldR add_file_env (map PDict es) env"
  using assms
proof (induction arbitrary: env rule: list_all2_induct)
  case (Cons d ds e es)
  have "foldR add_file_env (map PDict ds) = foldR add_file_env (map PDict es)" using Cons(3) by blast
  with Cons(3) show ?case by (simp add: secret_arg_same [OF Cons(1)] add_file_env_same [OF Cons(1)])
qed simp

lemma items_or_PList [simp]: "items_or (PList xs) = Inr xs"
  by (simp add: items_or_def)

lemma file_env_kept:
  assumes "foldR add_file_env ss env = Inr env'" and "map_of env k = Some (SECRET_MOUNT_DIR @ ''/'' @ t)" and "k = t @ ''_FILE''"
  shows "map_of env' k = Some (SECRET_MOUNT_DIR @ ''/'' @ t)"
  using assms(1)
proof (rule foldR_invariant [where P = "\<lambda>m. map_of m k = Some (SECRET_MOUNT_DIR @ ''/'' @ t)", OF _ assms(2)])
  fix x and m m' :: "(string \<times> string) list"
  assume "map_of m k = Some (SECRET_MOUNT_DIR @ ''/'' @ t)" "add_file_env x m = Inr m'"
  then show "map_of m' k = Some (SECRET_MOUNT_DIR @ ''/'' @ t)"
    using assms(3) by (auto simp: add_file_env_def bindR_Inr_iff update_conv' split: py.splits)
qed

lemma file_env_announces:
  assumes "foldR add_file_env ss env = Inr env'" and "PDict d \<in> set ss"
  shows "\<exists>t. map_of d ''target'' = Some t \<and> map_of env' (py_str t @ ''_FILE'') = Some (SECRET_MOUNT_DIR @ ''/'' @ py_str t)"
  using assms
proof (induction ss arbitrary: env)
  case (Cons x ss)
  obtain m where m: "add_file_env x env = Inr m" "foldR add_file_env ss m = Inr env'"
    using Cons.prems(1) by (auto simp: bindR_Inr_iff)
  show ?case
  proof (cases "x = PDict d")
    case True
    with m(1) obtain t where t: "map_of d ''target'' = Some t"
      "m = AList.update (py_str t @ ''_FILE'') (SECRET_MOUNT_DIR @ ''/'' @ py_str t) env"
      by (auto simp: add_file_env_def bindR_Inr_iff entry_at_def split: option.splits)
    then show ?thesis using file_env_kept [OF m(2)] by (simp add: update_conv')
  next
    case False
    with Cons m(2) show ?thesis by auto
  qed
qed simp

lemma mapR_element: "mapR f xs = Inr ys \<Longrightarrow> x \<in> set xs \<Longrightarrow> \<exists>y \<in> set ys. f x = Inr y"
  by (induction xs arbitrary: ys) (auto simp: bindR_Inr_iff)

lemma argv_parts:
  assumes "catena_admin_service_argv (PDict spec) = Inr argv"
  obtains secrets env where "bindR (items_or (dget spec ''secrets'')) (mapR secret_arg) = Inr secrets"
    and "catena_admin_full_env (PDict spec) = Inr env" and "set secrets \<subseteq> set argv"
    and "(\<lambda>k. ''--env='' @ k @ ''='' @ the (map_of env k)) ` fst ` set env \<subseteq> set argv"
proof -
  from assms obtain networks secrets env hardening where
    p: "bindR (items_or (dget spec ''secrets'')) (mapR secret_arg) = Inr secrets" "catena_admin_full_env (PDict spec) = Inr env"
    and argv: "argv = create_argv spec networks secrets env hardening"
    by (cases "dget spec ''networks''") (auto simp: catena_admin_service_argv_def bindR_Inr_iff split: if_splits)
  show thesis by (rule that [OF p]; simp only: argv create_argv_def set_append set_map set_sort; blast)
qed

text \<open>The \<open>docker service create\<close> command: every secret of the spec is mounted, and announced by the
  environment as the file it is mounted at, whatever the plain environment says under that name; and
  nothing else of a secret reaches the command line: two lists of secrets that agree on name and target
  give the same command, so the value of a credential is never an argument.
\<close>

theorem argv_mounts_unseen_values:
  assumes "list_all2 same_mount ds es"
  shows "catena_admin_service_argv (PDict (dset ''secrets'' (PList (map PDict ds)) spec))
      = catena_admin_service_argv (PDict (dset ''secrets'' (PList (map PDict es)) spec))
    \<and> (\<forall>argv. catena_admin_service_argv (PDict (dset ''secrets'' (PList (map PDict ds)) spec)) = Inr argv \<longrightarrow>
        (\<forall>d \<in> set ds. \<exists>n t. map_of d ''name'' = Some n \<and> map_of d ''target'' = Some t
          \<and> ''--secret=source='' @ py_str n @ '',target='' @ py_str t \<in> set argv
          \<and> ''--env='' @ py_str t @ ''_FILE=/run/secrets/'' @ py_str t \<in> set argv))"
proof -
  have same: "bindR (items_or (dget (dset ''secrets'' (PList (map PDict ds)) spec) ''secrets'')) (mapR secret_arg)
      = bindR (items_or (dget (dset ''secrets'' (PList (map PDict es)) spec) ''secrets'')) (mapR secret_arg)"
    "catena_admin_full_env (PDict (dset ''secrets'' (PList (map PDict ds)) spec)) = catena_admin_full_env (PDict (dset ''secrets'' (PList (map PDict es)) spec))"
    using secrets_same [OF assms] by (simp_all add: dget_dset catena_admin_full_env_def)
  then have eq: "catena_admin_service_argv (PDict (dset ''secrets'' (PList (map PDict ds)) spec))
      = catena_admin_service_argv (PDict (dset ''secrets'' (PList (map PDict es)) spec))"
    by (cases "dget spec ''networks''") (simp_all add: catena_admin_service_argv_def create_argv_def dget_dset)
  have "\<exists>n t. map_of d ''name'' = Some n \<and> map_of d ''target'' = Some t
      \<and> ''--secret=source='' @ py_str n @ '',target='' @ py_str t \<in> set argv
      \<and> ''--env='' @ py_str t @ ''_FILE=/run/secrets/'' @ py_str t \<in> set argv"
    if a: "catena_admin_service_argv (PDict (dset ''secrets'' (PList (map PDict ds)) spec)) = Inr argv" and d: "d \<in> set ds" for argv d
  proof -
    obtain secrets env where "bindR (items_or (dget (dset ''secrets'' (PList (map PDict ds)) spec) ''secrets'')) (mapR secret_arg) = Inr secrets"
      and "catena_admin_full_env (PDict (dset ''secrets'' (PList (map PDict ds)) spec)) = Inr env"
      and sub: "set secrets \<subseteq> set argv" "(\<lambda>k. ''--env='' @ k @ ''='' @ the (map_of env k)) ` fst ` set env \<subseteq> set argv"
      using argv_parts [OF a] .
    then obtain m where ms: "mapR secret_arg (map PDict ds) = Inr secrets" and me: "foldR add_file_env (map PDict ds) m = Inr env"
      by (auto simp: dget_dset catena_admin_full_env_def bindR_Inr_iff)
    obtain t where t: "map_of d ''target'' = Some t" "map_of env (py_str t @ ''_FILE'') = Some (SECRET_MOUNT_DIR @ ''/'' @ py_str t)"
      using file_env_announces [OF me, of d] d by auto
    obtain y where y: "y \<in> set secrets" "secret_arg (PDict d) = Inr y" using mapR_element [OF ms, of "PDict d"] d by auto
    then obtain n where n: "map_of d ''name'' = Some n" "y = ''--secret=source='' @ py_str n @ '',target='' @ py_str t"
      using t(1) by (auto simp: secret_arg_def entry_at_def bindR_Inr_iff split: option.splits)
    have "py_str t @ ''_FILE'' \<in> fst ` set env" using t(2) map_of_None [of env "py_str t @ ''_FILE''"] by simp
    then have "''--env='' @ (py_str t @ ''_FILE'') @ ''='' @ the (map_of env (py_str t @ ''_FILE'')) \<in> set argv" using sub(2) by blast
    then show ?thesis using n t y(1) sub(1) by (auto simp: SECRET_MOUNT_DIR_def)
  qed
  with eq show ?thesis by blast
qed

definition panel_spec :: dict where
  "panel_spec = [(''name'', PStr ''catena-admin''), (''image'', PStr ''admin:1''), (''networks'', PList [PStr ''catena-network'']),
     (''ui_port'', PInt 8443), (''direct_port'', PInt 8080)]"

theorem argv_mounts_unseen_values_witness:
  "catena_admin_service_argv (PDict (dset ''secrets'' (PList (map PDict [[(''name'', PStr ''key-1''), (''target'', PStr ''KEY''), (''value'', PStr ''s3cret'')]])) panel_spec))
    = catena_admin_service_argv (PDict (dset ''secrets'' (PList (map PDict [[(''name'', PStr ''key-1''), (''target'', PStr ''KEY''), (''value'', PStr ''other'')]])) panel_spec))"
proof -
  have "list_all2 same_mount [[(''name'', PStr ''key-1''), (''target'', PStr ''KEY''), (''value'', PStr ''s3cret'')]]
      [[(''name'', PStr ''key-1''), (''target'', PStr ''KEY''), (''value'', PStr ''other'')]]"
    by (simp add: same_mount_def)
  from argv_mounts_unseen_values [OF this, of panel_spec] show ?thesis by blast
qed

end
