(* ===== verification/Ssh_Remote.thy ===== *)
theory Ssh_Remote
  imports Ip_Address
begin

text \<open>
  SSH from the installer's machine, \<open>src/installer/catena_installer/remote.py\<close>: the host key policy, the
  logins with a key or with the provider's password, a command's output in lines, the files sent for a
  leg, and the terminal that answers a forced change of password. paramiko, \<open>ssh-keygen\<close>, the sockets and
  what the server answers are parameters (\<open>ssh_world\<close>), each answer a function of what happened so far.
  The polls of one wait on the terminal are finitely many, because the wait has a deadline: the end of
  their list is the deadline. A text is its bytes, decoded by a parameter.
\<close>

section \<open>The outside\<close>

record host_key =
  hk_name :: string
  hk_bytes :: string

text \<open>A connected transport: where it leads and the key the server presented.\<close>

record conn =
  cn_host :: string
  cn_port :: int
  cn_key :: host_key

datatype poll = Data string | Ended | Waiting

datatype auth = Accepted | Denied | Ssh_Fault string

datatype key_file = Usable | Locked | Unreadable string

text \<open>How a command ends: with a status, with the connection lost, or with an exception of the library.\<close>

datatype ending = Exit int | Lost | Broken string

datatype action =
    Dialled string int
  | Negotiated string int "string list"
  | Key_Offered conn string string
  | Password_Offered conn string string
  | Shell_Opened conn
  | Typed conn string
  | Waited conn
  | Ran conn string
  | Sent_File conn string string
  | Closed conn
  | Slept

datatype rerror =
    Remote_Error string
  | Unreachable string
  | Auth_Refused string
  | Host_Key_Changed string "string list" string
  | Password_Needed string
  | Key_Pair_Error string
  | Os_Error string
  | Ssh_Error string
  | Called_Process_Error
  | Timed_Out
  | Shell_Closed
  | Other_Error string

text \<open>\<open>RemoteError\<close> and the classes below it.\<close>

fun is_remote :: "rerror \<Rightarrow> bool" where
  "is_remote (Remote_Error m) = True"
| "is_remote (Unreachable m) = True"
| "is_remote (Auth_Refused m) = True"
| "is_remote (Host_Key_Changed n t f) = True"
| "is_remote (Password_Needed m) = True"
| "is_remote _ = False"

record ssh_world =
  rw_lookup :: "string \<Rightarrow> string \<Rightarrow> host_key list"
  rw_base64 :: "host_key \<Rightarrow> string"
  rw_fingerprint :: "host_key \<Rightarrow> string"
  rw_forget :: "(string \<Rightarrow> string \<Rightarrow> string option) option"
  rw_key_types :: "string list"
  rw_dial :: "action list \<Rightarrow> string \<Rightarrow> int \<Rightarrow> string option"
  rw_start :: "action list \<Rightarrow> string \<Rightarrow> int \<Rightarrow> string list \<Rightarrow> string + host_key"
  rw_load :: "string \<Rightarrow> key_file"
  rw_auth_key :: "action list \<Rightarrow> conn \<Rightarrow> string \<Rightarrow> string \<Rightarrow> auth"
  rw_auth_password :: "action list \<Rightarrow> conn \<Rightarrow> string \<Rightarrow> string \<Rightarrow> auth"
  rw_polls :: "action list \<Rightarrow> conn \<Rightarrow> poll list"
  rw_output :: "action list \<Rightarrow> conn \<Rightarrow> string \<Rightarrow> string list \<times> ending"
  rw_status :: "action list \<Rightarrow> conn \<Rightarrow> string \<Rightarrow> string \<Rightarrow> int"
  rw_decode :: "string \<Rightarrow> string"
  rw_token :: "action list \<Rightarrow> string"
  rw_draw :: "action list \<Rightarrow> nat \<Rightarrow> nat"

text \<open>
  The machine's known hosts file, what happened, what the terminal has printed unread, and what the
  installer has shown: the lines passed on, the blocks of passwords, and the block being read.
\<close>

record ssh_state =
  st_known :: "string option"
  st_done :: "action list"
  st_buffer :: string
  st_printed :: "string list"
  st_keysets :: "string list list"
  st_block :: "string list option"

type_synonym 'a ssh = "(ssh_state, rerror, 'a) sem"

definition did :: "action \<Rightarrow> unit ssh" where
  "did a = modS (\<lambda>s. s\<lparr>st_done := st_done s @ [a]\<rparr>)"

section \<open>The host key\<close>

definition ALGORITHMS :: "(string \<times> string list) list" where
  "ALGORITHMS = [(''ssh-rsa'', [''rsa-sha2-512'', ''rsa-sha2-256'', ''ssh-rsa''])]"

definition known_name :: "string \<Rightarrow> int \<Rightarrow> string" where
  "known_name host port = (if port = 22 then host else ''['' @ host @ '']:'' @ dec_int port)"

definition describe_key :: "ssh_world \<Rightarrow> host_key \<Rightarrow> string" where
  "describe_key w k = hk_name k @ '' '' @ rw_fingerprint w k"

definition trusted :: "ssh_world \<Rightarrow> string option \<Rightarrow> string \<Rightarrow> host_key list" where
  "trusted w known name = (case known of None \<Rightarrow> [] | Some t \<Rightarrow> rw_lookup w t name)"

definition known_line :: "ssh_world \<Rightarrow> string \<Rightarrow> host_key \<Rightarrow> string" where
  "known_line w name k = name @ '' '' @ hk_name k @ '' '' @ rw_base64 w k @ nl"

definition record_key :: "ssh_world \<Rightarrow> string \<Rightarrow> host_key \<Rightarrow> unit ssh" where
  "record_key w name k = modS (\<lambda>s. s\<lparr>st_known := Some ((case st_known s of None \<Rightarrow> [] | Some t \<Rightarrow> t) @ known_line w name k)\<rparr>)"

definition forget :: "ssh_world \<Rightarrow> string \<Rightarrow> unit ssh" where
  "forget w name = bindS (getS st_known) (\<lambda>known. case known of
      None \<Rightarrow> ret ()
    | Some t \<Rightarrow> (case rw_forget w of
        None \<Rightarrow> raise (Remote_Error ''ssh-keygen is not installed: it ships with OpenSSH'')
      | Some keygen \<Rightarrow> (case keygen t name of
          None \<Rightarrow> raise Called_Process_Error
        | Some t' \<Rightarrow> modS (\<lambda>s. s\<lparr>st_known := Some t'\<rparr>))))"

definition algorithms_of :: "host_key \<Rightarrow> string list" where
  "algorithms_of k = (case map_of ALGORITHMS (hk_name k) of Some as \<Rightarrow> as | None \<Rightarrow> [hk_name k])"

text \<open>The key types asked for: those of the trusted keys that this machine can use, if any.\<close>

definition usable_types :: "ssh_world \<Rightarrow> host_key list \<Rightarrow> bool \<Rightarrow> string list" where
  "usable_types w ts reinstalled =
     (let usable = first_seen (filter (\<lambda>a. a \<in> set (rw_key_types w)) (concat (map algorithms_of ts))) in
      if ts \<noteq> [] \<and> \<not> reinstalled \<and> usable \<noteq> [] then usable else rw_key_types w)"

text \<open>\<open>_transport\<close>.\<close>

definition key_trusted :: "host_key list \<Rightarrow> host_key \<Rightarrow> bool" where
  "key_trusted ts key = list_ex (\<lambda>k. hk_name k = hk_name key \<and> hk_bytes k = hk_bytes key) ts"

definition changed_error :: "ssh_world \<Rightarrow> string \<Rightarrow> host_key list \<Rightarrow> string \<Rightarrow> rerror" where
  "changed_error w name ts offer = Host_Key_Changed name (map (describe_key w) ts) offer"

definition settle_key :: "ssh_world \<Rightarrow> conn \<Rightarrow> string \<Rightarrow> host_key list \<Rightarrow> bool \<Rightarrow> bool \<Rightarrow> unit ssh" where
  "settle_key w cn name ts reinstalled rec =
     (if ts = [] then whenS rec (record_key w name (cn_key cn))
      else if key_trusted ts (cn_key cn) then ret ()
      else if \<not> reinstalled then
        thenS (did (Closed cn)) (raise (changed_error w name ts (describe_key w (cn_key cn))))
      else whenS rec (thenS (forget w name) (record_key w name (cn_key cn))))"

definition transport :: "ssh_world \<Rightarrow> string \<Rightarrow> int \<Rightarrow> bool \<Rightarrow> bool \<Rightarrow> conn ssh" where
  "transport w host port reinstalled rec =
     (let name = known_name host port in
      bindS (getS (\<lambda>s. trusted w (st_known s) name)) (\<lambda>ts.
      bindS (getS st_done) (\<lambda>h. case rw_dial w h host port of
        Some e \<Rightarrow> thenS (did (Dialled host port)) (raise (Unreachable (''nothing answers SSH at '' @ name @ '': '' @ e)))
      | None \<Rightarrow>
          thenS (did (Dialled host port))
         (bindS (getS st_done) (\<lambda>h. let types = usable_types w ts reinstalled in
          case rw_start w h host port types of
            Inl e \<Rightarrow> thenS (did (Negotiated host port types))
              (raise (if ts \<noteq> [] \<and> \<not> reinstalled then changed_error w name ts ''none of the trusted key types''
                      else Remote_Error (name @ '': SSH negotiation failed: '' @ e)))
          | Inr key \<Rightarrow> (let cn = \<lparr>cn_host = host, cn_port = port, cn_key = key\<rparr> in
              thenS (did (Negotiated host port types)) (thenS (settle_key w cn name ts reinstalled rec) (ret cn))))))))"

text \<open>\<open>changed\<close>: the keys trusted and the one offered, when it is another.\<close>

definition changed :: "ssh_world \<Rightarrow> string \<Rightarrow> int \<Rightarrow> (string list \<times> string) ssh" where
  "changed w host port =
     catchS (bindS (transport w host port False False) (\<lambda>cn. thenS (did (Closed cn)) (ret ([], []))))
       (\<lambda>e. case e of Host_Key_Changed n ts offer \<Rightarrow> Some (ret (ts, offer))
          | _ \<Rightarrow> if is_remote e then Some (ret ([], [])) else None)"

section \<open>Logging in\<close>

definition load_key :: "ssh_world \<Rightarrow> string \<Rightarrow> unit ssh" where
  "load_key w path = (case rw_load w path of
      Usable \<Rightarrow> ret ()
    | Locked \<Rightarrow> raise (Remote_Error (path @ '' is protected by a passphrase; the installer logs in unattended and needs a key without one''))
    | Unreadable e \<Rightarrow> raise (Remote_Error (''cannot read the private key '' @ path @ '': '' @ e)))"

record session =
  se_conn :: conn
  se_user :: string

definition se_host :: "session \<Rightarrow> string" where "se_host se = cn_host (se_conn se)"

definition close_session :: "session \<Rightarrow> unit ssh" where "close_session se = did (Closed (se_conn se))"

definition key_login :: "ssh_world \<Rightarrow> conn \<Rightarrow> string \<Rightarrow> string \<Rightarrow> session ssh" where
  "key_login w cn user key =
     thenS (on_error (load_key w key) (did (Closed cn)))
    (bindS (getS st_done) (\<lambda>h. let r = rw_auth_key w h cn user key in
     thenS (did (Key_Offered cn user key))
       (case r of
          Accepted \<Rightarrow> ret \<lparr>se_conn = cn, se_user = user\<rparr>
        | Denied \<Rightarrow> thenS (did (Closed cn)) (raise (Auth_Refused (user @ ''@'' @ cn_host cn @ '' refused the key '' @ key)))
        | Ssh_Fault e \<Rightarrow> thenS (did (Closed cn)) (raise (Ssh_Error e)))))"

definition connect_key :: "ssh_world \<Rightarrow> string \<Rightarrow> int \<Rightarrow> string \<Rightarrow> string \<Rightarrow> bool \<Rightarrow> bool \<Rightarrow> session ssh" where
  "connect_key w host port user key reinstalled rec =
     bindS (transport w host port reinstalled rec) (\<lambda>cn. key_login w cn user key)"

section \<open>Commands and files\<close>

text \<open>
  The lines of a command's output as the chunks arrive: a line is passed on when its line feed has
  come, the rest waits (\<open>pending\<close>). \<open>rstrip("\r")\<close> after the decoding.
\<close>

definition strip_cr :: "string \<Rightarrow> string" where "strip_cr s = rstrip_by (\<lambda>c. c = CHR 0x0D) s"

fun chunk_lines :: "string \<Rightarrow> string list \<Rightarrow> string list" where
  "chunk_lines pending [] = (if pending = [] then [] else [pending])"
| "chunk_lines pending (c # cs) =
     (let parts = split_char (CHR 0x0A) (pending @ c) in butlast parts @ chunk_lines (last parts) cs)"

definition output_lines :: "ssh_world \<Rightarrow> string list \<Rightarrow> string list" where
  "output_lines w chunks = map (\<lambda>l. strip_cr (rw_decode w l)) (chunk_lines [] chunks)"

text \<open>The lines a command printed and how it ended; a loss is raised after the lines that came.\<close>

definition session_run :: "ssh_world \<Rightarrow> session \<Rightarrow> string \<Rightarrow> (string list \<times> ending) ssh" where
  "session_run w se command = bindS (getS st_done) (\<lambda>h. let r = rw_output w h (se_conn se) command in
     thenS (did (Ran (se_conn se) command))
       (ret (output_lines w (fst r), snd r)))"

definition lost_error :: "session \<Rightarrow> rerror" where
  "lost_error se = Remote_Error (''the connection to '' @ se_host se @ '' was lost while a command was running'')"

definition ended :: "session \<Rightarrow> ending \<Rightarrow> int ssh" where
  "ended se e = (case e of Exit rc \<Rightarrow> ret rc | Lost \<Rightarrow> raise (lost_error se) | Broken m \<Rightarrow> raise (Ssh_Error m))"

definition session_output :: "ssh_world \<Rightarrow> session \<Rightarrow> string \<Rightarrow> (int \<times> string) ssh" where
  "session_output w se command = bindS (session_run w se command) (\<lambda>(ls, e).
     bindS (ended se e) (\<lambda>rc. ret (rc, join nl ls)))"

text \<open>\<open>shlex.quote\<close> and \<open>shlex.join\<close>.\<close>

definition shell_safe :: "char \<Rightarrow> bool" where
  "shell_safe c = (is_alnum c \<or> c \<in> set ''_@%+=:,./-'')"

definition shell_quote :: "string \<Rightarrow> string" where
  "shell_quote s =
     (if s = [] then [CHR 0x27, CHR 0x27]
      else if list_all shell_safe s then s
      else CHR 0x27 # concat (map (\<lambda>c. if c = CHR 0x27 then [CHR 0x27, CHR 0x22, CHR 0x27, CHR 0x22, CHR 0x27] else [c]) s) @ [CHR 0x27])"

definition shell_join :: "string list \<Rightarrow> string" where
  "shell_join ws = join '' '' (map shell_quote ws)"

fun send_files :: "ssh_world \<Rightarrow> session \<Rightarrow> string \<Rightarrow> (string \<times> string) list \<Rightarrow> unit ssh" where
  "send_files w se dir [] = ret ()"
| "send_files w se dir ((name, content) # fs) =
     bindS (getS st_done) (\<lambda>h.
       let command = ''umask 077 && cat > '' @ shell_quote (dir @ ''/'' @ name); rc = rw_status w h (se_conn se) command content in
       thenS (did (Sent_File (se_conn se) (dir @ ''/'' @ name) content))
         (if rc \<noteq> 0 then raise (Remote_Error (''cannot write '' @ name @ '' into '' @ dir)) else send_files w se dir fs))"

definition upload :: "ssh_world \<Rightarrow> session \<Rightarrow> (string \<times> string) list \<Rightarrow> string ssh" where
  "upload w se files =
     bindS (session_output w se ''mktemp -d /tmp/catena-install.XXXXXX'') (\<lambda>(rc, out).
       if rc \<noteq> 0 then raise (Remote_Error (''cannot create an upload directory: '' @ out))
       else case splitlines (strip out) of
         [] \<Rightarrow> raise (Other_Error ''list index out of range'')
       | l # ls \<Rightarrow> (let dir = last (l # ls) in thenS (send_files w se dir files) (ret dir)))"

section \<open>The terminal\<close>

text \<open>The patterns of the prompts: a character of a class, any run within a line, an optional character.\<close>

datatype pat = One string | Star | Maybe char

definition lit :: "string \<Rightarrow> pat list" where "lit s = map (\<lambda>c. One [c]) s"

fun pmatch :: "pat list \<Rightarrow> string \<Rightarrow> string option" where
  "pmatch [] s = Some s"
| "pmatch (One cs # ps) [] = None"
| "pmatch (One cs # ps) (c # s) = (if c \<in> set cs then pmatch ps s else None)"
| "pmatch (Maybe d # ps) [] = pmatch ps []"
| "pmatch (Maybe d # ps) (c # s) =
     (case (if c = d then pmatch ps s else None) of Some r \<Rightarrow> Some r | None \<Rightarrow> pmatch ps (c # s))"
| "pmatch (Star # ps) [] = pmatch ps []"
| "pmatch (Star # ps) (c # s) =
     (case (if c = CHR 0x0A then None else pmatch (Star # ps) s) of Some r \<Rightarrow> Some r | None \<Rightarrow> pmatch ps (c # s))"

text \<open>\<open>re.search\<close>: where the first match starts, and the text after it.\<close>

fun psearch :: "pat list \<Rightarrow> nat \<Rightarrow> string \<Rightarrow> (nat \<times> string) option" where
  "psearch ps i s = (case pmatch ps s of Some r \<Rightarrow> Some (i, r)
     | None \<Rightarrow> (case s of [] \<Rightarrow> None | c # t \<Rightarrow> psearch ps (Suc i) t))"

definition CHANGE_WARNINGS :: "pat list list" where
  "CHANGE_WARNINGS = [lit ''required to change your password'', One ''Pp'' # lit ''assword has expired'',
     lit ''must change your password'', lit ''Changing password for'']"

definition CURRENT_PW :: "pat list list" where
  "CURRENT_PW = [One ''Cc'' # lit ''urrent'' @ Star # lit ''password:'', lit ''UNIX password:'']"

definition NEW_PW :: "pat list list" where
  "NEW_PW = [One ''Nn'' # lit ''ew password:'', One ''Nn'' # lit ''ew UNIX password:'']"

definition RETYPE_PW :: "pat list list" where
  "RETYPE_PW = [One ''Rr'' # lit ''etype new password:'', One ''Rr'' # lit ''e'' @ Maybe (CHR ''-'') # lit ''enter new password:'']"

text \<open>The pattern found earliest, the first of them when two start together, and what is left unread.\<close>

fun earliest :: "nat \<Rightarrow> pat list list \<Rightarrow> string \<Rightarrow> (nat \<times> nat \<times> string) option" where
  "earliest i [] buf = None"
| "earliest i (p # ps) buf = (case (psearch p 0 buf, earliest (Suc i) ps buf) of
      (None, r) \<Rightarrow> r
    | (Some (a, rest), None) \<Rightarrow> Some (a, i, rest)
    | (Some (a, rest), Some (b, j, rest')) \<Rightarrow> if a \<le> b then Some (a, i, rest) else Some (b, j, rest'))"

datatype waited = Found nat string | Late string | Shut string

fun expect_loop :: "pat list list \<Rightarrow> string \<Rightarrow> poll list \<Rightarrow> waited" where
  "expect_loop ps buf [] = (case earliest 0 ps buf of Some (_, i, rest) \<Rightarrow> Found i rest | None \<Rightarrow> Late buf)"
| "expect_loop ps buf (q # qs) = (case earliest 0 ps buf of
      Some (_, i, rest) \<Rightarrow> Found i rest
    | None \<Rightarrow> (case q of Data d \<Rightarrow> expect_loop ps (buf @ d) qs | Ended \<Rightarrow> Shut buf | Waiting \<Rightarrow> expect_loop ps buf qs))"

definition expect :: "ssh_world \<Rightarrow> conn \<Rightarrow> pat list list \<Rightarrow> nat ssh" where
  "expect w cn ps s =
     (let s' = s\<lparr>st_done := st_done s @ [Waited cn]\<rparr> in
      case expect_loop ps (st_buffer s) (rw_polls w (st_done s) cn) of
        Found i rest \<Rightarrow> (Inr i, s'\<lparr>st_buffer := rest\<rparr>)
      | Late buf \<Rightarrow> (Inl Timed_Out, s'\<lparr>st_buffer := buf\<rparr>)
      | Shut buf \<Rightarrow> (Inl Shell_Closed, s'\<lparr>st_buffer := buf\<rparr>))"

definition type_line :: "conn \<Rightarrow> string \<Rightarrow> unit ssh" where
  "type_line cn line = did (Typed cn line)"

definition marker :: "string \<Rightarrow> pat list" where
  "marker token = lit (''__CATENA_'' @ token @ ''__'') @ [Maybe (CHR 0x0D), One nl]"

definition term_run :: "ssh_world \<Rightarrow> conn \<Rightarrow> string \<Rightarrow> unit ssh" where
  "term_run w cn command = bindS (getS (\<lambda>s. rw_token w (st_done s))) (\<lambda>token.
     thenS (type_line cn (command @ ''; echo __CATENA_'' @ [CHR 0x27, CHR 0x27] @ token @ ''__''))
    (thenS (expect w cn [marker token]) (ret ())))"

definition term_sync :: "ssh_world \<Rightarrow> conn \<Rightarrow> unit ssh" where
  "term_sync w cn = thenS (type_line cn []) (term_run w cn '':'')"

definition PW_ALPHABET :: string where
  "PW_ALPHABET = ''abcdefghijklmnopqrstuvwxyzABCDEFGHIJKLMNOPQRSTUVWXYZ0123456789!@#%^&*_+-=''"

definition random_password :: "ssh_world \<Rightarrow> action list \<Rightarrow> string" where
  "random_password w h = map (\<lambda>i. PW_ALPHABET ! (rw_draw w h i mod length PW_ALPHABET)) [0..<24]"

definition password_login :: "ssh_world \<Rightarrow> conn \<Rightarrow> string \<Rightarrow> string \<Rightarrow> conn ssh" where
  "password_login w cn user password =
     bindS (getS st_done) (\<lambda>h. let r = rw_auth_password w h cn user password in
     thenS (did (Password_Offered cn user password))
       (case r of
          Accepted \<Rightarrow> thenS (did (Shell_Opened cn)) (thenS (modS (\<lambda>s. s\<lparr>st_buffer := []\<rparr>)) (ret cn))
        | Denied \<Rightarrow> thenS (did (Closed cn)) (raise (Auth_Refused (user @ ''@'' @ cn_host cn @ '' refused the password'')))
        | Ssh_Fault e \<Rightarrow> raise (Ssh_Error e)))"

definition password_shell :: "ssh_world \<Rightarrow> string \<Rightarrow> int \<Rightarrow> string \<Rightarrow> string \<Rightarrow> bool \<Rightarrow> bool \<Rightarrow> conn ssh" where
  "password_shell w host port user password reinstalled rec =
     bindS (transport w host port reinstalled rec) (\<lambda>cn. password_login w cn user password)"

datatype change = Nothing_Asked | Asks_Current | Asks_New

definition change_prompt :: "ssh_world \<Rightarrow> conn \<Rightarrow> change ssh" where
  "change_prompt w cn =
     bindS (catchS (bindS (expect w cn (CHANGE_WARNINGS @ CURRENT_PW @ NEW_PW)) (\<lambda>i. ret (Some i)))
              (\<lambda>e. if e = Timed_Out then Some (ret None) else None)) (\<lambda>r.
     case r of
       None \<Rightarrow> ret Nothing_Asked
     | Some i \<Rightarrow>
         bindS (if i < length CHANGE_WARNINGS
                then bindS (expect w cn (CURRENT_PW @ NEW_PW)) (\<lambda>j. ret (length CHANGE_WARNINGS + j)) else ret i) (\<lambda>k.
         ret (if k < length CHANGE_WARNINGS + length CURRENT_PW then Asks_Current else Asks_New)))"

text \<open>The exceptions of a silent or closed shell.\<close>

definition stalled :: "rerror \<Rightarrow> bool" where "stalled e = (e = Timed_Out \<or> e = Shell_Closed)"

definition check_password :: "ssh_world \<Rightarrow> string \<Rightarrow> int \<Rightarrow> string \<Rightarrow> string \<Rightarrow> bool \<Rightarrow> (bool \<times> string) ssh" where
  "check_password w host port user password reinstalled =
     bindS (catchS (bindS (password_shell w host port user password reinstalled False) (\<lambda>cn. ret (Some cn)))
              (\<lambda>e. case e of Auth_Refused m \<Rightarrow> Some (ret None) | _ \<Rightarrow> None)) (\<lambda>r.
     case r of
       None \<Rightarrow> ret (False, user @ ''@'' @ host @ '' refused the password'')
     | Some cn \<Rightarrow>
         finallyS (catchS (bindS (change_prompt w cn) (\<lambda>c.
             if c \<noteq> Nothing_Asked then ret (True, ''the password opens '' @ user @ ''@'' @ host
               @ ''; the server asks for a new one at first login, which the install sets'')
             else thenS (term_sync w cn) (ret (True, ''the password opens '' @ user @ ''@'' @ host))))
           (\<lambda>e. if stalled e then Some (ret (False, ''no answer from '' @ user @ ''@'' @ host)) else None))
         (did (Closed cn)))"

definition key_commands :: "string \<Rightarrow> string \<Rightarrow> string \<Rightarrow> string list" where
  "key_commands keyfile home public_line =
     [''echo '' @ shell_quote public_line @ '' > '' @ keyfile,
      ''install -d -m 700 '' @ home @ ''/.ssh'',
      ''grep -qxF '' @ [CHR 0x22] @ ''$(cat '' @ keyfile @ '')'' @ [CHR 0x22] @ '' '' @ home @ ''/.ssh/authorized_keys 2>/dev/null''
        @ '' || cat '' @ keyfile @ '' >> '' @ home @ ''/.ssh/authorized_keys'',
      ''chmod 600 '' @ home @ ''/.ssh/authorized_keys'',
      ''rm -f '' @ keyfile]"

fun term_run_all :: "ssh_world \<Rightarrow> conn \<Rightarrow> string list \<Rightarrow> unit ssh" where
  "term_run_all w cn [] = ret ()"
| "term_run_all w cn (c # cs) = thenS (term_run w cn c) (term_run_all w cn cs)"

definition append_key :: "ssh_world \<Rightarrow> conn \<Rightarrow> string \<Rightarrow> string \<Rightarrow> unit ssh" where
  "append_key w cn user public_line = bindS (getS (\<lambda>s. rw_token w (st_done s))) (\<lambda>token.
     thenS (term_run_all w cn (key_commands (''/tmp/.catena-key-'' @ token) (if user = ''root'' then ''/root'' else ''~'') public_line))
       (type_line cn ''exit''))"

text \<open>
  One turn of \<open>install_key_with_password\<close> on an open shell: done, or the password to log in with again
  after a change that ended the session.
\<close>

definition answer_change :: "ssh_world \<Rightarrow> conn \<Rightarrow> string \<Rightarrow> change \<Rightarrow> string ssh" where
  "answer_change w cn password c =
     thenS (whenS (c = Asks_Current) (thenS (type_line cn password) (thenS (expect w cn NEW_PW) (ret ()))))
    (bindS (getS (\<lambda>s. random_password w (st_done s))) (\<lambda>fresh.
     thenS (type_line cn fresh) (thenS (expect w cn RETYPE_PW) (thenS (type_line cn fresh) (ret fresh)))))"

definition key_turn :: "ssh_world \<Rightarrow> conn \<Rightarrow> string \<Rightarrow> string \<Rightarrow> string \<Rightarrow> string option ssh" where
  "key_turn w cn user password public_line =
     bindS (change_prompt w cn) (\<lambda>c.
       if c = Nothing_Asked then thenS (term_sync w cn) (thenS (append_key w cn user public_line) (ret None))
       else bindS (answer_change w cn password c) (\<lambda>fresh.
         bindS (catchS (thenS (term_sync w cn) (ret True)) (\<lambda>e. if stalled e then Some (ret False) else None)) (\<lambda>open_still.
           if open_still then thenS (append_key w cn user public_line) (ret None) else ret (Some fresh))))"

fun key_turns :: "nat \<Rightarrow> ssh_world \<Rightarrow> string \<Rightarrow> int \<Rightarrow> string \<Rightarrow> string \<Rightarrow> string \<Rightarrow> bool \<Rightarrow> unit ssh" where
  "key_turns 0 w host port user password public_line reinstalled =
     raise (Remote_Error (user @ ''@'' @ host @ '' kept asking for a new password''))"
| "key_turns (Suc n) w host port user password public_line reinstalled =
     bindS (password_shell w host port user password reinstalled True) (\<lambda>cn.
     bindS (finallyS (catchS (key_turn w cn user password public_line)
              (\<lambda>e. if stalled e then Some (raise (Remote_Error (''the session as '' @ user @ ''@'' @ host @ '' stopped answering''))) else None))
            (did (Closed cn))) (\<lambda>r.
     case r of None \<Rightarrow> ret () | Some fresh \<Rightarrow> key_turns n w host port user fresh public_line reinstalled))"

definition install_key_with_password :: "ssh_world \<Rightarrow> string \<Rightarrow> int \<Rightarrow> string \<Rightarrow> string \<Rightarrow> string \<Rightarrow> bool \<Rightarrow> unit ssh" where
  "install_key_with_password = key_turns 2"

end
