(* ===== verification/Server_Install.thy ===== *)
theory Server_Install
  imports Ssh_Remote Seed_Env
begin

text \<open>
  The install of a server from this machine: \<open>src/installer/catena_installer/install.py\<close>, the key pair of
  \<open>keys.py\<close> it reads, and the checks from outside of \<open>checks.py\<close>. The files of this machine, the YAML and
  JSON libraries, the clock and what answers a connection are parameters (\<open>box\<close>).
\<close>

section \<open>This machine\<close>

record box =
  bx_env :: "string option"
  bx_hosts :: "py option"
  bx_expand :: "string \<Rightarrow> string"
  bx_default_key :: string
  bx_public :: "string \<Rightarrow> string option"
  bx_starter :: string
  bx_fetcher :: "(string \<times> string) list"
  bx_read :: "string \<Rightarrow> string option"
  bx_yaml_dump :: "(string \<times> string) list \<Rightarrow> string"
  bx_json :: "string \<Rightarrow> py option"
  bx_json_dump :: "py \<Rightarrow> string"
  bx_now :: string
  bx_reaches :: "string \<Rightarrow> int \<Rightarrow> bool"
  bx_keyset :: "string list \<Rightarrow> string option"

subsection \<open>Keys\<close>

text \<open>\<open>keys.public_line\<close>.\<close>

definition public_line :: "box \<Rightarrow> string \<Rightarrow> string ssh" where
  "public_line b private = (case bx_public b (private @ ''.pub'') of
      None \<Rightarrow> raise (Key_Pair_Error (''cannot read '' @ private @ ''.pub''))
    | Some t \<Rightarrow> (case splitlines (strip t) of [] \<Rightarrow> raise (Key_Pair_Error (''cannot read '' @ private @ ''.pub'')) | l # _ \<Rightarrow> ret l))"

section \<open>The inventory's server\<close>

definition REPOSITORY :: string where "REPOSITORY = ''ghcr.io/catenahq/catena-admin''"
definition KEYSET_BEGIN :: string where "KEYSET_BEGIN = ''-----BEGIN CATENA PASSWORDS-----''"
definition KEYSET_END :: string where "KEYSET_END = ''-----END CATENA PASSWORDS-----''"
definition PANEL_PORT :: int where "PANEL_PORT = 9010"
definition PANEL_USER :: string where "PANEL_USER = ''panel''"
definition VALIDATION_FAILED :: int where "VALIDATION_FAILED = 3"

record server =
  sv_dir :: string
  sv_name :: string
  sv_host :: string
  sv_port :: int
  sv_initial :: string
  sv_ops :: string
  sv_key :: string
  sv_public_ip :: string
  sv_source :: string

definition lift_flt :: "'a flt \<Rightarrow> 'a ssh" where
  "lift_flt r = (case r of Inl e \<Rightarrow> raise (Other_Error ''exception'') | Inr x \<Rightarrow> ret x)"

text \<open>\<open>_vps_host\<close>: the first host of the group and its literal address.\<close>

definition host_address :: "string \<times> py \<Rightarrow> (string \<times> string) flt" where
  "host_address h = bindR (get_or (snd h) ''ansible_host'') (\<lambda>v.
     let address = str_or v in
     Inr (fst h, if address = ''0.0.0.0'' \<or> contains ''{{'' address then [] else address))"

definition vps_host :: "box \<Rightarrow> (string \<times> string) flt" where
  "vps_host b = (case bx_hosts b of
      None \<Rightarrow> Inr ([], [])
    | Some doc \<Rightarrow>
        bindR (get_or doc ''all'') (\<lambda>a. bindR (get_or a ''children'') (\<lambda>c. bindR (get_or c ''vps'') (\<lambda>v. bindR (get_or v ''hosts'') (\<lambda>hs.
          if \<not> truthy hs then Inr ([], [])
          else case hs of PDict (h # _) \<Rightarrow> host_address h | PDict [] \<Rightarrow> Inr ([], []) | _ \<Rightarrow> Inl Attribute_Error)))))"

text \<open>\<open>(env.get(k) or "").strip()\<close>, and the same with a default.\<close>

definition env_text :: "(string \<times> string) list \<Rightarrow> string \<Rightarrow> string" where
  "env_text env k = (case map_of env k of None \<Rightarrow> [] | Some v \<Rightarrow> strip v)"

definition env_or :: "(string \<times> string) list \<Rightarrow> string \<Rightarrow> string \<Rightarrow> string" where
  "env_or env k dflt = (if env_text env k = [] then dflt else env_text env k)"

definition dir_name :: "string \<Rightarrow> string" where
  "dir_name d = rev (takeWhile (\<lambda>c. c \<noteq> CHR ''/'') (rev d))"

definition address_of :: "string \<Rightarrow> string \<Rightarrow> string \<Rightarrow> (string \<times> string) list \<Rightarrow> string \<Rightarrow> string \<times> string" where
  "address_of inv_dir address listed env name =
     (if address \<noteq> [] then (address, ''--address'')
      else if listed \<noteq> [] then (listed, ''the ansible_host of '' @ name @ '' in '' @ inv_dir @ ''/hosts.yml'')
      else if env_text env ''HOST_SSH_ADDRESS'' \<noteq> [] then (env_text env ''HOST_SSH_ADDRESS'', ''HOST_SSH_ADDRESS in '' @ inv_dir @ ''/.env'')
      else if env_text env ''HOST_PUBLIC_IP'' \<noteq> [] then (env_text env ''HOST_PUBLIC_IP'', ''HOST_PUBLIC_IP in '' @ inv_dir @ ''/.env'')
      else ([], []))"

definition key_of :: "box \<Rightarrow> (string \<times> string) list \<Rightarrow> string" where
  "key_of b env = bx_expand b (case map_of env ''SSH_PRIVATE_KEY'' of
      None \<Rightarrow> bx_default_key b | Some v \<Rightarrow> if v = [] then bx_default_key b else v)"

definition server_of :: "box \<Rightarrow> string \<Rightarrow> string \<Rightarrow> server ssh" where
  "server_of b inv_dir address = (case bx_env b of
      None \<Rightarrow> raise (Os_Error ''no .env'')
    | Some t \<Rightarrow>
        (let env = read_existing_env t in
         bindS (lift_flt (vps_host b)) (\<lambda>(listed_name, listed).
         let name = (if listed_name = [] then dir_name inv_dir @ ''1'' else listed_name);
             found = address_of inv_dir address listed env name in
         case py_int (env_or env ''HOST_SSH_PORT'' ''22'') of
           None \<Rightarrow> raise (Other_Error ''invalid literal for int()'')
         | Some port \<Rightarrow> ret \<lparr>sv_dir = inv_dir, sv_name = name, sv_host = fst found, sv_port = port,
             sv_initial = env_or env ''HOST_INITIAL_USER'' ''root'', sv_ops = env_or env ''OPS_USER'' ''ops'',
             sv_key = key_of b env, sv_public_ip = env_text env ''HOST_PUBLIC_IP'', sv_source = snd found\<rparr>)))"

fun error_text :: "rerror \<Rightarrow> string" where
  "error_text (Remote_Error m) = m"
| "error_text (Unreachable m) = m"
| "error_text (Auth_Refused m) = m"
| "error_text (Host_Key_Changed n ts offer) = n @ '' presents another host key than the one this machine trusts for it (trusted: ''
     @ join '', '' ts @ ''; offered: '' @ offer @ ''). A reinstalled server presents a new key; if this one was not reinstalled, another machine may be answering at this address.''"
| "error_text (Password_Needed m) = m"
| "error_text (Key_Pair_Error m) = m"
| "error_text (Os_Error m) = m"
| "error_text (Ssh_Error m) = m"
| "error_text Called_Process_Error = ''ssh-keygen failed''"
| "error_text Timed_Out = ''timed out''"
| "error_text Shell_Closed = ''the shell closed''"
| "error_text (Other_Error m) = m"

definition explain :: "server \<Rightarrow> rerror \<Rightarrow> string" where
  "explain sv e = (case e of Unreachable m \<Rightarrow> m @ '' (address from '' @ sv_source sv @ '')'' | _ \<Rightarrow> error_text e)"

section \<open>The output\<close>

definition out_line :: "string \<Rightarrow> unit ssh" where
  "out_line l = modS (\<lambda>s. s\<lparr>st_printed := st_printed s @ [l]\<rparr>)"

definition feed :: "box \<Rightarrow> string \<Rightarrow> unit ssh" where
  "feed b l = bindS (getS st_block) (\<lambda>blk.
     if l = KEYSET_BEGIN then modS (\<lambda>s. s\<lparr>st_block := Some []\<rparr>)
     else case blk of
       None \<Rightarrow> out_line l
     | Some ls \<Rightarrow>
         if l = KEYSET_END then
           (case bx_keyset b ls of
              Some m \<Rightarrow> raise (Other_Error m)
            | None \<Rightarrow> modS (\<lambda>s. s\<lparr>st_keysets := st_keysets s @ [ls], st_block := None\<rparr>))
         else modS (\<lambda>s. s\<lparr>st_block := Some (ls @ [l])\<rparr>))"

fun feed_all :: "box \<Rightarrow> string list \<Rightarrow> unit ssh" where
  "feed_all b [] = ret ()"
| "feed_all b (l # ls) = thenS (feed b l) (feed_all b ls)"

section \<open>Logging in\<close>

record options =
  op_release :: string
  op_image :: string
  op_ca_file :: string
  op_insecure :: bool
  op_address :: string
  op_tags :: string
  op_reinstalled :: bool
  op_keyset_json :: bool
  op_password :: string
  op_adopt :: "(string \<times> string) list"
  op_outside :: bool

fun try_users :: "ssh_world \<Rightarrow> server \<Rightarrow> bool \<Rightarrow> string list \<Rightarrow> string list \<Rightarrow> (string list + session) ssh" where
  "try_users w sv reinstalled refused [] = ret (Inl refused)"
| "try_users w sv reinstalled refused (u # us) =
     bindS (catchS (bindS (connect_key w (sv_host sv) (sv_port sv) u (sv_key sv) reinstalled True) (\<lambda>se. ret (Inr se)))
              (\<lambda>e. case e of Auth_Refused m \<Rightarrow> Some (ret (Inl m)) | _ \<Rightarrow> None)) (\<lambda>r.
     case r of Inr se \<Rightarrow> ret (Inr se) | Inl m \<Rightarrow> try_users w sv reinstalled (refused @ [m]) us)"

fun connect_attempts :: "nat \<Rightarrow> ssh_world \<Rightarrow> server \<Rightarrow> string \<Rightarrow> session ssh" where
  "connect_attempts 0 w sv user = raise (Other_Error ''unreachable'')"
| "connect_attempts (Suc n) w sv user =
     bindS (catchS (bindS (connect_key w (sv_host sv) (sv_port sv) user (sv_key sv) False True) (\<lambda>se. ret (Some se)))
              (\<lambda>e. case e of Auth_Refused m \<Rightarrow> (if n = 0 then None else Some (thenS (did Slept) (ret None))) | _ \<Rightarrow> None)) (\<lambda>r.
     case r of Some se \<Rightarrow> ret se | None \<Rightarrow> connect_attempts n w sv user)"

definition connect_retrying :: "ssh_world \<Rightarrow> server \<Rightarrow> string \<Rightarrow> session ssh" where
  "connect_retrying = connect_attempts 5"

definition login :: "ssh_world \<Rightarrow> box \<Rightarrow> server \<Rightarrow> options \<Rightarrow> session ssh" where
  "login w b sv op =
     bindS (try_users w sv (op_reinstalled op) [] (first_seen [sv_ops sv, sv_initial sv])) (\<lambda>r. case r of
       Inr se \<Rightarrow> ret se
     | Inl refused \<Rightarrow>
         if op_password op = [] then
           raise (Password_Needed (join ''; '' refused @ '', and no provider password was given to add the key to ''
             @ sv_initial sv @ ''@'' @ sv_host sv @ '' with''))
         else
           thenS (out_line (''catena-installer: adding '' @ sv_key sv @ ''.pub to '' @ sv_initial sv @ ''@'' @ sv_host sv @ '' with the provider's password''))
          (bindS (public_line b (sv_key sv)) (\<lambda>pub.
           thenS (install_key_with_password w (sv_host sv) (sv_port sv) (sv_initial sv) (op_password op) pub (op_reinstalled op))
                 (connect_retrying w sv (sv_initial sv)))))"

section \<open>A leg\<close>

datatype leg = Accounts | System | Uninstall

fun leg_name :: "leg \<Rightarrow> string" where
  "leg_name Accounts = ''accounts''"
| "leg_name System = ''system''"
| "leg_name Uninstall = ''uninstall''"

definition fetches :: "leg \<Rightarrow> bool" where "fetches l = (l \<noteq> System)"

definition leg_files :: "box \<Rightarrow> server \<Rightarrow> options \<Rightarrow> leg \<Rightarrow> (string \<times> string) list ssh" where
  "leg_files b sv op l = (case bx_env b of
      None \<Rightarrow> raise (Os_Error ''no .env'')
    | Some env \<Rightarrow> bindS (public_line b (sv_key sv)) (\<lambda>pub.
        let base = [(''starter.sh'', bx_starter b), (''env'', env), (''ops.pub'', pub @ nl)];
            fetched = (if fetches l then foldl (\<lambda>fs f. AList.update (fst f) (snd f) fs) base (bx_fetcher b) else base) in
        bindS (if fetches l \<and> op_ca_file op \<noteq> [] then
                 (case bx_read b (bx_expand b (op_ca_file op)) of
                    None \<Rightarrow> raise (Os_Error ''no CA file'') | Some ca \<Rightarrow> ret (AList.update ''ca.crt'' ca fetched))
               else ret fetched) (\<lambda>fs.
        ret (if l = System \<and> op_adopt op \<noteq> [] then AList.update ''adopt.yml'' (bx_yaml_dump b (op_adopt op)) fs else fs))))"

definition starter_fetch_args :: "options \<Rightarrow> leg \<Rightarrow> string \<Rightarrow> string list" where
  "starter_fetch_args op l dir =
     (if \<not> fetches l then [''--no-fetch'']
      else [''--repository'', REPOSITORY]
        @ (if op_image op \<noteq> [] then [''--image'', op_image op] else if op_release op \<noteq> [] then [''--release'', op_release op] else [])
        @ (if op_ca_file op \<noteq> [] then [''--ca-file'', dir @ ''/ca.crt''] else [])
        @ (if op_insecure op then [''--insecure-http''] else []))"

definition host_args :: "server \<Rightarrow> options \<Rightarrow> leg \<Rightarrow> string \<Rightarrow> (string \<times> string) list \<Rightarrow> string list" where
  "host_args sv op l dir files =
     [''--leg'', leg_name l, ''--name'', sv_name sv, ''--ops-user'', sv_ops sv, ''--ops-key'', dir @ ''/ops.pub'',
      ''--env-file'', dir @ ''/env'', ''--address'', sv_host sv]
     @ (if ''adopt.yml'' \<in> fst ` set files then [''--adopt-file'', dir @ ''/adopt.yml''] else [])
     @ (if l = System \<and> op_tags op \<noteq> [] then [''--tags'', op_tags op] else [])
     @ (if l = System \<and> op_keyset_json op then [''--keyset-json''] else [])"

definition leg_command :: "session \<Rightarrow> string list \<Rightarrow> string list \<Rightarrow> leg \<Rightarrow> string \<Rightarrow> string" where
  "leg_command se fetch host l dir =
     (if se_user se = ''root'' then [] else ''sudo -n '') @ ''bash '' @ shell_quote (dir @ ''/starter.sh'') @ '' ''
     @ shell_join fetch @ '' -- '' @ shell_join host
     @ (if l = System then '' --session '' @ [CHR 0x22] @ ''$SSH_CONNECTION'' @ [CHR 0x22] else [])"

text \<open>The console's uninstall passes every line on as it is; an install's go through \<open>feed\<close>.\<close>

definition pass_lines :: "box \<Rightarrow> leg \<Rightarrow> string list \<Rightarrow> unit ssh" where
  "pass_lines b l ls = (if l = Uninstall then modS (\<lambda>s. s\<lparr>st_printed := st_printed s @ ls\<rparr>) else feed_all b ls)"

definition run_leg :: "ssh_world \<Rightarrow> box \<Rightarrow> session \<Rightarrow> server \<Rightarrow> options \<Rightarrow> leg \<Rightarrow> int ssh" where
  "run_leg w b se sv op l =
     bindS (leg_files b sv op l) (\<lambda>files.
     bindS (upload w se files) (\<lambda>dir.
     finallyS
       (bindS (session_run w se (leg_command se (starter_fetch_args op l dir) (host_args sv op l dir files) l dir)) (\<lambda>(ls, e).
          thenS (pass_lines b l ls) (ended se e)))
       (bindS (session_run w se (''rm -rf '' @ shell_quote dir)) (\<lambda>(ls, e). thenS (ended se e) (ret ())))))"

section \<open>The checks from outside\<close>

definition SUMMARY :: string where "SUMMARY = ''/etc/catena/public-ports.summary.json''"
definition RECORD :: string where "RECORD = ''/var/lib/catena/port-scan.json''"
definition NETWORK :: string where "NETWORK = ''catena-network''"

text \<open>The blocks \<open>ipaddress\<close> counts as private, loopback, link-local or unspecified, and the exceptions within them (Python 3.12).\<close>

definition SPECIAL_NETS :: "net list" where
  "SPECIAL_NETS =
     [Net 4 0 8, Net 4 167772160 8, Net 4 2130706432 8, Net 4 2851995648 16, Net 4 2886729728 12, Net 4 3221225472 24,
      Net 4 3221225642 31, Net 4 3221225984 24, Net 4 3232235520 16, Net 4 3323068416 15, Net 4 3325256704 24,
      Net 4 3405803776 24, Net 4 4026531840 4, Net 4 4294967295 32,
      Net 6 1 128, Net 6 0 128, Net 6 281470681743360 96, Net 6 524413980668812575603097810486951936 48,
      Net 6 1329227995784915872903807060280344576 64, Net 6 42540488161975842760550356425300246528 23,
      Net 6 42540766411282592856903984951653826560 32, Net 6 42545680458834377588178886921629466624 16,
      Net 6 334965454937798799971759379190646833152 7, Net 6 338288524927261089654018896841347694592 10]"

definition SPECIAL_EXCEPT :: "net list" where
  "SPECIAL_EXCEPT =
     [Net 4 3221225481 32, Net 4 3221225482 32,
      Net 6 42540488241204005274814694018844196865 128, Net 6 42540488241204005274814694018844196866 128,
      Net 6 42540488399660330303343369205932097536 32, Net 6 42540488479219738492182115193345540096 48,
      Net 6 42540490697277043217009159418706657280 28, Net 6 42540491964927643445238560915409862656 28]"

definition CGNAT :: net where "CGNAT = Net 4 1681915904 10"

definition private_address :: "string \<Rightarrow> bool" where
  "private_address s = (case ip_address s of
      None \<Rightarrow> True
    | Some a \<Rightarrow> (list_ex (ip_in a) SPECIAL_NETS \<and> \<not> list_ex (ip_in a) SPECIAL_EXCEPT) \<or> ip_in a CGNAT)"

definition sudo_of :: "session \<Rightarrow> string" where
  "sudo_of se = (if se_user se = ''root'' then [] else ''sudo -n '')"

text \<open>\<open>scan\<close>: the ports that answer, in order, whatever the order the workers found them in.\<close>

definition ALL_PORTS :: "int list" where "ALL_PORTS = [1..65535]"

definition scan :: "box \<Rightarrow> string \<Rightarrow> int list \<Rightarrow> int list" where
  "scan b host ports = sort (filter (bx_reaches b host) ports)"

fun port_of :: "py \<Rightarrow> int option" where
  "port_of (PInt n) = Some n"
| "port_of (PBool t) = Some (of_bool t)"
| "port_of (PStr s) = py_int s"
| "port_of _ = None"

text \<open>What \<open>for p in v\<close> runs over: the items of a list, the characters of a string, the keys of an object.\<close>

fun runs_over :: "py \<Rightarrow> py list option" where
  "runs_over (PList xs) = Some xs"
| "runs_over (PStr s) = Some (map (\<lambda>c. PStr [c]) s)"
| "runs_over (PDict d) = Some (map (PStr \<circ> fst) d)"
| "runs_over _ = None"

text \<open>The ports the server says are open, none when its summary cannot be read.\<close>

definition expected_ports :: "box \<Rightarrow> int \<Rightarrow> string \<Rightarrow> int list" where
  "expected_ports b rc raw =
     (if rc \<noteq> 0 then [] else case bx_json b raw of
        Some (PDict d) \<Rightarrow> (case Option.bind (Option.bind (map_of d ''public_open_tcp'') runs_over) (\<lambda>ps. all_some (map port_of ps)) of
           Some ns \<Rightarrow> sort ns
         | None \<Rightarrow> [])
      | _ \<Rightarrow> [])"

definition scan_record :: "box \<Rightarrow> string \<Rightarrow> int list \<Rightarrow> int list \<Rightarrow> int list \<Rightarrow> py" where
  "scan_record b ip opened expected unexpected = PDict
     [(''ts'', PStr (bx_now b)), (''host'', PStr ip), (''scanned'', PInt 65535), (''open_ports'', PList (map PInt opened)),
      (''expected'', PList (map PInt expected)), (''expected_count'', PInt (int (length expected))),
      (''unexpected'', PList (map PInt unexpected)), (''exposed_count'', PInt (int (length unexpected)))]"

definition summary_command :: "session \<Rightarrow> string" where
  "summary_command se = sudo_of se @ ''cat '' @ SUMMARY"

definition public_ports :: "ssh_world \<Rightarrow> box \<Rightarrow> session \<Rightarrow> string \<Rightarrow> bool ssh" where
  "public_ports w b se ip =
     (if ip = [] \<or> private_address ip then
        thenS (out_line (''catena-installer: public port scan SKIPPED -- '' @ (if ip = [] then ''no public IP'' else ip) 
          @ '' is not a routable address, so a scan from here says nothing about what the internet reaches. Set HOST_PUBLIC_IP to the server's public IPv4 to enable it.''))
              (ret True)
      else bindS (session_output w se (summary_command se)) (\<lambda>(rc, raw).
        let expected = expected_ports b rc raw; opened = scan b ip ALL_PORTS;
            unexpected = sort (remdups (filter (\<lambda>p. p \<notin> set expected) opened)) in
        thenS (out_line (''catena-installer: scanning every TCP port of '' @ ip @ '' from this machine''))
       (bindS (session_output w se (''printf '' @ [CHR 0x27] @ ''%s'' @ [CHR 0x5C] @ ''n'' @ [CHR 0x27] @ '' ''
             @ shell_quote (bx_json_dump b (scan_record b ip opened expected unexpected)) @ '' | '' @ sudo_of se @ ''tee '' @ RECORD @ '' >/dev/null'')) (\<lambda>_.
          if unexpected \<noteq> [] then thenS (out_line (''catena-installer: SECURITY REGRESSION: '' @ ip @ '' answers on '' @ py_repr (PList (map PInt unexpected))
            @ '', which nothing declares (expected open: '' @ py_repr (PList (map PInt expected)) @ ''). Check ufw, docker's iptables rules and the provider's firewall.'')) (ret False)
          else thenS (out_line (''catena-installer: '' @ ip @ '' is sealed: 65535 ports scanned, '' @ dec_nat (length opened) @ '' open, all declared'')) (ret True)))))"

definition container_template :: string where
  "container_template = ''{{range $k, $v := .Containers}}{{$v.IPv4Address}}{{'' @ [CHR 0x22, CHR 0x5C, CHR ''n'', CHR 0x22] @ ''}}{{end}}''"

definition container_addresses :: "string \<Rightarrow> string list" where
  "container_addresses raw = sort (remdups (map (\<lambda>a. hd (split_char (CHR ''/'') a)) (split_ws raw)))"

definition inspect_command :: "session \<Rightarrow> string" where
  "inspect_command se = sudo_of se @ ''docker network inspect '' @ NETWORK @ '' --format '' @ shell_quote container_template"

definition container_network :: "ssh_world \<Rightarrow> box \<Rightarrow> session \<Rightarrow> bool ssh" where
  "container_network w b se =
     bindS (session_output w se (inspect_command se)) (\<lambda>(rc, raw).
       if rc \<noteq> 0 then thenS (out_line (''catena-installer: cannot list the containers on '' @ NETWORK @ '': '' @ strip raw)) (ret False)
       else
         (let addresses = container_addresses raw;
              reached = filter (\<lambda>a. bx_reaches b a 80) addresses in
          if reached \<noteq> [] then thenS (out_line (''catena-installer: container IPs '' @ py_repr (PList (map PStr reached)) @ '' on '' @ NETWORK
            @ '' answer from this machine: the network the apps sit on is reachable around Traefik.'')) (ret False)
          else thenS (out_line (''catena-installer: '' @ dec_nat (length addresses) @ '' container IP(s) on '' @ NETWORK @ '', none reachable from this machine'')) (ret True)))"

definition outside_checks :: "ssh_world \<Rightarrow> box \<Rightarrow> session \<Rightarrow> string \<Rightarrow> bool ssh" where
  "outside_checks w b se ip =
     bindS (container_network w b se) (\<lambda>ok. bindS (public_ports w b se ip) (\<lambda>sealed. ret (sealed \<and> ok)))"

section \<open>The install\<close>

text \<open>What \<open>run\<close> and \<open>uninstall\<close> turn into a line and the status 1.\<close>

fun handled :: "rerror \<Rightarrow> bool" where
  "handled (Key_Pair_Error m) = True"
| "handled (Os_Error m) = True"
| "handled e = is_remote e"

fun asks_person :: "rerror \<Rightarrow> bool" where
  "asks_person (Host_Key_Changed n ts offer) = True"
| "asks_person (Password_Needed m) = True"
| "asks_person _ = False"

definition explained :: "server \<Rightarrow> int ssh \<Rightarrow> (rerror \<Rightarrow> bool) \<Rightarrow> int ssh" where
  "explained sv m passed_on = catchS m (\<lambda>e. if handled e \<and> \<not> passed_on e
     then Some (thenS (out_line (''catena-installer: '' @ explain sv e)) (ret 1)) else None)"

definition accounts_leg :: "ssh_world \<Rightarrow> box \<Rightarrow> server \<Rightarrow> options \<Rightarrow> int ssh" where
  "accounts_leg w b sv op = bindS (login w b sv op) (\<lambda>se.
     thenS (out_line (''catena-installer: logged in as '' @ se_user se @ ''@'' @ sv_host sv))
           (finallyS (run_leg w b se sv op Accounts) (close_session se)))"

definition system_leg :: "ssh_world \<Rightarrow> box \<Rightarrow> server \<Rightarrow> options \<Rightarrow> int ssh" where
  "system_leg w b sv op = bindS (connect_retrying w sv (sv_ops sv)) (\<lambda>se.
     finallyS (bindS (run_leg w b se sv op System) (\<lambda>rc.
         if (rc = 0 \<or> rc = VALIDATION_FAILED) \<and> op_outside op
         then bindS (outside_checks w b se (sv_public_ip sv)) (\<lambda>ok. ret (if ok then rc else if rc \<noteq> 0 then rc else VALIDATION_FAILED))
         else ret rc))
       (close_session se))"

definition install_run :: "ssh_world \<Rightarrow> box \<Rightarrow> string \<Rightarrow> options \<Rightarrow> int ssh" where
  "install_run w b inv_dir op = bindS (server_of b inv_dir (op_address op)) (\<lambda>sv.
     if sv_host sv = [] then
       thenS (out_line ''catena-installer: the inventory names no address for the server (HOST_PUBLIC_IP or HOST_SSH_ADDRESS in its .env)'') (ret 1)
     else explained sv
       (bindS (accounts_leg w b sv op) (\<lambda>rc.
          if rc \<noteq> 0 then ret rc
          else thenS (out_line (''catena-installer: logging in again, as '' @ sv_ops sv @ '' with '' @ sv_key sv)) (system_leg w b sv op)))
       asks_person)"

definition uninstall_server :: "ssh_world \<Rightarrow> box \<Rightarrow> string \<Rightarrow> options \<Rightarrow> int ssh" where
  "uninstall_server w b inv_dir op = bindS (server_of b inv_dir (op_address op)) (\<lambda>sv.
     explained sv (bindS (connect_key w (sv_host sv) (sv_port sv) (sv_ops sv) (sv_key sv) (op_reinstalled op) True) (\<lambda>se.
       finallyS (run_leg w b se sv op Uninstall) (close_session se))) (\<lambda>_. False))"

definition connect_panel :: "ssh_world \<Rightarrow> box \<Rightarrow> string \<Rightarrow> string \<Rightarrow> session ssh" where
  "connect_panel w b inv_dir address = bindS (server_of b inv_dir address) (\<lambda>sv.
     catchS (connect_key w (sv_host sv) (sv_port sv) PANEL_USER (sv_key sv) False True)
       (\<lambda>e. case e of Unreachable m \<Rightarrow> Some (raise (Unreachable (explain sv e))) | _ \<Rightarrow> None))"

end
