(* ===== verification/Install_Safe.thy ===== *)
theory Install_Safe
  imports Server_Install
begin

text \<open>
  What an install promises: to which server its credentials go, in which order its steps come, what it
  shows and what its status means. An invariant of the state that every action on a good connection keeps
  is kept by everything the installer does on it (\<open>conn_invariant\<close>), and by a whole install when every
  connection made is good (\<open>login_invariant\<close>).
\<close>

section \<open>Invariants over connections\<close>

fun on_conn :: "action \<Rightarrow> conn option" where
  "on_conn (Key_Offered cn u k) = Some cn"
| "on_conn (Password_Offered cn u p) = Some cn"
| "on_conn (Shell_Opened cn) = Some cn"
| "on_conn (Typed cn t) = Some cn"
| "on_conn (Waited cn) = Some cn"
| "on_conn (Ran cn c) = Some cn"
| "on_conn (Sent_File cn f c) = Some cn"
| "on_conn _ = None"

locale conn_invariant =
  fixes I :: "ssh_state \<Rightarrow> bool" and good :: "conn \<Rightarrow> bool"
  assumes acts: "I s \<Longrightarrow> (\<And>cn. on_conn a = Some cn \<Longrightarrow> good cn) \<Longrightarrow> I (s\<lparr>st_done := st_done s @ [a]\<rparr>)"
    and reads: "I s \<Longrightarrow> I (s\<lparr>st_buffer := buf\<rparr>)"
    and shows_line: "I s \<Longrightarrow> I (s\<lparr>st_printed := ls\<rparr>)"
    and shows_block: "I s \<Longrightarrow> I (s\<lparr>st_keysets := ks\<rparr>)"
    and reads_block: "I s \<Longrightarrow> I (s\<lparr>st_block := blk\<rparr>)"
begin

lemma inv_did: "(\<And>cn. on_conn a = Some cn \<Longrightarrow> good cn) \<Longrightarrow> inv I (did a)"
  unfolding did_def by (rule inv_modS) (rule acts)

lemma inv_closed: "inv I (did (Closed cn))" and inv_slept: "inv I (did Slept)"
  and inv_dialled: "inv I (did (Dialled h p))" and inv_negotiated: "inv I (did (Negotiated h p ts))"
  by (rule inv_did; simp)+

lemma inv_on_good: "good cn \<Longrightarrow> on_conn a = Some cn \<Longrightarrow> inv I (did a)"
  by (rule inv_did) simp

lemma inv_expect: "good cn \<Longrightarrow> inv I (expect w cn ps)"
proof -
  assume "good cn"
  then have "I (s\<lparr>st_done := st_done s @ [Waited cn]\<rparr>)" if "I s" for s using acts [of s "Waited cn"] that by simp
  then show ?thesis
    by (auto simp: inv_def triple_def expect_def Let_def reads split: waited.splits)
qed

lemma inv_type: "good cn \<Longrightarrow> inv I (type_line cn t)"
  unfolding type_line_def by (erule inv_on_good) simp

lemmas inv_acts = inv_closed inv_slept inv_dialled inv_negotiated inv_expect inv_type

lemma inv_term_run: "good cn \<Longrightarrow> inv I (term_run w cn c)"
  unfolding term_run_def by (intro inv_intros inv_acts)

lemma inv_term_sync: "good cn \<Longrightarrow> inv I (term_sync w cn)"
  unfolding term_sync_def by (intro inv_intros inv_acts inv_term_run)

lemma inv_term_run_all: "good cn \<Longrightarrow> inv I (term_run_all w cn cs)"
  by (induction cs) (auto intro!: inv_intros inv_term_run)

lemma inv_append_key: "good cn \<Longrightarrow> inv I (append_key w cn u p)"
  unfolding append_key_def by (intro inv_intros inv_acts inv_term_run_all)

lemma inv_change_prompt: "good cn \<Longrightarrow> inv I (change_prompt w cn)"
  unfolding change_prompt_def
  by (auto intro!: inv_intros inv_acts split: option.splits if_splits)

lemma inv_answer_change: "good cn \<Longrightarrow> inv I (answer_change w cn p c)"
  unfolding answer_change_def by (intro inv_intros inv_acts)

lemma inv_key_turn: "good cn \<Longrightarrow> inv I (key_turn w cn u p l)"
  unfolding key_turn_def
  by (auto intro!: inv_intros inv_term_sync inv_append_key inv_change_prompt inv_answer_change split: if_splits)

lemma inv_session_run: "good (se_conn se) \<Longrightarrow> inv I (session_run w se c)"
  unfolding session_run_def Let_def by (intro inv_intros inv_on_good [of "se_conn se"]) auto

lemma inv_ended: "inv I (ended se e)"
  by (cases e) (auto simp: ended_def intro: inv_intros)

lemma inv_session_output: "good (se_conn se) \<Longrightarrow> inv I (session_output w se c)"
  unfolding session_output_def by (auto intro!: inv_intros inv_session_run inv_ended)

lemma inv_send_files: "good (se_conn se) \<Longrightarrow> inv I (send_files w se d fs)"
  by (induction fs) (auto simp: Let_def intro!: inv_intros inv_on_good)

lemma inv_upload: "good (se_conn se) \<Longrightarrow> inv I (upload w se fs)"
  unfolding upload_def
  by (auto simp: Let_def intro!: inv_intros inv_session_output inv_send_files split: list.splits)

lemma inv_out_line: "inv I (out_line l)"
  unfolding out_line_def by (rule inv_modS) (rule shows_line)

lemma inv_feed: "inv I (feed b l)"
  unfolding feed_def by (auto intro!: inv_intros inv_out_line inv_modS reads_block shows_block split: option.splits)

lemma inv_feed_all: "inv I (feed_all b ls)"
  by (induction ls) (auto intro!: inv_intros inv_feed)

lemma inv_pass_lines: "inv I (pass_lines b l ls)"
  by (auto simp: pass_lines_def intro!: inv_feed_all inv_modS shows_line)

lemma inv_public_line: "inv I (public_line b k)"
  by (auto simp: public_line_def intro!: inv_intros split: option.splits list.splits)

lemma inv_leg_files: "inv I (leg_files b sv op l)"
  unfolding leg_files_def by (auto simp: Let_def intro!: inv_intros inv_public_line split: option.splits)

lemma inv_load_key: "inv I (load_key w k)"
  by (auto simp: load_key_def intro: inv_intros split: key_file.splits)

lemma inv_key_login: "good cn \<Longrightarrow> inv I (key_login w cn u k)"
  unfolding key_login_def Let_def
  by (auto intro!: inv_intros inv_acts inv_load_key inv_on_good [of cn] split: auth.splits)

lemma inv_password_login: "good cn \<Longrightarrow> inv I (password_login w cn u p)"
  unfolding password_login_def Let_def
  by (auto intro!: inv_intros inv_acts inv_modS reads inv_on_good [of cn] split: auth.splits)

lemma inv_run_leg: "good (se_conn se) \<Longrightarrow> inv I (run_leg w b se sv op l)"
  unfolding run_leg_def
  by (auto intro!: inv_intros inv_leg_files inv_upload inv_session_run inv_pass_lines inv_ended)

lemma inv_close_session: "inv I (close_session se)"
  unfolding close_session_def by (rule inv_closed)

lemma inv_outside_checks: "good (se_conn se) \<Longrightarrow> inv I (outside_checks w b se ip)"
  unfolding outside_checks_def container_network_def public_ports_def
  by (auto simp: Let_def intro!: inv_intros inv_session_output inv_out_line)

end

text \<open>A step with an invariant, when what it returns is known too.\<close>

lemma triple_inv:
  assumes "inv I m" and "\<And>s x s'. m s = (Inr x, s') \<Longrightarrow> R x"
  shows "triple I m (\<lambda>x s. I s \<and> R x) I"
proof (rule tripleI)
  fix s x s' assume "I s" "m s = (Inr x, s')"
  with assms show "I s' \<and> R x" unfolding inv_def by (blast dest: triple_Inr)
next
  fix s e s' assume "I s" "m s = (Inl e, s')"
  with assms(1) show "I s'" unfolding inv_def by (blast dest: triple_Inl)
qed

lemma triple_good: "(g \<Longrightarrow> triple I m Q E) \<Longrightarrow> triple (\<lambda>s. I s \<and> g) m Q E"
  by (cases g) (auto simp: triple_def)

lemma triple_catch:
  assumes "triple P m Q P" and "\<And>e k. h e = Some k \<Longrightarrow> triple P k Q P"
  shows "triple P (catchS m h) Q P"
proof (rule tripleI)
  fix s x s' assume "P s" "catchS m h s = (Inr x, s')"
  with assms show "Q x s'" unfolding catchS_Inr_iff by (blast dest: triple_Inr triple_Inl)
next
  fix s e s' assume "P s" "catchS m h s = (Inl e, s')"
  with assms show "P s'"
    by (auto simp: catchS_def split: prod.splits sum.splits option.splits dest: triple_Inl)
qed

text \<open>A step after which the invariant holds: the invariant of a sequence from the triple of its first part.\<close>

lemma inv_bind_triple: "triple I m (\<lambda>x s. I s \<and> R x) I \<Longrightarrow> (\<And>x. R x \<Longrightarrow> inv I (f x)) \<Longrightarrow> inv I (bindS m f)"
  unfolding inv_def by (erule triple_bindS) (rule triple_good)

lemma key_login_conn: "key_login w cn u k s = (Inr se, s') \<Longrightarrow> se_conn se = cn"
  by (cases "rw_auth_key w (st_done (snd (on_error (load_key w k) (did (Closed cn)) s))) cn u k")
    (auto simp: key_login_def thenS_Inr_iff bindS_Inr_iff ret_Inr_iff raise_not_Inr Let_def getS_def)

lemma password_login_conn: "password_login w cn u p s = (Inr cn', s') \<Longrightarrow> cn' = cn"
  by (cases "rw_auth_password w (st_done s) cn u p")
    (auto simp: password_login_def thenS_Inr_iff bindS_Inr_iff ret_Inr_iff raise_not_Inr Let_def getS_def)

text \<open>Every connection made with these choices is good.\<close>

locale login_invariant = conn_invariant I good for I :: "ssh_state \<Rightarrow> bool" and good :: "conn \<Rightarrow> bool" +
  fixes w :: ssh_world and host :: string and port :: int and ri :: bool
  assumes reaches_good: "(r \<longrightarrow> ri) \<Longrightarrow> triple I (transport w host port r rec) (\<lambda>cn s. I s \<and> good cn) I"
begin

lemma connects_good: "(r \<longrightarrow> ri) \<Longrightarrow> triple I (connect_key w host port u k r rec) (\<lambda>se s. I s \<and> good (se_conn se)) I"
proof -
  assume r: "r \<longrightarrow> ri"
  have "triple (\<lambda>s. I s \<and> good cn) (key_login w cn u k) (\<lambda>se s. I s \<and> good (se_conn se)) I" for cn
    by (intro triple_good triple_inv inv_key_login) (simp_all add: key_login_conn)
  then show ?thesis
    unfolding connect_key_def by (rule triple_bindS [OF reaches_good [OF r]])
qed

lemma password_shell_good: "(r \<longrightarrow> ri) \<Longrightarrow> triple I (password_shell w host port u p r rec) (\<lambda>cn s. I s \<and> good cn) I"
proof -
  assume r: "r \<longrightarrow> ri"
  have "triple (\<lambda>s. I s \<and> good cn) (password_login w cn u p) (\<lambda>cn s. I s \<and> good cn) I" for cn
    by (intro triple_good triple_inv inv_password_login) (auto dest: password_login_conn)
  then show ?thesis
    unfolding password_shell_def by (rule triple_bindS [OF reaches_good [OF r]])
qed

lemma inv_connect: "(r \<longrightarrow> ri) \<Longrightarrow> inv I (connect_key w host port u k r rec)"
  using connects_good [of r] unfolding inv_def by (rule triple_weaken) auto

lemma inv_key_turns:
  assumes "r \<longrightarrow> ri"
  shows "inv I (key_turns n w host port u p l r)"
proof (induction n arbitrary: p)
  case (Suc n)
  then show ?case
    by (auto intro!: inv_bind_triple [OF password_shell_good [OF assms]] inv_intros inv_key_turn inv_acts split: option.splits if_splits)
qed (simp add: inv_intros)

text \<open>Both loops that connect give back a good session.\<close>

lemma tries_good:
  assumes "sv_host sv = host" and "sv_port sv = port" and "r \<longrightarrow> ri"
  shows "triple I (try_users w sv r ms us) (\<lambda>q s. I s \<and> (\<forall>se. q = Inr se \<longrightarrow> good (se_conn se))) I"
proof (induction us arbitrary: ms)
  case Nil
  show ?case by (simp add: triple_ret)
next
  case (Cons u us)
  let ?c = "catchS (bindS (connect_key w (sv_host sv) (sv_port sv) u (sv_key sv) r True) (\<lambda>se. ret (Inr se)))
    (\<lambda>e. case e of Auth_Refused m \<Rightarrow> Some (ret (Inl m)) | _ \<Rightarrow> None)"
  have "triple I ?c (\<lambda>q s. I s \<and> (\<forall>se. q = Inr se \<longrightarrow> good (se_conn se))) I"
  proof (rule triple_catch)
    show "triple I (bindS (connect_key w (sv_host sv) (sv_port sv) u (sv_key sv) r True) (\<lambda>se. ret (Inr se)))
      (\<lambda>q s. I s \<and> (\<forall>se. q = Inr se \<longrightarrow> good (se_conn se))) I"
      unfolding assms(1,2) by (rule triple_bindS [OF connects_good [OF assms(3)]]) (simp add: triple_ret)
  qed (auto simp: triple_ret split: rerror.splits)
  then show ?case unfolding try_users.simps
    by (rule triple_bindS) (use Cons.IH in \<open>auto simp: triple_def sem_defs split: sum.splits\<close>)
qed

lemma attempts_good:
  assumes "sv_host sv = host" and "sv_port sv = port"
  shows "triple I (connect_attempts n w sv u) (\<lambda>se s. I s \<and> good (se_conn se)) I"
proof (induction n)
  case 0
  show ?case by (simp add: triple_raise)
next
  case (Suc n)
  let ?c = "catchS (bindS (connect_key w (sv_host sv) (sv_port sv) u (sv_key sv) False True) (\<lambda>se. ret (Some se)))
    (\<lambda>e. case e of Auth_Refused m \<Rightarrow> (if n = 0 then None else Some (thenS (did Slept) (ret None))) | _ \<Rightarrow> None)"
  have slept: "triple I (thenS (did Slept) (ret None)) (\<lambda>r s. I s \<and> (\<forall>se. r = Some se \<longrightarrow> good (se_conn se))) I"
    using inv_slept unfolding inv_def by (rule triple_thenS) (simp add: triple_ret)
  have "triple I ?c (\<lambda>r s. I s \<and> (\<forall>se. r = Some se \<longrightarrow> good (se_conn se))) I"
  proof (rule triple_catch)
    show "triple I (bindS (connect_key w (sv_host sv) (sv_port sv) u (sv_key sv) False True) (\<lambda>se. ret (Some se)))
      (\<lambda>r s. I s \<and> (\<forall>se. r = Some se \<longrightarrow> good (se_conn se))) I"
      unfolding assms by (rule triple_bindS [OF connects_good]) (simp_all add: triple_ret)
  qed (use slept in \<open>auto split: rerror.splits if_splits\<close>)
  then show ?case unfolding connect_attempts.simps
    by (rule triple_bindS) (use Suc in \<open>auto simp: triple_def sem_defs split: option.splits\<close>)
qed

lemma login_good:
  assumes "sv_host sv = host" and "sv_port sv = port" and "op_reinstalled op \<longrightarrow> ri"
  shows "triple I (login w b sv op) (\<lambda>se s. I s \<and> good (se_conn se)) I"
proof -
  have rest: "triple I (thenS (out_line x) (bindS (public_line b k) (\<lambda>pub. thenS (install_key_with_password w host port u p pub (op_reinstalled op))
      (connect_retrying w sv u)))) (\<lambda>se s. I s \<and> good (se_conn se)) I" for x k u p
    unfolding install_key_with_password_def connect_retrying_def
    by (intro triple_thenS [OF inv_out_line [unfolded inv_def]] triple_bindS [OF inv_public_line [unfolded inv_def]]
        triple_thenS [OF inv_key_turns [OF assms(3), unfolded inv_def]] attempts_good assms)
  show ?thesis unfolding login_def using assms rest
    by (intro triple_bindS) (auto intro: tries_good simp: triple_ret triple_raise split: sum.splits)
qed

lemma inv_accounts_leg:
  assumes "sv_host sv = host" and "sv_port sv = port" and "op_reinstalled op \<longrightarrow> ri"
  shows "inv I (accounts_leg w b sv op)"
  unfolding accounts_leg_def
  by (rule inv_bind_triple [OF login_good [OF assms]]) (intro inv_intros inv_out_line inv_run_leg inv_close_session)

lemma inv_system_leg:
  assumes "sv_host sv = host" and "sv_port sv = port"
  shows "inv I (system_leg w b sv op)"
  unfolding system_leg_def connect_retrying_def
  by (rule inv_bind_triple [OF attempts_good [OF assms]])
    (intro inv_intros inv_run_leg inv_outside_checks inv_close_session)

lemma inv_explained: "inv I m \<Longrightarrow> inv I (explained sv m P)"
  unfolding explained_def by (rule inv_catchS) (auto intro!: inv_intros inv_out_line split: if_splits)

end

section \<open>The trusted host\<close>

definition vouched :: "ssh_world \<Rightarrow> string option \<Rightarrow> conn \<Rightarrow> bool" where
  "vouched w known cn = key_trusted (trusted w known (known_name (cn_host cn) (cn_port cn))) (cn_key cn)"

definition vouched_action :: "ssh_world \<Rightarrow> string option \<Rightarrow> action \<Rightarrow> bool" where
  "vouched_action w known a = (case on_conn a of None \<Rightarrow> True | Some cn \<Rightarrow> vouched w known cn)"

text \<open>The known hosts file is as it was, it has a key for the host, and all that was done was done on vouched connections.\<close>

definition vouched_run :: "ssh_world \<Rightarrow> string \<Rightarrow> int \<Rightarrow> string option \<Rightarrow> action list \<Rightarrow> ssh_state \<Rightarrow> bool" where
  "vouched_run w host port known h s = (trusted w known (known_name host port) \<noteq> [] \<and> st_known s = known
     \<and> (\<exists>as. st_done s = h @ as \<and> list_all (vouched_action w known) as))"

lemma vouched_act:
  assumes "vouched_run w host port known h s" and "\<And>cn. on_conn a = Some cn \<Longrightarrow> vouched w known cn"
  shows "vouched_run w host port known h (s\<lparr>st_done := st_done s @ [a]\<rparr>)"
proof -
  obtain as where as: "st_done s = h @ as" "list_all (vouched_action w known) as"
    using assms(1) by (auto simp: vouched_run_def)
  have "st_done s @ [a] = h @ (as @ [a])" "list_all (vouched_action w known) (as @ [a])"
    using as assms(2) by (auto simp: vouched_action_def split: option.split)
  then show ?thesis using assms(1) unfolding vouched_run_def by auto
qed

interpretation vc: conn_invariant "vouched_run w host port known h" "vouched w known" for w host port known h
proof
  fix s a assume "vouched_run w host port known h s" "\<And>cn. on_conn a = Some cn \<Longrightarrow> vouched w known cn"
  then show "vouched_run w host port known h (s\<lparr>st_done := st_done s @ [a]\<rparr>)" by (rule vouched_act)
qed (simp_all add: vouched_run_def)

lemma settle_key_vouched:
  assumes "vouched_run w host port known h s" and "ts = trusted w known (known_name host port)"
    and "settle_key w cn name ts False rec s = (r, s')"
  shows "vouched_run w host port known h s' \<and> (r = Inr () \<longrightarrow> key_trusted ts (cn_key cn))"
proof -
  have "ts \<noteq> []" using assms(1,2) by (simp add: vouched_run_def)
  moreover have "vouched_run w host port known h (s\<lparr>st_done := st_done s @ [Closed cn]\<rparr>)"
    using assms(1) by (rule vouched_act) simp
  ultimately show ?thesis using assms(1,3)
    by (auto simp: settle_key_def did_def sem_defs split: if_splits)
qed

lemma transport_vouched:
  "triple (vouched_run w host port known h) (transport w host port False rec) (\<lambda>cn s. vouched_run w host port known h s \<and> vouched w known cn)
     (vouched_run w host port known h)"
proof -
  let ?I = "vouched_run w host port known h" and ?ts = "trusted w known (known_name host port)"
  have settled: "triple ?I (thenS (settle_key w cn (known_name host port) ?ts False rec) (ret cn)) (\<lambda>cn s. ?I s \<and> vouched w known cn) ?I"
    if "cn_host cn = host" "cn_port cn = port" for cn
    using that settle_key_vouched [where w = w and host = host and port = port and known = known and h = h and ts = ?ts and cn = cn]
    by (intro tripleI) (auto simp: thenS_Inr_iff thenS_Inl_iff ret_Inr_iff vouched_def ret_def)
  have act: "triple ?I (did a) (\<lambda>_. ?I) ?I" if "on_conn a = None" for a
    using vc.inv_did [of a w known host port h] that by (simp add: inv_def)
  have dialled: "triple ?I (case d of Some e \<Rightarrow> thenS (did (Dialled host port)) (raise (f e)) | None \<Rightarrow> thenS (did (Dialled host port)) m)
      (\<lambda>cn s. ?I s \<and> vouched w known cn) ?I" if "triple ?I m (\<lambda>cn s. ?I s \<and> vouched w known cn) ?I" for d f m
    using that by (cases d) (auto intro!: triple_thenS [OF act] triple_raise)
  have started: "triple ?I (case r of Inl e \<Rightarrow> thenS (did (Negotiated host port ts)) (raise (f e))
      | Inr key \<Rightarrow> thenS (did (Negotiated host port ts)) (thenS (settle_key w (c key) (known_name host port) ?ts False rec) (ret (c key))))
      (\<lambda>cn s. ?I s \<and> vouched w known cn) ?I"
    if "\<And>key. cn_host (c key) = host \<and> cn_port (c key) = port" for r f ts and c :: "host_key \<Rightarrow> conn"
    using that by (cases r) (auto intro!: triple_thenS [OF act] triple_raise settled)
  have got: "triple ?I (getS f) (\<lambda>_. ?I) ?I" for f :: "ssh_state \<Rightarrow> action list" by (simp add: triple_def getS_def)
  have body: "triple ?I (bindS (getS st_done) (\<lambda>q. case rw_dial w q host port of
        Some e \<Rightarrow> thenS (did (Dialled host port)) (raise (Unreachable (''nothing answers SSH at '' @ known_name host port @ '': '' @ e)))
      | None \<Rightarrow> thenS (did (Dialled host port)) (bindS (getS st_done) (\<lambda>q. case rw_start w q host port (usable_types w ?ts False) of
            Inl e \<Rightarrow> thenS (did (Negotiated host port (usable_types w ?ts False))) (raise (g e))
          | Inr key \<Rightarrow> thenS (did (Negotiated host port (usable_types w ?ts False)))
              (thenS (settle_key w \<lparr>cn_host = host, cn_port = port, cn_key = key\<rparr> (known_name host port) ?ts False rec)
                     (ret \<lparr>cn_host = host, cn_port = port, cn_key = key\<rparr>))))))
      (\<lambda>cn s. ?I s \<and> vouched w known cn) ?I" for g
    by (intro triple_bindS [OF got] dialled started) simp
  have ts: "triple ?I (getS (\<lambda>s. trusted w (st_known s) (known_name host port))) (\<lambda>ts s. ?I s \<and> ts = ?ts) ?I"
    by (auto simp: triple_def getS_def vouched_run_def)
  show ?thesis unfolding transport_def Let_def
    by (rule triple_bindS [OF ts], rule triple_good) (simp only: body)
qed

interpretation vl: login_invariant "vouched_run w host port known h" "vouched w known" w host port False for w host port known h
  by unfold_locales (simp add: transport_vouched)

text \<open>
  Once this machine trusts a key for the server, an install that was not told the server was reinstalled
  uses no other: nothing is done on a connection whose host key is another, and the file is not touched.
\<close>

lemma server_of_keeps: "server_of b d a s = (r, s') \<Longrightarrow> s' = s"
  by (auto simp: server_of_def lift_flt_def sem_defs Let_def split: option.splits sum.splits prod.splits)

lemma install_run_vouched:
  assumes "server_of b d (op_address op) s = (Inr sv, s1)" and "\<not> op_reinstalled op"
    and "vouched_run w (sv_host sv) (sv_port sv) known h s"
  shows "vouched_run w (sv_host sv) (sv_port sv) known h (snd (install_run w b d op s))"
proof -
  let ?I = "vouched_run w (sv_host sv) (sv_port sv) known h"
  let ?rest = "if sv_host sv = [] then
       thenS (out_line ''catena-installer: the inventory names no address for the server (HOST_PUBLIC_IP or HOST_SSH_ADDRESS in its .env)'') (ret 1)
     else explained sv (bindS (accounts_leg w b sv op) (\<lambda>rc. if rc \<noteq> 0 then ret rc
          else thenS (out_line (''catena-installer: logging in again, as '' @ sv_ops sv @ '' with '' @ sv_key sv)) (system_leg w b sv op))) asks_person"
  have "inv ?I ?rest"
    using assms(2) by (intro inv_intros vc.inv_out_line vl.inv_explained vl.inv_accounts_leg vl.inv_system_leg) simp_all
  then have "?I (snd (?rest s))" using assms(3) by (rule inv_step)
  moreover have "install_run w b d op s = ?rest s"
    using assms(1) server_of_keeps [OF assms(1)] by (simp add: install_run_def bindS_def)
  ultimately show ?thesis by simp
qed

text \<open>C3: An install sends its credentials and its files to no server but the one this machine trusts. If the
  known hosts file has a key for the server the inventory names, and nobody said the server was
  reinstalled, then everything an install does on a connection, offering the key or the provider's
  password, typing into a shell, sending a file, running a command, it does on a connection whose host
  presented a trusted key; and the known hosts file is left as it is. This holds however the install ends.\<close>

theorem install_trusts_host:
  assumes "server_of b d (op_address op) s = (Inr sv, s1)" and "\<not> op_reinstalled op"
    and "trusted w (st_known s) (known_name (sv_host sv) (sv_port sv)) \<noteq> []"
  shows "st_known (snd (install_run w b d op s)) = st_known s
    \<and> (\<exists>as. st_done (snd (install_run w b d op s)) = st_done s @ as
        \<and> (\<forall>a \<in> set as. \<forall>cn. on_conn a = Some cn \<longrightarrow>
             key_trusted (trusted w (st_known s) (known_name (cn_host cn) (cn_port cn))) (cn_key cn)))"
proof -
  have "vouched_run w (sv_host sv) (sv_port sv) (st_known s) (st_done s) s" using assms(3) by (simp add: vouched_run_def)
  from install_run_vouched [OF assms(1,2) this] show ?thesis
    by (fastforce simp: vouched_run_def list_all_iff vouched_action_def vouched_def split: option.splits)
qed

definition idle_world :: ssh_world where
  "idle_world = \<lparr>rw_lookup = (\<lambda>t n. if n = ''198.51.100.7'' then [\<lparr>hk_name = ''ssh-ed25519'', hk_bytes = ''K''\<rparr>] else []),
     rw_base64 = hk_bytes, rw_fingerprint = hk_bytes, rw_forget = None, rw_key_types = [''ssh-ed25519''],
     rw_dial = (\<lambda>_ _ _. None), rw_start = (\<lambda>_ _ _ _. Inr \<lparr>hk_name = ''ssh-ed25519'', hk_bytes = ''K''\<rparr>), rw_load = (\<lambda>_. Usable),
     rw_auth_key = (\<lambda>_ _ _ _. Accepted), rw_auth_password = (\<lambda>_ _ _ _. Denied), rw_polls = (\<lambda>_ _. []),
     rw_output = (\<lambda>_ _ c. ([''/tmp/catena-install.a'' @ nl], Exit 0)), rw_status = (\<lambda>_ _ _ _. 0), rw_decode = id,
     rw_token = (\<lambda>_. ''t''), rw_draw = (\<lambda>_ _. 0)\<rparr>"

definition plain_box :: box where
  "plain_box = \<lparr>bx_env = Some (''HOST_PUBLIC_IP=198.51.100.7'' @ nl), bx_hosts = None, bx_expand = id, bx_default_key = ''/home/u/.ssh/catena_ed25519'',
     bx_public = (\<lambda>_. Some ''ssh-ed25519 AAAA u''), bx_starter = ''#!/bin/bash'', bx_fetcher = [], bx_read = (\<lambda>_. None),
     bx_yaml_dump = (\<lambda>_. []), bx_json = (\<lambda>_. None), bx_json_dump = (\<lambda>_. []), bx_now = [], bx_reaches = (\<lambda>_ _. False),
     bx_keyset = (\<lambda>_. None)\<rparr>"

definition plain_options :: options where
  "plain_options = \<lparr>op_release = [], op_image = [], op_ca_file = [], op_insecure = False, op_address = [], op_tags = [],
     op_reinstalled = False, op_keyset_json = False, op_password = [], op_adopt = [], op_outside = False\<rparr>"

definition fresh_state :: ssh_state where
  "fresh_state = \<lparr>st_known = Some ''198.51.100.7 ssh-ed25519 K'', st_done = [], st_buffer = [], st_printed = [], st_keysets = [], st_block = None\<rparr>"

definition plain_server :: server where
  "plain_server = \<lparr>sv_dir = ''/inv/prod'', sv_name = ''prod1'', sv_host = ''198.51.100.7'', sv_port = 22, sv_initial = ''root'', sv_ops = ''ops'',
     sv_key = ''/home/u/.ssh/catena_ed25519'', sv_public_ip = ''198.51.100.7'', sv_source = ''HOST_PUBLIC_IP in /inv/prod/.env''\<rparr>"

lemma plain_server_of: "server_of plain_box ''/inv/prod'' (op_address plain_options) fresh_state = (Inr plain_server, fresh_state)"
proof -
  have "fst (server_of plain_box ''/inv/prod'' (op_address plain_options) fresh_state) = Inr plain_server" by code_simp
  moreover have "snd (server_of plain_box ''/inv/prod'' (op_address plain_options) fresh_state) = fresh_state"
    using server_of_keeps by (metis prod.collapse)
  ultimately show ?thesis by (metis prod.collapse)
qed

theorem install_trusts_host_witness:
  "st_known (snd (install_run idle_world plain_box ''/inv/prod'' plain_options fresh_state)) = st_known fresh_state"
proof -
  have "\<not> op_reinstalled plain_options"
    "trusted idle_world (st_known fresh_state) (known_name (sv_host plain_server) (sv_port plain_server)) \<noteq> []" by code_simp+
  from install_trusts_host [OF plain_server_of this] show ?thesis by blast
qed

end
