(* ===== verification/Install_Status.thy ===== *)
theory Install_Status
  imports Install_Safe
begin

text \<open>
  What the status of an install rests on: the two legs and the login between them, in that order, and the
  checks from outside. A history only grows, so a step that came before another stands before it there.
\<close>

section \<open>Histories grow\<close>

interpretation hc: conn_invariant "\<lambda>s. prefix h (st_done s)" "\<lambda>_. True" for h
  by unfold_locales simp_all

lemma inv_forget: "inv (\<lambda>s. prefix h (st_done s)) (forget w n)"
  by (auto simp: forget_def intro!: inv_intros inv_modS split: option.splits)

lemma inv_settle_key: "inv (\<lambda>s. prefix h (st_done s)) (settle_key w cn n ts ri rec)"
  by (auto simp: settle_key_def record_key_def intro!: inv_intros inv_modS hc.inv_acts inv_forget)

lemma inv_transport: "inv (\<lambda>s. prefix h (st_done s)) (transport w host port ri rec)"
  by (auto simp: transport_def Let_def intro!: inv_intros hc.inv_acts inv_settle_key split: option.splits sum.splits)

interpretation hl: login_invariant "\<lambda>s. prefix h (st_done s)" "\<lambda>_. True" w host port True for h w host port
  using inv_transport by unfold_locales (simp add: inv_def)

lemma grows: "inv (\<lambda>s. prefix (st_done s0) (st_done s)) m \<Longrightarrow> m s0 = (r, s') \<Longrightarrow> prefix (st_done s0) (st_done s')"
  using inv_step [of "\<lambda>s. prefix (st_done s0) (st_done s)" m s0] by simp

lemma finallyS_Inr_iff: "finallyS m f s = (Inr x, s') \<longleftrightarrow> (\<exists>s1 u. m s = (Inr x, s1) \<and> f s1 = (Inr u, s'))"
  by (auto simp: finallyS_def split: prod.splits sum.splits)

section \<open>A leg that ended\<close>

text \<open>Within a stretch of history: the command of a leg ran on the session's connection and ended with the status.\<close>

definition leg_ran :: "ssh_world \<Rightarrow> session \<Rightarrow> server \<Rightarrow> options \<Rightarrow> leg \<Rightarrow> action list \<Rightarrow> action list \<Rightarrow> int \<Rightarrow> bool" where
  "leg_ran w se sv op l h h' rc = (\<exists>dir files q.
     let c = leg_command se (starter_fetch_args op l dir) (host_args sv op l dir files) l dir in
     prefix h q \<and> prefix (q @ [Ran (se_conn se) c]) h' \<and> snd (rw_output w q (se_conn se) c) = Exit rc)"

definition key_accepted :: "ssh_world \<Rightarrow> conn \<Rightarrow> string \<Rightarrow> string \<Rightarrow> action list \<Rightarrow> action list \<Rightarrow> bool" where
  "key_accepted w cn u k h h' = (\<exists>q. prefix h q \<and> prefix (q @ [Key_Offered cn u k]) h' \<and> rw_auth_key w q cn u k = Accepted)"

lemma session_run_value:
  "session_run w se c s = (Inr (output_lines w (fst (rw_output w (st_done s) (se_conn se) c)), snd (rw_output w (st_done s) (se_conn se) c)),
     s\<lparr>st_done := st_done s @ [Ran (se_conn se) c]\<rparr>)"
  by (simp add: session_run_def did_def sem_defs Let_def)

lemma ended_Inr: "ended se e s = (Inr rc, s') \<Longrightarrow> e = Exit rc \<and> s' = s"
  by (cases e) (auto simp: ended_def sem_defs)

lemma run_leg_ran:
  assumes "run_leg w b se sv op l s = (Inr rc, s')"
  shows "leg_ran w se sv op l (st_done s) (st_done s') rc"
proof -
  obtain files s1 dir s2 s3 where f: "leg_files b sv op l s = (Inr files, s1)" "upload w se files s1 = (Inr dir, s2)"
    and m: "bindS (session_run w se (leg_command se (starter_fetch_args op l dir) (host_args sv op l dir files) l dir)) (\<lambda>(ls, e).
          thenS (pass_lines b l ls) (ended se e)) s2 = (Inr rc, s3)"
    and r: "bindS (session_run w se (''rm -rf '' @ shell_quote dir)) (\<lambda>(ls, e). thenS (ended se e) (ret ())) s3 = (Inr (), s')"
    using assms unfolding run_leg_def bindS_Inr_iff finallyS_Inr_iff by fastforce
  let ?c = "leg_command se (starter_fetch_args op l dir) (host_args sv op l dir files) l dir"
  let ?s3 = "s2\<lparr>st_done := st_done s2 @ [Ran (se_conn se) ?c]\<rparr>"
  have p: "prefix (st_done s) (st_done s2)"
    using grows [OF hc.inv_leg_files f(1)] grows [OF hc.inv_upload f(2)] prefix_order.trans by blast
  obtain u s4 where q: "pass_lines b l (output_lines w (fst (rw_output w (st_done s2) (se_conn se) ?c))) ?s3 = (Inr u, s4)"
    "ended se (snd (rw_output w (st_done s2) (se_conn se) ?c)) s4 = (Inr rc, s3)"
    using m by (auto simp: bindS_def session_run_value thenS_Inr_iff)
  have "prefix (st_done ?s3) (st_done s4)" using grows [OF hc.inv_pass_lines q(1)] .
  moreover have "s4 = s3" "snd (rw_output w (st_done s2) (se_conn se) ?c) = Exit rc" using ended_Inr [OF q(2)] by auto
  moreover have "inv (\<lambda>s. prefix (st_done s3) (st_done s)) (bindS (session_run w se (''rm -rf '' @ shell_quote dir)) (\<lambda>(ls, e). thenS (ended se e) (ret ())))"
    by (auto intro!: inv_intros hc.inv_session_run hc.inv_ended)
  then have "prefix (st_done s3) (st_done s')" by (rule grows) (rule r)
  ultimately show ?thesis using p prefix_order.trans unfolding leg_ran_def Let_def by fastforce
qed

lemma key_login_accepted:
  assumes "key_login w cn u k s = (Inr se, s')"
  shows "se = \<lparr>se_conn = cn, se_user = u\<rparr> \<and> key_accepted w cn u k (st_done s) (st_done s')"
proof -
  obtain v s1 where l: "on_error (load_key w k) (did (Closed cn)) s = (Inr v, s1)"
    and r: "thenS (did (Key_Offered cn u k)) (case rw_auth_key w (st_done s1) cn u k of
          Accepted \<Rightarrow> ret \<lparr>se_conn = cn, se_user = u\<rparr>
        | Denied \<Rightarrow> thenS (did (Closed cn)) (raise (Auth_Refused (u @ ''@'' @ cn_host cn @ '' refused the key '' @ k)))
        | Ssh_Fault e \<Rightarrow> thenS (did (Closed cn)) (raise (Ssh_Error e))) s1 = (Inr se, s')"
    using assms by (auto simp: key_login_def thenS_Inr_iff bindS_Inr_iff getS_def Let_def)
  have "inv (\<lambda>t. prefix (st_done s) (st_done t)) (on_error (load_key w k) (did (Closed cn)))"
    by (intro inv_intros hc.inv_acts hc.inv_load_key)
  then have "prefix (st_done s) (st_done s1)" by (rule grows) (rule l)
  moreover from r have "rw_auth_key w (st_done s1) cn u k = Accepted \<and> se = \<lparr>se_conn = cn, se_user = u\<rparr> \<and> st_done s' = st_done s1 @ [Key_Offered cn u k]"
    by (cases "rw_auth_key w (st_done s1) cn u k") (auto simp: did_def sem_defs)
  ultimately show ?thesis unfolding key_accepted_def by auto
qed

lemma connect_key_accepted:
  assumes "connect_key w host port u k ri rec s = (Inr se, s')"
  shows "se_user se = u \<and> key_accepted w (se_conn se) u k (st_done s) (st_done s')"
proof -
  obtain cn s1 where t: "transport w host port ri rec s = (Inr cn, s1)" "key_login w cn u k s1 = (Inr se, s')"
    using assms by (auto simp: connect_key_def bindS_Inr_iff)
  have "prefix (st_done s) (st_done s1)" using grows [OF inv_transport t(1)] .
  with key_login_accepted [OF t(2)] show ?thesis by (auto simp: key_accepted_def) (meson prefix_order.trans)
qed

lemma connect_attempts_accepted:
  "connect_attempts n w sv u s = (Inr se, s') \<Longrightarrow> se_user se = u \<and> key_accepted w (se_conn se) u (sv_key sv) (st_done s) (st_done s')"
proof (induction n arbitrary: s)
  case 0
  then show ?case by (simp add: raise_def)
next
  case (Suc n)
  let ?c = "connect_key w (sv_host sv) (sv_port sv) u (sv_key sv) False True"
  have inv: "inv (\<lambda>t. prefix (st_done s) (st_done t)) ?c" by (rule hl.inv_connect) simp
  obtain r s1 where c: "?c s = (r, s1)" by (cases "?c s")
  show ?case
  proof (cases r)
    case (Inr se1)
    with Suc.prems c have "?c s = (Inr se, s')" by (simp add: bindS_def catchS_def ret_def)
    then show ?thesis by (rule connect_key_accepted)
  next
    case (Inl e)
    with Suc.prems c obtain m where "e = Auth_Refused m" "n \<noteq> 0"
      by (cases e) (auto simp: bindS_def catchS_def split: if_splits)
    with Inl Suc.prems c have "connect_attempts n w sv u (s1\<lparr>st_done := st_done s1 @ [Slept]\<rparr>) = (Inr se, s')"
      by (simp add: bindS_def catchS_def thenS_def ret_def did_def modS_def)
    from Suc.IH [OF this] grows [OF inv c] show ?thesis
      by (auto simp: key_accepted_def) (meson prefix_order.trans prefix_prefix)
  qed
qed

section \<open>The checks from outside\<close>

definition answered :: "ssh_world \<Rightarrow> conn \<Rightarrow> string \<Rightarrow> action list \<Rightarrow> action list \<Rightarrow> int \<Rightarrow> string \<Rightarrow> bool" where
  "answered w cn c h h' rc raw = (\<exists>q. prefix h q \<and> prefix (q @ [Ran cn c]) h'
     \<and> snd (rw_output w q cn c) = Exit rc \<and> raw = join nl (output_lines w (fst (rw_output w q cn c))))"

lemma session_output_answered:
  assumes "session_output w se c s = (Inr (rc, raw), s')"
  shows "answered w (se_conn se) c (st_done s) (st_done s') rc raw"
  using assms by (auto simp: session_output_def bindS_Inr_iff session_run_value ret_Inr_iff answered_def dest!: ended_Inr)

lemma answered_later: "answered w cn c h1 h2 rc raw \<Longrightarrow> prefix h0 h1 \<Longrightarrow> prefix h2 h3 \<Longrightarrow> answered w cn c h0 h3 rc raw"
  unfolding answered_def by (elim exE conjE, intro exI conjI) (auto intro: prefix_order.trans)

definition containers_hidden :: "ssh_world \<Rightarrow> box \<Rightarrow> session \<Rightarrow> action list \<Rightarrow> action list \<Rightarrow> bool" where
  "containers_hidden w b se h h' = (\<exists>raw. answered w (se_conn se) (inspect_command se) h h' 0 raw
     \<and> (\<forall>a \<in> set (container_addresses raw). \<not> bx_reaches b a 80))"

definition ports_declared :: "ssh_world \<Rightarrow> box \<Rightarrow> session \<Rightarrow> string \<Rightarrow> action list \<Rightarrow> action list \<Rightarrow> bool" where
  "ports_declared w b se ip h h' = (ip = [] \<or> private_address ip \<or> (\<exists>rc raw. answered w (se_conn se) (summary_command se) h h' rc raw
     \<and> (\<forall>p. 1 \<le> p \<and> p \<le> 65535 \<longrightarrow> bx_reaches b ip p \<longrightarrow> p \<in> set (expected_ports b rc raw))))"

lemma containers_hidden_later:
  "containers_hidden w b se h1 h2 \<Longrightarrow> prefix h0 h1 \<Longrightarrow> prefix h2 h3 \<Longrightarrow> containers_hidden w b se h0 h3"
  unfolding containers_hidden_def by (blast intro: answered_later)

lemma ports_declared_later:
  "ports_declared w b se ip h1 h2 \<Longrightarrow> prefix h0 h1 \<Longrightarrow> prefix h2 h3 \<Longrightarrow> ports_declared w b se ip h0 h3"
  unfolding ports_declared_def by (blast intro: answered_later)

lemma container_network_True:
  assumes "container_network w b se s = (Inr True, s')"
  shows "containers_hidden w b se (st_done s) (st_done s')"
proof -
  obtain rc raw s1 where o: "session_output w se (inspect_command se) s = (Inr (rc, raw), s1)"
    using assms by (auto simp: container_network_def bindS_Inr_iff)
  with assms have "rc = 0" "\<forall>a \<in> set (container_addresses raw). \<not> bx_reaches b a 80" "st_done s' = st_done s1"
    by (auto simp: container_network_def bindS_def out_line_def thenS_def ret_def modS_def Let_def filter_empty_conv split: if_splits)
  with session_output_answered [OF o] show ?thesis by (auto simp: containers_hidden_def)
qed

lemma public_ports_True:
  assumes "public_ports w b se ip s = (Inr True, s')"
  shows "ports_declared w b se ip (st_done s) (st_done s')"
proof (cases "ip = [] \<or> private_address ip")
  case False
  let ?unexpected = "\<lambda>rc raw. sort (remdups (filter (\<lambda>p. p \<notin> set (expected_ports b rc raw)) (scan b ip ALL_PORTS)))"
  from False assms obtain rc raw s1 c v s2 where o: "session_output w se (summary_command se) s = (Inr (rc, raw), s1)"
    and t: "session_output w se c (s1\<lparr>st_printed := st_printed s1 @ [''catena-installer: scanning every TCP port of '' @ ip @ '' from this machine'']\<rparr>) = (Inr v, s2)"
    and u: "?unexpected rc raw = []" "st_done s' = st_done s2"
    by (auto simp: public_ports_def bindS_Inr_iff thenS_Inr_iff out_line_def modS_def Let_def ret_def split: if_splits)
  have r: "prefix (st_done s1) (st_done s')"
    using grows [OF hc.inv_session_output t] u(2) by simp
  have "\<forall>p. 1 \<le> p \<and> p \<le> 65535 \<longrightarrow> bx_reaches b ip p \<longrightarrow> p \<in> set (expected_ports b rc raw)"
  proof (intro allI impI)
    fix p assume p: "1 \<le> p \<and> p \<le> (65535 :: int)" "bx_reaches b ip p"
    then have "p \<in> set (scan b ip ALL_PORTS)" by (simp add: scan_def ALL_PORTS_def)
    moreover have "set (filter (\<lambda>p. p \<notin> set (expected_ports b rc raw)) (scan b ip ALL_PORTS)) = {}"
      using arg_cong [OF u(1), of set] by simp
    ultimately show "p \<in> set (expected_ports b rc raw)" by auto
  qed
  with answered_later [OF session_output_answered [OF o] _ r] show ?thesis by (auto simp: ports_declared_def)
qed (auto simp: ports_declared_def)

lemma outside_checks_True:
  assumes "outside_checks w b se ip s = (Inr True, s')"
  shows "containers_hidden w b se (st_done s) (st_done s') \<and> ports_declared w b se ip (st_done s) (st_done s')"
proof -
  obtain s1 where c: "container_network w b se s = (Inr True, s1)" "public_ports w b se ip s1 = (Inr True, s')"
    using assms by (auto simp: outside_checks_def bindS_Inr_iff ret_Inr_iff)
  have "inv (\<lambda>t. prefix (st_done s) (st_done t)) (container_network w b se)" "inv (\<lambda>t. prefix (st_done s1) (st_done t)) (public_ports w b se ip)"
    by (auto simp: container_network_def public_ports_def Let_def intro!: inv_intros hc.inv_session_output hc.inv_out_line)
  then have "prefix (st_done s) (st_done s1)" "prefix (st_done s1) (st_done s')" using grows c by blast+
  with container_network_True [OF c(1)] public_ports_True [OF c(2)] show ?thesis
    by (simp add: containers_hidden_later [OF _ prefix_order.refl] ports_declared_later)
qed

section \<open>The status of an install\<close>

lemma explained_zero: "explained sv m P s = (Inr 0, s') \<Longrightarrow> m s = (Inr 0, s')"
  by (auto simp: explained_def catchS_def out_line_def sem_defs split: prod.splits sum.splits if_splits)

lemma accounts_leg_ran:
  assumes "accounts_leg w b sv op s = (Inr rc, s')"
  shows "\<exists>se. leg_ran w se sv op Accounts (st_done s) (st_done s') rc"
proof -
  obtain se s1 s2 where l: "login w b sv op s = (Inr se, s1)"
    and r: "run_leg w b se sv op Accounts (s1\<lparr>st_printed := st_printed s1 @ [''catena-installer: logged in as '' @ se_user se @ ''@'' @ sv_host sv]\<rparr>) = (Inr rc, s2)"
    and c: "close_session se s2 = (Inr (), s')"
    using assms by (auto simp: accounts_leg_def bindS_Inr_iff thenS_Inr_iff finallyS_Inr_iff out_line_def modS_def)
  have "triple (\<lambda>t. prefix (st_done s) (st_done t)) (login w b sv op) (\<lambda>se t. prefix (st_done s) (st_done t) \<and> True) (\<lambda>t. prefix (st_done s) (st_done t))"
    by (rule hl.login_good) simp_all
  from triple_Inr [OF this _ l] have "prefix (st_done s) (st_done s1)" by simp
  moreover have "prefix (st_done s2) (st_done s')" using grows [OF hc.inv_close_session c] .
  ultimately show ?thesis using run_leg_ran [OF r] unfolding leg_ran_def Let_def by simp (meson prefix_order.trans)
qed

lemma system_leg_ran:
  assumes "system_leg w b sv op s = (Inr 0, s')"
  shows "\<exists>se h. key_accepted w (se_conn se) (sv_ops sv) (sv_key sv) (st_done s) h \<and> leg_ran w se sv op System h (st_done s') 0
    \<and> (op_outside op \<longrightarrow> containers_hidden w b se h (st_done s') \<and> ports_declared w b se (sv_public_ip sv) h (st_done s'))"
proof -
  obtain se s1 rc s2 s3 where l: "connect_retrying w sv (sv_ops sv) s = (Inr se, s1)" and r: "run_leg w b se sv op System s1 = (Inr rc, s2)"
    and k: "(if (rc = 0 \<or> rc = VALIDATION_FAILED) \<and> op_outside op
         then bindS (outside_checks w b se (sv_public_ip sv)) (\<lambda>ok. ret (if ok then rc else if rc \<noteq> 0 then rc else VALIDATION_FAILED))
         else ret rc) s2 = (Inr 0, s3)"
    and c: "close_session se s3 = (Inr (), s')"
    using assms by (auto simp: system_leg_def bindS_Inr_iff finallyS_Inr_iff)
  have p: "prefix (st_done s1) (st_done s2)" using grows [OF hc.inv_run_leg r] by simp
  have q: "prefix (st_done s3) (st_done s')" using grows [OF hc.inv_close_session c] .
  have rc: "rc = 0" "op_outside op \<longrightarrow> outside_checks w b se (sv_public_ip sv) s2 = (Inr True, s3)" "\<not> op_outside op \<longrightarrow> s3 = s2"
    using k by (auto simp: bindS_Inr_iff ret_Inr_iff VALIDATION_FAILED_def split: if_splits)
  have t: "prefix (st_done s2) (st_done s3)"
    using rc(2,3) grows [OF hc.inv_outside_checks] by (cases "op_outside op") auto
  have "leg_ran w se sv op System (st_done s1) (st_done s') 0"
    using run_leg_ran [OF r] rc(1) t q unfolding leg_ran_def Let_def by (meson prefix_order.trans)
  moreover have "op_outside op \<longrightarrow> containers_hidden w b se (st_done s1) (st_done s') \<and> ports_declared w b se (sv_public_ip sv) (st_done s1) (st_done s')"
    using rc(2) outside_checks_True p q by (blast intro: containers_hidden_later ports_declared_later)
  ultimately show ?thesis using connect_attempts_accepted l unfolding connect_retrying_def by blast
qed

text \<open>C4: What a successful install rests on. When \<open>install.run\<close> returns 0, then in this order: the accounts leg
  ran on the server and ended with 0; a login as the ops account with the inventory's key was accepted;
  the system leg ran on that very connection and ended with 0; and, unless the outside checks were turned
  off, the containers' addresses the server listed do not answer from here, and every port of the public
  address that answers is one the server declares (or the address is not a public one).\<close>

theorem install_success_grounded:
  assumes "install_run w b d op s = (Inr 0, s')"
  shows "\<exists>sv se1 se2 h1 h2. fst (server_of b d (op_address op) s) = Inr sv \<and> sv_host sv \<noteq> []
    \<and> leg_ran w se1 sv op Accounts (st_done s) h1 0
    \<and> key_accepted w (se_conn se2) (sv_ops sv) (sv_key sv) h1 h2
    \<and> leg_ran w se2 sv op System h2 (st_done s') 0
    \<and> (op_outside op \<longrightarrow> containers_hidden w b se2 h2 (st_done s') \<and> ports_declared w b se2 (sv_public_ip sv) h2 (st_done s'))"
proof -
  obtain sv s1 where sv: "server_of b d (op_address op) s = (Inr sv, s1)"
    using assms by (auto simp: install_run_def bindS_Inr_iff)
  have "s1 = s" using server_of_keeps [OF sv] .
  with assms sv have host: "sv_host sv \<noteq> []" and e: "bindS (accounts_leg w b sv op) (\<lambda>rc. if rc \<noteq> 0 then ret rc
          else thenS (out_line (''catena-installer: logging in again, as '' @ sv_ops sv @ '' with '' @ sv_key sv)) (system_leg w b sv op)) s = (Inr 0, s')"
    by (auto simp: install_run_def bindS_def [of "server_of b d (op_address op)"] out_line_def sem_defs split: if_splits dest!: explained_zero)
  obtain s2 where a: "accounts_leg w b sv op s = (Inr 0, s2)"
    and y: "system_leg w b sv op (s2\<lparr>st_printed := st_printed s2 @ [''catena-installer: logging in again, as '' @ sv_ops sv @ '' with '' @ sv_key sv]\<rparr>) = (Inr 0, s')"
    using e by (auto simp: bindS_Inr_iff thenS_Inr_iff ret_Inr_iff out_line_def modS_def split: if_splits)
  obtain se1 where "leg_ran w se1 sv op Accounts (st_done s) (st_done s2) 0" using accounts_leg_ran [OF a] by blast
  with system_leg_ran [OF y] host sv show ?thesis by fastforce
qed

theorem install_success_grounded_witness:
  "\<exists>sv se1 h1. leg_ran idle_world se1 sv plain_options Accounts (st_done fresh_state) h1 0"
proof -
  have "fst (install_run idle_world plain_box ''/inv/prod'' plain_options fresh_state) = Inr 0" by code_simp
  then obtain s' where "install_run idle_world plain_box ''/inv/prod'' plain_options fresh_state = (Inr 0, s')"
    by (metis prod.collapse)
  from install_success_grounded [OF this] show ?thesis by blast
qed

end
