(* ===== verification/Install_Lines.thy ===== *)
theory Install_Lines
  imports Server_Install
begin

text \<open>
  What travels between the installer and the server as text: the lines of a command's output do not depend
  on how the network cut them, the passwords' block never becomes a line, and the words of a command
  reach the server's shell as they were.
\<close>

section \<open>Lines\<close>

text \<open>The lines of a whole text: what ends with a line feed, and a rest that is not empty.\<close>

definition whole_lines :: "string \<Rightarrow> string list" where
  "whole_lines s = (let parts = split_char (CHR 0x0A) s in butlast parts @ (if last parts = [] then [] else [last parts]))"

lemma split_char_concat: "split_char c (a @ b) = butlast (split_char c a) @ split_char c (last (split_char c a) @ b)"
proof (induction a)
  case (Cons x a)
  obtain p ps where p: "split_char c a = p # ps" using split_char_nonempty [of c a] by (cases "split_char c a") auto
  show ?case
  proof (cases "x = c")
    case True
    with Cons p show ?thesis by simp
  next
    case False
    show ?thesis
    proof (cases ps)
      case Nil
      with Cons p False show ?thesis by simp
    next
      case (Cons q qs)
      with Cons.IH p False show ?thesis by simp
    qed
  qed
qed simp

lemma last_part_clean: "c \<notin> set (last (split_char c s))"
proof (induction s)
  case (Cons x s)
  obtain p ps where p: "split_char c s = p # ps" using split_char_nonempty [of c s] by (cases "split_char c s") auto
  with Cons show ?case by (cases ps) auto
qed simp

lemma split_char_clean: "c \<notin> set s \<Longrightarrow> split_char c s = [s]"
  by (induction s) auto

lemma chunk_lines_whole:
  assumes "CHR 0x0A \<notin> set pending"
  shows "chunk_lines pending cs = whole_lines (pending @ concat cs)"
  using assms
proof (induction cs arbitrary: pending)
  case Nil
  then show ?case by (simp add: whole_lines_def split_char_clean)
next
  case (Cons c cs)
  let ?p = "split_char (CHR 0x0A) (pending @ c)"
  have "chunk_lines pending (c # cs) = butlast ?p @ whole_lines (last ?p @ concat cs)"
    using Cons.IH [OF last_part_clean, of "pending @ c"] by (simp add: Let_def)
  also have "\<dots> = whole_lines (pending @ concat (c # cs))"
    using split_char_concat [of "CHR 0x0A" "pending @ c" "concat cs"] split_char_nonempty [of "CHR 0x0A" "last ?p @ concat cs"]
    by (simp add: whole_lines_def Let_def butlast_append)
  finally show ?case .
qed

text \<open>The lines a command prints are those of its whole output: however the network cuts the output into
  pieces, the loop of \<open>Session.run\<close> passes on the same lines, each once and in order, the last one too when
  no line feed ends it.\<close>

theorem output_lines_uncut: "output_lines w pieces = map (\<lambda>l. strip_cr (rw_decode w l)) (whole_lines (concat pieces))"
  by (simp add: output_lines_def chunk_lines_whole)

section \<open>The passwords' block\<close>

definition unmarked :: "string list \<Rightarrow> bool" where
  "unmarked ls = (KEYSET_BEGIN \<notin> set ls \<and> KEYSET_END \<notin> set ls)"

lemma marker_distinct: "KEYSET_BEGIN \<noteq> KEYSET_END"
  by (simp add: KEYSET_BEGIN_def KEYSET_END_def)

lemma feed_outside: "KEYSET_BEGIN \<notin> set ls \<Longrightarrow> st_block s = None
  \<Longrightarrow> feed_all b (ls @ rest) s = feed_all b rest (s\<lparr>st_printed := st_printed s @ ls\<rparr>)"
  by (induction ls arbitrary: s) (auto simp: feed_def out_line_def sem_defs)

lemma same_block: "st_block s = x \<Longrightarrow> s\<lparr>st_block := x\<rparr> = s"
  by (cases s) simp

lemma feed_inside: "unmarked ls \<Longrightarrow> st_block s = Some blk
  \<Longrightarrow> feed_all b (ls @ rest) s = feed_all b rest (s\<lparr>st_block := Some (blk @ ls)\<rparr>)"
  by (induction ls arbitrary: s blk) (auto simp: feed_def sem_defs unmarked_def same_block)

lemma feed_block:
  assumes "unmarked ls" and "unmarked blk" and "bx_keyset b blk = None" and "st_block s = None"
  shows "feed_all b (ls @ KEYSET_BEGIN # blk @ KEYSET_END # rest) s
    = feed_all b rest (s\<lparr>st_printed := st_printed s @ ls, st_keysets := st_keysets s @ [blk]\<rparr>)"
proof -
  let ?s = "s\<lparr>st_printed := st_printed s @ ls\<rparr>"
  have "feed_all b (ls @ KEYSET_BEGIN # blk @ KEYSET_END # rest) s = feed_all b (KEYSET_BEGIN # blk @ KEYSET_END # rest) ?s"
    using assms(1,4) by (intro feed_outside) (simp_all add: unmarked_def)
  also have "\<dots> = feed_all b (blk @ KEYSET_END # rest) (?s\<lparr>st_block := Some []\<rparr>)"
    by (simp add: feed_def sem_defs)
  also have "\<dots> = feed_all b (KEYSET_END # rest) (?s\<lparr>st_block := Some blk\<rparr>)"
    using feed_inside [OF assms(2), of "?s\<lparr>st_block := Some []\<rparr>" "[]"] by simp
  also have "\<dots> = feed_all b rest (s\<lparr>st_printed := st_printed s @ ls, st_keysets := st_keysets s @ [blk]\<rparr>)"
    using assms(3,4) marker_distinct [symmetric] by (cases s) (simp add: feed_def sem_defs)
  finally show ?thesis .
qed

text \<open>C16: The passwords the server prints between its markers never become lines of the output: of an output made
  of lines, blocks and a last run of lines, the lines go to the line handler in order, each block goes
  whole to the passwords' handler, and nothing else is passed on.\<close>

theorem passwords_not_printed:
  assumes "\<forall>(ls, blk) \<in> set segments. unmarked ls \<and> unmarked blk \<and> bx_keyset b blk = None" and "unmarked rest" and "st_block s = None"
  shows "feed_all b (concat (map (\<lambda>(ls, blk). ls @ KEYSET_BEGIN # blk @ [KEYSET_END]) segments) @ rest) s
    = (Inr (), s\<lparr>st_printed := st_printed s @ concat (map fst segments) @ rest, st_keysets := st_keysets s @ map snd segments\<rparr>)"
  using assms(1,3)
proof (induction segments arbitrary: s)
  case Nil
  then show ?case using feed_outside [of rest s b "[]"] assms(2) by (simp add: unmarked_def ret_def)
next
  case (Cons seg segments)
  obtain ls blk where "seg = (ls, blk)" by (cases seg)
  with Cons show ?case by (simp add: feed_block)
qed

theorem passwords_not_printed_witness:
  "feed_all \<lparr>bx_env = None, bx_hosts = None, bx_expand = id, bx_default_key = [], bx_public = (\<lambda>_. None), bx_starter = [], bx_fetcher = [],
       bx_read = (\<lambda>_. None), bx_yaml_dump = (\<lambda>_. []), bx_json = (\<lambda>_. None), bx_json_dump = (\<lambda>_. []), bx_now = [],
       bx_reaches = (\<lambda>_ _. False), bx_keyset = (\<lambda>_. None)\<rparr>
     (concat (map (\<lambda>(ls, blk). ls @ KEYSET_BEGIN # blk @ [KEYSET_END]) [([''TASK''], [''secret''])]) @ [''done''])
     \<lparr>st_known = None, st_done = [], st_buffer = [], st_printed = [], st_keysets = [], st_block = None\<rparr>
   = (Inr (), \<lparr>st_known = None, st_done = [], st_buffer = [], st_printed = [''TASK'', ''done''], st_keysets = [[''secret'']], st_block = None\<rparr>)"
  by (subst passwords_not_printed) (auto simp: unmarked_def KEYSET_BEGIN_def KEYSET_END_def)

section \<open>Words\<close>

lemma safe_chars: "shell_safe c \<Longrightarrow> \<not> shell_space c \<and> c \<noteq> CHR 0x5C \<and> c \<noteq> CHR 0x22 \<and> c \<noteq> CHR 0x27"
  by (auto simp: shell_safe_def shell_space_def is_alnum_def is_alpha_def is_upper_def is_lower_def is_digit_def Let_def)

lemma words_safe: "list_all shell_safe s \<Longrightarrow> shell_words In_Word acc (s @ t) = shell_words In_Word (rev s @ acc) t"
  by (induction s arbitrary: acc) (auto dest: safe_chars)

lemma words_between: "\<not> shell_space c \<Longrightarrow> shell_words Between acc (c # s) = shell_words In_Word acc (c # s)"
  by simp

definition quoted_body :: "string \<Rightarrow> string" where
  "quoted_body s = concat (map (\<lambda>c. if c = CHR 0x27 then [CHR 0x27, CHR 0x22, CHR 0x27, CHR 0x22, CHR 0x27] else [c]) s)"

lemma words_quoted: "shell_words (Quoted (CHR 0x27)) acc (quoted_body s @ CHR 0x27 # t) = shell_words In_Word (rev s @ acc) t"
  by (induction s arbitrary: acc) (auto simp: quoted_body_def shell_space_def)

lemma words_quote: "shell_words Between [] (shell_quote s @ t) = shell_words In_Word (rev s) t"
proof (cases "s \<noteq> [] \<and> list_all shell_safe s")
  case True
  then obtain c s' where c: "s = c # s'" "shell_safe c" "list_all shell_safe s'" by (cases s) auto
  have "shell_words Between [] (s @ t) = shell_words In_Word [] (s @ t)"
    using c words_between [of c "[]" "s' @ t"] safe_chars [OF c(2)] by simp
  with True show ?thesis by (simp add: shell_quote_def words_safe)
next
  case False
  then have q: "shell_quote s = CHR 0x27 # quoted_body s @ [CHR 0x27]"
    by (auto simp: shell_quote_def quoted_body_def)
  have "shell_words Between [] (shell_quote s @ t) = shell_words (Quoted (CHR 0x27)) [] (quoted_body s @ CHR 0x27 # t)"
    unfolding q by (simp add: shell_space_def)
  then show ?thesis by (simp add: words_quoted)
qed

text \<open>The words of a command reach the shell as they were: what \<open>shlex.join\<close> writes, with names, paths and
  user input of any characters, splits back into exactly those words, so no word can end its quoting or
  add another.\<close>

theorem joined_words_split: "shlex_split (shell_join ws) = Inr ws"
proof -
  have "shell_words Between [] (shell_join ws) = Some ws"
  proof (induction ws)
    case Nil
    show ?case by (simp add: shell_join_def)
  next
    case (Cons w ws)
    show ?case
    proof (cases ws)
      case Nil
      then show ?thesis using words_quote [of w "[]"] by (simp add: shell_join_def)
    next
      case (Cons v vs)
      then have "shell_join (w # ws) = shell_quote w @ CHR '' '' # shell_join ws" by (simp add: shell_join_def)
      then show ?thesis using Cons.IH words_quote [of w "CHR '' '' # shell_join ws"] by (simp add: shell_space_def)
    qed
  qed
  then show ?thesis by (simp add: shlex_split_def)
qed

end
