(* ===== verification/Install_Page.thy ===== *)
theory Install_Page
  imports Install_Safe Seed_Sound
begin

text \<open>
  The installer's page: \<open>run.py\<close> (one inventory, its answers and the state of its install), \<open>registry.py\<close>
  and \<open>steps.py\<close> (what each section asks and proves) and the requests of \<open>server.py\<close>, all under
  \<open>src/installer/catena_installer\<close>. A check is named by the translation key of its label; the texts, the
  HTML and the languages are left out, and so are the details shown beside a check. Run objects have
  identities, because the page can hold another object of the inventory than the install's thread does;
  they are the positions of a list. Times are whole seconds.
\<close>

section \<open>The run\<close>

datatype run_state = Answering | Installing | Done | Failed

fun state_word :: "run_state \<Rightarrow> string" where
  "state_word Answering = ''answering''"
| "state_word Installing = ''installing''"
| "state_word Done = ''done''"
| "state_word Failed = ''failed''"

definition LOG_LINES :: nat where "LOG_LINES = 2000"

type_synonym strs = "(string \<times> string) list"

text \<open>The state is the word as it was read: the file may hold any.\<close>

record run =
  rn_name :: string
  rn_answers :: strs
  rn_secrets :: strs
  rn_secret_keys :: "string list"
  rn_state :: string
  rn_started :: int
  rn_log :: "string list"
  rn_keyset :: strs
  rn_forward :: bool

definition new_run :: "string \<Rightarrow> string list \<Rightarrow> run" where
  "new_run name secret_keys = \<lparr>rn_name = name, rn_answers = [], rn_secrets = [], rn_secret_keys = secret_keys,
     rn_state = state_word Answering, rn_started = 0, rn_log = [], rn_keyset = [], rn_forward = False\<rparr>"

definition take_answer :: "string \<Rightarrow> string \<Rightarrow> bool \<Rightarrow> run \<Rightarrow> run" where
  "take_answer key v secret r =
     (if secret \<or> key \<in> set (rn_secret_keys r) then r\<lparr>rn_secrets := AList.update key v (rn_secrets r)\<rparr>
      else r\<lparr>rn_answers := AList.update key v (rn_answers r)\<rparr>)"

definition value_of :: "run \<Rightarrow> string \<Rightarrow> string" where
  "value_of r key = (case map_of (rn_secrets r) key of Some v \<Rightarrow> v | None \<Rightarrow>
     (case map_of (rn_answers r) key of Some v \<Rightarrow> v | None \<Rightarrow> []))"

definition missing_secrets :: "run \<Rightarrow> string list \<Rightarrow> string list" where
  "missing_secrets r required = filter (\<lambda>k. env_text (rn_secrets r) k = []) required"

text \<open>\<open>deque(maxlen=LOG_LINES)\<close>.\<close>

definition log_append :: "string \<Rightarrow> run \<Rightarrow> run" where
  "log_append l r = (let ls = rn_log r @ [l] in r\<lparr>rn_log := drop (length ls - LOG_LINES) ls\<rparr>)"

subsection \<open>On disk\<close>

datatype state_file = No_State | State py | Bad_State

record inventory_files =
  fl_env :: "string option"
  fl_state :: state_file

type_synonym inventory_disk = "(string \<times> inventory_files) list"

record page_world =
  pw_knobs :: seed_knobs
  pw_template :: string
  pw_doc :: dict
  pw_pid :: int
  pw_alive :: "int \<Rightarrow> bool"
  pw_now :: int
  pw_pairs :: "string list"
  pw_banner :: "action list \<Rightarrow> string \<Rightarrow> int \<Rightarrow> string"
  pw_expand :: "string \<Rightarrow> string"
  pw_keygen :: "string \<Rightarrow> string + (string \<times> string)"

definition no_files :: inventory_files where "no_files = \<lparr>fl_env = None, fl_state = No_State\<rparr>"

definition files_of :: "inventory_disk \<Rightarrow> string \<Rightarrow> inventory_files" where
  "files_of d name = (case map_of d name of Some f \<Rightarrow> f | None \<Rightarrow> no_files)"

definition kept_answers :: "run \<Rightarrow> strs" where
  "kept_answers r = filter (\<lambda>kv. fst kv \<notin> set (rn_secret_keys r)) (rn_answers r)"

definition state_payload :: "page_world \<Rightarrow> run \<Rightarrow> py" where
  "state_payload pw r = PDict [(''state'', PStr (rn_state r)),
     (''started'', PInt (if rn_started r \<noteq> 0 then rn_started r else pw_now pw)), (''pid'', PInt (pw_pid pw))]"

definition save :: "page_world \<Rightarrow> run \<Rightarrow> inventory_disk \<Rightarrow> inventory_disk" where
  "save pw r d = AList.update (rn_name r)
     \<lparr>fl_env = Some (write_env (pw_knobs pw) (pw_template pw) (kept_answers r) (fl_env (files_of d (rn_name r)))),
      fl_state = State (state_payload pw r)\<rparr> d"

definition running :: "page_world \<Rightarrow> py \<Rightarrow> bool" where
  "running pw v = (case v of PInt n \<Rightarrow> pw_alive pw n | PBool t \<Rightarrow> pw_alive pw (of_bool t) | _ \<Rightarrow> False)"

definition load_state :: "page_world \<Rightarrow> dict \<Rightarrow> string" where
  "load_state pw doc =
     (let st = (if truthy (dget doc ''state'') then py_str (dget doc ''state'') else state_word Answering) in
      if st = state_word Installing \<and> \<not> running pw (dget doc ''pid'') then state_word Failed else st)"

definition load_started :: "dict \<Rightarrow> int flt" where
  "load_started doc = (let v = dget doc ''started'' in
     if \<not> truthy v then Inr 0 else case v of PInt n \<Rightarrow> Inr n | PBool t \<Rightarrow> Inr (of_bool t)
     | PStr t \<Rightarrow> (case py_int t of Some n \<Rightarrow> Inr n | None \<Rightarrow> Inl Value_Error) | _ \<Rightarrow> Inl Type_Error)"

definition load_run :: "page_world \<Rightarrow> string list \<Rightarrow> string \<Rightarrow> inventory_disk \<Rightarrow> run flt" where
  "load_run pw secret_keys name d =
     (let f = files_of d name;
          answers = (case fl_env f of None \<Rightarrow> [] | Some t \<Rightarrow> filter (\<lambda>kv. fst kv \<notin> set secret_keys) (read_existing_env t));
          r = (new_run name secret_keys)\<lparr>rn_answers := answers\<rparr> in
      case fl_state f of
        No_State \<Rightarrow> Inr r
      | Bad_State \<Rightarrow> Inl Value_Error
      | State (PDict doc) \<Rightarrow> bindR (load_started doc) (\<lambda>t. Inr (r\<lparr>rn_state := load_state pw doc, rn_started := t\<rparr>))
      | State _ \<Rightarrow> Inl Value_Error)"

section \<open>The registry's sections\<close>

definition entry_get :: "py \<Rightarrow> string \<Rightarrow> py flt" where
  "entry_get v k = (case v of PDict d \<Rightarrow> Inr (dget d k) | _ \<Rightarrow> Inl Attribute_Error)"

definition entry_item :: "py \<Rightarrow> string \<Rightarrow> py flt" where
  "entry_item v k = (case v of PDict d \<Rightarrow> (case map_of d k of Some x \<Rightarrow> Inr x | None \<Rightarrow> Inl (Key_Error k)) | _ \<Rightarrow> Inl Type_Error)"

definition secret_keys_from :: "dict \<Rightarrow> string list flt" where
  "secret_keys_from doc = bindR (items_or (dget doc ''secrets'')) (\<lambda>es.
     bindR (mapR (\<lambda>e. bindR (entry_get e ''key'') (\<lambda>k. Inr (if truthy k then [py_str k] else []))) es) (\<lambda>ks. Inr (concat ks)))"

definition gui_steps :: "dict \<Rightarrow> py list flt" where
  "gui_steps doc = items_or (dget doc ''gui_steps'')"

definition step_entries :: "dict \<Rightarrow> py \<Rightarrow> py list flt" where
  "step_entries doc step = bindR (items_or (dget doc ''secrets'')) (\<lambda>ss. bindR (items_or (dget doc ''config'')) (\<lambda>cs.
     bindR (mapR (\<lambda>e. bindR (entry_get e ''step'') (\<lambda>s. Inr (if py_eq s step then [e] else []))) (ss @ cs)) (\<lambda>es. Inr (concat es))))"

definition is_secret :: "dict \<Rightarrow> py \<Rightarrow> bool flt" where
  "is_secret doc key = bindR (items_or (dget doc ''secrets'')) (\<lambda>es.
     bindR (mapR (\<lambda>e. entry_get e ''key'') es) (\<lambda>ks. Inr (list_ex (\<lambda>k. py_eq k key) ks)))"

definition env_part :: "py \<Rightarrow> string \<Rightarrow> py flt" where
  "env_part e k = bindR (entry_get e ''env'') (\<lambda>env. get_or env k)"

definition default_for :: "py \<Rightarrow> string flt" where
  "default_for e = bindR (env_part e ''default'') (\<lambda>v. Inr (str_or v))"

definition example_for :: "py \<Rightarrow> string flt" where
  "example_for e = bindR (env_part e ''example'') (\<lambda>v. Inr (str_or v))"

definition is_required :: "py \<Rightarrow> bool flt" where
  "is_required e = bindR (entry_get e ''required'') (\<lambda>v. Inr (truthy v))"

definition choice_for :: "py \<Rightarrow> dict flt" where
  "choice_for e = bindR (entry_get e ''gui_choice'') (\<lambda>v. if \<not> truthy v then Inr [] else case v of PDict d \<Rightarrow> Inr d | _ \<Rightarrow> Inl Value_Error)"

definition field_options :: "py \<Rightarrow> string list flt" where
  "field_options e = bindR (env_part e ''options'') (\<lambda>v. bindR (items_or v) (\<lambda>os. Inr (map py_str os)))"

definition suggestions_for :: "page_world \<Rightarrow> py \<Rightarrow> string list flt" where
  "suggestions_for pw e = bindR (entry_get e ''gui_suggestions_from'') (\<lambda>v. Inr (if py_eq v (PStr ''ssh_keys'') then pw_pairs pw else []))"

record field =
  fd_key :: string
  fd_secret :: bool
  fd_optional :: bool
  fd_options :: "string list"
  fd_default :: string
  fd_example :: string
  fd_suggestions :: "string list"
  fd_choice :: dict

definition PROVIDER_PASSWORD :: string where "PROVIDER_PASSWORD = ''host_initial_password''"
definition REINSTALLED :: string where "REINSTALLED = ''reinstalled''"
definition CREATE_KEY :: string where "CREATE_KEY = ''create_key''"

definition via_name :: "string \<Rightarrow> string" where "via_name key = key @ ''__via''"

definition field_of :: "page_world \<Rightarrow> dict \<Rightarrow> py \<Rightarrow> field flt" where
  "field_of pw doc e =
     bindR (entry_item e ''key'') (\<lambda>key. bindR (entry_item e ''label'') (\<lambda>_. bindR (is_secret doc key) (\<lambda>secret. bindR (is_required e) (\<lambda>req.
     bindR (field_options e) (\<lambda>options. bindR (default_for e) (\<lambda>dflt. bindR (entry_item e ''help'') (\<lambda>_. bindR (example_for e) (\<lambda>example.
     bindR (suggestions_for pw e) (\<lambda>suggested. bindR (choice_for e) (\<lambda>choice.
       Inr \<lparr>fd_key = py_str key, fd_secret = secret, fd_optional = \<not> req, fd_options = options, fd_default = dflt,
            fd_example = example, fd_suggestions = suggested, fd_choice = choice\<rparr>))))))))))"

definition provider_password :: field where
  "provider_password = \<lparr>fd_key = PROVIDER_PASSWORD, fd_secret = True, fd_optional = True, fd_options = [], fd_default = [],
     fd_example = [], fd_suggestions = [], fd_choice = []\<rparr>"

record page_section =
  sp_name :: string
  sp_fields :: "field list"

definition build_step :: "page_world \<Rightarrow> dict \<Rightarrow> py \<Rightarrow> page_section flt" where
  "build_step pw doc v =
     bindR (entry_item v ''name'') (\<lambda>name. bindR (step_entries doc name) (\<lambda>es. bindR (mapR (field_of pw doc) es) (\<lambda>fs.
     bindR (entry_item v ''title'') (\<lambda>_. bindR (entry_item v ''doc'') (\<lambda>_.
       Inr \<lparr>sp_name = py_str name, sp_fields = fs @ (if py_eq name (PStr ''target'') then [provider_password] else [])\<rparr>)))))"

definition build :: "page_world \<Rightarrow> dict \<Rightarrow> page_section list flt" where
  "build pw doc = bindR (gui_steps doc) (mapR (build_step pw doc))"

section \<open>The checks\<close>

record check =
  ck_label :: string
  ck_ok :: bool
  ck_blocking :: bool
  ck_confirm :: string

definition blocks :: "check \<Rightarrow> bool" where "blocks c = (\<not> ck_ok c \<and> ck_blocking c)"

definition blocked :: "check list \<Rightarrow> bool" where "blocked cs = list_ex blocks cs"

definition check_that :: "string \<Rightarrow> bool \<Rightarrow> check" where
  "check_that label ok = \<lparr>ck_label = label, ck_ok = ok, ck_blocking = True, ck_confirm = []\<rparr>"

definition missing_required :: "page_section \<Rightarrow> strs \<Rightarrow> string list \<Rightarrow> check list" where
  "missing_required st vals private =
     map (\<lambda>f. check_that ''check.required'' False)
       (filter (\<lambda>f. (\<not> fd_optional f \<or> fd_key f \<in> set private) \<and> env_text vals (fd_key f) = []) (sp_fields st))"

definition ssh_address :: "strs \<Rightarrow> string" where
  "ssh_address answers = (if env_text answers ''HOST_SSH_ADDRESS'' \<noteq> [] then env_text answers ''HOST_SSH_ADDRESS'' else env_text answers ''HOST_PUBLIC_IP'')"

definition key_path :: "page_world \<Rightarrow> strs \<Rightarrow> string option" where
  "key_path pw answers = (let raw = env_text answers ''SSH_PRIVATE_KEY'' in if raw = [] then None else Some (pw_expand pw raw))"

definition key_login_ok :: "ssh_world \<Rightarrow> string \<Rightarrow> int \<Rightarrow> string \<Rightarrow> string \<Rightarrow> bool \<Rightarrow> bool ssh" where
  "key_login_ok w host port user key reinstalled =
     catchS (bindS (connect_key w host port user key reinstalled False) (\<lambda>se. thenS (close_session se) (ret True)))
       (\<lambda>e. if is_remote e then Some (ret False) else None)"

fun any_login :: "ssh_world \<Rightarrow> string \<Rightarrow> int \<Rightarrow> string list \<Rightarrow> string \<Rightarrow> bool \<Rightarrow> bool ssh" where
  "any_login w host port [] key reinstalled = ret False"
| "any_login w host port (u # us) key reinstalled =
     bindS (key_login_ok w host port u key reinstalled) (\<lambda>ok. if ok then ret True else any_login w host port us key reinstalled)"

text \<open>Python's isdigit takes the superscripts two, three and one as well, which its int refuses.\<close>

definition isdigit :: "string \<Rightarrow> bool" where
  "isdigit s = (s \<noteq> [] \<and> list_all (\<lambda>c. is_digit c \<or> of_char c \<in> {178, 179, 185 :: nat}) s)"

text \<open>The users a key is tried for: the initial login, then the ops account.\<close>

definition probe_users :: "strs \<Rightarrow> string list" where
  "probe_users answers = first_seen [env_or answers ''HOST_INITIAL_USER'' ''root'',
     (case map_of answers ''OPS_USER'' of None \<Rightarrow> ''ops'' | Some v \<Rightarrow> if v = [] then ''ops'' else strip v)]"

definition probe_login :: "ssh_world \<Rightarrow> strs \<Rightarrow> strs \<Rightarrow> string \<Rightarrow> int \<Rightarrow> string \<Rightarrow> bool \<Rightarrow> check list \<Rightarrow> check list ssh" where
  "probe_login w answers secrets host port key reinstalled cs =
     bindS (any_login w host port (probe_users answers) key reinstalled) (\<lambda>ok.
       if ok then ret (cs @ [check_that ''check.key_opens'' True])
       else (let password = (case map_of secrets PROVIDER_PASSWORD of None \<Rightarrow> [] | Some p \<Rightarrow> p) in
         if password = [] then ret (cs @ [check_that ''check.key_refused'' False])
         else bindS (check_password w host port (env_or answers ''HOST_INITIAL_USER'' ''root'') password reinstalled) (\<lambda>(opens, _).
           ret (cs @ [check_that ''check.password_opens'' opens]))))"

definition probe_keypair :: "ssh_world \<Rightarrow> page_world \<Rightarrow> box \<Rightarrow> strs \<Rightarrow> strs \<Rightarrow> string \<Rightarrow> int \<Rightarrow> bool \<Rightarrow> bool \<Rightarrow> check list \<Rightarrow> check list ssh" where
  "probe_keypair w pw b answers secrets host port reinstalled speaks cs =
     (let key = key_path pw answers;
          have = (case key of None \<Rightarrow> False | Some k \<Rightarrow> bx_read b k \<noteq> None \<and> bx_read b (k @ ''.pub'') \<noteq> None);
          cs' = cs @ [(check_that ''check.keypair'' have)\<lparr>ck_confirm := if have \<or> key = None then [] else CREATE_KEY\<rparr>] in
      if \<not> (speaks \<and> have) then ret cs' else probe_login w answers secrets host port (the key) reinstalled cs')"

definition check_target :: "ssh_world \<Rightarrow> page_world \<Rightarrow> box \<Rightarrow> strs \<Rightarrow> strs \<Rightarrow> bool \<Rightarrow> check list ssh" where
  "check_target w pw b answers secrets reinstalled =
     (let host = ssh_address answers; port_raw = env_or answers ''HOST_SSH_PORT'' ''22'' in
      if host = [] then ret []
      else if \<not> isdigit port_raw then ret [check_that ''check.port'' False]
      else case py_int port_raw of
        None \<Rightarrow> raise (Other_Error ''invalid literal for int()'')
      | Some port \<Rightarrow>
        bindS (getS (\<lambda>s. prefix ''SSH-'' (pw_banner pw (st_done s) host port))) (\<lambda>speaks.
        let cs = [check_that ''check.ssh_answers'' speaks] in
        if \<not> speaks then probe_keypair w pw b answers secrets host port reinstalled False cs
        else bindS (changed w host port) (\<lambda>(ts, _).
          if ts \<noteq> [] \<and> \<not> reinstalled then ret (cs @ [(check_that ''check.host_key'' False)\<lparr>ck_confirm := REINSTALLED\<rparr>])
          else probe_keypair w pw b answers secrets host port reinstalled True
                 (cs @ (if ts \<noteq> [] then [check_that ''check.host_key_new'' True] else [])))))"

definition validate :: "ssh_world \<Rightarrow> page_world \<Rightarrow> box \<Rightarrow> string \<Rightarrow> strs \<Rightarrow> strs \<Rightarrow> bool \<Rightarrow> check list ssh" where
  "validate w pw b step answers secrets reinstalled =
     (if step = ''target'' then check_target w pw b answers secrets reinstalled else ret [])"

definition forward_command :: "strs \<Rightarrow> string" where
  "forward_command answers =
     (let host = (if ssh_address answers = [] then ''<server-address>'' else ssh_address answers);
          port = env_or answers ''HOST_SSH_PORT'' ''22''; key = env_text answers ''SSH_PRIVATE_KEY'' in
      ''ssh -N -L '' @ dec_int PANEL_PORT @ '':127.0.0.1:'' @ dec_int PANEL_PORT @ (if key = [] then [] else '' -i '' @ key)
      @ (if port = ''22'' then [] else '' -p '' @ port) @ '' '' @ PANEL_USER @ ''@'' @ host)"

end
