(* ===== verification/Page_Requests.thy ===== *)
theory Page_Requests
  imports Install_Page
begin

text \<open>
  The requests of the installer's page and the install's thread: the handlers of
  \<open>src/installer/catena_installer/server.py\<close> as steps of one state, the objects of \<open>run.py\<close> with their
  identities, the disk, and the threads that are running. What the thread's install gives (\<open>install_run\<close>
  of \<open>Server_Install\<close>) is a parameter of the step that ends it. Redirections and the HTML are left out.
\<close>

section \<open>Definitions\<close>

type_synonym form = "(string \<times> string list) list"

record thread =
  th_run :: nat
  th_opts :: options

text \<open>A form request between its probes and its end: what it found, and whether the server was said to be reinstalled.\<close>

record pending =
  pd_checks :: "check list"
  pd_reinstalled :: bool

record page =
  pg_runs :: "run list"
  pg_current :: "nat option"
  pg_threads :: "thread list"
  pg_disk :: inventory_disk
  pg_box :: box
  pg_ssh :: ssh_state
  pg_checks :: "check list"
  pg_problem :: "(string \<times> string) option"
  pg_pending :: "pending list"

definition form_text :: "form \<Rightarrow> string \<Rightarrow> string \<Rightarrow> string" where
  "form_text form k dflt = (case map_of form k of Some (v # _) \<Rightarrow> v | _ \<Rightarrow> dflt)"

definition current_run :: "page \<Rightarrow> run" where
  "current_run p = pg_runs p ! the (pg_current p)"

definition set_run :: "nat \<Rightarrow> run \<Rightarrow> page \<Rightarrow> page" where
  "set_run i r p = p\<lparr>pg_runs := (pg_runs p)[i := r]\<rparr>"

subsection \<open>Opening an inventory\<close>

definition open_run :: "page_world \<Rightarrow> string list \<Rightarrow> string \<Rightarrow> page \<Rightarrow> page flt" where
  "open_run pw secret_keys name p = bindR (load_run pw secret_keys name (pg_disk p)) (\<lambda>r.
     Inr (p\<lparr>pg_runs := pg_runs p @ [r], pg_current := Some (length (pg_runs p)), pg_checks := [],
       pg_disk := (if map_of (pg_disk p) name = None then save pw r (pg_disk p) else pg_disk p)\<rparr>))"

definition inventory_names :: "inventory_disk \<Rightarrow> string list" where
  "inventory_names d = inventories (map (\<lambda>e. (fst e, True)) d)"

definition post_inventory :: "page_world \<Rightarrow> string list \<Rightarrow> form \<Rightarrow> page \<Rightarrow> page flt" where
  "post_inventory pw secret_keys form p =
     (let opened = strip (form_text form ''open'' []) in
      if opened \<noteq> [] then
        (if opened \<notin> set (inventory_names (pg_disk p)) then Inr (p\<lparr>pg_problem := Some (''inventory.problem.unknown'', opened)\<rparr>)
         else open_run pw secret_keys opened p)
      else
        (let name = strip (form_text form ''create'' []); problem = inventory_name_problem name (map_of (pg_disk p) name \<noteq> None) in
         if problem \<noteq> [] then Inr (p\<lparr>pg_problem := Some (''inventory.problem.'' @ problem, name)\<rparr>)
         else open_run pw secret_keys name p))"

subsection \<open>Saving the form and starting the install\<close>

text \<open>One field of the form: the run with its answer, and the fields whose choice is set to private.\<close>

definition take_field :: "form \<Rightarrow> run \<times> string list \<Rightarrow> field \<Rightarrow> run \<times> string list" where
  "take_field form acc f = (case map_of form (fd_key f) of
      Some (v # _) \<Rightarrow>
        (let private = fd_choice f \<noteq> [] \<and> form_text form (via_name (fd_key f)) ''public'' = ''private'';
             val = (if fd_choice f \<noteq> [] \<and> \<not> private then [] else v) in
         (take_answer (fd_key f) val (fd_secret f) (fst acc), if private then snd acc @ [fd_key f] else snd acc))
    | _ \<Rightarrow> acc)"

definition take_form :: "page_section list \<Rightarrow> form \<Rightarrow> run \<Rightarrow> run \<times> string list" where
  "take_form steps form r = foldl (take_field form) (r, []) (concat (map sp_fields steps))"

definition shown_value :: "run \<Rightarrow> field \<Rightarrow> string" where
  "shown_value r f = (if value_of r (fd_key f) \<noteq> [] then value_of r (fd_key f) else if fd_default f \<noteq> [] then fd_default f
     else case fd_options f of [] \<Rightarrow> [] | o1 # _ \<Rightarrow> o1)"

definition shown_values :: "page_section list \<Rightarrow> run \<Rightarrow> strs" where
  "shown_values steps r = foldl (\<lambda>d f. AList.update (fd_key f) (shown_value r f) d) [] (concat (map sp_fields steps))"

definition ticked :: "form \<Rightarrow> string \<Rightarrow> bool" where "ticked form k = (form_text form k [] = ''yes'')"

text \<open>\<open>keys.create\<close> of the pair the form names: the files it leaves, or why it made none.\<close>

definition make_key :: "page_world \<Rightarrow> string \<Rightarrow> box \<Rightarrow> run \<Rightarrow> box \<times> run" where
  "make_key pw key b r = (case pw_keygen pw key of
      Inl m \<Rightarrow> (b, log_append (''catena-installer: '' @ m) r)
    | Inr (priv, pub) \<Rightarrow> (b\<lparr>bx_read := (bx_read b)(key \<mapsto> priv, key @ ''.pub'' \<mapsto> pub)\<rparr>, r))"

definition create_key :: "page_world \<Rightarrow> form \<Rightarrow> box \<Rightarrow> run \<Rightarrow> box \<times> run" where
  "create_key pw form b r = (case key_path pw (rn_answers r) of
      Some key \<Rightarrow> if ticked form CREATE_KEY \<and> bx_read b key = None then make_key pw key b r else (b, r)
    | None \<Rightarrow> (b, r))"

fun check_steps :: "ssh_world \<Rightarrow> page_world \<Rightarrow> box \<Rightarrow> run \<Rightarrow> strs \<Rightarrow> string list \<Rightarrow> bool \<Rightarrow> page_section list \<Rightarrow> check list ssh" where
  "check_steps w pw b r vals private reinstalled [] = ret []"
| "check_steps w pw b r vals private reinstalled (st # sts) =
     (let missing = missing_required st vals private in
      bindS (if missing \<noteq> [] then ret missing else validate w pw b (sp_name st) (rn_answers r) (rn_secrets r) reinstalled) (\<lambda>cs.
      bindS (check_steps w pw b r vals private reinstalled sts) (\<lambda>cs'. ret (cs @ cs'))))"

definition install_options :: "run \<Rightarrow> bool \<Rightarrow> options" where
  "install_options r reinstalled =
     \<lparr>op_release = [], op_image = [], op_ca_file = [], op_insecure = False, op_address = [], op_tags = [],
      op_reinstalled = reinstalled, op_keyset_json = True,
      op_password = (case map_of (rn_secrets r) PROVIDER_PASSWORD of Some p \<Rightarrow> p | None \<Rightarrow> []),
      op_adopt = filter (\<lambda>kv. \<not> blank (snd kv)) (AList.delete PROVIDER_PASSWORD (rn_secrets r)), op_outside = True\<rparr>"

definition start_install :: "page_world \<Rightarrow> nat \<Rightarrow> bool \<Rightarrow> page \<Rightarrow> page" where
  "start_install pw i reinstalled p =
     (let r = (pg_runs p ! i)\<lparr>rn_state := state_word Installing, rn_log := []\<rparr> in
      (set_run i r p)\<lparr>pg_disk := save pw r (pg_disk p),
        pg_threads := pg_threads p @ [\<lparr>th_run = i, th_opts = install_options r reinstalled\<rparr>]\<rparr>)"

text \<open>
  The form of the page. The probes of the target take seconds, and other requests are served meanwhile, so
  a request is two parts: \<open>post_begin\<close> ends with the checks it found, and \<open>post_finish\<close> saves and starts
  what is the page's run by then. An exception of a probe leaves the answers in the run, unsaved.
\<close>

definition post_begin :: "ssh_world \<Rightarrow> page_world \<Rightarrow> page_section list \<Rightarrow> form \<Rightarrow> page \<Rightarrow> (rerror + pending option) \<times> page" where
  "post_begin w pw steps form p = (case pg_current p of
      None \<Rightarrow> (Inr None, p)
    | Some i \<Rightarrow>
        if rn_state (pg_runs p ! i) = state_word Installing then (Inr None, p)
        else
          (let (r, private) = take_form steps form (pg_runs p ! i); vals = shown_values steps r; reinstalled = ticked form REINSTALLED;
               (b, r') = create_key pw form (pg_box p) r in
           case check_steps w pw b r' vals private reinstalled steps (pg_ssh p) of
             (Inl e, s) \<Rightarrow> (Inl e, (set_run i r' p)\<lparr>pg_box := b, pg_ssh := s\<rparr>)
           | (Inr cs, s) \<Rightarrow> (Inr (Some \<lparr>pd_checks = cs, pd_reinstalled = reinstalled\<rparr>), (set_run i r' p)\<lparr>pg_box := b, pg_ssh := s\<rparr>)))"

definition post_finish :: "page_world \<Rightarrow> pending \<Rightarrow> page \<Rightarrow> page" where
  "post_finish pw pd p = (case pg_current p of
      None \<Rightarrow> p
    | Some i \<Rightarrow>
        (let p' = p\<lparr>pg_checks := pd_checks pd, pg_disk := save pw (pg_runs p ! i) (pg_disk p)\<rparr> in
         if blocked (pd_checks pd) then p' else start_install pw i (pd_reinstalled pd) p'))"

text \<open>A request that nothing overlaps.\<close>

definition post_install :: "ssh_world \<Rightarrow> page_world \<Rightarrow> page_section list \<Rightarrow> form \<Rightarrow> page \<Rightarrow> (rerror + unit) \<times> page" where
  "post_install w pw steps form p = (case post_begin w pw steps form p of
      (Inl e, p') \<Rightarrow> (Inl e, p')
    | (Inr None, p') \<Rightarrow> (Inr (), p')
    | (Inr (Some pd), p') \<Rightarrow> (Inr (), post_finish pw pd p'))"

text \<open>\<open>POST /connect\<close>: the forward opens, or its run's log says why not.\<close>

definition post_connect :: "(string + unit) \<Rightarrow> page \<Rightarrow> page" where
  "post_connect opened p = (case pg_current p of
      None \<Rightarrow> p
    | Some i \<Rightarrow>
        (let r = pg_runs p ! i in
         if rn_forward r then p
         else case opened of
           Inr _ \<Rightarrow> set_run i (r\<lparr>rn_forward := True\<rparr>) p
         | Inl why \<Rightarrow> set_run i (log_append (''catena-installer: the panel forward did not open: '' @ why) r) p))"

subsection \<open>The install's thread\<close>

text \<open>\<open>_ANSI.sub("", text)\<close>.\<close>

fun ansi_tail :: "string \<Rightarrow> string option" where
  "ansi_tail [] = None"
| "ansi_tail (c # s) = (if is_digit c \<or> c = CHR '';'' then ansi_tail s else if c = CHR ''m'' then Some s else None)"

lemma ansi_tail_length: "ansi_tail s = Some t \<Longrightarrow> length t < length s"
  by (induction s) (auto split: if_splits)

function strip_ansi :: "string \<Rightarrow> string" where
  "strip_ansi s = (case s of
      [] \<Rightarrow> []
    | c # rest \<Rightarrow>
        if c = CHR 0x1B \<and> prefix ''['' rest then (case ansi_tail (tl rest) of Some t \<Rightarrow> strip_ansi t | None \<Rightarrow> c # strip_ansi rest)
        else c # strip_ansi rest)"
  by pat_completeness auto
termination
  by (relation "measure length") (auto dest!: ansi_tail_length)

declare strip_ansi.simps [simp del]

definition thread_line :: "nat \<Rightarrow> string \<Rightarrow> page \<Rightarrow> page" where
  "thread_line i l p = set_run i (log_append (strip_ansi l) (pg_runs p ! i)) p"

definition thread_keyset :: "nat \<Rightarrow> strs \<Rightarrow> page \<Rightarrow> page" where
  "thread_keyset i ks p = set_run i ((pg_runs p ! i)\<lparr>rn_keyset := ks\<rparr>) p"

text \<open>
  The end of the thread: the install returned a status, or raised. An exception that is not a
  \<open>RemoteError\<close> ends the thread where it is.
\<close>

definition thread_end :: "page_world \<Rightarrow> thread \<Rightarrow> rerror + int \<Rightarrow> string + unit \<Rightarrow> page \<Rightarrow> page" where
  "thread_end pw th res forward p =
     (let i = th_run th; gone = p\<lparr>pg_threads := remove1 th (pg_threads p)\<rparr>; r = pg_runs p ! i in
      case res of
        Inl e \<Rightarrow>
          if \<not> is_remote e then gone
          else (let r' = (log_append (strip_ansi (''catena-installer: '' @ error_text e)) r)\<lparr>rn_state := state_word Failed\<rparr> in
                (set_run i r' gone)\<lparr>pg_disk := save pw r' (pg_disk p)\<rparr>)
      | Inr rc \<Rightarrow>
          (let r' = r\<lparr>rn_state := state_word (if rc = 0 then Done else Failed)\<rparr>; p' = (set_run i r' gone)\<lparr>pg_disk := save pw r' (pg_disk p)\<rparr> in
           if rc \<noteq> 0 \<or> rn_forward r' then p'
           else case forward of
             Inr _ \<Rightarrow> set_run i (r'\<lparr>rn_forward := True\<rparr>) p'
           | Inl why \<Rightarrow> set_run i (log_append (''catena-installer: the panel forward did not open: '' @ why) r') p'))"

subsection \<open>Steps\<close>

text \<open>The requests served one at a time, between the steps of the installs' threads.\<close>

inductive page_step :: "ssh_world \<Rightarrow> page_world \<Rightarrow> page_section list \<Rightarrow> string list \<Rightarrow> page \<Rightarrow> page \<Rightarrow> bool" for w pw steps keys where
  posts_form: "page_step w pw steps keys p (snd (post_install w pw steps form p))"
| posts_inventory: "post_inventory pw keys form p = Inr p' \<Longrightarrow> page_step w pw steps keys p p'"
| posts_connect: "page_step w pw steps keys p (post_connect opened p)"
| prints: "th \<in> set (pg_threads p) \<Longrightarrow> page_step w pw steps keys p (thread_line (th_run th) l p)"
| shows_keys: "th \<in> set (pg_threads p) \<Longrightarrow> page_step w pw steps keys p (thread_keyset (th_run th) ks p)"
| ends: "th \<in> set (pg_threads p) \<Longrightarrow> page_step w pw steps keys p (thread_end pw th res forward p)"

text \<open>The server as it is, \<open>ThreadingHTTPServer\<close>: form requests overlap each other and every other step.\<close>

inductive overlap_step :: "ssh_world \<Rightarrow> page_world \<Rightarrow> page_section list \<Rightarrow> string list \<Rightarrow> page \<Rightarrow> page \<Rightarrow> bool" for w pw steps keys where
  alone: "page_step w pw steps keys p p' \<Longrightarrow> overlap_step w pw steps keys p p'"
| begins: "post_begin w pw steps form p = (Inr (Some pd), p') \<Longrightarrow>
     overlap_step w pw steps keys p (p'\<lparr>pg_pending := pg_pending p' @ [pd]\<rparr>)"
| finishes: "pd \<in> set (pg_pending p) \<Longrightarrow>
     overlap_step w pw steps keys p ((post_finish pw pd p)\<lparr>pg_pending := remove1 pd (pg_pending p)\<rparr>)"

end
