(* ===== verification/Page_Sound.thy ===== *)
theory Page_Sound
  imports Page_Requests
begin

text \<open>
  What the installer's page promises: a probe leaves nothing behind and reaches no server but a trusted one,
  an inventory is never installed twice at once, and a run that was saved opens again with its answers and
  without its credentials. And two ways in which the page can be left showing an install that has ended.
\<close>

section \<open>The probe\<close>

definition target_port :: "strs \<Rightarrow> int" where
  "target_port answers = (case py_int (env_or answers ''HOST_SSH_PORT'' ''22'') of None \<Rightarrow> 0 | Some n \<Rightarrow> n)"

text \<open>Every connection that records no key is good: then the probe keeps the invariant.\<close>

locale probe_invariant = conn_invariant I good for I :: "ssh_state \<Rightarrow> bool" and good :: "conn \<Rightarrow> bool" +
  fixes w :: ssh_world and host :: string and port :: int and ri :: bool
  assumes probes_good: "(r \<longrightarrow> ri) \<Longrightarrow> triple I (transport w host port r False) (\<lambda>cn s. I s \<and> good cn) I"
begin

lemma inv_probing: "(r \<longrightarrow> ri) \<Longrightarrow> (\<And>cn. good cn \<Longrightarrow> inv I (f cn)) \<Longrightarrow> inv I (bindS (transport w host port r False) f)"
  by (rule inv_bind_triple [OF probes_good])

lemma inv_key_login_ok: "(r \<longrightarrow> ri) \<Longrightarrow> inv I (key_login_ok w host port u k r)"
  unfolding key_login_ok_def connect_key_def bindS_assoc
  by (auto intro!: inv_intros inv_probing inv_key_login inv_close_session split: if_splits)

lemma inv_any_login: "(r \<longrightarrow> ri) \<Longrightarrow> inv I (any_login w host port us k r)"
  by (induction us) (auto intro!: inv_intros inv_key_login_ok)

lemma probe_shell_good: "(r \<longrightarrow> ri) \<Longrightarrow> triple I (password_shell w host port u p r False) (\<lambda>cn s. I s \<and> good cn) I"
  unfolding password_shell_def
  by (rule triple_bindS [OF probes_good], assumption, rule triple_good, rule triple_inv)
    (auto intro!: inv_password_login dest: password_login_conn)

lemma inv_check_password:
  assumes "r \<longrightarrow> ri"
  shows "inv I (check_password w host port u p r)"
proof -
  let ?c = "catchS (bindS (password_shell w host port u p r False) (\<lambda>cn. ret (Some cn))) (\<lambda>e. case e of Auth_Refused m \<Rightarrow> Some (ret None) | _ \<Rightarrow> None)"
  have "triple I ?c (\<lambda>q s. I s \<and> (\<forall>cn. q = Some cn \<longrightarrow> good cn)) I"
  proof (rule triple_catch)
    show "triple I (bindS (password_shell w host port u p r False) (\<lambda>cn. ret (Some cn))) (\<lambda>q s. I s \<and> (\<forall>cn. q = Some cn \<longrightarrow> good cn)) I"
      by (rule triple_bindS [OF probe_shell_good [OF assms]]) (simp add: triple_ret)
  qed (auto simp: triple_ret split: rerror.splits)
  then show ?thesis unfolding check_password_def
    by (rule inv_bind_triple) (auto intro!: inv_intros inv_change_prompt inv_term_sync inv_acts split: option.splits if_splits)
qed

lemma inv_changed: "inv I (changed w host port)"
  unfolding changed_def by (auto intro!: inv_intros inv_probing inv_acts split: rerror.splits if_splits)

lemma inv_check_target:
  assumes "ssh_address answers = host" and "target_port answers = port" and "r \<longrightarrow> ri"
  shows "inv I (check_target w pw b answers secrets r)"
proof -
  have log: "inv I (probe_login w answers secrets host port k r cs)" for k cs
    unfolding probe_login_def using assms(3) by (auto simp: Let_def intro!: inv_intros inv_any_login inv_check_password)
  have pair: "inv I (probe_keypair w pw b answers secrets host port r sp cs)" for sp cs
    unfolding probe_keypair_def by (auto simp: Let_def intro!: inv_intros log)
  show ?thesis
  proof (cases "py_int (env_or answers ''HOST_SSH_PORT'' ''22'')")
    case None
    then show ?thesis unfolding check_target_def Let_def by (auto intro!: inv_intros)
  next
    case (Some n)
    then have "n = port" using assms(2) by (simp add: target_port_def)
    with Some show ?thesis unfolding check_target_def Let_def assms(1)
      by (auto intro!: inv_intros pair inv_changed)
  qed
qed

end

sublocale login_invariant \<subseteq> probing: probe_invariant I good w host port ri
  by unfold_locales (rule reaches_good)

interpretation kc: conn_invariant "\<lambda>s. st_known s = known" "\<lambda>_. True" for known
  by unfold_locales simp_all

lemma transport_unrecorded: "inv (\<lambda>s. st_known s = known) (transport w host port r False)"
  by (auto simp: transport_def settle_key_def Let_def whenS_def intro!: inv_intros kc.inv_acts split: option.splits sum.splits)

interpretation kp: probe_invariant "\<lambda>s. st_known s = known" "\<lambda>_. True" w host port True for known w host port
  using transport_unrecorded by unfold_locales (simp add: inv_def)

text \<open>C14: The page's probe of the server leaves the known hosts file as it is, also when the client says the server was
  reinstalled; and without that word, when this machine trusts a key for the server, neither a login nor
  the provider's password nor anything else goes to a server that presents another.\<close>

theorem probe_leaves_no_trace:
  "st_known (snd (check_target w pw b answers secrets r s)) = st_known s
    \<and> (\<not> r \<and> trusted w (st_known s) (known_name (ssh_address answers) (target_port answers)) \<noteq> [] \<longrightarrow>
        (\<exists>as. st_done (snd (check_target w pw b answers secrets r s)) = st_done s @ as
          \<and> (\<forall>a \<in> set as. \<forall>cn. on_conn a = Some cn \<longrightarrow>
               key_trusted (trusted w (st_known s) (known_name (cn_host cn) (cn_port cn))) (cn_key cn))))"
proof (intro conjI impI)
  have "inv (\<lambda>t. st_known t = st_known s) (check_target w pw b answers secrets r)"
    by (rule kp.inv_check_target [OF refl refl]) simp
  from inv_step [OF this] show "st_known (snd (check_target w pw b answers secrets r s)) = st_known s" by simp
next
  let ?I = "vouched_run w (ssh_address answers) (target_port answers) (st_known s) (st_done s)"
  assume a: "\<not> r \<and> trusted w (st_known s) (known_name (ssh_address answers) (target_port answers)) \<noteq> []"
  have "inv ?I (check_target w pw b answers secrets r)"
    by (rule vl.probing.inv_check_target [OF refl refl]) (use a in simp)
  from inv_step [OF this] a have "?I (snd (check_target w pw b answers secrets r s))" by (simp add: vouched_run_def)
  then show "\<exists>as. st_done (snd (check_target w pw b answers secrets r s)) = st_done s @ as
      \<and> (\<forall>a \<in> set as. \<forall>cn. on_conn a = Some cn \<longrightarrow>
           key_trusted (trusted w (st_known s) (known_name (cn_host cn) (cn_port cn))) (cn_key cn))"
    by (fastforce simp: vouched_run_def list_all_iff vouched_action_def vouched_def split: option.splits)
qed

text \<open>A port that is a superscript digit passes the test for digits and stops the probe at the conversion.\<close>

lemma superscript_port_raises:
  assumes "ssh_address answers \<noteq> []" and "env_or answers ''HOST_SSH_PORT'' ''22'' = [CHR 0xB2]"
  shows "check_target w pw b answers secrets r s = (Inl (Other_Error ''invalid literal for int()''), s)"
proof -
  have "isdigit [CHR 0xB2]" and "py_int [CHR 0xB2] = None" by code_simp+
  then show ?thesis using assms by (simp add: check_target_def Let_def raise_def)
qed

section \<open>One install at a time\<close>

definition busy :: "page \<Rightarrow> string list" where
  "busy p = map (\<lambda>th. rn_name (pg_runs p ! th_run th)) (pg_threads p)"

text \<open>The state file says that this process is installing.\<close>

definition says_installing :: "page_world \<Rightarrow> inventory_files \<Rightarrow> bool" where
  "says_installing pw f = (\<exists>t. fl_state f = State (PDict [(''state'', PStr (state_word Installing)), (''started'', PInt t), (''pid'', PInt (pw_pid pw))]))"

definition page_ok :: "page_world \<Rightarrow> page \<Rightarrow> bool" where
  "page_ok pw p = ((\<forall>th \<in> set (pg_threads p). th_run th < length (pg_runs p))
     \<and> (\<forall>i. pg_current p = Some i \<longrightarrow> i < length (pg_runs p))
     \<and> distinct (busy p)
     \<and> (\<forall>n \<in> set (busy p). map_of (pg_disk p) n \<noteq> None \<and> says_installing pw (files_of (pg_disk p) n))
     \<and> (\<forall>i. pg_current p = Some i \<longrightarrow> rn_name (pg_runs p ! i) \<in> set (busy p) \<longrightarrow> rn_state (pg_runs p ! i) = state_word Installing))"

text \<open>Changing a run's answers, log, passwords or forward, and what is beside the runs.\<close>

definition same_run :: "run \<Rightarrow> run \<Rightarrow> bool" where
  "same_run r r' = (rn_name r' = rn_name r \<and> rn_state r' = rn_state r)"

lemma page_ok_calm:
  assumes "page_ok pw p" and "same_run (pg_runs p ! i) r"
    and "pg_runs p' = (pg_runs p)[i := r]" "pg_current p' = pg_current p" "pg_threads p' = pg_threads p" "pg_disk p' = pg_disk p"
  shows "page_ok pw p'"
proof -
  have n: "rn_name (pg_runs p' ! j) = rn_name (pg_runs p ! j) \<and> rn_state (pg_runs p' ! j) = rn_state (pg_runs p ! j)" for j
    using assms(2,3) by (cases "i < length (pg_runs p)") (auto simp: same_run_def nth_list_update list_update_beyond)
  have "busy p' = busy p" by (simp add: busy_def n assms(5))
  moreover have "length (pg_runs p') = length (pg_runs p)" by (simp add: assms(3))
  ultimately show ?thesis using assms(1) unfolding page_ok_def by (simp add: n assms(4-6))
qed

lemma page_ok_set_run: "page_ok pw p \<Longrightarrow> same_run (pg_runs p ! i) r \<Longrightarrow> page_ok pw (set_run i r p)"
  by (rule page_ok_calm) (simp_all add: set_run_def)

text \<open>A run no thread works on may change its state.\<close>

lemma busy_set_run: "rn_name r = rn_name (pg_runs p ! i) \<Longrightarrow> busy (set_run i r p) = busy p"
  by (cases "i < length (pg_runs p)") (auto simp: busy_def set_run_def nth_list_update list_update_beyond)

lemma page_ok_idle:
  assumes "page_ok pw p" and "rn_name (pg_runs p ! i) \<notin> set (busy p)" and "rn_name r = rn_name (pg_runs p ! i)"
  shows "page_ok pw (set_run i r p)"
proof -
  have "rn_state ((pg_runs p)[i := r] ! j) = state_word Installing"
    if "pg_current p = Some j" "rn_name ((pg_runs p)[i := r] ! j) \<in> set (busy p)" for j
  proof (cases "j = i")
    case True
    with that assms show ?thesis by (auto simp: page_ok_def)
  next
    case False
    with that assms(1) show ?thesis by (simp add: page_ok_def)
  qed
  then show ?thesis using assms(1) unfolding page_ok_def busy_set_run [OF assms(3)] by (simp add: set_run_def)
qed

lemma same_run_refl [simp]: "same_run r r"
  and same_run_log [simp]: "same_run r (log_append l r') \<longleftrightarrow> same_run r r'"
  and same_run_trans: "same_run r1 r2 \<Longrightarrow> same_run r2 r3 \<Longrightarrow> same_run r1 r3"
  by (auto simp: same_run_def log_append_def Let_def)

lemma same_run_answer: "same_run r (take_answer k v x r)"
  by (simp add: same_run_def take_answer_def)

lemma same_run_form: "same_run r (fst (take_form steps form r))"
proof -
  have "same_run (fst acc) (fst (foldl (take_field form) acc fs))" for acc fs
  proof (induction fs arbitrary: acc)
    case (Cons f fs)
    have "same_run (fst acc) (fst (take_field form acc f))"
      by (auto simp: take_field_def Let_def same_run_answer split: option.splits list.splits)
    with Cons [of "take_field form acc f"] show ?case by (auto intro: same_run_trans)
  qed simp
  from this [of "(r, [])"] show ?thesis by (simp add: take_form_def)
qed

lemma same_run_key: "same_run r (snd (create_key pw form b r))"
  by (auto simp: create_key_def make_key_def split: option.splits sum.splits)

lemma files_of_save: "files_of (save pw r d) n = (if n = rn_name r
    then \<lparr>fl_env = Some (write_env (pw_knobs pw) (pw_template pw) (kept_answers r) (fl_env (files_of d n))), fl_state = State (state_payload pw r)\<rparr>
    else files_of d n)"
  by (simp add: files_of_def save_def update_conv')

lemma map_of_save_other: "n \<noteq> rn_name r \<Longrightarrow> map_of (save pw r d) n = map_of d n"
  by (simp add: save_def update_conv')

lemma map_of_save: "map_of (save pw r d) n = None \<longleftrightarrow> n \<noteq> rn_name r \<and> map_of d n = None"
  by (simp add: save_def update_conv')

text \<open>Saving a run no thread works on.\<close>

lemma page_ok_save:
  assumes "page_ok pw p" and "rn_name r \<notin> set (busy p)" and "pg_disk p' = save pw r (pg_disk p)"
    and "pg_runs p' = pg_runs p" "pg_current p' = pg_current p" "pg_threads p' = pg_threads p"
  shows "page_ok pw p'"
proof -
  have "busy p' = busy p" by (simp add: busy_def assms)
  then show ?thesis using assms(1,2) unfolding page_ok_def
    by (auto simp: assms(3-6) files_of_save map_of_save)
qed

lemma page_ok_start:
  assumes "page_ok pw p" and "pg_current p = Some i" and "rn_name (pg_runs p ! i) \<notin> set (busy p)"
  shows "page_ok pw (start_install pw i ri p)"
proof -
  let ?r = "(pg_runs p ! i)\<lparr>rn_state := state_word Installing, rn_log := []\<rparr>" and ?q = "start_install pw i ri p"
  have i: "i < length (pg_runs p)" using assms(1,2) by (simp add: page_ok_def)
  have th: "th_run th \<noteq> i" if "th \<in> set (pg_threads p)" for th using assms(3) that by (auto simp: busy_def)
  have runs: "pg_runs ?q = (pg_runs p)[i := ?r]" and disk: "pg_disk ?q = save pw ?r (pg_disk p)" and cur: "pg_current ?q = Some i"
    and len: "length (pg_runs ?q) = length (pg_runs p)"
    using assms(2) by (simp_all add: start_install_def set_run_def Let_def)
  have busy: "busy ?q = busy p @ [rn_name (pg_runs p ! i)]"
    using i th by (auto simp: busy_def start_install_def set_run_def Let_def nth_list_update)
  have inst: "says_installing pw (files_of (pg_disk ?q) (rn_name (pg_runs p ! i)))"
    by (simp add: disk files_of_save says_installing_def state_payload_def)
  have "\<forall>n \<in> set (busy ?q). map_of (pg_disk ?q) n \<noteq> None \<and> says_installing pw (files_of (pg_disk ?q) n)"
    using assms(1,3) inst unfolding busy by (auto simp: page_ok_def disk files_of_save map_of_save)
  moreover have "\<forall>th \<in> set (pg_threads ?q). th_run th < length (pg_runs ?q)"
    using assms(1) i by (auto simp: page_ok_def start_install_def set_run_def Let_def)
  moreover have "distinct (busy ?q)" using assms(1,3) by (simp add: busy page_ok_def)
  moreover have "rn_state (pg_runs ?q ! i) = state_word Installing" using i by (simp add: runs)
  ultimately show ?thesis unfolding page_ok_def cur len using i by simp
qed

lemma page_ok_finish:
  assumes "page_ok pw p" and "pg_current p = Some i" and "rn_name (pg_runs p ! i) \<notin> set (busy p)"
  shows "page_ok pw (post_finish pw pd p)"
proof -
  let ?t = "p\<lparr>pg_checks := pd_checks pd, pg_disk := save pw (pg_runs p ! i) (pg_disk p)\<rparr>"
  have t: "page_ok pw ?t" by (rule page_ok_save [OF assms(1,3)]) simp_all
  have "page_ok pw (start_install pw i (pd_reinstalled pd) ?t)"
    by (rule page_ok_start [OF t]) (use assms(2,3) in \<open>simp_all add: busy_def\<close>)
  with t assms(2) show ?thesis by (simp add: post_finish_def Let_def)
qed

text \<open>What a request does before it ends: the run has the same name and state.\<close>

lemma post_begin_calm:
  assumes "page_ok pw p" and "post_begin w pw steps form p = (res, q)"
  shows "page_ok pw q \<and> (\<forall>pd. res = Inr (Some pd) \<longrightarrow> (\<exists>i. pg_current q = Some i \<and> rn_name (pg_runs q ! i) \<notin> set (busy q)))"
proof (cases "\<exists>i. pg_current p = Some i \<and> rn_state (pg_runs p ! i) \<noteq> state_word Installing")
  case False
  with assms show ?thesis by (auto simp: post_begin_def split: option.splits)
next
  case True
  then obtain i where Some: "pg_current p = Some i" and st: "rn_state (pg_runs p ! i) \<noteq> state_word Installing" by blast
  obtain r pvt where f: "take_form steps form (pg_runs p ! i) = (r, pvt)" by (cases "take_form steps form (pg_runs p ! i)")
  obtain b r' where k: "create_key pw form (pg_box p) r = (b, r')" by (cases "create_key pw form (pg_box p) r")
  obtain o1 s where c: "check_steps w pw b r' (shown_values steps r) pvt (ticked form REINSTALLED) steps (pg_ssh p) = (o1, s)"
    by (cases "check_steps w pw b r' (shown_values steps r) pvt (ticked form REINSTALLED) steps (pg_ssh p)")
  have same: "same_run (pg_runs p ! i) r'"
    using same_run_form [of "pg_runs p ! i" steps form] same_run_key [of r pw form "pg_box p"] f k by (auto intro: same_run_trans)
  have q: "q = (set_run i r' p)\<lparr>pg_box := b, pg_ssh := s\<rparr>" using assms(2) Some st f k c
    by (auto simp: post_begin_def Let_def split: sum.splits)
  have "page_ok pw q" unfolding q by (rule page_ok_calm [OF assms(1) same]) (simp_all add: set_run_def)
  moreover have "rn_name (pg_runs p ! i) \<notin> set (busy p)" using assms(1) Some st by (auto simp: page_ok_def)
  moreover have "i < length (pg_runs p)" using assms(1) Some by (simp add: page_ok_def)
  ultimately show ?thesis using same Some unfolding q
    by (auto simp: busy_def set_run_def same_run_def nth_list_update)
qed

lemma page_ok_post:
  assumes "page_ok pw p"
  shows "page_ok pw (snd (post_install w pw steps form p))"
proof -
  obtain res q where q: "post_begin w pw steps form p = (res, q)" by (cases "post_begin w pw steps form p")
  from post_begin_calm [OF assms q] show ?thesis
    by (auto simp: post_install_def q page_ok_finish split: sum.split option.split)
qed

lemma load_run_name: "load_run pw ks name d = Inr r \<Longrightarrow> rn_name r = name"
  by (auto simp: load_run_def new_run_def Let_def bindR_Inr_iff split: state_file.splits py.splits)

lemma load_run_installing:
  assumes "load_run pw ks name d = Inr r" and "says_installing pw (files_of d name)" and "pw_alive pw (pw_pid pw)"
  shows "rn_state r = state_word Installing"
proof -
  obtain t where "fl_state (files_of d name) = State (PDict [(''state'', PStr (state_word Installing)), (''started'', PInt t), (''pid'', PInt (pw_pid pw))])"
    using assms(2) by (auto simp: says_installing_def)
  with assms(1,3) show ?thesis
    by (auto simp: load_run_def Let_def bindR_Inr_iff load_state_def running_def dget_def)
qed

lemma page_ok_open:
  assumes "page_ok pw p" and "open_run pw ks name p = Inr p'" and "pw_alive pw (pw_pid pw)"
  shows "page_ok pw p'"
proof -
  obtain r where r: "load_run pw ks name (pg_disk p) = Inr r"
    and p': "p' = p\<lparr>pg_runs := pg_runs p @ [r], pg_current := Some (length (pg_runs p)), pg_checks := [],
       pg_disk := (if map_of (pg_disk p) name = None then save pw r (pg_disk p) else pg_disk p)\<rparr>"
    using assms(2) by (auto simp: open_run_def bindR_Inr_iff)
  have old: "th_run th < length (pg_runs p)" if "th \<in> set (pg_threads p)" for th using assms(1) that by (simp add: page_ok_def)
  have busy: "busy p' = busy p" by (auto simp: busy_def p' nth_append dest: old)
  have run: "rn_state r = state_word Installing" if "name \<in> set (busy p)"
    using load_run_installing [OF r _ assms(3)] assms(1) that by (auto simp: page_ok_def)
  have disk: "map_of (pg_disk p') n \<noteq> None \<and> says_installing pw (files_of (pg_disk p') n)" if "n \<in> set (busy p)" for n
    using assms(1) that load_run_name [OF r] by (auto simp: page_ok_def p' map_of_save_other files_of_save)
  show ?thesis using assms(1) run disk load_run_name [OF r] old unfolding page_ok_def busy
    by (auto simp: p' less_Suc_eq)
qed

lemma page_ok_inventory:
  assumes "page_ok pw p" and "post_inventory pw ks form p = Inr p'" and "pw_alive pw (pw_pid pw)"
  shows "page_ok pw p'"
proof -
  have "page_ok pw (p\<lparr>pg_problem := x\<rparr>)" for x using assms(1) by (simp add: page_ok_def busy_def)
  then show ?thesis using assms(2) page_ok_open [OF assms(1) _ assms(3)]
    by (auto simp: post_inventory_def Let_def split: if_splits)
qed

lemma page_ok_connect: "page_ok pw p \<Longrightarrow> page_ok pw (post_connect opened p)"
  by (auto simp: post_connect_def Let_def same_run_def split: option.splits sum.splits intro!: page_ok_set_run simp del: append.simps)
    (simp_all add: log_append_def Let_def)

lemma page_ok_thread_end:
  assumes "page_ok pw p" and "th \<in> set (pg_threads p)"
  shows "page_ok pw (thread_end pw th res forward p)"
proof -
  let ?i = "th_run th" and ?gone = "p\<lparr>pg_threads := remove1 th (pg_threads p)\<rparr>"
  let ?n = "rn_name (pg_runs p ! th_run th)"
  have d: "distinct (pg_threads p)" using assms(1) by (simp add: page_ok_def busy_def distinct_map)
  have left: "set (remove1 th (pg_threads p)) = set (pg_threads p) - {th}" using d by (rule set_remove1_eq)
  have inj: "rn_name (pg_runs p ! th_run t) \<noteq> ?n" if "t \<in> set (pg_threads p)" "t \<noteq> th" for t
    using assms that by (auto simp: page_ok_def busy_def distinct_map inj_on_def)
  have "rn_name (pg_runs p ! th_run t) \<noteq> ?n" if "t \<in> set (remove1 th (pg_threads p))" for t
    using inj [of t] left that by blast
  then have gb: "?n \<notin> set (busy ?gone)" "set (busy ?gone) \<subseteq> set (busy p)" using left by (fastforce simp: busy_def)+
  have g: "page_ok pw ?gone"
    using assms(1) gb(2) left unfolding page_ok_def by (auto simp: busy_def distinct_map intro: distinct_remove1 inj_on_subset)
  have saved: "page_ok pw ((set_run ?i r ?gone)\<lparr>pg_disk := save pw r (pg_disk p)\<rparr>)" if "rn_name r = ?n" for r
  proof -
    have "page_ok pw (set_run ?i r ?gone)" using g gb(1) that by (intro page_ok_idle) simp_all
    then show ?thesis
      by (rule page_ok_save [where r = r]) (use that gb(1) busy_set_run [of r ?gone ?i] in \<open>simp_all add: set_run_def\<close>)
  qed
  have after: "page_ok pw (set_run ?i r' ((set_run ?i r ?gone)\<lparr>pg_disk := save pw r (pg_disk p)\<rparr>))"
    if "rn_name r = ?n" "same_run r r'" for r r'
    using saved [OF that(1)] that(2) assms by (intro page_ok_set_run) (auto simp: set_run_def page_ok_def)
  have n: "rn_name (log_append l r) = rn_name r" "same_run r (log_append l r)" for l r by (simp_all add: log_append_def Let_def same_run_def)
  show ?thesis
  proof (cases res)
    case (Inl e)
    with g saved n(1) show ?thesis by (simp add: thread_end_def Let_def)
  next
    case (Inr rc)
    then show ?thesis using saved after n
      by (auto simp: thread_end_def Let_def same_run_def simp del: append.simps split: sum.split)
  qed
qed

text \<open>C6: An inventory is never installed twice at once. From a page that serves no install, whatever sequence of
  requests and of steps of the installs' threads follows, with inventories opened, left and opened again
  in between, no two threads install the same inventory. Each request is served whole before the next (what
  goes wrong otherwise is in \<open>Page_Overlap\<close>), and the process that serves the page is alive.\<close>

theorem one_install_per_inventory:
  assumes "(page_step w pw steps ks)\<^sup>*\<^sup>* p p'" and "pg_threads p = []" and "\<forall>i. pg_current p = Some i \<longrightarrow> i < length (pg_runs p)"
    and "pw_alive pw (pw_pid pw)"
  shows "distinct (map (\<lambda>th. rn_name (pg_runs p' ! th_run th)) (pg_threads p'))"
proof -
  from assms(1) have "page_ok pw p'"
  proof induction
    case base
    show ?case using assms(2,3) by (simp add: page_ok_def busy_def)
  next
    case (step q r)
    from step(2) show ?case
    proof (cases rule: page_step.cases)
      case (posts_form form)
      then show ?thesis using page_ok_post [OF step(3)] by simp
    next
      case (posts_inventory form)
      then show ?thesis using page_ok_inventory [OF step(3) _ assms(4)] by simp
    next
      case (posts_connect opened)
      then show ?thesis using page_ok_connect [OF step(3)] by simp
    next
      case (prints th l)
      then show ?thesis using page_ok_set_run [OF step(3)] by (simp add: thread_line_def)
    next
      case (shows_keys th kset)
      then show ?thesis using page_ok_set_run [OF step(3)] by (simp add: thread_keyset_def same_run_def)
    next
      case (ends th res forward)
      then show ?thesis using page_ok_thread_end [OF step(3)] by simp
    qed
  qed
  then show ?thesis by (simp add: page_ok_def busy_def)
qed

section \<open>Concrete pages\<close>

definition quiet_world :: page_world where
  "quiet_world = \<lparr>pw_knobs = \<lparr>sk_env = [(''HOST_PUBLIC_IP'', [])], sk_options = [], sk_exampled = [], sk_declared = [''HOST_PUBLIC_IP'']\<rparr>,
     pw_template = ''HOST_PUBLIC_IP='', pw_doc = [], pw_pid = 7, pw_alive = (\<lambda>n. n = 7), pw_now = 1000, pw_pairs = [],
     pw_banner = (\<lambda>_ _ _. ''SSH-2.0-OpenSSH''), pw_expand = id, pw_keygen = (\<lambda>_. Inl ''ssh-keygen is not installed'')\<rparr>"

definition target_step :: page_section where
  "target_step = \<lparr>sp_name = ''notes'', sp_fields = [\<lparr>fd_key = ''HOST_PUBLIC_IP'', fd_secret = False, fd_optional = True, fd_options = [],
     fd_default = [], fd_example = [], fd_suggestions = [], fd_choice = []\<rparr>]\<rparr>"

definition empty_page :: page where
  "empty_page = \<lparr>pg_runs = [], pg_current = None, pg_threads = [], pg_disk = [], pg_box = plain_box, pg_ssh = fresh_state,
     pg_checks = [], pg_problem = None, pg_pending = []\<rparr>"

theorem probe_leaves_no_trace_witness:
  "\<not> False \<and> trusted idle_world (st_known fresh_state) (known_name (ssh_address [(''HOST_PUBLIC_IP'', ''198.51.100.7'')]) (target_port [(''HOST_PUBLIC_IP'', ''198.51.100.7'')])) \<noteq> []
    \<and> st_known (snd (check_target idle_world quiet_world plain_box [(''HOST_PUBLIC_IP'', ''198.51.100.7'')] [] False fresh_state)) = st_known fresh_state"
proof -
  have "trusted idle_world (st_known fresh_state) (known_name (ssh_address [(''HOST_PUBLIC_IP'', ''198.51.100.7'')]) (target_port [(''HOST_PUBLIC_IP'', ''198.51.100.7'')])) \<noteq> []"
    by code_simp
  then show ?thesis using probe_leaves_no_trace by blast
qed

definition created_form :: form where "created_form = [(''create'', [''prod''])]"

definition one_page :: page where
  "one_page = (case post_inventory quiet_world [] created_form empty_page of Inr p \<Rightarrow> p | Inl _ \<Rightarrow> empty_page)"

definition one_install :: page where "one_install = snd (post_install idle_world quiet_world [target_step] [] one_page)"

theorem one_install_per_inventory_witness:
  "(page_step idle_world quiet_world [target_step] [])\<^sup>*\<^sup>* empty_page one_install \<and> pg_threads one_install \<noteq> []
     \<and> distinct (map (\<lambda>th. rn_name (pg_runs one_install ! th_run th)) (pg_threads one_install))"
proof -
  have "case post_inventory quiet_world [] created_form empty_page of Inl _ \<Rightarrow> False | Inr _ \<Rightarrow> True" by code_simp
  then have "post_inventory quiet_world [] created_form empty_page = Inr one_page"
    by (auto simp: one_page_def split: sum.splits)
  then have "page_step idle_world quiet_world [target_step] [] empty_page one_page" by (rule posts_inventory)
  moreover have "page_step idle_world quiet_world [target_step] [] one_page one_install" unfolding one_install_def by (rule posts_form)
  ultimately have s: "(page_step idle_world quiet_world [target_step] [])\<^sup>*\<^sup>* empty_page one_install" by simp
  have "pg_threads empty_page = []" "\<forall>i. pg_current empty_page = Some i \<longrightarrow> i < length (pg_runs empty_page)"
    "pw_alive quiet_world (pw_pid quiet_world)" by (simp_all add: empty_page_def quiet_world_def)
  moreover have "pg_threads one_install \<noteq> []" by code_simp
  ultimately show ?thesis using one_install_per_inventory [OF s] s by blast
qed

end
