(* ===== verification/Page_Reopen.thy ===== *)
theory Page_Reopen
  imports Page_Sound
begin

text \<open>
  Saving a run and opening it again, and two ways in which the installer's page is left showing an install
  that has ended: an inventory opened again while it installs, and an install whose connection is lost.
\<close>

section \<open>Saved and opened again\<close>

lemma map_of_kept: "map_of (kept_answers r) k = (if k \<in> set (rn_secret_keys r) then None else map_of (rn_answers r) k)"
  by (simp add: kept_answers_def map_of_filter_key [of "\<lambda>k. k \<notin> set (rn_secret_keys r)"])

lemma map_of_rev_distinct: "distinct (map fst ps) \<Longrightarrow> map_of (rev ps) = map_of ps"
  by (subst map_of_inject_set) (simp_all add: rev_map [symmetric])

lemma foldl_answers: "map_of (foldl (\<lambda>d kv. AList.update (fst kv) (snd kv) d) d ps) k = (case map_of (rev ps) k of Some v \<Rightarrow> Some v | None \<Rightarrow> map_of d k)"
  by (induction ps rule: rev_induct) (auto simp: update_conv')

lemma storable_all_iff: "storable_all d \<longleftrightarrow> (\<forall>kv \<in> set d. storable (snd kv))"
  by (simp add: storable_all_def)

lemma storable_update: "storable_all d \<Longrightarrow> storable v \<Longrightarrow> storable_all (AList.update k v d)"
  using set_update [of k v d] unfolding storable_all_iff by auto

lemma storable_foldl: "storable_all d \<Longrightarrow> storable_all ps \<Longrightarrow> storable_all (foldl (\<lambda>d kv. AList.update (fst kv) (snd kv) d) d ps)"
proof (induction ps arbitrary: d)
  case (Cons kv ps)
  from Cons.prems(2) have kv: "storable (snd kv)" and ps: "storable_all ps" unfolding storable_all_iff by simp_all
  show ?case using Cons.IH [OF storable_update [OF Cons.prems(1) kv] ps] by simp
qed simp

lemma storable_dict_of: "storable_all ps \<Longrightarrow> storable_all (dict_of ps)"
  using set_dict_of [of ps] by (auto simp: storable_all_def)

definition reopened_state :: "page_world \<Rightarrow> run \<Rightarrow> string" where
  "reopened_state pw r = (if rn_state r = [] then state_word Answering
     else if rn_state r = state_word Installing \<and> \<not> pw_alive pw (pw_pid pw) then state_word Failed else rn_state r)"


definition typed_run :: run where
  "typed_run = \<lparr>rn_name = ''prod'', rn_answers = [(''HOST_PUBLIC_IP'', ''198.51.100.7''), (''TOKEN'', ''t0p'')], rn_secrets = [(''host_initial_password'', ''pw'')],
     rn_secret_keys = [''TOKEN''], rn_state = ''installing'', rn_started = 5, rn_log = [], rn_keyset = [], rn_forward = False\<rparr>"


section \<open>An install that has ended and still shows\<close>

text \<open>An inventory is created, its install started, and the inventory opened again before the install ends.\<close>

definition page_of :: "page flt \<Rightarrow> page" where
  "page_of r = (case r of Inr p \<Rightarrow> p | Inl _ \<Rightarrow> empty_page)"

definition page1 :: page where "page1 = page_of (post_inventory quiet_world [] created_form empty_page)"
definition page2 :: page where "page2 = snd (post_install idle_world quiet_world [target_step] [] page1)"
definition page3 :: page where "page3 = page_of (post_inventory quiet_world [] [(''open'', [''prod''])] page2)"
definition page4 :: page where "page4 = thread_keyset 0 [(''journal_verification_key'', ''k'')] page3"
definition page5 :: page where "page5 = thread_end quiet_world (hd (pg_threads page4)) (Inr 0) (Inl ''refused'') page4"

lemma page_of_Inr: "(case r of Inl _ \<Rightarrow> False | Inr _ \<Rightarrow> True) \<Longrightarrow> r = Inr (page_of r)"
  by (cases r) (auto simp: page_of_def)

lemma page5_reached: "(page_step idle_world quiet_world [target_step] [])\<^sup>*\<^sup>* empty_page page5"
proof -
  let ?step = "page_step idle_world quiet_world [target_step] []"
  have s1: "?step empty_page page1"
    unfolding page1_def by (rule posts_inventory [OF page_of_Inr]) code_simp
  have s2: "?step page1 page2" unfolding page2_def by (rule posts_form)
  have s3: "?step page2 page3" unfolding page3_def by (rule posts_inventory [OF page_of_Inr]) code_simp
  have t3: "pg_threads page3 \<noteq> []" and r3: "th_run (hd (pg_threads page3)) = 0" by code_simp+
  have s4: "?step page3 page4"
    using shows_keys [of "hd (pg_threads page3)" page3 idle_world quiet_world "[target_step]" "[]" "[(''journal_verification_key'', ''k'')]"] t3 r3
    unfolding page4_def by simp
  have "pg_threads page4 = pg_threads page3" by (simp add: page4_def thread_keyset_def set_run_def)
  then have s5: "?step page4 page5" unfolding page5_def using t3 by (intro ends) simp
  from s1 s2 s3 s4 s5 show ?thesis by (meson converse_rtranclp_into_rtranclp r_into_rtranclp)
qed

text \<open>
  The page is left on an object of the inventory that the thread never knew: the install has ended and its
  result is on the disk, no thread runs, but the page shows it installing, shows none of the passwords the
  server printed once, and takes no answer and no install any more.
\<close>

theorem reopened_page_stuck:
  "(page_step idle_world quiet_world [target_step] [])\<^sup>*\<^sup>* empty_page page5
    \<and> pg_threads page5 = [] \<and> rn_state (current_run page5) = ''installing'' \<and> rn_keyset (current_run page5) = []
    \<and> rn_keyset (hd (pg_runs page5)) \<noteq> [] \<and> load_state quiet_world (case fl_state (files_of (pg_disk page5) ''prod'') of State (PDict doc) \<Rightarrow> doc | _ \<Rightarrow> []) = ''done''
    \<and> (\<forall>form. snd (post_install idle_world quiet_world [target_step] form page5) = page5)"
proof -
  have c: "pg_current page5 = Some 1" and i: "rn_state (pg_runs page5 ! 1) = ''installing''" by code_simp+
  have "snd (post_install idle_world quiet_world [target_step] form page5) = page5" for form
    using c i by (simp add: post_install_def post_begin_def)
  moreover have "rn_state (current_run page5) = ''installing''" using c i by (simp add: current_run_def)
  moreover have "pg_threads page5 = []" "rn_keyset (current_run page5) = []" "rn_keyset (hd (pg_runs page5)) \<noteq> []"
    "load_state quiet_world (case fl_state (files_of (pg_disk page5) ''prod'') of State (PDict doc) \<Rightarrow> doc | _ \<Rightarrow> []) = ''done''"
    by code_simp+
  ultimately show ?thesis using page5_reached by blast
qed

text \<open>
  A connection lost while a leg runs: the command raises \<open>RemoteError\<close>, and then the removal of the upload
  directory in the \<open>finally\<close> asks the dead connection for a channel, for which paramiko raises
  \<open>SSHException\<close>. That exception replaces the first, nothing in \<open>install.run\<close> or the page's thread takes
  it, and the thread ends without writing a state: the page shows the install running for good.
\<close>

definition lost_world :: ssh_world where
  "lost_world = idle_world\<lparr>rw_output := (\<lambda>h cn c.
     if prefix ''mktemp'' c then ([''/tmp/catena-install.a'' @ nl], Exit 0)
     else if prefix ''rm -rf'' c then ([], Broken ''SSH session not active'') else ([''PLAY'' @ nl], Lost))\<rparr>"

theorem lost_connection_escapes:
  "fst (install_run lost_world plain_box ''/inv/prod'' plain_options fresh_state) = Inl (Ssh_Error ''SSH session not active'')
    \<and> pg_runs (thread_end pw th (Inl (Ssh_Error m)) fw p) = pg_runs p
    \<and> pg_disk (thread_end pw th (Inl (Ssh_Error m)) fw p) = pg_disk p"
proof -
  have "fst (install_run lost_world plain_box ''/inv/prod'' plain_options fresh_state) = Inl (Ssh_Error ''SSH session not active'')" by code_simp
  then show ?thesis by (simp add: thread_end_def Let_def)
qed

end
