(* ===== verification/Page_Overlap.thy ===== *)
theory Page_Overlap
  imports Page_Reopen
begin

text \<open>
  Form requests of the installer's page that overlap. The server, a \<open>ThreadingHTTPServer\<close>, answers a
  request while another one's probes still wait for a server to answer, and \<open>do_POST\<close> of
  \<open>src/installer/catena_installer/server.py\<close> looks at the state of the run before the probes and acts on
  the page's run after them. Two executions show what follows; with one request at a time neither can
  happen (\<open>Page_Sound\<close>).
\<close>

definition begun :: "(rerror + pending option) \<times> page \<Rightarrow> pending \<times> page" where
  "begun r = (case r of (Inr (Some pd), p) \<Rightarrow> (pd, p\<lparr>pg_pending := pg_pending p @ [pd]\<rparr>)
     | (_, p) \<Rightarrow> (\<lparr>pd_checks = [], pd_reinstalled = False\<rparr>, p))"

definition finished :: "page_world \<Rightarrow> page \<Rightarrow> page" where
  "finished pw p = (let pd = hd (pg_pending p) in (post_finish pw pd p)\<lparr>pg_pending := remove1 pd (pg_pending p)\<rparr>)"

definition accepted :: "(rerror + pending option) \<times> page \<Rightarrow> bool" where
  "accepted r = (case r of (Inr (Some pd), p) \<Rightarrow> True | _ \<Rightarrow> False)"

lemma begun_step:
  assumes "accepted (post_begin w pw steps form p)"
  shows "overlap_step w pw steps ks p (snd (begun (post_begin w pw steps form p)))"
proof -
  obtain pd q where "post_begin w pw steps form p = (Inr (Some pd), q)"
    using assms by (auto simp: accepted_def split: prod.splits sum.splits option.splits)
  from begins [OF this, of ks] this show ?thesis by (simp add: begun_def)
qed

lemma finished_step: "pg_pending p \<noteq> [] \<Longrightarrow> overlap_step w pw steps ks p (finished pw p)"
  unfolding finished_def Let_def by (rule finishes) simp

section \<open>A form sent twice\<close>

text \<open>The button is pressed again while the first request waits for its probes.\<close>

definition twice1 :: page where "twice1 = snd (begun (post_begin idle_world quiet_world [target_step] [] page1))"
definition twice2 :: page where "twice2 = snd (begun (post_begin idle_world quiet_world [target_step] [] twice1))"
definition twice3 :: page where "twice3 = finished quiet_world twice2"
definition twice4 :: page where "twice4 = finished quiet_world twice3"

lemma page1_reached: "overlap_step idle_world quiet_world [target_step] [] empty_page page1"
  unfolding page1_def by (rule alone [OF posts_inventory [OF page_of_Inr]]) code_simp

theorem double_post_installs_twice:
  "(overlap_step idle_world quiet_world [target_step] [])\<^sup>*\<^sup>* empty_page twice4
    \<and> map (\<lambda>th. rn_name (pg_runs twice4 ! th_run th)) (pg_threads twice4) = [''prod'', ''prod'']"
proof -
  let ?step = "overlap_step idle_world quiet_world [target_step] []"
  have a: "accepted (post_begin idle_world quiet_world [target_step] [] page1)" "accepted (post_begin idle_world quiet_world [target_step] [] twice1)"
    "pg_pending twice2 \<noteq> []" "pg_pending twice3 \<noteq> []" by code_simp+
  have "?step page1 twice1" unfolding twice1_def by (rule begun_step [OF a(1)])
  moreover have "?step twice1 twice2" unfolding twice2_def by (rule begun_step [OF a(2)])
  moreover have "?step twice2 twice3" unfolding twice3_def by (rule finished_step [OF a(3)])
  moreover have "?step twice3 twice4" unfolding twice4_def by (rule finished_step [OF a(4)])
  ultimately have "?step\<^sup>*\<^sup>* empty_page twice4"
    using page1_reached by (meson converse_rtranclp_into_rtranclp rtranclp.rtrancl_refl)
  moreover have "map (\<lambda>th. rn_name (pg_runs twice4 ! th_run th)) (pg_threads twice4) = [''prod'', ''prod'']" by code_simp
  ultimately show ?thesis ..
qed

section \<open>Another inventory opened meanwhile\<close>

text \<open>
  The form of \<open>prod\<close> passes its checks; before its request ends another tab creates \<open>test\<close>, for which
  nothing is filled in. The request starts the install of \<open>test\<close>, which its own form could not.
\<close>

definition required_step :: page_section where
  "required_step = target_step\<lparr>sp_fields := map (\<lambda>f. f\<lparr>fd_optional := False\<rparr>) (sp_fields target_step)\<rparr>"

definition prod_form :: form where "prod_form = [(''HOST_PUBLIC_IP'', [''198.51.100.7''])]"
definition test_form :: form where "test_form = [(''create'', [''test''])]"

definition other1 :: page where "other1 = snd (begun (post_begin idle_world quiet_world [required_step] prod_form page1))"
definition other2 :: page where "other2 = page_of (post_inventory quiet_world [] test_form other1)"
definition other3 :: page where "other3 = finished quiet_world other2"

lemma other_reached: "(overlap_step idle_world quiet_world [required_step] [])\<^sup>*\<^sup>* empty_page other3"
proof -
  let ?step = "overlap_step idle_world quiet_world [required_step] []"
  have a: "accepted (post_begin idle_world quiet_world [required_step] prod_form page1)" "pg_pending other2 \<noteq> []" by code_simp+
  have "?step empty_page page1" unfolding page1_def by (rule alone [OF posts_inventory [OF page_of_Inr]]) code_simp
  moreover have "?step page1 other1" unfolding other1_def by (rule begun_step [OF a(1)])
  moreover have "?step other1 other2" unfolding other2_def by (rule alone [OF posts_inventory [OF page_of_Inr]]) code_simp
  moreover have "?step other2 other3" unfolding other3_def by (rule finished_step [OF a(2)])
  ultimately show ?thesis by (meson converse_rtranclp_into_rtranclp rtranclp.rtrancl_refl)
qed

theorem unchecked_inventory_installs:
  "(overlap_step idle_world quiet_world [required_step] [])\<^sup>*\<^sup>* empty_page other3
    \<and> map (\<lambda>th. rn_name (pg_runs other3 ! th_run th)) (pg_threads other3) = [''test'']
    \<and> blocked (pd_checks (fst (begun (post_begin idle_world quiet_world [required_step] [] other2))))"
proof -
  have "map (\<lambda>th. rn_name (pg_runs other3 ! th_run th)) (pg_threads other3) = [''test'']"
    "blocked (pd_checks (fst (begun (post_begin idle_world quiet_world [required_step] [] other2))))" by code_simp+
  with other_reached show ?thesis by blast
qed

end
