(* ===== verification/Port_Scan.thy ===== *)
theory Port_Scan
  imports Server_Install "HOL-Library.Multiset"
begin

text \<open>
  The port scan of \<open>src/installer/catena_installer/checks.py\<close> with its workers: as many coroutines as the
  concurrency draw ports from one iterator, each waits for its answer and appends the port when it
  answers. Which worker moves next is the event loop's choice. A worker that finds the iterator empty
  ends, so the scan is over when no port is left and none is waited for.
\<close>

section \<open>The workers\<close>

record scan_state =
  sc_pending :: "int list"
  sc_flight :: "int list"
  sc_idle :: nat
  sc_found :: "int list"

inductive scan_step :: "(int \<Rightarrow> bool) \<Rightarrow> scan_state \<Rightarrow> scan_state \<Rightarrow> bool" for answers where
  draws: "sc_pending s = p # ps \<Longrightarrow> sc_idle s = Suc n \<Longrightarrow>
    scan_step answers s (s\<lparr>sc_pending := ps, sc_flight := p # sc_flight s, sc_idle := n\<rparr>)"
| hears: "p \<in> set (sc_flight s) \<Longrightarrow>
    scan_step answers s (s\<lparr>sc_flight := remove1 p (sc_flight s), sc_idle := Suc (sc_idle s),
      sc_found := sc_found s @ (if answers p then [p] else [])\<rparr>)"

definition scan_start :: "nat \<Rightarrow> int list \<Rightarrow> scan_state" where
  "scan_start concurrency ports = \<lparr>sc_pending = ports, sc_flight = [], sc_idle = concurrency, sc_found = []\<rparr>"

definition scan_over :: "scan_state \<Rightarrow> bool" where
  "scan_over s = (sc_pending s = [] \<and> sc_flight s = [])"

section \<open>The result does not depend on the order\<close>

definition scan_inv :: "(int \<Rightarrow> bool) \<Rightarrow> nat \<Rightarrow> int list \<Rightarrow> scan_state \<Rightarrow> bool" where
  "scan_inv answers n ports s = (filter_mset answers (mset (sc_pending s)) + filter_mset answers (mset (sc_flight s)) + mset (sc_found s)
       = filter_mset answers (mset ports)
     \<and> length (sc_flight s) + sc_idle s = n)"

lemma scan_inv_step:
  assumes "scan_step answers s s'" and "scan_inv answers n ports s"
  shows "scan_inv answers n ports s'"
  using assms
proof cases
  case (draws p ps m)
  with assms(2) show ?thesis by (auto simp: scan_inv_def)
next
  case (hears p)
  then obtain m where m: "mset (sc_flight s) = add_mset p m" "mset (remove1 p (sc_flight s)) = m"
    by (metis mset_remove1 insert_DiffM set_mset_mset)
  have "length (remove1 p (sc_flight s)) + 1 = length (sc_flight s)"
    using hears(2) length_pos_if_in_set [of p "sc_flight s"] by (simp add: length_remove1)
  with hears m assms(2) show ?thesis by (auto simp: scan_inv_def)
qed

lemma scan_inv_reached: "(scan_step answers)\<^sup>*\<^sup>* (scan_start n ports) s \<Longrightarrow> scan_inv answers n ports s"
proof (induction rule: rtranclp_induct)
  case base
  show ?case by (simp add: scan_inv_def scan_start_def)
next
  case (step s s')
  then show ?case by (blast intro: scan_inv_step)
qed

definition scan_left :: "scan_state \<Rightarrow> nat" where
  "scan_left s = 2 * length (sc_pending s) + length (sc_flight s)"

lemma scan_step_left: "scan_step answers s s' \<Longrightarrow> scan_left s = Suc (scan_left s')"
proof (induction rule: scan_step.induct)
  case (hears p s)
  then have "length (sc_flight s) \<noteq> 0" by auto
  with hears show ?case by (simp add: scan_left_def length_remove1)
qed (simp add: scan_left_def)

lemma scan_moves: "\<not> scan_over s \<Longrightarrow> 0 < length (sc_flight s) + sc_idle s \<Longrightarrow> \<exists>s'. scan_step answers s s'"
proof (cases "sc_flight s")
  case Nil
  assume "\<not> scan_over s" "0 < length (sc_flight s) + sc_idle s"
  with Nil obtain p ps m where "sc_pending s = p # ps" "sc_idle s = Suc m"
    by (cases "sc_pending s"; cases "sc_idle s") (auto simp: scan_over_def)
  then show ?thesis using draws by blast
next
  case (Cons p ps)
  then show ?thesis using hears [of p s answers] by auto
qed

lemma scan_finishes:
  assumes "scan_inv answers n ports s" and "0 < n"
  shows "\<exists>s'. (scan_step answers)\<^sup>*\<^sup>* s s' \<and> scan_over s'"
  using assms(1)
proof (induction "scan_left s" arbitrary: s rule: less_induct)
  case less
  show ?case
  proof (cases "scan_over s")
    case False
    obtain s1 where s1: "scan_step answers s s1"
      using scan_moves [OF False] less.prems assms(2) by (auto simp: scan_inv_def)
    have "scan_left s1 < scan_left s" using scan_step_left [OF s1] by simp
    from less.hyps [OF this scan_inv_step [OF s1 less.prems]] s1 show ?thesis
      by (meson converse_rtranclp_into_rtranclp)
  qed blast
qed

text \<open>C24: The workers of the port scan agree with a plain loop. However the event loop interleaves them, when the
  scan is over the sorted list of what they found is exactly the ports that answer; no more connections
  are open at a time than the concurrency; every step brings the end nearer, and from wherever an
  interleaving has got to, with at least one worker, the scan can be finished.\<close>

theorem scan_workers_refine_loop:
  assumes "(scan_step (bx_reaches b host))\<^sup>*\<^sup>* (scan_start n ports) s"
  shows "(scan_over s \<longrightarrow> sort (sc_found s) = scan b host ports) \<and> length (sc_flight s) \<le> n
    \<and> (\<forall>s'. scan_step (bx_reaches b host) s s' \<longrightarrow> scan_left s' < scan_left s)
    \<and> (0 < n \<longrightarrow> (\<exists>s'. (scan_step (bx_reaches b host))\<^sup>*\<^sup>* s s' \<and> scan_over s'))"
proof -
  note i = scan_inv_reached [OF assms]
  have "sort (sc_found s) = scan b host ports" if "scan_over s"
  proof -
    have "mset (sc_found s) = mset (filter (bx_reaches b host) ports)"
      using i that by (simp add: scan_inv_def scan_over_def mset_filter)
    then show ?thesis unfolding scan_def by (metis properties_for_sort mset_sort sorted_sort)
  qed
  moreover have "scan_left s' < scan_left s" if "scan_step (bx_reaches b host) s s'" for s'
    using scan_step_left [OF that] by simp
  moreover have "length (sc_flight s) \<le> n" using i by (simp add: scan_inv_def)
  ultimately show ?thesis using scan_finishes [OF i] by blast
qed

definition two_ports :: scan_state where "two_ports = scan_start 2 [22, 80]"

theorem scan_workers_refine_loop_witness:
  "length (sc_flight two_ports) \<le> 2 \<and> (\<exists>s'. (scan_step (\<lambda>p. p = 22))\<^sup>*\<^sup>* two_ports s' \<and> scan_over s')"
proof -
  let ?b = "\<lparr>bx_env = None, bx_hosts = None, bx_expand = id, bx_default_key = [], bx_public = (\<lambda>_. None), bx_starter = [], bx_fetcher = [],
       bx_read = (\<lambda>_. None), bx_yaml_dump = (\<lambda>_. []), bx_json = (\<lambda>_. None), bx_json_dump = (\<lambda>_. []), bx_now = [],
       bx_reaches = (\<lambda>_ p. p = 22), bx_keyset = (\<lambda>_. None)\<rparr> :: box"
  have "(scan_step (bx_reaches ?b []))\<^sup>*\<^sup>* (scan_start 2 [22, 80]) (scan_start 2 [22, 80])" by simp
  from scan_workers_refine_loop [OF this] show ?thesis by (simp add: two_ports_def)
qed

end
