(* ===== verification/Console_Install.thy ===== *)
theory Console_Install
  imports Install_Safe Seed_Sound
begin

text \<open>
  The console of the installer, \<open>src/installer/catena_installer/__main__.py\<close>: what it accepts as an address,
  the loop that asks the person about a changed host key and for the provider's password, and the
  inventory \<open>init\<close> writes. What is typed is a list, and the end of the input raises, so every turn of the
  loop uses up a line of it. The run of seed before an install is the subject of \<open>Seed_Run\<close>.
\<close>

section \<open>Definitions\<close>

definition address_char :: "char \<Rightarrow> bool" where
  "address_char c = (is_alnum c \<or> c \<in> set ''.:-'')"

text \<open>\<open>re.fullmatch\<close> of an address.\<close>

definition console_address :: "string \<Rightarrow> string flt" where
  "console_address v = (case v of
      [] \<Rightarrow> Inl Value_Error
    | c # s \<Rightarrow> if is_alnum c \<and> list_all address_char s then Inr v else Inl Value_Error)"

datatype asked = Confirm_Reinstall | Give_Password

text \<open>What the loop does with an exception of the install: stop with 1, or ask.\<close>

fun question_of :: "rerror \<Rightarrow> asked option" where
  "question_of (Host_Key_Changed n ts offer) = Some Confirm_Reinstall"
| "question_of (Password_Needed m) = Some Give_Password"
| "question_of _ = None"

definition confirmed :: "string \<Rightarrow> bool" where
  "confirmed line = (lower (strip line) = ''y'' \<or> lower (strip line) = ''yes'')"

text \<open>The options after an answer, or none when the answer stops the install.\<close>

fun answer_question :: "asked \<Rightarrow> string \<Rightarrow> options \<Rightarrow> options option" where
  "answer_question Confirm_Reinstall line op = (if confirmed line then Some (op\<lparr>op_reinstalled := True\<rparr>) else None)"
| "answer_question Give_Password line op = (if line = [] then None else Some (op\<lparr>op_password := line\<rparr>))"

fun console_loop :: "ssh_world \<Rightarrow> box \<Rightarrow> string \<Rightarrow> bool \<Rightarrow> string list \<Rightarrow> options \<Rightarrow> int ssh" where
  "console_loop w b dir interactive typed op s = (case install_run w b dir op s of
      (Inr rc, s') \<Rightarrow> (Inr rc, s')
    | (Inl e, s') \<Rightarrow> (case question_of e of
        None \<Rightarrow> (Inl e, s')
      | Some q \<Rightarrow>
          let s1 = s'\<lparr>st_printed := st_printed s' @ [''catena-installer: '' @ error_text e]\<rparr> in
          if \<not> interactive then
            (Inr 1, if q = Confirm_Reinstall then s1\<lparr>st_printed := st_printed s1 @
               [''catena-installer: stopped. Run again with --reinstalled if the server was reinstalled.'']\<rparr> else s1)
          else (case typed of
              [] \<Rightarrow> (Inl (Other_Error ''EOF''), s1)
            | line # rest \<Rightarrow> (case answer_question q line op of
                None \<Rightarrow> (Inr 1, s1) | Some op' \<Rightarrow> console_loop w b dir interactive rest op' s1))))"

declare console_loop.simps [simp del]

text \<open>\<open>console_init\<close>: why the inventory cannot be created, or the \<open>.env\<close> it writes.\<close>

definition console_init :: "seed_knobs \<Rightarrow> string \<Rightarrow> bool \<Rightarrow> string \<Rightarrow> bool \<Rightarrow> string option \<Rightarrow> string + string" where
  "console_init kn template by_path name exists before =
     (let problem = (if by_path then (if exists then ''exists'' else []) else inventory_name_problem name exists) in
      if problem \<noteq> [] then Inl problem else Inr (write_env kn template [] before))"

section \<open>Properties\<close>

lemma answer_keeps: "answer_question q line op = Some op' \<Longrightarrow> op_address op' = op_address op
    \<and> (\<not> op_reinstalled op \<and> \<not> confirmed line \<longrightarrow> \<not> op_reinstalled op')"
  by (cases q) (auto split: if_splits)

lemma server_of_pure: "fst (server_of b d a s) = fst (server_of b d a t)"
proof (cases "bx_env b")
  case (Some env)
  then show ?thesis
    by (cases "vps_host b") (auto simp: server_of_def lift_flt_def sem_defs Let_def split: option.split)
qed (simp add: server_of_def raise_def)

lemma console_vouched:
  assumes "fst (server_of b dir (op_address op) s) = Inr sv" and "\<not> op_reinstalled op" and "\<not> list_ex confirmed typed"
    and "vouched_run w (sv_host sv) (sv_port sv) known h s"
  shows "vouched_run w (sv_host sv) (sv_port sv) known h (snd (console_loop w b dir interactive typed op s))"
  using assms
proof (induction w b dir interactive typed op s rule: console_loop.induct)
  case (1 w b dir interactive typed op s)
  let ?I = "vouched_run w (sv_host sv) (sv_port sv) known h"
  obtain r s' where r: "install_run w b dir op s = (r, s')" by (cases "install_run w b dir op s")
  have pure: "fst (server_of b dir (op_address op) t) = Inr sv" for t using 1(2) server_of_pure by metis
  have sv: "server_of b dir a t = (fst (server_of b dir a t), t)" for a t
    using server_of_keeps [of b dir a t] by (cases "server_of b dir a t") simp
  have "server_of b dir (op_address op) s = (Inr sv, s)" using sv [of "op_address op" s] 1(2) by simp
  from install_run_vouched [OF this 1(3,5)] r have i: "?I s'" by simp
  have shown: "?I (s'\<lparr>st_printed := ls\<rparr>)" for ls using i by (simp add: vouched_run_def)
  show ?case
  proof (cases r)
    case (Inr rc)
    with r i show ?thesis by (simp add: console_loop.simps)
  next
    case (Inl e)
    let ?s1 = "s'\<lparr>st_printed := st_printed s' @ [''catena-installer: '' @ error_text e]\<rparr>"
    show ?thesis
    proof (cases "question_of e")
      case None
      with r Inl i show ?thesis by (simp add: console_loop.simps)
    next
      case (Some q)
      show ?thesis
      proof (cases "interactive \<and> typed \<noteq> []")
        case False
        with r Inl Some shown show ?thesis by (auto simp: console_loop.simps Let_def split: list.split)
      next
        case True
        then obtain l ls where t: "typed = l # ls" by (cases typed) auto
        show ?thesis
        proof (cases "answer_question q l op")
          case None
          with r Inl Some True t shown show ?thesis by (simp add: console_loop.simps Let_def)
        next
          case (Some op')
          with answer_keeps [OF Some] 1(3,4) t have op: "op_address op' = op_address op" "\<not> op_reinstalled op'" by simp_all
          have ls: "\<not> list_ex confirmed ls" using 1(4) t by simp
          have "?I (snd (console_loop w b dir interactive ls op' ?s1))"
            by (rule 1(1)) (use r Inl \<open>question_of e = Some q\<close> True t Some op ls pure shown in \<open>simp_all\<close>)
          with r Inl \<open>question_of e = Some q\<close> True t Some show ?thesis by (simp add: console_loop.simps Let_def)
        qed
      qed
    qed
  qed
qed

text \<open>The console trusts another host key only on the person's word. While no line typed is a yes, whatever
  else is typed, passwords included, and however often the loop runs the install again: everything done
  on a connection is done on one whose host presented a key this machine already trusted, and the known
  hosts file is as it was.\<close>

theorem console_asks_first:
  assumes "fst (server_of b dir (op_address op) s) = Inr sv" and "\<not> op_reinstalled op" and "\<not> list_ex confirmed typed"
    and "trusted w (st_known s) (known_name (sv_host sv) (sv_port sv)) \<noteq> []"
  shows "st_known (snd (console_loop w b dir interactive typed op s)) = st_known s
    \<and> (\<exists>as. st_done (snd (console_loop w b dir interactive typed op s)) = st_done s @ as
        \<and> (\<forall>a \<in> set as. \<forall>cn. on_conn a = Some cn \<longrightarrow>
             key_trusted (trusted w (st_known s) (known_name (cn_host cn) (cn_port cn))) (cn_key cn)))"
proof -
  have "vouched_run w (sv_host sv) (sv_port sv) (st_known s) (st_done s) s" using assms(4) by (simp add: vouched_run_def)
  from console_vouched [OF assms(1-3) this] show ?thesis
    by (fastforce simp: vouched_run_def list_all_iff vouched_action_def vouched_def split: option.splits)
qed

theorem console_asks_first_witness:
  "st_known (snd (console_loop idle_world plain_box ''/inv/prod'' True [''no''] plain_options fresh_state)) = st_known fresh_state"
proof -
  have "fst (server_of plain_box ''/inv/prod'' (op_address plain_options) fresh_state) = Inr plain_server"
    by (simp add: plain_server_of)
  moreover have "\<not> op_reinstalled plain_options" "\<not> list_ex confirmed [''no'']"
    "trusted idle_world (st_known fresh_state) (known_name (sv_host plain_server) (sv_port plain_server)) \<noteq> []" by code_simp+
  ultimately show ?thesis using console_asks_first by blast
qed

end
