(* ===== verification/Session_Proof.thy ===== *)
theory Session_Proof
  imports Minting Seed_Sound
begin

text \<open>
  The proof that the session of an install logged in as the ops account with a key it accepts,
  \<open>src/ansible/helpers/session_proof.py\<close>: the keys of an \<open>authorized_keys\<close> file, the logins sshd recorded in
  the journal, and the verdict. SHA-256 is a parameter; the files and the journal are texts. Shown: for a
  journal of sshd's lines the verdict is the one of the last key login of that client endpoint.
\<close>

section \<open>Fingerprints\<close>

text \<open>\<open>base64.b64decode\<close> of a text, which passes over characters outside the alphabet.\<close>

definition b64_value :: "char \<Rightarrow> nat option" where
  "b64_value c = (let i = length (takeWhile (\<lambda>x. x \<noteq> c) b64_std) in if i < 64 then Some i else None)"

fun b64_read :: "nat \<Rightarrow> nat \<Rightarrow> nat \<Rightarrow> string \<Rightarrow> nat list option" where
  "b64_read q left pads [] = (if q = 0 then Some [] else None)"
| "b64_read q left pads (c # s) =
     (if c = CHR ''='' then
        (if 2 \<le> q \<and> 4 \<le> q + Suc pads then Some [] else b64_read q left (if 2 \<le> q then Suc pads else pads) s)
      else case b64_value c of
        None \<Rightarrow> b64_read q left pads s
      | Some v \<Rightarrow>
          if q = 0 then b64_read 1 v 0 s
          else if q = 1 then map_option ((#) (left * 4 + v div 16)) (b64_read 2 (v mod 16) 0 s)
          else if q = 2 then map_option ((#) (left * 16 + v div 4)) (b64_read 3 (v mod 4) 0 s)
          else map_option ((#) (left * 64 + v)) (b64_read 0 0 0 s))"

definition b64decode :: "string \<Rightarrow> nat list option" where
  "b64decode s = (if list_all (\<lambda>c. (of_char c :: nat) < 128) s then b64_read 0 0 0 s else None)"

definition fingerprint :: "(nat list \<Rightarrow> nat list) \<Rightarrow> string \<Rightarrow> string option" where
  "fingerprint sha blob = map_option (\<lambda>bs. ''SHA256:'' @ rstrip_eq (b64encode b64_std (sha bs))) (b64decode blob)"

section \<open>The keys of an account\<close>

definition key_type :: "string \<Rightarrow> bool" where
  "key_type t = (prefix ''ssh-'' t \<or> prefix ''ecdsa-'' t \<or> prefix ''sk-'' t)"

text \<open>The tokens of a line: runs of characters and quoted parts. A quotation mark that none follows is passed over.\<close>

definition quote_mark :: char where "quote_mark = CHR 0x22"

definition flush_token :: "string \<Rightarrow> string list" where "flush_token acc = (if acc = [] then [] else [rev acc])"

function key_tokens :: "string \<Rightarrow> string \<Rightarrow> string list" where
  "key_tokens acc [] = flush_token acc"
| "key_tokens acc (c # s) =
     (if c = quote_mark \<and> quote_mark \<in> set s then
        (let q = takeWhile (\<lambda>x. x \<noteq> quote_mark) s in key_tokens (rev (c # q @ [quote_mark]) @ acc) (drop (Suc (length q)) s))
      else if c = quote_mark \<or> py_isspace c then flush_token acc @ key_tokens [] s
      else key_tokens (c # acc) s)"
  by pat_completeness auto
termination
  by (relation "measure (\<lambda>(acc, s). length s)") auto

fun key_after :: "string list \<Rightarrow> string option" where
  "key_after (t # u # ts) = (if key_type t then Some u else key_after (u # ts))"
| "key_after _ = None"

definition line_fingerprint :: "(nat list \<Rightarrow> nat list) \<Rightarrow> string \<Rightarrow> string list" where
  "line_fingerprint sha l =
     (let line = strip l in
      if line = [] \<or> prefix ''#'' line then []
      else case key_after (key_tokens [] line) of None \<Rightarrow> []
        | Some blob \<Rightarrow> (case fingerprint sha blob of None \<Rightarrow> [] | Some fp \<Rightarrow> [fp]))"

definition authorized_fingerprints :: "(nat list \<Rightarrow> nat list) \<Rightarrow> string \<Rightarrow> string list" where
  "authorized_fingerprints sha t = concat (map (line_fingerprint sha) (splitlines t))"

section \<open>The logins of the journal\<close>

text \<open>\<open>_ACCEPTED\<close>. Every part but the last is followed by a blank it cannot contain, so no part is ever cut shorter.\<close>

definition after_text :: "string \<Rightarrow> string \<Rightarrow> string option" where
  "after_text p s = (if prefix p s then Some (drop (length p) s) else None)"

definition word_of :: "(char \<Rightarrow> bool) \<Rightarrow> string \<Rightarrow> (string \<times> string) option" where
  "word_of P s = (let v = takeWhile P s in if v = [] then None else Some (v, drop (length v) s))"

definition unspaced :: "char \<Rightarrow> bool" where "unspaced c = (\<not> py_isspace c)"
definition b64_plain :: "char \<Rightarrow> bool" where "b64_plain c = (is_alnum c \<or> c = CHR ''+'' \<or> c = CHR ''/'')"

record sshd_login =
  kl_user :: string
  kl_addr :: string
  kl_port :: string
  kl_fp :: string

definition NEEDLE :: string where "NEEDLE = ''Accepted publickey for ''"

definition accepted_at :: "string \<Rightarrow> (sshd_login \<times> string) option" where
  "accepted_at s = Option.bind (after_text NEEDLE s) (\<lambda>s. Option.bind (word_of unspaced s) (\<lambda>(user, s).
     Option.bind (after_text '' from '' s) (\<lambda>s. Option.bind (word_of unspaced s) (\<lambda>(addr, s).
     Option.bind (after_text '' port '' s) (\<lambda>s. Option.bind (word_of is_digit s) (\<lambda>(port, s).
     Option.bind (after_text '' ssh2: '' s) (\<lambda>s. Option.bind (word_of unspaced s) (\<lambda>(alg, s).
     Option.bind (after_text '' SHA256:'' s) (\<lambda>s. Option.bind (word_of b64_plain s) (\<lambda>(b, s).
       Some (\<lparr>kl_user = user, kl_addr = addr, kl_port = port, kl_fp = ''SHA256:'' @ b\<rparr>, s)))))))))))"

lemma after_text_length: "after_text p s = Some t \<Longrightarrow> length s = length p + length t"
  by (auto simp: after_text_def prefix_def split: if_splits)

lemma word_of_length: "word_of P s = Some (v, t) \<Longrightarrow> length t < length s"
  by (cases s) (auto simp: word_of_def Let_def split: if_splits)

lemma accepted_at_length: "accepted_at s = Some (e, t) \<Longrightarrow> length t < length s"
  by (auto simp: accepted_at_def bind_eq_Some_conv dest!: after_text_length word_of_length)

function accepted_all :: "string \<Rightarrow> sshd_login list" where
  "accepted_all s = (case accepted_at s of
      Some (e, rest) \<Rightarrow> e # accepted_all rest
    | None \<Rightarrow> (case s of [] \<Rightarrow> [] | c # t \<Rightarrow> accepted_all t))"
  by pat_completeness auto
termination
  by (relation "measure length") (auto dest: accepted_at_length)

declare accepted_all.simps [simp del]

definition accepted_fingerprint :: "string \<Rightarrow> string \<Rightarrow> string \<Rightarrow> string \<Rightarrow> string" where
  "accepted_fingerprint journal user addr port =
     foldl (\<lambda>found e. if kl_user e = user \<and> kl_addr e = addr \<and> kl_port e = port then kl_fp e else found) [] (accepted_all journal)"

section \<open>The verdict\<close>

definition prove_session :: "(nat list \<Rightarrow> nat list) \<Rightarrow> string \<Rightarrow> string \<Rightarrow> string \<Rightarrow> string \<Rightarrow> bool \<times> string" where
  "prove_session sha user ssh_connection journal keys = (case split_ws ssh_connection of
      [addr, port, x, y] \<Rightarrow>
        (let accepted = accepted_fingerprint journal user addr port in
         if accepted = [] then (False, ''sshd recorded no key login for '' @ user @ '' from '' @ addr @ '' port '' @ port
           @ '': this session did not log in as '' @ user @ '' with a key'')
         else if accepted \<notin> set (authorized_fingerprints sha keys) then
           (False, user @ '' logged in with '' @ accepted @ '', which is not in '' @ user @ [CHR 0x27] @ ''s authorized_keys'')
         else (True, user @ '' logged in from '' @ addr @ '' with '' @ accepted))
    | _ \<Rightarrow> (False, ''no SSH session to prove: SSH_CONNECTION is '' @ repr_str ssh_connection))"

text \<open>\<open>main\<close>: the keys file may not be readable.\<close>

definition session_main :: "(nat list \<Rightarrow> nat list) \<Rightarrow> string \<Rightarrow> string \<Rightarrow> string \<Rightarrow> string option \<Rightarrow> int" where
  "session_main sha user ssh_connection journal keys = (case keys of
      None \<Rightarrow> 1
    | Some t \<Rightarrow> if fst (prove_session sha user ssh_connection journal t) then 0 else 1)"

section \<open>The verdict on a journal of lines\<close>

text \<open>What sshd and others log: a login with a key, or a line that does not hold the words of one.\<close>

datatype journal_line = Key_Line string string string string string | Other_Line string

fun line_text :: "journal_line \<Rightarrow> string" where
  "line_text (Key_Line user addr port alg b) =
     NEEDLE @ user @ '' from '' @ addr @ '' port '' @ port @ '' ssh2: '' @ alg @ '' SHA256:'' @ b"
| "line_text (Other_Line l) = l"

definition word_ok :: "(char \<Rightarrow> bool) \<Rightarrow> string \<Rightarrow> bool" where
  "word_ok P s = (s \<noteq> [] \<and> list_all P s)"

fun line_ok :: "journal_line \<Rightarrow> bool" where
  "line_ok (Key_Line user addr port alg b) =
     (word_ok unspaced user \<and> word_ok unspaced addr \<and> word_ok is_digit port \<and> word_ok unspaced alg \<and> word_ok b64_plain b)"
| "line_ok (Other_Line l) = (\<not> contains NEEDLE l)"

definition journal_of :: "journal_line list \<Rightarrow> string" where
  "journal_of ls = concat (map (\<lambda>l. line_text l @ nl) ls)"

text \<open>The fingerprints of the logins from a client endpoint, in order.\<close>

fun login_of :: "string \<Rightarrow> string \<Rightarrow> string \<Rightarrow> journal_line \<Rightarrow> string list" where
  "login_of user addr port (Key_Line u a p alg b) = (if u = user \<and> a = addr \<and> p = port then [''SHA256:'' @ b] else [])"
| "login_of user addr port (Other_Line l) = []"

definition logins_of :: "string \<Rightarrow> string \<Rightarrow> string \<Rightarrow> journal_line list \<Rightarrow> string list" where
  "logins_of user addr port ls = concat (map (login_of user addr port) ls)"

lemma logins_of_simps [simp]: "logins_of user addr port [] = []"
  "logins_of user addr port (l # ls) = login_of user addr port l @ logins_of user addr port ls"
  by (simp_all add: logins_of_def)

lemma logins_named: "fp \<in> set (logins_of user addr port ls) \<Longrightarrow> fp \<noteq> []"
proof (induction ls)
  case (Cons l ls)
  then show ?case by (cases l) (auto split: if_splits)
qed simp

lemma after_text_append [simp]: "after_text p (p @ s) = Some s"
  by (simp add: after_text_def)

lemma word_of_append: "word_ok P v \<Longrightarrow> t \<noteq> [] \<Longrightarrow> \<not> P (hd t) \<Longrightarrow> word_of P (v @ t) = Some (v, t)"
  by (cases t) (auto simp: word_of_def word_ok_def list_all_iff takeWhile_append2 Let_def)

lemma char_kinds: "\<not> unspaced (CHR '' '')" "\<not> is_digit (CHR '' '')" "\<not> b64_plain (CHR 0x0A)" "\<not> unspaced (CHR 0x0A)"
  by (simp_all add: unspaced_def py_isspace_def is_digit_def b64_plain_def is_alnum_def is_alpha_def is_upper_def is_lower_def)

lemma accepted_at_line:
  assumes "line_ok (Key_Line user addr port alg b)"
  shows "accepted_at (line_text (Key_Line user addr port alg b) @ nl @ rest)
    = Some (\<lparr>kl_user = user, kl_addr = addr, kl_port = port, kl_fp = ''SHA256:'' @ b\<rparr>, nl @ rest)"
proof -
  have w: "word_of unspaced (user @ '' from '' @ s) = Some (user, '' from '' @ s)" "word_of unspaced (addr @ '' port '' @ s) = Some (addr, '' port '' @ s)"
    "word_of is_digit (port @ '' ssh2: '' @ s) = Some (port, '' ssh2: '' @ s)" "word_of unspaced (alg @ '' SHA256:'' @ s) = Some (alg, '' SHA256:'' @ s)"
    "word_of b64_plain (b @ nl @ s) = Some (b, nl @ s)" for s
    by (rule word_of_append; use assms in \<open>simp add: char_kinds nl_def\<close>)+
  show ?thesis unfolding accepted_at_def line_text.simps append_assoc after_text_append Option.bind.bind_lunit w prod.case ..
qed

lemma accepted_all_nl: "accepted_all (nl @ s) = accepted_all s"
  by (subst accepted_all.simps) (simp add: accepted_at_def after_text_def NEEDLE_def nl_def)

lemma needle_unbroken: "CHR 0x0A \<notin> set NEEDLE" by (simp add: NEEDLE_def)

lemma prefix_before: "x \<notin> set p \<Longrightarrow> prefix p (s @ x # t) \<Longrightarrow> prefix p s"
proof (induction p arbitrary: s)
  case (Cons a p)
  show ?case
  proof (cases s)
    case Nil
    with Cons.prems show ?thesis by simp
  next
    case (Cons b s')
    with Cons.prems Cons.IH [of s'] show ?thesis by simp
  qed
qed simp

lemma accepted_all_other: "\<not> contains NEEDLE l \<Longrightarrow> accepted_all (l @ nl @ s) = accepted_all s"
proof (induction l)
  case Nil
  then show ?case by (simp add: accepted_all_nl)
next
  case (Cons c l)
  then have "\<not> prefix NEEDLE (c # l @ nl @ s)" using prefix_before [OF needle_unbroken, of "c # l" s] by (auto simp: nl_def)
  then have "accepted_at (c # l @ nl @ s) = None" by (simp add: accepted_at_def after_text_def)
  then have "accepted_all (c # l @ nl @ s) = accepted_all (l @ nl @ s)" by (subst accepted_all.simps) simp
  with Cons show ?case by simp
qed

lemma accepted_all_line:
  "line_ok l \<Longrightarrow> accepted_all (line_text l @ nl @ s) = (case l of
      Key_Line user addr port alg b \<Rightarrow> [\<lparr>kl_user = user, kl_addr = addr, kl_port = port, kl_fp = ''SHA256:'' @ b\<rparr>] | Other_Line t \<Rightarrow> []) @ accepted_all s"
proof (cases l)
  case (Key_Line user addr port alg b)
  assume "line_ok l"
  then have "accepted_all (line_text l @ nl @ s) = \<lparr>kl_user = user, kl_addr = addr, kl_port = port, kl_fp = ''SHA256:'' @ b\<rparr> # accepted_all (nl @ s)"
    unfolding Key_Line by (subst accepted_all.simps) (simp only: accepted_at_line option.case prod.case)
  with Key_Line show ?thesis by (simp add: accepted_all_nl)
qed (simp add: accepted_all_other)

lemma accepted_of_journal:
  assumes "list_all line_ok ls"
  shows "foldl (\<lambda>found e. if kl_user e = user \<and> kl_addr e = addr \<and> kl_port e = port then kl_fp e else found) found (accepted_all (journal_of ls))
    = (if logins_of user addr port ls = [] then found else last (logins_of user addr port ls))"
  using assms
proof (induction ls arbitrary: found)
  case Nil
  have "accepted_all [] = []" by (subst accepted_all.simps) (simp add: accepted_at_def after_text_def NEEDLE_def)
  then show ?case by (simp add: journal_of_def)
next
  case (Cons l ls)
  have "journal_of (l # ls) = line_text l @ nl @ journal_of ls" by (simp add: journal_of_def)
  moreover have "line_ok l" "list_all line_ok ls" using Cons.prems by simp_all
  ultimately have j: "accepted_all (journal_of (l # ls)) = (case l of
      Key_Line user addr port alg b \<Rightarrow> [\<lparr>kl_user = user, kl_addr = addr, kl_port = port, kl_fp = ''SHA256:'' @ b\<rparr>] | Other_Line t \<Rightarrow> []) @ accepted_all (journal_of ls)"
    using accepted_all_line by metis
  show ?case unfolding j using Cons.IH [OF \<open>list_all line_ok ls\<close>] by (cases l) simp_all
qed

text \<open>C15: The proof of a session is sshd's last word on it. For a journal made of lines, those of key logins and
  lines that do not hold the words of one, the leg is let on exactly when the session's endpoint is one of
  four parts, the journal has a login of that user from that endpoint with a key, and the key of the last
  such login is one of the account's authorized keys.\<close>

theorem session_proved_iff:
  assumes "list_all line_ok ls"
  shows "session_main sha user conn (journal_of ls) keys = 0 \<longleftrightarrow>
    (\<exists>t addr port x y fp. keys = Some t \<and> split_ws conn = [addr, port, x, y] \<and> logins_of user addr port ls \<noteq> []
       \<and> last (logins_of user addr port ls) = fp \<and> fp \<in> set (authorized_fingerprints sha t))"
proof -
  have fp: "accepted_fingerprint (journal_of ls) user addr port = (if logins_of user addr port ls = [] then [] else last (logins_of user addr port ls))"
    for addr port unfolding accepted_fingerprint_def using accepted_of_journal [OF assms] .
  have ne: "last (logins_of user addr port ls) \<noteq> []" if "logins_of user addr port ls \<noteq> []" for addr port
    using logins_named [OF last_in_set [OF that]] .
  show ?thesis
    by (auto simp: session_main_def prove_session_def fp Let_def ne split: option.splits list.splits)
qed

definition proof_journal :: "journal_line list" where
  "proof_journal = [Other_Line ''Server listening on 0.0.0.0 port 22.'', Key_Line ''ops'' ''198.51.100.9'' ''50022'' ''ED25519'' ''AAEC'']"

definition proof_keys :: string where "proof_keys = ''no-pty,from=\"198.51.100.0/24 10.0.0.0/8\" ssh-ed25519 AAEC ops'' @ nl"

theorem session_proved_iff_witness:
  "session_main id ''ops'' ''198.51.100.9 50022 198.51.100.7 22'' (journal_of proof_journal) (Some proof_keys) = 0"
proof -
  have "list_all line_ok proof_journal" by code_simp
  moreover have "split_ws ''198.51.100.9 50022 198.51.100.7 22'' = [''198.51.100.9'', ''50022'', ''198.51.100.7'', ''22'']" by code_simp
  moreover have "logins_of ''ops'' ''198.51.100.9'' ''50022'' proof_journal = [''SHA256:AAEC'']" by code_simp
  moreover have "''SHA256:AAEC'' \<in> set (authorized_fingerprints id proof_keys)" by code_simp
  ultimately show ?thesis using session_proved_iff [of proof_journal] by simp
qed

text \<open>
  The pattern is not tied to the start of a line: a refused login whose user name is made of the words of an
  accepted one, which a client can ask for, is read as a login of the account it names.
\<close>

theorem forged_name_counts:
  "prefix ''Invalid user '' (''Invalid user Accepted publickey for ops from 198.51.100.9 port 50022 ssh2: x SHA256:AAEC from 203.0.113.5 port 4022'')
    \<and> accepted_fingerprint (''Invalid user Accepted publickey for ops from 198.51.100.9 port 50022 ssh2: x SHA256:AAEC from 203.0.113.5 port 4022'' @ nl)
        ''ops'' ''198.51.100.9'' ''50022'' = ''SHA256:AAEC''"
  by code_simp

end
