(* ===== verification/Tree_Hash.thy ===== *)
theory Tree_Hash
  imports Ip_Address
begin

text \<open>
  The hash that names a tree, \<open>src/ansible/helpers/tree_hash.py\<close>: the files an image ships of a checkout,
  the hash of their paths and contents, and the record of a tree staged out of an image. git, the files,
  JSON and SHA-256 are parameters. Shown: while SHA-256 has no collision among what is hashed, two
  checkouts have the same hash exactly when they ship the same files with the same contents.
\<close>

datatype tree_error = Process_Error | Read_Error | Bad_Record | No_Attribute

text \<open>A tree: whether it is a checkout, what git lists, the files, and the record beside \<open>ansible/\<close>.\<close>

record tree =
  tr_git :: bool
  tr_listing :: "string option"
  tr_describe :: "string option"
  tr_exists :: "string \<Rightarrow> bool"
  tr_read :: "string \<Rightarrow> nat list option"
  tr_record :: "string option"

definition NOT_SHIPPED :: string where "NOT_SHIPPED = ''ansible/tests/''"

definition shipped_files :: "tree \<Rightarrow> tree_error + string list" where
  "shipped_files t = (case tr_listing t of
      None \<Rightarrow> Inl Process_Error
    | Some out \<Rightarrow> Inr (sort (filter (\<lambda>p. p \<noteq> [] \<and> \<not> prefix NOT_SHIPPED p \<and> tr_exists t p) (split_char (CHR 0x00) out))))"

definition entry_bytes :: "(nat list \<Rightarrow> string) \<Rightarrow> string \<times> nat list \<Rightarrow> nat list" where
  "entry_bytes sha f = utf8 (fst f @ [CHR 0x00] @ sha (snd f) @ nl)"

definition listing :: "(nat list \<Rightarrow> string) \<Rightarrow> (string \<times> nat list) list \<Rightarrow> nat list" where
  "listing sha fs = concat (map (entry_bytes sha) fs)"

definition contents :: "tree \<Rightarrow> string list \<Rightarrow> (string \<times> nat list) list option" where
  "contents t ps = all_some (map (\<lambda>p. map_option (Pair p) (tr_read t p)) (sort ps))"

definition content_hash :: "(nat list \<Rightarrow> string) \<Rightarrow> tree \<Rightarrow> string list \<Rightarrow> tree_error + string" where
  "content_hash sha t ps = (case contents t ps of None \<Rightarrow> Inl Read_Error | Some fs \<Rightarrow> Inr (sha (listing sha fs)))"

text \<open>\<open>_describe\<close> is empty when git fails.\<close>

definition tree_describe :: "tree \<Rightarrow> string" where
  "tree_describe t = (case tr_describe t of None \<Rightarrow> [] | Some d \<Rightarrow> strip d)"

definition identify :: "(nat list \<Rightarrow> string) \<Rightarrow> (string \<Rightarrow> py option) \<Rightarrow> tree \<Rightarrow> tree_error + (string \<times> string)" where
  "identify sha json t =
     (if tr_git t then bindR (shipped_files t) (\<lambda>ps. bindR (content_hash sha t ps) (\<lambda>h. Inr (h, tree_describe t)))
      else case tr_record t of
        None \<Rightarrow> Inl Read_Error
      | Some text' \<Rightarrow> (case json text' of
          None \<Rightarrow> Inl Bad_Record
        | Some (PDict d) \<Rightarrow> Inr (str_or (dget d ''tree_sha256''), str_or (dget d ''describe''))
        | Some _ \<Rightarrow> Inl No_Attribute))"

text \<open>\<open>main\<close>: the status and what is printed. A record that is no object is not among what it answers with 1.\<close>

datatype tree_mode = Name_Tree | Name_Hash | List_Files

definition tree_main :: "(nat list \<Rightarrow> string) \<Rightarrow> (string \<Rightarrow> py option) \<Rightarrow> (string \<times> string \<Rightarrow> string) \<Rightarrow> tree_mode \<Rightarrow> tree \<Rightarrow> tree_error + (int \<times> string)" where
  "tree_main sha json dumps mode t =
     (case (case mode of
          List_Files \<Rightarrow> bindR (shipped_files t) (\<lambda>ps. Inr (concat (map (\<lambda>p. p @ [CHR 0x00]) ps)))
        | Name_Hash \<Rightarrow> bindR (identify sha json t) (\<lambda>(h, d). Inr (h @ nl))
        | Name_Tree \<Rightarrow> bindR (identify sha json t) (\<lambda>hd. Inr (dumps hd @ nl))) of
        Inr out \<Rightarrow> Inr (0, out)
      | Inl No_Attribute \<Rightarrow> Inl No_Attribute
      | Inl e \<Rightarrow> Inr (1, []))"

section \<open>The listing can be read back\<close>

lemma utf8_append: "utf8 (s @ t) = utf8 s @ utf8 t"
  by (simp add: utf8_def)

lemma utf8_Cons: "utf8 (c # s) = (let n = of_char c in if n < 128 then [n] else [192 + n div 64, 128 + n mod 64]) @ utf8 s"
  by (simp add: utf8_def)

lemma utf8_char:
  assumes "utf8 (c # s) @ x = utf8 (d # t) @ y"
  shows "c = d \<and> utf8 s @ x = utf8 t @ y"
proof -
  let ?m = "of_char c :: nat" and ?n = "of_char d :: nat"
  have b: "?m < 256" "?n < 256" using nat_of_char_less_256 by simp_all
  have "?m = ?n"
  proof (cases "?m < 128 \<or> ?n < 128")
    case True
    with assms show ?thesis by (auto simp: utf8_Cons Let_def split: if_splits)
  next
    case False
    with assms have "?m div 64 = ?n div 64" "?m mod 64 = ?n mod 64" by (simp_all add: utf8_Cons Let_def)
    then show ?thesis by (metis div_mult_mod_eq)
  qed
  then have "c = d" by simp
  with assms show ?thesis by (simp add: utf8_Cons)
qed

lemma utf8_zero: "CHR 0x00 \<notin> set s \<Longrightarrow> 0 \<notin> set (utf8 s)"
proof (induction s)
  case (Cons c s)
  have "(of_char c :: nat) \<noteq> of_char (CHR 0x00)" using Cons.prems by (simp only: of_char_eq_iff) auto
  then have "(of_char c :: nat) \<noteq> 0" by simp
  with Cons show ?case by (auto simp: utf8_Cons Let_def)
qed (simp add: utf8_def)

lemma utf8_inj: "utf8 s = utf8 t \<Longrightarrow> s = t"
proof (induction s arbitrary: t)
  case Nil
  then show ?case by (cases t) (auto simp: utf8_def Let_def split: if_splits)
next
  case (Cons c s)
  then obtain d t' where "t = d # t'" by (cases t) (auto simp: utf8_def Let_def split: if_splits)
  with Cons utf8_char [of c s "[]" d t' "[]"] show ?case by simp
qed

definition hex_digest :: "(nat list \<Rightarrow> string) \<Rightarrow> bool" where
  "hex_digest sha = (\<forall>b. length (utf8 (sha b)) = 64)"

lemma entry_split:
  assumes "hex_digest sha" and "CHR 0x00 \<notin> set (fst f)" "CHR 0x00 \<notin> set (fst g)"
    and "entry_bytes sha f @ x = entry_bytes sha g @ y"
  shows "fst f = fst g \<and> sha (snd f) = sha (snd g) \<and> x = y"
proof -
  have b: "entry_bytes sha e @ z = utf8 (fst e) @ 0 # utf8 (sha (snd e)) @ 10 # z" for e z
    by (simp add: entry_bytes_def utf8_append nl_def) (simp add: utf8_def)
  from assms(4) have eq: "utf8 (fst f) @ 0 # utf8 (sha (snd f)) @ 10 # x = utf8 (fst g) @ 0 # utf8 (sha (snd g)) @ 10 # y" by (simp only: b)
  have tw: "takeWhile (\<lambda>n. n \<noteq> 0) (p @ 0 # q) = p" if "0 \<notin> set p" for p q :: "nat list"
    using that by (induction p) auto
  from arg_cong [OF eq, of "takeWhile (\<lambda>n. n \<noteq> 0)"] have "utf8 (fst f) = utf8 (fst g)"
    by (simp only: tw utf8_zero assms(2,3) not_False_eq_True)
  with eq have "utf8 (sha (snd f)) @ 10 # x = utf8 (sha (snd g)) @ 10 # y" by simp
  moreover have "length (utf8 (sha (snd f))) = length (utf8 (sha (snd g)))" using assms(1) by (simp add: hex_digest_def)
  ultimately show ?thesis using \<open>utf8 (fst f) = utf8 (fst g)\<close> by (auto dest: utf8_inj)
qed

lemma listing_inj:
  assumes "hex_digest sha" and "\<forall>f \<in> set fs \<union> set gs. CHR 0x00 \<notin> set (fst f)" and "listing sha fs = listing sha gs"
  shows "map (\<lambda>f. (fst f, sha (snd f))) fs = map (\<lambda>f. (fst f, sha (snd f))) gs"
  using assms(2,3)
proof (induction fs arbitrary: gs)
  case Nil
  then show ?case by (cases gs) (auto simp: listing_def entry_bytes_def utf8_append utf8_def nl_def)
next
  case (Cons f fs)
  have "listing sha (f # fs) \<noteq> []" by (simp add: listing_def entry_bytes_def utf8_append utf8_def nl_def)
  with Cons.prems obtain g gs' where gs: "gs = g # gs'" by (cases gs) (auto simp: listing_def)
  have "entry_bytes sha f @ listing sha fs = entry_bytes sha g @ listing sha gs'" using Cons.prems(2) by (simp add: gs listing_def)
  from entry_split [OF assms(1) _ _ this] Cons.prems(1) have "fst f = fst g" "sha (snd f) = sha (snd g)" "listing sha fs = listing sha gs'"
    by (simp_all add: gs)
  with Cons.IH [of gs'] Cons.prems(1) show ?case by (simp add: gs)
qed

lemma contents_paths: "contents t ps = Some fs \<Longrightarrow> map fst fs = sort ps \<and> (\<forall>f \<in> set fs. tr_read t (fst f) = Some (snd f))"
proof -
  have "all_some (map (\<lambda>p. map_option (Pair p) (tr_read t p)) qs) = Some fs \<Longrightarrow> map fst fs = qs \<and> (\<forall>f \<in> set fs. tr_read t (fst f) = Some (snd f))" for qs
  proof (induction qs arbitrary: fs)
    case (Cons q qs)
    then show ?case by (cases "tr_read t q") force+
  qed simp
  then show "contents t ps = Some fs \<Longrightarrow> map fst fs = sort ps \<and> (\<forall>f \<in> set fs. tr_read t (fst f) = Some (snd f))"
    by (simp add: contents_def)
qed

section \<open>The hash names the tree\<close>

lemma shipped_plain:
  assumes "shipped_files t = Inr ps"
  shows "sorted ps" and "p \<in> set ps \<Longrightarrow> CHR 0x00 \<notin> set p"
proof -
  have parts: "\<forall>q \<in> set (split_char c s). c \<notin> set q" for c s
    by (induction s) (auto split: list.splits)
  from assms show "sorted ps" by (auto simp: shipped_files_def split: option.splits)
  from assms parts [of "CHR 0x00"] show "CHR 0x00 \<notin> set p" if "p \<in> set ps"
    using that by (auto simp: shipped_files_def split: option.splits)
qed

text \<open>What is hashed for a checkout: the contents of its files, and the listing.\<close>

definition hashed :: "(nat list \<Rightarrow> string) \<Rightarrow> tree \<Rightarrow> nat list set" where
  "hashed sha t = (case shipped_files t of Inl _ \<Rightarrow> {} | Inr ps \<Rightarrow>
     (case contents t ps of None \<Rightarrow> {} | Some fs \<Rightarrow> insert (listing sha fs) (snd ` set fs)))"

lemma identify_checkout:
  assumes "identify sha json t = Inr (h, d)" and "tr_git t"
  obtains ps fs where "shipped_files t = Inr ps" "contents t ps = Some fs" "h = sha (listing sha fs)"
    "map fst fs = ps" "\<forall>f \<in> set fs. tr_read t (fst f) = Some (snd f)" "hashed sha t = insert (listing sha fs) (snd ` set fs)"
    "\<forall>f \<in> set fs. CHR 0x00 \<notin> set (fst f)"
proof -
  from assms obtain ps where ps: "shipped_files t = Inr ps" and c: "content_hash sha t ps = Inr h"
    by (auto simp: identify_def bindR_Inr_iff)
  then obtain fs where fs: "contents t ps = Some fs" "h = sha (listing sha fs)"
    by (auto simp: content_hash_def split: option.splits)
  note m = contents_paths [OF fs(1)]
  have "map fst fs = ps" using m shipped_plain(1) [OF ps] by (simp add: sorted_sort_id)
  moreover from this have "\<forall>f \<in> set fs. CHR 0x00 \<notin> set (fst f)" using shipped_plain(2) [OF ps] by (metis image_eqI list.set_map)
  ultimately show ?thesis using that [OF ps fs] m ps fs by (simp add: hashed_def)
qed

text \<open>C29: The hash names the tree. While SHA-256 has no collision among what is hashed of them, two checkouts
  have the same hash exactly when they ship the same files, with the same contents: two trees that differ in
  a path, or in the bytes of one file, or in how paths and contents are paired, are told apart.\<close>

theorem tree_hash_names_tree:
  assumes "identify sha json t1 = Inr (h1, d1)" "tr_git t1" and "identify sha json t2 = Inr (h2, d2)" "tr_git t2"
    and "hex_digest sha" and "inj_on sha (hashed sha t1 \<union> hashed sha t2)"
  shows "h1 = h2 \<longleftrightarrow> shipped_files t1 = shipped_files t2
    \<and> (\<forall>ps. shipped_files t1 = Inr ps \<longrightarrow> (\<forall>p \<in> set ps. tr_read t1 p = tr_read t2 p))"
proof -
  obtain ps fs where a: "shipped_files t1 = Inr ps" "h1 = sha (listing sha fs)" "map fst fs = ps"
      "\<forall>f \<in> set fs. tr_read t1 (fst f) = Some (snd f)" "hashed sha t1 = insert (listing sha fs) (snd ` set fs)" "\<forall>f \<in> set fs. CHR 0x00 \<notin> set (fst f)"
    using identify_checkout [OF assms(1,2)] by metis
  obtain qs gs where b: "shipped_files t2 = Inr qs" "h2 = sha (listing sha gs)" "map fst gs = qs"
      "\<forall>f \<in> set gs. tr_read t2 (fst f) = Some (snd f)" "hashed sha t2 = insert (listing sha gs) (snd ` set gs)" "\<forall>f \<in> set gs. CHR 0x00 \<notin> set (fst f)"
    using identify_checkout [OF assms(3,4)] by metis
  show ?thesis
  proof
    assume "h1 = h2"
    then have l: "listing sha fs = listing sha gs" using a(2) b(2) by (intro inj_onD [OF assms(6)]) (simp_all add: a(5) b(5))
    have "map (\<lambda>f. (fst f, sha (snd f))) fs = map (\<lambda>f. (fst f, sha (snd f))) gs"
      by (rule listing_inj [OF assms(5) _ l]) (use a(6) b(6) in blast)
    moreover have "inj_on (\<lambda>f. (fst f, sha (snd f))) (set fs \<union> set gs)"
    proof (rule inj_onI)
      fix x y assume x: "x \<in> set fs \<union> set gs" and y: "y \<in> set fs \<union> set gs" and eq: "(fst x, sha (snd x)) = (fst y, sha (snd y))"
      have "snd x \<in> hashed sha t1 \<union> hashed sha t2" "snd y \<in> hashed sha t1 \<union> hashed sha t2" using x y by (auto simp only: a(5) b(5))
      with eq inj_onD [OF assms(6)] have "snd x = snd y" by blast
      with eq show "x = y" by (simp add: prod_eq_iff)
    qed
    ultimately have "fs = gs" by (rule map_inj_on)
    then show "shipped_files t1 = shipped_files t2 \<and> (\<forall>ps. shipped_files t1 = Inr ps \<longrightarrow> (\<forall>p \<in> set ps. tr_read t1 p = tr_read t2 p))"
      using a b by force
  next
    assume e: "shipped_files t1 = shipped_files t2 \<and> (\<forall>ps. shipped_files t1 = Inr ps \<longrightarrow> (\<forall>p \<in> set ps. tr_read t1 p = tr_read t2 p))"
    have "fs = map (\<lambda>p. (p, the (tr_read t1 p))) ps" using a(3,4) by (auto simp: map_idI)
    moreover have "gs = map (\<lambda>p. (p, the (tr_read t2 p))) qs" using b(3,4) by (auto simp: map_idI)
    moreover have "ps = qs" "\<forall>p \<in> set ps. tr_read t1 p = tr_read t2 p" using e a(1) b(1) by simp_all
    ultimately show "h1 = h2" using a(2) b(2) by (simp cong: map_cong)
  qed
qed

definition small_tree :: "nat list \<Rightarrow> tree" where
  "small_tree body = \<lparr>tr_git = True, tr_listing = Some (''ansible/seed.py'' @ [CHR 0x00] @ ''ansible/tests/t.py'' @ [CHR 0x00]),
     tr_describe = Some ''v1'', tr_exists = (\<lambda>_. True), tr_read = (\<lambda>_. Some body), tr_record = None\<rparr>"

definition toy_sha :: "nat list \<Rightarrow> string" where
  "toy_sha b = replicate 63 (CHR ''0'') @ (if b = [1] then ''a'' else if b = [1, 2] then ''b''
     else if hd (tl (rev b)) = of_char (CHR ''a'') then ''c'' else ''d'')"

lemma toy_sha_hex: "hex_digest toy_sha"
proof -
  have "length (utf8 (replicate n (CHR ''0''))) = n" for n by (induction n) (simp_all add: utf8_Cons utf8_def)
  then show ?thesis by (simp add: hex_digest_def toy_sha_def utf8_append) (simp add: utf8_def)
qed

definition one_file :: "nat list \<Rightarrow> nat list" where "one_file body = listing toy_sha [(''ansible/seed.py'', body)]"

theorem tree_hash_names_tree_witness:
  "identify toy_sha (\<lambda>_. None) (small_tree [1]) = Inr (toy_sha (one_file [1]), ''v1'') \<and> toy_sha (one_file [1]) \<noteq> toy_sha (one_file [1, 2])"
proof -
  have i: "identify toy_sha (\<lambda>_. None) (small_tree [1]) = Inr (toy_sha (one_file [1]), ''v1'')"
    "identify toy_sha (\<lambda>_. None) (small_tree [1, 2]) = Inr (toy_sha (one_file [1, 2]), ''v1'')"
    and g: "tr_git (small_tree [1])" "tr_git (small_tree [1, 2])"
    and s: "shipped_files (small_tree [1]) = Inr [''ansible/seed.py'']" "contents (small_tree [1]) [''ansible/seed.py''] = Some [(''ansible/seed.py'', [1])]"
    "shipped_files (small_tree [1, 2]) = Inr [''ansible/seed.py'']" "contents (small_tree [1, 2]) [''ansible/seed.py''] = Some [(''ansible/seed.py'', [1, 2])]"
 by code_simp+
  have d: "distinct (map toy_sha [one_file [1], [1], one_file [1, 2], [1, 2]])"
    by (simp add: toy_sha_def one_file_def listing_def entry_bytes_def utf8_append nl_def) (simp add: utf8_def)
  have h: "hashed toy_sha (small_tree [1]) = {one_file [1], [1]}" "hashed toy_sha (small_tree [1, 2]) = {one_file [1, 2], [1, 2]}"
    unfolding hashed_def s sum.case option.case one_file_def by simp_all
  have e: "{one_file [1], [1]} \<union> {one_file [1, 2], [1, 2]} = set [one_file [1], [1], one_file [1, 2], [1, 2]]" by auto
  have n: "inj_on toy_sha (hashed toy_sha (small_tree [1]) \<union> hashed toy_sha (small_tree [1, 2]))"
    unfolding h e using d unfolding distinct_map by blast
  have r: "tr_read (small_tree [1]) ''ansible/seed.py'' \<noteq> tr_read (small_tree [1, 2]) ''ansible/seed.py''" by code_simp
  from tree_hash_names_tree [OF i(1) g(1) i(2) g(2) toy_sha_hex n] have "toy_sha (one_file [1]) \<noteq> toy_sha (one_file [1, 2])"
    using r s(1) by (metis list.set_intros(1))
  with i(1) show ?thesis by blast
qed

end
