(* ===== verification/Keycloak_Filters.thy ===== *)
theory Keycloak_Filters
  imports Filter_Values
begin

text \<open>
  Two filters on the Keycloak realm: its mail settings,
  \<open>src/ansible/playbooks/filter_plugins/keycloak_mail_settings.py\<close>, and the name of its sign-in page,
  \<open>keycloak_signin_name.py\<close>; and \<open>json.dumps\<close> as both use it. SHA-256 is a parameter. Each keeps what
  Catena wrote last in a realm attribute, to tell its own settings from a person's. Shown: a person's change
  stays through every later converge, and what Catena wrote follows the panel and the domain.
\<close>

section \<open>JSON texts\<close>

definition json_char :: "char \<Rightarrow> string" where
  "json_char c = (let n = of_char c :: nat in
     if c = CHR 0x22 \<or> c = CHR 0x5C then [CHR 0x5C, c]
     else if n = 10 then [CHR 0x5C, CHR ''n''] else if n = 13 then [CHR 0x5C, CHR ''r'']
     else if n = 9 then [CHR 0x5C, CHR ''t''] else if n = 8 then [CHR 0x5C, CHR ''b'']
     else if n = 12 then [CHR 0x5C, CHR ''f'']
     else if 32 \<le> n \<and> n \<le> 126 then [c]
     else [CHR 0x5C, CHR ''u'', CHR ''0'', CHR ''0'', hex_digit (n div 16), hex_digit (n mod 16)])"

definition json_str :: "string \<Rightarrow> string" where
  "json_str s = CHR 0x22 # concat (map json_char s) @ [CHR 0x22]"

text \<open>\<open>json.dumps(v, sort_keys=True, separators=(",", ":"))\<close>.\<close>

fun json_text :: "py \<Rightarrow> string" where
  "json_text PNone = ''null''"
| "json_text (PBool b) = (if b then ''true'' else ''false'')"
| "json_text (PInt i) = dec_int i"
| "json_text (PStr s) = json_str s"
| "json_text (PList xs) = ''['' @ join '','' (map json_text xs) @ '']''"
| "json_text (PDict d) =
     [CHR 0x7B] @ join '','' (map snd (sort_key fst (map (\<lambda>kv. (fst kv, json_str (fst kv) @ '':'' @ json_text (snd kv))) d))) @ [CHR 0x7D]"

section \<open>The mail settings\<close>

definition MAIL_FIELDS :: "string list" where
  "MAIL_FIELDS = [''host'', ''port'', ''from'', ''fromDisplayName'', ''replyTo'', ''replyToDisplayName'',
     ''envelopeFrom'', ''user'', ''auth'', ''ssl'', ''starttls'']"

definition MAIL_FLAGS :: "string list" where "MAIL_FLAGS = [''auth'', ''ssl'', ''starttls'']"

definition mail_text :: "string \<Rightarrow> py \<Rightarrow> string" where
  "mail_text key v = (let t = (if v = PNone then [] else strip (py_str v)) in if key \<in> set MAIL_FLAGS then lower t else t)"

definition mail_field :: "py \<Rightarrow> string \<Rightarrow> dict flt" where
  "mail_field smtp key = bindR (get_or smtp key) (\<lambda>v. Inr (if mail_text key v = [] then [] else [(key, PStr (mail_text key v))]))"

definition mail_project :: "py \<Rightarrow> dict flt" where
  "mail_project smtp = bindR (mapR (mail_field smtp) MAIL_FIELDS) (\<lambda>ps. Inr (concat ps))"

definition mail_fingerprint :: "(string \<Rightarrow> string) \<Rightarrow> py \<Rightarrow> string flt" where
  "mail_fingerprint sha smtp = bindR (mail_project smtp) (\<lambda>d. Inr (sha (json_text (PDict d))))"

definition realm_get :: "py \<Rightarrow> string \<Rightarrow> py flt" where
  "realm_get realm k = (case realm of PDict d \<Rightarrow> Inr (dget d k) | _ \<Rightarrow> Inl Attribute_Error)"

definition keycloak_mail_follows :: "(string \<Rightarrow> string) \<Rightarrow> py \<Rightarrow> string \<Rightarrow> bool flt" where
  "keycloak_mail_follows sha realm attribute =
     (let realm = (if truthy realm then realm else PDict []) in
      bindR (realm_get realm ''smtpServer'') (\<lambda>smtp. bindR (mail_project smtp) (\<lambda>current.
      bindR (realm_get realm ''attributes'') (\<lambda>attrs. bindR (get_or attrs attribute) (\<lambda>recorded.
      if current = [] \<or> recorded = PNone then Inr True
      else bindR (mail_fingerprint sha (PDict current)) (\<lambda>fp. Inr (py_eq (PStr fp) recorded)))))))"

definition mail_record_args :: "string \<Rightarrow> string \<Rightarrow> string list" where
  "mail_record_args attribute fp = [''-s'', ''attributes.'' @ attribute @ ''='' @ json_str fp]"

definition keycloak_mail_record_sets :: "(string \<Rightarrow> string) \<Rightarrow> py \<Rightarrow> py \<Rightarrow> string \<Rightarrow> string list flt" where
  "keycloak_mail_record_sets sha realm wanted attribute =
     bindR (mail_fingerprint sha wanted) (\<lambda>fp. bindR (realm_get realm ''smtpServer'') (\<lambda>smtp.
     bindR (mail_fingerprint sha smtp) (\<lambda>held.
     if held \<noteq> fp then Inr []
     else bindR (realm_get realm ''attributes'') (\<lambda>attrs. bindR (get_or attrs attribute) (\<lambda>recorded.
       Inr (if py_eq recorded (PStr fp) then [] else mail_record_args attribute fp))))))"

section \<open>The sign-in page's name\<close>

definition keycloak_signin_name_html :: "string \<Rightarrow> string" where
  "keycloak_signin_name_html name = ''<b>'' @ name @ ''</b>''"

definition forms_of :: "py \<Rightarrow> py \<times> py" where
  "forms_of name = (name, PStr (keycloak_signin_name_html (py_str name)))"

definition same_forms :: "py \<times> py \<Rightarrow> py \<times> py \<Rightarrow> bool" where
  "same_forms a b = (py_eq (fst a) (fst b) \<and> py_eq (snd a) (snd b))"

definition or_blank :: "py \<Rightarrow> py" where "or_blank v = (if truthy v then v else PStr [])"

definition name_args :: "string \<Rightarrow> string \<Rightarrow> string list" where
  "name_args name attribute = concat (map (\<lambda>(k, v). [''-s'', k @ ''='' @ json_str v])
     [(''displayName'', name), (''displayNameHtml'', keycloak_signin_name_html name), (''attributes.'' @ attribute, name)])"

definition keycloak_signin_name_sets :: "py \<Rightarrow> py \<Rightarrow> string \<Rightarrow> string list flt" where
  "keycloak_signin_name_sets realm name_arg attribute =
     (let name = strip_or name_arg in
      if name = [] then Inr []
      else bindR (realm_get realm ''displayName'') (\<lambda>dn. bindR (realm_get realm ''displayNameHtml'') (\<lambda>dh.
        bindR (realm_get realm ''attributes'') (\<lambda>attrs. bindR (get_or attrs attribute) (\<lambda>recorded.
        let current = (or_blank dn, or_blank dh);
            catenas = (if recorded = PNone then same_forms current (forms_of (PStr name)) \<or> same_forms current (forms_of (PStr []))
                       else same_forms current (forms_of recorded)) in
        Inr (if \<not> catenas \<or> py_eq recorded (PStr name) \<and> same_forms current (forms_of (PStr name)) then []
             else name_args name attribute))))))"

section \<open>The mail settings through the converges\<close>

text \<open>
  A converge, as the Keycloak role runs it: the import writes the panel's settings when they follow, and
  leaves the realm's otherwise; then the record is written when there are arguments for it. What an import
  and \<open>kcadm update\<close> do is stated, not computed. A person may change the realm between two converges.
\<close>

definition mail_recorded :: "string \<Rightarrow> dict \<Rightarrow> py flt" where
  "mail_recorded attribute d = get_or (dget d ''attributes'') attribute"

inductive mail_converge :: "(string \<Rightarrow> string) \<Rightarrow> string \<Rightarrow> dict \<Rightarrow> py \<Rightarrow> dict \<Rightarrow> bool" for sha attribute where
  follows: "keycloak_mail_follows sha (PDict d) attribute = Inr b
    \<Longrightarrow> (if b then mail_project (dget d1 ''smtpServer'') = mail_project wanted else dget d1 ''smtpServer'' = dget d ''smtpServer'')
    \<Longrightarrow> mail_recorded attribute d1 = mail_recorded attribute d
    \<Longrightarrow> keycloak_mail_record_sets sha (PDict d1) wanted attribute = Inr args
    \<Longrightarrow> dget d2 ''smtpServer'' = dget d1 ''smtpServer''
    \<Longrightarrow> (if args = [] then mail_recorded attribute d2 = mail_recorded attribute d1
        else \<exists>fp. mail_fingerprint sha wanted = Inr fp \<and> mail_recorded attribute d2 = Inr (PStr fp))
    \<Longrightarrow> mail_converge sha attribute d wanted d2"

lemma lower_space: "py_isspace (lower_char c) = py_isspace c"
proof -
  have "lower_char c = c \<or> \<not> py_isspace c \<and> \<not> py_isspace (lower_char c)"
    by (cases "is_upper c") (auto simp: lower_char_def is_upper_def py_isspace_def Let_def)
  then show ?thesis by auto
qed

lemma strip_lower: "strip (lower s) = lower (strip s)"
proof -
  have d: "dropWhile py_isspace (lower s) = lower (dropWhile py_isspace s)" for s
    by (induction s) (auto simp: lower_def lower_space)
  have r: "rev (lower s) = lower (rev s)" for s by (simp add: lower_def rev_map)
  show ?thesis by (simp add: strip_def strip_by_def rstrip_by_def d r)
qed

lemma lower_char_again: "lower_char (lower_char c) = lower_char c"
proof -
  let ?n = "of_char c :: nat"
  have "?n < 256" by simp
  show ?thesis
  proof (cases "65 \<le> ?n \<and> ?n \<le> 90 \<or> 192 \<le> ?n \<and> ?n \<le> 214 \<or> 216 \<le> ?n \<and> ?n \<le> 222")
    case True
    then have l: "lower_char c = char_of (?n + 32)" by (simp add: lower_char_def Let_def)
    have "(of_char (char_of (?n + 32) :: char) :: nat) = ?n + 32" using True by (auto simp: of_char_of)
    with True show ?thesis unfolding l by (auto simp: lower_char_def Let_def)
  next
    case False
    then have "lower_char c = c" unfolding lower_char_def Let_def by (simp only: if_False)
    then show ?thesis by simp
  qed
qed

lemma lower_again: "lower (lower s) = lower s"
  by (simp add: lower_def lower_char_again)

lemma mail_text_again: "mail_text k (if mail_text k v = [] then PNone else PStr (mail_text k v)) = mail_text k v"
proof -
  have "strip (mail_text k v) = mail_text k v" by (simp add: mail_text_def Let_def strip_lower) (simp add: strip_def strip_by_def rstrip_by_def lower_def)
  moreover have "k \<in> set MAIL_FLAGS \<Longrightarrow> lower (mail_text k v) = mail_text k v" by (simp add: mail_text_def Let_def lower_again)
  ultimately have "mail_text k (PStr (mail_text k v)) = mail_text k v" by (simp add: mail_text_def [of k "PStr (mail_text k v)"] Let_def)
  moreover have "mail_text k PNone = []" by (simp add: mail_text_def lower_def)
  ultimately show ?thesis by simp
qed

text \<open>A projection is its own projection.\<close>

definition mail_entry :: "string \<Rightarrow> string \<Rightarrow> dict" where
  "mail_entry k t = (if t = [] then [] else [(k, PStr t)])"

lemma mapR_member: "mapR f ks = Inr ys \<Longrightarrow> k \<in> set ks \<Longrightarrow> \<exists>y. f k = Inr y"
  by (induction ks arbitrary: ys) (auto simp: bindR_Inr_iff)

lemma mapR_all: "(\<And>k. k \<in> set ks \<Longrightarrow> f k = Inr (g k)) \<Longrightarrow> mapR f ks = Inr (map g ks)"
  by (induction ks) simp_all

lemma mail_entries_get:
  "distinct ks \<Longrightarrow> k \<in> set ks \<Longrightarrow> map_of (concat (map (\<lambda>k. mail_entry k (w k)) ks)) k = (if w k = [] then None else Some (PStr (w k)))"
proof (induction ks)
  case (Cons j ks)
  have "map_of (concat (map (\<lambda>k. mail_entry k (w k)) ks)) j = None" if "j \<notin> set ks"
    using that by (auto simp: map_of_eq_None_iff mail_entry_def split: if_splits)
  with Cons show ?case by (auto simp: mail_entry_def)
qed simp

lemma mail_project_again:
  assumes "mail_project smtp = Inr P"
  shows "mail_project (PDict P) = Inr P"
proof -
  obtain ps where ps: "mapR (mail_field smtp) MAIL_FIELDS = Inr ps" "P = concat ps" using assms by (auto simp: mail_project_def bindR_Inr_iff)
  define w where "w k = (case get_or smtp k of Inr v \<Rightarrow> mail_text k v | Inl _ \<Rightarrow> [])" for k
  have f: "mail_field smtp k = Inr (mail_entry k (w k))" if "k \<in> set MAIL_FIELDS" for k
  proof -
    note m = mapR_member [OF ps(1) that]
    from m obtain y where "mail_field smtp k = Inr y" by blast
    then obtain v where "get_or smtp k = Inr v" by (auto simp: mail_field_def bindR_Inr_iff)
    then show ?thesis by (simp add: mail_field_def w_def mail_entry_def bindR_def)
  qed
  have "mapR (mail_field smtp) MAIL_FIELDS = Inr (map (\<lambda>k. mail_entry k (w k)) MAIL_FIELDS)" by (rule mapR_all) (rule f)
  with ps have P: "P = concat (map (\<lambda>k. mail_entry k (w k)) MAIL_FIELDS)" by simp
  have "mail_text k PNone = []" for k by (simp add: mail_text_def lower_def)
  then have again: "mail_text k (if w k = [] then PNone else PStr (w k)) = w k" for k
    using mail_text_again [of k] by (cases "get_or smtp k") (simp only: w_def sum.case if_True simp_thms refl, simp only: w_def sum.case)
  have "get_or (PDict P) k = Inr (if w k = [] then PNone else PStr (w k))" if "k \<in> set MAIL_FIELDS" for k
  proof -
    have "distinct MAIL_FIELDS" by code_simp
    from mail_entries_get [OF this that, of w] have "dget P k = (if w k = [] then PNone else PStr (w k))" by (simp add: dget_def P)
    then show ?thesis by (cases "P = []") (auto simp: get_or_def dget_def)
  qed
  then have "mail_field (PDict P) k = Inr (mail_entry k (w k))" if "k \<in> set MAIL_FIELDS" for k
    using that again [of k] by (cases "w k = []") (simp_all add: mail_field_def bindR_def mail_entry_def)
  then have "mapR (mail_field (PDict P)) MAIL_FIELDS = Inr (map (\<lambda>k. mail_entry k (w k)) MAIL_FIELDS)" by (rule mapR_all)
  then show ?thesis by (simp add: mail_project_def P bindR_def)
qed

lemma follows_recorded:
  assumes "mail_project (dget d ''smtpServer'') = Inr P" "P \<noteq> []" and "mail_recorded attribute d = Inr (PStr r)" and "d \<noteq> []"
  shows "keycloak_mail_follows sha (PDict d) attribute = Inr (sha (json_text (PDict P)) = r)"
proof -
  have "mail_fingerprint sha (PDict P) = Inr (sha (json_text (PDict P)))"
    by (simp add: mail_fingerprint_def mail_project_again [OF assms(1)] bindR_def)
  with assms show ?thesis
    by (auto simp: keycloak_mail_follows_def realm_get_def bindR_def mail_recorded_def)
qed

inductive mail_run :: "(string \<Rightarrow> string) \<Rightarrow> string \<Rightarrow> dict \<Rightarrow> py list \<Rightarrow> dict \<Rightarrow> bool" for sha attribute where
  no_converge: "mail_run sha attribute d [] d"
| one_converge: "mail_converge sha attribute d w d1 \<Longrightarrow> mail_run sha attribute d1 ws d2 \<Longrightarrow> mail_run sha attribute d (w # ws) d2"

lemma mail_realm_there: "mail_project (dget d ''smtpServer'') = Inr P \<Longrightarrow> P \<noteq> [] \<Longrightarrow> d \<noteq> []"
proof
  assume "mail_project (dget d ''smtpServer'') = Inr P" "P \<noteq> []" "d = []"
  moreover have "(case mail_project PNone of Inr P \<Rightarrow> P = [] | Inl _ \<Rightarrow> True)" by code_simp
  ultimately show False by (simp add: dget_def)
qed

lemma edited_converge:
  assumes "mail_converge sha attribute d w d2" and "mail_project (dget d ''smtpServer'') = Inr Q" "Q \<noteq> []"
    and "mail_recorded attribute d = Inr (PStr r)" "sha (json_text (PDict Q)) \<noteq> r" "mail_fingerprint sha w \<noteq> Inr (sha (json_text (PDict Q)))"
  shows "dget d2 ''smtpServer'' = dget d ''smtpServer'' \<and> mail_recorded attribute d2 = mail_recorded attribute d"
  using assms(1)
proof cases
  case (follows b d1 args)
  have "b = False" using follows(1) follows_recorded [OF assms(2-4) mail_realm_there [OF assms(2,3)]] assms(5) by simp
  then have s: "dget d1 ''smtpServer'' = dget d ''smtpServer''" using follows(2) by simp
  then have "mail_fingerprint sha (dget d1 ''smtpServer'') = Inr (sha (json_text (PDict Q)))" by (simp add: mail_fingerprint_def assms(2))
  with follows(4) assms(6) have "args = []" by (auto simp: keycloak_mail_record_sets_def realm_get_def bindR_Inr_iff)
  with s follows show ?thesis by simp
qed

text \<open>C28: A person's mail settings stay. When the realm holds mail settings that differ from what Catena recorded,
  no converge that follows changes them or the record, however many there are and whatever mail settings
  the panel gives them, as long as none of these are the person's own.\<close>

theorem mail_hand_edit_stays:
  assumes "mail_run sha attribute d ws d'" and "mail_project (dget d ''smtpServer'') = Inr Q" "Q \<noteq> []"
    and "mail_recorded attribute d = Inr (PStr r)" "sha (json_text (PDict Q)) \<noteq> r"
    and "\<forall>w \<in> set ws. mail_fingerprint sha w \<noteq> Inr (sha (json_text (PDict Q)))"
  shows "dget d' ''smtpServer'' = dget d ''smtpServer'' \<and> mail_recorded attribute d' = mail_recorded attribute d"
  using assms
proof (induction rule: mail_run.induct)
  case (one_converge d w d1 ws d2)
  have c: "dget d1 ''smtpServer'' = dget d ''smtpServer''" "mail_recorded attribute d1 = mail_recorded attribute d"
    using edited_converge [OF one_converge.hyps(1) one_converge.prems(1-4)] one_converge.prems(5) by simp_all
  with one_converge show ?case by simp
qed simp

text \<open>And the panel's settings follow while nobody changed them: they are written, recorded, and followed again.\<close>

theorem panel_mail_follows:
  assumes "mail_converge sha attribute d w d2" and "mail_project w = Inr W" "W \<noteq> []"
    and "mail_project (dget d ''smtpServer'') = Inr P"
    and "P = [] \<or> mail_recorded attribute d = Inr PNone \<or> mail_recorded attribute d = Inr (PStr (sha (json_text (PDict P))))"
  shows "mail_project (dget d2 ''smtpServer'') = Inr W \<and> mail_recorded attribute d2 = Inr (PStr (sha (json_text (PDict W))))"
  using assms(1)
proof cases
  case (follows b d1 args)
  have b: "b = True"
  proof (cases "P = [] \<or> mail_recorded attribute d = Inr PNone")
    case True
    then show ?thesis using follows(1) assms(4)
      by (cases "d = []") (auto simp: keycloak_mail_follows_def realm_get_def bindR_Inr_iff mail_recorded_def dget_def)
  next
    case False
    with assms(5) follows_recorded [OF assms(4)] mail_realm_there [OF assms(4)] follows(1) show ?thesis by simp
  qed
  with follows(2) assms(2) have s: "mail_project (dget d1 ''smtpServer'') = Inr W" by simp
  have fp: "mail_fingerprint sha w = Inr (sha (json_text (PDict W)))" "mail_fingerprint sha (dget d1 ''smtpServer'') = Inr (sha (json_text (PDict W)))"
    using assms(2) s by (simp_all add: mail_fingerprint_def)
  have "mail_recorded attribute d1 = Inr (PStr (sha (json_text (PDict W))))" if "args = []"
  proof -
    have eq: "py_eq v (PStr u) \<Longrightarrow> v = PStr u" for v u by (cases v) simp_all
    show ?thesis using follows(4) that by (auto simp: keycloak_mail_record_sets_def realm_get_def fp bindR_Inr_iff mail_recorded_def mail_record_args_def split: if_splits dest: eq)
  qed
  with follows(5,6) s fp show ?thesis by (cases "args = []") auto
qed

definition edited_realm :: dict where
  "edited_realm = [(''smtpServer'', PDict [(''host'', PStr ''mail.person.example''), (''port'', PInt 587)]),
     (''attributes'', PDict [(''catena.mail'', PStr ''recorded'')])]"

definition panel_mail :: py where "panel_mail = PDict [(''host'', PStr ''mail.panel.example'')]"

definition edited_later :: dict where "edited_later = (''displayName'', PStr ''Sign in'') # edited_realm"

theorem mail_hand_edit_stays_witness:
  "mail_run id ''catena.mail'' edited_realm [panel_mail] edited_later
     \<and> dget edited_later ''smtpServer'' = dget edited_realm ''smtpServer''
     \<and> mail_recorded ''catena.mail'' edited_later = mail_recorded ''catena.mail'' edited_realm"
proof -
  have v: "keycloak_mail_follows id (PDict edited_realm) ''catena.mail'' = Inr False"
    "keycloak_mail_record_sets id (PDict edited_realm) panel_mail ''catena.mail'' = Inr []"
    "mail_project (dget edited_realm ''smtpServer'') = Inr [(''host'', PStr ''mail.person.example''), (''port'', PStr ''587'')]"
    "mail_recorded ''catena.mail'' edited_realm = Inr (PStr ''recorded'')"
    "id (json_text (PDict [(''host'', PStr ''mail.person.example''), (''port'', PStr ''587'')])) \<noteq> ''recorded''"
    "\<forall>w \<in> set [panel_mail]. mail_fingerprint id w \<noteq> Inr (id (json_text (PDict [(''host'', PStr ''mail.person.example''), (''port'', PStr ''587'')])))"
    "dget edited_later ''smtpServer'' = dget edited_realm ''smtpServer''"
    "mail_recorded ''catena.mail'' edited_later = mail_recorded ''catena.mail'' edited_realm" by code_simp+
  have "mail_converge id ''catena.mail'' edited_realm panel_mail edited_later"
    by (rule mail_converge.follows [OF v(1) _ refl v(2) v(7)]) (simp_all add: v(8))
  then have run: "mail_run id ''catena.mail'' edited_realm [panel_mail] edited_later" by (rule one_converge [OF _ no_converge])
  from mail_hand_edit_stays [OF run v(3) _ v(4,5,6)] run show ?thesis by blast
qed

section \<open>The page's name through the converges\<close>

definition page_forms :: "dict \<Rightarrow> py \<times> py" where
  "page_forms d = (or_blank (dget d ''displayName''), or_blank (dget d ''displayNameHtml''))"

definition name_recorded :: "string \<Rightarrow> dict \<Rightarrow> py flt" where
  "name_recorded attribute d = get_or (dget d ''attributes'') attribute"

text \<open>The page has Catena's name: both forms and the record hold it.\<close>

definition page_named :: "string \<Rightarrow> string \<Rightarrow> dict \<Rightarrow> bool" where
  "page_named attribute n d = (n \<noteq> [] \<and> dget d ''displayName'' = PStr n \<and> dget d ''displayNameHtml'' = PStr (keycloak_signin_name_html n)
     \<and> name_recorded attribute d = Inr (PStr n))"

text \<open>A converge: \<open>kcadm update\<close> with the arguments, when there are any, sets the three values they name.\<close>

inductive name_converge :: "string \<Rightarrow> dict \<Rightarrow> py \<Rightarrow> dict \<Rightarrow> bool" for attribute where
  keeps_name: "keycloak_signin_name_sets (PDict d) name attribute = Inr []
    \<Longrightarrow> page_forms d1 = page_forms d \<Longrightarrow> dget d1 ''displayName'' = dget d ''displayName'' \<Longrightarrow> dget d1 ''displayNameHtml'' = dget d ''displayNameHtml''
    \<Longrightarrow> name_recorded attribute d1 = name_recorded attribute d \<Longrightarrow> name_converge attribute d name d1"
| takes_name: "keycloak_signin_name_sets (PDict d) name attribute = Inr args \<Longrightarrow> args \<noteq> []
    \<Longrightarrow> page_named attribute (strip_or name) d1 \<Longrightarrow> name_converge attribute d name d1"

inductive name_run :: "string \<Rightarrow> dict \<Rightarrow> py list \<Rightarrow> dict \<Rightarrow> bool" for attribute where
  name_end: "name_run attribute d [] d"
| name_step: "name_converge attribute d n d1 \<Longrightarrow> name_run attribute d1 ns d2 \<Longrightarrow> name_run attribute d (n # ns) d2"

text \<open>The last name given that is not blank.\<close>

definition last_name :: "string \<Rightarrow> py list \<Rightarrow> string" where
  "last_name n ns = foldl (\<lambda>m v. if strip_or v = [] then m else strip_or v) n ns"

lemma named_forms: "page_named attribute n d \<Longrightarrow> page_forms d = (PStr n, PStr (keycloak_signin_name_html n))"
  by (auto simp: page_named_def page_forms_def or_blank_def keycloak_signin_name_html_def)

lemma sets_when_recorded:
  assumes "name_recorded attribute d = Inr recorded" "recorded \<noteq> PNone" "strip_or name \<noteq> []"
  shows "keycloak_signin_name_sets (PDict d) name attribute = Inr
    (if \<not> same_forms (page_forms d) (forms_of recorded) \<or> py_eq recorded (PStr (strip_or name)) \<and> same_forms (page_forms d) (forms_of (PStr (strip_or name)))
     then [] else name_args (strip_or name) attribute)"
  using assms by (simp add: keycloak_signin_name_sets_def realm_get_def name_recorded_def page_forms_def Let_def)

lemma named_converge:
  assumes "name_converge attribute d name d1" and "page_named attribute n d"
  shows "page_named attribute (if strip_or name = [] then n else strip_or name) d1"
proof -
  have r: "name_recorded attribute d = Inr (PStr n)" using assms(2) by (simp add: page_named_def)
  have same: "same_forms (page_forms d) (forms_of (PStr n))" by (simp add: named_forms [OF assms(2)] same_forms_def forms_of_def)
  from assms(1) show ?thesis
  proof cases
    case keeps_name
    then have d1: "page_named attribute n d1" using assms(2) by (simp add: page_named_def)
    moreover have "strip_or name = n" if "strip_or name \<noteq> []"
      using keeps_name(1) sets_when_recorded [OF r _ that] same by (auto simp: name_args_def split: if_splits)
    ultimately show ?thesis by auto
  next
    case (takes_name args)
    then show ?thesis by (auto simp: page_named_def)
  qed
qed

lemma renamed_converge:
  assumes "name_converge attribute d name d1" and "name_recorded attribute d = Inr recorded" "recorded \<noteq> PNone"
    and "\<not> same_forms (page_forms d) (forms_of recorded)"
  shows "page_forms d1 = page_forms d \<and> name_recorded attribute d1 = name_recorded attribute d"
  using assms(1)
proof cases
  case (takes_name args)
  have "strip_or name \<noteq> []" using takes_name(3) by (simp add: page_named_def)
  from sets_when_recorded [OF assms(2,3) this] takes_name(1,2) assms(4) show ?thesis by simp
qed simp

text \<open>The page's name follows the domain until a person changes it. A page with Catena's name has, after any
  number of converges, the last name they gave that is not blank, in both forms and in the record. A page
  whose forms are not those of its record keeps forms and record through any number of converges.\<close>

theorem page_name_follows:
  assumes "name_run attribute d ns d'"
  shows "(page_named attribute n d \<longrightarrow> page_named attribute (last_name n ns) d')
    \<and> (\<forall>recorded. name_recorded attribute d = Inr recorded \<and> recorded \<noteq> PNone \<and> \<not> same_forms (page_forms d) (forms_of recorded)
        \<longrightarrow> page_forms d' = page_forms d \<and> name_recorded attribute d' = name_recorded attribute d)"
  using assms
proof (induction arbitrary: n rule: name_run.induct)
  case (name_step d name d1 ns d2)
  have "last_name n (name # ns) = last_name (if strip_or name = [] then n else strip_or name) ns" by (simp add: last_name_def)
  with name_step.IH named_converge [OF name_step.hyps(1)] renamed_converge [OF name_step.hyps(1)] show ?case by metis
qed (simp add: last_name_def)

definition page_of_name :: "string \<Rightarrow> dict" where
  "page_of_name n = [(''displayName'', PStr n), (''displayNameHtml'', PStr (keycloak_signin_name_html n)),
     (''attributes'', PDict [(''catena.name'', PStr n)])]"

theorem page_name_follows_witness:
  "name_run ''catena.name'' (page_of_name ''a.example'') [PNone, PStr ''b.example''] (page_of_name ''b.example'')
    \<and> page_named ''catena.name'' ''b.example'' (page_of_name ''b.example'')"
proof -
  have v: "keycloak_signin_name_sets (PDict (page_of_name ''a.example'')) PNone ''catena.name'' = Inr []"
    "keycloak_signin_name_sets (PDict (page_of_name ''a.example'')) (PStr ''b.example'') ''catena.name'' = Inr (name_args ''b.example'' ''catena.name'')"
    "name_args ''b.example'' ''catena.name'' \<noteq> []" "page_named ''catena.name'' (strip_or (PStr ''b.example'')) (page_of_name ''b.example'')"
    "page_named ''catena.name'' ''a.example'' (page_of_name ''a.example'')" "last_name ''a.example'' [PNone, PStr ''b.example''] = ''b.example''" by code_simp+
  have "name_run ''catena.name'' (page_of_name ''a.example'') [PNone, PStr ''b.example''] (page_of_name ''b.example'')"
    by (rule name_step [OF keeps_name [OF v(1) refl refl refl refl] name_step [OF takes_name [OF v(2-4)] name_end]])
  with page_name_follows [OF this, of "''a.example''"] v(5,6) show ?thesis by simp
qed

end
