(* ===== verification/Keycloak_Flows.thy ===== *)
theory Keycloak_Flows
  imports Keycloak_Filters Text_Filters "HOL-Library.Multiset"
begin

text \<open>
  The sign-in flows of the Keycloak realm, \<open>src/ansible/playbooks/filter_plugins/keycloak_signin_flows.py\<close>: the
  flows and their configs as the code builds them under versioned aliases, and the record that tells a
  converge whether a person edited them. SHA-256 and the JSON reader are parameters. Shown: every flow and
  config a step names is declared, once, and nothing declared is left unused; and a converge builds the
  flows anew exactly when a recorded one reads differently.
\<close>

section \<open>Flows\<close>

datatype kstep =
    Step (step_authenticator: string) (step_requirement: string) (step_priority: int) (step_config: "string option")
  | Sub (sub_alias: string) (sub_requirement: string) (sub_priority: int)

record kflow =
  kf_alias :: string
  kf_description :: string
  kf_top :: bool
  kf_steps :: "kstep list"

record kconfig =
  kc_alias :: string
  kc_values :: "(string \<times> string) list"

definition BROWSER :: string where "BROWSER = ''catena-browser''"
definition SIGNIN :: string where "SIGNIN = ''catena-signin-''"
definition POST_BROKER :: string where "POST_BROKER = ''catena-post-broker-login''"
definition PLACEHOLDER :: string where "PLACEHOLDER = ''@''"

definition TIERS :: "(string \<times> string list) list" where
  "TIERS = [(''admin'', [''catena-tier-admin'']), (''staff'', [''catena-tier-admin'', ''catena-tier-staff''])]"

definition kflow_of :: "string \<Rightarrow> string \<Rightarrow> bool \<Rightarrow> kstep list \<Rightarrow> kflow" where
  "kflow_of alias description is_top steps = \<lparr>kf_alias = alias, kf_description = description, kf_top = is_top, kf_steps = steps\<rparr>"

definition kstep_of :: "string \<Rightarrow> string \<Rightarrow> int \<Rightarrow> kstep" where
  "kstep_of authenticator requirement priority = Step authenticator requirement priority None"

definition kstep_with :: "string \<Rightarrow> string \<Rightarrow> int \<Rightarrow> string \<Rightarrow> kstep" where
  "kstep_with authenticator requirement priority config = Step authenticator requirement priority (if config = [] then None else Some config)"

text \<open>The dictionaries that are dumped.\<close>

fun kstep_py :: "kstep \<Rightarrow> py" where
  "kstep_py (Step a r p c) = PDict ([(''authenticator'', PStr a), (''requirement'', PStr r), (''priority'', PInt p)]
     @ (case c of None \<Rightarrow> [] | Some x \<Rightarrow> [(''authenticatorConfig'', PStr x)]))"
| "kstep_py (Sub f r p) = PDict [(''flowAlias'', PStr f), (''requirement'', PStr r), (''priority'', PInt p), (''authenticatorFlow'', PBool True)]"

definition kflow_py :: "kflow \<Rightarrow> py" where
  "kflow_py f = PDict [(''alias'', PStr (kf_alias f)), (''description'', PStr (kf_description f)), (''providerId'', PStr ''basic-flow''),
     (''topLevel'', PBool (kf_top f)), (''builtIn'', PBool False), (''authenticationExecutions'', PList (map kstep_py (kf_steps f)))]"

definition kconfig_py :: "kconfig \<Rightarrow> py" where
  "kconfig_py c = PDict [(''alias'', PStr (kc_alias c)), (''config'', PDict (map (\<lambda>kv. (fst kv, PStr (snd kv))) (kc_values c)))]"

section \<open>The builders\<close>

definition browser_steps :: "string \<Rightarrow> kstep list" where
  "browser_steps flow =
     [kstep_of ''auth-cookie'' ''ALTERNATIVE'' 10, kstep_of ''auth-spnego'' ''DISABLED'' 20,
      kstep_of ''identity-provider-redirector'' ''ALTERNATIVE'' 25,
      Sub (flow @ '' organization'') ''ALTERNATIVE'' 26, Sub (flow @ '' forms'') ''ALTERNATIVE'' 30]"

definition form_flows :: "string \<Rightarrow> bool \<Rightarrow> kflow list" where
  "form_flows flow password_only =
     [kflow_of (flow @ '' organization'') ''Organization identity-first login.'' False
        [Sub (flow @ '' conditional organization'') ''CONDITIONAL'' 10],
      kflow_of (flow @ '' conditional organization'') ''Whether the organization identity-first login applies.'' False
        [kstep_of ''conditional-user-configured'' ''REQUIRED'' 10, kstep_of ''organization'' ''ALTERNATIVE'' 20]]
     @ (if password_only then
          [kflow_of (flow @ '' forms'') ''Username and password, then the second factor.'' False
             [kstep_of ''auth-username-password-form'' ''REQUIRED'' 10, Sub (flow @ '' conditional 2FA'') ''CONDITIONAL'' 20]]
        else
          [kflow_of (flow @ '' forms'') ''Username and password or emailed code, then the second factor.'' False
             [Sub (flow @ '' credential'') ''REQUIRED'' 10, Sub (flow @ '' conditional 2FA'') ''CONDITIONAL'' 20],
           kflow_of (flow @ '' credential'') ''The username and password form, or a code emailed to a client.'' False
             [kstep_of ''auth-username-password-form'' ''ALTERNATIVE'' 10, kstep_of ''catena-client-email-code'' ''ALTERNATIVE'' 20]])
     @ [kflow_of (flow @ '' conditional 2FA'') ''Whether a second factor is required.'' False
          [kstep_of ''conditional-user-configured'' ''REQUIRED'' 10,
           kstep_with ''conditional-credential'' ''REQUIRED'' 20 (flow @ ''-conditional-credential''),
           kstep_of ''auth-otp-form'' ''ALTERNATIVE'' 30, kstep_of ''webauthn-authenticator'' ''DISABLED'' 40,
           kstep_of ''auth-recovery-authn-code-form'' ''DISABLED'' 50]]"

definition second_factor_config :: "string \<Rightarrow> kconfig" where
  "second_factor_config flow = \<lparr>kc_alias = flow @ ''-conditional-credential'', kc_values = [(''credentials'', ''webauthn-passwordless'')]\<rparr>"

definition role_config :: "string \<Rightarrow> string \<Rightarrow> kconfig" where
  "role_config alias role = \<lparr>kc_alias = alias, kc_values = [(''condUserRole'', role), (''negate'', ''true'')]\<rparr>"

type_synonym built = "kflow list \<times> kconfig list"

definition browser_flows :: "string \<Rightarrow> built" where
  "browser_flows flow =
     (kflow_of flow ''Browser sign-in for applications open to every account.'' True (browser_steps flow) # form_flows flow False,
      [second_factor_config flow])"

definition enum_list :: "'a list \<Rightarrow> (int \<times> 'a) list" where
  "enum_list xs = zip (map int [0..<length xs]) xs"

definition admitted_roles :: "string \<Rightarrow> string list" where
  "admitted_roles tier = (case map_of TIERS tier of Some rs \<Rightarrow> rs | None \<Rightarrow> [])"

definition tier_flows :: "string \<Rightarrow> string \<Rightarrow> built" where
  "tier_flows tier flow =
     (let admitted = admitted_roles tier;
          check = map (\<lambda>(i, role). kstep_with ''conditional-user-role'' ''REQUIRED'' ((i + 1) * 10) (flow @ ''-without-'' @ role)) (enum_list admitted)
            @ [kstep_of ''catena-tier-refusal'' ''REQUIRED'' ((int (length admitted) + 1) * 10)] in
      ([kflow_of flow (''Browser sign-in for applications open to the '' @ tier @ '' tier.'') True
          [Sub (flow @ '' sign-in'') ''REQUIRED'' 10, Sub (flow @ '' tier check'') ''CONDITIONAL'' 20],
        kflow_of (flow @ '' sign-in'') ''The steps of the realm's browser flow.'' False (browser_steps flow),
        kflow_of (flow @ '' tier check'') ''Denies an account holding none of the tier roles this flow admits.'' False check]
       @ form_flows flow (tier = ''admin''),
       map (\<lambda>role. role_config (flow @ ''-without-'' @ role) role) admitted @ [second_factor_config flow]))"

definition broker_tier :: "string \<Rightarrow> string \<times> string list \<Rightarrow> kflow" where
  "broker_tier flow ta = (let (tier, admitted) = ta in
     kflow_of (flow @ '' '' @ tier) (''Denies an account holding none of the tier roles '' @ SIGNIN @ tier @ '' admits, at an application bound to it.'') False
       (kstep_with ''conditional-client-scope'' ''REQUIRED'' 10 (flow @ ''-'' @ tier @ ''-scope'')
        # map (\<lambda>(i, role). kstep_with ''conditional-user-role'' ''REQUIRED'' ((i + 2) * 10) (flow @ ''-'' @ tier @ ''-without-'' @ role)) (enum_list admitted)
        @ [kstep_of ''catena-tier-refusal'' ''REQUIRED'' ((int (length admitted) + 2) * 10)]))"

definition broker_configs :: "string \<Rightarrow> string \<times> string list \<Rightarrow> kconfig list" where
  "broker_configs flow ta = (let (tier, admitted) = ta in
     \<lparr>kc_alias = flow @ ''-'' @ tier @ ''-scope'', kc_values = [(''client_scope'', SIGNIN @ tier), (''negate'', ''false'')]\<rparr>
     # map (\<lambda>role. role_config (flow @ ''-'' @ tier @ ''-without-'' @ role) role) admitted)"

definition post_broker_flows :: "string \<Rightarrow> built" where
  "post_broker_flows flow =
     (kflow_of flow ''After a sign-in through an external identity provider: the tier check of the application's sign-in flow.'' True
        (map (\<lambda>(i, tier). Sub (flow @ '' '' @ tier) ''CONDITIONAL'' ((i + 1) * 10)) (enum_list (map fst TIERS))
         @ [kstep_of ''allow-access-authenticator'' ''REQUIRED'' ((int (length TIERS) + 1) * 10)])
      # map (broker_tier flow) TIERS,
      concat (map (broker_configs flow) TIERS))"

definition flow_builders :: "(string \<times> (string \<Rightarrow> built)) list" where
  "flow_builders = [(BROWSER, browser_flows), (POST_BROKER, post_broker_flows)] @ map (\<lambda>(tier, _). (SIGNIN @ tier, tier_flows tier)) TIERS"

definition flow_version :: "(string \<Rightarrow> string) \<Rightarrow> (string \<Rightarrow> built) \<Rightarrow> int \<Rightarrow> string" where
  "flow_version sha build generation = (let (flows, configs) = build PLACEHOLDER in
     take 8 (sha (json_text (PDict [(''flows'', PList (map kflow_py flows)), (''configs'', PList (map kconfig_py configs)), (''generation'', PInt generation)]))))"

record signin =
  si_aliases :: "(string \<times> string) list"
  si_bases :: "string list"
  si_flows :: "kflow list"
  si_configs :: "kconfig list"

definition versioned :: "(string \<Rightarrow> string) \<Rightarrow> int \<Rightarrow> string \<times> (string \<Rightarrow> built) \<Rightarrow> string" where
  "versioned sha generation bb = fst bb @ ''-v'' @ flow_version sha (snd bb) generation"

definition keycloak_signin_flows :: "(string \<Rightarrow> string) \<Rightarrow> int \<Rightarrow> signin" where
  "keycloak_signin_flows sha generation =
     (let made = map (\<lambda>bb. (fst bb, versioned sha generation bb, snd bb (versioned sha generation bb))) flow_builders;
          alias = (\<lambda>base. case map_of made base of Some (a, _) \<Rightarrow> a | None \<Rightarrow> []) in
      \<lparr>si_aliases = [(''browser'', alias BROWSER), (''admin'', alias (SIGNIN @ ''admin'')), (''staff'', alias (SIGNIN @ ''staff'')),
         (''post_broker_login'', alias POST_BROKER)],
       si_bases = map fst made, si_flows = concat (map (\<lambda>(_, _, b). fst b) made), si_configs = concat (map (\<lambda>(_, _, b). snd b) made)\<rparr>)"

section \<open>The record\<close>

definition PROJECTED :: "string list" where
  "PROJECTED = [''level'', ''index'', ''priority'', ''requirement'', ''authenticationFlow'', ''providerId'', ''displayName'', ''description'', ''alias'']"

definition execution_row :: "py \<Rightarrow> py flt" where
  "execution_row row = bindR (mapR (\<lambda>k. bindR (realm_get row k) (\<lambda>v. Inr (k, v))) PROJECTED) (\<lambda>d. Inr (PDict d))"

definition keycloak_flow_digest :: "(string \<Rightarrow> string) \<Rightarrow> py \<Rightarrow> string flt" where
  "keycloak_flow_digest sha read =
     bindR (realm_get read ''flow'') (\<lambda>flow. bindR (if \<not> truthy flow then Inr [] else case flow of PDict d \<Rightarrow> Inr (ddel ''id'' d) | _ \<Rightarrow> Inl Attribute_Error) (\<lambda>d.
     bindR (realm_get read ''executions'') (\<lambda>es. bindR (items_or es) (\<lambda>rows. bindR (mapR execution_row rows) (\<lambda>rs.
       Inr (sha (json_text (PDict [(''flow'', PDict d), (''executions'', PList rs)]))))))))"

definition digest_line :: "(string \<Rightarrow> string) \<Rightarrow> (string \<Rightarrow> py option) \<Rightarrow> string \<Rightarrow> dict \<Rightarrow> dict flt" where
  "digest_line sha json line digests =
     (let (alias, _, body) = partition_char (CHR 0x09) line in
      if alias = [] then Inr digests
      else bindR (if body = [] then Inr PNone else case json body of None \<Rightarrow> Inl Value_Error | Some v \<Rightarrow> Inr v) (\<lambda>read.
        if read = PNone then Inr (dset alias PNone digests)
        else bindR (keycloak_flow_digest sha read) (\<lambda>h. Inr (dset alias (PStr h) digests))))"

definition keycloak_flow_digests :: "(string \<Rightarrow> string) \<Rightarrow> (string \<Rightarrow> py option) \<Rightarrow> py \<Rightarrow> dict flt" where
  "keycloak_flow_digests sha json listing = foldR (digest_line sha json) (splitlines (str_or listing)) []"

fun kc_int :: "py \<Rightarrow> int flt" where
  "kc_int (PInt n) = Inr n"
| "kc_int (PBool b) = Inr (of_bool b)"
| "kc_int (PStr s) = (case py_int s of None \<Rightarrow> Inl Value_Error | Some n \<Rightarrow> Inr n)"
| "kc_int _ = Inl Type_Error"

definition keycloak_flow_generation :: "py \<Rightarrow> dict \<Rightarrow> int flt" where
  "keycloak_flow_generation record observed =
     (if \<not> truthy record then Inr 0
      else case record of
        PDict d \<Rightarrow> bindR (kc_int (dget_def d ''generation'' (PInt 0))) (\<lambda>generation.
          bindR (let v = dget d ''flows'' in if \<not> truthy v then Inr [] else case v of PDict e \<Rightarrow> Inr e | _ \<Rightarrow> Inl Attribute_Error) (\<lambda>recorded.
            Inr (if list_ex (\<lambda>kv. \<not> py_eq (dget observed (fst kv)) (snd kv)) recorded then generation + 1 else generation)))
      | _ \<Rightarrow> Inl Attribute_Error)"

definition keycloak_flow_record :: "int \<Rightarrow> dict \<Rightarrow> py" where
  "keycloak_flow_record generation observed = PDict [(''generation'', PInt generation), (''flows'', PDict (sort_key fst observed))]"

text \<open>A flow as \<open>kcadm\<close> lists it.\<close>

record listed_flow =
  lf_id :: string
  lf_alias :: string
  lf_top :: bool

definition keycloak_flow_stale :: "listed_flow list \<Rightarrow> string list \<Rightarrow> signin \<Rightarrow> (string \<times> string) list" where
  "keycloak_flow_stale flows bound build =
     (let current = map snd (si_aliases build) in
      map (\<lambda>f. (lf_id f, lf_alias f)) (filter (\<lambda>f.
        lf_top f \<and> lf_alias f \<notin> set current \<and> lf_alias f \<notin> set bound \<and> lf_id f \<notin> set bound
        \<and> list_ex (\<lambda>base. lf_alias f = base \<or> prefix (base @ ''-v'') (lf_alias f)) (si_bases build)) flows))"

section \<open>What the steps name is declared\<close>

text \<open>The flows and the configs the steps of a list of flows name, in order.\<close>

definition named_flows :: "kflow list \<Rightarrow> string list" where
  "named_flows fs = concat (map (\<lambda>f. concat (map (\<lambda>s. case s of Sub a r p \<Rightarrow> [a] | Step x r p c \<Rightarrow> []) (kf_steps f))) fs)"

definition named_configs :: "kflow list \<Rightarrow> string list" where
  "named_configs fs = concat (map (\<lambda>f. concat (map (\<lambda>s. case s of Step x r p (Some c) \<Rightarrow> [c] | _ \<Rightarrow> []) (kf_steps f))) fs)"

definition top_aliases :: "kflow list \<Rightarrow> string list" where
  "top_aliases fs = map kf_alias (filter kf_top fs)"

definition sub_aliases :: "kflow list \<Rightarrow> string list" where
  "sub_aliases fs = map kf_alias (filter (\<lambda>f. \<not> kf_top f) fs)"

text \<open>
  What the builders give for an alias, as the endings of the names behind it: the sub-flows, the flows
  named, the configs, the configs named.
\<close>

record endings =
  en_subs :: "string list"
  en_named :: "string list"
  en_configs :: "string list"
  en_config_names :: "string list"

definition has_endings :: "string \<Rightarrow> built \<Rightarrow> endings \<Rightarrow> bool" where
  "has_endings flow b e = (top_aliases (fst b) = [flow] \<and> sub_aliases (fst b) = map ((@) flow) (en_subs e)
     \<and> named_flows (fst b) = map ((@) flow) (en_named e) \<and> map kc_alias (snd b) = map ((@) flow) (en_configs e)
     \<and> named_configs (fst b) = map ((@) flow) (en_config_names e))"

text \<open>Each sub-flow and each config is named once, and nothing else is.\<close>

definition closed_endings :: "endings \<Rightarrow> bool" where
  "closed_endings e = (distinct (en_subs e) \<and> distinct (en_named e) \<and> set (en_named e) = set (en_subs e) \<and> [] \<notin> set (en_subs e)
     \<and> distinct (en_configs e) \<and> distinct (en_config_names e) \<and> set (en_config_names e) = set (en_configs e))"

definition browser_endings :: endings where
  "browser_endings = \<lparr>
     en_subs = ['' organization'', '' conditional organization'', '' forms'', '' credential'', '' conditional 2FA''],
     en_named = ['' organization'', '' forms'', '' conditional organization'', '' credential'', '' conditional 2FA''],
     en_configs = [''-conditional-credential''], en_config_names = [''-conditional-credential'']\<rparr>"

definition staff_endings :: endings where
  "staff_endings = \<lparr>
     en_subs = ['' sign-in'', '' tier check'', '' organization'', '' conditional organization'', '' forms'', '' credential'', '' conditional 2FA''],
     en_named = ['' sign-in'', '' tier check'', '' organization'', '' forms'', '' conditional organization'', '' credential'', '' conditional 2FA''],
     en_configs = [''-without-catena-tier-admin'', ''-without-catena-tier-staff'', ''-conditional-credential''],
     en_config_names = [''-without-catena-tier-admin'', ''-without-catena-tier-staff'', ''-conditional-credential'']\<rparr>"

definition admin_endings :: endings where
  "admin_endings = \<lparr>
     en_subs = ['' sign-in'', '' tier check'', '' organization'', '' conditional organization'', '' forms'', '' conditional 2FA''],
     en_named = ['' sign-in'', '' tier check'', '' organization'', '' forms'', '' conditional organization'', '' conditional 2FA''],
     en_configs = [''-without-catena-tier-admin'', ''-conditional-credential''],
     en_config_names = [''-without-catena-tier-admin'', ''-conditional-credential'']\<rparr>"

definition broker_endings :: endings where
  "broker_endings = \<lparr>
     en_subs = ['' admin'', '' staff''], en_named = ['' admin'', '' staff''],
     en_configs = [''-admin-scope'', ''-admin-without-catena-tier-admin'', ''-staff-scope'', ''-staff-without-catena-tier-admin'', ''-staff-without-catena-tier-staff''],
     en_config_names = [''-admin-scope'', ''-admin-without-catena-tier-admin'', ''-staff-scope'', ''-staff-without-catena-tier-admin'', ''-staff-without-catena-tier-staff'']\<rparr>"

lemmas flow_parts = top_aliases_def sub_aliases_def named_flows_def named_configs_def kflow_of_def kstep_of_def kstep_with_def
  browser_steps_def form_flows_def second_factor_config_def role_config_def

lemma browser_has: "has_endings flow (browser_flows flow) browser_endings"
  by (simp add: has_endings_def browser_flows_def browser_endings_def flow_parts)

lemma staff_has: "has_endings flow (tier_flows ''staff'' flow) staff_endings"
  by (simp add: has_endings_def tier_flows_def staff_endings_def flow_parts admitted_roles_def TIERS_def enum_list_def Let_def)

lemma admin_has: "has_endings flow (tier_flows ''admin'' flow) admin_endings"
  by (simp add: has_endings_def tier_flows_def admin_endings_def flow_parts admitted_roles_def TIERS_def enum_list_def Let_def)

lemma broker_has: "has_endings flow (post_broker_flows flow) broker_endings"
  by (simp add: has_endings_def post_broker_flows_def broker_endings_def flow_parts broker_tier_def broker_configs_def TIERS_def enum_list_def)

lemma endings_closed: "closed_endings browser_endings" "closed_endings staff_endings" "closed_endings admin_endings" "closed_endings broker_endings"
  by code_simp+

text \<open>Two aliases no names behind which can meet.\<close>

definition names_apart :: "string \<Rightarrow> string \<Rightarrow> bool" where "names_apart a b = (\<forall>s t. a @ s \<noteq> b @ t)"

lemma apart_bases: "names_apart (BROWSER @ u) (POST_BROKER @ v)" "names_apart (BROWSER @ u) (SIGNIN @ v)" "names_apart (POST_BROKER @ u) (SIGNIN @ v)"
  "names_apart (SIGNIN @ ''admin'' @ u) (SIGNIN @ ''staff'' @ v)"
  by (simp_all add: names_apart_def BROWSER_def POST_BROKER_def SIGNIN_def)

lemma distinct_behind:
  assumes "distinct xs" "distinct ys" "distinct zs" "distinct ws" and "names_apart a b" "names_apart a c" "names_apart a d" "names_apart b c" "names_apart b d" "names_apart c d"
  shows "distinct (map ((@) a) xs @ map ((@) b) ys @ map ((@) c) zs @ map ((@) d) ws)"
proof -
  have d: "distinct (map ((@) a) xs)" if "distinct xs" for a and xs :: "string list" using that by (simp add: distinct_map inj_on_def)
  have e: "set (map ((@) a) xs) \<inter> set (map ((@) b) ys) = {}" if "names_apart a b" for a b xs ys using that by (auto simp: names_apart_def)
  show ?thesis using d [OF assms(1)] d [OF assms(2)] d [OF assms(3)] d [OF assms(4)]
    by (simp add: e assms(5-10) Int_Un_distrib del: set_map)
qed

lemma aliases_top_sub: "mset (map kf_alias fs) = mset (top_aliases fs) + mset (sub_aliases fs)"
  by (induction fs) (simp_all add: top_aliases_def sub_aliases_def)

lemma flow_parts_append:
  "top_aliases (fs @ gs) = top_aliases fs @ top_aliases gs" "sub_aliases (fs @ gs) = sub_aliases fs @ sub_aliases gs"
  "named_flows (fs @ gs) = named_flows fs @ named_flows gs" "named_configs (fs @ gs) = named_configs fs @ named_configs gs"
  by (simp_all add: top_aliases_def sub_aliases_def named_flows_def named_configs_def)

lemma closed_mset:
  assumes "closed_endings e"
  shows "mset (en_named e) = mset (en_subs e)" "mset (en_config_names e) = mset (en_configs e)"
  using assms set_eq_iff_mset_eq_distinct unfolding closed_endings_def by blast+

definition built_at :: "(string \<Rightarrow> string) \<Rightarrow> int \<Rightarrow> string \<Rightarrow> (string \<Rightarrow> built) \<Rightarrow> built" where
  "built_at sha generation base build = build (versioned sha generation (base, build))"

lemma signin_parts:
  fixes sha g
  defines "b1 \<equiv> built_at sha g BROWSER browser_flows" and "b2 \<equiv> built_at sha g POST_BROKER post_broker_flows"
    and "b3 \<equiv> built_at sha g (SIGNIN @ ''admin'') (tier_flows ''admin'')" and "b4 \<equiv> built_at sha g (SIGNIN @ ''staff'') (tier_flows ''staff'')"
  shows "si_flows (keycloak_signin_flows sha g) = fst b1 @ fst b2 @ fst b3 @ fst b4"
    "si_configs (keycloak_signin_flows sha g) = snd b1 @ snd b2 @ snd b3 @ snd b4"
    "map snd (si_aliases (keycloak_signin_flows sha g)) =
       [versioned sha g (BROWSER, browser_flows), versioned sha g (SIGNIN @ ''admin'', tier_flows ''admin''),
        versioned sha g (SIGNIN @ ''staff'', tier_flows ''staff''), versioned sha g (POST_BROKER, post_broker_flows)]"
proof -
  have ne: "BROWSER \<noteq> POST_BROKER" "BROWSER \<noteq> SIGNIN @ s" "POST_BROKER \<noteq> SIGNIN @ s" "POST_BROKER \<noteq> BROWSER"
    "SIGNIN @ s \<noteq> BROWSER" "SIGNIN @ s \<noteq> POST_BROKER" for s
    by (simp_all add: BROWSER_def POST_BROKER_def SIGNIN_def)
  show "si_flows (keycloak_signin_flows sha g) = fst b1 @ fst b2 @ fst b3 @ fst b4"
    "si_configs (keycloak_signin_flows sha g) = snd b1 @ snd b2 @ snd b3 @ snd b4"
    by (simp_all add: keycloak_signin_flows_def flow_builders_def TIERS_def Let_def built_at_def assms)
  show "map snd (si_aliases (keycloak_signin_flows sha g)) =
       [versioned sha g (BROWSER, browser_flows), versioned sha g (SIGNIN @ ''admin'', tier_flows ''admin''),
        versioned sha g (SIGNIN @ ''staff'', tier_flows ''staff''), versioned sha g (POST_BROKER, post_broker_flows)]"
    by (simp add: keycloak_signin_flows_def flow_builders_def TIERS_def Let_def ne)
qed

text \<open>C26: What the sign-in flows name is declared, whatever the generation and the digests. The flows have
  distinct aliases and so have the configs; the four aliases handed to the realm are exactly the top-level
  flows; every sub-flow a step runs and every config a step uses is declared, each is used by exactly one
  step, and none is declared that no step uses.\<close>

theorem flow_references_declared:
  "distinct (map kf_alias (si_flows (keycloak_signin_flows sha g))) \<and> distinct (map kc_alias (si_configs (keycloak_signin_flows sha g)))
    \<and> set (top_aliases (si_flows (keycloak_signin_flows sha g))) = set (map snd (si_aliases (keycloak_signin_flows sha g)))
    \<and> mset (named_flows (si_flows (keycloak_signin_flows sha g))) = mset (sub_aliases (si_flows (keycloak_signin_flows sha g)))
    \<and> mset (named_configs (si_flows (keycloak_signin_flows sha g))) = mset (map kc_alias (si_configs (keycloak_signin_flows sha g)))"
proof -
  define a1 where "a1 = versioned sha g (BROWSER, browser_flows)"
  define a2 where "a2 = versioned sha g (POST_BROKER, post_broker_flows)"
  define a3 where "a3 = versioned sha g (SIGNIN @ ''admin'', tier_flows ''admin'')"
  define a4 where "a4 = versioned sha g (SIGNIN @ ''staff'', tier_flows ''staff'')"
  have names_apart: "names_apart a1 a2" "names_apart a1 a3" "names_apart a1 a4" "names_apart a2 a3" "names_apart a2 a4" "names_apart a3 a4"
    using apart_bases by (simp_all add: a1_def a2_def a3_def a4_def versioned_def)
  have h: "has_endings a1 (browser_flows a1) browser_endings" "has_endings a2 (post_broker_flows a2) broker_endings"
    "has_endings a3 (tier_flows ''admin'' a3) admin_endings" "has_endings a4 (tier_flows ''staff'' a4) staff_endings"
    by (rule browser_has broker_has admin_has staff_has)+
  note e = h [unfolded has_endings_def] and p = signin_parts [of sha g, unfolded built_at_def, folded a1_def a2_def a3_def a4_def]
  note c = endings_closed [unfolded closed_endings_def] and m = endings_closed [THEN closed_mset(1)] endings_closed [THEN closed_mset(2)]
  have tops: "top_aliases (si_flows (keycloak_signin_flows sha g)) = [a1, a2, a3, a4]" unfolding p flow_parts_append using e by simp
  have subs: "sub_aliases (si_flows (keycloak_signin_flows sha g)) = map ((@) a1) (en_subs browser_endings) @ map ((@) a2) (en_subs broker_endings)
      @ map ((@) a3) (en_subs admin_endings) @ map ((@) a4) (en_subs staff_endings)" unfolding p flow_parts_append using e by simp
  have nameds: "named_flows (si_flows (keycloak_signin_flows sha g)) = map ((@) a1) (en_named browser_endings) @ map ((@) a2) (en_named broker_endings)
      @ map ((@) a3) (en_named admin_endings) @ map ((@) a4) (en_named staff_endings)" unfolding p flow_parts_append using e by simp
  have configs: "map kc_alias (si_configs (keycloak_signin_flows sha g)) = map ((@) a1) (en_configs browser_endings) @ map ((@) a2) (en_configs broker_endings)
      @ map ((@) a3) (en_configs admin_endings) @ map ((@) a4) (en_configs staff_endings)" unfolding p map_append using e by simp
  have cnames: "named_configs (si_flows (keycloak_signin_flows sha g)) = map ((@) a1) (en_config_names browser_endings) @ map ((@) a2) (en_config_names broker_endings)
      @ map ((@) a3) (en_config_names admin_endings) @ map ((@) a4) (en_config_names staff_endings)" unfolding p flow_parts_append using e by simp
  have "distinct (map ((@) a1) ([] # en_subs browser_endings) @ map ((@) a2) ([] # en_subs broker_endings)
      @ map ((@) a3) ([] # en_subs admin_endings) @ map ((@) a4) ([] # en_subs staff_endings))" (is "distinct ?all")
    by (rule distinct_behind) (use c names_apart in simp_all)
  moreover have "mset ?all = mset (map kf_alias (si_flows (keycloak_signin_flows sha g)))"
    unfolding aliases_top_sub tops subs by simp
  ultimately have "distinct (map kf_alias (si_flows (keycloak_signin_flows sha g)))" by (metis mset_eq_imp_distinct_iff)
  moreover have "distinct (map kc_alias (si_configs (keycloak_signin_flows sha g)))"
    unfolding configs by (rule distinct_behind) (use c names_apart in simp_all)
  moreover have "set (top_aliases (si_flows (keycloak_signin_flows sha g))) = set (map snd (si_aliases (keycloak_signin_flows sha g)))"
    unfolding tops p(3) by auto
  moreover have "mset (named_flows (si_flows (keycloak_signin_flows sha g))) = mset (sub_aliases (si_flows (keycloak_signin_flows sha g)))"
    unfolding nameds subs by (simp add: m)
  moreover have "mset (named_configs (si_flows (keycloak_signin_flows sha g))) = mset (map kc_alias (si_configs (keycloak_signin_flows sha g)))"
    unfolding cnames configs by (simp add: m)
  ultimately show ?thesis by blast
qed

section \<open>The record tells an edit\<close>

lemma dget_member: "distinct (map fst d) \<Longrightarrow> (k, v) \<in> set d \<Longrightarrow> dget d k = v"
  by (simp add: dget_def)

lemma flow_digest_read:
  "keycloak_flow_digest sha (PDict [(''flow'', PDict d), (''executions'', PList rows)])
    = bindR (mapR execution_row rows) (\<lambda>rs. Inr (sha (json_text (PDict [(''flow'', PDict (ddel ''id'' d)), (''executions'', PList rs)]))))"
proof -
  have g: "dget [(''flow'', x), (''executions'', y)] ''flow'' = x" "dget [(''flow'', x), (''executions'', y)] ''executions'' = y" for x y
    by (simp_all add: dget_def)
  have f: "(if \<not> truthy (PDict d) then Inr [] else Inr (ddel ''id'' d)) = Inr (ddel ''id'' d)"
    by (cases d) (simp_all add: ddel_def)
  have i: "items_or (PList rows) = Inr rows" by (cases rows) (simp_all add: items_or_def)
  show ?thesis unfolding keycloak_flow_digest_def realm_get_def py.case g f i bindR_simps ..
qed

text \<open>C27: A converge builds the flows anew exactly when a recorded one reads differently. After an import whose
  flows read as \<open>observed\<close>, all of them held by Keycloak, the record makes the next converge build under
  the same generation while every recorded flow reads as it did, and under the next one as soon as one of
  them reads differently or cannot be read. How a flow reads depends on its record without the id and on
  the compared fields of its steps.\<close>

theorem edited_flows_rebuilt:
  assumes "distinct (map fst observed)" and "\<forall>(alias, digest) \<in> set observed. \<exists>h. digest = PStr h"
  shows "keycloak_flow_generation (keycloak_flow_record g observed) later
      = Inr (if \<forall>alias \<in> fst ` set observed. dget later alias = dget observed alias then g else g + 1)
    \<and> (\<forall>d d' rows rows'. ddel ''id'' d = ddel ''id'' d' \<and> mapR execution_row rows = mapR execution_row rows' \<longrightarrow>
        keycloak_flow_digest sha (PDict [(''flow'', PDict d), (''executions'', PList rows)])
        = keycloak_flow_digest sha (PDict [(''flow'', PDict d'), (''executions'', PList rows')]))"
proof
  have "(\<exists>kv \<in> set (sort_key fst observed). \<not> py_eq (dget later (fst kv)) (snd kv))
    \<longleftrightarrow> \<not> (\<forall>alias \<in> fst ` set observed. dget later alias = dget observed alias)"
  proof -
    have "py_eq (dget later (fst kv)) (snd kv) \<longleftrightarrow> dget later (fst kv) = dget observed (fst kv)" if "kv \<in> set observed" for kv
    proof -
      from bspec [OF assms(2) that] have "\<exists>h. snd kv = PStr h" by (cases kv) simp
      then obtain h where h: "snd kv = PStr h" by blast
      have o: "dget observed (fst kv) = PStr h" using dget_member [OF assms(1), of "fst kv" "snd kv"] that h by (cases kv) simp
      show ?thesis unfolding o h by (cases "dget later (fst kv)") auto
    qed
    then show ?thesis by auto
  qed
  moreover have "keycloak_flow_generation (keycloak_flow_record g observed) later
      = Inr (if \<exists>kv \<in> set (sort_key fst observed). \<not> py_eq (dget later (fst kv)) (snd kv) then g + 1 else g)"
  proof -
    have f: "dget [(''generation'', PInt g), (''flows'', PDict e)] ''flows'' = PDict e"
      "dget_def [(''generation'', PInt g), (''flows'', PDict e)] ''generation'' (PInt 0) = PInt g" for e by (simp_all add: dget_def dget_def_def)
    show ?thesis unfolding keycloak_flow_generation_def keycloak_flow_record_def
      by (cases "sort_key fst observed") (simp_all add: f list_ex_iff del: set_sort)
  qed
  ultimately show "keycloak_flow_generation (keycloak_flow_record g observed) later
      = Inr (if \<forall>alias \<in> fst ` set observed. dget later alias = dget observed alias then g else g + 1)" by (simp only: if_not_P if_False if_True split: if_split) auto
next
  show "\<forall>d d' rows rows'. ddel ''id'' d = ddel ''id'' d' \<and> mapR execution_row rows = mapR execution_row rows' \<longrightarrow>
        keycloak_flow_digest sha (PDict [(''flow'', PDict d), (''executions'', PList rows)])
        = keycloak_flow_digest sha (PDict [(''flow'', PDict d'), (''executions'', PList rows')])"
    by (simp add: flow_digest_read)
qed

definition two_flows :: dict where
  "two_flows = [(''catena-browser-v1'', PStr ''a''), (''catena-signin-admin-v1'', PStr ''b'')]"

theorem edited_flows_rebuilt_witness:
  "keycloak_flow_generation (keycloak_flow_record 3 two_flows) (dset ''catena-browser-v1'' PNone two_flows) = Inr 4"
proof -
  have "distinct (map fst two_flows)" "\<forall>(alias, digest) \<in> set two_flows. \<exists>h. digest = PStr h"
    "\<not> (\<forall>alias \<in> fst ` set two_flows. dget (dset ''catena-browser-v1'' PNone two_flows) alias = dget two_flows alias)"
    by (simp_all add: two_flows_def dget_def dset_def)
  with edited_flows_rebuilt [of two_flows 3 "dset ''catena-browser-v1'' PNone two_flows"] show ?thesis by simp
qed

text \<open>What is deleted as stale has one of the four names, is not a current version, and nothing names it.\<close>

theorem stale_flows_unused:
  assumes "(i, a) \<in> set (keycloak_flow_stale flows bound (keycloak_signin_flows sha g))"
  shows "a \<notin> set (top_aliases (si_flows (keycloak_signin_flows sha g))) \<and> a \<notin> set bound \<and> i \<notin> set bound
    \<and> (\<exists>base \<in> {BROWSER, POST_BROKER, SIGNIN @ ''admin'', SIGNIN @ ''staff''}. prefix base a)"
proof -
  have b: "si_bases (keycloak_signin_flows sha g) = [BROWSER, POST_BROKER, SIGNIN @ ''admin'', SIGNIN @ ''staff'']"
    by (simp add: keycloak_signin_flows_def flow_builders_def TIERS_def Let_def)
  have t: "set (top_aliases (si_flows (keycloak_signin_flows sha g))) = set (map snd (si_aliases (keycloak_signin_flows sha g)))"
    unfolding signin_parts flow_parts_append built_at_def
    using browser_has broker_has admin_has staff_has unfolding has_endings_def by auto
  have "prefix base a" if "a = base \<or> prefix (base @ ''-v'') a" for base
    using that append_prefixD by blast
  with assms show ?thesis unfolding t keycloak_flow_stale_def Let_def b by (auto simp: list_ex_iff)
qed

end
