(* ===== verification/Public_Https.thy ===== *)
theory Public_Https
  imports Ip_Address "HOL-Library.Word"
begin

unbundle bit_operations_syntax

text \<open>
  The probe of the public name, \<open>src/ansible/helpers/public_https.py\<close>: the DNS query and the reading of its
  answer, byte by byte, which resolver decides, and the addresses tried in turn. The sockets, TLS, HTTP and
  the local resolver are parameters. Shown: the answer of a resolver is read back, whatever records and
  compressed names it has, and the local resolver decides only when no public one answered.
\<close>

type_synonym byte = "8 word"

definition PUBLIC_RESOLVERS :: "string list" where "PUBLIC_RESOLVERS = [''1.1.1.1'', ''9.9.9.9'']"
definition TYPE_A :: "16 word" where "TYPE_A = 1"
definition CLASS_IN :: "16 word" where "CLASS_IN = 1"
definition NXDOMAIN :: "16 word" where "NXDOMAIN = 3"

section \<open>The answer\<close>

text \<open>An index past the end is an \<open>IndexError\<close>, which makes the answer unusable like any other fault of it.\<close>

function skip_name :: "byte list \<Rightarrow> nat \<Rightarrow> nat option" where
  "skip_name data i =
     (if length data \<le> i then None
      else if data ! i = 0 then Some (i + 1)
      else if data ! i AND 0xC0 = 0xC0 then Some (i + 2)
      else skip_name data (i + unat (data ! i) + 1))"
  by pat_completeness auto
termination
  by (relation "measure (\<lambda>(data, i). length data - i)") auto

declare skip_name.simps [simp del]

definition u16 :: "byte list \<Rightarrow> nat \<Rightarrow> 16 word" where
  "u16 data i = word_cat (data ! i) (data ! (i + 1))"

fun skip_questions :: "nat \<Rightarrow> byte list \<Rightarrow> nat \<Rightarrow> nat option" where
  "skip_questions 0 data i = Some i"
| "skip_questions (Suc n) data i = (case skip_name data i of None \<Rightarrow> None | Some j \<Rightarrow> skip_questions n data (j + 4))"

definition inet_ntoa :: "byte list \<Rightarrow> string" where
  "inet_ntoa bs = join ''.'' (map (\<lambda>b. dec_nat (unat b)) bs)"

fun read_answers :: "nat \<Rightarrow> byte list \<Rightarrow> nat \<Rightarrow> string list option" where
  "read_answers 0 data i = Some []"
| "read_answers (Suc n) data i = (case skip_name data i of
      None \<Rightarrow> None
    | Some j \<Rightarrow>
        if length data < j + 10 then None
        else (let rdlength = unat (u16 data (j + 8)); k = j + 10 in
          if length data < k + rdlength then None
          else map_option (\<lambda>rest. if u16 data j = TYPE_A \<and> u16 data (j + 2) = CLASS_IN \<and> rdlength = 4
              then inet_ntoa (take 4 (drop k data)) # rest else rest) (read_answers n data (k + rdlength))))"

datatype dns = Unusable | No_Such_Name | Addresses "string list"

definition parse_response :: "byte list \<Rightarrow> 16 word \<Rightarrow> dns" where
  "parse_response data query_id =
     (if length data < 12 then Unusable
      else if u16 data 0 \<noteq> query_id then Unusable
      else (let rcode = u16 data 2 AND 0x000F in
        if rcode = NXDOMAIN then No_Such_Name
        else if rcode \<noteq> 0 then Unusable
        else (case skip_questions (unat (u16 data 4)) data 12 of
          None \<Rightarrow> Unusable
        | Some i \<Rightarrow> (case read_answers (unat (u16 data 6)) data i of None \<Rightarrow> Unusable | Some found \<Rightarrow> Addresses found))))"

section \<open>The query\<close>

definition be16 :: "16 word \<Rightarrow> byte list" where
  "be16 v = [ucast (drop_bit 8 v), ucast v]"

definition ascii_byte :: "char \<Rightarrow> byte" where "ascii_byte c = of_nat (of_char c)"

text \<open>\<open>bytes([len(label)])\<close> and \<open>label.encode("ascii")\<close> raise \<open>ValueError\<close>.\<close>

definition label_bytes :: "string \<Rightarrow> byte list option" where
  "label_bytes l = (if length l < 256 \<and> list_all (\<lambda>c. (of_char c :: nat) < 128) l then Some (of_nat (length l) # map ascii_byte l) else None)"

definition qname :: "string \<Rightarrow> byte list option" where
  "qname name = map_option (\<lambda>ls. concat ls @ [0])
     (all_some (map label_bytes (split_char (CHR ''.'') (rstrip_by (\<lambda>c. c = CHR ''.'') name))))"

definition query_packet :: "16 word \<Rightarrow> string \<Rightarrow> byte list option" where
  "query_packet query_id name = map_option (\<lambda>q. be16 query_id @ be16 0x0100 @ be16 1 @ be16 0 @ be16 0 @ be16 0 @ q @ be16 TYPE_A @ be16 CLASS_IN)
     (qname name)"

section \<open>Resolving and fetching\<close>

text \<open>What a connection to one address gives.\<close>

datatype get_outcome = Answered int string string | Os_Failed string | Http_Failed string

record outside =
  ou_query_id :: "string \<Rightarrow> 16 word"
  ou_udp :: "string \<Rightarrow> byte list \<Rightarrow> byte list option"
  ou_local :: "string \<Rightarrow> string list option"
  ou_get :: "string \<Rightarrow> string \<Rightarrow> int \<Rightarrow> string \<Rightarrow> get_outcome"

datatype probe_error = Not_Found string string | Bad_Name | Bad_Url | No_Local string | Get_Failed string

text \<open>One resolver, asked with an identifier of its own.\<close>

definition dns_query :: "outside \<Rightarrow> string \<Rightarrow> string \<Rightarrow> probe_error + dns" where
  "dns_query w name server = (let query_id = ou_query_id w server in
     case query_packet query_id name of
       None \<Rightarrow> Inl Bad_Name
     | Some packet \<Rightarrow> Inr (case ou_udp w server packet of None \<Rightarrow> Unusable | Some data \<Rightarrow> parse_response data query_id))"

fun resolve_at :: "outside \<Rightarrow> string \<Rightarrow> string list \<Rightarrow> probe_error + (string list \<times> string)" where
  "resolve_at w name [] = (case ou_local w name of None \<Rightarrow> Inl (No_Local name) | Some as \<Rightarrow> Inr (first_seen as, ''system''))"
| "resolve_at w name (server # servers) = bindR (dns_query w name server) (\<lambda>found. case found of
      Unusable \<Rightarrow> resolve_at w name servers
    | No_Such_Name \<Rightarrow> Inl (Not_Found name server)
    | Addresses as \<Rightarrow> if as = [] then Inl (Not_Found name server) else Inr (as, server))"

definition resolve :: "outside \<Rightarrow> string \<Rightarrow> probe_error + (string list \<times> string)" where
  "resolve w name = resolve_at w name PUBLIC_RESOLVERS"

text \<open>The parts \<open>urlsplit\<close> gives.\<close>

record url_parts =
  up_scheme :: string
  up_hostname :: string
  up_port :: "int option"
  up_path :: string
  up_query :: string

record probe_result =
  pr_status :: int
  pr_location :: string
  pr_body :: string
  pr_address :: string
  pr_resolver :: string
  pr_error :: "probe_error option"

fun fetch_at :: "outside \<Rightarrow> string \<Rightarrow> int \<Rightarrow> string \<Rightarrow> string \<Rightarrow> string option \<Rightarrow> string list \<Rightarrow> probe_error + probe_result" where
  "fetch_at w host port path resolver last_error [] =
     Inl (Get_Failed (case last_error of Some e \<Rightarrow> e | None \<Rightarrow> ''no address for '' @ host))"
| "fetch_at w host port path resolver last_error (a # as) = (case ou_get w host a port path of
      Answered status location body \<Rightarrow>
        Inr \<lparr>pr_status = status, pr_location = location, pr_body = body, pr_address = a, pr_resolver = resolver, pr_error = None\<rparr>
    | Os_Failed e \<Rightarrow> fetch_at w host port path resolver (Some e) as
    | Http_Failed e \<Rightarrow> Inl (Get_Failed e))"

definition public_fetch :: "outside \<Rightarrow> url_parts \<Rightarrow> probe_error + probe_result" where
  "public_fetch w u =
     (if up_scheme u \<noteq> ''https'' \<or> up_hostname u = [] then Inl Bad_Url
      else (let path = (if up_path u = [] then ''/'' else up_path u) @ (if up_query u = [] then [] else ''?'' @ up_query u) in
        bindR (resolve w (up_hostname u)) (\<lambda>(as, resolver).
          fetch_at w (up_hostname u) (case up_port u of Some p \<Rightarrow> if p = 0 then 443 else p | None \<Rightarrow> 443) path resolver None as)))"

text \<open>\<open>main\<close>: whatever is raised is the status -1.\<close>

definition public_main :: "outside \<Rightarrow> url_parts \<Rightarrow> probe_result" where
  "public_main w u = (case public_fetch w u of Inr r \<Rightarrow> r
     | Inl e \<Rightarrow> \<lparr>pr_status = -1, pr_location = [], pr_body = [], pr_address = [], pr_resolver = [], pr_error = Some e\<rparr>)"

section \<open>An answer is read back\<close>

text \<open>A name in a message: labels, and their end or a pointer to where the rest of the name stands.\<close>

datatype name_end = Root | Pointer byte byte

record dns_name =
  dn_labels :: "byte list list"
  dn_end :: name_end

fun end_bytes :: "name_end \<Rightarrow> byte list" where
  "end_bytes Root = [0]"
| "end_bytes (Pointer a b) = [a, b]"

definition name_bytes :: "dns_name \<Rightarrow> byte list" where
  "name_bytes n = concat (map (\<lambda>l. of_nat (length l) # l) (dn_labels n)) @ end_bytes (dn_end n)"

definition dn_ok :: "dns_name \<Rightarrow> bool" where
  "dn_ok n = (list_all (\<lambda>l. 0 < length l \<and> length l < 64) (dn_labels n)
     \<and> (case dn_end n of Root \<Rightarrow> True | Pointer a b \<Rightarrow> a AND 0xC0 = 0xC0))"

record dns_record =
  dr_name :: dns_name
  dr_type :: "16 word"
  dr_class :: "16 word"
  dr_ttl :: "byte list"
  dr_data :: "byte list"

definition record_bytes :: "dns_record \<Rightarrow> byte list" where
  "record_bytes r = name_bytes (dr_name r) @ be16 (dr_type r) @ be16 (dr_class r) @ dr_ttl r @ be16 (of_nat (length (dr_data r))) @ dr_data r"

definition record_ok :: "dns_record \<Rightarrow> bool" where
  "record_ok r = (dn_ok (dr_name r) \<and> length (dr_ttl r) = 4 \<and> length (dr_data r) < 65536)"

definition question_bytes :: "dns_name \<Rightarrow> byte list" where
  "question_bytes n = name_bytes n @ be16 TYPE_A @ be16 CLASS_IN"

definition response_bytes :: "16 word \<Rightarrow> 16 word \<Rightarrow> dns_name list \<Rightarrow> dns_record list \<Rightarrow> byte list \<Rightarrow> byte list" where
  "response_bytes query_id flags qs rs rest = be16 query_id @ be16 flags @ be16 (of_nat (length qs)) @ be16 (of_nat (length rs))
     @ be16 0 @ be16 0 @ concat (map question_bytes qs) @ concat (map record_bytes rs) @ rest"

definition a_records :: "dns_record list \<Rightarrow> string list" where
  "a_records rs = map (\<lambda>r. inet_ntoa (dr_data r))
     (filter (\<lambda>r. dr_type r = TYPE_A \<and> dr_class r = CLASS_IN \<and> length (dr_data r) = 4) rs)"

lemma u16_be16: "u16 (xs @ be16 v @ ys) (length xs) = v"
proof -
  have "word_cat (ucast (drop_bit 8 v) :: byte) (ucast v :: byte) = v"
    by (rule bit_word_eqI) (auto simp: bit_word_cat_iff bit_unsigned_iff bit_drop_bit_eq dest: bit_imp_le_length)
  then show ?thesis by (simp add: u16_def be16_def nth_append)
qed

lemma u16_at: "data = xs @ be16 v @ ys \<Longrightarrow> i = length xs \<Longrightarrow> u16 data i = v"
  using u16_be16 by simp

lemma length_be16 [simp]: "length (be16 v) = 2"
  by (simp add: be16_def)

lemma short_label: "unat b < 64 \<Longrightarrow> b AND 0xC0 \<noteq> (0xC0 :: byte)"
proof
  assume u: "unat b < 64" and a: "b AND 0xC0 = (0xC0 :: byte)"
  have "b AND 0xC0 \<le> b" by (simp add: word_and_le2)
  with a have "unat (0xC0 :: byte) \<le> unat b" by (simp add: word_le_nat_alt)
  with u show False by simp
qed

lemma skip_labels:
  assumes "list_all (\<lambda>l. 0 < length l \<and> length l < 64) ls" and "case e of Root \<Rightarrow> True | Pointer a b \<Rightarrow> a AND 0xC0 = 0xC0"
  shows "skip_name (xs @ concat (map (\<lambda>l. of_nat (length l) # l) ls) @ end_bytes e @ ys) (length xs)
    = Some (length xs + length (concat (map (\<lambda>l. of_nat (length l) # l) ls) @ end_bytes e))"
  using assms(1)
proof (induction ls arbitrary: xs)
  case Nil
  show ?case
  proof (cases e)
    case Root
    then show ?thesis by (simp add: skip_name.simps)
  next
    case (Pointer a b)
    then have "a \<noteq> 0" using assms(2) by auto
    with Pointer assms(2) show ?thesis by (simp add: skip_name.simps)
  qed
next
  case (Cons l ls)
  let ?b = "of_nat (length l) :: byte"
  let ?tail = "concat (map (\<lambda>l. of_nat (length l) # l) ls) @ end_bytes e @ ys"
  have u: "unat ?b = length l" using Cons.prems by (simp add: unat_of_nat)
  have ne: "?b \<noteq> 0" "?b AND 0xC0 \<noteq> 0xC0" using u Cons.prems short_label [of ?b] by auto
  have "skip_name (xs @ (?b # l) @ ?tail) (length xs) = skip_name ((xs @ ?b # l) @ ?tail) (length (xs @ ?b # l))"
    by (subst skip_name.simps) (simp add: ne u)
  also have "\<dots> = Some (length (xs @ ?b # l) + length (concat (map (\<lambda>l. of_nat (length l) # l :: byte list) ls) @ end_bytes e))"
    by (rule Cons.IH) (use Cons.prems in simp)
  finally show ?case by simp
qed

lemma skip_name_bytes: "dn_ok n \<Longrightarrow> skip_name (xs @ name_bytes n @ ys) (length xs) = Some (length xs + length (name_bytes n))"
  using skip_labels [of "dn_labels n" "dn_end n" xs ys] by (simp add: dn_ok_def name_bytes_def)

lemma skip_questions_bytes:
  "list_all dn_ok qs \<Longrightarrow> skip_questions (length qs) (xs @ concat (map question_bytes qs) @ ys) (length xs)
    = Some (length xs + length (concat (map question_bytes qs)))"
proof (induction qs arbitrary: xs)
  case (Cons q qs)
  have s: "skip_name (xs @ name_bytes q @ (be16 TYPE_A @ be16 CLASS_IN) @ concat (map question_bytes qs) @ ys) (length xs)
      = Some (length xs + length (name_bytes q))"
    by (rule skip_name_bytes) (use Cons.prems in simp)
  have "skip_questions (length qs) ((xs @ question_bytes q) @ concat (map question_bytes qs) @ ys) (length (xs @ question_bytes q))
      = Some (length (xs @ question_bytes q) + length (concat (map question_bytes qs)))"
    by (rule Cons.IH) (use Cons.prems in simp)
  with s show ?case by (simp add: question_bytes_def [of q] add.assoc)
qed simp

lemma read_answers_bytes:
  "list_all record_ok rs \<Longrightarrow> read_answers (length rs) (xs @ concat (map record_bytes rs) @ ys) (length xs) = Some (a_records rs)"
proof (induction rs arbitrary: xs)
  case (Cons r rs)
  let ?n = "name_bytes (dr_name r)" and ?len = "of_nat (length (dr_data r)) :: 16 word"
  let ?tail = "concat (map record_bytes rs) @ ys"
  let ?data = "xs @ ?n @ be16 (dr_type r) @ be16 (dr_class r) @ dr_ttl r @ be16 ?len @ dr_data r @ ?tail"
  have ok: "dn_ok (dr_name r)" "length (dr_ttl r) = 4" "length (dr_data r) < 65536" using Cons.prems by (simp_all add: record_ok_def)
  have data: "xs @ concat (map record_bytes (r # rs)) @ ys = ?data" by (simp add: record_bytes_def)
  have s: "skip_name ?data (length xs) = Some (length xs + length ?n)" by (rule skip_name_bytes [OF ok(1)])
  have t: "u16 ?data (length xs + length ?n) = dr_type r"
    by (rule u16_at [where xs = "xs @ ?n"]) simp_all
  have c: "u16 ?data (length xs + length ?n + 2) = dr_class r"
    by (rule u16_at [where xs = "xs @ ?n @ be16 (dr_type r)"]) simp_all
  have "u16 ?data (length xs + length ?n + 8) = ?len"
    by (rule u16_at [where xs = "xs @ ?n @ be16 (dr_type r) @ be16 (dr_class r) @ dr_ttl r"]) (simp_all add: ok(2))
  then have l: "unat (u16 ?data (length xs + length ?n + 8)) = length (dr_data r)" using ok(3) by (simp add: unat_of_nat)
  have d: "take 4 (drop (length xs + length ?n + 10) ?data) = dr_data r" if "length (dr_data r) = 4"
    using that ok(2) by simp
  have "read_answers (length rs) ((xs @ record_bytes r) @ ?tail) (length (xs @ record_bytes r)) = Some (a_records rs)"
    by (rule Cons.IH) (use Cons.prems in simp)
  moreover have "(xs @ record_bytes r) @ ?tail = ?data" "length (xs @ record_bytes r) = length xs + length ?n + 10 + length (dr_data r)"
    using ok(2) by (simp_all add: record_bytes_def)
  ultimately have rest: "read_answers (length rs) ?data (length xs + length ?n + 10 + length (dr_data r)) = Some (a_records rs)" by (simp only:)
  have b: "\<not> length ?data < length xs + length ?n + 10" "\<not> length ?data < length xs + length ?n + 10 + length (dr_data r)"
    using ok(2) by simp_all
  define D where "D = ?data"
  note f = s t c l d rest b
  show ?case unfolding data
    using f [folded D_def] unfolding D_def [symmetric] by (cases "length (dr_data r) = 4") (simp_all add: Let_def a_records_def)
qed (simp add: a_records_def)

lemma resolved_by:
  assumes "resolve_at w name servers = Inr (as, resolver)" and "resolver \<notin> set servers"
  shows "resolver = ''system'' \<and> (\<forall>s \<in> set servers. dns_query w name s = Inr Unusable) \<and> ou_local w name \<noteq> None"
  using assms
proof (induction servers)
  case (Cons s servers)
  then obtain found where f: "dns_query w name s = Inr found" by (auto simp: bindR_Inr_iff)
  show ?case
  proof (cases found)
    case Unusable
    with f Cons show ?thesis by simp
  next
    case No_Such_Name
    with f Cons.prems(1) show ?thesis by simp
  next
    case (Addresses bs)
    with f Cons.prems show ?thesis by (cases "bs = []") simp_all
  qed
next
  case Nil
  then show ?case by (cases "ou_local w name") simp_all
qed

text \<open>C30: What a resolver answers is what the probe goes by. The answer to the query, with any records in any
  order, names spelled out or compressed, and bytes after them, is read back as exactly the addresses of its
  A records, in order; an answer that says there is no such name as that; and an answer to another query, or
  one with another error, as none.\<close>

theorem dns_answer_read_back:
  assumes "list_all dn_ok qs" "list_all record_ok rs" "length qs < 65536" "length rs < 65536"
  shows "parse_response (response_bytes query_id flags qs rs rest) asked
    = (if query_id \<noteq> asked then Unusable else if flags AND 0x000F = NXDOMAIN then No_Such_Name
       else if flags AND 0x000F \<noteq> 0 then Unusable else Addresses (a_records rs))"
proof -
  let ?c = "be16 0 @ be16 0" and ?body = "concat (map question_bytes qs) @ concat (map record_bytes rs) @ rest"
  let ?h = "be16 query_id @ be16 flags @ be16 (of_nat (length qs)) @ be16 (of_nat (length rs)) @ ?c"
  let ?data = "response_bytes query_id flags qs rs rest"
  have data: "?data = ?h @ ?body" by (simp add: response_bytes_def)
  have i: "u16 ?data 0 = query_id" by (rule u16_at [where xs = "[]"]) (simp_all add: response_bytes_def)
  have f: "u16 ?data 2 = flags" by (rule u16_at [where xs = "be16 query_id"]) (simp_all add: response_bytes_def)
  have "u16 ?data 4 = of_nat (length qs)" by (rule u16_at [where xs = "be16 query_id @ be16 flags"]) (simp_all add: response_bytes_def)
  then have q: "unat (u16 ?data 4) = length qs" using assms(3) by (simp add: unat_of_nat)
  have "u16 ?data 6 = of_nat (length rs)"
    by (rule u16_at [where xs = "be16 query_id @ be16 flags @ be16 (of_nat (length qs))"]) (simp_all add: response_bytes_def)
  then have r: "unat (u16 ?data 6) = length rs" using assms(4) by (simp add: unat_of_nat)
  have h: "length ?h = 12" by simp
  have s: "skip_questions (length qs) ?data 12 = Some (12 + length (concat (map question_bytes qs)))"
    using skip_questions_bytes [OF assms(1), of ?h "concat (map record_bytes rs) @ rest"] unfolding h data .
  have "read_answers (length rs) ((?h @ concat (map question_bytes qs)) @ concat (map record_bytes rs) @ rest) (length (?h @ concat (map question_bytes qs)))
      = Some (a_records rs)" by (rule read_answers_bytes [OF assms(2)])
  moreover have "(?h @ concat (map question_bytes qs)) @ concat (map record_bytes rs) @ rest = ?data" by (simp add: data)
  moreover have "length (?h @ concat (map question_bytes qs)) = 12 + length (concat (map question_bytes qs))" by simp
  ultimately have a: "read_answers (length rs) ?data (12 + length (concat (map question_bytes qs))) = Some (a_records rs)" by (simp only:)
  have "12 \<le> length ?data" by (simp add: data)
  then have n: "\<not> length ?data < 12" by simp
  show ?thesis unfolding parse_response_def i f q r Let_def s option.case a using n by simp
qed

definition one_answer :: dns_record where
  "one_answer = \<lparr>dr_name = \<lparr>dn_labels = [], dn_end = Pointer 0xC0 12\<rparr>, dr_type = 1, dr_class = 1, dr_ttl = [0, 0, 1, 44], dr_data = [198, 51, 100, 7]\<rparr>"

definition one_question :: dns_name where
  "one_question = \<lparr>dn_labels = [map ascii_byte ''auth'', map ascii_byte ''example''], dn_end = Root\<rparr>"

theorem dns_answer_read_back_witness:
  "parse_response (response_bytes 7 0x8180 [one_question] [one_answer] []) 7 = Addresses [''198.51.100.7'']"
proof -
  have "list_all dn_ok [one_question]" "list_all record_ok [one_answer]" "length [one_question] < 65536" "length [one_answer] < 65536"
    by (simp_all add: dn_ok_def record_ok_def one_question_def one_answer_def)
  note r = dns_answer_read_back [OF this, of 7 "0x8180" "[]" 7]
  have "a_records [one_answer] = [''198.51.100.7'']" by code_simp
  moreover have "(0x8180 :: 16 word) AND 0x000F = 0" by simp
  ultimately show ?thesis using r by (simp add: NXDOMAIN_def)
qed

text \<open>The local resolver decides only when neither public one gave a usable answer.\<close>

theorem local_resolver_last:
  assumes "resolve w name = Inr (as, resolver)"
  shows "resolver \<in> set PUBLIC_RESOLVERS \<or> resolver = ''system'' \<and> (\<forall>s \<in> set PUBLIC_RESOLVERS. dns_query w name s = Inr Unusable)"
  using resolved_by [of w name PUBLIC_RESOLVERS as resolver] assms unfolding resolve_def by blast

end
