(* ===== verification/Spec2Isabelle.thy ===== *)
theory Spec2Isabelle
  imports Onbox_Store Dispatch_Verdict Fetch_Release Converge_Prune Tailnet_Creds Restic_Safe Tier1_Stack Seed_Props Admin_Service Install_Status Install_Lines Page_Overlap Port_Scan Console_Install Session_Proof Tree_Hash Keycloak_Flows Public_Https
begin

text \<open>
  Catena-CE installs a curated set of services on one server and keeps it converged. Its Python code,
  under \<open>src/ansible\<close> and \<open>src/installer\<close>, is the part this library models.

  \<^bold>\<open>The program's parts and how they meet.\<close> A person describes a server in an inventory
  (\<open>ansible/seed.py\<close>), whose \<open>.env\<close> has one line per knob of a registry (\<open>ansible/helpers/render_knobs.py\<close>).
  The installer sends that file to the server, which fetches a release image (\<open>helpers/fetch_release.py\<close>),
  unpacks it and converges: Ansible roles call the filters of \<open>ansible/playbooks/filter_plugins\<close>. What the
  server holds of its own is the store (\<open>helpers/onbox_config.py\<close>): secrets minted on the box, and settings the
  admin panel asks for. The panel acts on the host through a dispatch path of sudo rule, sshd rule and
  authorized key (\<open>helpers/dispatch_path.py\<close>). Before the panel closes public SSH, the tailnet credentials are
  checked (\<open>scripts/catena-tailnet-check.py\<close>) and the host's reachability over the tailnet is
  (\<open>helpers/tailnet_reachability.py\<close>). Backups are encrypted with a password whose changes are made by
  \<open>scripts/catena-restic-key.py\<close>, which writes the same store.

  \<^bold>\<open>Shared foundations.\<close>
  \<^item> \<open>Prelude\<close>: Python values (\<open>py\<close>), dictionaries as association lists in insertion order, the string methods,
    and programs as functions from a state to an error or a value and the next state (\<open>bindS\<close>, \<open>thenS\<close>, \<open>ret\<close>,
    \<open>raise\<close>), with the collections \<open>dict_simps\<close>, \<open>str_simps\<close>, \<open>exn_simps\<close> and \<open>raises_intros\<close>.
  \<^item> \<open>Text_Scan\<close> and \<open>Filter_Values\<close>: scanning shared by the parsers; the exceptions of the filters, the loop
    whose body may raise (\<open>foldR\<close>, \<open>mapR\<close>) and the invariant rule for it.
  \<^item> \<open>Os_Files\<close>: a file system with symbolic links, resolved as the kernel does, at most 40 links deep.

  \<^bold>\<open>Theories, sources and results.\<close>
  \<^item> \<open>Minting\<close>, \<open>Onbox_Config\<close>, \<open>Onbox_Store\<close> for \<open>helpers/onbox_config.py\<close>. The state is the store document; the
    operations are the minters, the projections of the registry, \<open>ensure_internal_secrets\<close>,
    \<open>ensure_user_held_secrets\<close>, \<open>apply_inputs\<close>, \<open>settle_tailnet_provider\<close>, \<open>preserve_outgoing_zone_token\<close>,
    \<open>load\<close>, \<open>dump\<close>, \<open>store_lock\<close> and the flows of \<open>main\<close>. The locales \<open>fill_only\<close> and \<open>fill_pair\<close> state what a
    reconciler that only fills gaps promises; the minting operations are interpretations. Shown: a converge mints
    exactly the internal secrets and zone cookie secrets that are missing and changes nothing else, a settings request stays within its keys and a
    refused one leaves the store, a killed write leaves the old or the new file, the lock's loop ends.
  \<^item> \<open>Dispatch_Render\<close>, \<open>Dispatch_Path\<close>, \<open>Dispatch_Switch\<close>, \<open>Dispatch_Verdict\<close> for \<open>helpers/dispatch_path.py\<close>. The
    state is the host's files and the runner's keys; the phases are BESIDE, PROOF, SWITCH and RETIRE. The locale
    \<open>restorable\<close> is the contract of something a phase changes and can put back, interpreted for the keys and for
    each rule file. Shown: a failed move leaves everything but its own
    generation's directory and the -next files, the verdict names the generation in force, an ok verdict
    leaves exactly this tree's path.
  \<^item> \<open>Image_Pin\<close>, \<open>Unpack\<close>, \<open>Unpack_Safety\<close>, \<open>Fetch_Release\<close> for \<open>filter_plugins/image_pin.py\<close>,
    \<open>helpers/catena_admin_release.py\<close> and \<open>helpers/fetch_release.py\<close>. Shown: what is installed has the digests
    the registry was asked for, a layer's writes stay inside the tree (inside the staging directory when a whiteout names the tree's parent), the link check is sound
    against the kernel's walk. The locale \<open>ranked\<close> is the choice of a greatest tag.
  \<^item> \<open>Ip_Address\<close>, \<open>Firewall\<close>, \<open>Firewall_Sound\<close>, \<open>Tailnet_Reach\<close>, \<open>Tailnet_Sound\<close>, \<open>Tailnet_Creds\<close> for
    \<open>helpers/tailnet_reachability.py\<close> and \<open>scripts/catena-tailnet-check.py\<close>. Shown: after a silent firewall
    walk the kernel, whose hooks and targets \<open>Firewall_Sound\<close> writes down from their documentation (\<open>netfilter\<close>), lets the packet in
    unless a rule it matches diverts it or returns on a condition the walk cannot decide; a positive verdict rests on what the
    run saw of this very node; the check's waits are bounded; credentials never reach the output, and the ones
    called valid were confirmed by the servers of their own provider, a Headscale pre-authentication key apart, which
    is shown to no server.
  \<^item> \<open>Restic_Key\<close>, \<open>Restic_Safe\<close> for \<open>scripts/catena-restic-key.py\<close>. Shown: over any sequence of requests the stored
    password opens the stored repository, given restic's documented behaviour (\<open>restic_laws\<close>).
  \<^item> \<open>Knob_Registry\<close>, \<open>Env_Render\<close>, \<open>Env_Sound\<close> for \<open>helpers/render_knobs.py\<close>. Shown: a registry that loads
    renders (the checks of \<open>load\<close> are a type system for the renderer), the renderer's grouping is a stable sort, and
    the file reads back the defaults.
  \<^item> \<open>Seed_Env\<close>, \<open>Seed_Sound\<close>, \<open>Seed_Run\<close>, \<open>Seed_Props\<close> for \<open>ansible/seed.py\<close>. The state of a run is what is typed, what
    was asked and the files. Shown: a refused run writes nothing, a run that succeeds checked every value it adds and put
    no credential in the inventory (values the file had are kept unchecked), a written file reads back, and a second run asks and rewrites nothing.
  \<^item> \<open>Converge_Prune\<close>, \<open>Text_Filters\<close>, \<open>Service_Drift\<close>, \<open>Tier1_Stack\<close>, \<open>Admin_Service\<close> for the filters. Shown: a
    converge deletes only files it installed, an empty service diff means the live service has every flag, every
    network, secret and volume a rendered service uses is declared, and the flags of a drift, applied, reach what
    was declared (the locale \<open>converging\<close>, interpreted for environment, secrets and networks).

  \<^item> \<open>Ssh_Remote\<close>, \<open>Server_Install\<close>, \<open>Install_Safe\<close>, \<open>Install_Status\<close>, \<open>Install_Lines\<close>, \<open>Port_Scan\<close> for
    \<open>remote.py\<close>, \<open>install.py\<close>, \<open>checks.py\<close> and the key pair of \<open>keys.py\<close> in \<open>installer/catena_installer\<close>. The state
    is the known hosts file, the list of what was done on the network, the terminal's unread text and what was
    shown. The locales \<open>conn_invariant\<close> and \<open>login_invariant\<close> say what an invariant of that state has to satisfy
    for a connection and for a login to keep it; they are interpreted for the trusted host key and for the
    accepted logins. Shown: an install sends nothing to a server other than the trusted one, status 0 rests on
    both legs, a new login and the checks from outside, the password block is never printed, the lines do not
    depend on how the network cuts them, and the port scan's workers refine a loop.
  \<^item> \<open>Install_Page\<close>, \<open>Page_Requests\<close>, \<open>Page_Sound\<close>, \<open>Page_Reopen\<close>, \<open>Page_Overlap\<close>, \<open>Console_Install\<close> for
    \<open>run.py\<close>, \<open>registry.py\<close>, \<open>steps.py\<close>, the requests and the thread of \<open>server.py\<close>, and \<open>__main__.py\<close>. The page
    is a state machine: \<open>page_step\<close> serves one request at a time, \<open>overlap_step\<close> splits a form's request at the
    end of its probes. The locale \<open>probe_invariant\<close> extends the contract of a login to the page's probes. Shown:
    one install per inventory when requests do not overlap and two when they do, a saved run reopens without
    its credentials, a probe leaves no trace, the console takes another host key only on the person's word, and
    the two ways the page stays on an install that has ended.

  \<^item> \<open>Session_Proof\<close> for \<open>helpers/session_proof.py\<close>, \<open>Tree_Hash\<close> for \<open>helpers/tree_hash.py\<close>, \<open>Public_Https\<close> for
    \<open>helpers/public_https.py\<close>, \<open>Keycloak_Filters\<close> and \<open>Keycloak_Flows\<close> for the three Keycloak filters. Shown: the
    hardening goes on exactly after a key login of the session's own endpoint, the hash of a tree tells trees
    apart, a DNS answer is read back from its bytes, a person's mail settings and page name stay, and every flow
    and config a sign-in step names is declared and used once.

  \<^bold>\<open>What is a parameter.\<close> Code outside the repository is an argument: the YAML and JSON readers, SHA-256, HTTP
  servers, paramiko and the SSH servers (\<open>ssh_world\<close>), this machine's files (\<open>box\<close>), the programs docker, restic, rclone, ssh, visudo, sshd, tailscale, iptables, tar and gzip members, the
  clock and the random bytes. Answers that may change between two calls are functions of the calls made so far.
  A law such a program has to have is a named hypothesis (\<open>restic_laws\<close>, \<open>sha_hex\<close>, commands that leave files
  alone), each with a witness at a concrete program.

  \<^bold>\<open>Bounds and fuel.\<close> Characters are code points below 256. Loops recurse on the data; where the code has a count
  the model has it: the chain depth 30 of the firewall walk, the attempts of the reachability check and of the
  registry client, the page bound of the tag list, the waits of the store's lock and the 40 links of a path,
  the 5 logins after an account is made, the 2 turns of a forced change of password, the 2000 lines of the page's
  log. A wait on the terminal has finitely many polls, its deadline being the end of their list.

  \<^bold>\<open>Not modelled.\<close> Sockets and TLS, the sockets of the panel forward, the HTML,
  the styles and the translations of the page, where the installer finds its own tree (\<open>tree.py\<close>), the duplicate
  sentence check of the repository's own documents, command-line parsing, and the messages printed beside a
  result. Float values of JSON documents are outside \<open>py\<close>. A failing write of
  \<open>catena-restic-key.py\<close> to the store or to the runtime password file, and a \<open>GENERATIONS\<close> that is a symbolic link to
  a directory, do not occur in the model; a hard link of a layer is a second node with the same content, since
  unpacking never writes into an existing file.
\<close>

end
